(* ===== verification/Prelude.thy ===== *)
theory Prelude
  imports Main "HOL-Library.Word" "HOL-Library.List_Lexorder" "HOL-Library.Product_Lexorder"
begin

text \<open>
  Shared vocabulary of the development.
  \<^item> machine integers at their Rust width and the checked and saturating operations of the
    standard library on them;
  \<^item> the two result types of the code: \<open>Result<T, DomainError>\<close> is a sum whose left side is the
    error, \<open>io::Result<T>\<close> is a sum whose left side is the error text;
  \<^item> big-endian byte strings (\<open>to_be_bytes\<close>, \<open>from_be_bytes\<close>);
  \<^item> ordered tables, the abstract value of one key family of a RocksDB column family: a lookup
    returns what the last write stored, and a scan lists the entries in ascending key order.
    The contract is the locale \<open>ordered_store\<close>; the tables of the model interpret it.
\<close>

named_theorems table_simps \<open>lookups in updated tables\<close>
named_theorems word_arith \<open>machine arithmetic read as arithmetic on nat\<close>

section \<open>Machine integers\<close>

type_synonym u8 = "8 word"
type_synonym u16 = "16 word"
type_synonym u32 = "32 word"
type_synonym u64 = "64 word"
type_synonym bytes = "u8 list"

definition checked_add :: "'a::len word \<Rightarrow> 'a word \<Rightarrow> 'a word option" where
  "checked_add a b = (if unat a + unat b < 2 ^ LENGTH('a) then Some (a + b) else None)"

definition checked_sub :: "'a::len word \<Rightarrow> 'a word \<Rightarrow> 'a word option" where
  "checked_sub a b = (if b \<le> a then Some (a - b) else None)"

definition saturating_add :: "'a::len word \<Rightarrow> 'a word \<Rightarrow> 'a word" where
  "saturating_add a b = (if unat a + unat b < 2 ^ LENGTH('a) then a + b else - 1)"

definition saturating_sub :: "'a::len word \<Rightarrow> 'a word \<Rightarrow> 'a word" where
  "saturating_sub a b = (if b \<le> a then a - b else 0)"

text \<open>\<open>usize\<close> is 64 bits wide; lengths are naturals and the checked sum has the bound written out.\<close>

definition usize_checked_add :: "nat \<Rightarrow> nat \<Rightarrow> nat option" where
  "usize_checked_add a b = (if a + b < 2 ^ 64 then Some (a + b) else None)"

lemma unat_lt_width: "unat w < 2 ^ LENGTH('a)" for w :: "'a::len word"
  by (rule unsigned_less)

lemma checked_add_Some [word_arith]:
  "checked_add a b = Some c \<longleftrightarrow> unat c = unat a + unat b"
  for a b c :: "'a::len word"
proof
  assume "checked_add a b = Some c"
  then show "unat c = unat a + unat b"
    by (auto simp: checked_add_def unat_word_ariths split: if_splits)
next
  assume u: "unat c = unat a + unat b"
  have "unat c < 2 ^ LENGTH('a)" by (rule unat_lt_width)
  with u have lt: "unat a + unat b < 2 ^ LENGTH('a)" by simp
  have "c = a + b"
    using u lt by (metis unat_word_ariths(1) mod_less word_unat_eq_iff)
  with lt show "checked_add a b = Some c" by (simp add: checked_add_def)
qed

lemma checked_add_None [word_arith]:
  "checked_add a b = None \<longleftrightarrow> 2 ^ LENGTH('a) \<le> unat a + unat b"
  for a b :: "'a::len word"
  by (auto simp: checked_add_def)

lemma checked_sub_Some [word_arith]:
  "checked_sub a b = Some c \<longleftrightarrow> b \<le> a \<and> unat c = unat a - unat b"
  for a b c :: "'a::len word"
  by (auto simp: checked_sub_def unat_sub word_unat_eq_iff)

lemma unat_saturating_add [word_arith]:
  "unat (saturating_add a b) = min (unat a + unat b) (2 ^ LENGTH('a) - 1)"
  for a b :: "'a::len word"
proof (cases "unat a + unat b < 2 ^ LENGTH('a)")
  case True
  then have "unat a + unat b \<le> 2 ^ LENGTH('a) - 1" by linarith
  with True show ?thesis by (simp add: saturating_add_def unat_word_ariths min_absorb1)
next
  case False
  have "unat (- 1 :: 'a word) = 2 ^ LENGTH('a) - 1"
    by (simp add: unsigned_minus_1_eq_mask mask_eq_exp_minus_1)
  moreover have "2 ^ LENGTH('a) - 1 \<le> unat a + unat b" using False by linarith
  ultimately show ?thesis using False by (simp add: saturating_add_def min_absorb2)
qed

lemma unat_saturating_sub [word_arith]: "unat (saturating_sub a b) = unat a - unat b"
  by (auto simp: saturating_sub_def unat_sub word_le_nat_alt)

lemma unat_Suc_below: "a < b \<Longrightarrow> unat (a + 1) = unat a + 1"
  for a b :: "'a::len word"
proof -
  assume "a < b"
  then have "unat a < unat b" by (simp add: word_less_nat_alt)
  moreover have "unat b < 2 ^ LENGTH('a)" by (rule unat_lt_width)
  ultimately have "unat a + 1 < 2 ^ LENGTH('a)" by linarith
  then show ?thesis by (simp add: unat_word_ariths)
qed

lemma saturating_add_one: "a < b \<Longrightarrow> saturating_add a 1 = a + 1"
  for a b :: "'a::len word"
proof -
  assume "a < b"
  then have "unat a < unat b" by (simp add: word_less_nat_alt)
  moreover have "unat b < 2 ^ LENGTH('a)" by (rule unat_lt_width)
  ultimately have "unat a + 1 < 2 ^ LENGTH('a)" by linarith
  then have "unat a + unat (1::'a word) < 2 ^ LENGTH('a)" by simp
  then show ?thesis by (simp only: saturating_add_def if_True)
qed

section \<open>Results\<close>

text \<open>
  \<open>Result<T, E>\<close> as \<open>'e + 't\<close>. An I/O failure carries its message; \<open>io_error\<close> of the source builds it.
\<close>

type_synonym 'a io = "string + 'a"

definition bind_result :: "'e + 'a \<Rightarrow> ('a \<Rightarrow> 'e + 'b) \<Rightarrow> 'e + 'b" where
  "bind_result m f = (case m of Inl e \<Rightarrow> Inl e | Inr x \<Rightarrow> f x)"

lemma bind_result_simps [simp]:
  "bind_result (Inl e) f = Inl e"
  "bind_result (Inr x) f = f x"
  by (simp_all add: bind_result_def)

lemma bind_result_Inr:
  "bind_result m f = Inr y \<longleftrightarrow> (\<exists>x. m = Inr x \<and> f x = Inr y)"
  by (cases m) auto

lemma bind_result_Inl:
  "bind_result m f = Inl e \<longleftrightarrow> m = Inl e \<or> (\<exists>x. m = Inr x \<and> f x = Inl e)"
  by (cases m) auto

definition ok_or :: "'e \<Rightarrow> 'a option \<Rightarrow> 'e + 'a" where
  "ok_or e x = (case x of None \<Rightarrow> Inl e | Some v \<Rightarrow> Inr v)"

lemma ok_or_simps [simp]: "ok_or e None = Inl e" "ok_or e (Some v) = Inr v"
  by (simp_all add: ok_or_def)

lemma ok_or_Inr [simp]: "ok_or e x = Inr v \<longleftrightarrow> x = Some v"
  by (cases x) auto

lemma ok_or_Inl [simp]: "ok_or e x = Inl e' \<longleftrightarrow> x = None \<and> e' = e"
  by (cases x) auto

section \<open>Text\<close>

text \<open>Byte literals \<open>b"..."\<close>, decimal and lower-case hexadecimal printing.\<close>

definition ascii :: "string \<Rightarrow> bytes" where
  "ascii s = map (\<lambda>c. word_of_nat (of_char c)) s"

fun show_nat :: "nat \<Rightarrow> string" where
  "show_nat n =
     (if n < 10 then [char_of (48 + n)] else show_nat (n div 10) @ [char_of (48 + n mod 10)])"

declare show_nat.simps [simp del]

definition hex_digit :: "nat \<Rightarrow> char" where
  "hex_digit n = (if n < 10 then char_of (48 + n) else char_of (87 + n))"

definition lower_hex :: "bytes \<Rightarrow> string" where
  "lower_hex bs = concat (map (\<lambda>b. [hex_digit (unat b div 16), hex_digit (unat b mod 16)]) bs)"

section \<open>Big-endian integers\<close>

text \<open>
  \<open>be_nat n x\<close> is the \<open>n\<close>-byte big-endian form of \<open>x\<close>; \<open>to_be_bytes\<close> of a \<open>w\<close>-bit word is the
  form of \<open>w div 8\<close> bytes.
\<close>

fun be_nat :: "nat \<Rightarrow> nat \<Rightarrow> bytes" where
  "be_nat 0 x = []"
| "be_nat (Suc n) x = be_nat n (x div 256) @ [word_of_nat (x mod 256)]"

definition nat_of_be :: "bytes \<Rightarrow> nat" where
  "nat_of_be bs = foldl (\<lambda>acc b. acc * 256 + unat b) 0 bs"

definition to_be_bytes :: "'a::len word \<Rightarrow> bytes" where
  "to_be_bytes w = be_nat (LENGTH('a) div 8) (unat w)"

definition from_be_bytes :: "bytes \<Rightarrow> 'a::len word" where
  "from_be_bytes bs = word_of_nat (nat_of_be bs)"

lemma length_be_nat [simp]: "length (be_nat n x) = n"
  by (induction n arbitrary: x) auto

lemma unat_byte_of_mod: "unat (word_of_nat (x mod 256) :: u8) = x mod 256"
  by (simp add: unat_of_nat)

lemma nat_of_be_snoc: "nat_of_be (bs @ [b]) = nat_of_be bs * 256 + unat b"
  by (simp add: nat_of_be_def)

lemma nat_of_be_nat: "x < 256 ^ n \<Longrightarrow> nat_of_be (be_nat n x) = x"
proof (induction n arbitrary: x)
  case 0
  then show ?case by (simp add: nat_of_be_def)
next
  case (Suc n)
  from Suc.prems have "x div 256 < 256 ^ n" by (simp add: less_mult_imp_div_less mult.commute)
  then have "nat_of_be (be_nat n (x div 256)) = x div 256" by (rule Suc.IH)
  then show ?case by (simp add: nat_of_be_snoc unat_byte_of_mod del: unat_of_nat)
qed

lemma be_nat_inject: "x < 256 ^ n \<Longrightarrow> y < 256 ^ n \<Longrightarrow> be_nat n x = be_nat n y \<longleftrightarrow> x = y"
  by (metis nat_of_be_nat)

text \<open>Byte strings of one length compare as the numbers they encode, as RocksDB orders keys.\<close>

lemma list_less_snoc:
  "length xs = length ys \<Longrightarrow> xs @ [a] < ys @ [b] \<longleftrightarrow> xs < ys \<or> xs = ys \<and> a < b"
  for xs ys :: "'a::order list"
  by (induction xs ys rule: list_induct2) auto

lemma list_less_prefix [simp]: "p @ xs < p @ ys \<longleftrightarrow> xs < ys" for xs ys :: "'a::order list"
  by (induction p) auto

lemma div_mod_less:
  "x div 256 < y div 256 \<or> x div 256 = y div 256 \<and> x mod 256 < y mod 256 \<longleftrightarrow> x < y"
  for x y :: nat
proof -
  have "x = 256 * (x div 256) + x mod 256" "y = 256 * (y div 256) + y mod 256" by simp_all
  moreover have "x mod 256 < 256" "y mod 256 < 256" by simp_all
  ultimately show ?thesis by linarith
qed

lemma be_nat_less: "x < 256 ^ n \<Longrightarrow> y < 256 ^ n \<Longrightarrow> be_nat n x < be_nat n y \<longleftrightarrow> x < y"
proof (induction n arbitrary: x y)
  case 0
  then show ?case by simp
next
  case (Suc n)
  from Suc.prems have b: "x div 256 < 256 ^ n" "y div 256 < 256 ^ n"
    by (simp_all add: less_mult_imp_div_less mult.commute)
  have "(word_of_nat (x mod 256) :: u8) < word_of_nat (y mod 256) \<longleftrightarrow> x mod 256 < y mod 256"
    by (simp only: word_less_nat_alt unat_byte_of_mod)
  then have "be_nat (Suc n) x < be_nat (Suc n) y \<longleftrightarrow>
      x div 256 < y div 256 \<or> x div 256 = y div 256 \<and> x mod 256 < y mod 256"
    using Suc.IH [OF b] be_nat_inject [OF b] by (simp add: list_less_snoc)
  also have "\<dots> \<longleftrightarrow> x < y"
    by (simp add: div_mod_less)
  finally show ?case .
qed

lemma unat_lt_bytes: "8 dvd LENGTH('a) \<Longrightarrow> unat w < 256 ^ (LENGTH('a) div 8)"
  for w :: "'a::len word"
proof -
  assume "8 dvd LENGTH('a)"
  then have "8 * (LENGTH('a) div 8) = LENGTH('a)" by simp
  then have "(256::nat) ^ (LENGTH('a) div 8) = 2 ^ LENGTH('a)"
    using power_mult [of "2::nat" 8 "LENGTH('a) div 8"] by simp
  then show ?thesis using unat_lt_width [of w] by simp
qed

section \<open>Ordered stores\<close>

text \<open>
  What the code relies on of one key family of a column family: point reads see the last write or
  deletion of the key, and an iterator lists the live entries in strictly ascending key order.
\<close>

locale ordered_store =
  fixes get :: "'s \<Rightarrow> 'k::linorder \<Rightarrow> 'v option"
    and put :: "'s \<Rightarrow> 'k \<Rightarrow> 'v \<Rightarrow> 's"
    and del :: "'s \<Rightarrow> 'k \<Rightarrow> 's"
    and entries :: "'s \<Rightarrow> ('k \<times> 'v) list"
    and wf :: "'s \<Rightarrow> bool"
  assumes get_put: "get (put s k v) = (get s)(k \<mapsto> v)"
    and get_del: "get (del s k) = (get s)(k := None)"
    and wf_put: "wf s \<Longrightarrow> wf (put s k v)"
    and wf_del: "wf s \<Longrightarrow> wf (del s k)"
    and entries_ascending: "wf s \<Longrightarrow> sorted_wrt (<) (map fst (entries s))"
    and entries_get: "wf s \<Longrightarrow> (k, v) \<in> set (entries s) \<longleftrightarrow> get s k = Some v"
begin

lemma entries_distinct: "wf s \<Longrightarrow> distinct (entries s)"
  using entries_ascending [of s] by (metis distinct_map strict_sorted_iff)

lemma entries_set: "wf s \<Longrightarrow> set (entries s) = {(k, v). get s k = Some v}"
  using entries_get by auto

text \<open>A scan depends on the live entries alone: two stores that read alike list alike.\<close>

lemma entries_determined:
  assumes "wf s" "wf t" "get s = get t"
  shows "entries s = entries t"
proof -
  have "set (entries s) = set (entries t)" using assms by (simp add: entries_set)
  then have "map fst (entries s) = map fst (entries t)"
    using entries_ascending [OF assms(1)] entries_ascending [OF assms(2)]
    by (metis list.set_map sorted_distinct_set_unique strict_sorted_iff)
  moreover have "map (get s) (map fst (entries s)) = map (Some \<circ> snd) (entries s)"
    using assms(1) by (auto simp: entries_get [symmetric])
  moreover have "map (get t) (map fst (entries t)) = map (Some \<circ> snd) (entries t)"
    using assms(2) by (auto simp: entries_get [symmetric])
  ultimately have "map snd (entries s) = map snd (entries t)"
    by (metis (no_types, lifting) assms(3) inj_Some list.inj_map_strong map_map option.inject)
  with \<open>map fst (entries s) = map fst (entries t)\<close> show ?thesis
    by (metis zip_map_fst_snd)
qed

text \<open>Weights over a scan: what one write and one deletion do to a total.\<close>

lemma weight_as_sum:
  fixes f :: "'k \<Rightarrow> 'v \<Rightarrow> nat"
  assumes "wf s"
  shows "(\<Sum>(k, v)\<leftarrow>entries s. f k v) = (\<Sum>(k, v)\<in>{(k, v). get s k = Some v}. f k v)"
  using entries_distinct [OF assms] entries_set [OF assms]
  by (simp add: sum_list_distinct_conv_sum_set)

lemma live_finite: "wf s \<Longrightarrow> finite {(k, v). get s k = Some v}"
  using entries_set by (metis List.finite_set)

lemma weight_del:
  fixes f :: "'k \<Rightarrow> 'v \<Rightarrow> nat"
  assumes "wf s"
  shows "(\<Sum>(k, v)\<leftarrow>entries s. f k v) =
    (\<Sum>(k, v)\<leftarrow>entries (del s a). f k v) + (case get s a of None \<Rightarrow> 0 | Some v \<Rightarrow> f a v)"
proof (cases "get s a")
  case None
  then have "get (del s a) = get s" by (simp add: get_del fun_upd_idem)
  with None show ?thesis using entries_determined [OF wf_del] assms by simp
next
  case (Some b)
  have "{(k, v). get s k = Some v} = insert (a, b) {(k, v). get (del s a) k = Some v}"
    using Some by (auto simp: get_del split: if_splits)
  moreover have "(a, b) \<notin> {(k, v). get (del s a) k = Some v}" by (simp add: get_del)
  ultimately show ?thesis
    using Some live_finite [OF wf_del [OF assms]] weight_as_sum [OF assms]
      weight_as_sum [OF wf_del [OF assms]] by simp
qed

lemma weight_put:
  fixes f :: "'k \<Rightarrow> 'v \<Rightarrow> nat"
  assumes "wf s"
  shows "(\<Sum>(k, v)\<leftarrow>entries (put s a b). f k v) + (case get s a of None \<Rightarrow> 0 | Some v \<Rightarrow> f a v) =
    (\<Sum>(k, v)\<leftarrow>entries s. f k v) + f a b"
proof -
  have "get (del (put s a b) a) = get (del s a)" by (simp add: get_put get_del)
  then have "entries (del (put s a b) a) = entries (del s a)"
    using assms by (intro entries_determined) (simp_all add: wf_put wf_del)
  then show ?thesis
    using weight_del [OF wf_put [OF assms], of f a b a] weight_del [OF assms, of f a]
    by (simp add: get_put)
qed

end

text \<open>
  The tables of the model: association lists kept in ascending key order. Reads are the first entry
  of the key, so the read laws hold of every list.
\<close>

type_synonym ('k, 'v) table = "('k \<times> 'v) list"

fun tget :: "('k, 'v) table \<Rightarrow> 'k \<Rightarrow> 'v option" where
  "tget [] k = None"
| "tget (e # t) k = (if fst e = k then Some (snd e) else tget t k)"

fun tput :: "('k::linorder, 'v) table \<Rightarrow> 'k \<Rightarrow> 'v \<Rightarrow> ('k, 'v) table" where
  "tput [] k v = [(k, v)]"
| "tput (e # t) k v =
     (if fst e < k then e # tput t k v
      else if fst e = k then (k, v) # t
      else (k, v) # e # t)"

definition tdel :: "('k, 'v) table \<Rightarrow> 'k \<Rightarrow> ('k, 'v) table" where
  "tdel t k = filter (\<lambda>e. fst e \<noteq> k) t"

definition tsorted :: "('k::linorder, 'v) table \<Rightarrow> bool" where
  "tsorted t \<longleftrightarrow> sorted_wrt (<) (map fst t)"

text \<open>\<open>get(..).unwrap_or_default()\<close> with the default written out.\<close>

definition tget_or :: "'v \<Rightarrow> ('k, 'v) table \<Rightarrow> 'k \<Rightarrow> 'v" where
  "tget_or d t k = (case tget t k of None \<Rightarrow> d | Some v \<Rightarrow> v)"

lemma tget_tput [simp, table_simps]:
  "tget (tput t k v) k' = (if k' = k then Some v else tget t k')"
  by (induction t) auto

lemma tget_tdel [simp, table_simps]: "tget (tdel t k) k' = (if k' = k then None else tget t k')"
  by (induction t) (auto simp: tdel_def)

lemma tget_or_tput [simp, table_simps]:
  "tget_or d (tput t k v) k' = (if k' = k then v else tget_or d t k')"
  by (simp add: tget_or_def)

lemma tget_or_tdel [simp, table_simps]:
  "tget_or d (tdel t k) k' = (if k' = k then d else tget_or d t k')"
  by (simp add: tget_or_def)

lemma tget_or_Some: "tget t k = Some v \<Longrightarrow> tget_or d t k = v"
  by (simp add: tget_or_def)

lemma tget_or_None: "tget t k = None \<Longrightarrow> tget_or d t k = d"
  by (simp add: tget_or_def)

lemma keys_tput: "fst ` set (tput t k v) = insert k (fst ` set t)"
  by (induction t) auto

lemma tsorted_Nil [simp]: "tsorted []"
  by (simp add: tsorted_def)

lemma tsorted_Cons: "tsorted (e # t) \<longleftrightarrow> (\<forall>x \<in> fst ` set t. fst e < x) \<and> tsorted t"
  by (auto simp: tsorted_def)

lemma tsorted_tput [simp]: "tsorted t \<Longrightarrow> tsorted (tput t k v)"
  by (induction t) (force simp: tsorted_Cons keys_tput)+

lemma tsorted_tdel [simp]: "tsorted t \<Longrightarrow> tsorted (tdel t k)"
  by (induction t) (auto simp: tdel_def tsorted_Cons)

lemma tget_Some_in: "tget t k = Some v \<Longrightarrow> (k, v) \<in> set t"
  by (induction t) (auto split: if_splits)

lemma tget_set: "tsorted t \<Longrightarrow> (k, v) \<in> set t \<longleftrightarrow> tget t k = Some v"
proof (induction t)
  case (Cons e t)
  then show ?case by (cases e) (force simp: tsorted_Cons dest: tget_Some_in)
qed simp

interpretation tab: ordered_store tget tput tdel "\<lambda>t. t" tsorted
  by unfold_locales (auto simp: fun_eq_iff tget_set tsorted_def [symmetric])

text \<open>Writing back the value that is there changes nothing.\<close>

lemma tput_same: "tsorted t \<Longrightarrow> tget t k = Some v \<Longrightarrow> tput t k v = t"
  by (rule tab.entries_determined) auto

lemma tput_tput_same: "tsorted t \<Longrightarrow> tput (tput t k u) k v = tput t k v"
  by (rule tab.entries_determined) auto

text \<open>\<open>collect::<BTreeMap<_, _>>()\<close> inserts the pairs in order.\<close>

definition collect_table :: "('k::linorder \<times> 'v) list \<Rightarrow> ('k, 'v) table" where
  "collect_table kvs = fold (\<lambda>(k, v) t. tput t k v) kvs []"

text \<open>Collecting the entries of a sorted table rebuilds it.\<close>

lemma tput_above: "\<forall>x \<in> fst ` set t. x < k \<Longrightarrow> tput t k v = t @ [(k, v)]"
  by (induction t) auto

lemma fold_tput_sorted:
  "sorted_wrt (<) (map fst (acc @ t)) \<Longrightarrow> fold (\<lambda>(k, v) u. tput u k v) t acc = acc @ t"
proof (induction t arbitrary: acc)
  case (Cons e t)
  then have "tput acc (fst e) (snd e) = acc @ [e]"
    by (subst tput_above) (auto simp: sorted_wrt_append)
  with Cons show ?case by (simp add: case_prod_unfold)
qed simp

lemma collect_table_sorted: "tsorted t \<Longrightarrow> collect_table t = t"
  using fold_tput_sorted [of "[]" t] by (simp add: collect_table_def tsorted_def)

lemma set_tput_fresh: "tget t k = None \<Longrightarrow> set (tput t k v) = insert (k, v) (set t)"
  by (induction t) (auto split: if_splits)

lemma length_tput_fresh: "tget t k = None \<Longrightarrow> length (tput t k v) = Suc (length t)"
  by (induction t) (auto split: if_splits)

lemma length_tsorted: "tsorted t \<Longrightarrow> length t = card (fst ` set t)"
  by (metis distinct_card length_map list.set_map strict_sorted_iff tsorted_def)

lemma tsorted_values_determine:
  "tsorted t \<Longrightarrow> (\<And>k v. (k, v) \<in> set t \<Longrightarrow> f v = k) \<Longrightarrow> map (\<lambda>v. (f v, v)) (map snd t) = t"
  by (force intro: map_idI)

section \<open>Step relations and their runs\<close>

text \<open>
  \<open>runs step s es t\<close>: the events \<open>es\<close>, one step each, lead from \<open>s\<close> to \<open>t\<close>. A component that keeps
  an invariant on every step keeps it on every run, and a rank no step lowers is not lowered by a
  run; the components interpret the two locales on their own steps.
\<close>

inductive runs :: "('s \<Rightarrow> 'e \<Rightarrow> 's \<Rightarrow> bool) \<Rightarrow> 's \<Rightarrow> 'e list \<Rightarrow> 's \<Rightarrow> bool" for step where
  runs_Nil: "runs step s [] s"
| runs_Cons: "step s e t \<Longrightarrow> runs step t es u \<Longrightarrow> runs step s (e # es) u"

inductive_simps runs_Nil_iff [simp]: "runs step s [] t"
inductive_simps runs_Cons_iff: "runs step s (e # es) u"

lemma runs_append: "runs step s (es @ fs) u \<longleftrightarrow> (\<exists>t. runs step s es t \<and> runs step t fs u)"
  by (induction es arbitrary: s) (auto simp: runs_Cons_iff)

locale keeps_invariant =
  fixes step :: "'s \<Rightarrow> 'e \<Rightarrow> 's \<Rightarrow> bool"
    and ok :: "'s \<Rightarrow> bool"
  assumes step_ok: "step s e t \<Longrightarrow> ok s \<Longrightarrow> ok t"
begin

lemma runs_ok: "runs step s es t \<Longrightarrow> ok s \<Longrightarrow> ok t"
  by (induction rule: runs.induct) (auto dest: step_ok)

lemma runs_ok_prefix: "runs step s (es @ fs) u \<Longrightarrow> ok s \<Longrightarrow> \<exists>t. runs step s es t \<and> ok t"
  using runs_ok by (auto simp: runs_append)

end

locale keeps_rank = keeps_invariant +
  fixes rank :: "'a \<Rightarrow> 'r::preorder"
  assumes step_rank: "step s e t \<Longrightarrow> ok s \<Longrightarrow> rank s \<le> rank t"
begin

lemma runs_rank: "runs step s es t \<Longrightarrow> ok s \<Longrightarrow> rank s \<le> rank t"
  by (induction rule: runs.induct) (auto dest: step_ok step_rank intro: order_trans)

end

end
