(* ===== verification/Domain.thy ===== *)
theory Domain
  imports Prelude
begin

text \<open>
  The domain types of \<open>crates/light-stream-core\<close>: identities, cursors and ranges, publish requests,
  bookmarks, checkpoints, replay leases, the stream catalog, bootstrap data and the error type.
  Structs are records whose field names carry the struct's initials, enums are datatypes, and the
  checked constructors (\<open>new\<close>, \<open>parse\<close>) return the domain error or the value. A Rust \<open>String\<close> is its
  UTF-8 bytes (\<open>utf8\<close>); the reason texts of errors are Isabelle strings. UUIDs are 128-bit words,
  so their order and their byte form are those of the \<open>uuid\<close> type.
\<close>

section \<open>Identities\<close>

type_synonym utf8 = bytes
type_synonym uuid = "128 word"
type_synonym ClusterId = uuid
type_synonym StreamId = uuid
type_synonym CatalogRequestId = uuid
type_synonym ProducerSessionId = uuid
type_synonym BookmarkId = uuid
type_synonym MutationSessionId = uuid
type_synonym ReplayLeaseId = uuid
type_synonym AdministrationRequestId = uuid
type_synonym ExportId = uuid
type_synonym NodeId = u64
type_synonym GroupId = u64
type_synonym PartitionId = u32
type_synonym RequestSequence = u64
type_synonym BookmarkPublicationSequence = u64
type_synonym RecordOffset = u64
type_synonym PrincipalId = utf8
type_synonym ConsumerId = utf8
type_synonym StreamName = utf8
type_synonym BookmarkName = utf8

datatype PartitionKey = PartitionKey (pk_stream: StreamId) (pk_partition: PartitionId)

instantiation PartitionKey :: linorder
begin

definition less_eq_PartitionKey :: "PartitionKey \<Rightarrow> PartitionKey \<Rightarrow> bool" where
  "less_eq_PartitionKey a b \<longleftrightarrow> (pk_stream a, pk_partition a) \<le> (pk_stream b, pk_partition b)"

definition less_PartitionKey :: "PartitionKey \<Rightarrow> PartitionKey \<Rightarrow> bool" where
  "less_PartitionKey a b \<longleftrightarrow> (pk_stream a, pk_partition a) < (pk_stream b, pk_partition b)"

instance
  by intro_classes
    (auto simp: less_eq_PartitionKey_def less_PartitionKey_def PartitionKey.expand less_le_not_le
      linorder_le_less_linear)

end

record ProducerRequestId =
  pr_principal :: PrincipalId
  pr_session :: ProducerSessionId
  pr_sequence :: RequestSequence

record MutationRequestId =
  mr_principal :: PrincipalId
  mr_session :: MutationSessionId
  mr_sequence :: RequestSequence

section \<open>Errors\<close>

datatype ConsensusGroup = CG_Control | CG_Data

record LeaderHint =
  lh_node_id :: NodeId
  lh_public_uri :: utf8

datatype RequestOutcome = DefiniteNoCommit | AmbiguousCommit | NotApplicable

datatype AmbiguousRequest =
    AmbiguousPublish ProducerRequestId
  | AmbiguousMutation MutationRequestId

datatype ReplayLeaseLifecycle = LeaseActive | LeaseReleased | LeaseExpired

datatype DomainError =
    InvalidIdentity string string
  | InvalidName string string
  | InvalidRange string
  | InvalidPayload string
  | NotBootstrapped
  | BootstrapConflict string
  | IdentityMismatch string
  | ReceiptConflict
  | ReceiptExpired
  | ReceiptNotFound
  | Storage string
  | NotLeader ConsensusGroup "LeaderHint option"
  | QuorumUnavailable ConsensusGroup RequestOutcome "AmbiguousRequest option"
  | ClusterForming
  | StreamNotFound
  | StreamNotActive
  | StreamNameConflict
  | BookmarkNotFound
  | BookmarkNameConflict
  | CheckpointNotFound
  | CheckpointAheadOfTail RecordOffset RecordOffset
  | CheckpointRegression RecordOffset RecordOffset
  | CursorExpired RecordOffset RecordOffset
  | ReplayLeaseNotFound ReplayLeaseId
  | ReplayLeaseInactive ReplayLeaseId ReplayLeaseLifecycle
  | ReplayLeaseConflict
  | ReplayLeaseRangeViolation
  | ReplayLeaseLifetimeExhausted
  | MutationConflict
  | MutationReceiptExpired
  | ExportConflict
  | ExportInProgress ExportId RequestOutcome
  | LeaseClockUnavailable
  | PublishOverloaded string u64
  | ResourceLimit string u64
  | SecurityAuthenticationFailed
  | SecurityPermissionDenied
  | SecurityPolicyConflict
  | SecurityPolicyStale
  | ShuttingDown RequestOutcome
  | StaleRoute
  | UnsupportedOperation string string

type_synonym 'a result = "DomainError + 'a"

section \<open>Checked identity constructors\<close>

definition nonzero_new :: "string \<Rightarrow> u64 \<Rightarrow> u64 result" where
  "nonzero_new kind value =
     (if value = 0 then Inl (InvalidIdentity kind ''zero is reserved'') else Inr value)"

text \<open>
  \<open>char::is_control\<close> holds of U+0000 to U+001F and U+007F to U+009F. In UTF-8 the first block and
  U+007F are single bytes and U+0080 to U+009F are the pairs C2 80 to C2 9F; C2 is never a
  continuation byte.
\<close>

fun has_control :: "utf8 \<Rightarrow> bool" where
  "has_control [] = False"
| "has_control (b # bs) =
     (b < 32 \<or> b = 127 \<or>
      (b = 194 \<and> (case bs of [] \<Rightarrow> False | c # _ \<Rightarrow> 128 \<le> c \<and> c \<le> 159)) \<or>
      has_control bs)"

definition bounded_text_parse :: "string \<Rightarrow> nat \<Rightarrow> utf8 \<Rightarrow> utf8 result" where
  "bounded_text_parse kind limit value =
     (if value = [] then Inl (InvalidName kind ''value is empty'')
      else if length value > limit
      then Inl (InvalidName kind (''value exceeds '' @ show_nat limit @ '' UTF-8 bytes''))
      else if has_control value
      then Inl (InvalidName kind ''control characters are not allowed'')
      else Inr value)"

definition PrincipalId_parse :: "utf8 \<Rightarrow> PrincipalId result" where
  "PrincipalId_parse = bounded_text_parse ''principal ID'' 128"

definition ConsumerId_parse :: "utf8 \<Rightarrow> ConsumerId result" where
  "ConsumerId_parse = bounded_text_parse ''consumer ID'' 128"

definition StreamName_parse :: "utf8 \<Rightarrow> StreamName result" where
  "StreamName_parse = bounded_text_parse ''stream name'' 255"

definition BookmarkName_parse :: "utf8 \<Rightarrow> BookmarkName result" where
  "BookmarkName_parse = bounded_text_parse ''bookmark name'' 255"

section \<open>Cursors and ranges\<close>

definition offset_checked_add :: "RecordOffset \<Rightarrow> u64 \<Rightarrow> RecordOffset result" where
  "offset_checked_add off count =
     ok_or (InvalidRange ''record offset overflow'') (checked_add off count)"

record CommittedCursor =
  cc_cluster :: ClusterId
  cc_partition :: PartitionKey
  cc_next_offset :: RecordOffset

record CommittedRecordRange =
  rr_partition :: PartitionKey
  rr_first :: RecordOffset
  rr_count :: u64

definition CommittedRecordRange_new ::
  "PartitionKey \<Rightarrow> RecordOffset \<Rightarrow> u64 \<Rightarrow> CommittedRecordRange result" where
  "CommittedRecordRange_new p first count =
     (if count = 0 then Inl (InvalidRange ''a committed range cannot be empty'')
      else bind_result (offset_checked_add first count)
        (\<lambda>_. Inr \<lparr>rr_partition = p, rr_first = first, rr_count = count\<rparr>))"

text \<open>
  \<open>next\<close> panics when the sum overflows (\<open>expect\<close>); the panic is \<open>None\<close>.
\<close>

definition range_next :: "CommittedRecordRange \<Rightarrow> RecordOffset option" where
  "range_next r =
     (case offset_checked_add (rr_first r) (rr_count r) of Inl _ \<Rightarrow> None | Inr v \<Rightarrow> Some v)"

record CommittedRecord =
  cr_offset :: RecordOffset
  cr_payload :: bytes

record FetchPage =
  fp_partition :: PartitionKey
  fp_records :: "CommittedRecord list"
  fp_next_offset :: RecordOffset

section \<open>Bookmarks\<close>

datatype BookmarkLifecycle = BookmarkAvailable | BookmarkDeleted

record CommittedBookmark =
  cb_id :: BookmarkId
  cb_name :: BookmarkName
  cb_cursor :: CommittedCursor
  cb_publication :: BookmarkPublicationSequence
  cb_lifecycle :: BookmarkLifecycle

definition CommittedBookmark_published ::
  "BookmarkId \<Rightarrow> BookmarkName \<Rightarrow> CommittedCursor \<Rightarrow> BookmarkPublicationSequence \<Rightarrow> CommittedBookmark"
where
  "CommittedBookmark_published bid name cursor publication =
     \<lparr>cb_id = bid, cb_name = name, cb_cursor = cursor, cb_publication = publication,
      cb_lifecycle = BookmarkAvailable\<rparr>"

definition bookmark_mark_deleted :: "CommittedBookmark \<Rightarrow> CommittedBookmark" where
  "bookmark_mark_deleted b = b\<lparr>cb_lifecycle := BookmarkDeleted\<rparr>"

record BookmarkPageRequest =
  bpr_partition :: PartitionKey
  bpr_limit :: u32
  bpr_publication_ceiling :: "BookmarkPublicationSequence option"
  bpr_before :: "BookmarkPublicationSequence option"

definition BookmarkPageRequest_new ::
  "PartitionKey \<Rightarrow> u32 \<Rightarrow> u64 option \<Rightarrow> u64 option \<Rightarrow> BookmarkPageRequest result" where
  "BookmarkPageRequest_new p limit ceiling before =
     (if limit = 0 \<or> limit > 1000
      then Inl (InvalidRange ''bookmark page limit must be between 1 and 1000'')
      else Inr \<lparr>bpr_partition = p, bpr_limit = limit, bpr_publication_ceiling = ceiling,
                bpr_before = before\<rparr>)"

record BookmarkPage =
  bp_items :: "CommittedBookmark list"
  bp_publication_ceiling :: BookmarkPublicationSequence
  bp_next_before :: "BookmarkPublicationSequence option"

record StreamCursorVector =
  sv_cluster :: ClusterId
  sv_stream :: StreamId
  sv_positions :: "CommittedCursor list"

text \<open>The validation loop of \<open>StreamCursorVector::new\<close>, with the set of partitions seen so far.\<close>

fun vector_check ::
  "ClusterId \<Rightarrow> StreamId \<Rightarrow> PartitionId list \<Rightarrow> CommittedCursor list \<Rightarrow> unit result" where
  "vector_check cluster stream seen [] = Inr ()"
| "vector_check cluster stream seen (c # cs) =
     (if cc_cluster c \<noteq> cluster
      then Inl (InvalidRange ''every cursor must belong to the vector cluster'')
      else if pk_stream (cc_partition c) \<noteq> stream
      then Inl (InvalidRange ''every cursor must belong to the vector stream'')
      else if pk_partition (cc_partition c) \<in> set seen
      then Inl (InvalidRange ''a stream cursor vector cannot repeat a partition'')
      else vector_check cluster stream (pk_partition (cc_partition c) # seen) cs)"

definition StreamCursorVector_new ::
  "StreamId \<Rightarrow> CommittedCursor list \<Rightarrow> StreamCursorVector result" where
  "StreamCursorVector_new stream positions =
     (case positions of
        [] \<Rightarrow> Inl (InvalidRange ''a stream cursor vector needs at least one partition'')
      | c # _ \<Rightarrow>
          bind_result (vector_check (cc_cluster c) stream [] positions)
            (\<lambda>_. Inr \<lparr>sv_cluster = cc_cluster c, sv_stream = stream, sv_positions = positions\<rparr>))"

record CommittedStreamBookmark =
  sb_id :: BookmarkId
  sb_name :: BookmarkName
  sb_vector :: StreamCursorVector
  sb_publication :: BookmarkPublicationSequence
  sb_lifecycle :: BookmarkLifecycle

definition CommittedStreamBookmark_published ::
  "BookmarkId \<Rightarrow> BookmarkName \<Rightarrow> StreamCursorVector \<Rightarrow> BookmarkPublicationSequence
   \<Rightarrow> CommittedStreamBookmark" where
  "CommittedStreamBookmark_published bid name vector publication =
     \<lparr>sb_id = bid, sb_name = name, sb_vector = vector, sb_publication = publication,
      sb_lifecycle = BookmarkAvailable\<rparr>"

definition stream_bookmark_mark_deleted :: "CommittedStreamBookmark \<Rightarrow> CommittedStreamBookmark" where
  "stream_bookmark_mark_deleted b = b\<lparr>sb_lifecycle := BookmarkDeleted\<rparr>"

record StreamBookmarkPageRequest =
  sbpr_cluster :: ClusterId
  sbpr_stream :: StreamId
  sbpr_limit :: u32
  sbpr_publication_ceiling :: "BookmarkPublicationSequence option"
  sbpr_before :: "BookmarkPublicationSequence option"

record StreamBookmarkPage =
  sbp_items :: "CommittedStreamBookmark list"
  sbp_publication_ceiling :: BookmarkPublicationSequence
  sbp_next_before :: "BookmarkPublicationSequence option"

section \<open>Publish requests\<close>

definition MAX_RECORDS_PER_PUBLISH :: nat where "MAX_RECORDS_PER_PUBLISH = 128"
definition MAX_RECORD_BYTES :: nat where "MAX_RECORD_BYTES = 1024 * 1024"
definition MAX_PUBLISH_BYTES :: nat where "MAX_PUBLISH_BYTES = 8 * 1024 * 1024"
definition MAX_REQUESTS_PER_REPLICATED_PUBLISH :: nat where
  "MAX_REQUESTS_PER_REPLICATED_PUBLISH = 128"
definition MAX_RECORDS_PER_REPLICATED_PUBLISH :: nat where
  "MAX_RECORDS_PER_REPLICATED_PUBLISH = 1024"
definition MAX_REPLICATED_PUBLISH_BYTES :: nat where
  "MAX_REPLICATED_PUBLISH_BYTES = 8 * 1024 * 1024"

record PublishBatch =
  pb_cluster :: ClusterId
  pb_partition :: PartitionKey
  pb_request :: ProducerRequestId
  pb_records :: "bytes list"
  pb_bookmark :: "BookmarkName option"

text \<open>The record loop of \<open>validate_records\<close>: each record is checked before it is added to the total.\<close>

fun validate_loop :: "nat \<Rightarrow> bytes list \<Rightarrow> nat result" where
  "validate_loop acc [] = Inr acc"
| "validate_loop acc (r # rs) =
     (if r = [] then Inl (InvalidPayload ''records cannot be empty'')
      else if length r > MAX_RECORD_BYTES
      then Inl (InvalidPayload (''record exceeds '' @ show_nat MAX_RECORD_BYTES @ '' bytes''))
      else bind_result
        (ok_or (InvalidPayload ''payload byte count overflow'') (usize_checked_add acc (length r)))
        (\<lambda>acc'. validate_loop acc' rs))"

definition validate_records :: "bytes list \<Rightarrow> unit result" where
  "validate_records records =
     (if records = [] then Inl (InvalidPayload ''at least one record is required'')
      else if length records > MAX_RECORDS_PER_PUBLISH
      then Inl (InvalidPayload (''record count exceeds '' @ show_nat MAX_RECORDS_PER_PUBLISH))
      else bind_result (validate_loop 0 records) (\<lambda>acc.
        if acc > MAX_PUBLISH_BYTES
        then Inl (InvalidPayload
          (''publish payload exceeds '' @ show_nat MAX_PUBLISH_BYTES @ '' bytes''))
        else Inr ()))"

text \<open>\<open>compact_records\<close> reallocates each record without changing it.\<close>

definition compact_records :: "bytes list \<Rightarrow> bytes list" where
  "compact_records records = map (\<lambda>r. r) records"

definition PublishBatch_new ::
  "ClusterId \<Rightarrow> PartitionKey \<Rightarrow> ProducerRequestId \<Rightarrow> bytes list \<Rightarrow> PublishBatch result" where
  "PublishBatch_new cluster p request records =
     bind_result (validate_records records) (\<lambda>_.
       Inr \<lparr>pb_cluster = cluster, pb_partition = p, pb_request = request,
            pb_records = compact_records records, pb_bookmark = None\<rparr>)"

definition with_bookmark :: "PublishBatch \<Rightarrow> BookmarkName \<Rightarrow> PublishBatch" where
  "with_bookmark b name = b\<lparr>pb_bookmark := Some name\<rparr>"

definition payload_bytes_of :: "PublishBatch \<Rightarrow> nat" where
  "payload_bytes_of b = sum_list (map length (pb_records b))"

fun replicated_loop :: "nat \<Rightarrow> nat \<Rightarrow> PublishBatch list \<Rightarrow> (nat \<times> nat) result" where
  "replicated_loop records payload [] = Inr (records, payload)"
| "replicated_loop records payload (b # bs) =
     bind_result
       (ok_or (InvalidPayload ''replicated publish record count overflow'')
         (usize_checked_add records (length (pb_records b))))
       (\<lambda>records'. bind_result
         (ok_or (InvalidPayload ''replicated publish payload byte count overflow'')
           (usize_checked_add payload (payload_bytes_of b)))
         (\<lambda>payload'. replicated_loop records' payload' bs))"

definition ReplicatedPublishBatch_new :: "PublishBatch list \<Rightarrow> PublishBatch list result" where
  "ReplicatedPublishBatch_new requests =
     (if requests = [] then Inl (InvalidPayload ''at least one publish request is required'')
      else if length requests > MAX_REQUESTS_PER_REPLICATED_PUBLISH
      then Inl (InvalidPayload
        (''publish request count exceeds '' @ show_nat MAX_REQUESTS_PER_REPLICATED_PUBLISH))
      else bind_result (replicated_loop 0 0 requests) (\<lambda>(records, payload).
        if records > MAX_RECORDS_PER_REPLICATED_PUBLISH
        then Inl (InvalidPayload (''replicated publish record count exceeds '' @
          show_nat MAX_RECORDS_PER_REPLICATED_PUBLISH))
        else if payload > MAX_REPLICATED_PUBLISH_BYTES
        then Inl (InvalidPayload (''replicated publish payload exceeds '' @
          show_nat MAX_REPLICATED_PUBLISH_BYTES @ '' bytes''))
        else Inr requests))"

record PublishReceipt =
  rc_request :: ProducerRequestId
  rc_range :: CommittedRecordRange
  rc_bookmark :: "CommittedBookmark option"

section \<open>Consumer checkpoints\<close>

record CheckpointKey =
  ck_cluster :: ClusterId
  ck_partition :: PartitionKey
  ck_consumer :: ConsumerId

type_synonym CheckpointRevision = u64

definition CheckpointRevision_initial :: CheckpointRevision where
  "CheckpointRevision_initial = 1"

definition revision_checked_next :: "CheckpointRevision \<Rightarrow> CheckpointRevision result" where
  "revision_checked_next r =
     ok_or (InvalidRange ''checkpoint revision overflow'')
       (case checked_add r 1 of None \<Rightarrow> None | Some v \<Rightarrow> if v = 0 then None else Some v)"

datatype CheckpointExpectation = Missing | Revision CheckpointRevision

record CheckpointMutation =
  cm_request :: MutationRequestId
  cm_key :: CheckpointKey
  cm_expected :: CheckpointExpectation
  cm_candidate :: CommittedCursor

definition CheckpointMutation_new ::
  "MutationRequestId \<Rightarrow> CheckpointKey \<Rightarrow> CheckpointExpectation \<Rightarrow> CommittedCursor
   \<Rightarrow> CheckpointMutation result" where
  "CheckpointMutation_new request key expected candidate =
     (if cc_cluster candidate \<noteq> ck_cluster key \<or> cc_partition candidate \<noteq> ck_partition key
      then Inl (IdentityMismatch ''checkpoint candidate does not match its key'')
      else Inr \<lparr>cm_request = request, cm_key = key, cm_expected = expected,
                cm_candidate = candidate\<rparr>)"

record CommittedCheckpoint =
  cp_key :: CheckpointKey
  cp_cursor :: CommittedCursor
  cp_revision :: CheckpointRevision

datatype CheckpointCasResult =
    CasAdvanced MutationRequestId "CommittedCheckpoint option" CommittedCheckpoint
  | CasConflict MutationRequestId "CommittedCheckpoint option"

section \<open>Replay leases\<close>

record ReplayRange =
  rg_partition :: PartitionKey
  rg_start :: RecordOffset
  rg_end :: RecordOffset

definition ReplayRange_new :: "PartitionKey \<Rightarrow> RecordOffset \<Rightarrow> RecordOffset \<Rightarrow> ReplayRange result" where
  "ReplayRange_new p s e =
     (if s \<ge> e then Inl (InvalidRange ''replay range must be nonempty and ordered'')
      else Inr \<lparr>rg_partition = p, rg_start = s, rg_end = e\<rparr>)"

definition range_contains :: "ReplayRange \<Rightarrow> RecordOffset \<Rightarrow> bool" where
  "range_contains r off \<longleftrightarrow> off \<ge> rg_start r \<and> off < rg_end r"

record ReplayLeaseRequest =
  lr_request :: MutationRequestId
  lr_cluster :: ClusterId
  lr_range :: ReplayRange
  lr_duration :: u64
  lr_max_bytes :: u64

record ReplayLease =
  rl_id :: ReplayLeaseId
  rl_request :: ReplayLeaseRequest
  rl_protected_bytes :: u64
  rl_generation :: u64
  rl_expires_at :: u64
  rl_hard_expires_at :: u64
  rl_lifecycle :: ReplayLeaseLifecycle

abbreviation rl_range :: "ReplayLease \<Rightarrow> ReplayRange" where
  "rl_range l \<equiv> lr_range (rl_request l)"

definition lease_duration_from_millis :: "u64 \<Rightarrow> u64 result" where
  "lease_duration_from_millis v =
     (if v = 0 then Inl (InvalidRange ''lease duration must be greater than zero'') else Inr v)"

definition ByteLimit_new :: "u64 \<Rightarrow> u64 result" where
  "ByteLimit_new v =
     (if v = 0 then Inl (InvalidRange ''byte limit must be greater than zero'') else Inr v)"

definition generation_next :: "u64 \<Rightarrow> u64" where
  "generation_next g = saturating_add g 1"

definition ReplayLease_admitted ::
  "ReplayLeaseId \<Rightarrow> ReplayLeaseRequest \<Rightarrow> u64 \<Rightarrow> u64 \<Rightarrow> u64 \<Rightarrow> ReplayLease" where
  "ReplayLease_admitted lid request protected_bytes expires_at hard_expires_at =
     \<lparr>rl_id = lid, rl_request = request, rl_protected_bytes = protected_bytes, rl_generation = 1,
      rl_expires_at = expires_at, rl_hard_expires_at = hard_expires_at,
      rl_lifecycle = LeaseActive\<rparr>"

definition lease_renewed :: "ReplayLease \<Rightarrow> u64 \<Rightarrow> u64 \<Rightarrow> ReplayLease result" where
  "lease_renewed l expires_at hard_expires_at =
     (if rl_lifecycle l \<noteq> LeaseActive
      then Inl (InvalidRange ''a terminal replay lease cannot be renewed'')
      else if expires_at \<le> rl_expires_at l \<or> expires_at > hard_expires_at
      then Inl (InvalidRange ''renewal must extend the lease without exceeding its hard expiry'')
      else Inr (l\<lparr>rl_expires_at := expires_at, rl_hard_expires_at := hard_expires_at,
                  rl_generation := generation_next (rl_generation l)\<rparr>))"

definition lease_released :: "ReplayLease \<Rightarrow> ReplayLease" where
  "lease_released l =
     l\<lparr>rl_lifecycle := LeaseReleased, rl_generation := generation_next (rl_generation l)\<rparr>"

definition lease_expired :: "ReplayLease \<Rightarrow> ReplayLease" where
  "lease_expired l =
     l\<lparr>rl_lifecycle := LeaseExpired, rl_generation := generation_next (rl_generation l)\<rparr>"

record LeaseRenewal =
  ln_request :: MutationRequestId
  ln_partition :: PartitionKey
  ln_lease :: ReplayLeaseId
  ln_duration :: u64

record LeaseRelease =
  le_request :: MutationRequestId
  le_partition :: PartitionKey
  le_lease :: ReplayLeaseId

record RetentionRequest =
  rq_request :: MutationRequestId
  rq_partition :: PartitionKey
  rq_target_floor :: RecordOffset

record RetentionResult =
  rs_request :: MutationRequestId
  rs_partition :: PartitionKey
  rs_previous_floor :: RecordOffset
  rs_floor :: RecordOffset

record RetentionStatus =
  rt_partition :: PartitionKey
  rt_logical_floor :: RecordOffset
  rt_reclaim_cursor :: RecordOffset
  rt_logically_expired_bytes :: u64
  rt_raft_only_bytes :: u64

section \<open>Catalog and bootstrap data\<close>

record CreateStreamSpec =
  cs_request_id :: CatalogRequestId
  cs_name :: StreamName
  cs_partition_count :: u32

definition CreateStreamSpec_new :: "CatalogRequestId \<Rightarrow> StreamName \<Rightarrow> u32 \<Rightarrow> CreateStreamSpec result"
where
  "CreateStreamSpec_new request name count =
     (if count = 0 then Inl (InvalidRange ''stream partition count must be greater than zero'')
      else Inr \<lparr>cs_request_id = request, cs_name = name, cs_partition_count = count\<rparr>)"

datatype StreamLifecycle = Preparing | Active | Deleting | Deleted

record PartitionPlacement =
  pp_partition :: PartitionId
  pp_group :: GroupId

record StreamDescriptor =
  sd_cluster :: ClusterId
  sd_stream :: StreamId
  sd_name :: StreamName
  sd_lifecycle :: StreamLifecycle
  sd_placements :: "PartitionPlacement list"
  sd_ready_groups :: "GroupId list"
  sd_revision :: u64

definition sd_placement :: "StreamDescriptor \<Rightarrow> PartitionId \<Rightarrow> PartitionPlacement option" where
  "sd_placement d p = find (\<lambda>v. pp_partition v = p) (sd_placements d)"

record PartitionRoute =
  ro_cluster :: ClusterId
  ro_stream :: StreamId
  ro_stream_name :: StreamName
  ro_partition :: PartitionId
  ro_group :: GroupId
  ro_route_revision :: u64

record BootstrapSpec =
  bs_cluster :: ClusterId
  bs_stream :: StreamId
  bs_stream_name :: StreamName

record BootstrapResult =
  br_cluster :: ClusterId
  br_stream :: StreamId
  br_stream_name :: StreamName
  br_control_group :: GroupId
  br_data_group :: GroupId

record NodeDescriptor =
  nd_node_id :: NodeId
  nd_public_uri :: utf8
  nd_peer_uri :: utf8

end
