(* ===== verification/Topology.thy ===== *)
theory Topology
  imports Domain
begin

text \<open>
  The cluster topology and the administration operations of \<open>crates/light-stream-core/src/recovery.rs\<close>.
  \<open>http::Uri\<close> is a third-party parser: it is the parameter \<open>parse\<close>, which returns the error text or
  the scheme and authority of the URI. The lemmas give the exact set of accepted topologies, and
  show that a voter replacement keeps the size of the voter set and can always be undone.
\<close>

section \<open>Cluster topology\<close>

record Uri =
  uri_scheme :: "utf8 option"
  uri_authority :: "utf8 option"

type_synonym uri_parser = "utf8 \<Rightarrow> string + Uri"

record ClusterTopology =
  tp_revision :: u64
  tp_authorized_nodes :: "(NodeId, NodeDescriptor) table"
  tp_desired_voters :: "NodeId set"

definition node_endpoints :: "NodeDescriptor list \<Rightarrow> utf8 list" where
  "node_endpoints nodes = concat (map (\<lambda>n. [nd_public_uri n, nd_peer_uri n]) nodes)"

definition uri_absolute_http :: "Uri \<Rightarrow> bool" where
  "uri_absolute_http u \<longleftrightarrow>
     (uri_scheme u = Some (ascii ''http'') \<or> uri_scheme u = Some (ascii ''https'')) \<and>
     uri_authority u \<noteq> None"

text \<open>The loop over the endpoints in node order, with the set of endpoints seen so far.\<close>

fun check_endpoints :: "uri_parser \<Rightarrow> utf8 list \<Rightarrow> utf8 list \<Rightarrow> unit result" where
  "check_endpoints parse seen [] = Inr ()"
| "check_endpoints parse seen (e # es) =
     (case parse e of
        Inl reason \<Rightarrow> Inl (InvalidName ''node endpoint'' reason)
      | Inr uri \<Rightarrow>
          if \<not> uri_absolute_http uri
          then Inl (InvalidName ''node endpoint''
            ''endpoint must be an absolute HTTP or HTTPS URI'')
          else if e \<in> set seen
          then Inl (InvalidIdentity ''cluster topology'' ''node endpoints must be globally unique'')
          else check_endpoints parse (e # seen) es)"

definition ClusterTopology_try_new ::
  "uri_parser \<Rightarrow> u64 \<Rightarrow> NodeDescriptor list \<Rightarrow> NodeId set \<Rightarrow> ClusterTopology result" where
  "ClusterTopology_try_new parse revision nodes voters =
     (let table = collect_table (map (\<lambda>n. (nd_node_id n, n)) nodes)
      in if table = [] \<or> voters = {}
         then Inl (InvalidRange ''cluster topology requires authorized nodes and desired voters'')
         else if length table \<noteq> length nodes
         then Inl (InvalidIdentity ''cluster topology'' ''authorized node IDs must be unique'')
         else bind_result (check_endpoints parse [] (node_endpoints (map snd table))) (\<lambda>_.
           if \<not> voters \<subseteq> fst ` set table
           then Inl (InvalidIdentity ''cluster topology''
             ''every desired voter must be an authorized node'')
           else Inr \<lparr>tp_revision = revision, tp_authorized_nodes = table,
                     tp_desired_voters = voters\<rparr>))"

definition next_revision :: "ClusterTopology \<Rightarrow> u64 result" where
  "next_revision t =
     ok_or (InvalidRange ''cluster topology revision overflow'') (checked_add (tp_revision t) 1)"

definition replacement_transition ::
  "uri_parser \<Rightarrow> ClusterTopology \<Rightarrow> u64 \<Rightarrow> NodeId \<Rightarrow> NodeDescriptor \<Rightarrow> ClusterTopology result" where
  "replacement_transition parse t expected rem add =
     (if tp_revision t \<noteq> expected then Inl StaleRoute
      else if rem \<notin> tp_desired_voters t
      then Inl (InvalidIdentity ''replacement voter'' ''removed node is not a desired voter'')
      else if nd_node_id add = rem \<or> tget (tp_authorized_nodes t) (nd_node_id add) \<noteq> None
      then Inl (InvalidIdentity ''replacement voter'' ''replacement node ID must be new'')
      else bind_result (next_revision t) (\<lambda>revision.
        ClusterTopology_try_new parse revision
          (map snd (tput (tp_authorized_nodes t) (nd_node_id add) add))
          (insert (nd_node_id add) (tp_desired_voters t - {rem}))))"

text \<open>The guard shared by completion and abort: the topology is the transition of this replacement.\<close>

definition replacement_matches ::
  "ClusterTopology \<Rightarrow> u64 \<Rightarrow> NodeId \<Rightarrow> NodeDescriptor \<Rightarrow> bool" where
  "replacement_matches t expected rem add \<longleftrightarrow>
     \<not> (tp_revision t \<noteq> saturating_add expected 1 \<or>
        tget (tp_authorized_nodes t) (nd_node_id add) \<noteq> Some add \<or>
        tget (tp_authorized_nodes t) rem = None \<or>
        rem \<in> tp_desired_voters t \<or>
        nd_node_id add \<notin> tp_desired_voters t)"

definition replacement_complete ::
  "uri_parser \<Rightarrow> ClusterTopology \<Rightarrow> u64 \<Rightarrow> NodeId \<Rightarrow> NodeDescriptor \<Rightarrow> ClusterTopology result" where
  "replacement_complete parse t expected rem add =
     (if \<not> replacement_matches t expected rem add then Inl MutationConflict
      else bind_result (next_revision t) (\<lambda>revision.
        ClusterTopology_try_new parse revision (map snd (tdel (tp_authorized_nodes t) rem))
          (tp_desired_voters t)))"

definition replacement_abort ::
  "uri_parser \<Rightarrow> ClusterTopology \<Rightarrow> u64 \<Rightarrow> NodeId \<Rightarrow> NodeDescriptor \<Rightarrow> ClusterTopology result" where
  "replacement_abort parse t expected rem add =
     (if \<not> replacement_matches t expected rem add then Inl MutationConflict
      else bind_result (next_revision t) (\<lambda>revision.
        ClusterTopology_try_new parse revision
          (map snd (tdel (tp_authorized_nodes t) (nd_node_id add)))
          (insert rem (tp_desired_voters t - {nd_node_id add}))))"

section \<open>Administration\<close>

datatype AdministrationIntent =
    ReplaceVoter AdministrationRequestId u64 NodeId NodeDescriptor
  | TransferLeader AdministrationRequestId GroupId NodeId

definition ai_request :: "AdministrationIntent \<Rightarrow> AdministrationRequestId" where
  "ai_request i = (case i of ReplaceVoter r _ _ _ \<Rightarrow> r | TransferLeader r _ _ \<Rightarrow> r)"

datatype AdministrationLifecycle = AdminPending | AdminComplete u64 | AdminAborted u64

record AdministrationOperation =
  ao_intent :: AdministrationIntent
  ao_lifecycle :: AdministrationLifecycle

definition AdministrationOperation_pending :: "AdministrationIntent \<Rightarrow> AdministrationOperation" where
  "AdministrationOperation_pending intent = \<lparr>ao_intent = intent, ao_lifecycle = AdminPending\<rparr>"

definition administration_completed :: "AdministrationOperation \<Rightarrow> u64 \<Rightarrow> AdministrationOperation"
where
  "administration_completed op r = \<lparr>ao_intent = ao_intent op, ao_lifecycle = AdminComplete r\<rparr>"

definition administration_aborted :: "AdministrationOperation \<Rightarrow> u64 \<Rightarrow> AdministrationOperation"
where
  "administration_aborted op r = \<lparr>ao_intent = ao_intent op, ao_lifecycle = AdminAborted r\<rparr>"

record OperationalProof =
  op_group :: GroupId
  op_leader :: NodeId
  op_term :: u64
  op_log_index :: u64

definition proof_matches :: "OperationalProof \<Rightarrow> NodeId \<Rightarrow> u64 \<Rightarrow> u64 \<Rightarrow> bool" where
  "proof_matches p leader term applied \<longleftrightarrow>
     op_leader p = leader \<and> op_term p = term \<and> op_log_index p \<le> applied"

section \<open>The accepted topologies\<close>

definition endpoint_valid :: "uri_parser \<Rightarrow> utf8 \<Rightarrow> bool" where
  "endpoint_valid parse e \<longleftrightarrow> (\<exists>u. parse e = Inr u \<and> uri_absolute_http u)"

definition topology_ok :: "uri_parser \<Rightarrow> ClusterTopology \<Rightarrow> bool" where
  "topology_ok parse t \<longleftrightarrow>
     tsorted (tp_authorized_nodes t) \<and>
     (\<forall>(k, n) \<in> set (tp_authorized_nodes t). nd_node_id n = k) \<and>
     tp_desired_voters t \<noteq> {} \<and> tp_desired_voters t \<subseteq> fst ` set (tp_authorized_nodes t) \<and>
     distinct (node_endpoints (map snd (tp_authorized_nodes t))) \<and>
     (\<forall>e \<in> set (node_endpoints (map snd (tp_authorized_nodes t))). endpoint_valid parse e)"

lemma check_endpoints_ok:
  "check_endpoints parse seen es = Inr () \<longleftrightarrow>
    (\<forall>e \<in> set es. endpoint_valid parse e) \<and> distinct es \<and> set es \<inter> set seen = {}"
  by (induction es arbitrary: seen)
    (auto simp: endpoint_valid_def split: sum.splits if_splits)

lemma collect_of_values:
  assumes "tsorted t" "\<forall>(k, n) \<in> set t. nd_node_id n = k"
  shows "collect_table (map (\<lambda>n. (nd_node_id n, n)) (map snd t)) = t"
  using assms tsorted_values_determine [of t nd_node_id] collect_table_sorted [of t] by fastforce

text \<open>
  On the nodes of an ordered map the constructor accepts exactly the topologies \<open>topology_ok\<close>
  describes; its \<open>Deserialize\<close> is this call.
\<close>

lemma try_new_of_table:
  assumes "tsorted t" "\<forall>(k, n) \<in> set t. nd_node_id n = k"
  shows "ClusterTopology_try_new parse r (map snd t) voters = Inr u \<longleftrightarrow>
    u = \<lparr>tp_revision = r, tp_authorized_nodes = t, tp_desired_voters = voters\<rparr> \<and>
    topology_ok parse u"
proof -
  have c: "collect_table (map (\<lambda>n. (nd_node_id n, n)) (map snd t)) = t"
    using assms by (rule collect_of_values)
  have "ClusterTopology_try_new parse r (map snd t) voters = Inr u \<longleftrightarrow>
      t \<noteq> [] \<and> voters \<noteq> {} \<and> check_endpoints parse [] (node_endpoints (map snd t)) = Inr () \<and>
      voters \<subseteq> fst ` set t \<and>
      u = \<lparr>tp_revision = r, tp_authorized_nodes = t, tp_desired_voters = voters\<rparr>"
    unfolding ClusterTopology_try_new_def Let_def c by (auto simp: bind_result_Inr)
  then show ?thesis using assms by (auto simp: check_endpoints_ok topology_ok_def)
qed

lemma try_new_ok:
  assumes "topology_ok parse t"
  shows "ClusterTopology_try_new parse (tp_revision t) (map snd (tp_authorized_nodes t))
    (tp_desired_voters t) = Inr t"
proof -
  have "tsorted (tp_authorized_nodes t)" "\<forall>(k, n) \<in> set (tp_authorized_nodes t). nd_node_id n = k"
    using assms by (auto simp: topology_ok_def)
  from try_new_of_table [OF this] assms show ?thesis by simp
qed

lemma next_revision_Inr: "next_revision t = Inr r \<longleftrightarrow> unat r = unat (tp_revision t) + 1"
  by (simp add: next_revision_def checked_add_Some)

lemma set_tdel: "set (tdel t k) = {e \<in> set t. fst e \<noteq> k}"
  by (auto simp: tdel_def)

lemma endpoints_subset:
  "distinct (node_endpoints (map snd t)) \<Longrightarrow> distinct (node_endpoints (map snd (tdel t k)))"
  by (induction t) (auto simp: node_endpoints_def tdel_def)

lemma topology_ok_tdel:
  assumes "topology_ok parse t" "tp_authorized_nodes u = tdel (tp_authorized_nodes t) k"
    and "tp_desired_voters u \<noteq> {}" "tp_desired_voters u \<subseteq> fst ` set (tp_authorized_nodes t) - {k}"
  shows "topology_ok parse u"
proof -
  have "set (node_endpoints (map snd (tdel (tp_authorized_nodes t) k))) \<subseteq>
      set (node_endpoints (map snd (tp_authorized_nodes t)))"
    by (auto simp: node_endpoints_def set_tdel)
  moreover have "tp_desired_voters u \<subseteq> fst ` set (tdel (tp_authorized_nodes t) k)"
    using assms(4) by (force simp: set_tdel)
  ultimately show ?thesis
    using assms(1-3) endpoints_subset [of "tp_authorized_nodes t" k]
    unfolding topology_ok_def assms(2) by (auto simp: set_tdel)
qed

lemma dom_of_tget: "tget t k \<noteq> None \<longleftrightarrow> k \<in> fst ` set t"
  by (induction t) (auto split: if_splits)

text \<open>The topology a replacement passes through, written out.\<close>

lemma replacement_transition_Inr:
  assumes "topology_ok parse t"
    and "replacement_transition parse t expected rem add = Inr u"
  shows "tp_revision t = expected \<and> rem \<in> tp_desired_voters t \<and>
    nd_node_id add \<notin> fst ` set (tp_authorized_nodes t) \<and> nd_node_id add \<noteq> rem \<and>
    unat (tp_revision u) = unat expected + 1 \<and>
    tp_authorized_nodes u = tput (tp_authorized_nodes t) (nd_node_id add) add \<and>
    tp_desired_voters u = insert (nd_node_id add) (tp_desired_voters t - {rem}) \<and>
    topology_ok parse u"
proof -
  let ?n = "tput (tp_authorized_nodes t) (nd_node_id add) add"
  from assms(2) obtain r where guards: "tp_revision t = expected" "rem \<in> tp_desired_voters t"
      "nd_node_id add \<noteq> rem" "tget (tp_authorized_nodes t) (nd_node_id add) = None"
      and r: "unat r = unat (tp_revision t) + 1"
      and new: "ClusterTopology_try_new parse r (map snd ?n)
        (insert (nd_node_id add) (tp_desired_voters t - {rem})) = Inr u"
    by (auto simp: replacement_transition_def bind_result_Inr next_revision_Inr split: if_splits)
  have "tsorted ?n" "\<forall>(k, n) \<in> set ?n. nd_node_id n = k"
    using assms(1) by (auto simp: topology_ok_def set_tput_fresh [OF guards(4)])
  from try_new_of_table [OF this] new
  have "u = \<lparr>tp_revision = r, tp_authorized_nodes = ?n,
      tp_desired_voters = insert (nd_node_id add) (tp_desired_voters t - {rem})\<rparr>"
    and "topology_ok parse u" by auto
  moreover have "nd_node_id add \<notin> fst ` set (tp_authorized_nodes t)"
    using guards(4) dom_of_tget [of "tp_authorized_nodes t" "nd_node_id add"] by simp
  ultimately show ?thesis using guards r by simp
qed

lemma transition_matches:
  assumes "topology_ok parse t" "replacement_transition parse t expected rem add = Inr u"
  shows "replacement_matches u expected rem add"
proof -
  note step = replacement_transition_Inr [OF assms]
  have "unat (saturating_add expected 1) = unat expected + 1"
    using step unat_lt_width [of "tp_revision u"] by (simp add: unat_saturating_add)
  then have "tp_revision u = saturating_add expected 1" using step by (simp add: word_unat_eq_iff)
  moreover have "tget (tp_authorized_nodes t) rem \<noteq> None"
    unfolding dom_of_tget using step assms(1) by (auto simp only: topology_ok_def subset_iff)
  ultimately show ?thesis using step by (auto simp: replacement_matches_def)
qed

lemma tdel_tput_fresh: "tsorted t \<Longrightarrow> tget t k = None \<Longrightarrow> tdel (tput t k v) k = t"
  by (rule tab.entries_determined) auto

section \<open>A concrete replacement\<close>

definition demo_node :: "u64 \<Rightarrow> u8 \<Rightarrow> NodeDescriptor" where
  "demo_node n b = \<lparr>nd_node_id = n, nd_public_uri = [b, 1], nd_peer_uri = [b, 2]\<rparr>"

definition demo_parse :: uri_parser where
  "demo_parse e = Inr \<lparr>uri_scheme = Some (ascii ''http''), uri_authority = Some e\<rparr>"

definition demo_topology :: ClusterTopology where
  "demo_topology = \<lparr>tp_revision = 4,
     tp_authorized_nodes = [(1, demo_node 1 1), (2, demo_node 2 2), (3, demo_node 3 3)],
     tp_desired_voters = {1, 2, 3}\<rparr>"

definition demo_next :: ClusterTopology where
  "demo_next = \<lparr>tp_revision = 5,
     tp_authorized_nodes = [(1, demo_node 1 1), (2, demo_node 2 2), (3, demo_node 3 3),
       (4, demo_node 4 4)],
     tp_desired_voters = insert 4 ({1, 2, 3} - {3})\<rparr>"

lemma demo_endpoint_valid: "endpoint_valid demo_parse e"
  by (simp add: endpoint_valid_def demo_parse_def uri_absolute_http_def)

lemmas demo_topology_simps = topology_ok_def demo_topology_def demo_next_def demo_node_def
  node_endpoints_def demo_endpoint_valid tsorted_def

lemma demo_topology_ok: "topology_ok demo_parse demo_topology"
  by (simp add: demo_topology_simps)

lemma demo_next_ok: "topology_ok demo_parse demo_next"
  by (simp add: demo_topology_simps) blast

lemma demo_transition:
  "replacement_transition demo_parse demo_topology 4 3 (demo_node 4 4) = Inr demo_next"
proof -
  have "next_revision demo_topology = Inr 5" by (simp add: next_revision_Inr demo_topology_def)
  then show ?thesis
    using try_new_ok [OF demo_next_ok]
    by (simp add: replacement_transition_def demo_topology_def demo_next_def demo_node_def)
qed

section \<open>Properties\<close>

text \<open>
  C9. A voter replacement can be undone: aborting it right after its transition gives back the nodes
  and voters from before, two revisions later.
\<close>

theorem replacement_abort_restores:
  assumes "topology_ok parse t" "replacement_transition parse t expected rem add = Inr u"
    and "unat (tp_revision u) + 1 < 2 ^ 64"
  shows "replacement_abort parse u expected rem add =
    Inr (t\<lparr>tp_revision := tp_revision t + 2\<rparr>)"
proof -
  note step = replacement_transition_Inr [OF assms(1,2)]
  have m: "replacement_matches u expected rem add" using assms(1,2) by (rule transition_matches)
  have "unat (tp_revision u + 1) = unat (tp_revision u) + 1"
    using assms(3) by (simp add: unat_word_ariths)
  then have rev: "next_revision u = Inr (tp_revision u + 1)" by (simp add: next_revision_Inr)
  have "tp_revision u = tp_revision t + 1"
    using step unat_lt_width [of "tp_revision u"] by (simp add: word_unat_eq_iff unat_word_ariths)
  then have two: "tp_revision u + 1 = tp_revision t + 2" by simp
  have nodes: "tdel (tp_authorized_nodes u) (nd_node_id add) = tp_authorized_nodes t"
    using step assms(1) dom_of_tget [of "tp_authorized_nodes t" "nd_node_id add"]
    by (simp add: tdel_tput_fresh topology_ok_def)
  have voters: "insert rem (tp_desired_voters u - {nd_node_id add}) = tp_desired_voters t"
    using step assms(1) by (auto simp: topology_ok_def)
  have "topology_ok parse (t\<lparr>tp_revision := tp_revision t + 2\<rparr>)"
    using assms(1) by (simp add: topology_ok_def)
  from try_new_ok [OF this] m rev two nodes voters show ?thesis
    by (simp add: replacement_abort_def)
qed

theorem replacement_abort_restores_witness:
  "replacement_abort demo_parse demo_next 4 3 (demo_node 4 4) =
    Inr (demo_topology\<lparr>tp_revision := tp_revision demo_topology + 2\<rparr>)"
  by (rule replacement_abort_restores [OF demo_topology_ok demo_transition])
    (simp add: demo_next_def)

text \<open>
  C10. A completed voter replacement swaps exactly one node: the removed node is neither authorized
  nor a voter, the added node is both, every other node is untouched, and the number of voters is
  the one before.
\<close>

theorem replacement_complete_swaps:
  assumes "topology_ok parse t" "replacement_transition parse t expected rem add = Inr u"
    and "finite (tp_desired_voters t)" "unat (tp_revision u) + 1 < 2 ^ 64"
  shows "\<exists>v. replacement_complete parse u expected rem add = Inr v \<and> topology_ok parse v \<and>
    tp_revision v = expected + 2 \<and>
    tget (tp_authorized_nodes v) =
      (tget (tp_authorized_nodes t))(nd_node_id add \<mapsto> add, rem := None) \<and>
    tp_desired_voters v = insert (nd_node_id add) (tp_desired_voters t - {rem}) \<and>
    card (tp_desired_voters v) = card (tp_desired_voters t)"
proof -
  note step = replacement_transition_Inr [OF assms(1,2)]
  have m: "replacement_matches u expected rem add" using assms(1,2) by (rule transition_matches)
  have u1: "unat (tp_revision u + 1) = unat (tp_revision u) + 1"
    using assms(4) by (simp add: unat_word_ariths)
  then have rev: "next_revision u = Inr (tp_revision u + 1)" by (simp add: next_revision_Inr)
  have "tp_revision u = expected + 1"
    using step unat_lt_width [of "tp_revision u"] by (simp add: word_unat_eq_iff unat_word_ariths)
  then have two: "tp_revision u + 1 = expected + 2" by simp
  let ?v = "\<lparr>tp_revision = expected + 2, tp_authorized_nodes = tdel (tp_authorized_nodes u) rem,
    tp_desired_voters = tp_desired_voters u\<rparr>"
  have ok: "topology_ok parse ?v"
  proof (rule topology_ok_tdel [of parse u _ rem])
    show "topology_ok parse u" using step by simp
  qed (use step in \<open>auto simp: topology_ok_def\<close>)
  from try_new_ok [OF this] m rev two have "replacement_complete parse u expected rem add = Inr ?v"
    by (simp add: replacement_complete_def)
  moreover have "nd_node_id add \<notin> tp_desired_voters t"
    using step assms(1) by (auto simp: topology_ok_def)
  then have "card (tp_desired_voters u) = card (tp_desired_voters t)"
    using step assms(3) card_Suc_Diff1 [of "tp_desired_voters t" rem] by simp
  ultimately show ?thesis using ok step by (intro exI [of _ ?v]) (auto simp: fun_eq_iff)
qed

theorem replacement_complete_swaps_witness:
  "\<exists>v. replacement_complete demo_parse demo_next 4 3 (demo_node 4 4) = Inr v \<and>
    topology_ok demo_parse v \<and> tp_revision v = 4 + 2 \<and>
    tget (tp_authorized_nodes v) =
      (tget (tp_authorized_nodes demo_topology))(nd_node_id (demo_node 4 4) \<mapsto> demo_node 4 4,
        3 := None) \<and>
    tp_desired_voters v = insert (nd_node_id (demo_node 4 4)) (tp_desired_voters demo_topology - {3}) \<and>
    card (tp_desired_voters v) = card (tp_desired_voters demo_topology)"
  by (rule replacement_complete_swaps [OF demo_topology_ok demo_transition])
    (simp_all add: demo_next_def demo_topology_def)

end
