(* ===== verification/Security.thy ===== *)
theory Security
  imports Domain
begin

text \<open>
  The security policy of \<open>crates/light-stream-core/src/security.rs\<close>: token verifiers, peer
  certificates, grants, and the compare-and-set mutations of a policy. \<open>BTreeSet<Grant>\<close> is a finite
  set; \<open>BTreeSet<PeerCertificateBinding>\<close> is searched in its order, so it is an ordered table with
  unit values. The constant-time comparison of digests is equality. The lemmas show that no sequence
  of mutations locks out the security administrators or brings back a revoked credential.
\<close>

section \<open>Credentials\<close>

type_synonym PolicyRevision = u64
type_synonym RevocationRevision = u64
type_synonym CredentialId = utf8
type_synonym CredentialGeneration = u64
type_synonym TokenVerifierDigest = bytes
type_synonym CertificateFingerprint = bytes

definition MAX_CREDENTIAL_ID_BYTES :: nat where "MAX_CREDENTIAL_ID_BYTES = 128"
definition MAX_SECURITY_PRINCIPALS :: nat where "MAX_SECURITY_PRINCIPALS = 4096"
definition MAX_SECURITY_GRANTS :: nat where "MAX_SECURITY_GRANTS = 65536"
definition MAX_TOKEN_VERIFIERS :: nat where "MAX_TOKEN_VERIFIERS = 16384"
definition MAX_PEER_CERTIFICATES :: nat where "MAX_PEER_CERTIFICATES = 4096"

definition PolicyRevision_new :: "u64 \<Rightarrow> PolicyRevision result" where
  "PolicyRevision_new v =
     (if v = 0 then Inl (InvalidRange ''security policy revision must be greater than zero'')
      else Inr v)"

definition PolicyRevision_next :: "PolicyRevision \<Rightarrow> PolicyRevision result" where
  "PolicyRevision_next r =
     ok_or (InvalidRange ''security policy revision overflow'')
       (case checked_add r 1 of None \<Rightarrow> None | Some v \<Rightarrow> if v = 0 then None else Some v)"

definition RevocationRevision_next :: "RevocationRevision \<Rightarrow> RevocationRevision result" where
  "RevocationRevision_next r =
     ok_or (InvalidRange ''security revocation revision overflow'') (checked_add r 1)"

definition credential_byte :: "u8 \<Rightarrow> bool" where
  "credential_byte b \<longleftrightarrow>
     48 \<le> b \<and> b \<le> 57 \<or> 65 \<le> b \<and> b \<le> 90 \<or> 97 \<le> b \<and> b \<le> 122 \<or> b = 45 \<or> b = 95"

definition CredentialId_parse :: "utf8 \<Rightarrow> CredentialId result" where
  "CredentialId_parse value =
     bind_result (bounded_text_parse ''credential ID'' MAX_CREDENTIAL_ID_BYTES value) (\<lambda>v.
       if list_all credential_byte v then Inr v
       else Inl (InvalidName ''credential ID''
         (''only ASCII letters, digits, '' @ [char_of (39::nat)] @ ''-'' @ [char_of (39::nat)] @
           '' and '' @ [char_of (39::nat)] @ ''_'' @ [char_of (39::nat)] @ '' are allowed'')))"

definition CredentialGeneration_new :: "u64 \<Rightarrow> CredentialGeneration result" where
  "CredentialGeneration_new v =
     (if v = 0 then Inl (InvalidRange ''credential generation must be greater than zero'')
      else Inr v)"

record CredentialRef =
  crd_id :: CredentialId
  crd_generation :: CredentialGeneration

datatype CredentialStatus = CredentialActive | CredentialRevoked RevocationRevision

record TokenVerifier =
  tv_credential :: CredentialRef
  tv_principal :: PrincipalId
  tv_digest :: TokenVerifierDigest
  tv_status :: CredentialStatus

datatype PeerCertificateBinding =
  PeerCertificateBinding (pc_cluster: ClusterId) (pc_node: NodeId)
    (pc_generation: CredentialGeneration) (pc_fingerprint: CertificateFingerprint)
    (pc_status: CredentialStatus)

text \<open>The derived order: the fields in declaration order, an active status before a revoked one.\<close>

definition status_key :: "CredentialStatus \<Rightarrow> nat \<times> u64" where
  "status_key s = (case s of CredentialActive \<Rightarrow> (0, 0) | CredentialRevoked at \<Rightarrow> (1, at))"

definition binding_key ::
  "PeerCertificateBinding \<Rightarrow> ClusterId \<times> NodeId \<times> CredentialGeneration \<times> bytes \<times> nat \<times> u64" where
  "binding_key b =
     (pc_cluster b, pc_node b, pc_generation b, pc_fingerprint b, status_key (pc_status b))"

lemma status_key_inject: "status_key a = status_key b \<longleftrightarrow> a = b"
  by (auto simp: status_key_def split: CredentialStatus.splits)

lemma binding_key_inject: "binding_key a = binding_key b \<longleftrightarrow> a = b"
  by (auto simp: binding_key_def status_key_inject PeerCertificateBinding.expand)

instantiation PeerCertificateBinding :: linorder
begin

definition less_eq_PeerCertificateBinding ::
  "PeerCertificateBinding \<Rightarrow> PeerCertificateBinding \<Rightarrow> bool" where
  "less_eq_PeerCertificateBinding a b \<longleftrightarrow> binding_key a \<le> binding_key b"

definition less_PeerCertificateBinding ::
  "PeerCertificateBinding \<Rightarrow> PeerCertificateBinding \<Rightarrow> bool" where
  "less_PeerCertificateBinding a b \<longleftrightarrow> binding_key a < binding_key b"

instance
proof
  fix a b c :: PeerCertificateBinding
  show "a < b \<longleftrightarrow> a \<le> b \<and> \<not> b \<le> a"
    by (simp only: less_eq_PeerCertificateBinding_def less_PeerCertificateBinding_def less_le_not_le)
  show "a \<le> a" by (simp add: less_eq_PeerCertificateBinding_def)
  show "a \<le> b \<Longrightarrow> b \<le> c \<Longrightarrow> a \<le> c"
    unfolding less_eq_PeerCertificateBinding_def by (rule order_trans)
  show "a \<le> b \<Longrightarrow> b \<le> a \<Longrightarrow> a = b"
    unfolding less_eq_PeerCertificateBinding_def using binding_key_inject by (metis order_antisym)
  show "a \<le> b \<or> b \<le> a"
    unfolding less_eq_PeerCertificateBinding_def by (rule linear)
qed

end

section \<open>Permissions\<close>

datatype Permission =
    ClusterObserve | ClusterBootstrap | StreamDiscover | StreamCreate | StreamDescribe
  | StreamDelete | RouteResolve | PublishPermission | Fetch | ReceiptRead | BookmarkRead
  | BookmarkManage | RetentionRead | RetentionManage | ReplayRead | ReplayManage | CheckpointRead
  | CheckpointManage | SnapshotManage | ClusterAdmin | SecurityObserve | SecurityAdmin

datatype ResourceScope =
    ScopeCluster ClusterId
  | ScopeAllStreams ClusterId
  | ScopeStream ClusterId StreamId

definition scope_cluster :: "ResourceScope \<Rightarrow> ClusterId" where
  "scope_cluster s = (case s of ScopeCluster c \<Rightarrow> c | ScopeAllStreams c \<Rightarrow> c | ScopeStream c _ \<Rightarrow> c)"

record Grant =
  g_permission :: Permission
  g_scope :: ResourceScope

record AuthenticatedPrincipal =
  ap_principal :: PrincipalId
  ap_credential :: CredentialRef
  ap_policy_revision :: PolicyRevision
  ap_revocation_revision :: RevocationRevision

definition bind_producer ::
  "AuthenticatedPrincipal \<Rightarrow> ProducerRequestId \<Rightarrow> ProducerRequestId result" where
  "bind_producer a request =
     (if pr_principal request \<noteq> ap_principal a then Inl SecurityPermissionDenied
      else Inr \<lparr>pr_principal = ap_principal a, pr_session = pr_session request,
                pr_sequence = pr_sequence request\<rparr>)"

definition bind_mutation ::
  "AuthenticatedPrincipal \<Rightarrow> MutationRequestId \<Rightarrow> MutationRequestId result" where
  "bind_mutation a request =
     (if mr_principal request \<noteq> ap_principal a then Inl SecurityPermissionDenied
      else Inr \<lparr>mr_principal = ap_principal a, mr_session = mr_session request,
                mr_sequence = mr_sequence request\<rparr>)"

definition scope_covers :: "ResourceScope \<Rightarrow> ResourceScope \<Rightarrow> bool" where
  "scope_covers grant requested =
     (case (grant, requested) of
        (ScopeCluster g, ScopeCluster r) \<Rightarrow> g = r
      | (ScopeAllStreams g, ScopeAllStreams r) \<Rightarrow> g = r
      | (ScopeAllStreams g, ScopeStream r _) \<Rightarrow> g = r
      | (ScopeStream gc gs, ScopeStream rc rs) \<Rightarrow> gc = rc \<and> gs = rs
      | _ \<Rightarrow> False)"

section \<open>The policy\<close>

type_synonym BindingSet = "(PeerCertificateBinding, unit) table"

record SecurityPolicy =
  sp_cluster :: ClusterId
  sp_revision :: PolicyRevision
  sp_revocation_revision :: RevocationRevision
  sp_grants :: "(PrincipalId, Grant set) table"
  sp_token_verifiers :: "TokenVerifier list"
  sp_peer_certificates :: "(NodeId, BindingSet) table"

text \<open>The loop of \<open>validate\<close> over the verifiers: credentials and digests are both unique.\<close>

fun verifiers_unique :: "CredentialRef list \<Rightarrow> bytes list \<Rightarrow> TokenVerifier list \<Rightarrow> bool" where
  "verifiers_unique credentials digests [] = True"
| "verifiers_unique credentials digests (v # vs) =
     (if tv_credential v \<in> set credentials \<or> tv_digest v \<in> set digests then False
      else verifiers_unique (tv_credential v # credentials) (tv_digest v # digests) vs)"

definition has_security_admin :: "SecurityPolicy \<Rightarrow> bool" where
  "has_security_admin p \<longleftrightarrow>
     list_ex (\<lambda>v. tv_status v = CredentialActive \<and>
       (case tget (sp_grants p) (tv_principal v) of
          None \<Rightarrow> False
        | Some grants \<Rightarrow>
            \<lparr>g_permission = SecurityAdmin, g_scope = ScopeCluster (sp_cluster p)\<rparr> \<in> grants))
       (sp_token_verifiers p)"

definition policy_validate :: "SecurityPolicy \<Rightarrow> unit result" where
  "policy_validate p =
     (let grant_count = sum_list (map (card \<circ> snd) (sp_grants p));
          peer_count = sum_list (map (length \<circ> snd) (sp_peer_certificates p))
      in if length (sp_grants p) > MAX_SECURITY_PRINCIPALS \<or> grant_count > MAX_SECURITY_GRANTS \<or>
            length (sp_token_verifiers p) > MAX_TOKEN_VERIFIERS \<or>
            peer_count > MAX_PEER_CERTIFICATES
         then Inl (ResourceLimit ''security policy entries'' (of_nat MAX_SECURITY_GRANTS))
         else if \<exists>(_, grants) \<in> set (sp_grants p). \<exists>g \<in> grants.
                   scope_cluster (g_scope g) \<noteq> sp_cluster p
         then Inl SecurityPolicyConflict
         else if \<not> verifiers_unique [] [] (sp_token_verifiers p) then Inl SecurityPolicyConflict
         else if \<exists>(node, bindings) \<in> set (sp_peer_certificates p). \<exists>(b, _) \<in> set bindings.
                   pc_node b \<noteq> node \<or> pc_cluster b \<noteq> sp_cluster p
         then Inl SecurityPolicyConflict
         else if \<not> has_security_admin p then Inl SecurityPolicyConflict
         else Inr ())"

definition SecurityPolicy_try_new ::
  "ClusterId \<Rightarrow> PolicyRevision \<Rightarrow> RevocationRevision \<Rightarrow> (PrincipalId, Grant set) table
   \<Rightarrow> TokenVerifier list \<Rightarrow> (NodeId, BindingSet) table \<Rightarrow> SecurityPolicy result" where
  "SecurityPolicy_try_new cluster revision revocation grants verifiers peers =
     (let p = \<lparr>sp_cluster = cluster, sp_revision = revision, sp_revocation_revision = revocation,
               sp_grants = grants, sp_token_verifiers = verifiers, sp_peer_certificates = peers\<rparr>
      in bind_result (policy_validate p) (\<lambda>_. Inr p))"

definition authenticate ::
  "SecurityPolicy \<Rightarrow> CredentialRef \<Rightarrow> TokenVerifierDigest \<Rightarrow> AuthenticatedPrincipal result" where
  "authenticate p credential presented =
     (case find (\<lambda>v. tv_credential v = credential) (sp_token_verifiers p) of
        None \<Rightarrow> Inl SecurityAuthenticationFailed
      | Some v \<Rightarrow>
          if tv_status v \<noteq> CredentialActive \<or> tv_digest v \<noteq> presented
          then Inl SecurityAuthenticationFailed
          else Inr \<lparr>ap_principal = tv_principal v, ap_credential = credential,
                    ap_policy_revision = sp_revision p,
                    ap_revocation_revision = sp_revocation_revision p\<rparr>)"

definition authorize ::
  "SecurityPolicy \<Rightarrow> PrincipalId \<Rightarrow> Permission \<Rightarrow> ResourceScope \<Rightarrow> unit result" where
  "authorize p who permission resource =
     (if (case tget (sp_grants p) who of
            None \<Rightarrow> False
          | Some grants \<Rightarrow>
              \<exists>g \<in> grants. g_permission g = permission \<and> scope_covers (g_scope g) resource)
      then Inr () else Inl SecurityPermissionDenied)"

definition validate_active_credential_binding ::
  "SecurityPolicy \<Rightarrow> AuthenticatedPrincipal \<Rightarrow> unit result" where
  "validate_active_credential_binding p a =
     (if list_ex (\<lambda>v. tv_status v = CredentialActive \<and> tv_credential v = ap_credential a \<and>
           tv_principal v = ap_principal a) (sp_token_verifiers p)
      then Inr () else Inl SecurityAuthenticationFailed)"

definition authenticate_peer ::
  "SecurityPolicy \<Rightarrow> ClusterId \<Rightarrow> NodeId \<Rightarrow> CertificateFingerprint \<Rightarrow> unit result" where
  "authenticate_peer p cluster node fingerprint =
     (if cluster \<noteq> sp_cluster p then Inl SecurityAuthenticationFailed
      else if (case tget (sp_peer_certificates p) node of
                 None \<Rightarrow> False
               | Some bindings \<Rightarrow> list_ex (\<lambda>(b, _). pc_status b = CredentialActive \<and>
                   pc_cluster b = cluster \<and> pc_node b = node \<and> pc_fingerprint b = fingerprint) bindings)
      then Inr () else Inl SecurityAuthenticationFailed)"

definition has_active_peer :: "SecurityPolicy \<Rightarrow> NodeId \<Rightarrow> bool" where
  "has_active_peer p node =
     (case tget (sp_peer_certificates p) node of
        None \<Rightarrow> False
      | Some bindings \<Rightarrow> list_ex (\<lambda>(b, _). pc_status b = CredentialActive) bindings)"

section \<open>Mutations\<close>

datatype SecurityChange =
    ReplacePrincipalGrants PrincipalId "Grant set"
  | AddTokenGeneration TokenVerifier
  | RevokeTokenGeneration CredentialRef
  | AddPeerCertificate PeerCertificateBinding
  | RevokePeerCertificate NodeId CredentialGeneration

record SecurityMutation =
  sm_request :: MutationRequestId
  sm_expected_revision :: PolicyRevision
  sm_change :: SecurityChange

definition newest :: "u64 list \<Rightarrow> u64 option" where
  "newest gs = (case gs of [] \<Rightarrow> None | g # rest \<Rightarrow> Some (fold max rest g))"

text \<open>\<open>iter_mut().find(..)\<close> followed by \<open>revoke\<close>: the first verifier of the credential.\<close>

fun revoke_first ::
  "CredentialRef \<Rightarrow> RevocationRevision \<Rightarrow> TokenVerifier list \<Rightarrow> TokenVerifier list option" where
  "revoke_first credential r [] = None"
| "revoke_first credential r (v # vs) =
     (if tv_credential v = credential then Some (v\<lparr>tv_status := CredentialRevoked r\<rparr> # vs)
      else map_option ((#) v) (revoke_first credential r vs))"

definition revoke_binding ::
  "PeerCertificateBinding \<Rightarrow> RevocationRevision \<Rightarrow> PeerCertificateBinding" where
  "revoke_binding b r = PeerCertificateBinding (pc_cluster b) (pc_node b) (pc_generation b)
     (pc_fingerprint b) (CredentialRevoked r)"

text \<open>The \<open>match mutation.change\<close> of \<open>apply\<close>; \<open>next\<close> already carries the new revision.\<close>

definition apply_change :: "SecurityPolicy \<Rightarrow> SecurityChange \<Rightarrow> SecurityPolicy result" where
  "apply_change next change =
     (case change of
        ReplacePrincipalGrants who grants \<Rightarrow>
          Inr (next\<lparr>sp_grants := tput (sp_grants next) who grants\<rparr>)
      | AddTokenGeneration verifier \<Rightarrow>
          (let same = filter (\<lambda>v. crd_id (tv_credential v) = crd_id (tv_credential verifier))
                 (sp_token_verifiers next)
           in if (case newest (map (crd_generation \<circ> tv_credential) same) of
                    None \<Rightarrow> False
                  | Some n \<Rightarrow> crd_generation (tv_credential verifier) \<le> n)
              then Inl SecurityPolicyConflict
              else if list_ex (\<lambda>v. tv_digest v = tv_digest verifier) (sp_token_verifiers next) \<or>
                      list_ex (\<lambda>v. tv_credential v = tv_credential verifier) (sp_token_verifiers next)
              then Inl SecurityPolicyConflict
              else Inr (next\<lparr>sp_token_verifiers := sp_token_verifiers next @ [verifier]\<rparr>))
      | RevokeTokenGeneration credential \<Rightarrow>
          bind_result (RevocationRevision_next (sp_revocation_revision next)) (\<lambda>revocation.
          bind_result (ok_or SecurityPolicyConflict
            (revoke_first credential revocation (sp_token_verifiers next))) (\<lambda>verifiers.
          Inr (next\<lparr>sp_token_verifiers := verifiers, sp_revocation_revision := revocation\<rparr>)))
      | AddPeerCertificate binding \<Rightarrow>
          if pc_cluster binding \<noteq> sp_cluster next then Inl SecurityPolicyConflict
          else
            (let bindings = tget_or [] (sp_peer_certificates next) (pc_node binding)
             in if (case newest (map (pc_generation \<circ> fst) bindings) of
                      None \<Rightarrow> False
                    | Some n \<Rightarrow> pc_generation binding \<le> n)
                then Inl SecurityPolicyConflict
                else Inr (next\<lparr>sp_peer_certificates :=
                  tput (sp_peer_certificates next) (pc_node binding) (tput bindings binding ())\<rparr>))
      | RevokePeerCertificate node generation \<Rightarrow>
          bind_result (RevocationRevision_next (sp_revocation_revision next)) (\<lambda>revocation.
          bind_result (ok_or SecurityPolicyConflict
            (case tget (sp_peer_certificates next) node of
               None \<Rightarrow> None
             | Some bindings \<Rightarrow>
                 map_option (\<lambda>(b, _). (b, bindings))
                   (find (\<lambda>(b, _). pc_generation b = generation) bindings)))
            (\<lambda>(binding, bindings).
          Inr (next\<lparr>sp_peer_certificates := tput (sp_peer_certificates next) node
                 (tput (tdel bindings binding) (revoke_binding binding revocation) ()),
               sp_revocation_revision := revocation\<rparr>))))"

definition SecurityPolicy_apply :: "SecurityPolicy \<Rightarrow> SecurityMutation \<Rightarrow> SecurityPolicy result" where
  "SecurityPolicy_apply p mutation =
     (if sm_expected_revision mutation \<noteq> sp_revision p then Inl SecurityPolicyConflict
      else bind_result (PolicyRevision_next (sp_revision p)) (\<lambda>revision.
           bind_result (apply_change (p\<lparr>sp_revision := revision\<rparr>) (sm_change mutation)) (\<lambda>next.
           bind_result (policy_validate next) (\<lambda>_. Inr next))))"

section \<open>Runs of mutations\<close>

inductive security_step :: "SecurityPolicy \<Rightarrow> SecurityMutation \<Rightarrow> SecurityPolicy \<Rightarrow> bool" where
  security_apply: "SecurityPolicy_apply p m = Inr q \<Longrightarrow> security_step p m q"

inductive_simps security_step_iff [simp]: "security_step p m q"

definition policy_ok :: "SecurityPolicy \<Rightarrow> bool" where
  "policy_ok p \<longleftrightarrow> policy_validate p = Inr ()"

lemma SecurityPolicy_apply_Inr:
  "SecurityPolicy_apply p m = Inr q \<longleftrightarrow> sm_expected_revision m = sp_revision p \<and>
    (\<exists>r. PolicyRevision_next (sp_revision p) = Inr r \<and>
      apply_change (p\<lparr>sp_revision := r\<rparr>) (sm_change m) = Inr q) \<and> policy_ok q"
  by (auto simp: SecurityPolicy_apply_def bind_result_Inr policy_ok_def)

lemma PolicyRevision_next_Inr: "PolicyRevision_next r = Inr s \<longleftrightarrow> unat s = unat r + 1"
proof (cases "checked_add r 1")
  case None
  then have "2 ^ 64 \<le> unat r + 1" by (simp add: checked_add_None)
  with unat_lt_width [of s] None show ?thesis by (auto simp: PolicyRevision_next_def)
next
  case (Some v)
  then have "unat v = unat r + 1" by (simp add: checked_add_Some)
  moreover from this have "v \<noteq> 0" by auto
  ultimately show ?thesis using Some by (auto simp: PolicyRevision_next_def word_unat_eq_iff)
qed

lemma apply_change_revision: "apply_change p c = Inr q \<Longrightarrow> sp_revision q = sp_revision p"
  by (auto simp: apply_change_def Let_def bind_result_Inr split: SecurityChange.splits if_splits)

lemma security_step_revision:
  "security_step p m q \<Longrightarrow> unat (sp_revision q) = unat (sp_revision p) + 1"
  using apply_change_revision by (fastforce simp: SecurityPolicy_apply_Inr PolicyRevision_next_Inr)

interpretation security: keeps_rank security_step policy_ok sp_revision
proof
  show "policy_ok q" if "security_step p m q" for p m q
    using that by (simp add: SecurityPolicy_apply_Inr)
  show "sp_revision p \<le> sp_revision q" if "security_step p m q" for p m q
    using security_step_revision [OF that] by (simp add: word_le_nat_alt)
qed

text \<open>A credential is dead when it was issued and every verifier of it is revoked.\<close>

definition credential_dead :: "CredentialRef \<Rightarrow> SecurityPolicy \<Rightarrow> bool" where
  "credential_dead c p \<longleftrightarrow> (\<exists>v \<in> set (sp_token_verifiers p). tv_credential v = c) \<and>
     (\<forall>v \<in> set (sp_token_verifiers p). tv_credential v = c \<longrightarrow> tv_status v \<noteq> CredentialActive)"

lemma revoke_first_spec:
  "revoke_first c r vs = Some ws \<Longrightarrow>
    \<exists>xs v ys. vs = xs @ v # ys \<and> ws = xs @ v\<lparr>tv_status := CredentialRevoked r\<rparr> # ys \<and>
      tv_credential v = c \<and> (\<forall>x \<in> set xs. tv_credential x \<noteq> c)"
proof (induction vs arbitrary: ws)
  case (Cons v vs)
  show ?case
  proof (cases "tv_credential v = c")
    case True
    with Cons.prems show ?thesis by (intro exI [of _ "[]"] exI [of _ v] exI [of _ vs]) auto
  next
    case False
    with Cons obtain ws' where ws: "revoke_first c r vs = Some ws'" "ws = v # ws'" by auto
    from Cons.IH [OF ws(1)] obtain xs w ys where "vs = xs @ w # ys"
      "ws' = xs @ w\<lparr>tv_status := CredentialRevoked r\<rparr> # ys" "tv_credential w = c"
      "\<forall>x \<in> set xs. tv_credential x \<noteq> c" by blast
    with ws False show ?thesis
      by (intro exI [of _ "v # xs"] exI [of _ w] exI [of _ ys]) auto
  qed
qed simp

lemma credential_dead_change:
  "apply_change p ch = Inr q \<Longrightarrow> credential_dead c p \<Longrightarrow> credential_dead c q"
proof (cases ch)
  case (AddTokenGeneration v)
  assume "apply_change p ch = Inr q" and dead: "credential_dead c p"
  then have "sp_token_verifiers q = sp_token_verifiers p @ [v]"
    "\<forall>w \<in> set (sp_token_verifiers p). tv_credential w \<noteq> tv_credential v"
    using AddTokenGeneration
    by (auto simp: apply_change_def Let_def list_ex_iff split: if_splits option.splits)
  with dead show "credential_dead c q" by (auto simp: credential_dead_def)
qed (auto simp: apply_change_def credential_dead_def Let_def bind_result_Inr
    split: if_splits dest!: revoke_first_spec)

lemma credential_dead_step: "security_step p m q \<Longrightarrow> credential_dead c p \<Longrightarrow> credential_dead c q"
  using credential_dead_change [of "p\<lparr>sp_revision := r\<rparr>" for r]
  by (fastforce simp: SecurityPolicy_apply_Inr credential_dead_def)

interpretation dead: keeps_invariant security_step "credential_dead c" for c
  by unfold_locales (rule credential_dead_step)

lemma verifiers_unique_distinct:
  "verifiers_unique cs ds vs \<Longrightarrow> distinct (map tv_credential vs) \<and>
    tv_credential ` set vs \<inter> set cs = {}"
proof (induction vs arbitrary: cs ds)
  case (Cons v vs)
  from Cons.prems have "tv_credential v \<notin> set cs"
    and "verifiers_unique (tv_credential v # cs) (tv_digest v # ds) vs"
    by (auto split: if_splits)
  with Cons.IH [OF this(2)] show ?case by auto
qed simp

lemma policy_ok_distinct: "policy_ok p \<Longrightarrow> distinct (map tv_credential (sp_token_verifiers p))"
  using verifiers_unique_distinct [of "[]" "[]" "sp_token_verifiers p"]
  by (auto simp: policy_ok_def policy_validate_def Let_def split: if_splits)

lemma policy_ok_admin: "policy_ok p \<Longrightarrow> has_security_admin p"
  by (auto simp: policy_ok_def policy_validate_def Let_def split: if_splits)

lemma has_security_admin_authorized:
  assumes "has_security_admin p"
  shows "\<exists>v \<in> set (sp_token_verifiers p). tv_status v = CredentialActive \<and>
    authorize p (tv_principal v) SecurityAdmin (ScopeCluster (sp_cluster p)) = Inr ()"
proof -
  from assms obtain v grants where "v \<in> set (sp_token_verifiers p)" "tv_status v = CredentialActive"
    "tget (sp_grants p) (tv_principal v) = Some grants"
    "\<lparr>g_permission = SecurityAdmin, g_scope = ScopeCluster (sp_cluster p)\<rparr> \<in> grants"
    by (auto simp: has_security_admin_def list_ex_iff split: option.splits)
  then show ?thesis by (force simp: authorize_def scope_covers_def)
qed

lemma revoked_credential_dead:
  assumes "policy_ok q" "apply_change p (RevokeTokenGeneration c) = Inr q"
  shows "credential_dead c q"
proof -
  obtain r where "revoke_first c r (sp_token_verifiers p) = Some (sp_token_verifiers q)"
    using assms(2) by (auto simp: apply_change_def bind_result_Inr)
  from revoke_first_spec [OF this] obtain xs v ys
    where vs: "sp_token_verifiers q = xs @ v\<lparr>tv_status := CredentialRevoked r\<rparr> # ys"
      "tv_credential v = c" by blast
  have "distinct (map tv_credential (sp_token_verifiers q))"
    using assms(1) by (rule policy_ok_distinct)
  then have "c \<notin> tv_credential ` set xs" "c \<notin> tv_credential ` set ys" using vs by simp_all
  then have "\<forall>w \<in> set xs \<union> set ys. tv_credential w \<noteq> c" by blast
  then show ?thesis using vs by (auto simp: credential_dead_def)
qed

lemma authenticate_dead: "credential_dead c p \<Longrightarrow> authenticate p c d = Inl SecurityAuthenticationFailed"
  by (auto simp: authenticate_def credential_dead_def find_Some_iff split: option.splits)

lemma find_distinct_key:
  "distinct (map f xs) \<Longrightarrow> x \<in> set xs \<Longrightarrow> find (\<lambda>y. f y = f x) xs = Some x"
  by (induction xs) auto

section \<open>A concrete policy\<close>

definition demo_admin_grant :: Grant where
  "demo_admin_grant = \<lparr>g_permission = SecurityAdmin, g_scope = ScopeCluster 9\<rparr>"

definition demo_verifier :: "u64 \<Rightarrow> u8 \<Rightarrow> TokenVerifier" where
  "demo_verifier generation digest =
     \<lparr>tv_credential = \<lparr>crd_id = [97], crd_generation = generation\<rparr>, tv_principal = [112],
      tv_digest = [digest], tv_status = CredentialActive\<rparr>"

definition demo_policy :: SecurityPolicy where
  "demo_policy = \<lparr>sp_cluster = 9, sp_revision = 1, sp_revocation_revision = 0,
     sp_grants = [([112], {demo_admin_grant})],
     sp_token_verifiers = [demo_verifier 1 5, demo_verifier 2 6], sp_peer_certificates = []\<rparr>"

definition demo_revoke :: SecurityMutation where
  "demo_revoke = \<lparr>sm_request = \<lparr>mr_principal = [112], mr_session = 1, mr_sequence = 1\<rparr>,
     sm_expected_revision = 1,
     sm_change = RevokeTokenGeneration (tv_credential (demo_verifier 1 5))\<rparr>"

definition demo_revoked :: SecurityPolicy where
  "demo_revoked = demo_policy\<lparr>sp_revision := 2, sp_revocation_revision := 1,
     sp_token_verifiers := [(demo_verifier 1 5)\<lparr>tv_status := CredentialRevoked 1\<rparr>,
       demo_verifier 2 6]\<rparr>"

lemmas demo_policy_simps = demo_policy_def demo_revoked_def demo_verifier_def demo_admin_grant_def
  demo_revoke_def policy_ok_def policy_validate_def has_security_admin_def scope_cluster_def
  MAX_SECURITY_PRINCIPALS_def MAX_SECURITY_GRANTS_def MAX_TOKEN_VERIFIERS_def
  MAX_PEER_CERTIFICATES_def Let_def

lemma demo_policy_ok: "policy_ok demo_policy" "policy_ok demo_revoked"
  by (simp_all add: demo_policy_simps)

lemma demo_apply: "SecurityPolicy_apply demo_policy demo_revoke = Inr demo_revoked"
proof -
  have "PolicyRevision_next 1 = Inr 2" by (simp add: PolicyRevision_next_Inr)
  moreover have "RevocationRevision_next 0 = Inr 1"
    by (simp add: RevocationRevision_next_def checked_add_Some)
  ultimately show ?thesis using demo_policy_ok(2)
    by (simp add: SecurityPolicy_apply_def apply_change_def demo_policy_def demo_revoke_def
        demo_revoked_def demo_verifier_def policy_ok_def)
qed

section \<open>Properties\<close>

text \<open>
  C11. A revoked token generation is dead for good: after the mutation that revokes it, no further
  sequence of accepted mutations makes its credential authenticate again, whatever secret is shown.
\<close>

theorem revoked_credential_never_authenticates:
  assumes "SecurityPolicy_apply p m = Inr q" "sm_change m = RevokeTokenGeneration c"
    and "runs security_step q ms r"
  shows "authenticate r c digest = Inl SecurityAuthenticationFailed"
proof -
  have "credential_dead c q"
    using assms(1,2) revoked_credential_dead by (auto simp: SecurityPolicy_apply_Inr)
  with assms(3) have "credential_dead c r" by (rule dead.runs_ok)
  then show ?thesis by (rule authenticate_dead)
qed

theorem revoked_credential_never_authenticates_witness:
  "authenticate demo_revoked (tv_credential (demo_verifier 1 5)) [5] =
    Inl SecurityAuthenticationFailed"
  by (rule revoked_credential_never_authenticates [OF demo_apply, where ms = "[]"])
    (simp_all add: demo_revoke_def)

text \<open>
  C12. No sequence of accepted mutations locks the administrators out: in every policy reached from a
  valid one some credential still authenticates, with its secret, as a principal that may administer
  the cluster's security.
\<close>

theorem security_admin_never_locked_out:
  assumes "policy_ok p" "runs security_step p ms q"
  shows "\<exists>c digest a. authenticate q c digest = Inr a \<and>
    authorize q (ap_principal a) SecurityAdmin (ScopeCluster (sp_cluster q)) = Inr ()"
proof -
  have ok: "policy_ok q" using assms(2,1) by (rule security.runs_ok)
  then obtain v where v: "v \<in> set (sp_token_verifiers q)" "tv_status v = CredentialActive"
    "authorize q (tv_principal v) SecurityAdmin (ScopeCluster (sp_cluster q)) = Inr ()"
    by (blast dest: policy_ok_admin has_security_admin_authorized)
  have "find (\<lambda>w. tv_credential w = tv_credential v) (sp_token_verifiers q) = Some v"
    using policy_ok_distinct [OF ok] v(1) by (rule find_distinct_key)
  then have "\<exists>a. authenticate q (tv_credential v) (tv_digest v) = Inr a \<and> ap_principal a = tv_principal v"
    using v(2) by (simp add: authenticate_def)
  with v(3) show ?thesis by fastforce
qed

theorem security_admin_never_locked_out_witness:
  "\<exists>c digest a. authenticate demo_revoked c digest = Inr a \<and>
    authorize demo_revoked (ap_principal a) SecurityAdmin (ScopeCluster (sp_cluster demo_revoked)) = Inr ()"
  by (rule security_admin_never_locked_out [OF demo_policy_ok(1), of "[demo_revoke]"])
    (auto intro: runs_Cons runs_Nil simp: demo_apply)

text \<open>
  C13. Policy mutations are a compare-and-set: once one is accepted, every mutation that expects the
  same revision is refused in every later policy.
\<close>

theorem security_mutation_exclusive:
  assumes "SecurityPolicy_apply p m = Inr q" "runs security_step q ms r"
    and "sm_expected_revision m' = sm_expected_revision m"
  shows "SecurityPolicy_apply r m' = Inl SecurityPolicyConflict"
proof -
  have "policy_ok q" and e: "sm_expected_revision m = sp_revision p"
    using assms(1) by (auto simp: SecurityPolicy_apply_Inr)
  then have "sp_revision q \<le> sp_revision r" using assms(2) by (blast intro: security.runs_rank)
  moreover have "unat (sp_revision q) = unat (sp_revision p) + 1"
    using assms(1) by (intro security_step_revision) simp
  ultimately have "sp_revision r \<noteq> sp_revision p" by (auto simp: word_le_nat_alt)
  with assms(3) e show ?thesis by (simp add: SecurityPolicy_apply_def)
qed

theorem security_mutation_exclusive_witness:
  "SecurityPolicy_apply demo_revoked
     (demo_revoke\<lparr>sm_change := ReplacePrincipalGrants [112] {}\<rparr>) = Inl SecurityPolicyConflict"
  by (rule security_mutation_exclusive [OF demo_apply, where ms = "[]"])
    (simp_all add: demo_revoke_def)

text \<open>
  C14. A request on a stream is authorized exactly by a grant of that permission on that stream or on
  all streams of its cluster; a cluster-scoped grant of the same permission does not reach streams.
\<close>

theorem authorize_stream_iff:
  "authorize p who permission (ScopeStream c s) = Inr () \<longleftrightarrow>
    (\<exists>grants. tget (sp_grants p) who = Some grants \<and>
      (\<lparr>g_permission = permission, g_scope = ScopeAllStreams c\<rparr> \<in> grants \<or>
       \<lparr>g_permission = permission, g_scope = ScopeStream c s\<rparr> \<in> grants))"
proof -
  have "(\<exists>g \<in> grants. g_permission g = permission \<and> scope_covers (g_scope g) (ScopeStream c s)) \<longleftrightarrow>
      \<lparr>g_permission = permission, g_scope = ScopeAllStreams c\<rparr> \<in> grants \<or>
      \<lparr>g_permission = permission, g_scope = ScopeStream c s\<rparr> \<in> grants" for grants
  proof
    assume "\<exists>g \<in> grants. g_permission g = permission \<and> scope_covers (g_scope g) (ScopeStream c s)"
    then obtain g where "g \<in> grants" "g_permission g = permission"
      "scope_covers (g_scope g) (ScopeStream c s)" by blast
    moreover from this have "g_scope g = ScopeAllStreams c \<or> g_scope g = ScopeStream c s"
      by (cases "g_scope g") (simp_all add: scope_covers_def)
    ultimately show "\<lparr>g_permission = permission, g_scope = ScopeAllStreams c\<rparr> \<in> grants \<or>
      \<lparr>g_permission = permission, g_scope = ScopeStream c s\<rparr> \<in> grants"
      by (metis Grant.surjective old.unit.exhaust)
  qed (force simp: scope_covers_def)
  then show ?thesis by (auto simp: authorize_def split: option.splits)
qed

end
