(* ===== verification/Export_Protocol.thy ===== *)
theory Export_Protocol
  imports Domain
begin

text \<open>
  The export protocol of \<open>crates/light-stream-core/src/operations.rs\<close>: request digests and tokens,
  the mutation fence of a group (\<open>MutationFenceState\<close>) and the life cycle of the one active export
  (\<open>ActiveExport\<close>). SHA-256 is a parameter of the definitions that hash. A \<open>BTreeSet\<close> is a HOL set,
  a \<open>BTreeMap\<close> an ordered table. The step relation \<open>export_step\<close> has one rule per operation; the
  lemmas show that every reachable export passes the validation of its own \<open>Deserialize\<close>, that a
  receipt is issued only when every configured group was released, and how fences order exports.
\<close>

section \<open>Identities of an export\<close>

type_synonym ExportEpoch = u64
type_synonym ExportRequestDigest = bytes
type_synonym sha256 = "bytes \<Rightarrow> bytes"

definition MAX_EXPORT_STREAMS :: nat where "MAX_EXPORT_STREAMS = 1024"
definition MAX_DATA_GROUPS :: nat where "MAX_DATA_GROUPS = 32"

definition ExportEpoch_new :: "u64 \<Rightarrow> ExportEpoch result" where
  "ExportEpoch_new = nonzero_new ''export epoch''"

fun adjacent_equal :: "'a list \<Rightarrow> bool" where
  "adjacent_equal (x # y # zs) = (x = y \<or> adjacent_equal (y # zs))"
| "adjacent_equal _ = False"

definition ExportSelection_try_new :: "StreamId list \<Rightarrow> StreamId list result" where
  "ExportSelection_try_new streams =
     (if streams = [] then Inl (InvalidRange ''export selection must contain at least one stream'')
      else if length streams > MAX_EXPORT_STREAMS
      then Inl (ResourceLimit ''export_streams'' (of_nat MAX_EXPORT_STREAMS))
      else if adjacent_equal (sort streams)
      then Inl (InvalidIdentity ''export selection'' ''stream IDs must be unique'')
      else Inr (sort streams))"

record ExportDeadline =
  ed_lower_bound :: u64
  ed_upper_bound :: u64

definition ExportDeadline_new :: "u64 \<Rightarrow> u64 \<Rightarrow> ExportDeadline result" where
  "ExportDeadline_new lower upper =
     (if lower > upper then Inl (InvalidRange ''export deadline lower bound exceeds upper bound'')
      else Inr \<lparr>ed_lower_bound = lower, ed_upper_bound = upper\<rparr>)"

datatype ExportFormatVersion = V1

definition format_number :: "ExportFormatVersion \<Rightarrow> u32" where
  "format_number f = (case f of V1 \<Rightarrow> 1)"

definition canonical_request_bytes ::
  "MutationRequestId \<Rightarrow> ClusterId \<Rightarrow> StreamId list \<Rightarrow> ExportFormatVersion \<Rightarrow> bytes" where
  "canonical_request_bytes request cluster selection format =
     ascii ''light-stream/export-request/v1'' @ [0] @
     ascii ''principal'' @ [0] @
     to_be_bytes (of_nat (length (mr_principal request)) :: u32) @ mr_principal request @
     ascii ''session'' @ [0] @ to_be_bytes (mr_session request) @
     ascii ''sequence'' @ [0] @ to_be_bytes (mr_sequence request) @
     ascii ''cluster'' @ [0] @ to_be_bytes cluster @
     ascii ''format'' @ [0] @ to_be_bytes (format_number format) @
     ascii ''streams'' @ [0] @ to_be_bytes (of_nat (length selection) :: u32) @
     concat (map to_be_bytes selection)"

definition canonical_request_digest ::
  "sha256 \<Rightarrow> MutationRequestId \<Rightarrow> ClusterId \<Rightarrow> StreamId list \<Rightarrow> ExportFormatVersion
   \<Rightarrow> ExportRequestDigest" where
  "canonical_request_digest sha request cluster selection format =
     sha (canonical_request_bytes request cluster selection format)"

text \<open>The UUID made of the first 16 digest bytes with the version and variant bits set.\<close>

definition export_id_from_digest :: "ExportRequestDigest \<Rightarrow> ExportId" where
  "export_id_from_digest digest =
     (let b = take 16 digest;
          b = b[6 := or (and (b ! 6) 0x0f) 0x80];
          b = b[8 := or (and (b ! 8) 0x3f) 0x80]
      in from_be_bytes b)"

record ExportIntent =
  ei_request :: MutationRequestId
  ei_cluster :: ClusterId
  ei_selection :: "StreamId list"
  ei_format :: ExportFormatVersion
  ei_request_digest :: ExportRequestDigest
  ei_export :: ExportId

definition ExportIntent_new ::
  "sha256 \<Rightarrow> MutationRequestId \<Rightarrow> ClusterId \<Rightarrow> StreamId list \<Rightarrow> ExportFormatVersion \<Rightarrow> ExportIntent"
where
  "ExportIntent_new sha request cluster selection format =
     (let digest = canonical_request_digest sha request cluster selection format
      in \<lparr>ei_request = request, ei_cluster = cluster, ei_selection = selection,
          ei_format = format, ei_request_digest = digest,
          ei_export = export_id_from_digest digest\<rparr>)"

record ExportFenceToken =
  ft_epoch :: ExportEpoch
  ft_export :: ExportId
  ft_request_digest :: ExportRequestDigest

definition ExportFenceToken_new :: "ExportEpoch \<Rightarrow> ExportRequestDigest \<Rightarrow> ExportFenceToken" where
  "ExportFenceToken_new epoch digest =
     \<lparr>ft_epoch = epoch, ft_export = export_id_from_digest digest, ft_request_digest = digest\<rparr>"

record GroupCut =
  gc_group :: GroupId
  gc_term :: u64
  gc_leader :: NodeId
  gc_applied_index :: u64

section \<open>The mutation fence\<close>

record HeldExportFence =
  hf_token :: ExportFenceToken
  hf_cut :: GroupCut

record MutationFenceState =
  mf_through_epoch :: u64
  mf_held :: "HeldExportFence option"

record ExportFenceObservation =
  ob_group :: GroupId
  ob_through_epoch :: u64
  ob_held :: "HeldExportFence option"

definition MutationFenceState_default :: MutationFenceState where
  "MutationFenceState_default = \<lparr>mf_through_epoch = 0, mf_held = None\<rparr>"

definition fence_observation :: "MutationFenceState \<Rightarrow> GroupId \<Rightarrow> ExportFenceObservation" where
  "fence_observation f grp =
     \<lparr>ob_group = grp, ob_through_epoch = mf_through_epoch f, ob_held = mf_held f\<rparr>"

definition fence_acquire ::
  "MutationFenceState \<Rightarrow> ExportFenceToken \<Rightarrow> GroupCut
   \<Rightarrow> (MutationFenceState \<times> ExportFenceObservation) result" where
  "fence_acquire f token ct =
     (if ft_epoch token \<le> mf_through_epoch f
      then Inr (f, fence_observation f (gc_group ct))
      else case mf_held f of
        Some held \<Rightarrow>
          if hf_token held = token then Inr (f, fence_observation f (gc_group (hf_cut held)))
          else Inl ExportConflict
      | None \<Rightarrow>
          (let f' = f\<lparr>mf_held := Some \<lparr>hf_token = token, hf_cut = ct\<rparr>\<rparr>
           in Inr (f', fence_observation f' (gc_group ct))))"

definition fence_release_for_group ::
  "MutationFenceState \<Rightarrow> ExportFenceToken \<Rightarrow> GroupId
   \<Rightarrow> (MutationFenceState \<times> ExportFenceObservation) result" where
  "fence_release_for_group f token grp =
     (if (case mf_held f of None \<Rightarrow> False | Some held \<Rightarrow> hf_token held \<noteq> token)
      then Inl ExportConflict
      else
        (let f' = f\<lparr>mf_held := None,
                    mf_through_epoch := max (mf_through_epoch f) (ft_epoch token)\<rparr>
         in Inr (f', fence_observation f' grp)))"

text \<open>What \<open>Deserialize for MutationFenceState\<close> accepts.\<close>

definition fence_decodes :: "MutationFenceState \<Rightarrow> bool" where
  "fence_decodes f \<longleftrightarrow>
     (case mf_held f of None \<Rightarrow> True | Some held \<Rightarrow> mf_through_epoch f < ft_epoch (hf_token held))"

definition ExportFenceObservation_new ::
  "GroupId \<Rightarrow> u64 \<Rightarrow> HeldExportFence option \<Rightarrow> ExportFenceObservation result" where
  "ExportFenceObservation_new grp through held =
     (if (case held of None \<Rightarrow> False | Some h \<Rightarrow> gc_group (hf_cut h) \<noteq> grp)
      then Inl (InvalidIdentity ''export fence observation''
        ''held fence cut belongs to another group'')
      else if (case held of None \<Rightarrow> False | Some h \<Rightarrow> ft_epoch (hf_token h) \<le> through)
      then Inl (InvalidIdentity ''export fence observation''
        ''held fence is not newer than the release watermark'')
      else Inr \<lparr>ob_group = grp, ob_through_epoch = through, ob_held = held\<rparr>)"

section \<open>The active export\<close>

record QuiescentCut =
  qc_control :: GroupCut
  qc_data :: "(GroupId, GroupCut) table"

definition QuiescentCut_try_new :: "GroupCut \<Rightarrow> GroupCut list \<Rightarrow> QuiescentCut result" where
  "QuiescentCut_try_new control cuts =
     (let table = collect_table (map (\<lambda>c. (gc_group c, c)) cuts)
      in if length table \<noteq> length cuts
         then Inl (InvalidIdentity ''quiescent cut'' ''data group cuts must be unique'')
         else Inr \<lparr>qc_control = control, qc_data = table\<rparr>)"

record ExportSpec =
  es_intent :: ExportIntent
  es_epoch :: ExportEpoch
  es_configured_data_groups :: "GroupId set"
  es_deadline :: ExportDeadline

definition ExportSpec_try_new ::
  "ExportIntent \<Rightarrow> ExportEpoch \<Rightarrow> GroupId list \<Rightarrow> ExportDeadline \<Rightarrow> ExportSpec result" where
  "ExportSpec_try_new intent epoch groups deadline =
     (if groups = []
      then Inl (InvalidRange ''export requires at least one configured data group'')
      else if length groups > MAX_DATA_GROUPS
      then Inl (ResourceLimit ''export_data_groups'' (of_nat MAX_DATA_GROUPS))
      else if card (set groups) \<noteq> length groups
      then Inl (InvalidIdentity ''export data groups'' ''configured data group IDs must be unique'')
      else Inr \<lparr>es_intent = intent, es_epoch = epoch, es_configured_data_groups = set groups,
                es_deadline = deadline\<rparr>)"

definition es_token :: "ExportSpec \<Rightarrow> ExportFenceToken" where
  "es_token s = ExportFenceToken_new (es_epoch s) (ei_request_digest (es_intent s))"

record ArtifactIdentity =
  ai_length :: u64
  ai_sha256 :: bytes

definition ArtifactIdentity_new :: "u64 \<Rightarrow> bytes \<Rightarrow> ArtifactIdentity result" where
  "ArtifactIdentity_new n sha =
     (if n = 0 then Inl (InvalidRange ''export artifact length must be greater than zero'')
      else Inr \<lparr>ai_length = n, ai_sha256 = sha\<rparr>)"

datatype ExportAbortReason = OperatorRequested | DeadlineExceeded | MaterializationFailed

datatype ActiveExportPhase =
    PhasePreparing GroupCut "(GroupId, GroupCut) table"
  | PhaseFrozen QuiescentCut
  | PhaseMaterializing QuiescentCut
  | PhaseAvailable QuiescentCut ArtifactIdentity
  | PhaseReleasing QuiescentCut ArtifactIdentity "GroupId set"
  | PhaseAborting ExportAbortReason "GroupId set"

record ActiveExport =
  ae_spec :: ExportSpec
  ae_phase :: ActiveExportPhase

definition ActiveExport_preparing :: "ExportSpec \<Rightarrow> GroupCut \<Rightarrow> ActiveExport" where
  "ActiveExport_preparing spec control_cut =
     \<lparr>ae_spec = spec, ae_phase = PhasePreparing control_cut []\<rparr>"

definition ae_cut :: "ActiveExport \<Rightarrow> QuiescentCut option" where
  "ae_cut a =
     (case ae_phase a of
        PhaseFrozen ct \<Rightarrow> Some ct
      | PhaseMaterializing ct \<Rightarrow> Some ct
      | PhaseAvailable ct _ \<Rightarrow> Some ct
      | PhaseReleasing ct _ _ \<Rightarrow> Some ct
      | PhasePreparing _ _ \<Rightarrow> None
      | PhaseAborting _ _ \<Rightarrow> None)"

definition record_fence :: "ActiveExport \<Rightarrow> ExportFenceObservation \<Rightarrow> ActiveExport result" where
  "record_fence a ob =
     (case ae_phase a of
        PhasePreparing control fenced \<Rightarrow>
          if ob_group ob \<notin> es_configured_data_groups (ae_spec a)
          then Inl (InvalidIdentity ''export fence observation''
            ''group is not in the configured data-group set'')
          else (case ob_held ob of
            None \<Rightarrow> Inl ExportConflict
          | Some held \<Rightarrow>
              if hf_token held \<noteq> es_token (ae_spec a) then Inl ExportConflict
              else if gc_group (hf_cut held) \<noteq> ob_group ob
              then Inl (InvalidIdentity ''export fence observation''
                ''observation group does not match the held cut'')
              else (case tget fenced (ob_group ob) of
                Some existing \<Rightarrow> if existing = hf_cut held then Inr a else Inl ExportConflict
              | None \<Rightarrow>
                  (let fenced' = tput fenced (ob_group ob) (hf_cut held)
                   in if fst ` set fenced' = es_configured_data_groups (ae_spec a)
                      then bind_result (QuiescentCut_try_new control (map snd fenced'))
                        (\<lambda>ct. Inr (a\<lparr>ae_phase := PhaseFrozen ct\<rparr>))
                      else Inr (a\<lparr>ae_phase := PhasePreparing control fenced'\<rparr>))))
      | _ \<Rightarrow>
          if (case ae_cut a of None \<Rightarrow> False
              | Some ct \<Rightarrow> tget (qc_data ct) (ob_group ob) = map_option hf_cut (ob_held ob))
          then Inr a else Inl ExportConflict)"

definition begin_materialization :: "ActiveExport \<Rightarrow> ActiveExport result" where
  "begin_materialization a =
     (case ae_phase a of
        PhaseFrozen ct \<Rightarrow> Inr (a\<lparr>ae_phase := PhaseMaterializing ct\<rparr>)
      | PhaseMaterializing _ \<Rightarrow> Inr a
      | _ \<Rightarrow> Inl ExportConflict)"

definition publish_artifact ::
  "ActiveExport \<Rightarrow> ArtifactIdentity \<Rightarrow> QuiescentCut \<Rightarrow> ActiveExport result" where
  "publish_artifact a artifact ct =
     (case ae_phase a of
        PhaseMaterializing expected \<Rightarrow>
          if expected = ct then Inr (a\<lparr>ae_phase := PhaseAvailable ct artifact\<rparr>)
          else Inl ExportConflict
      | PhaseAvailable c existing \<Rightarrow>
          if c = ct \<and> existing = artifact then Inr a else Inl ExportConflict
      | _ \<Rightarrow> Inl ExportConflict)"

definition request_completion :: "ActiveExport \<Rightarrow> ArtifactIdentity \<Rightarrow> ActiveExport result" where
  "request_completion a artifact =
     (case ae_phase a of
        PhaseAvailable ct existing \<Rightarrow>
          if existing = artifact then Inr (a\<lparr>ae_phase := PhaseReleasing ct artifact {}\<rparr>)
          else Inl ExportConflict
      | PhaseReleasing _ existing _ \<Rightarrow> if existing = artifact then Inr a else Inl ExportConflict
      | _ \<Rightarrow> Inl ExportConflict)"

definition request_abort :: "ActiveExport \<Rightarrow> ExportAbortReason \<Rightarrow> ActiveExport result" where
  "request_abort a reason =
     (case ae_phase a of
        PhaseAborting r _ \<Rightarrow> if r = reason then Inr a else Inl ExportConflict
      | PhaseReleasing _ _ _ \<Rightarrow> Inl ExportConflict
      | _ \<Rightarrow> Inr (a\<lparr>ae_phase := PhaseAborting reason {}\<rparr>))"

definition record_release :: "ActiveExport \<Rightarrow> ExportFenceObservation \<Rightarrow> ActiveExport result" where
  "record_release a ob =
     (if ob_group ob \<notin> es_configured_data_groups (ae_spec a)
      then Inl (InvalidIdentity ''export release observation''
        ''group is not in the configured data-group set'')
      else if ob_through_epoch ob < es_epoch (ae_spec a) \<or> ob_held ob \<noteq> None
      then Inl ExportConflict
      else (case ae_phase a of
          PhaseReleasing ct artifact released \<Rightarrow>
            Inr (a\<lparr>ae_phase := PhaseReleasing ct artifact (insert (ob_group ob) released)\<rparr>)
        | PhaseAborting reason released \<Rightarrow>
            Inr (a\<lparr>ae_phase := PhaseAborting reason (insert (ob_group ob) released)\<rparr>)
        | _ \<Rightarrow> Inl ExportConflict))"

definition is_ready_to_finish :: "ActiveExport \<Rightarrow> bool" where
  "is_ready_to_finish a =
     (case ae_phase a of
        PhaseReleasing _ _ released \<Rightarrow> released = es_configured_data_groups (ae_spec a)
      | PhaseAborting _ released \<Rightarrow> released = es_configured_data_groups (ae_spec a)
      | _ \<Rightarrow> False)"

datatype ExportReceiptOutcome =
    Completed ArtifactIdentity
  | Aborted ExportAbortReason

record ExportReceipt =
  xr_request :: MutationRequestId
  xr_export :: ExportId
  xr_epoch :: ExportEpoch
  xr_request_digest :: ExportRequestDigest
  xr_deadline :: "ExportDeadline option"
  xr_outcome :: ExportReceiptOutcome

definition ExportReceipt_new ::
  "MutationRequestId \<Rightarrow> ExportEpoch \<Rightarrow> ExportRequestDigest \<Rightarrow> ExportDeadline \<Rightarrow> ExportReceiptOutcome
   \<Rightarrow> ExportReceipt" where
  "ExportReceipt_new request epoch digest deadline outcome =
     \<lparr>xr_request = request, xr_export = export_id_from_digest digest, xr_epoch = epoch,
      xr_request_digest = digest, xr_deadline = Some deadline, xr_outcome = outcome\<rparr>"

definition export_receipt_of :: "ActiveExport \<Rightarrow> ExportReceipt result" where
  "export_receipt_of a =
     (if \<not> is_ready_to_finish a then Inl ExportConflict
      else
        (let receipt = (\<lambda>outcome. ExportReceipt_new (ei_request (es_intent (ae_spec a)))
               (es_epoch (ae_spec a)) (ei_request_digest (es_intent (ae_spec a)))
               (es_deadline (ae_spec a)) outcome)
         in case ae_phase a of
              PhaseReleasing _ artifact _ \<Rightarrow> Inr (receipt (Completed artifact))
            | PhaseAborting reason _ \<Rightarrow> Inr (receipt (Aborted reason))
            | _ \<Rightarrow> Inl ExportConflict))"

datatype ExportStatusPhase =
    StPreparing | StFrozen | StMaterializing | StAvailable | StReleasing | StAborting

record ActiveExportStatus =
  as_export :: ExportId
  as_epoch :: ExportEpoch
  as_phase :: ExportStatusPhase

datatype ExportStatus = StatusActive ActiveExportStatus | StatusTerminal ExportReceipt

definition ExportStatus_active :: "ActiveExport \<Rightarrow> ExportStatus" where
  "ExportStatus_active a =
     StatusActive \<lparr>as_export = ei_export (es_intent (ae_spec a)), as_epoch = es_epoch (ae_spec a),
       as_phase = (case ae_phase a of
          PhasePreparing _ _ \<Rightarrow> StPreparing
        | PhaseFrozen _ \<Rightarrow> StFrozen
        | PhaseMaterializing _ \<Rightarrow> StMaterializing
        | PhaseAvailable _ _ \<Rightarrow> StAvailable
        | PhaseReleasing _ _ _ \<Rightarrow> StReleasing
        | PhaseAborting _ _ \<Rightarrow> StAborting)\<rparr>"

text \<open>What \<open>Deserialize for ActiveExport\<close> and for the cut inside it accept.\<close>

definition cut_decodes :: "QuiescentCut \<Rightarrow> bool" where
  "cut_decodes ct \<longleftrightarrow> list_all (\<lambda>(g, c). g = gc_group c) (qc_data ct)"

definition active_export_valid :: "ActiveExport \<Rightarrow> bool" where
  "active_export_valid a \<longleftrightarrow>
     (let configured = es_configured_data_groups (ae_spec a)
      in case ae_phase a of
           PhasePreparing _ fenced \<Rightarrow>
             length fenced < card configured \<and>
             list_all (\<lambda>(g, c). g \<in> configured \<and> g = gc_group c) fenced
         | PhaseFrozen ct \<Rightarrow> fst ` set (qc_data ct) = configured
         | PhaseMaterializing ct \<Rightarrow> fst ` set (qc_data ct) = configured
         | PhaseAvailable ct _ \<Rightarrow> fst ` set (qc_data ct) = configured
         | PhaseReleasing ct _ released \<Rightarrow>
             fst ` set (qc_data ct) = configured \<and> released \<subseteq> configured
         | PhaseAborting _ released \<Rightarrow> released \<subseteq> configured)"

section \<open>Runs of the fence\<close>

text \<open>The two operations a group applies to its fence; a rejected operation changes nothing.\<close>

datatype fence_op = FenceAcquire ExportFenceToken GroupCut | FenceRelease ExportFenceToken GroupId

inductive fence_step :: "MutationFenceState \<Rightarrow> fence_op \<Rightarrow> MutationFenceState \<Rightarrow> bool" where
  step_acquire: "fence_acquire f token ct = Inr (f', ob) \<Longrightarrow> fence_step f (FenceAcquire token ct) f'"
| step_release:
    "fence_release_for_group f token grp = Inr (f', ob) \<Longrightarrow> fence_step f (FenceRelease token grp) f'"

lemma fence_acquire_decodes:
  "fence_decodes f \<Longrightarrow> fence_acquire f token ct = Inr (f', ob) \<Longrightarrow> fence_decodes f'"
  by (auto simp: fence_acquire_def fence_decodes_def Let_def split: if_splits option.splits)

lemma fence_release_decodes:
  "fence_release_for_group f token grp = Inr (f', ob) \<Longrightarrow> fence_decodes f'"
  by (auto simp: fence_release_for_group_def fence_decodes_def Let_def split: if_splits)

lemma fence_acquire_through:
  "fence_acquire f token ct = Inr (f', ob) \<Longrightarrow> mf_through_epoch f' = mf_through_epoch f"
  by (auto simp: fence_acquire_def Let_def split: if_splits option.splits)

lemma fence_release_through:
  "fence_release_for_group f token grp = Inr (f', ob) \<Longrightarrow>
    mf_through_epoch f' = max (mf_through_epoch f) (ft_epoch token) \<and> mf_held f' = None"
  by (auto simp: fence_release_for_group_def Let_def split: if_splits)

interpretation fence: keeps_rank fence_step fence_decodes mf_through_epoch
  by unfold_locales
    (auto elim!: fence_step.cases dest: fence_acquire_decodes fence_release_decodes
      fence_acquire_through fence_release_through)

text \<open>An observation a fence hands out is one its own constructor accepts.\<close>

lemma fence_acquire_observation:
  assumes "fence_decodes f" "fence_acquire f token ct = Inr (f', ob)"
    and "\<And>h. mf_held f = Some h \<Longrightarrow> gc_group (hf_cut h) = gc_group ct"
  shows "ExportFenceObservation_new (ob_group ob) (ob_through_epoch ob) (ob_held ob) = Inr ob"
  using assms
  by (auto simp: fence_acquire_def fence_decodes_def fence_observation_def Let_def
      ExportFenceObservation_new_def split: if_splits option.splits)

section \<open>Runs of the active export\<close>

datatype export_event =
    EvRecordFence ExportFenceObservation
  | EvBeginMaterialization
  | EvPublishArtifact ArtifactIdentity QuiescentCut
  | EvRequestCompletion ArtifactIdentity
  | EvRequestAbort ExportAbortReason
  | EvRecordRelease ExportFenceObservation

inductive export_step :: "ActiveExport \<Rightarrow> export_event \<Rightarrow> ActiveExport \<Rightarrow> bool" where
  ev_fence: "record_fence a ob = Inr b \<Longrightarrow> export_step a (EvRecordFence ob) b"
| ev_materialize: "begin_materialization a = Inr b \<Longrightarrow> export_step a EvBeginMaterialization b"
| ev_publish: "publish_artifact a art ct = Inr b \<Longrightarrow> export_step a (EvPublishArtifact art ct) b"
| ev_complete: "request_completion a art = Inr b \<Longrightarrow> export_step a (EvRequestCompletion art) b"
| ev_abort: "request_abort a reason = Inr b \<Longrightarrow> export_step a (EvRequestAbort reason) b"
| ev_release: "record_release a ob = Inr b \<Longrightarrow> export_step a (EvRecordRelease ob) b"

inductive_simps export_step_simps:
  "export_step a (EvRecordFence ob) b"
  "export_step a EvBeginMaterialization b"
  "export_step a (EvPublishArtifact art ct) b"
  "export_step a (EvRequestCompletion art) b"
  "export_step a (EvRequestAbort reason) b"
  "export_step a (EvRecordRelease ob) b"

lemmas export_op_defs = record_fence_def begin_materialization_def publish_artifact_def
  request_completion_def request_abort_def record_release_def

text \<open>The tables inside an export are ordered maps, and the configured groups come from a list.\<close>

definition export_wf :: "ActiveExport \<Rightarrow> bool" where
  "export_wf a \<longleftrightarrow> finite (es_configured_data_groups (ae_spec a)) \<and> active_export_valid a \<and>
     (case ae_phase a of PhasePreparing _ fenced \<Rightarrow> tsorted fenced | _ \<Rightarrow> True) \<and>
     (case ae_cut a of None \<Rightarrow> True | Some ct \<Rightarrow> cut_decodes ct \<and> tsorted (qc_data ct))"

lemma quiescent_of_fenced:
  assumes "tsorted fenced" "list_all (\<lambda>(g, c). g = gc_group c) fenced"
  shows "QuiescentCut_try_new control (map snd fenced) =
    Inr \<lparr>qc_control = control, qc_data = fenced\<rparr>"
proof -
  have "map (\<lambda>c. (gc_group c, c)) (map snd fenced) = fenced"
    using assms(2) by (auto simp: list_all_iff intro!: map_idI)
  then show ?thesis
    using collect_table_sorted [OF assms(1)] by (simp add: QuiescentCut_try_new_def Let_def)
qed

text \<open>
  The whole effect of an accepted fence observation while the export is preparing: it is a repeat,
  or the cut is recorded, and the last configured group freezes the export.
\<close>

lemma record_fence_preparing:
  assumes wf: "export_wf a" and ph: "ae_phase a = PhasePreparing control fenced"
    and ok: "record_fence a ob = Inr b"
  obtains (repeat) "b = a"
  | (recorded) held where "ob_held ob = Some held" "hf_token held = es_token (ae_spec a)"
      "gc_group (hf_cut held) = ob_group ob" "ob_group ob \<in> es_configured_data_groups (ae_spec a)"
      "tget fenced (ob_group ob) = None"
      "b = a\<lparr>ae_phase :=
        (if fst ` set (tput fenced (ob_group ob) (hf_cut held)) = es_configured_data_groups (ae_spec a)
         then PhaseFrozen \<lparr>qc_control = control,
                qc_data = tput fenced (ob_group ob) (hf_cut held)\<rparr>
         else PhasePreparing control (tput fenced (ob_group ob) (hf_cut held)))\<rparr>"
proof -
  from ok ph obtain held where h: "ob_held ob = Some held" "hf_token held = es_token (ae_spec a)"
      "gc_group (hf_cut held) = ob_group ob" "ob_group ob \<in> es_configured_data_groups (ae_spec a)"
    by (auto simp: record_fence_def split: if_splits option.splits)
  show thesis
  proof (cases "tget fenced (ob_group ob)")
    case (Some c)
    with ok ph h repeat show thesis by (auto simp: record_fence_def split: if_splits)
  next
    case None
    let ?f = "tput fenced (ob_group ob) (hf_cut held)"
    have srt: "tsorted fenced" and fen: "list_all (\<lambda>(g, c). g = gc_group c) fenced"
      using wf ph by (auto simp: export_wf_def active_export_valid_def list_all_iff Let_def)
    have "list_all (\<lambda>(g, c). g = gc_group c) ?f"
      using fen h(3) by (auto simp: list_all_iff set_tput_fresh [OF None])
    then have "QuiescentCut_try_new control (map snd ?f) = Inr \<lparr>qc_control = control, qc_data = ?f\<rparr>"
      using srt by (intro quiescent_of_fenced) simp_all
    with ok ph h None recorded [OF h None] show thesis
      by (auto simp: record_fence_def Let_def split: if_splits)
  qed
qed

lemma record_fence_frozen:
  "record_fence a ob = Inr b \<Longrightarrow> (\<And>c f. ae_phase a \<noteq> PhasePreparing c f) \<Longrightarrow> b = a"
  by (auto simp: record_fence_def split: ActiveExportPhase.splits if_splits)

lemma record_fence_wf:
  assumes wf: "export_wf a" and ok: "record_fence a ob = Inr b"
  shows "export_wf b"
proof (cases "\<exists>c f. ae_phase a = PhasePreparing c f")
  case False
  with record_fence_frozen [OF ok] wf show ?thesis by simp
next
  case True
  then obtain control fenced where ph: "ae_phase a = PhasePreparing control fenced" by blast
  from wf ph have inv: "finite (es_configured_data_groups (ae_spec a))" "tsorted fenced"
      "\<forall>(g, c) \<in> set fenced. g \<in> es_configured_data_groups (ae_spec a) \<and> g = gc_group c"
    by (auto simp: export_wf_def active_export_valid_def list_all_iff Let_def)
  from wf ph ok show ?thesis
  proof (cases rule: record_fence_preparing)
    case repeat
    with wf show ?thesis by simp
  next
    case (recorded held)
    let ?f = "tput fenced (ob_group ob) (hf_cut held)"
    have set_f: "set ?f = insert (ob_group ob, hf_cut held) (set fenced)"
      by (rule set_tput_fresh) (rule recorded)
    have keys: "\<forall>(g, c) \<in> set ?f. g \<in> es_configured_data_groups (ae_spec a) \<and> g = gc_group c"
      using inv(3) recorded unfolding set_f by auto
    have sub: "fst ` set ?f \<subseteq> es_configured_data_groups (ae_spec a)" using keys by auto
    have srt: "tsorted ?f" using inv(2) by simp
    show ?thesis
    proof (cases "fst ` set ?f = es_configured_data_groups (ae_spec a)")
      case True
      with recorded(6) keys srt inv(1) show ?thesis
        by (auto simp: export_wf_def active_export_valid_def ae_cut_def cut_decodes_def list_all_iff Let_def)
    next
      case False
      with sub inv(1) have "card (fst ` set ?f) < card (es_configured_data_groups (ae_spec a))"
        by (intro psubset_card_mono) auto
      then have "length ?f < card (es_configured_data_groups (ae_spec a))"
        using length_tsorted [OF srt] by simp
      with False recorded(6) keys srt inv(1) show ?thesis
        by (auto simp: export_wf_def active_export_valid_def ae_cut_def list_all_iff Let_def)
    qed
  qed
qed

lemma export_step_wf: "export_step a e b \<Longrightarrow> export_wf a \<Longrightarrow> export_wf b"
proof (induction rule: export_step.induct)
  case (ev_fence a ob b)
  then show ?case by (blast intro: record_fence_wf)
qed (auto simp: export_op_defs export_wf_def active_export_valid_def ae_cut_def Let_def
    split: ActiveExportPhase.splits if_splits del: equalityI subsetI)

interpretation export_run: keeps_invariant export_step export_wf
  by unfold_locales (rule export_step_wf)

lemma export_step_spec: "export_step a e b \<Longrightarrow> ae_spec b = ae_spec a"
  by (induction rule: export_step.induct)
    (auto simp: export_op_defs Let_def bind_result_Inr
      split: ActiveExportPhase.splits if_splits option.splits)

text \<open>
  What the events of a run say about the export it reached: where each recorded cut, the published
  artifact and each released group come from.
\<close>

definition fenced_by :: "ExportSpec \<Rightarrow> export_event list \<Rightarrow> (GroupId, GroupCut) table \<Rightarrow> bool" where
  "fenced_by spec es t \<longleftrightarrow> (\<forall>(g, c) \<in> set t. \<exists>ob held. EvRecordFence ob \<in> set es \<and> ob_group ob = g \<and>
     ob_held ob = Some held \<and> hf_token held = es_token spec \<and> hf_cut held = c)"

definition released_by :: "ExportSpec \<Rightarrow> export_event list \<Rightarrow> GroupId set \<Rightarrow> bool" where
  "released_by spec es gs \<longleftrightarrow> (\<forall>g \<in> gs. \<exists>ob. EvRecordRelease ob \<in> set es \<and> ob_group ob = g \<and>
     ob_held ob = None \<and> es_epoch spec \<le> ob_through_epoch ob)"

definition export_history ::
  "ExportSpec \<Rightarrow> GroupCut \<Rightarrow> export_event list \<Rightarrow> ActiveExport \<Rightarrow> bool" where
  "export_history spec control es a \<longleftrightarrow> ae_spec a = spec \<and>
     (case ae_phase a of
        PhasePreparing c fenced \<Rightarrow> c = control \<and> fenced_by spec es fenced
      | PhaseFrozen ct \<Rightarrow> qc_control ct = control \<and> fenced_by spec es (qc_data ct)
      | PhaseMaterializing ct \<Rightarrow> qc_control ct = control \<and> fenced_by spec es (qc_data ct)
      | PhaseAvailable ct art \<Rightarrow> qc_control ct = control \<and> fenced_by spec es (qc_data ct) \<and>
          EvPublishArtifact art ct \<in> set es
      | PhaseReleasing ct art released \<Rightarrow> qc_control ct = control \<and>
          fenced_by spec es (qc_data ct) \<and> EvPublishArtifact art ct \<in> set es \<and>
          EvRequestCompletion art \<in> set es \<and> released_by spec es released
      | PhaseAborting reason released \<Rightarrow> EvRequestAbort reason \<in> set es \<and>
          released_by spec es released)"

lemma fenced_by_mono: "fenced_by spec es t \<Longrightarrow> set es \<subseteq> set fs \<Longrightarrow> fenced_by spec fs t"
  by (fastforce simp: fenced_by_def)

lemma released_by_mono: "released_by spec es gs \<Longrightarrow> set es \<subseteq> set fs \<Longrightarrow> released_by spec fs gs"
  by (fastforce simp: released_by_def)

lemma export_history_mono:
  "export_history spec control es a \<Longrightarrow> set es \<subseteq> set fs \<Longrightarrow> export_history spec control fs a"
  by (auto simp: export_history_def intro: fenced_by_mono released_by_mono
      split: ActiveExportPhase.splits)

lemma export_history_fence:
  assumes hist: "export_history spec control es a" and wf: "export_wf a"
    and ok: "record_fence a ob = Inr b"
  shows "export_history spec control (es @ [EvRecordFence ob]) b"
proof -
  have hist': "export_history spec control (es @ [EvRecordFence ob]) a"
    using hist by (rule export_history_mono) auto
  show ?thesis
  proof (cases "\<exists>c f. ae_phase a = PhasePreparing c f")
    case False
    with record_fence_frozen [OF ok] hist' show ?thesis by simp
  next
    case True
    then obtain c fenced where ph: "ae_phase a = PhasePreparing c fenced" by blast
    from wf ph ok show ?thesis
    proof (cases rule: record_fence_preparing)
      case repeat
      with hist' show ?thesis by simp
    next
      case (recorded held)
      from hist' ph have "c = control" and spec: "ae_spec a = spec"
        and fen: "fenced_by spec (es @ [EvRecordFence ob]) fenced"
        by (auto simp: export_history_def)
      moreover have "fenced_by spec (es @ [EvRecordFence ob]) (tput fenced (ob_group ob) (hf_cut held))"
        using fen recorded spec by (auto simp: fenced_by_def set_tput_fresh)
      ultimately show ?thesis using recorded(6) by (auto simp: export_history_def)
    qed
  qed
qed

lemma export_history_step:
  assumes "export_step a e b" "export_history spec control es a" "export_wf a"
  shows "export_history spec control (es @ [e]) b"
  using assms
proof (induction rule: export_step.induct)
  case (ev_fence a ob b)
  then show ?case by (blast intro: export_history_fence)
next
  case (ev_release a ob b)
  from ev_release.prems(1) have "export_history spec control (es @ [EvRecordRelease ob]) a"
    by (rule export_history_mono) auto
  with ev_release.hyps show ?case
    by (auto simp: record_release_def export_history_def released_by_def not_less
        split: ActiveExportPhase.splits if_splits)
qed (fastforce simp: export_op_defs export_history_def released_by_def
    split: ActiveExportPhase.splits if_splits intro: fenced_by_mono released_by_mono)+

lemma export_preparing_wf:
  "ExportSpec_try_new intent epoch groups deadline = Inr spec \<Longrightarrow>
    export_wf (ActiveExport_preparing spec control)"
  by (auto simp: ExportSpec_try_new_def ActiveExport_preparing_def export_wf_def Let_def
      active_export_valid_def ae_cut_def split: if_splits)

lemma export_runs_history:
  assumes "ExportSpec_try_new intent epoch groups deadline = Inr spec"
    and "runs export_step (ActiveExport_preparing spec control) es a"
  shows "export_wf a \<and> export_history spec control es a"
  using assms(2)
proof (induction es arbitrary: a rule: rev_induct)
  case Nil
  then show ?case
    using export_preparing_wf [OF assms(1)]
    by (auto simp: ActiveExport_preparing_def export_history_def fenced_by_def)
next
  case (snoc e es)
  then obtain b where b: "runs export_step (ActiveExport_preparing spec control) es b"
    and e: "export_step b e a" by (auto simp: runs_append runs_Cons_iff)
  from snoc.IH [OF b] e show ?case by (blast intro: export_step_wf export_history_step)
qed

text \<open>Recording a release for each configured group, in any order, readies the export to finish.\<close>

definition release_observation :: "ExportSpec \<Rightarrow> ExportFenceObservation \<Rightarrow> bool" where
  "release_observation spec ob \<longleftrightarrow> ob_group ob \<in> es_configured_data_groups spec \<and>
     ob_held ob = None \<and> es_epoch spec \<le> ob_through_epoch ob"

lemma releases_run:
  assumes "ae_phase a = PhaseAborting reason released"
    and "\<forall>ob \<in> set obs. release_observation (ae_spec a) ob"
  shows "runs export_step a (map EvRecordRelease obs)
    (a\<lparr>ae_phase := PhaseAborting reason (released \<union> ob_group ` set obs)\<rparr>)"
  using assms
proof (induction obs arbitrary: a released)
  case (Cons ob obs)
  let ?b = "a\<lparr>ae_phase := PhaseAborting reason (insert (ob_group ob) released)\<rparr>"
  have "export_step a (EvRecordRelease ob) ?b"
    using Cons.prems by (auto simp: export_step_simps record_release_def release_observation_def)
  moreover have "runs export_step ?b (map EvRecordRelease obs)
      (?b\<lparr>ae_phase := PhaseAborting reason (insert (ob_group ob) released \<union> ob_group ` set obs)\<rparr>)"
    using Cons.prems by (intro Cons.IH) auto
  ultimately show ?case by (auto intro: runs_Cons)
qed (auto simp: runs_Nil)

section \<open>A concrete export\<close>

text \<open>One data group, fenced, materialized, completed and released; and the same export aborted.\<close>

definition demo_cut :: "GroupId \<Rightarrow> GroupCut" where
  "demo_cut g = \<lparr>gc_group = g, gc_term = 3, gc_leader = 1, gc_applied_index = 40\<rparr>"

definition demo_spec :: ExportSpec where
  "demo_spec =
     \<lparr>es_intent = ExportIntent_new (\<lambda>_. replicate 32 7)
        \<lparr>mr_principal = ascii ''ops'', mr_session = 5, mr_sequence = 1\<rparr> 9 [4] V1,
      es_epoch = 6, es_configured_data_groups = set [2],
      es_deadline = \<lparr>ed_lower_bound = 10, ed_upper_bound = 20\<rparr>\<rparr>"

definition demo_held :: ExportFenceObservation where
  "demo_held = \<lparr>ob_group = 2, ob_through_epoch = 5,
     ob_held = Some \<lparr>hf_token = es_token demo_spec, hf_cut = demo_cut 2\<rparr>\<rparr>"

definition demo_free :: ExportFenceObservation where
  "demo_free = \<lparr>ob_group = 2, ob_through_epoch = 6, ob_held = None\<rparr>"

definition demo_quiescent :: QuiescentCut where
  "demo_quiescent = \<lparr>qc_control = demo_cut 1, qc_data = [(2, demo_cut 2)]\<rparr>"

definition demo_artifact :: ArtifactIdentity where
  "demo_artifact = \<lparr>ai_length = 100, ai_sha256 = replicate 32 1\<rparr>"

definition demo_events :: "export_event list" where
  "demo_events = [EvRecordFence demo_held, EvBeginMaterialization,
     EvPublishArtifact demo_artifact demo_quiescent, EvRequestCompletion demo_artifact,
     EvRecordRelease demo_free]"

definition demo_end :: ActiveExport where
  "demo_end = \<lparr>ae_spec = demo_spec, ae_phase = PhaseReleasing demo_quiescent demo_artifact {2}\<rparr>"

lemmas demo_defs = demo_events_def demo_end_def demo_held_def demo_free_def demo_quiescent_def
  demo_cut_def ActiveExport_preparing_def

lemma demo_spec_new:
  "ExportSpec_try_new (es_intent demo_spec) 6 [2] (es_deadline demo_spec) = Inr demo_spec"
  by (simp add: demo_spec_def ExportSpec_try_new_def MAX_DATA_GROUPS_def)

lemma demo_spec_groups [simp]: "es_configured_data_groups demo_spec = {2}" "es_epoch demo_spec = 6"
  by (simp_all add: demo_spec_def)

lemma demo_runs: "runs export_step (ActiveExport_preparing demo_spec (demo_cut 1)) demo_events demo_end"
  by (auto simp: demo_defs runs_Cons_iff export_step_simps export_op_defs ae_cut_def
      QuiescentCut_try_new_def collect_table_def Let_def)

section \<open>Properties\<close>

text \<open>
  C5. Every export a run reaches from its begin is one the \<open>Deserialize\<close> of \<open>ActiveExport\<close> accepts:
  the phase matches the configured groups, recorded cuts are keyed by their own group, and every
  partial fence set misses a group.
\<close>

theorem export_runs_decode:
  assumes "ExportSpec_try_new intent epoch groups deadline = Inr spec"
    and "runs export_step (ActiveExport_preparing spec control) es a"
  shows "active_export_valid a \<and> (case ae_cut a of None \<Rightarrow> True | Some ct \<Rightarrow> cut_decodes ct)"
  using export_runs_history [OF assms] by (auto simp: export_wf_def split: option.splits)

theorem export_runs_decode_witness:
  "active_export_valid demo_end \<and>
    (case ae_cut demo_end of None \<Rightarrow> True | Some ct \<Rightarrow> cut_decodes ct)"
  by (rule export_runs_decode [OF demo_spec_new demo_runs])

text \<open>
  C6. A receipt that says an export completed with an artifact is backed by the run: the artifact was
  published for a cut that has the control group's cut and, for exactly the configured data groups,
  the cut observed under this export's token; its completion was requested; and every configured
  group was seen released at the export's epoch or later.
\<close>

theorem completed_receipt_provenance:
  assumes "ExportSpec_try_new intent epoch groups deadline = Inr spec"
    and "runs export_step (ActiveExport_preparing spec control) es a"
    and "export_receipt_of a = Inr r" and "xr_outcome r = Completed art"
  shows "\<exists>ct. EvPublishArtifact art ct \<in> set es \<and> EvRequestCompletion art \<in> set es \<and>
    qc_control ct = control \<and> fst ` set (qc_data ct) = set groups \<and>
    fenced_by spec es (qc_data ct) \<and> released_by spec es (set groups)"
proof -
  have groups: "es_configured_data_groups spec = set groups"
    using assms(1) by (auto simp: ExportSpec_try_new_def split: if_splits)
  have wf: "export_wf a" and hist: "export_history spec control es a"
    using export_runs_history [OF assms(1,2)] by auto
  obtain ct released where ph: "ae_phase a = PhaseReleasing ct art released"
    and rdy: "released = es_configured_data_groups (ae_spec a)"
    using assms(3,4)
    by (auto simp: export_receipt_of_def is_ready_to_finish_def ExportReceipt_new_def
        split: if_splits ActiveExportPhase.splits)
  show ?thesis
    using wf hist ph rdy groups
    by (intro exI [of _ ct]) (auto simp: export_wf_def active_export_valid_def export_history_def Let_def)
qed

theorem completed_receipt_provenance_witness:
  "\<exists>ct. EvPublishArtifact demo_artifact ct \<in> set demo_events \<and>
    EvRequestCompletion demo_artifact \<in> set demo_events \<and>
    qc_control ct = demo_cut 1 \<and> fst ` set (qc_data ct) = set [2] \<and>
    fenced_by demo_spec demo_events (qc_data ct) \<and> released_by demo_spec demo_events (set [2])"
proof -
  obtain r where "export_receipt_of demo_end = Inr r" "xr_outcome r = Completed demo_artifact"
    by (simp add: export_receipt_of_def is_ready_to_finish_def demo_end_def ExportReceipt_new_def)
  then show ?thesis by (rule completed_receipt_provenance [OF demo_spec_new demo_runs])
qed

text \<open>
  C7. Until its release has begun an export can always be ended: an abort request is accepted, and
  release observations that cover the configured groups lead to a receipt with that abort reason.
\<close>

theorem abort_reaches_receipt:
  assumes "\<forall>ct art released. ae_phase a \<noteq> PhaseReleasing ct art released"
    and "\<forall>r released. ae_phase a \<noteq> PhaseAborting r released"
    and "\<forall>ob \<in> set obs. release_observation (ae_spec a) ob"
    and "ob_group ` set obs = es_configured_data_groups (ae_spec a)"
  shows "\<exists>b r. runs export_step a (EvRequestAbort reason # map EvRecordRelease obs) b \<and>
    export_receipt_of b = Inr r \<and> xr_outcome r = Aborted reason"
proof -
  let ?a = "a\<lparr>ae_phase := PhaseAborting reason {}\<rparr>"
  let ?b = "?a\<lparr>ae_phase := PhaseAborting reason ({} \<union> ob_group ` set obs)\<rparr>"
  have "export_step a (EvRequestAbort reason) ?a"
    using assms(1,2) by (auto simp: export_step_simps request_abort_def split: ActiveExportPhase.splits)
  moreover have "runs export_step ?a (map EvRecordRelease obs) ?b"
    using assms(3) by (intro releases_run) auto
  ultimately have "runs export_step a (EvRequestAbort reason # map EvRecordRelease obs) ?b"
    by (rule runs_Cons)
  moreover have "\<exists>r. export_receipt_of ?b = Inr r \<and> xr_outcome r = Aborted reason"
    using assms(4) by (simp add: export_receipt_of_def is_ready_to_finish_def ExportReceipt_new_def)
  ultimately show ?thesis by blast
qed

theorem abort_reaches_receipt_witness:
  "\<exists>b r. runs export_step (ActiveExport_preparing demo_spec (demo_cut 1))
      (EvRequestAbort DeadlineExceeded # map EvRecordRelease [demo_free]) b \<and>
    export_receipt_of b = Inr r \<and> xr_outcome r = Aborted DeadlineExceeded"
  by (rule abort_reaches_receipt)
    (simp_all add: ActiveExport_preparing_def release_observation_def demo_free_def)

text \<open>
  C8. Once a group released its fence for an epoch, no later sequence of fence operations makes it
  hold that epoch or an older one again: a fence held later is of a newer export.
\<close>

theorem released_epoch_stays_released:
  assumes "fence_release_for_group f token grp = Inr (f1, ob)"
    and "runs fence_step f1 ops f2" and "mf_held f2 = Some held"
  shows "ft_epoch token < ft_epoch (hf_token held)"
proof -
  have ok: "fence_decodes f1" using assms(1) by (rule fence_release_decodes)
  have "fence_decodes f2" using assms(2) ok by (rule fence.runs_ok)
  with assms(3) have "mf_through_epoch f2 < ft_epoch (hf_token held)"
    by (simp add: fence_decodes_def)
  moreover have "mf_through_epoch f1 \<le> mf_through_epoch f2"
    using assms(2) ok by (rule fence.runs_rank)
  moreover have "ft_epoch token \<le> mf_through_epoch f1"
    using fence_release_through [OF assms(1)] by simp
  ultimately show ?thesis by simp
qed

theorem released_epoch_stays_released_witness:
  "ft_epoch (ExportFenceToken_new 6 (replicate 32 7)) <
    ft_epoch (hf_token \<lparr>hf_token = ExportFenceToken_new 8 (replicate 32 7), hf_cut = demo_cut 2\<rparr>)"
proof -
  let ?t = "\<lambda>e. ExportFenceToken_new e (replicate 32 7)"
  let ?f1 = "\<lparr>mf_through_epoch = 6, mf_held = None\<rparr>"
  let ?h = "\<lparr>hf_token = ?t 8, hf_cut = demo_cut 2\<rparr>"
  have rel: "fence_release_for_group MutationFenceState_default (?t 6) 2 =
      Inr (?f1, fence_observation ?f1 2)"
    by (simp add: fence_release_for_group_def MutationFenceState_default_def
        ExportFenceToken_new_def Let_def)
  have acq: "fence_acquire ?f1 (?t 8) (demo_cut 2) =
      Inr (?f1\<lparr>mf_held := Some ?h\<rparr>, fence_observation (?f1\<lparr>mf_held := Some ?h\<rparr>) 2)"
    by (simp add: fence_acquire_def ExportFenceToken_new_def demo_cut_def Let_def)
  have "runs fence_step ?f1 [FenceAcquire (?t 8) (demo_cut 2)] (?f1\<lparr>mf_held := Some ?h\<rparr>)"
    using acq by (blast intro: runs_Cons runs_Nil step_acquire)
  from released_epoch_stays_released [OF rel this, of ?h] show ?thesis by simp
qed

end
