(* ===== verification/Keys.thy ===== *)
theory Keys
  imports Export_Protocol Topology Security
begin

text \<open>
  The byte keys, digests and value framings of \<open>crates/light-stream-storage/src/lib.rs\<close>: one function
  per key function of the source. SHA-256 and the JSON encoders of \<open>serde_json\<close> are code outside the
  repository, so they are the fields of \<open>codec\<close>, a parameter of every definition that hashes. The
  lemmas show that keys of different families never coincide, that each family is injective, that
  RocksDB's byte order on record and bookmark keys is the order of the numbers in them, and that the
  fingerprint of a publish request determines the request. They justify the typed tables of the group
  state.
\<close>

section \<open>Parameters\<close>

record codec =
  cd_sha256 :: "bytes \<Rightarrow> bytes"
  cd_json_producer :: "ProducerRequestId \<Rightarrow> bytes"
  cd_json_mutation :: "MutationRequestId \<Rightarrow> bytes"
  cd_json_publish :: "ClusterId \<Rightarrow> PartitionKey \<Rightarrow> ProducerRequestId \<Rightarrow> bytes list \<Rightarrow> bytes"
  cd_json_retention :: "RetentionRequest \<Rightarrow> bytes"
  cd_json_lease :: "ReplayLeaseRequest \<Rightarrow> bytes"
  cd_json_renewal :: "LeaseRenewal \<Rightarrow> bytes"
  cd_json_release :: "LeaseRelease \<Rightarrow> bytes"
  cd_json_checkpoint :: "CheckpointMutation \<Rightarrow> bytes"
  cd_json_security :: "SecurityMutation \<Rightarrow> bytes"
  cd_json_transport :: "MutationRequestId \<Rightarrow> ClusterTopology \<Rightarrow> SecurityPolicy \<Rightarrow> bytes"
  cd_legacy_payload :: "bytes \<Rightarrow> string + bytes"
  cd_parse_uri :: uri_parser

record GroupLogId =
  li_term :: u64
  li_node :: u64
  li_index :: u64

section \<open>State keys\<close>

definition partition_bytes :: "PartitionKey \<Rightarrow> bytes" where
  "partition_bytes p = to_be_bytes (pk_stream p) @ to_be_bytes (pk_partition p)"

definition record_key :: "PartitionKey \<Rightarrow> u64 \<Rightarrow> bytes" where
  "record_key p off = ascii ''record/'' @ partition_bytes p @ to_be_bytes off"

definition record_prefix :: "PartitionKey \<Rightarrow> bytes" where
  "record_prefix p = ascii ''record/'' @ partition_bytes p"

definition next_offset_key :: "PartitionKey \<Rightarrow> bytes" where
  "next_offset_key p = ascii ''next-offset'' @ partition_bytes p"

definition retention_key :: "PartitionKey \<Rightarrow> bytes" where
  "retention_key p = ascii ''retention/'' @ partition_bytes p"

definition retention_reclaim_hint_key :: "PartitionKey \<Rightarrow> bytes" where
  "retention_reclaim_hint_key p = ascii ''retention-reclaim-hint/'' @ partition_bytes p"

definition stream_key :: "StreamId \<Rightarrow> bytes" where
  "stream_key s = ascii ''stream/'' @ to_be_bytes s"

definition stream_name_key :: "StreamName \<Rightarrow> bytes" where
  "stream_name_key name = ascii ''stream-name/'' @ name"

definition create_intent_key :: "CatalogRequestId \<Rightarrow> bytes" where
  "create_intent_key r = ascii ''create-intent/'' @ to_be_bytes r"

definition administration_request_key :: "AdministrationRequestId \<Rightarrow> bytes" where
  "administration_request_key r = ascii ''administration/request/'' @ to_be_bytes r"

definition export_receipt_key :: "codec \<Rightarrow> MutationRequestId \<Rightarrow> bytes" where
  "export_receipt_key cd r = ascii ''export/receipt/'' @ cd_sha256 cd (cd_json_mutation cd r)"

definition export_session_key :: "codec \<Rightarrow> MutationRequestId \<Rightarrow> bytes" where
  "export_session_key cd r =
     ascii ''export/session/'' @ cd_sha256 cd (mr_principal r @ to_be_bytes (mr_session r))"

definition receipt_key :: "codec \<Rightarrow> PartitionKey \<Rightarrow> ProducerRequestId \<Rightarrow> bytes" where
  "receipt_key cd p r =
     ascii ''receipt/'' @ cd_sha256 cd (partition_bytes p @ cd_json_producer cd r)"

definition session_message :: "PartitionKey \<Rightarrow> ProducerRequestId \<Rightarrow> bytes" where
  "session_message p r = partition_bytes p @ pr_principal r @ to_be_bytes (pr_session r)"

definition session_key :: "codec \<Rightarrow> PartitionKey \<Rightarrow> ProducerRequestId \<Rightarrow> bytes" where
  "session_key cd p r = ascii ''session/'' @ cd_sha256 cd (session_message p r)"

definition mutation_receipt_key :: "codec \<Rightarrow> MutationRequestId \<Rightarrow> bytes" where
  "mutation_receipt_key cd r = ascii ''mutation-receipt/'' @ cd_sha256 cd (cd_json_mutation cd r)"

definition mutation_session_message :: "MutationRequestId \<Rightarrow> bytes" where
  "mutation_session_message r = mr_principal r @ to_be_bytes (mr_session r)"

definition mutation_session_key :: "codec \<Rightarrow> MutationRequestId \<Rightarrow> bytes" where
  "mutation_session_key cd r =
     ascii ''mutation-session/'' @ cd_sha256 cd (mutation_session_message r)"

definition checkpoint_key :: "CheckpointKey \<Rightarrow> bytes" where
  "checkpoint_key k =
     ascii ''checkpoint/'' @ partition_bytes (ck_partition k) @
     to_be_bytes (of_nat (length (ck_consumer k)) :: u32) @ ck_consumer k"

definition replay_lease_id_key :: "ReplayLeaseId \<Rightarrow> bytes" where
  "replay_lease_id_key i = ascii ''lease/id/'' @ to_be_bytes i"

definition replay_lease_request_key :: "codec \<Rightarrow> MutationRequestId \<Rightarrow> bytes" where
  "replay_lease_request_key cd r =
     ascii ''lease/request/'' @ cd_sha256 cd (cd_json_mutation cd r)"

definition replay_lease_id :: "codec \<Rightarrow> MutationRequestId \<Rightarrow> ReplayLeaseId" where
  "replay_lease_id cd r = from_be_bytes (take 16 (cd_sha256 cd (cd_json_mutation cd r)))"

definition bookmark_id_key :: "BookmarkId \<Rightarrow> bytes" where
  "bookmark_id_key i = ascii ''bookmark/id/'' @ to_be_bytes i"

definition bookmark_name_key :: "PartitionKey \<Rightarrow> BookmarkName \<Rightarrow> bytes" where
  "bookmark_name_key p name = ascii ''bookmark/name/'' @ partition_bytes p @ name"

definition bookmark_order_key :: "PartitionKey \<Rightarrow> BookmarkPublicationSequence \<Rightarrow> bytes" where
  "bookmark_order_key p publication =
     ascii ''bookmark/order/'' @ partition_bytes p @ to_be_bytes publication"

definition bookmark_publication_key :: "PartitionKey \<Rightarrow> bytes" where
  "bookmark_publication_key p = ascii ''bookmark/publication/'' @ partition_bytes p"

definition stream_bookmark_id_key :: "BookmarkId \<Rightarrow> bytes" where
  "stream_bookmark_id_key i = ascii ''stream-bookmark/id/'' @ to_be_bytes i"

definition stream_bookmark_name_key :: "StreamId \<Rightarrow> BookmarkName \<Rightarrow> bytes" where
  "stream_bookmark_name_key s name = ascii ''stream-bookmark/name/'' @ to_be_bytes s @ name"

definition stream_bookmark_order_key :: "StreamId \<Rightarrow> BookmarkPublicationSequence \<Rightarrow> bytes" where
  "stream_bookmark_order_key s publication =
     ascii ''stream-bookmark/order/'' @ to_be_bytes s @ to_be_bytes publication"

definition stream_bookmark_publication_key :: "StreamId \<Rightarrow> bytes" where
  "stream_bookmark_publication_key s = ascii ''stream-bookmark/publication/'' @ to_be_bytes s"

text \<open>The parsers of the three keys the code reads back.\<close>

definition partition_from_key :: "bytes \<Rightarrow> nat \<Rightarrow> string \<Rightarrow> bytes \<Rightarrow> PartitionKey io" where
  "partition_from_key prefix suffix reason key =
     (if length key \<noteq> length prefix + 16 + 4 + suffix \<or> take (length prefix) key \<noteq> prefix
      then Inl reason
      else Inr (PartitionKey (from_be_bytes (take 16 (drop (length prefix) key)))
        (from_be_bytes (take 4 (drop (length prefix + 16) key)))))"

definition partition_from_record_key :: "bytes \<Rightarrow> PartitionKey io" where
  "partition_from_record_key =
     partition_from_key (ascii ''record/'') 8 ''invalid record key during schema migration''"

definition partition_from_retention_key :: "bytes \<Rightarrow> PartitionKey io" where
  "partition_from_retention_key =
     partition_from_key (ascii ''retention/'') 0 ''invalid retention key''"

definition partition_from_reclaim_hint_key :: "bytes \<Rightarrow> PartitionKey io" where
  "partition_from_reclaim_hint_key =
     partition_from_key (ascii ''retention-reclaim-hint/'') 0 ''invalid retention reclaim hint key''"

section \<open>Payload keys and values\<close>

definition payload_id :: "GroupLogId \<Rightarrow> nat \<Rightarrow> bytes" where
  "payload_id l slot =
     to_be_bytes (li_term l) @ to_be_bytes (li_node l) @ to_be_bytes (li_index l) @
     to_be_bytes (of_nat slot :: u32)"

definition payload_bytes_key :: "bytes \<Rightarrow> bytes" where
  "payload_bytes_key i = ascii ''bytes/'' @ i"

definition payload_owners_key :: "bytes \<Rightarrow> bytes" where
  "payload_owners_key i = ascii ''owners/'' @ i"

definition encode_payload_value :: "bytes \<Rightarrow> bytes" where
  "encode_payload_value payload = ascii ''LSPY0002'' @ payload"

definition decode_payload_value :: "codec \<Rightarrow> bytes \<Rightarrow> bytes io" where
  "decode_payload_value cd b =
     (if take 8 b = ascii ''LSPY0002'' then Inr (drop 8 b) else cd_legacy_payload cd b)"

section \<open>Fingerprints and derived identities\<close>

definition legacy_fingerprint :: "codec \<Rightarrow> PublishBatch \<Rightarrow> string" where
  "legacy_fingerprint cd b =
     lower_hex (cd_sha256 cd (cd_json_publish cd (pb_cluster b) (pb_partition b) (pb_request b)
       (pb_records b)))"

definition length_prefixed :: "bytes \<Rightarrow> bytes" where
  "length_prefixed v = to_be_bytes (of_nat (length v) :: u64) @ v"

definition fingerprint_message :: "PublishBatch \<Rightarrow> bytes" where
  "fingerprint_message b =
     ascii ''light-stream-publish-v2'' @
     to_be_bytes (pb_cluster b) @
     partition_bytes (pb_partition b) @
     length_prefixed (pr_principal (pb_request b)) @
     to_be_bytes (pr_session (pb_request b)) @
     to_be_bytes (pr_sequence (pb_request b)) @
     to_be_bytes (of_nat (length (pb_records b)) :: u64) @
     concat (map length_prefixed (pb_records b)) @
     (case pb_bookmark b of Some name \<Rightarrow> [1] @ length_prefixed name | None \<Rightarrow> [0])"

definition fingerprint :: "codec \<Rightarrow> PublishBatch \<Rightarrow> string" where
  "fingerprint cd b = ''v2:'' @ lower_hex (cd_sha256 cd (fingerprint_message b))"

definition retention_fingerprint :: "codec \<Rightarrow> RetentionRequest \<Rightarrow> string" where
  "retention_fingerprint cd r = lower_hex (cd_sha256 cd (cd_json_retention cd r))"

definition mutation_fingerprint :: "codec \<Rightarrow> bytes \<Rightarrow> string" where
  "mutation_fingerprint cd json = lower_hex (cd_sha256 cd json)"

definition publish_bookmark_id :: "codec \<Rightarrow> GroupLogId \<Rightarrow> nat option \<Rightarrow> BookmarkId" where
  "publish_bookmark_id cd l ordinal =
     from_be_bytes (take 16 (cd_sha256 cd
       (to_be_bytes (li_term l) @ to_be_bytes (li_node l) @ to_be_bytes (li_index l) @
        ascii ''bookmark'' @
        (case ordinal of None \<Rightarrow> [] | Some n \<Rightarrow> to_be_bytes (of_nat n :: u64)))))"

definition bookmark_id :: "codec \<Rightarrow> GroupLogId \<Rightarrow> BookmarkId" where
  "bookmark_id cd l = publish_bookmark_id cd l None"

section \<open>Lengths and injectivity\<close>

lemma length_to_be_bytes [simp]:
  "length (to_be_bytes (w :: u32)) = 4" "length (to_be_bytes (x :: u64)) = 8"
  "length (to_be_bytes (y :: 128 word)) = 16"
  by (simp_all add: to_be_bytes_def)

lemma to_be_bytes_inject [simp]:
  "to_be_bytes (a :: u32) = to_be_bytes b \<longleftrightarrow> a = b"
  "to_be_bytes (c :: u64) = to_be_bytes d \<longleftrightarrow> c = d"
  "to_be_bytes (e :: 128 word) = to_be_bytes f \<longleftrightarrow> e = f"
  using unat_lt_bytes [of a] unat_lt_bytes [of b] unat_lt_bytes [of c] unat_lt_bytes [of d]
    unat_lt_bytes [of e] unat_lt_bytes [of f]
  by (simp_all add: to_be_bytes_def be_nat_inject word_unat_eq_iff)

lemma to_be_bytes_less:
  "to_be_bytes (a :: u32) < to_be_bytes b \<longleftrightarrow> a < b"
  "to_be_bytes (c :: u64) < to_be_bytes d \<longleftrightarrow> c < d"
  "to_be_bytes (e :: 128 word) < to_be_bytes f \<longleftrightarrow> e < f"
  using unat_lt_bytes [of a] unat_lt_bytes [of b] unat_lt_bytes [of c] unat_lt_bytes [of d]
    unat_lt_bytes [of e] unat_lt_bytes [of f]
  by (simp_all add: to_be_bytes_def be_nat_less word_less_nat_alt)

lemma from_to_be_bytes [simp]:
  "from_be_bytes (to_be_bytes (a :: u32)) = a"
  "from_be_bytes (to_be_bytes (c :: u64)) = c"
  "from_be_bytes (to_be_bytes (e :: 128 word)) = e"
  using unat_lt_bytes [of a] unat_lt_bytes [of c] unat_lt_bytes [of e]
  by (simp_all add: to_be_bytes_def from_be_bytes_def nat_of_be_nat)

lemma length_ascii [simp]: "length (ascii s) = length s"
  by (simp add: ascii_def)

lemma length_partition_bytes [simp]: "length (partition_bytes p) = 20"
  by (simp add: partition_bytes_def)

lemma partition_bytes_inject [simp]: "partition_bytes p = partition_bytes q \<longleftrightarrow> p = q"
  by (auto simp: partition_bytes_def PartitionKey.expand)

lemma list_less_append:
  "length xs = length ys \<Longrightarrow> xs @ us < ys @ vs \<longleftrightarrow> xs < ys \<or> xs = ys \<and> us < vs"
  for xs ys :: "'a::order list"
  by (induction xs ys rule: list_induct2) auto

lemma partition_bytes_less: "partition_bytes p < partition_bytes q \<longleftrightarrow> p < q"
  by (auto simp: partition_bytes_def list_less_append to_be_bytes_less less_PartitionKey_def
      less_prod_def')

text \<open>RocksDB iterates records of a partition by offset, and bookmarks by publication.\<close>

lemma record_key_less: "record_key p a < record_key q b \<longleftrightarrow> (p, a) < (q, b)"
  by (auto simp: record_key_def list_less_append partition_bytes_less to_be_bytes_less less_prod_def')

lemma bookmark_order_key_less:
  "bookmark_order_key p a < bookmark_order_key q b \<longleftrightarrow> (p, a) < (q, b)"
  by (auto simp: bookmark_order_key_def list_less_append partition_bytes_less to_be_bytes_less
      less_prod_def')

lemma stream_bookmark_order_key_less:
  "stream_bookmark_order_key p a < stream_bookmark_order_key q b \<longleftrightarrow> (p, a) < (q, b)"
  by (auto simp: stream_bookmark_order_key_def list_less_append to_be_bytes_less less_prod_def')

lemma session_message_inject:
  "session_message p r = session_message q s \<longleftrightarrow>
    p = q \<and> pr_principal r = pr_principal s \<and> pr_session r = pr_session s"
proof
  assume "session_message p r = session_message q s"
  then have "p = q" and e: "pr_principal r @ to_be_bytes (pr_session r) =
      pr_principal s @ to_be_bytes (pr_session s)"
    by (simp_all add: session_message_def)
  from e have "length (pr_principal r) = length (pr_principal s)"
    by (metis add_right_cancel length_append length_to_be_bytes(3))
  with e \<open>p = q\<close> show "p = q \<and> pr_principal r = pr_principal s \<and> pr_session r = pr_session s"
    by simp
qed (simp add: session_message_def)

lemma payload_id_inject:
  "m < 2 ^ 32 \<Longrightarrow> n < 2 ^ 32 \<Longrightarrow> payload_id k m = payload_id l n \<longleftrightarrow> k = l \<and> m = n"
  by (auto simp: payload_id_def of_nat_inverse GroupLogId.equality
      dest!: arg_cong [of _ _ "unat :: u32 \<Rightarrow> nat"])

section \<open>Key families\<close>

text \<open>
  The keys of the state column family, one constructor per key function; the single-valued keys are
  \<open>KSingle\<close> with their literal. \<open>key_family\<close> is the literal prefix and \<open>key_body\<close> the rest.
\<close>

datatype state_key =
    KSingle string
  | KRecord PartitionKey u64 | KNextOffset PartitionKey | KRetention PartitionKey
  | KReclaimHint PartitionKey | KStream StreamId | KStreamName StreamName
  | KCreateIntent CatalogRequestId | KAdministration AdministrationRequestId
  | KExportReceipt MutationRequestId | KExportSession MutationRequestId
  | KReceipt PartitionKey ProducerRequestId | KSession PartitionKey ProducerRequestId
  | KMutationReceipt MutationRequestId | KMutationSession MutationRequestId
  | KCheckpoint CheckpointKey | KLeaseId ReplayLeaseId | KLeaseRequest MutationRequestId
  | KBookmarkId BookmarkId | KBookmarkName PartitionKey BookmarkName
  | KBookmarkOrder PartitionKey u64 | KBookmarkPublication PartitionKey
  | KStreamBookmarkId BookmarkId | KStreamBookmarkName StreamId BookmarkName
  | KStreamBookmarkOrder StreamId u64 | KStreamBookmarkPublication StreamId

definition single_keys :: "string list" where
  "single_keys =
     [''applied'', ''membership'', ''bootstrap'', ''data-group-pool'', ''max-streams'',
      ''max-partitions'', ''assignment-cursor'', ''catalog-revision'', ''lease-clock'',
      ''lease-budget'', ''operational-proof'', ''cluster-topology'', ''security-policy'',
      ''administration/active'', ''export/active'', ''export/epoch'', ''export/mutation-fence'']"

fun state_key_bytes :: "codec \<Rightarrow> state_key \<Rightarrow> bytes" where
  "state_key_bytes cd (KSingle s) = ascii s"
| "state_key_bytes cd (KRecord p n) = record_key p n"
| "state_key_bytes cd (KNextOffset p) = next_offset_key p"
| "state_key_bytes cd (KRetention p) = retention_key p"
| "state_key_bytes cd (KReclaimHint p) = retention_reclaim_hint_key p"
| "state_key_bytes cd (KStream s) = stream_key s"
| "state_key_bytes cd (KStreamName n) = stream_name_key n"
| "state_key_bytes cd (KCreateIntent r) = create_intent_key r"
| "state_key_bytes cd (KAdministration r) = administration_request_key r"
| "state_key_bytes cd (KExportReceipt r) = export_receipt_key cd r"
| "state_key_bytes cd (KExportSession r) = export_session_key cd r"
| "state_key_bytes cd (KReceipt p r) = receipt_key cd p r"
| "state_key_bytes cd (KSession p r) = session_key cd p r"
| "state_key_bytes cd (KMutationReceipt r) = mutation_receipt_key cd r"
| "state_key_bytes cd (KMutationSession r) = mutation_session_key cd r"
| "state_key_bytes cd (KCheckpoint k) = checkpoint_key k"
| "state_key_bytes cd (KLeaseId i) = replay_lease_id_key i"
| "state_key_bytes cd (KLeaseRequest r) = replay_lease_request_key cd r"
| "state_key_bytes cd (KBookmarkId i) = bookmark_id_key i"
| "state_key_bytes cd (KBookmarkName p n) = bookmark_name_key p n"
| "state_key_bytes cd (KBookmarkOrder p n) = bookmark_order_key p n"
| "state_key_bytes cd (KBookmarkPublication p) = bookmark_publication_key p"
| "state_key_bytes cd (KStreamBookmarkId i) = stream_bookmark_id_key i"
| "state_key_bytes cd (KStreamBookmarkName s n) = stream_bookmark_name_key s n"
| "state_key_bytes cd (KStreamBookmarkOrder s n) = stream_bookmark_order_key s n"
| "state_key_bytes cd (KStreamBookmarkPublication s) = stream_bookmark_publication_key s"

fun key_family :: "state_key \<Rightarrow> string" where
  "key_family (KSingle s) = s"
| "key_family (KRecord p n) = ''record/''"
| "key_family (KNextOffset p) = ''next-offset''"
| "key_family (KRetention p) = ''retention/''"
| "key_family (KReclaimHint p) = ''retention-reclaim-hint/''"
| "key_family (KStream s) = ''stream/''"
| "key_family (KStreamName n) = ''stream-name/''"
| "key_family (KCreateIntent r) = ''create-intent/''"
| "key_family (KAdministration r) = ''administration/request/''"
| "key_family (KExportReceipt r) = ''export/receipt/''"
| "key_family (KExportSession r) = ''export/session/''"
| "key_family (KReceipt p r) = ''receipt/''"
| "key_family (KSession p r) = ''session/''"
| "key_family (KMutationReceipt r) = ''mutation-receipt/''"
| "key_family (KMutationSession r) = ''mutation-session/''"
| "key_family (KCheckpoint k) = ''checkpoint/''"
| "key_family (KLeaseId i) = ''lease/id/''"
| "key_family (KLeaseRequest r) = ''lease/request/''"
| "key_family (KBookmarkId i) = ''bookmark/id/''"
| "key_family (KBookmarkName p n) = ''bookmark/name/''"
| "key_family (KBookmarkOrder p n) = ''bookmark/order/''"
| "key_family (KBookmarkPublication p) = ''bookmark/publication/''"
| "key_family (KStreamBookmarkId i) = ''stream-bookmark/id/''"
| "key_family (KStreamBookmarkName s n) = ''stream-bookmark/name/''"
| "key_family (KStreamBookmarkOrder s n) = ''stream-bookmark/order/''"
| "key_family (KStreamBookmarkPublication s) = ''stream-bookmark/publication/''"

definition prefixed_families :: "string list" where
  "prefixed_families =
     [''record/'', ''next-offset'', ''retention/'', ''retention-reclaim-hint/'', ''stream/'',
      ''stream-name/'', ''create-intent/'', ''administration/request/'', ''export/receipt/'',
      ''export/session/'', ''receipt/'', ''session/'', ''mutation-receipt/'', ''mutation-session/'',
      ''checkpoint/'', ''lease/id/'', ''lease/request/'', ''bookmark/id/'', ''bookmark/name/'',
      ''bookmark/order/'', ''bookmark/publication/'', ''stream-bookmark/id/'',
      ''stream-bookmark/name/'', ''stream-bookmark/order/'', ''stream-bookmark/publication/'']"

text \<open>A key of a family that is hashed, where distinct requests may in principle collide.\<close>

fun key_hashed :: "state_key \<Rightarrow> bool" where
  "key_hashed (KExportReceipt r) = True"
| "key_hashed (KExportSession r) = True"
| "key_hashed (KReceipt p r) = True"
| "key_hashed (KSession p r) = True"
| "key_hashed (KMutationReceipt r) = True"
| "key_hashed (KMutationSession r) = True"
| "key_hashed (KLeaseRequest r) = True"
| "key_hashed k = False"

text \<open>The checkpoint key leaves the cluster out: a group stores checkpoints of its own cluster only.\<close>

fun key_identity :: "state_key \<Rightarrow> state_key" where
  "key_identity (KCheckpoint k) = KCheckpoint (k\<lparr>ck_cluster := 0\<rparr>)"
| "key_identity k = k"

definition state_key_ok :: "state_key \<Rightarrow> bool" where
  "state_key_ok k \<longleftrightarrow> (case k of KSingle s \<Rightarrow> s \<in> set single_keys | _ \<Rightarrow> True)"

lemmas key_defs = record_key_def next_offset_key_def retention_key_def retention_reclaim_hint_key_def
  stream_key_def stream_name_key_def create_intent_key_def administration_request_key_def
  export_receipt_key_def export_session_key_def receipt_key_def session_key_def
  mutation_receipt_key_def mutation_session_key_def checkpoint_key_def replay_lease_id_key_def
  replay_lease_request_key_def bookmark_id_key_def bookmark_name_key_def bookmark_order_key_def
  bookmark_publication_key_def stream_bookmark_id_key_def stream_bookmark_name_key_def
  stream_bookmark_order_key_def stream_bookmark_publication_key_def

lemma key_split: "\<exists>body. state_key_bytes cd k = ascii (key_family k) @ body"
  by (cases k) (simp_all add: key_defs)

lemma key_family_listed:
  "state_key_ok k \<Longrightarrow> key_family k \<in> set (single_keys @ prefixed_families)"
  by (cases k) (simp_all add: state_key_ok_def prefixed_families_def)

fun prefix_free_of :: "string \<Rightarrow> string list \<Rightarrow> bool" where
  "prefix_free_of s [] = True"
| "prefix_free_of s (q # qs) =
     (take (length q) s \<noteq> q \<and> take (length s) q \<noteq> s \<and> prefix_free_of s qs)"

fun prefix_free :: "string list \<Rightarrow> bool" where
  "prefix_free [] = True"
| "prefix_free (q # qs) = (prefix_free_of q qs \<and> prefix_free qs)"

lemma families_prefix_free: "prefix_free (single_keys @ prefixed_families)"
  by (simp add: single_keys_def prefixed_families_def)

lemma prefix_free_of_iff:
  "prefix_free_of s qs \<longleftrightarrow> (\<forall>q \<in> set qs. take (length q) s \<noteq> q \<and> take (length s) q \<noteq> s)"
  by (induction qs) auto

lemma prefix_free_eq:
  "prefix_free ps \<Longrightarrow> s \<in> set ps \<Longrightarrow> q \<in> set ps \<Longrightarrow> take (length q) s = q \<Longrightarrow> s = q"
  by (induction ps) (auto simp: prefix_free_of_iff)

lemma ascii_inject [simp]: "ascii s = ascii q \<longleftrightarrow> s = q"
proof -
  have "unat (word_of_nat (of_char c) :: u8) = of_char c" for c
    by (simp add: unat_of_nat)
  then have "inj (\<lambda>c. word_of_nat (of_char c) :: u8)"
    by (metis injI of_char_eq_iff)
  then show ?thesis by (simp add: ascii_def inj_map_eq_map)
qed

lemma same_family:
  assumes "state_key_ok k" "state_key_ok l" "state_key_bytes cd k = state_key_bytes cd l"
  shows "key_family k = key_family l"
proof -
  have aux: "key_family m = key_family n"
    if ok: "state_key_ok m" "state_key_ok n"
      and e: "ascii (key_family m) @ x = ascii (key_family n) @ y"
      and le: "length (key_family n) \<le> length (key_family m)" for m n x y
  proof -
    have "take (length (key_family n)) (ascii (key_family m)) = ascii (key_family n)"
      using arg_cong [OF e, of "take (length (key_family n))"] le by simp
    then have "take (length (key_family n)) (key_family m) = key_family n"
      by (metis ascii_def ascii_inject take_map)
    with ok show ?thesis
      by (blast intro: prefix_free_eq [OF families_prefix_free] key_family_listed)
  qed
  obtain x y where "ascii (key_family k) @ x = ascii (key_family l) @ y"
    using key_split [of cd k] key_split [of cd l] assms(3) by metis
  with aux [of k l x y] aux [of l k y x] assms(1,2) show ?thesis
    by (metis nat_le_linear)
qed

lemma single_not_prefixed: "set single_keys \<inter> set prefixed_families = {}"
  by (simp add: single_keys_def prefixed_families_def)

lemma key_family_prefixed:
  assumes "\<And>s. k \<noteq> KSingle s"
  shows "key_family k \<in> set prefixed_families"
proof (cases k)
  case (KSingle s)
  with assms show ?thesis by blast
qed (simp_all add: prefixed_families_def)

lemma KSingle_family:
  assumes "state_key_ok (KSingle s)" "state_key_ok l" "key_family l = s"
  shows "l = KSingle s"
proof (rule ccontr)
  assume "l \<noteq> KSingle s"
  then have "l \<noteq> KSingle q" for q using assms(3) by auto
  then have "s \<in> set prefixed_families" using key_family_prefixed [of l] assms(3) by blast
  with assms(1) single_not_prefixed show False by (auto simp: state_key_ok_def)
qed

text \<open>
  Reading a key back from its family and body; on the families that are not hashed this recovers the
  key, so those keys are injective.
\<close>

definition partition_of_bytes :: "bytes \<Rightarrow> PartitionKey" where
  "partition_of_bytes b = PartitionKey (from_be_bytes (take 16 b)) (from_be_bytes (take 4 (drop 16 b)))"

lemma partition_of_partition_bytes [simp]: "partition_of_bytes (partition_bytes p @ x) = p"
  by (cases p) (simp add: partition_of_bytes_def partition_bytes_def)

lemma partition_of_partition_bytes_Nil [simp]: "partition_of_bytes (partition_bytes p) = p"
  using partition_of_partition_bytes [of p "[]"] by simp

definition read_key :: "string \<Rightarrow> bytes \<Rightarrow> state_key" where
  "read_key f b =
     (if f = ''record/'' then KRecord (partition_of_bytes b) (from_be_bytes (drop 20 b))
      else if f = ''next-offset'' then KNextOffset (partition_of_bytes b)
      else if f = ''retention/'' then KRetention (partition_of_bytes b)
      else if f = ''retention-reclaim-hint/'' then KReclaimHint (partition_of_bytes b)
      else if f = ''stream/'' then KStream (from_be_bytes b)
      else if f = ''stream-name/'' then KStreamName b
      else if f = ''create-intent/'' then KCreateIntent (from_be_bytes b)
      else if f = ''administration/request/'' then KAdministration (from_be_bytes b)
      else if f = ''checkpoint/''
        then KCheckpoint \<lparr>ck_cluster = 0, ck_partition = partition_of_bytes b, ck_consumer = drop 24 b\<rparr>
      else if f = ''lease/id/'' then KLeaseId (from_be_bytes b)
      else if f = ''bookmark/id/'' then KBookmarkId (from_be_bytes b)
      else if f = ''bookmark/name/'' then KBookmarkName (partition_of_bytes b) (drop 20 b)
      else if f = ''bookmark/order/''
        then KBookmarkOrder (partition_of_bytes b) (from_be_bytes (drop 20 b))
      else if f = ''bookmark/publication/'' then KBookmarkPublication (partition_of_bytes b)
      else if f = ''stream-bookmark/id/'' then KStreamBookmarkId (from_be_bytes b)
      else if f = ''stream-bookmark/name/''
        then KStreamBookmarkName (from_be_bytes (take 16 b)) (drop 16 b)
      else if f = ''stream-bookmark/order/''
        then KStreamBookmarkOrder (from_be_bytes (take 16 b)) (from_be_bytes (drop 16 b))
      else if f = ''stream-bookmark/publication/'' then KStreamBookmarkPublication (from_be_bytes b)
      else KSingle f)"

lemma read_key_single:
  assumes "s \<in> set single_keys"
  shows "read_key s b = KSingle s"
proof -
  have "s \<notin> set prefixed_families" using assms single_not_prefixed by blast
  then show ?thesis by (simp add: read_key_def prefixed_families_def)
qed

lemma read_key_simps:
  "read_key ''record/'' b = KRecord (partition_of_bytes b) (from_be_bytes (drop 20 b))"
  "read_key ''next-offset'' b = KNextOffset (partition_of_bytes b)"
  "read_key ''retention/'' b = KRetention (partition_of_bytes b)"
  "read_key ''retention-reclaim-hint/'' b = KReclaimHint (partition_of_bytes b)"
  "read_key ''stream/'' b = KStream (from_be_bytes b)"
  "read_key ''stream-name/'' b = KStreamName b"
  "read_key ''create-intent/'' b = KCreateIntent (from_be_bytes b)"
  "read_key ''administration/request/'' b = KAdministration (from_be_bytes b)"
  "read_key ''checkpoint/'' b = KCheckpoint \<lparr>ck_cluster = 0, ck_partition = partition_of_bytes b,
     ck_consumer = drop 24 b\<rparr>"
  "read_key ''lease/id/'' b = KLeaseId (from_be_bytes b)"
  "read_key ''bookmark/id/'' b = KBookmarkId (from_be_bytes b)"
  "read_key ''bookmark/name/'' b = KBookmarkName (partition_of_bytes b) (drop 20 b)"
  "read_key ''bookmark/order/'' b = KBookmarkOrder (partition_of_bytes b) (from_be_bytes (drop 20 b))"
  "read_key ''bookmark/publication/'' b = KBookmarkPublication (partition_of_bytes b)"
  "read_key ''stream-bookmark/id/'' b = KStreamBookmarkId (from_be_bytes b)"
  "read_key ''stream-bookmark/name/'' b = KStreamBookmarkName (from_be_bytes (take 16 b)) (drop 16 b)"
  "read_key ''stream-bookmark/order/'' b =
     KStreamBookmarkOrder (from_be_bytes (take 16 b)) (from_be_bytes (drop 16 b))"
  "read_key ''stream-bookmark/publication/'' b = KStreamBookmarkPublication (from_be_bytes b)"
  by (simp_all add: read_key_def)

lemma read_key_unhashed:
  "key_hashed k \<or> (\<exists>s. k = KSingle s) \<or> (\<exists>body. state_key_bytes cd k = ascii (key_family k) @ body \<and>
    read_key (key_family k) body = key_identity k)"
proof (cases k)
  case (KSingle s)
  then show ?thesis by blast
next
  case (KCheckpoint c)
  then show ?thesis by (cases c) (simp add: key_defs read_key_simps)
qed (simp_all add: key_defs read_key_simps)

lemma read_key_body:
  assumes "\<not> key_hashed k" "state_key_ok k"
  shows "\<exists>body. state_key_bytes cd k = ascii (key_family k) @ body \<and>
    read_key (key_family k) body = key_identity k"
proof (cases "\<exists>s. k = KSingle s")
  case True
  then obtain s where s: "k = KSingle s" by blast
  with assms(2) have "read_key s [] = KSingle s" by (simp add: state_key_ok_def read_key_single)
  with s show ?thesis by (intro exI [of _ "[]"]) simp
next
  case False
  with assms(1) read_key_unhashed [of k cd] show ?thesis by blast
qed

section \<open>Hexadecimal digests\<close>

lemma of_char_hex_digit: "n < 16 \<Longrightarrow> of_char (hex_digit n) = (if n < 10 then 48 + n else 87 + n)"
  by (simp add: hex_digit_def of_char_of)

lemma hex_digit_inject:
  assumes "m < 16" "n < 16" "hex_digit m = hex_digit n"
  shows "m = n"
proof -
  have "(if m < 10 then 48 + m else 87 + m) = (if n < 10 then 48 + n else 87 + n)"
    using of_char_hex_digit [OF assms(1)] of_char_hex_digit [OF assms(2)] unfolding assms(3) by simp
  then show ?thesis by presburger
qed

lemma lower_hex_inject: "lower_hex a = lower_hex b \<Longrightarrow> a = b"
proof (induction a arbitrary: b)
  case Nil
  then show ?case by (cases b) (simp_all add: lower_hex_def)
next
  case (Cons x a)
  obtain y b' where b: "b = y # b'" using Cons.prems by (cases b) (auto simp: lower_hex_def)
  have lt: "unat z div 16 < 16" "unat z mod 16 < 16" for z :: u8
    using unat_lt_width [of z] by simp_all
  have "hex_digit (unat x div 16) = hex_digit (unat y div 16)"
    "hex_digit (unat x mod 16) = hex_digit (unat y mod 16)" and rest: "lower_hex a = lower_hex b'"
    using Cons.prems b by (simp_all add: lower_hex_def)
  then have "unat x div 16 = unat y div 16" "unat x mod 16 = unat y mod 16"
    by (blast intro: hex_digit_inject lt)+
  then have "unat x = unat y" by (metis div_mult_mod_eq)
  with b rest Cons.IH show ?case by (simp add: word_unat_eq_iff)
qed

section \<open>What the identity of a key determines\<close>

lemma key_identity_eq:
  "key_identity k = key_identity l \<Longrightarrow>
    k = l \<or> (\<exists>a b. k = KCheckpoint a \<and> l = KCheckpoint b \<and> ck_cluster a \<noteq> ck_cluster b \<and>
      ck_partition a = ck_partition b \<and> ck_consumer a = ck_consumer b)"
proof (cases "\<exists>a b. k = KCheckpoint a \<and> l = KCheckpoint b")
  case True
  then obtain a b where kl: "k = KCheckpoint a" "l = KCheckpoint b" by blast
  assume "key_identity k = key_identity l"
  with kl show ?thesis by (cases a; cases b) auto
next
  case False
  assume "key_identity k = key_identity l"
  with False show ?thesis by (cases k; cases l) auto
qed

section \<open>The fingerprint message determines the request\<close>

definition batch_fits :: "PublishBatch \<Rightarrow> bool" where
  "batch_fits b \<longleftrightarrow> length (pr_principal (pb_request b)) < 2 ^ 64 \<and> length (pb_records b) < 2 ^ 64 \<and>
     (\<forall>r \<in> set (pb_records b). length r < 2 ^ 64) \<and>
     (case pb_bookmark b of None \<Rightarrow> True | Some n \<Rightarrow> length n < 2 ^ 64)"

lemma of_nat_u64_inject:
  assumes "m < 2 ^ 64" "n < 2 ^ 64"
  shows "(of_nat m :: u64) = of_nat n \<longleftrightarrow> m = n"
proof -
  have "unat (of_nat m :: u64) = m" "unat (of_nat n :: u64) = n"
    using assms by (simp_all add: unat_of_nat)
  then show ?thesis by metis
qed

lemma length_prefixed_inject:
  "length u < 2 ^ 64 \<Longrightarrow> length v < 2 ^ 64 \<Longrightarrow>
    length_prefixed u @ x = length_prefixed v @ y \<longleftrightarrow> u = v \<and> x = y"
  by (auto simp: length_prefixed_def of_nat_u64_inject)

lemma records_inject:
  "length rs = length qs \<Longrightarrow> \<forall>r \<in> set rs \<union> set qs. length r < 2 ^ 64 \<Longrightarrow>
    concat (map length_prefixed rs) @ x = concat (map length_prefixed qs) @ y \<longleftrightarrow> rs = qs \<and> x = y"
  by (induction rs qs rule: list_induct2) (auto simp: length_prefixed_inject)

lemma fingerprint_message_inject:
  assumes "batch_fits b" "batch_fits c" "fingerprint_message b = fingerprint_message c"
  shows "b = c"
proof -
  have fixed: "pb_cluster b = pb_cluster c" "pb_partition b = pb_partition c"
    "pr_principal (pb_request b) = pr_principal (pb_request c)"
    "pr_session (pb_request b) = pr_session (pb_request c)"
    "pr_sequence (pb_request b) = pr_sequence (pb_request c)"
    "length (pb_records b) = length (pb_records c)"
    and rest: "concat (map length_prefixed (pb_records b)) @
        (case pb_bookmark b of Some name \<Rightarrow> [1] @ length_prefixed name | None \<Rightarrow> [0]) =
      concat (map length_prefixed (pb_records c)) @
        (case pb_bookmark c of Some name \<Rightarrow> [1] @ length_prefixed name | None \<Rightarrow> [0])"
    using assms
    by (simp_all add: fingerprint_message_def batch_fits_def length_prefixed_inject of_nat_u64_inject)
  have "\<forall>r \<in> set (pb_records b) \<union> set (pb_records c). length r < 2 ^ 64"
    using assms(1,2) by (auto simp: batch_fits_def)
  from rest records_inject [OF fixed(6) this] have recs: "pb_records b = pb_records c"
    and mark: "(case pb_bookmark b of Some name \<Rightarrow> [1] @ length_prefixed name | None \<Rightarrow> [0]) =
      (case pb_bookmark c of Some name \<Rightarrow> [1] @ length_prefixed name | None \<Rightarrow> [0])" by simp_all
  from mark have "pb_bookmark b = pb_bookmark c"
    using length_prefixed_inject [of _ _ "[]" "[]"] assms(1,2)
    by (auto simp: batch_fits_def split: option.splits)
  with fixed recs show ?thesis by (simp add: PublishBatch.equality ProducerRequestId.equality)
qed

section \<open>A concrete codec\<close>

text \<open>
  An instance of the parameters with an injective digest and injective encoders, on which the
  hypotheses of the properties hold.
\<close>

definition demo_json_mutation :: "MutationRequestId \<Rightarrow> bytes" where
  "demo_json_mutation r =
     to_be_bytes (mr_session r) @ to_be_bytes (mr_sequence r) @ mr_principal r"

definition demo_codec :: codec where
  "demo_codec =
     \<lparr>cd_sha256 = (\<lambda>b. b),
      cd_json_producer = (\<lambda>r. to_be_bytes (pr_session r) @ to_be_bytes (pr_sequence r) @ pr_principal r),
      cd_json_mutation = demo_json_mutation,
      cd_json_publish = (\<lambda>c p r recs. fingerprint_message
        \<lparr>pb_cluster = c, pb_partition = p, pb_request = r, pb_records = recs, pb_bookmark = None\<rparr>),
      cd_json_retention = (\<lambda>r. demo_json_mutation (rq_request r) @ partition_bytes (rq_partition r) @
        to_be_bytes (rq_target_floor r)),
      cd_json_lease = (\<lambda>r. demo_json_mutation (lr_request r) @ to_be_bytes (lr_duration r)),
      cd_json_renewal = (\<lambda>r. demo_json_mutation (ln_request r) @ to_be_bytes (ln_duration r)),
      cd_json_release = (\<lambda>r. demo_json_mutation (le_request r) @ to_be_bytes (le_lease r)),
      cd_json_checkpoint = (\<lambda>m. demo_json_mutation (cm_request m) @ checkpoint_key (cm_key m) @
        to_be_bytes (cc_next_offset (cm_candidate m))),
      cd_json_security = (\<lambda>m. demo_json_mutation (sm_request m)),
      cd_json_transport = (\<lambda>r _ _. demo_json_mutation r),
      cd_legacy_payload = (\<lambda>_. Inl ''legacy payload''),
      cd_parse_uri = demo_parse\<rparr>"

definition demo_batch :: "bytes list \<Rightarrow> PublishBatch" where
  "demo_batch recs =
     \<lparr>pb_cluster = 9, pb_partition = PartitionKey 4 0,
      pb_request = \<lparr>pr_principal = [112], pr_session = 7, pr_sequence = 1\<rparr>,
      pb_records = recs, pb_bookmark = None\<rparr>"

section \<open>Properties\<close>

text \<open>
  C20. Keys never alias across families: two keys of the state column family with the same bytes belong to the
  same family. Outside the hashed families they are the same key, with one exception: checkpoint keys of one
  partition and consumer have the same bytes whatever their clusters are, because \<open>checkpoint_key\<close> leaves
  the cluster out. Keys of a hashed family share their bytes when the digest does, and of them only the
  family is claimed.
\<close>

theorem state_keys_never_alias:
  assumes "state_key_ok k" "state_key_ok l" "state_key_bytes cd k = state_key_bytes cd l"
  shows "key_family k = key_family l \<and>
    (key_hashed k \<or> key_hashed l \<or> k = l \<or>
     (\<exists>a b. k = KCheckpoint a \<and> l = KCheckpoint b \<and> ck_cluster a \<noteq> ck_cluster b \<and>
        ck_partition a = ck_partition b \<and> ck_consumer a = ck_consumer b))"
proof -
  have f: "key_family k = key_family l" using assms by (rule same_family)
  moreover have "key_identity k = key_identity l" if "\<not> key_hashed k" "\<not> key_hashed l"
    using read_key_body [OF that(1) assms(1), of cd] read_key_body [OF that(2) assms(2), of cd]
      assms(3) f by auto
  ultimately show ?thesis using key_identity_eq [of k l] by blast
qed

theorem state_keys_never_alias_witness:
  "key_family (KCheckpoint \<lparr>ck_cluster = 1, ck_partition = PartitionKey 2 3, ck_consumer = [4]\<rparr>) =
     key_family (KCheckpoint \<lparr>ck_cluster = 9, ck_partition = PartitionKey 2 3, ck_consumer = [4]\<rparr>) \<and>
   (\<exists>a b. KCheckpoint \<lparr>ck_cluster = 1, ck_partition = PartitionKey 2 3, ck_consumer = [4]\<rparr> = KCheckpoint a \<and>
      KCheckpoint \<lparr>ck_cluster = 9, ck_partition = PartitionKey 2 3, ck_consumer = [4]\<rparr> = KCheckpoint b \<and>
      ck_cluster a \<noteq> ck_cluster b \<and> ck_partition a = ck_partition b \<and> ck_consumer a = ck_consumer b)"
proof -
  let ?k = "\<lambda>c. KCheckpoint \<lparr>ck_cluster = c, ck_partition = PartitionKey 2 3, ck_consumer = [4]\<rparr>"
  have "state_key_bytes cd (?k 1) = state_key_bytes cd (?k 9)" for cd
    by (simp add: checkpoint_key_def)
  from state_keys_never_alias [OF _ _ this] show ?thesis by (simp add: state_key_ok_def)
qed

text \<open>
  C21. Two publish requests have the same fingerprint exactly when they are the same request, records
  and bookmark included, as long as SHA-256 does not collide on the two messages: no two different
  requests are framed to the same message.
\<close>

theorem fingerprint_identifies_request:
  assumes "batch_fits b" "batch_fits c"
    and "inj_on (cd_sha256 cd) {fingerprint_message b, fingerprint_message c}"
  shows "fingerprint cd b = fingerprint cd c \<longleftrightarrow> b = c"
proof
  assume "fingerprint cd b = fingerprint cd c"
  then have "cd_sha256 cd (fingerprint_message b) = cd_sha256 cd (fingerprint_message c)"
    by (auto simp: fingerprint_def dest: lower_hex_inject)
  with assms(3) have "fingerprint_message b = fingerprint_message c"
    by (rule inj_onD) simp_all
  with assms(1,2) show "b = c" by (rule fingerprint_message_inject)
qed simp

theorem fingerprint_identifies_request_witness:
  "fingerprint demo_codec (demo_batch [[1, 2], [3]]) = fingerprint demo_codec (demo_batch [[1], [2, 3]])
    \<longleftrightarrow> demo_batch [[1, 2], [3]] = demo_batch [[1], [2, 3]]"
  by (rule fingerprint_identifies_request)
    (simp_all add: batch_fits_def demo_batch_def demo_codec_def)

text \<open>
  C22. The stored forms read back: the partition is recovered from a record, retention or reclaim-hint
  key, and a payload from its framed value.
\<close>

theorem stored_forms_round_trip:
  "partition_from_record_key (record_key p off) = Inr p \<and>
   partition_from_retention_key (retention_key p) = Inr p \<and>
   partition_from_reclaim_hint_key (retention_reclaim_hint_key p) = Inr p \<and>
   decode_payload_value cd (encode_payload_value payload) = Inr payload"
  by (cases p) (simp add: partition_from_record_key_def partition_from_retention_key_def
      partition_from_reclaim_hint_key_def partition_from_key_def record_key_def retention_key_def
      retention_reclaim_hint_key_def partition_bytes_def decode_payload_value_def
      encode_payload_value_def)

end
