(* ===== verification/Retention_Rules.thy ===== *)
theory Retention_Rules
  imports Domain
begin

text \<open>
  The pure rules of \<open>crates/light-stream-storage/src/retention.rs\<close>: the safe lease clock, the limits
  on replay leases, admission, and the advance of the logical floor.
\<close>

record ClockObservation =
  co_lower_bound :: u64
  co_upper_bound :: u64

definition ClockObservation_new :: "u64 \<Rightarrow> u64 \<Rightarrow> ClockObservation result" where
  "ClockObservation_new lower upper =
     (if lower > upper then Inl LeaseClockUnavailable
      else Inr \<lparr>co_lower_bound = lower, co_upper_bound = upper\<rparr>)"

record SafeLeaseClock =
  sc_lower_bound :: u64
  sc_upper_bound :: u64

definition SafeLeaseClock_new :: "ClockObservation \<Rightarrow> SafeLeaseClock result" where
  "SafeLeaseClock_new ob =
     Inr \<lparr>sc_lower_bound = co_lower_bound ob, sc_upper_bound = co_upper_bound ob\<rparr>"

definition clock_advance :: "SafeLeaseClock \<Rightarrow> ClockObservation \<Rightarrow> SafeLeaseClock result" where
  "clock_advance c ob =
     (if co_upper_bound ob < sc_lower_bound c then Inl LeaseClockUnavailable
      else Inr \<lparr>sc_lower_bound = max (sc_lower_bound c) (co_lower_bound ob),
                sc_upper_bound = max (sc_upper_bound c) (co_upper_bound ob)\<rparr>)"

record RetentionLimits =
  lim_max_lease_bytes :: u64
  lim_max_group_reserved_lease_bytes :: u64
  lim_max_active_leases :: u32
  lim_max_lease_duration_ms :: u64
  lim_max_lease_lifetime_ms :: u64

definition RetentionLimits_default :: RetentionLimits where
  "RetentionLimits_default =
     \<lparr>lim_max_lease_bytes = 512 * 1024 * 1024,
      lim_max_group_reserved_lease_bytes = 4 * 1024 * 1024 * 1024,
      lim_max_active_leases = 256,
      lim_max_lease_duration_ms = 60000,
      lim_max_lease_lifetime_ms = 15 * 60000\<rparr>"

record LeaseBudget =
  lb_active_leases :: u32
  lb_reserved_bytes :: u64

definition LeaseBudget_default :: LeaseBudget where
  "LeaseBudget_default = \<lparr>lb_active_leases = 0, lb_reserved_bytes = 0\<rparr>"

record AdmissionState =
  am_floor :: RecordOffset
  am_tail :: RecordOffset
  am_clock :: SafeLeaseClock
  am_limits :: RetentionLimits
  am_budget :: LeaseBudget

record PartitionRetentionState =
  pr_logical_floor :: u64
  pr_reclaim_cursor :: u64
  pr_logically_expired_bytes :: u64
  pr_raft_only_bytes :: u64
  pr_next_byte_position :: u64
  pr_floor_byte_position :: u64

definition PartitionRetentionState_default :: PartitionRetentionState where
  "PartitionRetentionState_default =
     \<lparr>pr_logical_floor = 0, pr_reclaim_cursor = 0, pr_logically_expired_bytes = 0,
      pr_raft_only_bytes = 0, pr_next_byte_position = 0, pr_floor_byte_position = 0\<rparr>"

definition admit ::
  "ReplayLeaseId \<Rightarrow> ReplayLeaseRequest \<Rightarrow> u64 \<Rightarrow> AdmissionState \<Rightarrow> ReplayLease result" where
  "admit lid request protected_bytes st =
     (let range = lr_range request; limits = am_limits st; budget = am_budget st
      in if rg_start range < am_floor st
         then Inl (CursorExpired (rg_start range) (am_floor st))
         else if rg_end range > am_tail st
         then Inl (InvalidRange ''replay lease range extends past the committed tail'')
         else if lr_duration request > lim_max_lease_duration_ms limits
         then Inl (ResourceLimit ''replay_lease_duration_ms'' (lim_max_lease_duration_ms limits))
         else if protected_bytes > lr_max_bytes request \<or> protected_bytes > lim_max_lease_bytes limits
         then Inl (ResourceLimit ''replay_lease_bytes''
           (min (lr_max_bytes request) (lim_max_lease_bytes limits)))
         else if lb_active_leases budget \<ge> lim_max_active_leases limits
         then Inl (ResourceLimit ''active_replay_leases'' (ucast (lim_max_active_leases limits)))
         else if saturating_add (lb_reserved_bytes budget) protected_bytes
                   > lim_max_group_reserved_lease_bytes limits
         then Inl (ResourceLimit ''group_replay_lease_bytes''
           (lim_max_group_reserved_lease_bytes limits))
         else bind_result (ok_or LeaseClockUnavailable
                (checked_add (sc_upper_bound (am_clock st)) (lr_duration request))) (\<lambda>expires_at.
              bind_result (ok_or LeaseClockUnavailable
                (checked_add (sc_upper_bound (am_clock st)) (lim_max_lease_lifetime_ms limits)))
                (\<lambda>hard_expires_at.
              Inr (ReplayLease_admitted lid request protected_bytes expires_at hard_expires_at))))"

definition lease_is_effectively_active :: "ReplayLease \<Rightarrow> SafeLeaseClock \<Rightarrow> bool" where
  "lease_is_effectively_active l clock \<longleftrightarrow>
     rl_lifecycle l = LeaseActive \<and> sc_lower_bound clock < rl_expires_at l \<and>
     sc_lower_bound clock < rl_hard_expires_at l"

definition advance_floor :: "RecordOffset \<Rightarrow> RecordOffset \<Rightarrow> RecordOffset \<Rightarrow> RecordOffset result" where
  "advance_floor current requested tail =
     (if requested > tail
      then Inl (InvalidRange ''retention floor cannot advance past the committed tail'')
      else Inr (max current requested))"

section \<open>Consequences\<close>

lemma advance_floor_Inr:
  "advance_floor current requested tail = Inr f \<longleftrightarrow> requested \<le> tail \<and> f = max current requested"
  by (auto simp: advance_floor_def not_less)

lemma clock_advance_Inr:
  "clock_advance c ob = Inr d \<Longrightarrow>
    sc_lower_bound c \<le> sc_lower_bound d \<and> sc_upper_bound c \<le> sc_upper_bound d"
  by (auto simp: clock_advance_def split: if_splits)

lemma admit_Inr:
  assumes "admit lid request pbytes st = Inr l"
  shows "am_floor st \<le> rg_start (lr_range request) \<and> rg_end (lr_range request) \<le> am_tail st \<and>
    pbytes \<le> lr_max_bytes request \<and> pbytes \<le> lim_max_lease_bytes (am_limits st) \<and>
    lb_active_leases (am_budget st) < lim_max_active_leases (am_limits st) \<and>
    saturating_add (lb_reserved_bytes (am_budget st)) pbytes
      \<le> lim_max_group_reserved_lease_bytes (am_limits st) \<and>
    l = ReplayLease_admitted lid request pbytes (rl_expires_at l) (rl_hard_expires_at l) \<and>
    unat (rl_expires_at l) = unat (sc_upper_bound (am_clock st)) + unat (lr_duration request)"
  using assms
  by (auto simp: admit_def Let_def bind_result_Inr checked_add_Some ReplayLease_admitted_def not_less
      split: if_splits)

end
