(* ===== verification/Group_State.thy ===== *)
theory Group_State
  imports Keys Retention_Rules
begin

text \<open>
  The persistent state of one replicated group (\<open>GroupDb\<close> of
  \<open>crates/light-stream-storage/src/lib.rs\<close>), what is stored in it, and the results of its commands.

  Each key family of the state and payload column families is a table: hashed families are keyed by
  their key bytes, the others by the typed key, which theory \<open>Keys\<close> shows is the same thing. A record
  of the model groups the families one component owns. A command handler reads the state \<open>db\<close> as it
  was when the entry began and writes a pending state \<open>w\<close>, the write batch; \<open>apply_entry\<close> makes the
  batch the state when the handler returns a result and drops it when the handler fails. Failures of
  RocksDB and of decoding are not modelled, except that a producer receipt of one layout does not
  decode as the other.
\<close>

section \<open>Identity, banks and payload ownership\<close>

definition STORAGE_FORMAT_VERSION :: u32 where "STORAGE_FORMAT_VERSION = 1"
definition CONTROL_GROUP_ID :: u64 where "CONTROL_GROUP_ID = 1"
definition DATA_GROUP_ID :: u64 where "DATA_GROUP_ID = 2"
definition MAX_FETCH_RECORDS :: u32 where "MAX_FETCH_RECORDS = 1024"
definition MAX_FETCH_BYTES :: nat where "MAX_FETCH_BYTES = 8 * 1024 * 1024"

datatype GroupKind = ControlGroup | DataGroup

definition show_kind :: "GroupKind \<Rightarrow> string" where
  "show_kind k = (case k of ControlGroup \<Rightarrow> ''control'' | DataGroup \<Rightarrow> ''data'')"

record GroupIdentity =
  gi_format_version :: u32
  gi_cluster_id :: ClusterId
  gi_group_id :: GroupId
  gi_kind :: GroupKind

definition GroupIdentity_new :: "ClusterId \<Rightarrow> GroupId \<Rightarrow> GroupKind \<Rightarrow> GroupIdentity" where
  "GroupIdentity_new cluster gid kind =
     \<lparr>gi_format_version = STORAGE_FORMAT_VERSION, gi_cluster_id = cluster, gi_group_id = gid,
      gi_kind = kind\<rparr>"

datatype StateBank = BankA | BankB

definition bank_inactive :: "StateBank \<Rightarrow> StateBank" where
  "bank_inactive b = (case b of BankA \<Rightarrow> BankB | BankB \<Rightarrow> BankA)"

definition bank_bit :: "StateBank \<Rightarrow> u8" where
  "bank_bit b = (case b of BankA \<Rightarrow> 1 | BankB \<Rightarrow> 2)"

record PayloadOwners =
  po_raft_log :: bool
  po_applied_state :: bool
  po_applied_banks :: u8

definition owners_reachable :: "PayloadOwners \<Rightarrow> bool" where
  "owners_reachable o1 \<longleftrightarrow> po_raft_log o1 \<or> po_applied_state o1 \<or> po_applied_banks o1 \<noteq> 0"

definition applied_in :: "PayloadOwners \<Rightarrow> StateBank \<Rightarrow> bool" where
  "applied_in o1 bank \<longleftrightarrow> and (po_applied_banks o1) (bank_bit bank) \<noteq> 0"

definition set_applied_in :: "PayloadOwners \<Rightarrow> StateBank \<Rightarrow> bool \<Rightarrow> PayloadOwners" where
  "set_applied_in o1 bank applied =
     o1\<lparr>po_applied_banks :=
          (if applied then or (po_applied_banks o1) (bank_bit bank)
           else and (po_applied_banks o1) (not (bank_bit bank))),
        po_applied_state := False\<rparr>"

section \<open>Results\<close>

record PublishItemOutcome =
  io_request :: ProducerRequestId
  io_result :: "PublishReceipt result"

datatype ExportApplyResult = ExportStatusResult ExportStatus | ExportFenceResult ExportFenceObservation

datatype ApplyResult =
    Bootstrapped BootstrapResult
  | StreamResult StreamDescriptor
  | Published PublishReceipt
  | PublishedMany "PublishItemOutcome list"
  | CheckpointResult CheckpointCasResult
  | BookmarkResult CommittedBookmark
  | StreamBookmarkResult CommittedStreamBookmark
  | RetentionAdvanced RetentionResult
  | ReplayLeaseResult ReplayLease
  | RetentionStatusResult RetentionStatus
  | OperationalProofResult OperationalProof
  | AdministrationResult AdministrationOperation
  | SecurityPolicyResult SecurityPolicy
  | ExportResult ExportApplyResult
  | Rejected DomainError
  | Noop

section \<open>Stored values\<close>

record StoredRecord =
  sr_payload_key :: bytes
  sr_payload_bytes :: u64
  sr_cumulative_end_bytes :: u64

record StoredReceipt =
  st_fingerprint :: string
  st_receipt :: PublishReceipt

datatype StoredPublishRejection = RejBookmarkNameConflict | RejInvalidRange string

datatype StoredPublishResult = StoredPublished PublishReceipt | StoredRejected StoredPublishRejection

definition as_result :: "StoredPublishResult \<Rightarrow> PublishReceipt result" where
  "as_result r =
     (case r of
        StoredPublished receipt \<Rightarrow> Inr receipt
      | StoredRejected RejBookmarkNameConflict \<Rightarrow> Inl BookmarkNameConflict
      | StoredRejected (RejInvalidRange reason) \<Rightarrow> Inl (InvalidRange reason))"

record VersionedStoredPublishOutcome =
  vo_fingerprint :: string
  vo_result :: StoredPublishResult

datatype StoredPublishOutcome =
    LegacyOutcome StoredReceipt
  | VersionedOutcome VersionedStoredPublishOutcome

record StoredMutationReceipt =
  sm_fingerprint :: string
  sm_result :: ApplyResult

text \<open>\<open>ProducerSessionState\<close> and \<open>MutationSessionState\<close> have the same fields.\<close>

record SessionState =
  ss_highest_sequence :: "u64 option"
  ss_retained_sequences :: "u64 list"

definition SessionState_default :: SessionState where
  "SessionState_default = \<lparr>ss_highest_sequence = None, ss_retained_sequences = []\<rparr>"

record StoredCreateIntent =
  ci_spec :: CreateStreamSpec
  ci_stream_id :: StreamId

section \<open>The state of a group\<close>

record log_state =
  lg_next_offset :: "(PartitionKey, u64) table"
  lg_retention :: "(PartitionKey, PartitionRetentionState) table"
  lg_reclaim_hint :: "(PartitionKey, u64) table"
  lg_records :: "(PartitionKey \<times> u64, StoredRecord) table"
  lg_owners :: "(bytes, PayloadOwners) table"
  lg_payload :: "(bytes, bytes) table"

record producer_state =
  ps_receipts :: "(bytes, StoredPublishOutcome) table"
  ps_sessions :: "(bytes, SessionState) table"

record mutation_state =
  ms_receipts :: "(bytes, StoredMutationReceipt) table"
  ms_sessions :: "(bytes, SessionState) table"

record bookmark_state =
  bk_ids :: "(BookmarkId, CommittedBookmark) table"
  bk_names :: "(PartitionKey \<times> BookmarkName, BookmarkId) table"
  bk_order :: "(PartitionKey \<times> u64, CommittedBookmark) table"
  bk_publication :: "(PartitionKey, u64) table"

record stream_bookmark_state =
  sbk_ids :: "(BookmarkId, CommittedStreamBookmark) table"
  sbk_names :: "(StreamId \<times> BookmarkName, BookmarkId) table"
  sbk_order :: "(StreamId \<times> u64, CommittedStreamBookmark) table"
  sbk_publication :: "(StreamId, u64) table"

record lease_state =
  ls_clock :: "SafeLeaseClock option"
  ls_budget :: "LeaseBudget option"
  ls_leases :: "(ReplayLeaseId, ReplayLease) table"
  ls_requests :: "(bytes, ReplayLeaseId) table"

record catalog_state =
  ct_bootstrap :: "BootstrapSpec option"
  ct_data_group_pool :: "GroupId list option"
  ct_max_streams :: "u32 option"
  ct_max_partitions :: "u32 option"
  ct_assignment_cursor :: "u64 option"
  ct_revision :: "u64 option"
  ct_streams :: "(StreamId, StreamDescriptor) table"
  ct_names :: "(StreamName, StreamId) table"
  ct_intents :: "(CatalogRequestId, StoredCreateIntent) table"

record admin_state =
  ad_operational_proof :: "OperationalProof option"
  ad_cluster_topology :: "ClusterTopology option"
  ad_security_policy :: "SecurityPolicy option"
  ad_active :: "AdministrationOperation option"
  ad_requests :: "(AdministrationRequestId, AdministrationOperation) table"

record export_state =
  ex_active :: "ActiveExport option"
  ex_epoch :: "u64 option"
  ex_receipts :: "(bytes, ExportReceipt) table"
  ex_sessions :: "(bytes, u64 option) table"
  ex_fence :: "MutationFenceState option"

record group_db =
  gd_identity :: GroupIdentity
  gd_receipt_window :: nat
  gd_active_bank :: StateBank
  gd_applied :: "GroupLogId option"
  gd_membership :: "(GroupLogId \<times> bytes) option"
  gd_log :: log_state
  gd_producers :: producer_state
  gd_mutations :: mutation_state
  gd_bookmarks :: bookmark_state
  gd_stream_bookmarks :: stream_bookmark_state
  gd_leases :: lease_state
  gd_checkpoints :: "(PartitionKey \<times> ConsumerId, CommittedCheckpoint) table"
  gd_catalog :: catalog_state
  gd_admin :: admin_state
  gd_export :: export_state

definition empty_log :: log_state where
  "empty_log = \<lparr>lg_next_offset = [], lg_retention = [], lg_reclaim_hint = [], lg_records = [],
     lg_owners = [], lg_payload = []\<rparr>"

definition empty_group :: "GroupIdentity \<Rightarrow> nat \<Rightarrow> group_db" where
  "empty_group identity window =
     \<lparr>gd_identity = identity, gd_receipt_window = window, gd_active_bank = BankA,
      gd_applied = None, gd_membership = None, gd_log = empty_log,
      gd_producers = \<lparr>ps_receipts = [], ps_sessions = []\<rparr>,
      gd_mutations = \<lparr>ms_receipts = [], ms_sessions = []\<rparr>,
      gd_bookmarks = \<lparr>bk_ids = [], bk_names = [], bk_order = [], bk_publication = []\<rparr>,
      gd_stream_bookmarks = \<lparr>sbk_ids = [], sbk_names = [], sbk_order = [], sbk_publication = []\<rparr>,
      gd_leases = \<lparr>ls_clock = None, ls_budget = None, ls_leases = [], ls_requests = []\<rparr>,
      gd_checkpoints = [],
      gd_catalog = \<lparr>ct_bootstrap = None, ct_data_group_pool = None, ct_max_streams = None,
        ct_max_partitions = None, ct_assignment_cursor = None, ct_revision = None,
        ct_streams = [], ct_names = [], ct_intents = []\<rparr>,
      gd_admin = \<lparr>ad_operational_proof = None, ad_cluster_topology = None,
        ad_security_policy = None, ad_active = None, ad_requests = []\<rparr>,
      gd_export = \<lparr>ex_active = None, ex_epoch = None, ex_receipts = [], ex_sessions = [],
        ex_fence = None\<rparr>\<rparr>"

text \<open>Reads with the default the code supplies.\<close>

definition next_offset :: "log_state \<Rightarrow> PartitionKey \<Rightarrow> u64" where
  "next_offset lg p = tget_or 0 (lg_next_offset lg) p"

definition retention_of :: "log_state \<Rightarrow> PartitionKey \<Rightarrow> PartitionRetentionState" where
  "retention_of lg p = tget_or PartitionRetentionState_default (lg_retention lg) p"

definition mutation_fence_state :: "group_db \<Rightarrow> MutationFenceState" where
  "mutation_fence_state db =
     (case ex_fence (gd_export db) of None \<Rightarrow> MutationFenceState_default | Some f \<Rightarrow> f)"

definition kind_is_data :: "group_db \<Rightarrow> bool" where
  "kind_is_data db \<longleftrightarrow> gi_kind (gd_identity db) = DataGroup"

type_synonym 'a applied = "(group_db \<times> 'a) io"

section \<open>Sessions\<close>

text \<open>
  The window update every handler with receipts makes: the sequence becomes the highest, joins the
  retained ones, and the oldest retained one leaves when the window is full; the result is the new
  session and the sequence whose receipt is to be deleted.
\<close>

definition session_push :: "nat \<Rightarrow> u64 \<Rightarrow> SessionState \<Rightarrow> SessionState \<times> u64 option" where
  "session_push window sequence s =
     (let retained = ss_retained_sequences s @ [sequence]
      in if length retained > window
         then (\<lparr>ss_highest_sequence = Some sequence, ss_retained_sequences = tl retained\<rparr>,
               Some (hd retained))
         else (\<lparr>ss_highest_sequence = Some sequence, ss_retained_sequences = retained\<rparr>, None))"

definition sequence_expired :: "u64 \<Rightarrow> SessionState \<Rightarrow> bool" where
  "sequence_expired sequence s \<longleftrightarrow>
     (case ss_highest_sequence s of None \<Rightarrow> False | Some highest \<Rightarrow> sequence \<le> highest)"

text \<open>
  The session of a requester: the retained sequences are ascending, at most a window of them, and
  end in the highest one.
\<close>

definition session_ok :: "nat \<Rightarrow> SessionState \<Rightarrow> bool" where
  "session_ok window s \<longleftrightarrow>
     sorted_wrt (<) (ss_retained_sequences s) \<and> length (ss_retained_sequences s) \<le> window \<and>
     (case ss_highest_sequence s of
        None \<Rightarrow> ss_retained_sequences s = []
      | Some h \<Rightarrow> ss_retained_sequences s \<noteq> [] \<and> last (ss_retained_sequences s) = h)"

lemma session_ok_default [simp]: "session_ok window SessionState_default"
  by (simp add: session_ok_def SessionState_default_def)

lemma ascending_last: "sorted_wrt (<) xs \<Longrightarrow> x \<in> set xs \<Longrightarrow> x \<le> last xs"
  for x :: "'a::linorder"
  by (induction xs) (auto intro: less_imp_le)

lemma session_ok_below:
  assumes "session_ok window s" "\<not> sequence_expired q s" "r \<in> set (ss_retained_sequences s)"
  shows "r < q"
proof -
  have "r \<le> last (ss_retained_sequences s)"
    using assms(1,3) by (intro ascending_last) (auto simp: session_ok_def)
  moreover have "last (ss_retained_sequences s) < q"
    using assms by (auto simp: session_ok_def sequence_expired_def split: option.splits)
  ultimately show ?thesis by (rule order_le_less_trans)
qed

lemma session_ok_push:
  assumes "session_ok window s" "\<not> sequence_expired q s" "0 < window"
  shows "session_ok window (fst (session_push window q s))"
proof -
  let ?xs = "ss_retained_sequences s"
  have asc: "sorted_wrt (<) (?xs @ [q])"
    using assms(1) session_ok_below [OF assms(1,2)] by (auto simp: sorted_wrt_append session_ok_def)
  show ?thesis
  proof (cases "length (?xs @ [q]) > window")
    case True
    with assms(3) have "?xs \<noteq> []" by auto
    then obtain y ys where "?xs = y # ys" by (cases ?xs) auto
    with asc assms(1) True show ?thesis
      by (auto simp: session_push_def session_ok_def)
  next
    case False
    with asc show ?thesis by (simp add: session_push_def session_ok_def)
  qed
qed

lemma session_push_highest [simp]:
  "ss_highest_sequence (fst (session_push window q s)) = Some q"
  by (simp add: session_push_def Let_def)

lemma session_push_retained:
  assumes "0 < window"
  shows "set (ss_retained_sequences (fst (session_push window q s))) \<union>
      (case snd (session_push window q s) of None \<Rightarrow> {} | Some x \<Rightarrow> {x}) =
    insert q (set (ss_retained_sequences s))"
  using assms by (cases "ss_retained_sequences s") (auto simp: session_push_def Let_def)

end
