(* ===== verification/Bookmarks.thy ===== *)
theory Bookmarks
  imports Group_State
begin

text \<open>
  Partition and stream bookmarks: \<open>create_bookmark_record\<close>, the create and delete handlers and the
  bookmark reads of \<open>CommittedStateReader\<close> in \<open>crates/light-stream-storage/src/lib.rs\<close>. A bookmark is
  stored under its identity, its name and its publication number; the invariant \<open>bookmarks_ok\<close> says
  the three indexes agree, and every handler keeps it.
\<close>

section \<open>Partition bookmarks\<close>

definition bookmark_publication_of :: "bookmark_state \<Rightarrow> PartitionKey \<Rightarrow> u64" where
  "bookmark_publication_of bk p = tget_or 0 (bk_publication bk) p"

text \<open>The four writes of a new bookmark, in all three of its indexes.\<close>

definition put_bookmark :: "CommittedBookmark \<Rightarrow> bookmark_state \<Rightarrow> bookmark_state" where
  "put_bookmark b bk =
     (let p = cc_partition (cb_cursor b)
      in bk\<lparr>bk_ids := tput (bk_ids bk) (cb_id b) b,
            bk_names := tput (bk_names bk) (p, cb_name b) (cb_id b),
            bk_order := tput (bk_order bk) (p, cb_publication b) b,
            bk_publication := tput (bk_publication bk) p (cb_publication b)\<rparr>)"

definition create_bookmark_record ::
  "group_db \<Rightarrow> BookmarkId \<Rightarrow> PartitionKey \<Rightarrow> BookmarkName \<Rightarrow> RecordOffset \<Rightarrow> RecordOffset \<Rightarrow> group_db
   \<Rightarrow> group_db \<times> ApplyResult" where
  "create_bookmark_record db bid p name off maximum w =
     (if \<not> kind_is_data db
      then (w, Rejected (IdentityMismatch ''bookmark command reached the control group''))
      else if off > maximum
      then (w, Rejected (InvalidRange (''bookmark offset '' @ show_nat (unat off) @
        '' exceeds committed tail '' @ show_nat (unat maximum))))
      else (case tget (bk_ids (gd_bookmarks db)) bid of
        Some existing \<Rightarrow>
          if cb_name existing = name \<and> cc_partition (cb_cursor existing) = p \<and>
             cc_next_offset (cb_cursor existing) = off
          then (w, BookmarkResult existing)
          else (w, Rejected BookmarkNameConflict)
      | None \<Rightarrow>
          if tget (bk_names (gd_bookmarks db)) (p, name) \<noteq> None
          then (w, Rejected BookmarkNameConflict)
          else
            (let publication = saturating_add (bookmark_publication_of (gd_bookmarks db) p) 1;
                 bookmark = CommittedBookmark_published bid name
                   \<lparr>cc_cluster = gi_cluster_id (gd_identity db), cc_partition = p,
                    cc_next_offset = off\<rparr> publication
             in (w\<lparr>gd_bookmarks := put_bookmark bookmark (gd_bookmarks w)\<rparr>,
                 BookmarkResult bookmark))))"

definition apply_create_bookmark ::
  "group_db \<Rightarrow> BookmarkId \<Rightarrow> PartitionKey \<Rightarrow> BookmarkName \<Rightarrow> RecordOffset \<Rightarrow> group_db
   \<Rightarrow> group_db \<times> ApplyResult" where
  "apply_create_bookmark db bid p name off w =
     create_bookmark_record db bid p name off (next_offset (gd_log db) p) w"

definition apply_delete_bookmark ::
  "group_db \<Rightarrow> PartitionKey \<Rightarrow> BookmarkId \<Rightarrow> group_db \<Rightarrow> group_db \<times> ApplyResult" where
  "apply_delete_bookmark db p bid w =
     (case tget (bk_ids (gd_bookmarks db)) bid of
        None \<Rightarrow> (w, Rejected BookmarkNotFound)
      | Some b \<Rightarrow>
          if cc_partition (cb_cursor b) \<noteq> p
          then (w, Rejected (IdentityMismatch ''bookmark belongs to another partition''))
          else if cb_lifecycle b = BookmarkDeleted then (w, BookmarkResult b)
          else
            (let bk = gd_bookmarks w; deleted = bookmark_mark_deleted b
             in (w\<lparr>gd_bookmarks := bk
                    \<lparr>bk_names := tdel (bk_names bk) (p, cb_name b),
                     bk_order := tdel (bk_order bk) (p, cb_publication b),
                     bk_ids := tput (bk_ids bk) bid deleted\<rparr>\<rparr>,
                 BookmarkResult deleted)))"

section \<open>Stream bookmarks\<close>

definition apply_create_stream_bookmark ::
  "group_db \<Rightarrow> BookmarkId \<Rightarrow> BookmarkName \<Rightarrow> StreamCursorVector \<Rightarrow> group_db
   \<Rightarrow> group_db \<times> ApplyResult" where
  "apply_create_stream_bookmark db bid name vector w =
     (if kind_is_data db
      then (w, Rejected (IdentityMismatch ''stream bookmark reached a data group''))
      else if sv_cluster vector \<noteq> gi_cluster_id (gd_identity db)
      then (w, Rejected (IdentityMismatch
        ''stream bookmark cluster does not match the control group''))
      else (case tget (ct_streams (gd_catalog db)) (sv_stream vector) of
        None \<Rightarrow> (w, Rejected StreamNotFound)
      | Some stream \<Rightarrow>
          if sd_lifecycle stream \<noteq> Active then (w, Rejected StreamNotActive)
          else
            (let wanted = set (map pp_partition (sd_placements stream));
                 actual = set (map (pk_partition \<circ> cc_partition) (sv_positions vector))
             in if wanted \<noteq> actual \<or> card actual \<noteq> length (sv_positions vector)
                then (w, Rejected (InvalidRange
                  ''stream bookmark must contain one position for every stream partition''))
                else (case tget (sbk_ids (gd_stream_bookmarks db)) bid of
                  Some existing \<Rightarrow>
                    if sb_name existing = name \<and> sb_vector existing = vector
                    then (w, StreamBookmarkResult existing)
                    else (w, Rejected BookmarkNameConflict)
                | None \<Rightarrow>
                    if tget (sbk_names (gd_stream_bookmarks db)) (sv_stream vector, name) \<noteq> None
                    then (w, Rejected BookmarkNameConflict)
                    else
                      (let publication = saturating_add
                             (tget_or 0 (sbk_publication (gd_stream_bookmarks db)) (sv_stream vector)) 1;
                           bookmark = CommittedStreamBookmark_published bid name vector publication;
                           sb = gd_stream_bookmarks w; stream_id = sv_stream vector
                       in (w\<lparr>gd_stream_bookmarks := sb
                              \<lparr>sbk_ids := tput (sbk_ids sb) bid bookmark,
                               sbk_names := tput (sbk_names sb) (stream_id, name) bid,
                               sbk_order := tput (sbk_order sb) (stream_id, publication) bookmark,
                               sbk_publication := tput (sbk_publication sb) stream_id publication\<rparr>\<rparr>,
                           StreamBookmarkResult bookmark))))))"

definition apply_delete_stream_bookmark ::
  "group_db \<Rightarrow> StreamId \<Rightarrow> BookmarkId \<Rightarrow> group_db \<Rightarrow> group_db \<times> ApplyResult" where
  "apply_delete_stream_bookmark db stream_id bid w =
     (case tget (sbk_ids (gd_stream_bookmarks db)) bid of
        None \<Rightarrow> (w, Rejected BookmarkNotFound)
      | Some b \<Rightarrow>
          if sv_stream (sb_vector b) \<noteq> stream_id then (w, Rejected BookmarkNotFound)
          else if sb_lifecycle b = BookmarkDeleted then (w, StreamBookmarkResult b)
          else
            (let sb = gd_stream_bookmarks w; deleted = stream_bookmark_mark_deleted b
             in (w\<lparr>gd_stream_bookmarks := sb
                    \<lparr>sbk_names := tdel (sbk_names sb) (stream_id, sb_name b),
                     sbk_order := tdel (sbk_order sb) (stream_id, sb_publication b),
                     sbk_ids := tput (sbk_ids sb) bid deleted\<rparr>\<rparr>,
                 StreamBookmarkResult deleted)))"

section \<open>Reads\<close>

definition bookmark_by_id ::
  "group_db \<Rightarrow> PartitionKey \<Rightarrow> BookmarkId \<Rightarrow> CommittedBookmark result" where
  "bookmark_by_id db p bid =
     (case tget (bk_ids (gd_bookmarks db)) bid of
        None \<Rightarrow> Inl BookmarkNotFound
      | Some b \<Rightarrow> if cc_partition (cb_cursor b) \<noteq> p then Inl BookmarkNotFound else Inr b)"

definition resolve_bookmark ::
  "group_db \<Rightarrow> PartitionKey \<Rightarrow> BookmarkName \<Rightarrow> CommittedBookmark result" where
  "resolve_bookmark db p name =
     (case tget (bk_names (gd_bookmarks db)) (p, name) of
        None \<Rightarrow> Inl BookmarkNotFound
      | Some bid \<Rightarrow> bookmark_by_id db p bid)"

text \<open>A prefix scan of the order keys of a partition lists its entries in ascending publication.\<close>

definition scan_bookmarks :: "bookmark_state \<Rightarrow> PartitionKey \<Rightarrow> CommittedBookmark list" where
  "scan_bookmarks bk p = map snd (filter (\<lambda>e. fst (fst e) = p) (bk_order bk))"

definition list_bookmarks :: "group_db \<Rightarrow> BookmarkPageRequest \<Rightarrow> BookmarkPage result" where
  "list_bookmarks db request =
     (let p = bpr_partition request;
          current = bookmark_publication_of (gd_bookmarks db) p;
          ceiling = (case bpr_publication_ceiling request of None \<Rightarrow> current | Some c \<Rightarrow> c);
          before = (case bpr_before request of None \<Rightarrow> saturating_add ceiling 1 | Some b \<Rightarrow> b);
          limit = unat (bpr_limit request);
          items = take limit (filter (\<lambda>b. cb_lifecycle b = BookmarkAvailable \<and>
              cb_publication b \<le> ceiling \<and> cb_publication b < before)
            (rev (scan_bookmarks (gd_bookmarks db) p)));
          items = sort_key (\<lambda>b. - int (unat (cb_publication b))) items
      in Inr \<lparr>bp_items = items, bp_publication_ceiling = ceiling,
              bp_next_before =
                (if length items = limit then map_option cb_publication
                   (case items of [] \<Rightarrow> None | _ \<Rightarrow> Some (last items)) else None)\<rparr>)"

definition stream_bookmark_by_id ::
  "group_db \<Rightarrow> StreamId \<Rightarrow> BookmarkId \<Rightarrow> CommittedStreamBookmark result" where
  "stream_bookmark_by_id db stream_id bid =
     (case tget (sbk_ids (gd_stream_bookmarks db)) bid of
        None \<Rightarrow> Inl BookmarkNotFound
      | Some b \<Rightarrow> if sv_stream (sb_vector b) \<noteq> stream_id then Inl BookmarkNotFound else Inr b)"

definition resolve_stream_bookmark ::
  "group_db \<Rightarrow> StreamId \<Rightarrow> BookmarkName \<Rightarrow> CommittedStreamBookmark result" where
  "resolve_stream_bookmark db stream_id name =
     (case tget (sbk_names (gd_stream_bookmarks db)) (stream_id, name) of
        None \<Rightarrow> Inl BookmarkNotFound
      | Some bid \<Rightarrow> stream_bookmark_by_id db stream_id bid)"

definition scan_stream_bookmarks ::
  "stream_bookmark_state \<Rightarrow> StreamId \<Rightarrow> CommittedStreamBookmark list" where
  "scan_stream_bookmarks sb stream_id =
     map snd (filter (\<lambda>e. fst (fst e) = stream_id) (sbk_order sb))"

definition list_stream_bookmarks ::
  "group_db \<Rightarrow> StreamBookmarkPageRequest \<Rightarrow> StreamBookmarkPage result" where
  "list_stream_bookmarks db request =
     (if sbpr_cluster request \<noteq> gi_cluster_id (gd_identity db)
      then Inl (IdentityMismatch ''stream bookmark cluster does not match the control group'')
      else
        (let stream_id = sbpr_stream request;
             current = tget_or 0 (sbk_publication (gd_stream_bookmarks db)) stream_id;
             ceiling = (case sbpr_publication_ceiling request of None \<Rightarrow> current | Some c \<Rightarrow> c);
             before = (case sbpr_before request of None \<Rightarrow> saturating_add ceiling 1 | Some b \<Rightarrow> b);
             limit = unat (sbpr_limit request);
             items = take limit (filter (\<lambda>b. sb_lifecycle b = BookmarkAvailable \<and>
                 sb_publication b \<le> ceiling \<and> sb_publication b < before)
               (rev (scan_stream_bookmarks (gd_stream_bookmarks db) stream_id)));
             items = sort_key (\<lambda>b. - int (unat (sb_publication b))) items
         in Inr \<lparr>sbp_items = items, sbp_publication_ceiling = ceiling,
                 sbp_next_before =
                   (if length items = limit then map_option sb_publication
                      (case items of [] \<Rightarrow> None | _ \<Rightarrow> Some (last items)) else None)\<rparr>))"

section \<open>The indexes agree\<close>

text \<open>
  An available bookmark is found under its identity, name and publication, and under no other key; a
  deleted one keeps only its identity; publications of a partition are unique and at most the
  counter.
\<close>

definition bookmarks_ok :: "bookmark_state \<Rightarrow> bool" where
  "bookmarks_ok bk \<longleftrightarrow>
     tsorted (bk_order bk) \<and>
     (\<forall>i b. tget (bk_ids bk) i = Some b \<longrightarrow> cb_id b = i \<and>
        cb_publication b \<le> bookmark_publication_of bk (cc_partition (cb_cursor b)) \<and>
        (cb_lifecycle b = BookmarkAvailable \<longrightarrow>
           tget (bk_names bk) (cc_partition (cb_cursor b), cb_name b) = Some i \<and>
           tget (bk_order bk) (cc_partition (cb_cursor b), cb_publication b) = Some b)) \<and>
     (\<forall>p n i. tget (bk_names bk) (p, n) = Some i \<longrightarrow>
        (\<exists>b. tget (bk_ids bk) i = Some b \<and> cb_lifecycle b = BookmarkAvailable \<and>
           cc_partition (cb_cursor b) = p \<and> cb_name b = n)) \<and>
     (\<forall>p k b. tget (bk_order bk) (p, k) = Some b \<longrightarrow>
        tget (bk_ids bk) (cb_id b) = Some b \<and> cb_lifecycle b = BookmarkAvailable \<and>
        cc_partition (cb_cursor b) = p \<and> cb_publication b = k)"

lemma bookmarks_okD:
  assumes "bookmarks_ok bk"
  shows "tsorted (bk_order bk)"
    and "tget (bk_ids bk) i = Some b \<Longrightarrow> cb_id b = i"
    and "tget (bk_ids bk) i = Some b \<Longrightarrow>
      cb_publication b \<le> bookmark_publication_of bk (cc_partition (cb_cursor b))"
    and "tget (bk_ids bk) i = Some b \<Longrightarrow> cb_lifecycle b = BookmarkAvailable \<Longrightarrow>
      tget (bk_names bk) (cc_partition (cb_cursor b), cb_name b) = Some i \<and>
      tget (bk_order bk) (cc_partition (cb_cursor b), cb_publication b) = Some b"
    and "tget (bk_names bk) (p, n) = Some i \<Longrightarrow>
      \<exists>b. tget (bk_ids bk) i = Some b \<and> cb_lifecycle b = BookmarkAvailable \<and>
        cc_partition (cb_cursor b) = p \<and> cb_name b = n"
    and "tget (bk_order bk) (p, k) = Some b \<Longrightarrow>
      tget (bk_ids bk) (cb_id b) = Some b \<and> cb_lifecycle b = BookmarkAvailable \<and>
      cc_partition (cb_cursor b) = p \<and> cb_publication b = k"
  using assms unfolding bookmarks_ok_def by blast+

lemma put_bookmark_simps [simp]:
  "bk_ids (put_bookmark b bk) = tput (bk_ids bk) (cb_id b) b"
  "bk_names (put_bookmark b bk) =
    tput (bk_names bk) (cc_partition (cb_cursor b), cb_name b) (cb_id b)"
  "bk_order (put_bookmark b bk) =
    tput (bk_order bk) (cc_partition (cb_cursor b), cb_publication b) b"
  "bk_publication (put_bookmark b bk) =
    tput (bk_publication bk) (cc_partition (cb_cursor b)) (cb_publication b)"
  by (simp_all add: put_bookmark_def Let_def)

lemma bookmark_publication_of_put [simp]:
  "bookmark_publication_of (put_bookmark b bk) p =
    (if p = cc_partition (cb_cursor b) then cb_publication b else bookmark_publication_of bk p)"
  by (simp add: bookmark_publication_of_def)

lemma put_bookmark_ok:
  assumes ok: "bookmarks_ok bk" and fresh: "tget (bk_ids bk) (cb_id b) = None"
    and name: "tget (bk_names bk) (cc_partition (cb_cursor b), cb_name b) = None"
    and newer: "bookmark_publication_of bk (cc_partition (cb_cursor b)) < cb_publication b"
    and avail: "cb_lifecycle b = BookmarkAvailable"
  shows "bookmarks_ok (put_bookmark b bk)"
proof -
  let ?p = "cc_partition (cb_cursor b)"
  note D = bookmarks_okD [OF ok]
  have other: "tget (bk_order bk) (?p, cb_publication b) = None"
  proof (rule ccontr)
    assume "\<not> ?thesis"
    then obtain c where "tget (bk_order bk) (?p, cb_publication b) = Some c" by blast
    from D(6) [OF this] D(3) newer show False by (metis linorder_not_less)
  qed
  show ?thesis unfolding bookmarks_ok_def
  proof (intro conjI allI impI)
    show "tsorted (bk_order (put_bookmark b bk))" using D(1) by simp
  next
    fix i c assume i: "tget (bk_ids (put_bookmark b bk)) i = Some c"
    then show "cb_id c = i" using D(2) by (auto split: if_splits)
    from i newer show "cb_publication c \<le> bookmark_publication_of (put_bookmark b bk)
        (cc_partition (cb_cursor c))"
      using D(3) [of i c] by (auto split: if_splits)
    show "tget (bk_names (put_bookmark b bk)) (cc_partition (cb_cursor c), cb_name c) = Some i"
      if "cb_lifecycle c = BookmarkAvailable"
      using i that name D(4) [of i c] by (auto split: if_splits)
    show "tget (bk_order (put_bookmark b bk)) (cc_partition (cb_cursor c), cb_publication c) = Some c"
      if "cb_lifecycle c = BookmarkAvailable"
      using i that other D(4) [of i c] by (auto split: if_splits)
  next
    fix p n i assume "tget (bk_names (put_bookmark b bk)) (p, n) = Some i"
    then show "\<exists>c. tget (bk_ids (put_bookmark b bk)) i = Some c \<and> cb_lifecycle c = BookmarkAvailable \<and>
        cc_partition (cb_cursor c) = p \<and> cb_name c = n"
      using avail fresh D(5) [of p n i] by (auto split: if_splits)
  next
    fix p k c assume "tget (bk_order (put_bookmark b bk)) (p, k) = Some c"
    then have "c = b \<and> p = ?p \<and> k = cb_publication b \<or> tget (bk_order bk) (p, k) = Some c"
      by (auto split: if_splits)
    then have "tget (bk_ids (put_bookmark b bk)) (cb_id c) = Some c \<and> cb_lifecycle c = BookmarkAvailable \<and>
        cc_partition (cb_cursor c) = p \<and> cb_publication c = k"
      using avail fresh D(6) [of p k c] by auto
    then show "tget (bk_ids (put_bookmark b bk)) (cb_id c) = Some c" "cb_lifecycle c = BookmarkAvailable"
      "cc_partition (cb_cursor c) = p" "cb_publication c = k" by blast+
  qed
qed

lemma delete_bookmark_ok:
  assumes ok: "bookmarks_ok bk" and b: "tget (bk_ids bk) i = Some b"
    and avail: "cb_lifecycle b = BookmarkAvailable"
  shows "bookmarks_ok (bk\<lparr>bk_names := tdel (bk_names bk) (cc_partition (cb_cursor b), cb_name b),
    bk_order := tdel (bk_order bk) (cc_partition (cb_cursor b), cb_publication b),
    bk_ids := tput (bk_ids bk) i (bookmark_mark_deleted b)\<rparr>)"
proof -
  note D = bookmarks_okD [OF ok]
  have mine: "tget (bk_names bk) (cc_partition (cb_cursor b), cb_name b) = Some i"
    "tget (bk_order bk) (cc_partition (cb_cursor b), cb_publication b) = Some b" "cb_id b = i"
    using D(2,4) [OF b] avail by auto
  have names: "(cc_partition (cb_cursor c), cb_name c) \<noteq> (cc_partition (cb_cursor b), cb_name b)"
    if "tget (bk_ids bk) j = Some c" "cb_lifecycle c = BookmarkAvailable" "j \<noteq> i" for c j
    using D(4) [OF that(1,2)] mine that(3) by auto
  have orders: "(cc_partition (cb_cursor c), cb_publication c) \<noteq>
      (cc_partition (cb_cursor b), cb_publication b)"
    if "tget (bk_ids bk) j = Some c" "cb_lifecycle c = BookmarkAvailable" "j \<noteq> i" for c j
    using D(4) [OF that(1,2)] D(2) [OF that(1)] mine that(3) by auto
  show ?thesis (is "bookmarks_ok ?bk") unfolding bookmarks_ok_def
  proof (intro conjI allI impI)
    show "tsorted (bk_order ?bk)" using D(1) by simp
  next
    fix j c assume j: "tget (bk_ids ?bk) j = Some c"
    then have c: "j = i \<and> c = bookmark_mark_deleted b \<or> j \<noteq> i \<and> tget (bk_ids bk) j = Some c"
      by (simp split: if_splits)
    then show "cb_id c = j" using mine D(2) by (auto simp: bookmark_mark_deleted_def)
    show "cb_publication c \<le> bookmark_publication_of ?bk (cc_partition (cb_cursor c))"
      using c D(3) [OF b] D(3) [of j c]
      by (auto simp: bookmark_mark_deleted_def bookmark_publication_of_def)
    assume "cb_lifecycle c = BookmarkAvailable"
    moreover from this c have "j \<noteq> i" "tget (bk_ids bk) j = Some c"
      by (auto simp: bookmark_mark_deleted_def)
    ultimately show "tget (bk_names ?bk) (cc_partition (cb_cursor c), cb_name c) = Some j"
      "tget (bk_order ?bk) (cc_partition (cb_cursor c), cb_publication c) = Some c"
      using D(4) [of j c] names [of j c] orders [of j c] by simp_all
  next
    fix p n j assume "tget (bk_names ?bk) (p, n) = Some j"
    then have n: "(p, n) \<noteq> (cc_partition (cb_cursor b), cb_name b)" "tget (bk_names bk) (p, n) = Some j"
      by (simp_all split: if_splits)
    from D(5) [OF n(2)] obtain c where c: "tget (bk_ids bk) j = Some c"
      "cb_lifecycle c = BookmarkAvailable" "cc_partition (cb_cursor c) = p" "cb_name c = n" by blast
    with n(1) b have "j \<noteq> i" by auto
    with c show "\<exists>c. tget (bk_ids ?bk) j = Some c \<and> cb_lifecycle c = BookmarkAvailable \<and>
        cc_partition (cb_cursor c) = p \<and> cb_name c = n" by simp
  next
    fix p k c assume "tget (bk_order ?bk) (p, k) = Some c"
    then have k: "(p, k) \<noteq> (cc_partition (cb_cursor b), cb_publication b)"
      "tget (bk_order bk) (p, k) = Some c" by (simp_all split: if_splits)
    note c = D(6) [OF k(2)]
    with k(1) b have "cb_id c \<noteq> i" by auto
    with c show "tget (bk_ids ?bk) (cb_id c) = Some c" "cb_lifecycle c = BookmarkAvailable"
      "cc_partition (cb_cursor c) = p" "cb_publication c = k" by simp_all
  qed
qed

text \<open>The counter of a partition can still be raised.\<close>

definition publication_open :: "group_db \<Rightarrow> PartitionKey \<Rightarrow> bool" where
  "publication_open db p \<longleftrightarrow> bookmark_publication_of (gd_bookmarks db) p < - 1"

lemma publication_raised:
  "publication_open db p \<Longrightarrow> bookmark_publication_of (gd_bookmarks db) p <
    saturating_add (bookmark_publication_of (gd_bookmarks db) p) 1"
  by (auto simp: publication_open_def word_less_nat_alt saturating_add_one unat_Suc_below
      dest: saturating_add_one)

lemma create_bookmark_record_cases:
  assumes "create_bookmark_record db bid p name off maximum w = (w', r)"
  obtains (unchanged) "w' = w"
  | (created) b where "r = BookmarkResult b" "w' = w\<lparr>gd_bookmarks := put_bookmark b (gd_bookmarks w)\<rparr>"
      "tget (bk_ids (gd_bookmarks db)) bid = None" "tget (bk_names (gd_bookmarks db)) (p, name) = None"
      "b = CommittedBookmark_published bid name
         \<lparr>cc_cluster = gi_cluster_id (gd_identity db), cc_partition = p, cc_next_offset = off\<rparr>
         (saturating_add (bookmark_publication_of (gd_bookmarks db) p) 1)"
      "kind_is_data db" "off \<le> maximum"
  using assms
  by (auto simp: create_bookmark_record_def Let_def not_less split: if_splits option.splits)

lemma create_bookmark_record_ok:
  assumes "create_bookmark_record db bid p name off maximum w = (w', r)"
    and "bookmarks_ok (gd_bookmarks db)" "gd_bookmarks w = gd_bookmarks db" "publication_open db p"
  shows "bookmarks_ok (gd_bookmarks w')"
  using assms(1)
proof (cases rule: create_bookmark_record_cases)
  case (created b)
  then show ?thesis
    using assms(2-4) publication_raised [OF assms(4)]
    by (auto simp: CommittedBookmark_published_def intro!: put_bookmark_ok)
qed (use assms in simp)

lemma apply_delete_bookmark_ok:
  assumes "apply_delete_bookmark db p bid w = (w', r)"
    and "bookmarks_ok (gd_bookmarks db)" "gd_bookmarks w = gd_bookmarks db"
  shows "bookmarks_ok (gd_bookmarks w')"
  using assms delete_bookmark_ok [OF assms(2), of bid]
  by (auto simp: apply_delete_bookmark_def Let_def BookmarkLifecycle.exhaust
      split: option.splits if_splits) (metis BookmarkLifecycle.exhaust)+

section \<open>Pages\<close>

text \<open>The available bookmarks of a partition below two bounds, newest first.\<close>

definition bookmarks_before ::
  "bookmark_state \<Rightarrow> PartitionKey \<Rightarrow> u64 \<Rightarrow> u64 \<Rightarrow> CommittedBookmark list" where
  "bookmarks_before bk p ceiling before =
     filter (\<lambda>b. cb_lifecycle b = BookmarkAvailable \<and> cb_publication b \<le> ceiling \<and>
       cb_publication b < before) (rev (scan_bookmarks bk p))"

lemma scan_bookmarks_set:
  assumes "bookmarks_ok bk"
  shows "b \<in> set (scan_bookmarks bk p) \<longleftrightarrow> tget (bk_ids bk) (cb_id b) = Some b \<and>
    cb_lifecycle b = BookmarkAvailable \<and> cc_partition (cb_cursor b) = p"
proof -
  note D = bookmarks_okD [OF assms]
  have "b \<in> set (scan_bookmarks bk p) \<longleftrightarrow> (\<exists>k. tget (bk_order bk) (p, k) = Some b)"
    using tget_set [OF D(1)] by (force simp: scan_bookmarks_def)
  with D(4,6) show ?thesis by blast
qed

lemma scan_bookmarks_ascending:
  assumes "bookmarks_ok bk"
  shows "sorted_wrt (\<lambda>a b. cb_publication a < cb_publication b) (scan_bookmarks bk p)"
proof -
  note D = bookmarks_okD [OF assms]
  have key: "cb_publication b = k" if "((q, k), b) \<in> set (bk_order bk)" for q k b
    using that D(6) [of q k b] tget_set [OF D(1)] by metis
  have "sorted_wrt (\<lambda>d e. fst d < fst e) (filter (\<lambda>e. fst (fst e) = p) (bk_order bk))"
    using D(1) by (simp add: tsorted_def sorted_wrt_map sorted_wrt_filter)
  then show ?thesis
    unfolding scan_bookmarks_def sorted_wrt_map
    by (rule sorted_wrt_mono_rel [rotated]) (auto simp: less_prod_def' key)
qed

lemma bookmarks_before_descending:
  "bookmarks_ok bk \<Longrightarrow>
    sorted_wrt (\<lambda>a b. cb_publication b < cb_publication a) (bookmarks_before bk p c before)"
  unfolding bookmarks_before_def
  by (intro sorted_wrt_filter) (simp add: sorted_wrt_rev scan_bookmarks_ascending)

lemma sort_key_descending:
  assumes "sorted_wrt (\<lambda>a b. cb_publication b < cb_publication a) xs"
  shows "sort_key (\<lambda>b. - int (unat (cb_publication b))) xs = xs"
proof -
  have "sorted_wrt (\<le>) (map (\<lambda>b. - int (unat (cb_publication b))) xs)"
    unfolding sorted_wrt_map
    by (rule sorted_wrt_mono_rel [OF _ assms]) (auto simp: word_less_def intro: less_imp_le)
  then show ?thesis by (rule sort_key_id_if_sorted)
qed

lemma bookmarks_before_split:
  assumes "bookmarks_ok bk" "xs @ [b] @ ys = bookmarks_before bk p c before"
  shows "bookmarks_before bk p c (cb_publication b) = ys"
proof -
  let ?d = "\<lambda>a b. cb_publication b < cb_publication a"
  have all: "sorted_wrt ?d (xs @ [b] @ ys)"
    using assms bookmarks_before_descending [of bk p c before] by simp
  have "b \<in> set (bookmarks_before bk p c before)" unfolding assms(2) [symmetric] by simp
  then have "cb_publication b < before" by (simp add: bookmarks_before_def)
  then have "bookmarks_before bk p c (cb_publication b) =
      filter (\<lambda>x. cb_publication x < cb_publication b) (bookmarks_before bk p c before)"
    unfolding bookmarks_before_def filter_filter by (intro filter_cong) auto
  also have "\<dots> = ys"
    using all unfolding assms(2) [symmetric]
    by (auto simp: sorted_wrt_append filter_empty_conv intro!: filter_True)
  finally show ?thesis .
qed

lemma list_bookmarks_page:
  assumes "list_bookmarks db r = Inr page" "ceiling = bp_publication_ceiling page"
    and "before = (case bpr_before r of None \<Rightarrow> saturating_add ceiling 1 | Some k \<Rightarrow> k)"
  defines "items \<equiv> sort_key (\<lambda>b. - int (unat (cb_publication b)))
    (take (unat (bpr_limit r)) (bookmarks_before (gd_bookmarks db) (bpr_partition r) ceiling before))"
  shows "page = \<lparr>bp_items = items, bp_publication_ceiling = ceiling,
    bp_next_before = (if length items = unat (bpr_limit r) then map_option cb_publication
      (case items of [] \<Rightarrow> None | _ \<Rightarrow> Some (last items)) else None)\<rparr>"
proof -
  have c: "ceiling = (case bpr_publication_ceiling r of
      None \<Rightarrow> bookmark_publication_of (gd_bookmarks db) (bpr_partition r) | Some c \<Rightarrow> c)"
    using assms(1,2) by (auto simp: list_bookmarks_def Let_def)
  show ?thesis
    using assms(1) unfolding items_def assms(3) list_bookmarks_def Let_def bookmarks_before_def
      c [symmetric] by simp
qed

section \<open>A concrete group\<close>

definition demo_bookmark :: CommittedBookmark where
  "demo_bookmark = CommittedBookmark_published 1 [97]
     \<lparr>cc_cluster = 9, cc_partition = PartitionKey 4 0, cc_next_offset = 0\<rparr> 1"

definition demo_group :: group_db where
  "demo_group = (empty_group (GroupIdentity_new 9 2 DataGroup) 2)
     \<lparr>gd_bookmarks := put_bookmark demo_bookmark
       \<lparr>bk_ids = [], bk_names = [], bk_order = [], bk_publication = []\<rparr>\<rparr>"

lemma demo_group_simps [simp]:
  "gd_identity demo_group = GroupIdentity_new 9 2 DataGroup"
  "gd_bookmarks demo_group = put_bookmark demo_bookmark
     \<lparr>bk_ids = [], bk_names = [], bk_order = [], bk_publication = []\<rparr>"
  "gd_log demo_group = empty_log"
  by (simp_all add: demo_group_def empty_group_def)

lemma demo_group_bookmarks: "bookmarks_ok (gd_bookmarks demo_group)"
  unfolding demo_group_simps
  by (rule put_bookmark_ok)
    (simp_all add: bookmarks_ok_def bookmark_publication_of_def tget_or_def demo_bookmark_def
      CommittedBookmark_published_def)

section \<open>Properties\<close>

text \<open>
  C23. A created bookmark is found by its name at the requested offset, and no other name of any
  partition resolves differently than before.
\<close>

theorem created_bookmark_resolves:
  assumes "bookmarks_ok (gd_bookmarks db)" "tget (bk_ids (gd_bookmarks db)) bid = None"
    and "apply_create_bookmark db bid p name off db = (w, BookmarkResult b)"
  shows "resolve_bookmark w p name = Inr b \<and> cc_next_offset (cb_cursor b) = off \<and>
    off \<le> next_offset (gd_log db) p \<and>
    ((q, n) \<noteq> (p, name) \<longrightarrow> resolve_bookmark w q n = resolve_bookmark db q n)"
proof -
  have b: "b = CommittedBookmark_published bid name
      \<lparr>cc_cluster = gi_cluster_id (gd_identity db), cc_partition = p, cc_next_offset = off\<rparr>
      (saturating_add (bookmark_publication_of (gd_bookmarks db) p) 1)"
    and w: "w = db\<lparr>gd_bookmarks := put_bookmark b (gd_bookmarks db)\<rparr>"
    and off: "off \<le> next_offset (gd_log db) p"
    using assms(2,3)
    by (auto simp: apply_create_bookmark_def create_bookmark_record_def Let_def not_less
        split: if_splits)
  have "i \<noteq> bid" if "tget (bk_names (gd_bookmarks db)) (q, n) = Some i" for i
    using bookmarks_okD(5) [OF assms(1) that] assms(2) by auto
  with b w off show ?thesis
    by (auto simp: resolve_bookmark_def bookmark_by_id_def CommittedBookmark_published_def
        split: option.splits)
qed

theorem created_bookmark_resolves_witness:
  "\<exists>w b. apply_create_bookmark demo_group 8 (PartitionKey 4 0) [120] 0 demo_group =
      (w, BookmarkResult b) \<and> resolve_bookmark w (PartitionKey 4 0) [120] = Inr b \<and>
    resolve_bookmark w (PartitionKey 4 0) [121] = resolve_bookmark demo_group (PartitionKey 4 0) [121]"
proof -
  obtain w b where c: "apply_create_bookmark demo_group 8 (PartitionKey 4 0) [120] 0 demo_group =
      (w, BookmarkResult b)"
    by (simp add: apply_create_bookmark_def create_bookmark_record_def kind_is_data_def Let_def
        GroupIdentity_new_def demo_bookmark_def CommittedBookmark_published_def)
  from created_bookmark_resolves [OF demo_group_bookmarks _ c, of "PartitionKey 4 0" "[121]"] c
  show ?thesis by (simp add: demo_bookmark_def CommittedBookmark_published_def)
qed

text \<open>
  C24. Reading pages with the returned \<open>next_before\<close> misses and repeats nothing: the items of a page
  followed by what lies before its \<open>next_before\<close> is all that lay before the page's own bound, and a
  page without \<open>next_before\<close> holds all of it. What lies before a bound is every available bookmark of
  the partition below it, newest first.
\<close>

theorem bookmark_pages_complete:
  assumes "bookmarks_ok (gd_bookmarks db)" "list_bookmarks db r = Inr page" "0 < bpr_limit r"
    and "ceiling = bp_publication_ceiling page"
    and "before = (case bpr_before r of None \<Rightarrow> saturating_add ceiling 1 | Some k \<Rightarrow> k)"
  shows "bp_items page @ (case bp_next_before page of None \<Rightarrow> []
      | Some k \<Rightarrow> bookmarks_before (gd_bookmarks db) (bpr_partition r) ceiling k) =
      bookmarks_before (gd_bookmarks db) (bpr_partition r) ceiling before \<and>
    set (bookmarks_before (gd_bookmarks db) (bpr_partition r) ceiling before) =
      {b. tget (bk_ids (gd_bookmarks db)) (cb_id b) = Some b \<and> cb_lifecycle b = BookmarkAvailable \<and>
        cc_partition (cb_cursor b) = bpr_partition r \<and> cb_publication b \<le> ceiling \<and>
        cb_publication b < before}"
proof -
  let ?all = "bookmarks_before (gd_bookmarks db) (bpr_partition r) ceiling before"
  let ?n = "unat (bpr_limit r)"
  have srt: "sort_key (\<lambda>b. - int (unat (cb_publication b))) (take ?n ?all) = take ?n ?all"
    using bookmarks_before_descending [OF assms(1)]
    by (intro sort_key_descending sorted_wrt_take)
  have page: "page = \<lparr>bp_items = take ?n ?all, bp_publication_ceiling = ceiling,
      bp_next_before = (if length (take ?n ?all) = ?n then map_option cb_publication
        (case take ?n ?all of [] \<Rightarrow> None | _ \<Rightarrow> Some (last (take ?n ?all))) else None)\<rparr>"
    using list_bookmarks_page [OF assms(2,4,5)] unfolding srt .
  have items: "bp_items page = take ?n ?all"
    and nxt: "bp_next_before page = (if length (take ?n ?all) = ?n then map_option cb_publication
      (case take ?n ?all of [] \<Rightarrow> None | _ \<Rightarrow> Some (last (take ?n ?all))) else None)"
    by (simp_all only: page BookmarkPage.simps)
  have "take ?n ?all @ (case bp_next_before page of None \<Rightarrow> []
      | Some k \<Rightarrow> bookmarks_before (gd_bookmarks db) (bpr_partition r) ceiling k) = ?all"
  proof (cases "length (take ?n ?all) = ?n")
    case True
    have "0 < ?n" using assms(3) by (simp add: word_less_nat_alt)
    with True have ne: "take ?n ?all \<noteq> []" by (metis length_greater_0_conv)
    define b where "b = last (take ?n ?all)"
    have "butlast (take ?n ?all) @ [b] = take ?n ?all"
      unfolding b_def by (rule append_butlast_last_id [OF ne])
    then have "butlast (take ?n ?all) @ [b] @ drop ?n ?all = ?all"
      by (metis append.assoc append_take_drop_id)
    from bookmarks_before_split [OF assms(1) this]
    have "bookmarks_before (gd_bookmarks db) (bpr_partition r) ceiling (cb_publication b) =
      drop ?n ?all" .
    moreover have "bp_next_before page = Some (cb_publication b)"
      using nxt True ne by (simp add: b_def split: list.splits)
    ultimately show ?thesis by simp
  next
    case False
    then have "take ?n ?all = ?all" by simp
    moreover have "bp_next_before page = None" unfolding nxt if_not_P [OF False] ..
    ultimately show ?thesis by simp
  qed
  moreover have "set ?all = {b. tget (bk_ids (gd_bookmarks db)) (cb_id b) = Some b \<and>
      cb_lifecycle b = BookmarkAvailable \<and> cc_partition (cb_cursor b) = bpr_partition r \<and>
      cb_publication b \<le> ceiling \<and> cb_publication b < before}"
    using scan_bookmarks_set [OF assms(1)] by (auto simp: bookmarks_before_def)
  ultimately show ?thesis using items by simp
qed

theorem bookmark_pages_complete_witness:
  "\<exists>page. list_bookmarks demo_group \<lparr>bpr_partition = PartitionKey 4 0, bpr_limit = 1,
      bpr_publication_ceiling = None, bpr_before = None\<rparr> = Inr page \<and>
    bp_items page @ (case bp_next_before page of None \<Rightarrow> []
      | Some k \<Rightarrow> bookmarks_before (gd_bookmarks demo_group) (PartitionKey 4 0)
          (bp_publication_ceiling page) k) =
      bookmarks_before (gd_bookmarks demo_group) (PartitionKey 4 0) (bp_publication_ceiling page)
        (saturating_add (bp_publication_ceiling page) 1)"
proof -
  let ?r = "\<lparr>bpr_partition = PartitionKey 4 0, bpr_limit = 1,
      bpr_publication_ceiling = None, bpr_before = None\<rparr>"
  obtain page where p: "list_bookmarks demo_group ?r = Inr page"
    by (simp add: list_bookmarks_def Let_def)
  have "0 < bpr_limit ?r" by simp
  note all = conjunct1 [OF bookmark_pages_complete [OF demo_group_bookmarks p this refl refl],
      unfolded BookmarkPageRequest.simps option.case]
  show ?thesis using p all by (intro exI [of _ page] conjI)
qed

end
