(* ===== verification/Publish_Apply.thy ===== *)
theory Publish_Apply
  imports Bookmarks
begin

text \<open>
  Publishing in \<open>crates/light-stream-storage/src/lib.rs\<close>: the single-request handler \<open>apply_publish\<close>,
  the transaction \<open>PublishApplyTxn\<close> behind \<open>apply_publish_many\<close> with its read caches, and the replay of
  publishes while an export holds the fence. Names that start with \<open>txn_\<close> are the methods of
  \<open>PublishApplyTxn\<close>; the transaction's \<open>write\<close> is the pending state and its maps are tables.
\<close>

section \<open>Prior outcomes\<close>

definition producer_session :: "codec \<Rightarrow> group_db \<Rightarrow> PartitionKey \<Rightarrow> ProducerRequestId \<Rightarrow> SessionState"
where
  "producer_session cd db p request =
     tget_or SessionState_default (ps_sessions (gd_producers db)) (session_key cd p request)"

definition versioned_outcome ::
  "string \<Rightarrow> VersionedStoredPublishOutcome \<Rightarrow> PublishReceipt result" where
  "versioned_outcome fp stored =
     (if vo_fingerprint stored = fp then as_result (vo_result stored) else Inl ReceiptConflict)"

definition legacy_outcome :: "codec \<Rightarrow> PublishBatch \<Rightarrow> StoredReceipt \<Rightarrow> PublishReceipt result" where
  "legacy_outcome cd batch stored =
     (let same_bookmark = map_option cb_name (rc_bookmark (st_receipt stored)) = pb_bookmark batch
      in if st_fingerprint stored = legacy_fingerprint cd batch \<and> same_bookmark
         then Inr (st_receipt stored) else Inl ReceiptConflict)"

definition prior_publish_outcome ::
  "codec \<Rightarrow> group_db \<Rightarrow> PublishBatch \<Rightarrow> PublishReceipt result option" where
  "prior_publish_outcome cd db batch =
     (case tget (ps_receipts (gd_producers db))
        (receipt_key cd (pb_partition batch) (pb_request batch)) of
        None \<Rightarrow> None
      | Some (VersionedOutcome stored) \<Rightarrow> Some (versioned_outcome (fingerprint cd batch) stored)
      | Some (LegacyOutcome stored) \<Rightarrow> Some (legacy_outcome cd batch stored))"

definition publish_expired :: "codec \<Rightarrow> group_db \<Rightarrow> PublishBatch \<Rightarrow> bool" where
  "publish_expired cd db batch \<longleftrightarrow>
     sequence_expired (pr_sequence (pb_request batch))
       (producer_session cd db (pb_partition batch) (pb_request batch))"

section \<open>Appending records\<close>

text \<open>
  The record loop of both publish paths: the payload of each record, stored when its log entry was
  appended, becomes owned by the active bank, and the record is indexed with its byte position.
\<close>

definition index_record ::
  "StateBank \<Rightarrow> PartitionKey \<Rightarrow> u64 \<Rightarrow> bytes \<Rightarrow> PayloadOwners \<Rightarrow> nat \<Rightarrow> u64 \<Rightarrow> log_state \<Rightarrow> log_state"
where
  "index_record bank p off key owners len position w =
     w\<lparr>lg_owners := tput (lg_owners w) key (set_applied_in owners bank True),
       lg_records := tput (lg_records w) (p, off)
         \<lparr>sr_payload_key = key, sr_payload_bytes = of_nat len, sr_cumulative_end_bytes = position\<rparr>\<rparr>"

fun append_records ::
  "GroupLogId \<Rightarrow> StateBank \<Rightarrow> log_state \<Rightarrow> PartitionKey \<Rightarrow> u64 \<Rightarrow> nat \<Rightarrow> nat \<Rightarrow> bytes list
   \<Rightarrow> PartitionRetentionState \<times> log_state \<Rightarrow> (PartitionRetentionState \<times> log_state) io" where
  "append_records l bank dblog p first slot0 i [] acc = Inr acc"
| "append_records l bank dblog p first slot0 i (r # rs) (ret, w) =
     bind_result (ok_or ''publish payload slot overflow'' (usize_checked_add slot0 i)) (\<lambda>slot.
     bind_result (ok_or ''applied entry payload is missing ownership''
       (tget (lg_owners dblog) (payload_id l slot))) (\<lambda>owners.
     bind_result (ok_or ''partition byte position overflow''
       (checked_add (pr_next_byte_position ret) (of_nat (length r)))) (\<lambda>position.
     append_records l bank dblog p first slot0 (Suc i) rs
       (ret\<lparr>pr_next_byte_position := position\<rparr>,
        index_record bank p (first + of_nat i) (payload_id l slot) owners (length r) position w))))"

text \<open>The writes after the loop: the tail and the retention state of the partition.\<close>

definition finish_append ::
  "PartitionKey \<Rightarrow> u64 \<Rightarrow> PartitionRetentionState \<Rightarrow> log_state \<Rightarrow> log_state" where
  "finish_append p tail ret w =
     w\<lparr>lg_next_offset := tput (lg_next_offset w) p tail,
       lg_retention := tput (lg_retention w) p ret\<rparr>"

text \<open>The receipt window of the producer, on the pending state.\<close>

definition push_session ::
  "codec \<Rightarrow> nat \<Rightarrow> PublishBatch \<Rightarrow> SessionState \<Rightarrow> producer_state \<Rightarrow> producer_state" where
  "push_session cd window batch session ps =
     (let (s, expired) = session_push window (pr_sequence (pb_request batch)) session
      in ps\<lparr>ps_receipts := (case expired of
                None \<Rightarrow> ps_receipts ps
              | Some q \<Rightarrow> tdel (ps_receipts ps)
                  (receipt_key cd (pb_partition batch) ((pb_request batch)\<lparr>pr_sequence := q\<rparr>))),
            ps_sessions := tput (ps_sessions ps)
              (session_key cd (pb_partition batch) (pb_request batch)) s\<rparr>)"

section \<open>The single-request handler\<close>

definition apply_publish ::
  "codec \<Rightarrow> group_db \<Rightarrow> GroupLogId \<Rightarrow> PublishBatch \<Rightarrow> group_db \<Rightarrow> ApplyResult applied" where
  "apply_publish cd db l batch w =
     (if \<not> kind_is_data db
      then Inr (w, Rejected (IdentityMismatch ''publish reached the control group''))
      else case ct_bootstrap (gd_catalog db) of
        None \<Rightarrow> Inr (w, Rejected NotBootstrapped)
      | Some spec \<Rightarrow>
        if pb_cluster batch \<noteq> gi_cluster_id (gd_identity db) \<or> pb_cluster batch \<noteq> bs_cluster spec
        then Inr (w, Rejected (IdentityMismatch ''publish cluster does not match the data group''))
        else
          (let p = pb_partition batch; fp = legacy_fingerprint cd batch;
               key = receipt_key cd p (pb_request batch)
           in case tget (ps_receipts (gd_producers db)) key of
             Some (VersionedOutcome _) \<Rightarrow> Inl ''stored value is not a receipt''
           | Some (LegacyOutcome existing) \<Rightarrow>
               Inr (w, if st_fingerprint existing = fp then Published (st_receipt existing)
                       else Rejected ReceiptConflict)
           | None \<Rightarrow>
             if publish_expired cd db batch then Inr (w, Rejected ReceiptExpired)
             else
               (let first = next_offset (gd_log db) p; count = of_nat (length (pb_records batch))
                in case CommittedRecordRange_new p first count of
                  Inl (InvalidRange reason) \<Rightarrow> Inl (''invalid committed range: '' @ reason)
                | Inl _ \<Rightarrow> Inl ''invalid committed range''
                | Inr committed \<Rightarrow>
                  (case (case pb_bookmark batch of
                       None \<Rightarrow> Inr (w, None)
                     | Some name \<Rightarrow>
                         (case create_bookmark_record db (bookmark_id cd l) p name
                            (first + count) (first + count) w of
                            (w', BookmarkResult b) \<Rightarrow> Inr (w', Some b)
                          | (w', r) \<Rightarrow> Inl (w', r))) of
                    Inl (w', Rejected e) \<Rightarrow> Inr (w', Rejected e)
                  | Inl _ \<Rightarrow> Inl ''unexpected bookmark apply result''
                  | Inr (w', bookmark) \<Rightarrow>
                      bind_result (append_records l (gd_active_bank db) (gd_log db) p first 0 0
                        (pb_records batch) (retention_of (gd_log db) p, gd_log w')) (\<lambda>(ret, lg).
                      (let receipt = \<lparr>rc_request = pb_request batch, rc_range = committed,
                             rc_bookmark = bookmark\<rparr>;
                           ps = gd_producers w';
                           ps = ps\<lparr>ps_receipts := tput (ps_receipts ps) key
                             (LegacyOutcome \<lparr>st_fingerprint = fp, st_receipt = receipt\<rparr>)\<rparr>;
                           ps = push_session cd (gd_receipt_window db) batch
                             (producer_session cd db p (pb_request batch)) ps
                       in Inr (w'\<lparr>gd_log := finish_append p (first + count) ret lg,
                                  gd_producers := ps\<rparr>, Published receipt)))))))"

section \<open>The transaction of a replicated batch\<close>

record publish_txn =
  tx_write :: group_db
  tx_next_offsets :: "(PartitionKey, u64) table"
  tx_retentions :: "(PartitionKey, PartitionRetentionState) table"
  tx_sessions :: "(bytes, SessionState) table"
  tx_outcomes :: "(bytes, VersionedStoredPublishOutcome) table"
  tx_bookmark_names :: "(PartitionKey \<times> BookmarkName, BookmarkId option) table"
  tx_bookmark_ids :: "(BookmarkId, CommittedBookmark option) table"
  tx_bookmark_publications :: "(PartitionKey, u64) table"

definition PublishApplyTxn_new :: "group_db \<Rightarrow> publish_txn" where
  "PublishApplyTxn_new w =
     \<lparr>tx_write = w, tx_next_offsets = [], tx_retentions = [], tx_sessions = [], tx_outcomes = [],
      tx_bookmark_names = [], tx_bookmark_ids = [], tx_bookmark_publications = []\<rparr>"

definition txn_prior_outcome ::
  "codec \<Rightarrow> group_db \<Rightarrow> publish_txn \<Rightarrow> PublishBatch \<Rightarrow> bytes \<Rightarrow> string
   \<Rightarrow> PublishReceipt result option" where
  "txn_prior_outcome cd db tx batch key fp =
     (case tget (tx_outcomes tx) key of
        Some stored \<Rightarrow> Some (versioned_outcome fp stored)
      | None \<Rightarrow>
          (case tget (ps_receipts (gd_producers db)) key of
             None \<Rightarrow> None
           | Some (VersionedOutcome stored) \<Rightarrow> Some (versioned_outcome fp stored)
           | Some (LegacyOutcome stored) \<Rightarrow> Some (legacy_outcome cd batch stored)))"

definition txn_session :: "group_db \<Rightarrow> publish_txn \<Rightarrow> bytes \<Rightarrow> SessionState \<times> publish_txn" where
  "txn_session db tx key =
     (case tget (tx_sessions tx) key of
        Some session \<Rightarrow> (session, tx)
      | None \<Rightarrow>
          (let session = tget_or SessionState_default (ps_sessions (gd_producers db)) key
           in (session, tx\<lparr>tx_sessions := tput (tx_sessions tx) key session\<rparr>)))"

definition txn_store_outcome ::
  "bytes \<Rightarrow> string \<Rightarrow> StoredPublishResult \<Rightarrow> publish_txn \<Rightarrow> publish_txn" where
  "txn_store_outcome key fp result tx =
     (let stored = \<lparr>vo_fingerprint = fp, vo_result = result\<rparr>; w = tx_write tx; ps = gd_producers w
      in tx\<lparr>tx_write := w\<lparr>gd_producers :=
              ps\<lparr>ps_receipts := tput (ps_receipts ps) key (VersionedOutcome stored)\<rparr>\<rparr>,
            tx_outcomes := tput (tx_outcomes tx) key stored\<rparr>)"

definition txn_advance_session ::
  "codec \<Rightarrow> group_db \<Rightarrow> PublishBatch \<Rightarrow> bytes \<Rightarrow> SessionState \<Rightarrow> publish_txn \<Rightarrow> publish_txn" where
  "txn_advance_session cd db batch skey session tx =
     (let (s, expired) = session_push (gd_receipt_window db) (pr_sequence (pb_request batch)) session;
          w = tx_write tx; ps = gd_producers w;
          expired_key = (\<lambda>q. receipt_key cd (pb_partition batch) ((pb_request batch)\<lparr>pr_sequence := q\<rparr>))
      in tx\<lparr>tx_outcomes := (case expired of None \<Rightarrow> tx_outcomes tx
              | Some q \<Rightarrow> tdel (tx_outcomes tx) (expired_key q)),
            tx_write := w\<lparr>gd_producers := ps
              \<lparr>ps_receipts := (case expired of None \<Rightarrow> ps_receipts ps
                 | Some q \<Rightarrow> tdel (ps_receipts ps) (expired_key q)),
               ps_sessions := tput (ps_sessions ps) skey s\<rparr>\<rparr>,
            tx_sessions := tput (tx_sessions tx) skey s\<rparr>)"

definition txn_bookmark_name_is_used ::
  "group_db \<Rightarrow> publish_txn \<Rightarrow> PartitionKey \<Rightarrow> BookmarkName \<Rightarrow> bool \<times> publish_txn" where
  "txn_bookmark_name_is_used db tx p name =
     (case tget (tx_bookmark_names tx) (p, name) of
        Some existing \<Rightarrow> (existing \<noteq> None, tx)
      | None \<Rightarrow>
          (let existing = tget (bk_names (gd_bookmarks db)) (p, name)
           in (existing \<noteq> None,
               tx\<lparr>tx_bookmark_names := tput (tx_bookmark_names tx) (p, name) existing\<rparr>)))"

definition txn_create_publish_bookmark ::
  "codec \<Rightarrow> group_db \<Rightarrow> GroupLogId \<Rightarrow> nat \<Rightarrow> PartitionKey \<Rightarrow> BookmarkName \<Rightarrow> RecordOffset \<Rightarrow> publish_txn
   \<Rightarrow> (publish_txn \<times> CommittedBookmark result) io" where
  "txn_create_publish_bookmark cd db l ordinal p name off tx =
     (let bid = publish_bookmark_id cd l (Some ordinal);
          existing = (case tget (tx_bookmark_ids tx) bid of
              Some e \<Rightarrow> e | None \<Rightarrow> tget (bk_ids (gd_bookmarks db)) bid);
          tx = tx\<lparr>tx_bookmark_ids := tput (tx_bookmark_ids tx) bid existing\<rparr>
      in if existing \<noteq> None then Inr (tx, Inl BookmarkNameConflict)
         else
           (let current = (case tget (tx_bookmark_publications tx) p of
                  Some k \<Rightarrow> k | None \<Rightarrow> bookmark_publication_of (gd_bookmarks db) p)
            in bind_result (ok_or ''bookmark publication sequence overflow'' (checked_add current 1))
              (\<lambda>publication.
              (let bookmark = CommittedBookmark_published bid name
                     \<lparr>cc_cluster = gi_cluster_id (gd_identity db), cc_partition = p,
                      cc_next_offset = off\<rparr> publication;
                   w = tx_write tx
               in Inr (tx\<lparr>tx_bookmark_publications := tput (tx_bookmark_publications tx) p publication,
                          tx_write := w\<lparr>gd_bookmarks := put_bookmark bookmark (gd_bookmarks w)\<rparr>,
                          tx_bookmark_names := tput (tx_bookmark_names tx) (p, name) (Some bid),
                          tx_bookmark_ids := tput (tx_bookmark_ids tx) bid (Some bookmark)\<rparr>,
                       Inr bookmark)))))"

text \<open>The end of every stored rejection: the outcome is recorded and the session advances.\<close>

definition txn_reject ::
  "codec \<Rightarrow> group_db \<Rightarrow> PublishBatch \<Rightarrow> SessionState \<Rightarrow> StoredPublishRejection \<Rightarrow> publish_txn
   \<Rightarrow> publish_txn \<times> PublishItemOutcome" where
  "txn_reject cd db batch session rejection tx =
     (let key = receipt_key cd (pb_partition batch) (pb_request batch);
          skey = session_key cd (pb_partition batch) (pb_request batch);
          tx = txn_store_outcome key (fingerprint cd batch) (StoredRejected rejection) tx;
          tx = txn_advance_session cd db batch skey session tx
      in (tx, \<lparr>io_request = pb_request batch, io_result = as_result (StoredRejected rejection)\<rparr>))"

definition txn_next_offset :: "group_db \<Rightarrow> publish_txn \<Rightarrow> PartitionKey \<Rightarrow> u64" where
  "txn_next_offset db tx p =
     (case tget (tx_next_offsets tx) p of Some k \<Rightarrow> k | None \<Rightarrow> next_offset (gd_log db) p)"

definition txn_retention :: "group_db \<Rightarrow> publish_txn \<Rightarrow> PartitionKey \<Rightarrow> PartitionRetentionState" where
  "txn_retention db tx p =
     (case tget (tx_retentions tx) p of Some r \<Rightarrow> r | None \<Rightarrow> retention_of (gd_log db) p)"

text \<open>\<open>try_fold\<close> over the record sizes.\<close>

fun added_payload_bytes :: "u64 \<Rightarrow> bytes list \<Rightarrow> u64 io" where
  "added_payload_bytes acc [] = Inr acc"
| "added_payload_bytes acc (r # rs) =
     bind_result (ok_or ''publish payload byte count overflow'' (checked_add acc (of_nat (length r))))
       (\<lambda>acc'. added_payload_bytes acc' rs)"

text \<open>The last part of \<open>apply_one\<close>, once the bookmark is settled: append, then record the outcome.\<close>

definition txn_commit ::
  "codec \<Rightarrow> group_db \<Rightarrow> GroupLogId \<Rightarrow> nat \<Rightarrow> PublishBatch \<Rightarrow> SessionState \<Rightarrow> u64 \<Rightarrow> CommittedRecordRange
   \<Rightarrow> PartitionRetentionState \<Rightarrow> CommittedBookmark option \<Rightarrow> publish_txn
   \<Rightarrow> (publish_txn \<times> PublishItemOutcome) io" where
  "txn_commit cd db l slot0 batch session first committed ret bookmark tx =
     (let p = pb_partition batch; count = of_nat (length (pb_records batch)); w = tx_write tx
      in bind_result (append_records l (gd_active_bank db) (gd_log db) p first slot0 0
           (pb_records batch) (ret, gd_log w)) (\<lambda>(ret', lg).
         (let tx = tx\<lparr>tx_write := w\<lparr>gd_log := finish_append p (first + count) ret' lg\<rparr>,
                      tx_next_offsets := tput (tx_next_offsets tx) p (first + count),
                      tx_retentions := tput (tx_retentions tx) p ret'\<rparr>;
              receipt = \<lparr>rc_request = pb_request batch, rc_range = committed, rc_bookmark = bookmark\<rparr>;
              tx = txn_store_outcome (receipt_key cd p (pb_request batch)) (fingerprint cd batch)
                (StoredPublished receipt) tx;
              tx = txn_advance_session cd db batch (session_key cd p (pb_request batch)) session tx
          in Inr (tx, \<lparr>io_request = pb_request batch, io_result = Inr receipt\<rparr>))))"

text \<open>The part of \<open>apply_one\<close> that follows the check of the bookmark name.\<close>

definition txn_publish ::
  "codec \<Rightarrow> group_db \<Rightarrow> GroupLogId \<Rightarrow> nat \<Rightarrow> nat \<Rightarrow> PublishBatch \<Rightarrow> SessionState \<Rightarrow> publish_txn
   \<Rightarrow> (publish_txn \<times> PublishItemOutcome) io" where
  "txn_publish cd db l ordinal slot0 batch session tx =
     (let p = pb_partition batch; first = txn_next_offset db tx p;
          tx = tx\<lparr>tx_next_offsets := tput (tx_next_offsets tx) p first\<rparr>;
          count = of_nat (length (pb_records batch))
      in case CommittedRecordRange_new p first count of
           Inl (InvalidRange reason) \<Rightarrow>
             Inr (txn_reject cd db batch session (RejInvalidRange reason) tx)
         | Inl _ \<Rightarrow> Inl ''invalid committed range''
         | Inr committed \<Rightarrow>
           (let ret = txn_retention db tx p;
                tx = tx\<lparr>tx_retentions := tput (tx_retentions tx) p ret\<rparr>
            in bind_result (added_payload_bytes 0 (pb_records batch)) (\<lambda>added.
              if checked_add (pr_next_byte_position ret) added = None
              then Inr (txn_reject cd db batch session
                (RejInvalidRange ''partition byte position overflow'') tx)
              else case pb_bookmark batch of
                None \<Rightarrow> txn_commit cd db l slot0 batch session first committed ret None tx
              | Some name \<Rightarrow>
                  bind_result (txn_create_publish_bookmark cd db l ordinal p name
                    (first + count) tx) (\<lambda>(tx, created).
                  case created of
                    Inl _ \<Rightarrow> Inr (txn_reject cd db batch session RejBookmarkNameConflict tx)
                  | Inr bookmark \<Rightarrow>
                      txn_commit cd db l slot0 batch session first committed ret
                        (Some bookmark) tx))))"

definition txn_apply_one ::
  "codec \<Rightarrow> group_db \<Rightarrow> GroupLogId \<Rightarrow> nat \<Rightarrow> nat \<Rightarrow> PublishBatch \<Rightarrow> publish_txn
   \<Rightarrow> (publish_txn \<times> PublishItemOutcome) io" where
  "txn_apply_one cd db l ordinal slot0 batch tx =
     (let p = pb_partition batch; request = pb_request batch
      in if pb_cluster batch \<noteq> gi_cluster_id (gd_identity db)
         then Inr (tx, \<lparr>io_request = request, io_result =
           Inl (IdentityMismatch ''publish cluster does not match the data group'')\<rparr>)
         else case txn_prior_outcome cd db tx batch (receipt_key cd p request) (fingerprint cd batch) of
           Some result \<Rightarrow> Inr (tx, \<lparr>io_request = request, io_result = result\<rparr>)
         | None \<Rightarrow>
           (let (session, tx) = txn_session db tx (session_key cd p request)
            in if sequence_expired (pr_sequence request) session
               then Inr (tx, \<lparr>io_request = request, io_result = Inl ReceiptExpired\<rparr>)
               else
                 (let (used, tx) = (case pb_bookmark batch of
                      None \<Rightarrow> (False, tx)
                    | Some name \<Rightarrow> txn_bookmark_name_is_used db tx p name)
                  in if used then Inr (txn_reject cd db batch session RejBookmarkNameConflict tx)
                     else txn_publish cd db l ordinal slot0 batch session tx)))"

text \<open>The loop of \<open>apply_publish_many\<close>; \<open>ordinal\<close> is the number of outcomes so far.\<close>

fun publish_many_loop ::
  "codec \<Rightarrow> group_db \<Rightarrow> GroupLogId \<Rightarrow> ClusterId \<Rightarrow> nat \<Rightarrow> nat \<Rightarrow> PublishBatch list \<Rightarrow> publish_txn
   \<Rightarrow> (publish_txn \<times> PublishItemOutcome list) io" where
  "publish_many_loop cd db l cluster ordinal slot [] tx = Inr (tx, [])"
| "publish_many_loop cd db l cluster ordinal slot (b # bs) tx =
     bind_result
       (if pb_cluster b \<noteq> cluster
        then Inr (tx, \<lparr>io_request = pb_request b, io_result =
          Inl (IdentityMismatch ''publish cluster does not match the data group'')\<rparr>)
        else txn_apply_one cd db l ordinal slot b tx) (\<lambda>(tx, outcome).
     bind_result (ok_or ''publish payload slot overflow''
       (usize_checked_add slot (length (pb_records b)))) (\<lambda>slot.
     bind_result (publish_many_loop cd db l cluster (Suc ordinal) slot bs tx) (\<lambda>(tx, outcomes).
     Inr (tx, outcome # outcomes))))"

definition apply_publish_many ::
  "codec \<Rightarrow> group_db \<Rightarrow> GroupLogId \<Rightarrow> PublishBatch list \<Rightarrow> group_db \<Rightarrow> ApplyResult applied" where
  "apply_publish_many cd db l batches w =
     (if \<not> kind_is_data db
      then Inr (w, Rejected (IdentityMismatch ''publish reached the control group''))
      else case ct_bootstrap (gd_catalog db) of
        None \<Rightarrow> Inr (w, Rejected NotBootstrapped)
      | Some spec \<Rightarrow>
          bind_result (publish_many_loop cd db l (bs_cluster spec) 0 0 batches (PublishApplyTxn_new w))
            (\<lambda>(tx, outcomes). Inr (tx_write tx, PublishedMany outcomes)))"

section \<open>Replay while an export holds the fence\<close>

definition replay_publish :: "codec \<Rightarrow> group_db \<Rightarrow> PublishBatch \<Rightarrow> ApplyResult option" where
  "replay_publish cd db batch =
     (case prior_publish_outcome cd db batch of
        None \<Rightarrow> if publish_expired cd db batch then Some (Rejected ReceiptExpired) else None
      | Some (Inr receipt) \<Rightarrow> Some (Published receipt)
      | Some (Inl e) \<Rightarrow> Some (Rejected e))"

definition replay_item ::
  "codec \<Rightarrow> group_db \<Rightarrow> ExportId \<Rightarrow> PublishBatch \<Rightarrow> bool \<times> PublishItemOutcome" where
  "replay_item cd db export publish =
     (case prior_publish_outcome cd db publish of
        Some result \<Rightarrow> (True, \<lparr>io_request = pb_request publish, io_result = result\<rparr>)
      | None \<Rightarrow>
          if publish_expired cd db publish
          then (True, \<lparr>io_request = pb_request publish, io_result = Inl ReceiptExpired\<rparr>)
          else (False, \<lparr>io_request = pb_request publish,
                 io_result = Inl (ExportInProgress export DefiniteNoCommit)\<rparr>))"

definition replay_publish_many ::
  "codec \<Rightarrow> group_db \<Rightarrow> PublishBatch list \<Rightarrow> ExportId \<Rightarrow> ApplyResult" where
  "replay_publish_many cd db batches export =
     (let items = map (replay_item cd db export) batches
      in if list_ex fst items then PublishedMany (map snd items)
         else Rejected (ExportInProgress export DefiniteNoCommit))"

section \<open>Reading receipts\<close>

definition reader_receipt ::
  "codec \<Rightarrow> group_db \<Rightarrow> PartitionKey \<Rightarrow> ProducerRequestId \<Rightarrow> PublishReceipt result" where
  "reader_receipt cd db p request =
     (case tget (ps_receipts (gd_producers db)) (receipt_key cd p request) of
        None \<Rightarrow> Inl ReceiptNotFound
      | Some (LegacyOutcome stored) \<Rightarrow> Inr (st_receipt stored)
      | Some (VersionedOutcome stored) \<Rightarrow> as_result (vo_result stored))"

end
