(* ===== verification/Log_Invariant.thy ===== *)
theory Log_Invariant
  imports Group_State
begin

text \<open>
  The integrity of a partition's record index. \<open>chain_ok f ret tail\<close> speaks of the records \<open>f\<close> of one
  partition, its retention state and its tail: reclaim cursor, floor and tail are ordered, every
  offset from the floor to the tail has a record and none lies at or past the tail, and the stored
  byte positions are those of one byte-position function \<open>pos\<close>, at the records, the floor and the
  tail. The lemmas say what each primitive update of the index does to it.
\<close>

definition chain_with ::
  "(nat \<Rightarrow> nat) \<Rightarrow> (u64 \<Rightarrow> StoredRecord option) \<Rightarrow> PartitionRetentionState \<Rightarrow> u64 \<Rightarrow> bool" where
  "chain_with pos f ret tail \<longleftrightarrow>
     pos 0 = 0 \<and>
     pr_reclaim_cursor ret \<le> pr_logical_floor ret \<and> pr_logical_floor ret \<le> tail \<and>
     unat (pr_floor_byte_position ret) = pos (unat (pr_logical_floor ret)) \<and>
     unat (pr_next_byte_position ret) = pos (unat tail) \<and>
     (\<forall>off r. f off = Some r \<longrightarrow> off < tail \<and>
        unat (sr_cumulative_end_bytes r) = pos (unat off + 1) \<and>
        pos (unat off) + unat (sr_payload_bytes r) = pos (unat off + 1)) \<and>
     (\<forall>off. pr_logical_floor ret \<le> off \<and> off < tail \<longrightarrow> f off \<noteq> None)"

definition chain_ok :: "(u64 \<Rightarrow> StoredRecord option) \<Rightarrow> PartitionRetentionState \<Rightarrow> u64 \<Rightarrow> bool" where
  "chain_ok f ret tail \<longleftrightarrow> (\<exists>pos. chain_with pos f ret tail)"

definition records_of :: "log_state \<Rightarrow> PartitionKey \<Rightarrow> u64 \<Rightarrow> StoredRecord option" where
  "records_of lg p off = tget (lg_records lg) (p, off)"

definition partition_ok :: "log_state \<Rightarrow> PartitionKey \<Rightarrow> bool" where
  "partition_ok lg p \<longleftrightarrow> chain_ok (records_of lg p) (retention_of lg p) (next_offset lg p)"

definition log_ok :: "log_state \<Rightarrow> bool" where
  "log_ok lg \<longleftrightarrow> tsorted (lg_records lg) \<and> (\<forall>p. partition_ok lg p)"

lemma chain_withD:
  assumes "chain_with pos f ret tail"
  shows "pos 0 = 0" "pr_reclaim_cursor ret \<le> pr_logical_floor ret" "pr_logical_floor ret \<le> tail"
    "unat (pr_floor_byte_position ret) = pos (unat (pr_logical_floor ret))"
    "unat (pr_next_byte_position ret) = pos (unat tail)"
  using assms by (simp_all add: chain_with_def)

lemma chain_record:
  assumes "chain_with pos f ret tail" "f off = Some r"
  shows "off < tail" "unat (sr_cumulative_end_bytes r) = pos (unat off + 1)"
    "pos (unat off) + unat (sr_payload_bytes r) = pos (unat off + 1)"
  using assms unfolding chain_with_def by blast+

lemma chain_present:
  assumes "chain_with pos f ret tail" "pr_logical_floor ret \<le> off" "off < tail"
  obtains r where "f off = Some r"
  using assms unfolding chain_with_def by blast

lemma chain_ok_empty: "chain_ok (\<lambda>_. None) PartitionRetentionState_default 0"
  unfolding chain_ok_def
  by (rule exI [of _ "\<lambda>_. 0"]) (simp add: chain_with_def PartitionRetentionState_default_def)

lemma log_ok_empty: "log_ok empty_log"
proof -
  have "records_of empty_log p = (\<lambda>_. None)" for p by (simp add: records_of_def empty_log_def fun_eq_iff)
  then show ?thesis
    using chain_ok_empty
    by (simp add: log_ok_def partition_ok_def retention_of_def next_offset_def empty_log_def tget_or_def)
qed

lemma log_okD: "log_ok lg \<Longrightarrow> chain_ok (records_of lg p) (retention_of lg p) (next_offset lg p)"
  by (simp add: log_ok_def partition_ok_def)

section \<open>Appending one record\<close>

lemma chain_append:
  assumes ok: "chain_ok f ret tail" and room: "unat tail + 1 < 2 ^ 64"
    and pos': "checked_add (pr_next_byte_position ret) sz = Some pos'"
  shows "chain_ok (f(tail \<mapsto> \<lparr>sr_payload_key = k, sr_payload_bytes = sz,
    sr_cumulative_end_bytes = pos'\<rparr>)) (ret\<lparr>pr_next_byte_position := pos'\<rparr>) (tail + 1)"
proof -
  from ok obtain pos where c: "chain_with pos f ret tail" by (auto simp: chain_ok_def)
  have next_tail: "unat (tail + 1) = unat tail + 1" using room by (simp add: unat_word_ariths)
  have pos_tail: "unat pos' = pos (unat tail) + unat sz"
    using pos' c by (simp add: checked_add_Some chain_with_def)
  have below: "off < tail + 1 \<longleftrightarrow> off < tail \<or> off = tail" for off
  proof -
    have "off < tail + 1 \<longleftrightarrow> off \<le> tail"
      by (simp only: word_less_nat_alt word_le_nat_alt next_tail less_Suc_eq_le Suc_eq_plus1 [symmetric])
    then show ?thesis by (simp only: order.order_iff_strict)
  qed
  have small: "unat off < unat tail" if "off < tail" for off
    using that by (simp add: word_less_nat_alt)
  let ?pos = "pos(unat tail + 1 := unat pos')"
  let ?f = "f(tail \<mapsto> \<lparr>sr_payload_key = k, sr_payload_bytes = sz, sr_cumulative_end_bytes = pos'\<rparr>)"
  have rec: "off < tail + 1 \<and> unat (sr_cumulative_end_bytes r) = ?pos (unat off + 1) \<and>
      ?pos (unat off) + unat (sr_payload_bytes r) = ?pos (unat off + 1)"
    if "?f off = Some r" for off r
  proof (cases "off = tail")
    case True
    have "r = \<lparr>sr_payload_key = k, sr_payload_bytes = sz, sr_cumulative_end_bytes = pos'\<rparr>"
      using that True by simp
    moreover have "off < tail + 1" using True below by blast
    ultimately show ?thesis using True pos_tail by simp
  next
    case False
    with that have "f off = Some r" by simp
    note r = chain_record [OF c this]
    have "off < tail + 1" using r(1) below by blast
    with small [OF r(1)] r show ?thesis by simp
  qed
  have present: "?f off \<noteq> None" if "pr_logical_floor ret \<le> off" "off < tail + 1" for off
  proof (cases "off = tail")
    case False
    with that below have "off < tail" by blast
    with that obtain r where "f off = Some r" using chain_present [OF c] by blast
    with False show ?thesis by simp
  qed simp
  have floor: "unat (pr_logical_floor ret) \<le> unat tail"
    using chain_withD(3) [OF c] by (simp add: word_le_nat_alt)
  then have "pr_logical_floor ret \<le> tail + 1" using next_tail by (simp add: word_le_nat_alt)
  then have "chain_with ?pos ?f (ret\<lparr>pr_next_byte_position := pos'\<rparr>) (tail + 1)"
    unfolding chain_with_def
  proof (intro conjI allI impI)
    show "?pos 0 = 0" using chain_withD(1) [OF c] by simp
  next
    fix off assume "pr_logical_floor (ret\<lparr>pr_next_byte_position := pos'\<rparr>) \<le> off \<and> off < tail + 1"
    then show "?f off \<noteq> None" using present by simp
  next
    show "unat (pr_next_byte_position (ret\<lparr>pr_next_byte_position := pos'\<rparr>)) = ?pos (unat (tail + 1))"
      by (simp add: next_tail)
  next
    show "unat (pr_floor_byte_position (ret\<lparr>pr_next_byte_position := pos'\<rparr>)) =
        ?pos (unat (pr_logical_floor (ret\<lparr>pr_next_byte_position := pos'\<rparr>)))"
      using floor chain_withD(4) [OF c] by simp
  qed (use rec chain_withD(2) [OF c] in blast | simp add: chain_withD(2) [OF c])+
  then show ?thesis by (auto simp: chain_ok_def)
qed

section \<open>Moving the floor\<close>

text \<open>The byte position of a new floor, as the retention handler finds it.\<close>

lemma chain_boundary:
  assumes "chain_with pos f ret tail" "pr_logical_floor ret < floor" "floor \<le> tail"
  shows "\<exists>r. f (floor - 1) = Some r \<and> unat (sr_cumulative_end_bytes r) = pos (unat floor)"
proof -
  have "unat (floor - 1) = unat floor - 1" "0 < unat floor"
    using assms(2) by (auto simp: unat_sub word_less_nat_alt word_le_nat_alt)
  moreover from this have "pr_logical_floor ret \<le> floor - 1" "floor - 1 < tail"
    using assms(2,3) by (auto simp: word_less_nat_alt word_le_nat_alt)
  ultimately show ?thesis using assms(1) by (fastforce simp: chain_with_def)
qed

lemma chain_floor:
  assumes ok: "chain_ok f ret tail" and le: "pr_logical_floor ret \<le> floor" "floor \<le> tail"
    and b: "\<And>pos. chain_with pos f ret tail \<Longrightarrow> unat b = pos (unat floor)"
  shows "chain_ok f (ret\<lparr>pr_logical_floor := floor, pr_floor_byte_position := b\<rparr>) tail"
proof -
  from ok obtain pos where c: "chain_with pos f ret tail" by (auto simp: chain_ok_def)
  with b [OF c] le have "chain_with pos f (ret\<lparr>pr_logical_floor := floor, pr_floor_byte_position := b\<rparr>) tail"
    by (auto simp: chain_with_def)
  then show ?thesis by (auto simp: chain_ok_def)
qed

section \<open>Reclaiming\<close>

text \<open>Below the floor records may go and the cursor may move anywhere up to the floor.\<close>

lemma chain_reclaim:
  assumes "chain_ok f ret tail" "pr_reclaim_cursor ret' \<le> pr_logical_floor ret"
    and "pr_logical_floor ret' = pr_logical_floor ret"
    and "pr_next_byte_position ret' = pr_next_byte_position ret"
    and "pr_floor_byte_position ret' = pr_floor_byte_position ret"
    and "\<And>off. g off = f off \<or> g off = None \<and> off < pr_logical_floor ret"
  shows "chain_ok g ret' tail"
proof -
  from assms(1) obtain pos where c: "chain_with pos f ret tail" by (auto simp: chain_ok_def)
  have sub: "g off = Some r \<Longrightarrow> f off = Some r" for off r using assms(6) [of off] by auto
  have keep: "pr_logical_floor ret \<le> off \<Longrightarrow> g off = f off" for off using assms(6) [of off] by auto
  have "chain_with pos g ret' tail"
    unfolding chain_with_def assms(3-5)
    using chain_withD [OF c] assms(2) chain_record [OF c sub] keep chain_present [OF c]
    by (metis option.distinct(1))
  then show ?thesis by (auto simp: chain_ok_def)
qed

section \<open>Byte ranges\<close>

text \<open>
  The two boundary reads of \<open>replay_range_bytes\<close> exist for a range inside the retained log and their
  difference is the payload of the range.
\<close>

lemma chain_mono:
  assumes "chain_with pos f ret tail" "unat (pr_logical_floor ret) \<le> i" "i \<le> j" "j \<le> unat tail"
  shows "pos i \<le> pos j"
  using assms(3,4)
proof (induction j rule: dec_induct)
  case (step n)
  have "n < 2 ^ 64" using step.prems unat_lt_width [of tail] by simp
  then have w: "unat (of_nat n :: u64) = n" by (simp add: unat_of_nat)
  then have "pr_logical_floor ret \<le> of_nat n" "of_nat n < tail"
    using step assms(2) by (auto simp: word_le_nat_alt word_less_nat_alt)
  then obtain r where "f (of_nat n) = Some r" using chain_present [OF assms(1)] by blast
  then have "pos n + unat (sr_payload_bytes r) = pos (Suc n)"
    using chain_record(3) [OF assms(1)] w by fastforce
  with step show ?case by simp
qed simp

lemma partition_ok_cong:
  assumes "records_of lg' p = records_of lg p" "retention_of lg' p = retention_of lg p"
    and "next_offset lg' p = next_offset lg p"
  shows "partition_ok lg' p = partition_ok lg p"
  using assms by (simp add: partition_ok_def)

end
