(* ===== verification/Publish_Log.thy ===== *)
theory Publish_Log
  imports Publish_Apply Log_Invariant
begin

text \<open>
  What publishing does to a partition. The record loop extends the index by one record per payload
  and keeps its integrity; a publish of the transaction is the cacheless step \<open>publish_one\<close> on the
  pending state, so the caches of \<open>PublishApplyTxn\<close> are an optimisation only.
\<close>

section \<open>The record loop\<close>

text \<open>The record the loop stores for payload \<open>r\<close>, up to its byte position.\<close>

definition indexes :: "StoredRecord option \<Rightarrow> bytes \<Rightarrow> bytes \<Rightarrow> bool" where
  "indexes s key r \<longleftrightarrow>
     (\<exists>v. s = Some v \<and> sr_payload_key v = key \<and> sr_payload_bytes v = of_nat (length r))"

lemma records_of_tput [simp]:
  "records_of (w\<lparr>lg_records := tput (lg_records w) (p, off) r\<rparr>) q =
    (if q = p then (records_of w p)(off \<mapsto> r) else records_of w q)"
  by (auto simp: records_of_def fun_eq_iff)

lemma records_of_other_field [simp]:
  "records_of (w\<lparr>lg_owners := x\<rparr>) = records_of w"
  "records_of (w\<lparr>lg_next_offset := y\<rparr>) = records_of w"
  "records_of (w\<lparr>lg_retention := z\<rparr>) = records_of w"
  "records_of (w\<lparr>lg_reclaim_hint := h\<rparr>) = records_of w"
  "records_of (w\<lparr>lg_payload := b\<rparr>) = records_of w"
  by (simp_all add: records_of_def fun_eq_iff)

lemma index_record_simps [simp]:
  "lg_next_offset (index_record bank p off key owners len position w) = lg_next_offset w"
  "lg_retention (index_record bank p off key owners len position w) = lg_retention w"
  "lg_reclaim_hint (index_record bank p off key owners len position w) = lg_reclaim_hint w"
  "lg_payload (index_record bank p off key owners len position w) = lg_payload w"
  "tsorted (lg_records w) \<Longrightarrow> tsorted (lg_records (index_record bank p off key owners len position w))"
  "records_of (index_record bank p off key owners len position w) q =
    (if q = p then (records_of w p)(off \<mapsto> \<lparr>sr_payload_key = key, sr_payload_bytes = of_nat len,
       sr_cumulative_end_bytes = position\<rparr>) else records_of w q)"
  by (auto simp: index_record_def records_of_def fun_eq_iff)

lemma append_records_Cons:
  "append_records l bank dblog p first slot0 i (r # rs) (ret, w) = Inr res \<longleftrightarrow>
    (\<exists>owners position. slot0 + i < 2 ^ 64 \<and> tget (lg_owners dblog) (payload_id l (slot0 + i)) = Some owners \<and>
       checked_add (pr_next_byte_position ret) (of_nat (length r)) = Some position \<and>
       append_records l bank dblog p first slot0 (Suc i) rs (ret\<lparr>pr_next_byte_position := position\<rparr>,
         index_record bank p (first + of_nat i) (payload_id l (slot0 + i)) owners (length r) position w)
       = Inr res)"
  by (auto simp: bind_result_Inr usize_checked_add_def)

lemma append_records_frame:
  assumes "append_records l bank dblog p first slot0 i rs (ret, w) = Inr (ret', w')"
  shows "lg_next_offset w' = lg_next_offset w \<and> lg_retention w' = lg_retention w \<and>
    lg_reclaim_hint w' = lg_reclaim_hint w \<and> lg_payload w' = lg_payload w \<and>
    pr_logical_floor ret' = pr_logical_floor ret \<and> pr_reclaim_cursor ret' = pr_reclaim_cursor ret \<and>
    (\<forall>q. q \<noteq> p \<longrightarrow> records_of w' q = records_of w q) \<and>
    (tsorted (lg_records w) \<longrightarrow> tsorted (lg_records w'))"
  using assms
proof (induction rs arbitrary: i ret w)
  case (Cons r rs)
  from Cons.prems obtain owners position where
    "append_records l bank dblog p first slot0 (Suc i) rs (ret\<lparr>pr_next_byte_position := position\<rparr>,
       index_record bank p (first + of_nat i) (payload_id l (slot0 + i)) owners (length r) position w)
     = Inr (ret', w')"
    unfolding append_records_Cons by blast
  from Cons.IH [OF this] show ?case by simp
qed simp

text \<open>
  The loop keeps the integrity of the partition, up to the tail it reaches, leaves the records below
  its start alone, and indexes the payload of every slot.
\<close>

lemma append_records_chain:
  assumes "append_records l bank dblog p first slot0 i rs (ret, w) = Inr (ret', w')"
    and "chain_ok (records_of w p) ret (first + of_nat i)"
    and "unat first + i + length rs < 2 ^ 64"
  shows "chain_ok (records_of w' p) ret' (first + of_nat (i + length rs)) \<and>
    (\<forall>off. unat off < unat first + i \<longrightarrow> records_of w' p off = records_of w p off) \<and>
    (\<forall>j < length rs. indexes (records_of w' p (first + of_nat (i + j))) (payload_id l (slot0 + i + j)) (rs ! j))"
  using assms
proof (induction rs arbitrary: i ret w)
  case (Cons r rs)
  from Cons.prems(1) obtain owners position where
    position: "checked_add (pr_next_byte_position ret) (of_nat (length r)) = Some position" and
    rest: "append_records l bank dblog p first slot0 (Suc i) rs (ret\<lparr>pr_next_byte_position := position\<rparr>,
       index_record bank p (first + of_nat i) (payload_id l (slot0 + i)) owners (length r) position w)
     = Inr (ret', w')"
    unfolding append_records_Cons by blast
  let ?w = "index_record bank p (first + of_nat i) (payload_id l (slot0 + i)) owners (length r) position w"
  have at: "unat (first + of_nat i) = unat first + i"
    using Cons.prems(3) by (simp add: unat_word_ariths unat_of_nat)
  have Suc: "first + of_nat (Suc i) = first + of_nat i + (1 :: u64)" by simp
  have "chain_ok (records_of ?w p) (ret\<lparr>pr_next_byte_position := position\<rparr>) (first + of_nat (Suc i))"
    unfolding Suc index_record_simps if_P [OF refl]
    by (rule chain_append [OF Cons.prems(2) _ position]) (use Cons.prems(3) at in simp)
  from Cons.IH [OF rest this] Cons.prems(3)
  have ok: "chain_ok (records_of w' p) ret' (first + of_nat (Suc i + length rs))"
    and below: "unat off < unat first + Suc i \<Longrightarrow> records_of w' p off = records_of ?w p off"
    and slots: "j < length rs \<Longrightarrow> indexes (records_of w' p (first + of_nat (Suc i + j)))
      (payload_id l (slot0 + Suc i + j)) (rs ! j)" for off j by auto
  have "indexes (records_of w' p (first + of_nat (i + j))) (payload_id l (slot0 + i + j)) ((r # rs) ! j)"
    if "j < length (r # rs)" for j
  proof (cases j)
    case 0
    with at below [of "first + of_nat i"] show ?thesis by (simp add: indexes_def)
  next
    case (Suc k)
    with that slots [of k] show ?thesis by simp
  qed
  moreover have "records_of w' p off = records_of w p off" if "unat off < unat first + i" for off
    using that below [of off] at by auto
  ultimately show ?case using ok by simp
qed simp

section \<open>The step a publish stands for\<close>

text \<open>
  One publish on the pending state, without caches: it reads everything it needs there. Payload
  ownership comes from \<open>staged\<close>, the payloads stored when the log entry was appended, and \<open>prior\<close> is
  the outcome already known for the request.
\<close>

definition publish_record ::
  "codec \<Rightarrow> PublishBatch \<Rightarrow> StoredPublishResult \<Rightarrow> group_db \<Rightarrow> group_db" where
  "publish_record cd batch result w =
     (let p = pb_partition batch; request = pb_request batch; ps = gd_producers w
      in w\<lparr>gd_producers := push_session cd (gd_receipt_window w) batch (producer_session cd w p request)
           (ps\<lparr>ps_receipts := tput (ps_receipts ps) (receipt_key cd p request)
              (VersionedOutcome \<lparr>vo_fingerprint = fingerprint cd batch, vo_result = result\<rparr>)\<rparr>)\<rparr>)"

definition publish_result ::
  "codec \<Rightarrow> PublishBatch \<Rightarrow> StoredPublishResult \<Rightarrow> group_db \<Rightarrow> group_db \<times> PublishItemOutcome" where
  "publish_result cd batch result w =
     (publish_record cd batch result w, \<lparr>io_request = pb_request batch, io_result = as_result result\<rparr>)"

definition publish_append ::
  "codec \<Rightarrow> log_state \<Rightarrow> GroupLogId \<Rightarrow> nat \<Rightarrow> PublishBatch \<Rightarrow> CommittedRecordRange
   \<Rightarrow> CommittedBookmark option \<Rightarrow> group_db \<Rightarrow> (group_db \<times> PublishItemOutcome) io" where
  "publish_append cd staged l slot0 batch committed bookmark w =
     (let p = pb_partition batch; first = next_offset (gd_log w) p
      in bind_result (append_records l (gd_active_bank w) staged p first slot0 0 (pb_records batch)
           (retention_of (gd_log w) p, gd_log w)) (\<lambda>(ret, lg).
         Inr (publish_result cd batch (StoredPublished \<lparr>rc_request = pb_request batch,
             rc_range = committed, rc_bookmark = bookmark\<rparr>)
           (w\<lparr>gd_log := finish_append p (first + of_nat (length (pb_records batch))) ret lg\<rparr>))))"

definition publish_bookmark ::
  "codec \<Rightarrow> GroupLogId \<Rightarrow> nat \<Rightarrow> PartitionKey \<Rightarrow> BookmarkName \<Rightarrow> RecordOffset \<Rightarrow> group_db
   \<Rightarrow> (group_db \<times> CommittedBookmark result) io" where
  "publish_bookmark cd l ordinal p name off w =
     (let bid = publish_bookmark_id cd l (Some ordinal)
      in if tget (bk_ids (gd_bookmarks w)) bid \<noteq> None then Inr (w, Inl BookmarkNameConflict)
         else bind_result (ok_or ''bookmark publication sequence overflow''
             (checked_add (bookmark_publication_of (gd_bookmarks w) p) 1)) (\<lambda>publication.
           (let bookmark = CommittedBookmark_published bid name
                  \<lparr>cc_cluster = gi_cluster_id (gd_identity w), cc_partition = p, cc_next_offset = off\<rparr>
                  publication
            in Inr (w\<lparr>gd_bookmarks := put_bookmark bookmark (gd_bookmarks w)\<rparr>, Inr bookmark))))"

definition publish_fresh ::
  "codec \<Rightarrow> log_state \<Rightarrow> GroupLogId \<Rightarrow> nat \<Rightarrow> nat \<Rightarrow> PublishBatch \<Rightarrow> group_db
   \<Rightarrow> (group_db \<times> PublishItemOutcome) io" where
  "publish_fresh cd staged l ordinal slot0 batch w =
     (let p = pb_partition batch; first = next_offset (gd_log w) p;
          count = of_nat (length (pb_records batch))
      in case CommittedRecordRange_new p first count of
           Inl (InvalidRange reason) \<Rightarrow>
             Inr (publish_result cd batch (StoredRejected (RejInvalidRange reason)) w)
         | Inl _ \<Rightarrow> Inl ''invalid committed range''
         | Inr committed \<Rightarrow>
             bind_result (added_payload_bytes 0 (pb_records batch)) (\<lambda>added.
             if checked_add (pr_next_byte_position (retention_of (gd_log w) p)) added = None
             then Inr (publish_result cd batch
               (StoredRejected (RejInvalidRange ''partition byte position overflow'')) w)
             else case pb_bookmark batch of
               None \<Rightarrow> publish_append cd staged l slot0 batch committed None w
             | Some name \<Rightarrow>
                 bind_result (publish_bookmark cd l ordinal p name (first + count) w) (\<lambda>(w', created).
                 case created of
                   Inl _ \<Rightarrow> Inr (publish_result cd batch (StoredRejected RejBookmarkNameConflict) w')
                 | Inr bookmark \<Rightarrow>
                     publish_append cd staged l slot0 batch committed (Some bookmark) w')))"

definition bookmark_taken :: "group_db \<Rightarrow> PublishBatch \<Rightarrow> bool" where
  "bookmark_taken w batch \<longleftrightarrow>
     (case pb_bookmark batch of
        None \<Rightarrow> False
      | Some name \<Rightarrow> tget (bk_names (gd_bookmarks w)) (pb_partition batch, name) \<noteq> None)"

definition publish_one ::
  "codec \<Rightarrow> log_state \<Rightarrow> GroupLogId \<Rightarrow> nat \<Rightarrow> nat \<Rightarrow> PublishBatch \<Rightarrow> PublishReceipt result option
   \<Rightarrow> group_db \<Rightarrow> (group_db \<times> PublishItemOutcome) io" where
  "publish_one cd staged l ordinal slot0 batch prior w =
     (let answer = (\<lambda>r. Inr (w, \<lparr>io_request = pb_request batch, io_result = r\<rparr>))
      in if pb_cluster batch \<noteq> gi_cluster_id (gd_identity w)
         then answer (Inl (IdentityMismatch ''publish cluster does not match the data group''))
         else case prior of
           Some r \<Rightarrow> answer r
         | None \<Rightarrow>
             if publish_expired cd w batch then answer (Inl ReceiptExpired)
             else if bookmark_taken w batch
             then Inr (publish_result cd batch (StoredRejected RejBookmarkNameConflict) w)
             else publish_fresh cd staged l ordinal slot0 batch w)"

section \<open>The caches agree with the pending state\<close>

definition through :: "('k, 'v) table \<Rightarrow> ('k \<Rightarrow> 'v) \<Rightarrow> 'k \<Rightarrow> 'v" where
  "through cache base k = (case tget cache k of Some v \<Rightarrow> v | None \<Rightarrow> base k)"

lemma through_Nil [simp]: "through [] base = base"
  by (simp add: through_def fun_eq_iff)

lemma through_tput [simp]: "through (tput cache k v) base = (through cache base)(k := v)"
  by (simp add: through_def fun_eq_iff)

lemma through_Some [simp]: "tget cache k = Some v \<Longrightarrow> through cache base k = v"
  by (simp add: through_def)

lemma through_None [simp]: "tget cache k = None \<Longrightarrow> through cache base k = base k"
  by (simp add: through_def)

lemma through_fill: "tget cache k = None \<Longrightarrow> base k = v \<Longrightarrow> through (tput cache k v) base = through cache base"
  by (auto simp add: through_def fun_eq_iff)

definition coherent :: "group_db \<Rightarrow> publish_txn \<Rightarrow> bool" where
  "coherent db tx \<longleftrightarrow>
     (let w = tx_write tx
      in gd_identity w = gd_identity db \<and> gd_receipt_window w = gd_receipt_window db \<and>
         gd_active_bank w = gd_active_bank db \<and>
         through (tx_next_offsets tx) (next_offset (gd_log db)) = next_offset (gd_log w) \<and>
         through (tx_retentions tx) (retention_of (gd_log db)) = retention_of (gd_log w) \<and>
         through (tx_sessions tx) (tget_or SessionState_default (ps_sessions (gd_producers db))) =
           tget_or SessionState_default (ps_sessions (gd_producers w)) \<and>
         through (tx_bookmark_names tx) (tget (bk_names (gd_bookmarks db))) = tget (bk_names (gd_bookmarks w)) \<and>
         through (tx_bookmark_ids tx) (tget (bk_ids (gd_bookmarks db))) = tget (bk_ids (gd_bookmarks w)) \<and>
         through (tx_bookmark_publications tx) (bookmark_publication_of (gd_bookmarks db)) =
           bookmark_publication_of (gd_bookmarks w) \<and>
         (\<forall>k. tget (ps_receipts (gd_producers db)) k = None \<longrightarrow>
            tget (ps_receipts (gd_producers w)) k = map_option VersionedOutcome (tget (tx_outcomes tx) k)))"

end
