(* ===== verification/Publish_Batch.thy ===== *)
theory Publish_Batch
  imports Publish_Log
begin

text \<open>
  The transaction of \<open>apply_publish_many\<close> refines the cacheless step: each method of
  \<open>PublishApplyTxn\<close> keeps its caches coherent with the pending state and does to that state what
  \<open>publish_one\<close> does.
\<close>

lemma coherent_new:
  "gd_identity w = gd_identity db \<Longrightarrow> gd_receipt_window w = gd_receipt_window db \<Longrightarrow>
    gd_active_bank w = gd_active_bank db \<Longrightarrow> gd_log w = gd_log db \<Longrightarrow>
    gd_producers w = gd_producers db \<Longrightarrow> gd_bookmarks w = gd_bookmarks db \<Longrightarrow>
    coherent db (PublishApplyTxn_new w)"
  by (simp add: coherent_def PublishApplyTxn_new_def Let_def)

lemma coherent_txn_session:
  assumes "coherent db tx" "txn_session db tx key = (s, tx')"
  shows "s = tget_or SessionState_default (ps_sessions (gd_producers (tx_write tx))) key"
    "tx_write tx' = tx_write tx" "coherent db tx'"
proof -
  have s: "tget_or SessionState_default (ps_sessions (gd_producers (tx_write tx))) key =
      through (tx_sessions tx) (tget_or SessionState_default (ps_sessions (gd_producers db))) key"
    using assms(1) by (simp add: coherent_def Let_def)
  show "s = tget_or SessionState_default (ps_sessions (gd_producers (tx_write tx))) key"
    using assms(2) unfolding s by (auto simp: txn_session_def Let_def split: option.splits)
  show "tx_write tx' = tx_write tx"
    using assms(2) by (auto simp: txn_session_def Let_def split: option.splits)
  show "coherent db tx'"
    using assms
    by (auto simp: txn_session_def Let_def coherent_def through_fill simp del: through_tput split: option.splits)
qed

lemma coherent_txn_name:
  assumes "coherent db tx" "txn_bookmark_name_is_used db tx p name = (used, tx')"
  shows "used \<longleftrightarrow> tget (bk_names (gd_bookmarks (tx_write tx))) (p, name) \<noteq> None"
    "tx_write tx' = tx_write tx" "coherent db tx'"
proof -
  have s: "tget (bk_names (gd_bookmarks (tx_write tx))) (p, name) =
      through (tx_bookmark_names tx) (tget (bk_names (gd_bookmarks db))) (p, name)"
    using assms(1) by (simp add: coherent_def Let_def)
  show "used \<longleftrightarrow> tget (bk_names (gd_bookmarks (tx_write tx))) (p, name) \<noteq> None"
    using assms(2) unfolding s
    by (auto simp: txn_bookmark_name_is_used_def Let_def split: option.splits)
  show "tx_write tx' = tx_write tx"
    using assms(2) by (auto simp: txn_bookmark_name_is_used_def Let_def split: option.splits)
  show "coherent db tx'"
    using assms
    by (cases "tget (tx_bookmark_names tx) (p, name)")
      (auto simp: txn_bookmark_name_is_used_def Let_def coherent_def through_fill simp del: through_tput)
qed

text \<open>Recording an outcome.\<close>

lemma txn_record:
  assumes "coherent db tx" "session = producer_session cd (tx_write tx) (pb_partition batch) (pb_request batch)"
    and tx': "tx' = txn_advance_session cd db batch (session_key cd (pb_partition batch) (pb_request batch))
    session (txn_store_outcome (receipt_key cd (pb_partition batch) (pb_request batch))
      (fingerprint cd batch) result tx)"
  shows "tx_write tx' = publish_record cd batch result (tx_write tx)" "coherent db tx'"
proof -
  show "tx_write tx' = publish_record cd batch result (tx_write tx)"
    using assms(1,2)
    by (simp add: tx' txn_advance_session_def txn_store_outcome_def publish_record_def
        push_session_def coherent_def Let_def split: prod.splits option.splits)
  show "coherent db tx'"
    using assms(1)
    by (auto simp: tx' txn_advance_session_def txn_store_outcome_def coherent_def Let_def
        fun_eq_iff split: prod.splits option.splits)
qed

lemma coherent_txn_reject:
  assumes "coherent db tx" "session = producer_session cd (tx_write tx) (pb_partition batch) (pb_request batch)"
    and "txn_reject cd db batch session rejection tx = (tx', outcome)"
  shows "publish_result cd batch (StoredRejected rejection) (tx_write tx) = (tx_write tx', outcome)"
    "coherent db tx'"
  using txn_record [OF assms(1,2) refl, of "StoredRejected rejection"] assms(3)
  by (auto simp: txn_reject_def Let_def publish_result_def)

lemma coherent_txn_reads:
  assumes "coherent db tx"
  shows "txn_next_offset db tx p = next_offset (gd_log (tx_write tx)) p"
    "txn_retention db tx p = retention_of (gd_log (tx_write tx)) p"
proof -
  have "txn_next_offset db tx = through (tx_next_offsets tx) (next_offset (gd_log db))"
    "txn_retention db tx = through (tx_retentions tx) (retention_of (gd_log db))"
    by (auto simp: txn_next_offset_def txn_retention_def through_def fun_eq_iff)
  then show "txn_next_offset db tx p = next_offset (gd_log (tx_write tx)) p"
    "txn_retention db tx p = retention_of (gd_log (tx_write tx)) p"
    using assms by (simp_all add: coherent_def Let_def)
qed

lemma coherent_cache_reads:
  assumes "coherent db tx"
  shows "coherent db (tx\<lparr>tx_next_offsets := tput (tx_next_offsets tx) p (txn_next_offset db tx p)\<rparr>)"
    "coherent db (tx\<lparr>tx_retentions := tput (tx_retentions tx) p (txn_retention db tx p)\<rparr>)"
  unfolding coherent_txn_reads [OF assms] using assms by (simp_all add: coherent_def Let_def fun_upd_idem)

lemma coherent_txn_commit:
  assumes "coherent db tx" "session = producer_session cd (tx_write tx) (pb_partition batch) (pb_request batch)"
    and "first = next_offset (gd_log (tx_write tx)) (pb_partition batch)"
    and "ret = retention_of (gd_log (tx_write tx)) (pb_partition batch)"
  shows "bind_result (txn_commit cd db l slot0 batch session first committed ret bookmark tx)
      (\<lambda>(tx', outcome). Inr (tx_write tx', outcome)) =
    publish_append cd (gd_log db) l slot0 batch committed bookmark (tx_write tx)"
    "txn_commit cd db l slot0 batch session first committed ret bookmark tx = Inr (tx', outcome) \<Longrightarrow>
      coherent db tx'"
proof -
  let ?w = "tx_write tx" and ?p = "pb_partition batch"
  let ?mid = "\<lambda>ret' lg. tx\<lparr>tx_write := ?w\<lparr>gd_log := finish_append ?p (first + of_nat (length (pb_records batch))) ret' lg\<rparr>,
      tx_next_offsets := tput (tx_next_offsets tx) ?p (first + of_nat (length (pb_records batch))),
      tx_retentions := tput (tx_retentions tx) ?p ret'\<rparr>"
  have bank: "gd_active_bank db = gd_active_bank ?w" using assms(1) by (simp add: coherent_def Let_def)
  have mid: "coherent db (?mid ret' lg)"
    if "append_records l (gd_active_bank db) (gd_log db) ?p first slot0 0 (pb_records batch) (ret, gd_log ?w)
      = Inr (ret', lg)" for ret' lg
  proof -
    have "next_offset (finish_append ?p tail ret' lg) = (next_offset (gd_log ?w))(?p := tail)"
      "retention_of (finish_append ?p tail ret' lg) = (retention_of (gd_log ?w))(?p := ret')" for tail
      using append_records_frame [OF that]
      by (auto simp: finish_append_def next_offset_def retention_of_def fun_eq_iff)
    then show ?thesis using assms(1) by (simp add: coherent_def Let_def)
  qed
  have session: "session = producer_session cd (tx_write (?mid ret' lg)) ?p (pb_request batch)" for ret' lg
    using assms(2) by (simp add: producer_session_def)
  show "bind_result (txn_commit cd db l slot0 batch session first committed ret bookmark tx)
      (\<lambda>(tx', outcome). Inr (tx_write tx', outcome)) =
    publish_append cd (gd_log db) l slot0 batch committed bookmark ?w"
  proof (cases "append_records l (gd_active_bank db) (gd_log db) ?p first slot0 0 (pb_records batch) (ret, gd_log ?w)")
    case (Inl e)
    then show ?thesis using assms(3,4) bank by (simp add: txn_commit_def publish_append_def Let_def)
  next
    case (Inr r)
    obtain ret' lg where r: "r = (ret', lg)" by (cases r)
    with Inr have run: "append_records l (gd_active_bank db) (gd_log db) ?p first slot0 0 (pb_records batch)
      (ret, gd_log ?w) = Inr (ret', lg)" by simp
    from txn_record(1) [OF mid [OF run] session refl] run show ?thesis
      using assms(3,4) bank
      by (simp add: txn_commit_def publish_append_def publish_result_def Let_def as_result_def)
  qed
  show "coherent db tx'"
    if "txn_commit cd db l slot0 batch session first committed ret bookmark tx = Inr (tx', outcome)"
    using that txn_record(2) [OF mid session refl]
    by (auto simp: txn_commit_def Let_def bind_result_Inr)
qed

lemma coherent_txn_bookmark:
  assumes "coherent db tx"
  shows "bind_result (txn_create_publish_bookmark cd db l ordinal p name off tx)
      (\<lambda>(tx', created). Inr (tx_write tx', created)) =
    publish_bookmark cd l ordinal p name off (tx_write tx)"
    "txn_create_publish_bookmark cd db l ordinal p name off tx = Inr (tx', created) \<Longrightarrow>
      coherent db tx' \<and> gd_log (tx_write tx') = gd_log (tx_write tx) \<and>
      gd_producers (tx_write tx') = gd_producers (tx_write tx)"
proof -
  let ?bid = "publish_bookmark_id cd l (Some ordinal)" and ?w = "tx_write tx"
  have ids: "(case tget (tx_bookmark_ids tx) ?bid of Some e \<Rightarrow> e | None \<Rightarrow> tget (bk_ids (gd_bookmarks db)) ?bid) =
      tget (bk_ids (gd_bookmarks ?w)) ?bid"
    using assms by (simp add: coherent_def Let_def through_def fun_eq_iff)
  have pub: "(case tget (tx_bookmark_publications tx) p of Some k \<Rightarrow> k
        | None \<Rightarrow> bookmark_publication_of (gd_bookmarks db) p) = bookmark_publication_of (gd_bookmarks ?w) p"
    using assms by (simp add: coherent_def Let_def through_def fun_eq_iff)
  have cached: "coherent db (tx\<lparr>tx_bookmark_ids := tput (tx_bookmark_ids tx) ?bid (tget (bk_ids (gd_bookmarks ?w)) ?bid)\<rparr>)"
    using assms by (simp add: coherent_def Let_def fun_upd_idem)
  have identity: "gd_identity ?w = gd_identity db" using assms by (simp add: coherent_def Let_def)
  show "bind_result (txn_create_publish_bookmark cd db l ordinal p name off tx)
      (\<lambda>(tx', created). Inr (tx_write tx', created)) = publish_bookmark cd l ordinal p name off ?w"
    by (cases "checked_add (bookmark_publication_of (gd_bookmarks ?w) p) 1")
      (simp_all add: txn_create_publish_bookmark_def publish_bookmark_def Let_def ids pub identity)
  show "coherent db tx' \<and> gd_log (tx_write tx') = gd_log ?w \<and> gd_producers (tx_write tx') = gd_producers ?w"
    if run: "txn_create_publish_bookmark cd db l ordinal p name off tx = Inr (tx', created)"
  proof (cases "tget (bk_ids (gd_bookmarks ?w)) ?bid")
    case (Some b)
    with run cached show ?thesis by (auto simp: txn_create_publish_bookmark_def Let_def ids)
  next
    case None
    with run obtain k where k: "checked_add (bookmark_publication_of (gd_bookmarks ?w) p) 1 = Some k"
      by (auto simp: txn_create_publish_bookmark_def Let_def ids pub bind_result_Inr)
    with None run assms show ?thesis
      by (auto simp: txn_create_publish_bookmark_def Let_def ids pub coherent_def fun_eq_iff
          CommittedBookmark_published_def)
  qed
qed

section \<open>One request\<close>

text \<open>
  A result of the transaction refines a result of the cacheless step: the same failure, or the same
  outcome with the pending state of the transaction and coherent caches.
\<close>

definition refines ::
  "group_db \<Rightarrow> (publish_txn \<times> 'o) io \<Rightarrow> (group_db \<times> 'o) io \<Rightarrow> bool" where
  "refines db r s \<longleftrightarrow>
     (case r of Inl e \<Rightarrow> s = Inl e | Inr (tx, outcome) \<Rightarrow> coherent db tx \<and> s = Inr (tx_write tx, outcome))"

lemma refinesI:
  "bind_result r (\<lambda>(tx, outcome). Inr (tx_write tx, outcome)) = s \<Longrightarrow>
    (\<And>tx outcome. r = Inr (tx, outcome) \<Longrightarrow> coherent db tx) \<Longrightarrow> refines db r s"
  by (cases r) (auto simp: refines_def)

lemma refines_Inr: "coherent db tx \<Longrightarrow> s = Inr (tx_write tx, outcome) \<Longrightarrow> refines db (Inr (tx, outcome)) s"
  by (simp add: refines_def)

lemma refines_Inl: "s = Inl e \<Longrightarrow> refines db (Inl e) s"
  by (simp add: refines_def)

lemma refines_bind:
  assumes "refines db r s"
    and "\<And>tx outcome. r = Inr (tx, outcome) \<Longrightarrow> coherent db tx \<Longrightarrow>
      refines db (f (tx, outcome)) (g (tx_write tx, outcome))"
  shows "refines db (bind_result r f) (bind_result s g)"
proof (cases r)
  case (Inl e)
  with assms(1) show ?thesis by (simp add: refines_def)
next
  case (Inr a)
  obtain tx outcome where a: "a = (tx, outcome)" by (cases a)
  with Inr assms(1) have c: "coherent db tx" "s = Inr (tx_write tx, outcome)" by (simp_all add: refines_def)
  from assms(2) [OF Inr [unfolded a] c(1)] show ?thesis using Inr a c(2) by simp
qed

lemma refines_if:
  "refines db r s \<Longrightarrow> refines db r' s' \<Longrightarrow> refines db (if c then r else r') (if c then s else s')"
  by simp

lemma refines_reject:
  assumes "coherent db tx"
    and "session = producer_session cd (tx_write tx) (pb_partition batch) (pb_request batch)"
    and "tx_write tx = w"
  shows "refines db (Inr (txn_reject cd db batch session rejection tx))
    (Inr (publish_result cd batch (StoredRejected rejection) w))"
proof -
  obtain tx' outcome where r: "txn_reject cd db batch session rejection tx = (tx', outcome)" by fastforce
  from coherent_txn_reject [OF assms(1,2) r] show ?thesis
    unfolding r assms(3) by (auto intro: refines_Inr)
qed

lemma refines_commit:
  assumes "coherent db tx" "session = producer_session cd (tx_write tx) (pb_partition batch) (pb_request batch)"
    and "first = next_offset (gd_log (tx_write tx)) (pb_partition batch)"
    and "ret = retention_of (gd_log (tx_write tx)) (pb_partition batch)" "tx_write tx = w"
  shows "refines db (txn_commit cd db l slot0 batch session first committed ret bookmark tx)
    (publish_append cd (gd_log db) l slot0 batch committed bookmark w)"
  using coherent_txn_commit [OF assms(1-4)] unfolding assms(5) by (rule refinesI)

lemma refines_bookmark_commit:
  assumes ok: "coherent db tx" and w: "tx_write tx = w"
    and session: "session = producer_session cd w (pb_partition batch) (pb_request batch)"
    and first: "first = next_offset (gd_log w) (pb_partition batch)"
    and ret: "ret = retention_of (gd_log w) (pb_partition batch)"
  shows "refines db (bind_result (txn_create_publish_bookmark cd db l ordinal (pb_partition batch) name off tx)
      (\<lambda>(tx, created). case created of
         Inl _ \<Rightarrow> Inr (txn_reject cd db batch session RejBookmarkNameConflict tx)
       | Inr bookmark \<Rightarrow> txn_commit cd db l slot0 batch session first committed ret (Some bookmark) tx))
    (bind_result (publish_bookmark cd l ordinal (pb_partition batch) name off w) (\<lambda>(w', created).
       case created of
         Inl _ \<Rightarrow> Inr (publish_result cd batch (StoredRejected RejBookmarkNameConflict) w')
       | Inr bookmark \<Rightarrow> publish_append cd (gd_log db) l slot0 batch committed (Some bookmark) w'))"
proof (rule refines_bind)
  show "refines db (txn_create_publish_bookmark cd db l ordinal (pb_partition batch) name off tx)
      (publish_bookmark cd l ordinal (pb_partition batch) name off w)"
    using coherent_txn_bookmark [OF ok] unfolding w [symmetric] by (intro refinesI) blast+
next
  fix tx' created
  assume run: "txn_create_publish_bookmark cd db l ordinal (pb_partition batch) name off tx = Inr (tx', created)"
    and ok': "coherent db tx'"
  from coherent_txn_bookmark(2) [OF ok run]
  have kept: "gd_log (tx_write tx') = gd_log w" "gd_producers (tx_write tx') = gd_producers w"
    using w by simp_all
  have s: "session = producer_session cd (tx_write tx') (pb_partition batch) (pb_request batch)"
    using session kept by (simp add: producer_session_def)
  have f: "first = next_offset (gd_log (tx_write tx')) (pb_partition batch)"
    "ret = retention_of (gd_log (tx_write tx')) (pb_partition batch)" using first ret kept by simp_all
  show "refines db
      (case (tx', created) of (tx, created) \<Rightarrow> case created of
         Inl _ \<Rightarrow> Inr (txn_reject cd db batch session RejBookmarkNameConflict tx)
       | Inr bookmark \<Rightarrow> txn_commit cd db l slot0 batch session first committed ret (Some bookmark) tx)
      (case (tx_write tx', created) of (w', created) \<Rightarrow> case created of
         Inl _ \<Rightarrow> Inr (publish_result cd batch (StoredRejected RejBookmarkNameConflict) w')
       | Inr bookmark \<Rightarrow> publish_append cd (gd_log db) l slot0 batch committed (Some bookmark) w')"
    using refines_reject [OF ok' s refl] refines_commit [OF ok' s f refl]
    by (cases created) (simp_all only: prod.case sum.case)
qed

lemma refines_publish:
  assumes ok: "coherent db tx"
    and session: "session = producer_session cd (tx_write tx) (pb_partition batch) (pb_request batch)"
  shows "refines db (txn_publish cd db l ordinal slot0 batch session tx)
    (publish_fresh cd (gd_log db) l ordinal slot0 batch (tx_write tx))"
proof -
  let ?p = "pb_partition batch" and ?w = "tx_write tx" and ?n = "of_nat (length (pb_records batch)) :: u64"
  let ?first = "next_offset (gd_log ?w) ?p" and ?ret = "retention_of (gd_log ?w) ?p"
  let ?tx1 = "tx\<lparr>tx_next_offsets := tput (tx_next_offsets tx) ?p ?first\<rparr>"
  let ?tx2 = "?tx1\<lparr>tx_retentions := tput (tx_retentions ?tx1) ?p ?ret\<rparr>"
  note reads = coherent_txn_reads [OF ok]
  have ok1: "coherent db ?tx1" using coherent_cache_reads(1) [OF ok] by (simp add: reads)
  have ret1: "txn_retention db ?tx1 ?p = ?ret" using coherent_txn_reads(2) [OF ok1] by simp
  have ok2: "coherent db ?tx2" using coherent_cache_reads(2) [OF ok1, of ?p] by (simp only: ret1)
  have same: "tx_write ?tx2 = ?w" "tx_write ?tx1 = ?w" by simp_all
  note unfold = txn_publish_def publish_fresh_def Let_def reads ret1
  show ?thesis
  proof (cases "CommittedRecordRange_new ?p ?first ?n")
    case (Inl e)
    have "refines db (Inr (txn_reject cd db batch session rejection ?tx1))
        (Inr (publish_result cd batch (StoredRejected rejection) ?w))" for rejection
      using session by (intro refines_reject [OF ok1]) simp_all
    then show ?thesis unfolding unfold Inl sum.case
      by (cases e) (simp_all only: DomainError.case refines_Inl)
  next
    case (Inr committed)
    have reject: "refines db (Inr (txn_reject cd db batch session rejection ?tx2))
        (Inr (publish_result cd batch (StoredRejected rejection) ?w))" for rejection
      using session by (intro refines_reject [OF ok2]) simp_all
    have plain: "refines db (txn_commit cd db l slot0 batch session ?first committed ?ret None ?tx2)
        (publish_append cd (gd_log db) l slot0 batch committed None ?w)"
      using session by (intro refines_commit [OF ok2]) simp_all
    have marked: "refines db (bind_result (txn_create_publish_bookmark cd db l ordinal ?p name (?first + ?n) ?tx2)
        (\<lambda>(tx, created). case created of
           Inl _ \<Rightarrow> Inr (txn_reject cd db batch session RejBookmarkNameConflict tx)
         | Inr bookmark \<Rightarrow> txn_commit cd db l slot0 batch session ?first committed ?ret (Some bookmark) tx))
      (bind_result (publish_bookmark cd l ordinal ?p name (?first + ?n) ?w) (\<lambda>(w', created). case created of
           Inl _ \<Rightarrow> Inr (publish_result cd batch (StoredRejected RejBookmarkNameConflict) w')
         | Inr bookmark \<Rightarrow> publish_append cd (gd_log db) l slot0 batch committed (Some bookmark) w'))" for name
      by (rule refines_bookmark_commit [OF ok2 same(1) session refl refl])
    show ?thesis
    proof (cases "added_payload_bytes 0 (pb_records batch)")
      case (Inl e)
      then show ?thesis unfolding unfold Inr by (simp add: refines_Inl)
    next
      case (Inr added)
      note added = Inr
      show ?thesis
        unfolding unfold \<open>CommittedRecordRange_new ?p ?first ?n = Inr committed\<close> sum.case added
          bind_result_simps
        by (rule refines_if, rule reject, cases "pb_bookmark batch")
          (simp_all only: option.case plain marked)
    qed
  qed
qed

lemma refines_apply_one:
  assumes ok: "coherent db tx"
  shows "refines db (txn_apply_one cd db l ordinal slot0 batch tx)
    (publish_one cd (gd_log db) l ordinal slot0 batch
      (txn_prior_outcome cd db tx batch (receipt_key cd (pb_partition batch) (pb_request batch))
        (fingerprint cd batch)) (tx_write tx))"
proof -
  let ?p = "pb_partition batch" and ?w = "tx_write tx"
  have identity: "gd_identity ?w = gd_identity db" using ok by (simp add: coherent_def Let_def)
  obtain s tx1 where r1: "txn_session db tx (session_key cd ?p (pb_request batch)) = (s, tx1)" by fastforce
  note c1 = coherent_txn_session [OF ok r1]
  have s: "s = producer_session cd (tx_write tx1) ?p (pb_request batch)"
    using c1 by (simp add: producer_session_def)
  obtain used tx2 where r2: "(case pb_bookmark batch of None \<Rightarrow> (False, tx1)
      | Some name \<Rightarrow> txn_bookmark_name_is_used db tx1 ?p name) = (used, tx2)" by fastforce
  have c2: "used = bookmark_taken ?w batch" "tx_write tx2 = ?w" "coherent db tx2"
    using r2 c1 coherent_txn_name [OF c1(3)] by (auto simp: bookmark_taken_def split: option.splits)
  have s2: "s = producer_session cd (tx_write tx2) ?p (pb_request batch)" using s c1(2) c2(2) by simp
  have "publish_expired cd ?w batch = sequence_expired (pr_sequence (pb_request batch)) s"
    using s c1(2) by (simp add: publish_expired_def)
  then show ?thesis
    using ok c1 c2 refines_reject [OF c2(3) s2 c2(2)] refines_publish [OF c2(3) s2]
    by (auto simp: txn_apply_one_def publish_one_def Let_def r1 r2 identity
        intro: refines_Inr split: option.splits)
qed

section \<open>The batch\<close>

text \<open>
  What the transaction has recorded for a request is what the pending state holds, unless the
  database had an outcome for it before the batch.
\<close>

lemma coherent_prior:
  assumes "coherent db tx"
    and "tget (ps_receipts (gd_producers db)) (receipt_key cd (pb_partition batch) (pb_request batch)) = None"
  shows "txn_prior_outcome cd db tx batch (receipt_key cd (pb_partition batch) (pb_request batch))
      (fingerprint cd batch) = prior_publish_outcome cd (tx_write tx) batch"
proof -
  have "tget (ps_receipts (gd_producers (tx_write tx))) (receipt_key cd (pb_partition batch) (pb_request batch)) =
      map_option VersionedOutcome (tget (tx_outcomes tx) (receipt_key cd (pb_partition batch) (pb_request batch)))"
    using assms by (simp add: coherent_def Let_def)
  then show ?thesis using assms(2)
    by (simp add: txn_prior_outcome_def prior_publish_outcome_def split: option.splits)
qed

text \<open>The requests of a batch applied one after the other, each on the state the previous one left.\<close>

fun publish_sequence ::
  "codec \<Rightarrow> log_state \<Rightarrow> GroupLogId \<Rightarrow> ClusterId \<Rightarrow> nat \<Rightarrow> nat \<Rightarrow> PublishBatch list \<Rightarrow> group_db
   \<Rightarrow> (group_db \<times> PublishItemOutcome list) io" where
  "publish_sequence cd staged l cluster ordinal slot [] w = Inr (w, [])"
| "publish_sequence cd staged l cluster ordinal slot (b # bs) w =
     bind_result
       (if pb_cluster b \<noteq> cluster
        then Inr (w, \<lparr>io_request = pb_request b, io_result =
          Inl (IdentityMismatch ''publish cluster does not match the data group'')\<rparr>)
        else publish_one cd staged l ordinal slot b (prior_publish_outcome cd w b) w) (\<lambda>(w, outcome).
     bind_result (ok_or ''publish payload slot overflow''
       (usize_checked_add slot (length (pb_records b)))) (\<lambda>slot.
     bind_result (publish_sequence cd staged l cluster (Suc ordinal) slot bs w) (\<lambda>(w, outcomes).
     Inr (w, outcome # outcomes))))"

lemma refines_publish_many_loop:
  assumes "coherent db tx"
    and "\<forall>b \<in> set bs. tget (ps_receipts (gd_producers db))
      (receipt_key cd (pb_partition b) (pb_request b)) = None"
  shows "refines db (publish_many_loop cd db l cluster ordinal slot bs tx)
    (publish_sequence cd (gd_log db) l cluster ordinal slot bs (tx_write tx))"
  using assms
proof (induction bs arbitrary: ordinal slot tx)
  case Nil
  then show ?case by (simp add: refines_Inr)
next
  case (Cons b bs)
  have one: "refines db (txn_apply_one cd db l ordinal slot b tx)
      (publish_one cd (gd_log db) l ordinal slot b (prior_publish_outcome cd (tx_write tx) b) (tx_write tx))"
    using refines_apply_one [OF Cons.prems(1), of cd l ordinal slot b]
      coherent_prior [OF Cons.prems(1)] Cons.prems(2) by simp
  have head: "refines db
      (if pb_cluster b \<noteq> cluster
       then Inr (tx, \<lparr>io_request = pb_request b, io_result =
         Inl (IdentityMismatch ''publish cluster does not match the data group'')\<rparr>)
       else txn_apply_one cd db l ordinal slot b tx)
      (if pb_cluster b \<noteq> cluster
       then Inr (tx_write tx, \<lparr>io_request = pb_request b, io_result =
         Inl (IdentityMismatch ''publish cluster does not match the data group'')\<rparr>)
       else publish_one cd (gd_log db) l ordinal slot b (prior_publish_outcome cd (tx_write tx) b) (tx_write tx))"
    using one Cons.prems(1) by (intro refines_if) (simp_all add: refines_Inr)
  have tail: "refines db (publish_many_loop cd db l cluster (Suc ordinal) slot' bs tx')
      (publish_sequence cd (gd_log db) l cluster (Suc ordinal) slot' bs (tx_write tx'))"
    if "coherent db tx'" for slot' tx' using Cons.IH [OF that] Cons.prems(2) by simp
  show ?case
    unfolding publish_many_loop.simps publish_sequence.simps
  proof (rule refines_bind [OF head], simp only: prod.case)
    fix tx' outcome assume ok: "coherent db tx'"
    show "refines db
        (bind_result (ok_or ''publish payload slot overflow'' (usize_checked_add slot (length (pb_records b))))
          (\<lambda>slot. bind_result (publish_many_loop cd db l cluster (Suc ordinal) slot bs tx')
            (\<lambda>(tx, outcomes). Inr (tx, outcome # outcomes))))
        (bind_result (ok_or ''publish payload slot overflow'' (usize_checked_add slot (length (pb_records b))))
          (\<lambda>slot. bind_result (publish_sequence cd (gd_log db) l cluster (Suc ordinal) slot bs (tx_write tx'))
            (\<lambda>(w, outcomes). Inr (w, outcome # outcomes))))"
      by (cases "usize_checked_add slot (length (pb_records b))")
        (auto intro!: refines_bind [OF tail [OF ok]] refines_Inr refines_Inl)
  qed
qed

end
