(* ===== verification/Mutation_Receipts.thy ===== *)
theory Mutation_Receipts
  imports Group_State
begin

text \<open>
  Receipts of client mutations (\<open>prior_mutation_result\<close> and \<open>store_mutation_result\<close> of
  \<open>crates/light-stream-storage/src/lib.rs\<close>). The contract every handler with receipts relies on is
  the locale \<open>receipt_log\<close>: what was stored for a request is what a retry of it reads. The locale
  \<open>idempotent_handler\<close> adds the shape of a handler, first the prior result and then a stored one, and
  proves once that a retry returns the recorded result and changes nothing.
\<close>

section \<open>Contracts\<close>

locale receipt_log =
  fixes prior :: "'db \<Rightarrow> 'req \<Rightarrow> 'res option"
    and store :: "'db \<Rightarrow> 'req \<Rightarrow> 'res \<Rightarrow> 'db \<Rightarrow> 'db"
    and safe :: "'db \<Rightarrow> 'req \<Rightarrow> bool"
    and storable :: "'res \<Rightarrow> bool"
  assumes prior_store: "safe db req \<Longrightarrow> storable res \<Longrightarrow> prior (store db req res w) req = Some res"

locale idempotent_handler = receipt_log +
  fixes accepts :: "'a \<Rightarrow> 'b \<Rightarrow> bool"
    and handle :: "'a \<Rightarrow> 'b \<Rightarrow> 'arg \<Rightarrow> ('a \<times> 'c) io"
  assumes replay: "accepts db req \<Longrightarrow> prior db req = Some res \<Longrightarrow> handle db req arg = Inr (db, res)"
    and stores: "accepts db req \<Longrightarrow> prior db req = None \<Longrightarrow> handle db req arg = Inr (w, res) \<Longrightarrow>
      storable res \<and> (\<exists>w0. w = store db req res w0)"
    and accepts_kept: "accepts db req \<Longrightarrow> handle db req arg = Inr (w, res) \<Longrightarrow> accepts w req"
begin

lemma retry_returns_same:
  assumes "accepts db req" "safe db req" "handle db req arg = Inr (w, res)"
  shows "handle w req arg' = Inr (w, res)"
proof (cases "prior db req")
  case None
  from stores [OF assms(1) None assms(3)] obtain w0 where "storable res" "w = store db req res w0" by blast
  then have "prior w req = Some res" using prior_store [OF assms(2)] by simp
  with accepts_kept [OF assms(1,3)] show ?thesis by (rule replay)
next
  case (Some r)
  with replay [OF assms(1) Some] assms show ?thesis by simp
qed

end

section \<open>Mutation receipts\<close>

definition mutation_session :: "codec \<Rightarrow> group_db \<Rightarrow> MutationRequestId \<Rightarrow> SessionState" where
  "mutation_session cd db request =
     tget_or SessionState_default (ms_sessions (gd_mutations db)) (mutation_session_key cd request)"

definition prior_mutation_result ::
  "codec \<Rightarrow> group_db \<Rightarrow> MutationRequestId \<Rightarrow> string \<Rightarrow> ApplyResult option" where
  "prior_mutation_result cd db request fp =
     (case tget (ms_receipts (gd_mutations db)) (mutation_receipt_key cd request) of
        Some existing \<Rightarrow>
          if sm_fingerprint existing = fp then Some (sm_result existing)
          else Some (Rejected MutationConflict)
      | None \<Rightarrow>
          if sequence_expired (mr_sequence request) (mutation_session cd db request)
          then Some (Rejected MutationReceiptExpired)
          else None)"

definition store_mutation_result ::
  "codec \<Rightarrow> group_db \<Rightarrow> MutationRequestId \<Rightarrow> string \<Rightarrow> ApplyResult \<Rightarrow> group_db \<Rightarrow> group_db" where
  "store_mutation_result cd db request fp result w =
     (let receipts = tput (ms_receipts (gd_mutations w)) (mutation_receipt_key cd request)
            \<lparr>sm_fingerprint = fp, sm_result = result\<rparr>;
          (session, expired) = session_push (gd_receipt_window db) (mr_sequence request)
            (mutation_session cd db request);
          receipts = (case expired of
              None \<Rightarrow> receipts
            | Some q \<Rightarrow> tdel receipts (mutation_receipt_key cd (request\<lparr>mr_sequence := q\<rparr>)))
      in w\<lparr>gd_mutations := (gd_mutations w)
             \<lparr>ms_receipts := receipts,
              ms_sessions := tput (ms_sessions (gd_mutations w)) (mutation_session_key cd request)
                session\<rparr>\<rparr>)"

text \<open>
  What the store needs to keep its own receipt: a positive window, and no SHA-256 collision between
  the receipt keys of the request and of the retained requests of its session, one of which it may
  evict.
\<close>

definition mutation_keys_apart :: "codec \<Rightarrow> group_db \<Rightarrow> MutationRequestId \<Rightarrow> bool" where
  "mutation_keys_apart cd db request \<longleftrightarrow>
     0 < gd_receipt_window db \<and> mr_sequence request \<notin> set (ss_retained_sequences (mutation_session cd db request)) \<and>
     (\<forall>q \<in> set (ss_retained_sequences (mutation_session cd db request)).
        mutation_receipt_key cd (request\<lparr>mr_sequence := q\<rparr>) \<noteq> mutation_receipt_key cd request)"

lemma store_mutation_result_simps [simp]:
  "gd_identity (store_mutation_result cd db r fp res w) = gd_identity w"
  "gd_receipt_window (store_mutation_result cd db r fp res w) = gd_receipt_window w"
  "gd_active_bank (store_mutation_result cd db r fp res w) = gd_active_bank w"
  "gd_applied (store_mutation_result cd db r fp res w) = gd_applied w"
  "gd_membership (store_mutation_result cd db r fp res w) = gd_membership w"
  "gd_log (store_mutation_result cd db r fp res w) = gd_log w"
  "gd_producers (store_mutation_result cd db r fp res w) = gd_producers w"
  "gd_bookmarks (store_mutation_result cd db r fp res w) = gd_bookmarks w"
  "gd_stream_bookmarks (store_mutation_result cd db r fp res w) = gd_stream_bookmarks w"
  "gd_leases (store_mutation_result cd db r fp res w) = gd_leases w"
  "gd_checkpoints (store_mutation_result cd db r fp res w) = gd_checkpoints w"
  "gd_catalog (store_mutation_result cd db r fp res w) = gd_catalog w"
  "gd_admin (store_mutation_result cd db r fp res w) = gd_admin w"
  "gd_export (store_mutation_result cd db r fp res w) = gd_export w"
  by (simp_all add: store_mutation_result_def Let_def split: prod.splits)

lemma session_push_evicts:
  assumes "snd (session_push window q s) = Some x" "0 < window"
  shows "x \<in> set (ss_retained_sequences s)"
  using assms by (cases "ss_retained_sequences s") (auto simp: session_push_def Let_def split: if_splits)

lemma store_receipt_lookup:
  assumes "mutation_keys_apart cd db request"
  shows "tget (ms_receipts (gd_mutations (store_mutation_result cd db request fp res w)))
    (mutation_receipt_key cd request) = Some \<lparr>sm_fingerprint = fp, sm_result = res\<rparr>"
  using assms
  by (auto simp: store_mutation_result_def Let_def mutation_keys_apart_def
      split: prod.splits option.splits dest!: session_push_evicts [OF sndI])

interpretation mutation: receipt_log
  "\<lambda>db (request, fp). prior_mutation_result cd db request fp"
  "\<lambda>db (request, fp) res. store_mutation_result cd db request fp res"
  "\<lambda>db (request, fp). mutation_keys_apart cd db request" "\<lambda>_. True" for cd
  by unfold_locales (auto simp: prior_mutation_result_def store_receipt_lookup)

text \<open>A session reads back after a store; its window stays well formed.\<close>

lemma mutation_session_store [simp]:
  "mutation_session cd (store_mutation_result cd db r fp res w) r =
    fst (session_push (gd_receipt_window db) (mr_sequence r) (mutation_session cd db r))"
  by (simp add: store_mutation_result_def mutation_session_def Let_def split: prod.splits)

text \<open>Once a request was recorded, no later store of its session makes an older sequence fresh.\<close>

lemma prior_mutation_None:
  "prior_mutation_result cd db request fp = None \<Longrightarrow>
    \<not> sequence_expired (mr_sequence request) (mutation_session cd db request)"
  by (auto simp: prior_mutation_result_def split: option.splits if_splits)

section \<open>Handlers of client mutations\<close>

text \<open>
  The shape of the checkpoint, lease, retention and security handlers: a command names its request and
  has a fingerprint, a known result is returned as it is, and any other result is stored.
\<close>

locale mutation_handler =
  fixes cd :: codec
    and request_of :: "'cmd \<Rightarrow> MutationRequestId"
    and fingerprint_of :: "'cmd \<Rightarrow> string"
    and accepts :: "group_db \<Rightarrow> 'cmd \<Rightarrow> bool"
    and handle :: "group_db \<Rightarrow> 'cmd \<Rightarrow> 'arg \<Rightarrow> ApplyResult applied"
  assumes replays: "accepts db c \<Longrightarrow> prior_mutation_result cd db (request_of c) (fingerprint_of c) = Some r \<Longrightarrow>
      handle db c arg = Inr (db, r)"
    and records: "accepts db c \<Longrightarrow> prior_mutation_result cd db (request_of c) (fingerprint_of c) = None \<Longrightarrow>
      handle db c arg = Inr (w, r) \<Longrightarrow>
      \<exists>w0. w = store_mutation_result cd db (request_of c) (fingerprint_of c) r w0 \<and> accepts w c"

sublocale mutation_handler \<subseteq> idempotent_handler
  "\<lambda>db c. prior_mutation_result cd db (request_of c) (fingerprint_of c)"
  "\<lambda>db c r w. store_mutation_result cd db (request_of c) (fingerprint_of c) r w"
  "\<lambda>db c. mutation_keys_apart cd db (request_of c)" "\<lambda>_. True" accepts handle
proof
  fix db c r w
  assume "mutation_keys_apart cd db (request_of c)"
  then show "prior_mutation_result cd (store_mutation_result cd db (request_of c) (fingerprint_of c) r w)
      (request_of c) (fingerprint_of c) = Some r"
    using mutation.prior_store [of cd db "(request_of c, fingerprint_of c)" r w] by simp
next
  fix db c arg w r
  assume a: "accepts db c" "handle db c arg = Inr (w, r)"
  show "accepts w c"
  proof (cases "prior_mutation_result cd db (request_of c) (fingerprint_of c)")
    case None
    with records [OF a(1) None a(2)] show ?thesis by blast
  next
    case (Some q)
    with replays [OF a(1) Some] a show ?thesis by auto
  qed
qed (use replays records in blast)+

end
