(* ===== verification/Publish_Effects.thy ===== *)
theory Publish_Effects
  imports Publish_Batch Mutation_Receipts
begin

text \<open>
  The effect of a publish: it appends its records at the tail of its partition or leaves the log
  alone, it keeps the invariants of the log, the bookmarks and the producer sessions, and a retry is
  answered from the recorded outcome.
\<close>

section \<open>Appending\<close>

text \<open>\<open>lg'\<close> is \<open>lg\<close> with the payloads \<open>rs\<close> appended to partition \<open>p\<close>, the first one from slot \<open>slot0\<close>.\<close>

text \<open>What retention has done to the log: floors, reclaim cursors and hints.\<close>

definition same_retention :: "log_state \<Rightarrow> log_state \<Rightarrow> bool" where
  "same_retention lg lg' \<longleftrightarrow>
     lg_reclaim_hint lg' = lg_reclaim_hint lg \<and>
     (\<forall>p. pr_logical_floor (retention_of lg' p) = pr_logical_floor (retention_of lg p) \<and>
        pr_reclaim_cursor (retention_of lg' p) = pr_reclaim_cursor (retention_of lg p))"

lemma same_retention_refl [simp]: "same_retention lg lg"
  by (simp add: same_retention_def)

lemma same_retention_trans: "same_retention a b \<Longrightarrow> same_retention b c \<Longrightarrow> same_retention a c"
  by (simp add: same_retention_def)

definition appended ::
  "GroupLogId \<Rightarrow> nat \<Rightarrow> PartitionKey \<Rightarrow> bytes list \<Rightarrow> log_state \<Rightarrow> log_state \<Rightarrow> bool" where
  "appended l slot0 p rs lg lg' \<longleftrightarrow>
     unat (next_offset lg p) + length rs < 2 ^ 64 \<and> same_retention lg lg' \<and>
     next_offset lg' = (next_offset lg)(p := next_offset lg p + of_nat (length rs)) \<and>
     (\<forall>q. q \<noteq> p \<longrightarrow> records_of lg' q = records_of lg q) \<and>
     (\<forall>off < next_offset lg p. records_of lg' p off = records_of lg p off) \<and>
     (\<forall>j < length rs. indexes (records_of lg' p (next_offset lg p + of_nat j)) (payload_id l (slot0 + j)) (rs ! j))"

lemma range_new_Inr:
  "CommittedRecordRange_new p first count = Inr committed \<longleftrightarrow>
    count \<noteq> 0 \<and> unat first + unat count < 2 ^ 64 \<and>
    committed = \<lparr>rr_partition = p, rr_first = first, rr_count = count\<rparr>"
  by (auto simp: CommittedRecordRange_new_def offset_checked_add_def bind_result_Inr checked_add_def
      split: option.splits if_splits)

lemma append_finish:
  assumes ok: "log_ok lg"
    and range: "CommittedRecordRange_new p (next_offset lg p) (of_nat (length rs)) = Inr committed"
    and small: "length rs < 2 ^ 64"
    and run: "append_records l bank staged p (next_offset lg p) slot0 0 rs (retention_of lg p, lg) = Inr (ret, lg1)"
    and lg': "lg' = finish_append p (next_offset lg p + of_nat (length rs)) ret lg1"
  shows "log_ok lg' \<and> appended l slot0 p rs lg lg'"
proof -
  have room: "unat (next_offset lg p) + length rs < 2 ^ 64"
    using range small by (simp add: range_new_Inr unat_of_nat)
  have chain: "chain_ok (records_of lg p) (retention_of lg p) (next_offset lg p + of_nat 0)"
    using log_okD [OF ok] by simp
  from append_records_chain [OF run chain] room
  have c: "chain_ok (records_of lg1 p) ret (next_offset lg p + of_nat (length rs))"
    and below: "off < next_offset lg p \<Longrightarrow> records_of lg1 p off = records_of lg p off"
    and slots: "j < length rs \<Longrightarrow> indexes (records_of lg1 p (next_offset lg p + of_nat j))
      (payload_id l (slot0 + j)) (rs ! j)" for off j
    by (auto simp: word_less_nat_alt)
  note frame = append_records_frame [OF run]
  have reads: "records_of lg' = records_of lg1"
    "next_offset lg' = (next_offset lg)(p := next_offset lg p + of_nat (length rs))"
    "retention_of lg' = (retention_of lg)(p := ret)" "lg_records lg' = lg_records lg1"
    "lg_reclaim_hint lg' = lg_reclaim_hint lg"
    using frame by (auto simp: lg' finish_append_def next_offset_def retention_of_def fun_eq_iff)
  have "partition_ok lg' q" for q
  proof (cases "q = p")
    case True
    with c show ?thesis by (simp add: partition_ok_def reads)
  next
    case False
    then show ?thesis using log_okD [OF ok, of q] frame by (simp add: partition_ok_def reads)
  qed
  then have "log_ok lg'" using ok frame by (simp add: log_ok_def reads)
  moreover have "appended l slot0 p rs lg lg'"
    using room below slots frame by (simp add: appended_def reads same_retention_def)
  ultimately show ?thesis by blast
qed

section \<open>What a publish changes\<close>

lemma publish_record_simps [simp]:
  "gd_log (publish_record cd batch result w) = gd_log w"
  "gd_bookmarks (publish_record cd batch result w) = gd_bookmarks w"
  "gd_identity (publish_record cd batch result w) = gd_identity w"
  "gd_receipt_window (publish_record cd batch result w) = gd_receipt_window w"
  "gd_active_bank (publish_record cd batch result w) = gd_active_bank w"
  "gd_catalog (publish_record cd batch result w) = gd_catalog w"
  "gd_mutations (publish_record cd batch result w) = gd_mutations w"
  "gd_leases (publish_record cd batch result w) = gd_leases w"
  "gd_checkpoints (publish_record cd batch result w) = gd_checkpoints w"
  "gd_stream_bookmarks (publish_record cd batch result w) = gd_stream_bookmarks w"
  "gd_admin (publish_record cd batch result w) = gd_admin w"
  "gd_export (publish_record cd batch result w) = gd_export w"
  by (simp_all add: publish_record_def Let_def)

text \<open>Everything outside the log, the bookmarks and the producers is untouched.\<close>

definition publish_frame :: "group_db \<Rightarrow> group_db \<Rightarrow> bool" where
  "publish_frame w w' \<longleftrightarrow>
     w' = w\<lparr>gd_log := gd_log w', gd_bookmarks := gd_bookmarks w', gd_producers := gd_producers w'\<rparr>"

lemma publish_bookmark_cases:
  assumes "publish_bookmark cd l ordinal p name off w = Inr (w', created)"
  obtains (conflict) "w' = w" "created = Inl BookmarkNameConflict"
  | (created) b where "created = Inr b" "w' = w\<lparr>gd_bookmarks := put_bookmark b (gd_bookmarks w)\<rparr>"
      "tget (bk_ids (gd_bookmarks w)) (cb_id b) = None" "cc_partition (cb_cursor b) = p" "cb_name b = name"
      "bookmark_publication_of (gd_bookmarks w) p < cb_publication b" "cb_lifecycle b = BookmarkAvailable"
      "cc_next_offset (cb_cursor b) = off"
  using assms
  by (auto simp: publish_bookmark_def Let_def bind_result_Inr CommittedBookmark_published_def
      checked_add_Some word_less_nat_alt split: if_splits)

text \<open>The two ways a publish that reaches the log can end.\<close>

lemma publish_append_Inr:
  assumes "publish_append cd staged l slot0 batch committed bookmark w = Inr (w', outcome)"
  obtains ret lg where "append_records l (gd_active_bank w) staged (pb_partition batch)
      (next_offset (gd_log w) (pb_partition batch)) slot0 0 (pb_records batch)
      (retention_of (gd_log w) (pb_partition batch), gd_log w) = Inr (ret, lg)"
    "(w', outcome) = publish_result cd batch (StoredPublished \<lparr>rc_request = pb_request batch,
        rc_range = committed, rc_bookmark = bookmark\<rparr>)
      (w\<lparr>gd_log := finish_append (pb_partition batch)
        (next_offset (gd_log w) (pb_partition batch) + of_nat (length (pb_records batch))) ret lg\<rparr>)"
  using assms by (auto simp: publish_append_def Let_def bind_result_Inr)

text \<open>The state in which the records are appended: the old one, perhaps with a new bookmark.\<close>

definition marks :: "PartitionKey \<Rightarrow> BookmarkName option \<Rightarrow> u64 \<Rightarrow> group_db \<Rightarrow> group_db \<Rightarrow> CommittedBookmark option \<Rightarrow> bool"
where
  "marks p name off w w1 bookmark \<longleftrightarrow>
     (case (name, bookmark) of
        (None, None) \<Rightarrow> w1 = w
      | (Some n, Some b) \<Rightarrow> w1 = w\<lparr>gd_bookmarks := put_bookmark b (gd_bookmarks w)\<rparr> \<and>
          tget (bk_ids (gd_bookmarks w)) (cb_id b) = None \<and> cc_partition (cb_cursor b) = p \<and> cb_name b = n \<and>
          bookmark_publication_of (gd_bookmarks w) p < cb_publication b \<and>
          cb_lifecycle b = BookmarkAvailable \<and> cc_next_offset (cb_cursor b) = off
      | _ \<Rightarrow> False)"

lemma marks_fields:
  assumes "marks p name off w w1 bookmark"
  shows "w1 = w\<lparr>gd_bookmarks := gd_bookmarks w1\<rparr>"
  using assms by (auto simp: marks_def split: option.splits)

lemma marks_ok:
  assumes "marks p name off w w1 bookmark" "bookmarks_ok (gd_bookmarks w)"
    and "\<And>n. name = Some n \<Longrightarrow> tget (bk_names (gd_bookmarks w)) (p, n) = None"
  shows "bookmarks_ok (gd_bookmarks w1)"
  using assms by (auto simp: marks_def intro!: put_bookmark_ok split: option.splits)

lemma publish_fresh_cases:
  assumes "publish_fresh cd staged l ordinal slot0 batch w = Inr (w', outcome)"
  obtains (rejected) rejection where
      "(w', outcome) = publish_result cd batch (StoredRejected rejection) w"
  | (accepted) w1 bookmark committed where
      "CommittedRecordRange_new (pb_partition batch) (next_offset (gd_log w) (pb_partition batch))
         (of_nat (length (pb_records batch))) = Inr committed"
      "marks (pb_partition batch) (pb_bookmark batch) (next_offset (gd_log w) (pb_partition batch) +
         of_nat (length (pb_records batch))) w w1 bookmark"
      "publish_append cd staged l slot0 batch committed bookmark w1 = Inr (w', outcome)"
proof -
  let ?p = "pb_partition batch" and ?first = "next_offset (gd_log w) (pb_partition batch)"
  let ?n = "of_nat (length (pb_records batch)) :: u64"
  show thesis
  proof (cases "CommittedRecordRange_new ?p ?first ?n")
    case (Inl e)
    with assms have "\<exists>rejection. (w', outcome) = publish_result cd batch (StoredRejected rejection) w"
      unfolding publish_fresh_def Let_def Inl sum.case
      by (cases e) (simp_all only: DomainError.case sum.inject sum.distinct, metis)
    then show thesis using rejected by blast
  next
    case (Inr committed)
    note range = this
    then consider
        (full) "(w', outcome) = publish_result cd batch (StoredRejected (RejInvalidRange ''partition byte position overflow'')) w"
      | (plain) "pb_bookmark batch = None" "publish_append cd staged l slot0 batch committed None w = Inr (w', outcome)"
      | (marked) name w1 created where "pb_bookmark batch = Some name"
          "publish_bookmark cd l ordinal ?p name (?first + ?n) w = Inr (w1, created)"
          "(case created of Inl _ \<Rightarrow> Inr (publish_result cd batch (StoredRejected RejBookmarkNameConflict) w1)
            | Inr b \<Rightarrow> publish_append cd staged l slot0 batch committed (Some b) w1) = Inr (w', outcome)"
      using assms
      by (auto simp: publish_fresh_def Let_def bind_result_Inr split: if_splits option.splits)
    then show thesis
    proof cases
      case full
      then show thesis by (rule rejected)
    next
      case plain
      then show thesis using accepted [OF range, of w None] by (simp add: marks_def)
    next
      case (marked name w1 created)
      from marked(2) show thesis
      proof (cases rule: publish_bookmark_cases)
        case conflict
        with marked(3) show thesis using rejected [of RejBookmarkNameConflict] by simp
      next
        case (created b)
        with marked(3) show thesis
          using accepted [OF range, of w1 "Some b"] marked(1) by (simp add: marks_def)
      qed
    qed
  qed
qed

text \<open>The effect of a fresh publish.\<close>

definition publish_effect ::
  "codec \<Rightarrow> GroupLogId \<Rightarrow> nat \<Rightarrow> PublishBatch \<Rightarrow> group_db \<Rightarrow> group_db \<Rightarrow> PublishReceipt result \<Rightarrow> bool" where
  "publish_effect cd l slot0 batch w w' res \<longleftrightarrow>
     (case res of
        Inl _ \<Rightarrow> gd_log w' = gd_log w \<and> gd_bookmarks w' = gd_bookmarks w
      | Inr receipt \<Rightarrow>
          appended l slot0 (pb_partition batch) (pb_records batch) (gd_log w) (gd_log w') \<and>
          pb_records batch \<noteq> [] \<and>
          rc_request receipt = pb_request batch \<and>
          rc_range receipt = \<lparr>rr_partition = pb_partition batch,
            rr_first = next_offset (gd_log w) (pb_partition batch), rr_count = of_nat (length (pb_records batch))\<rparr> \<and>
          (\<exists>w1. marks (pb_partition batch) (pb_bookmark batch)
             (next_offset (gd_log w') (pb_partition batch)) w w1 (rc_bookmark receipt) \<and>
             gd_bookmarks w' = gd_bookmarks w1))"

lemma publish_rejected_effect:
  assumes "(w', outcome) = publish_result cd batch (StoredRejected rejection) w" "log_ok (gd_log w)"
  shows "log_ok (gd_log w') \<and> publish_effect cd l slot0 batch w w' (io_result outcome) \<and> publish_frame w w' \<and>
    (\<exists>result. io_result outcome = as_result result \<and>
       gd_producers w' = gd_producers (publish_record cd batch result w))"
proof (intro conjI exI)
  show "io_result outcome = as_result (StoredRejected rejection)"
    "gd_producers w' = gd_producers (publish_record cd batch (StoredRejected rejection) w)"
    using assms(1) by (simp_all add: publish_result_def)
qed (use assms in \<open>cases rejection; simp add: publish_result_def publish_effect_def publish_frame_def
  as_result_def publish_record_def Let_def\<close>)+

lemma publish_fresh_effect:
  assumes run: "publish_fresh cd staged l ordinal slot0 batch w = Inr (w', outcome)"
    and ok: "log_ok (gd_log w)" and small: "length (pb_records batch) < 2 ^ 64"
  shows "log_ok (gd_log w') \<and> publish_effect cd l slot0 batch w w' (io_result outcome) \<and> publish_frame w w' \<and>
    (\<exists>result. io_result outcome = as_result result \<and>
       gd_producers w' = gd_producers (publish_record cd batch result w))"
  using run
proof (cases rule: publish_fresh_cases)
  case (rejected rejection)
  from publish_rejected_effect [OF this ok] show ?thesis .
next
  case (accepted w1 bookmark committed)
  let ?p = "pb_partition batch"
  note w1 = marks_fields [OF accepted(2)]
  from accepted(3) obtain ret lg where
    run: "append_records l (gd_active_bank w1) staged ?p (next_offset (gd_log w1) ?p) slot0 0
      (pb_records batch) (retention_of (gd_log w1) ?p, gd_log w1) = Inr (ret, lg)" and
    w': "(w', outcome) = publish_result cd batch (StoredPublished \<lparr>rc_request = pb_request batch,
        rc_range = committed, rc_bookmark = bookmark\<rparr>)
      (w1\<lparr>gd_log := finish_append ?p (next_offset (gd_log w1) ?p + of_nat (length (pb_records batch))) ret lg\<rparr>)"
    by (rule publish_append_Inr)
  have lg1: "gd_log w1 = gd_log w" by (subst w1) simp
  have log': "gd_log w' = finish_append ?p (next_offset (gd_log w) ?p + of_nat (length (pb_records batch))) ret lg"
    and bk': "gd_bookmarks w' = gd_bookmarks w1" and
    out: "io_result outcome = as_result (StoredPublished \<lparr>rc_request = pb_request batch,
        rc_range = committed, rc_bookmark = bookmark\<rparr>)"
    using w' lg1 by (simp_all add: publish_result_def)
  have appended: "log_ok (gd_log w')" "appended l slot0 ?p (pb_records batch) (gd_log w) (gd_log w')"
    using append_finish [OF ok accepted(1) small run [unfolded lg1] log'] by auto
  have nonempty: "pb_records batch \<noteq> []" using accepted(1) by (auto simp: range_new_Inr)
  have prod: "gd_producers w' = gd_producers (publish_record cd batch (StoredPublished
      \<lparr>rc_request = pb_request batch, rc_range = committed, rc_bookmark = bookmark\<rparr>) w)"
    using w' by (subst (asm) w1) (simp add: publish_result_def publish_record_def producer_session_def Let_def)
  have frame: "publish_frame w w'"
    using w' by (subst (asm) w1) (simp add: publish_result_def publish_record_def publish_frame_def Let_def)
  have "publish_effect cd l slot0 batch w w' (io_result outcome)"
    using appended(2) nonempty accepted(1,2) bk'
    by (auto simp: publish_effect_def out as_result_def range_new_Inr appended_def)
  with appended(1) prod frame out show ?thesis by blast
qed

text \<open>The effect of any publish: nothing, when the outcome was known or cannot be recorded, or a fresh one.\<close>

lemma publish_one_cases:
  assumes "publish_one cd staged l ordinal slot0 batch prior w = Inr (w', outcome)"
    and "log_ok (gd_log w)" "length (pb_records batch) < 2 ^ 64"
  obtains (unchanged) "w' = w"
  | (fresh) result where "prior = None" "\<not> publish_expired cd w batch"
      "pb_cluster batch = gi_cluster_id (gd_identity w)"
      "log_ok (gd_log w')" "publish_effect cd l slot0 batch w w' (io_result outcome)" "publish_frame w w'"
      "io_result outcome = as_result result" "gd_producers w' = gd_producers (publish_record cd batch result w)"
      "bookmark_taken w batch \<Longrightarrow> gd_bookmarks w' = gd_bookmarks w"
proof (cases "w' = w")
  case True
  then show thesis by (rule unchanged)
next
  case False
  with assms(1) have c: "pb_cluster batch = gi_cluster_id (gd_identity w)" "prior = None"
    "\<not> publish_expired cd w batch"
    by (auto simp: publish_one_def Let_def split: if_splits option.splits)
  show thesis
  proof (cases "bookmark_taken w batch")
    case True
    with assms(1) c have r: "(w', outcome) = publish_result cd batch (StoredRejected RejBookmarkNameConflict) w"
      by (simp add: publish_one_def Let_def)
    from publish_rejected_effect [OF r assms(2)] r show thesis
      by (auto intro: fresh [OF c(2,3,1)] simp: publish_result_def)
  next
    case False
    with assms(1) c have r: "publish_fresh cd staged l ordinal slot0 batch w = Inr (w', outcome)"
      by (simp add: publish_one_def Let_def)
    from publish_fresh_effect [OF r assms(2,3)] False show thesis
      by (auto intro: fresh [OF c(2,3,1)])
  qed
qed

section \<open>Producer sessions\<close>

text \<open>
  Every producer session is well formed, and the receipts of its retained sequences are the only ones
  the window lets a producer replay.
\<close>

definition sessions_ok :: "nat \<Rightarrow> (bytes, SessionState) table \<Rightarrow> bool" where
  "sessions_ok window sessions \<longleftrightarrow> 0 < window \<and> (\<forall>k. session_ok window (tget_or SessionState_default sessions k))"

lemma sessions_ok_empty: "0 < window \<Longrightarrow> sessions_ok window []"
  by (simp add: sessions_ok_def tget_or_def)

lemma sessions_ok_put:
  assumes "sessions_ok window sessions" "session_ok window s"
  shows "sessions_ok window (tput sessions k s)"
  using assms by (simp add: sessions_ok_def)

lemma publish_record_sessions:
  assumes "sessions_ok (gd_receipt_window w) (ps_sessions (gd_producers w))" "\<not> publish_expired cd w batch"
  shows "sessions_ok (gd_receipt_window w) (ps_sessions (gd_producers (publish_record cd batch result w)))"
proof -
  let ?s = "producer_session cd w (pb_partition batch) (pb_request batch)"
  have "session_ok (gd_receipt_window w) (fst (session_push (gd_receipt_window w) (pr_sequence (pb_request batch)) ?s))"
    using assms by (intro session_ok_push) (auto simp: sessions_ok_def publish_expired_def producer_session_def)
  with assms(1) show ?thesis
    by (auto simp: publish_record_def push_session_def Let_def split: prod.splits intro: sessions_ok_put)
qed

section \<open>The invariant publishing keeps\<close>

definition publish_ok :: "group_db \<Rightarrow> bool" where
  "publish_ok w \<longleftrightarrow> log_ok (gd_log w) \<and> bookmarks_ok (gd_bookmarks w) \<and>
     sessions_ok (gd_receipt_window w) (ps_sessions (gd_producers w))"

text \<open>
  The log only grows: tails do not move back, a record below the tail stays what it is, and floors,
  cursors and hints stay.
\<close>

definition log_extends :: "log_state \<Rightarrow> log_state \<Rightarrow> bool" where
  "log_extends lg lg' \<longleftrightarrow>
     same_retention lg lg' \<and> (\<forall>p. next_offset lg p \<le> next_offset lg' p) \<and>
     (\<forall>p off. off < next_offset lg p \<longrightarrow> records_of lg' p off = records_of lg p off)"

lemma log_extends_refl [simp]: "log_extends lg lg"
  by (simp add: log_extends_def)

lemma log_extends_trans:
  assumes "log_extends a b" "log_extends b c"
  shows "log_extends a c"
proof -
  have "off < next_offset b p" if "off < next_offset a p" for p off
    using assms(1) that unfolding log_extends_def by (meson order_less_le_trans)
  with assms show ?thesis unfolding log_extends_def by (metis order_trans same_retention_trans)
qed

lemma appended_extends: "appended l slot0 p rs lg lg' \<Longrightarrow> log_extends lg lg'"
  unfolding log_extends_def appended_def
  by (auto simp: word_le_nat_alt unat_word_ariths unat_of_nat)

lemma publish_frame_refl [simp]: "publish_frame w w"
  by (simp add: publish_frame_def)

lemma publish_frame_fields:
  assumes "publish_frame w w'"
  shows "gd_receipt_window w' = gd_receipt_window w" "gd_identity w' = gd_identity w"
    "gd_active_bank w' = gd_active_bank w" "gd_catalog w' = gd_catalog w"
  by (subst assms [unfolded publish_frame_def], simp)+

lemma publish_frame_trans: "publish_frame a b \<Longrightarrow> publish_frame b c \<Longrightarrow> publish_frame a c"
proof -
  assume ab: "publish_frame a b" and bc: "publish_frame b c"
  have "c = b\<lparr>gd_log := gd_log c, gd_bookmarks := gd_bookmarks c, gd_producers := gd_producers c\<rparr>"
    using bc by (simp only: publish_frame_def)
  also have "\<dots> = a\<lparr>gd_log := gd_log c, gd_bookmarks := gd_bookmarks c, gd_producers := gd_producers c\<rparr>"
    by (subst ab [unfolded publish_frame_def]) simp
  finally show ?thesis by (simp only: publish_frame_def)
qed

lemma publish_one_keeps:
  assumes run: "publish_one cd staged l ordinal slot0 batch prior w = Inr (w', outcome)"
    and ok: "publish_ok w" and small: "length (pb_records batch) < 2 ^ 64"
  shows "publish_ok w' \<and> log_extends (gd_log w) (gd_log w') \<and> publish_frame w w'"
proof -
  have log: "log_ok (gd_log w)" using ok by (simp add: publish_ok_def)
  from run log small show ?thesis
  proof (cases rule: publish_one_cases)
    case unchanged
    with ok show ?thesis by simp
  next
    case (fresh result)
    have sessions: "sessions_ok (gd_receipt_window w') (ps_sessions (gd_producers w'))"
      using ok fresh publish_frame_fields(1) [OF fresh(6)] publish_record_sessions [of w cd batch result]
      by (simp add: publish_ok_def)
    have "bookmarks_ok (gd_bookmarks w') \<and> log_extends (gd_log w) (gd_log w')"
    proof (cases "io_result outcome")
      case (Inl e)
      with fresh(5) ok show ?thesis by (simp add: publish_effect_def publish_ok_def)
    next
      case (Inr receipt)
      with fresh(5) obtain w1 where e: "appended l slot0 (pb_partition batch) (pb_records batch) (gd_log w) (gd_log w')"
        "marks (pb_partition batch) (pb_bookmark batch) (next_offset (gd_log w') (pb_partition batch)) w w1
          (rc_bookmark receipt)" "gd_bookmarks w' = gd_bookmarks w1"
        by (auto simp: publish_effect_def)
      have "bookmarks_ok (gd_bookmarks w')"
      proof (cases "bookmark_taken w batch")
        case True
        with fresh(9) ok show ?thesis by (simp add: publish_ok_def)
      next
        case False
        with ok show ?thesis unfolding e(3)
          by (intro marks_ok [OF e(2)]) (auto simp: publish_ok_def bookmark_taken_def)
      qed
      with appended_extends [OF e(1)] show ?thesis by blast
    qed
    with sessions fresh(4,6) show ?thesis by (simp add: publish_ok_def)
  qed
qed

lemma publish_one_request:
  assumes "publish_one cd staged l ordinal slot0 batch prior w = Inr (w', outcome)"
  shows "io_request outcome = pb_request batch"
proof -
  have append: "io_request outcome = pb_request batch"
    if "publish_append cd staged l slot0 batch committed bookmark w1 = Inr (w', outcome)" for committed bookmark w1
    using that by (auto simp: publish_append_def publish_result_def Let_def bind_result_Inr)
  have "io_request outcome = pb_request batch"
    if "publish_fresh cd staged l ordinal slot0 batch w = Inr (w', outcome)"
    using that by (cases rule: publish_fresh_cases) (auto simp: publish_result_def intro: append)
  with assms show ?thesis
    by (auto simp: publish_one_def publish_result_def Let_def split: if_splits option.splits)
qed

lemma publish_many_loop_Cons:
  "publish_many_loop cd db l cluster ordinal slot (b # bs) tx = Inr (tx', outcomes) \<longleftrightarrow>
    (\<exists>tx1 o1 slot1 outs.
       (if pb_cluster b \<noteq> cluster
        then Inr (tx, \<lparr>io_request = pb_request b, io_result =
          Inl (IdentityMismatch ''publish cluster does not match the data group'')\<rparr>)
        else txn_apply_one cd db l ordinal slot b tx) = Inr (tx1, o1) \<and>
       usize_checked_add slot (length (pb_records b)) = Some slot1 \<and>
       publish_many_loop cd db l cluster (Suc ordinal) slot1 bs tx1 = Inr (tx', outs) \<and>
       outcomes = o1 # outs)"
  unfolding publish_many_loop.simps bind_result_Inr split_paired_Ex prod.case ok_or_Inr by blast

lemma publish_many_loop_keeps:
  assumes "publish_many_loop cd db l cluster ordinal slot bs tx = Inr (tx', outcomes)"
    and "coherent db tx" "publish_ok (tx_write tx)" "\<forall>b \<in> set bs. length (pb_records b) < 2 ^ 64"
  shows "publish_ok (tx_write tx') \<and> log_extends (gd_log (tx_write tx)) (gd_log (tx_write tx')) \<and>
    publish_frame (tx_write tx) (tx_write tx') \<and> map io_request outcomes = map pb_request bs"
  using assms
proof (induction bs arbitrary: ordinal slot tx outcomes)
  case (Cons b bs)
  from Cons.prems(1) obtain tx1 o1 slot1 outs where
    one: "(if pb_cluster b \<noteq> cluster
        then Inr (tx, \<lparr>io_request = pb_request b, io_result =
          Inl (IdentityMismatch ''publish cluster does not match the data group'')\<rparr>)
        else txn_apply_one cd db l ordinal slot b tx) = Inr (tx1, o1)" and
    rest: "publish_many_loop cd db l cluster (Suc ordinal) slot1 bs tx1 = Inr (tx', outs)"
      "outcomes = o1 # outs"
    unfolding publish_many_loop_Cons by blast
  have step: "coherent db tx1 \<and> publish_ok (tx_write tx1) \<and>
      log_extends (gd_log (tx_write tx)) (gd_log (tx_write tx1)) \<and>
      publish_frame (tx_write tx) (tx_write tx1) \<and> io_request o1 = pb_request b"
  proof (cases "pb_cluster b \<noteq> cluster")
    case True
    with one Cons.prems show ?thesis by auto
  next
    case False
    with one refines_apply_one [OF Cons.prems(2), of cd l ordinal slot b]
    obtain prior where "coherent db tx1"
      "publish_one cd (gd_log db) l ordinal slot b prior (tx_write tx) = Inr (tx_write tx1, o1)"
      by (auto simp: refines_def)
    with publish_one_keeps [OF this(2)] publish_one_request [OF this(2)] Cons.prems show ?thesis by simp
  qed
  from Cons.IH [OF rest(1)] step Cons.prems(4)
  have "publish_ok (tx_write tx') \<and> log_extends (gd_log (tx_write tx1)) (gd_log (tx_write tx')) \<and>
      publish_frame (tx_write tx1) (tx_write tx') \<and> map io_request outs = map pb_request bs" by simp
  with step rest(2) show ?case
    using log_extends_trans publish_frame_trans by (metis list.simps(9))
qed simp

end
