(* ===== verification/Publish_Properties.thy ===== *)
theory Publish_Properties
  imports Publish_Effects
begin

text \<open>
  The properties of publishing: a replicated batch acts as its requests one by one, keeps the group's
  invariants and never rewrites a committed record; an acknowledged request has its payloads at the
  offsets of its receipt; a retry is answered with the recorded outcome.
\<close>

section \<open>Acknowledged records\<close>

lemma publish_record_receipts:
  assumes "key \<noteq> receipt_key cd (pb_partition batch) (pb_request batch)"
    and "tget (ps_receipts (gd_producers w)) key = None"
  shows "tget (ps_receipts (gd_producers (publish_record cd batch result w))) key = None"
  using assms by (auto simp: publish_record_def push_session_def Let_def split: prod.splits option.splits)

lemma publish_sequence_Cons:
  "publish_sequence cd staged l cluster ordinal slot (b # bs) w = Inr (w', outcomes) \<longleftrightarrow>
    (\<exists>w1 o1 slot1 outs.
       (if pb_cluster b \<noteq> cluster
        then Inr (w, \<lparr>io_request = pb_request b, io_result =
          Inl (IdentityMismatch ''publish cluster does not match the data group'')\<rparr>)
        else publish_one cd staged l ordinal slot b (prior_publish_outcome cd w b) w) = Inr (w1, o1) \<and>
       usize_checked_add slot (length (pb_records b)) = Some slot1 \<and>
       publish_sequence cd staged l cluster (Suc ordinal) slot1 bs w1 = Inr (w', outs) \<and>
       outcomes = o1 # outs)"
  unfolding publish_sequence.simps bind_result_Inr split_paired_Ex prod.case ok_or_Inr by blast

text \<open>The records of a receipt: consecutive offsets of its partition, one per payload of the request.\<close>

definition holds_records ::
  "GroupLogId \<Rightarrow> nat \<Rightarrow> PublishBatch \<Rightarrow> PublishReceipt \<Rightarrow> log_state \<Rightarrow> bool" where
  "holds_records l slot b receipt lg \<longleftrightarrow>
     rr_partition (rc_range receipt) = pb_partition b \<and>
     rr_count (rc_range receipt) = of_nat (length (pb_records b)) \<and>
     unat (rr_first (rc_range receipt)) + length (pb_records b) \<le> unat (next_offset lg (pb_partition b)) \<and>
     (\<forall>j < length (pb_records b).
        indexes (records_of lg (pb_partition b) (rr_first (rc_range receipt) + of_nat j))
          (payload_id l (slot + j)) (pb_records b ! j))"

lemma holds_records_extends:
  assumes "holds_records l slot b receipt lg" "log_extends lg lg'"
  shows "holds_records l slot b receipt lg'"
proof -
  let ?p = "pb_partition b" and ?first = "rr_first (rc_range receipt)"
  have le: "unat (next_offset lg ?p) \<le> unat (next_offset lg' ?p)"
    using assms(2) by (simp add: log_extends_def word_le_nat_alt)
  have room: "unat ?first + length (pb_records b) \<le> unat (next_offset lg ?p)"
    using assms(1) by (simp add: holds_records_def)
  have "records_of lg' ?p (?first + of_nat j) = records_of lg ?p (?first + of_nat j)"
    if "j < length (pb_records b)" for j
  proof -
    have "unat ?first + j < 2 ^ 64" using room that unat_lt_width [of "next_offset lg ?p"] by simp
    then have "unat (?first + of_nat j) = unat ?first + j" by (simp add: unat_word_ariths unat_of_nat)
    then have "?first + of_nat j < next_offset lg ?p" using room that by (simp add: word_less_nat_alt)
    with assms(2) show ?thesis by (simp add: log_extends_def)
  qed
  with assms(1) le show ?thesis by (simp add: holds_records_def)
qed

lemma publish_one_acknowledged:
  assumes run: "publish_one cd staged l ordinal slot b (prior_publish_outcome cd w b) w = Inr (w', outcome)"
    and ok: "publish_ok w" and small: "length (pb_records b) < 2 ^ 64"
    and new: "tget (ps_receipts (gd_producers w)) (receipt_key cd (pb_partition b) (pb_request b)) = None"
    and ack: "io_result outcome = Inr receipt"
  shows "rc_request receipt = pb_request b \<and> holds_records l slot b receipt (gd_log w')"
proof -
  have none: "prior_publish_outcome cd w b = None" using new by (simp add: prior_publish_outcome_def)
  have log: "log_ok (gd_log w)" using ok by (simp add: publish_ok_def)
  from run ack none have fresh: "publish_fresh cd staged l ordinal slot b w = Inr (w', outcome)"
    by (auto simp: publish_one_def publish_result_def Let_def as_result_def split: if_splits)
  from publish_fresh_effect [OF fresh log small] ack
  have e: "publish_effect cd l slot b w w' (Inr receipt)" by simp
  let ?p = "pb_partition b"
  have "unat (next_offset (gd_log w) ?p + of_nat (length (pb_records b))) =
      unat (next_offset (gd_log w) ?p) + length (pb_records b)"
    using e small by (simp add: publish_effect_def appended_def unat_word_ariths unat_of_nat)
  with e show ?thesis by (simp add: publish_effect_def appended_def holds_records_def)
qed

lemma publish_one_receipts:
  assumes "publish_one cd staged l ordinal slot b prior w = Inr (w', outcome)"
    and "publish_ok w" "length (pb_records b) < 2 ^ 64"
    and "key \<noteq> receipt_key cd (pb_partition b) (pb_request b)" "tget (ps_receipts (gd_producers w)) key = None"
  shows "tget (ps_receipts (gd_producers w')) key = None"
proof -
  have "log_ok (gd_log w)" using assms(2) by (simp add: publish_ok_def)
  from assms(1) this assms(3) show ?thesis
    by (cases rule: publish_one_cases) (use assms(4,5) publish_record_receipts in auto)
qed

definition slot_of :: "PublishBatch list \<Rightarrow> nat \<Rightarrow> nat" where
  "slot_of bs i = sum_list (map (length \<circ> pb_records) (take i bs))"

lemma slot_of_simps [simp]:
  "slot_of bs 0 = 0" "slot_of (b # bs) (Suc i) = length (pb_records b) + slot_of bs i"
  by (simp_all add: slot_of_def)

lemma publish_sequence_acknowledged:
  assumes "publish_sequence cd staged l cluster ordinal slot bs w = Inr (w', outcomes)"
    and "publish_ok w" "\<forall>b \<in> set bs. length (pb_records b) < 2 ^ 64"
    and "distinct (map (\<lambda>b. receipt_key cd (pb_partition b) (pb_request b)) bs)"
    and "\<forall>b \<in> set bs. tget (ps_receipts (gd_producers w)) (receipt_key cd (pb_partition b) (pb_request b)) = None"
  shows "log_extends (gd_log w) (gd_log w') \<and> length outcomes = length bs \<and>
    (\<forall>i < length bs. \<forall>receipt. io_result (outcomes ! i) = Inr receipt \<longrightarrow>
       rc_request receipt = pb_request (bs ! i) \<and>
       holds_records l (slot + slot_of bs i) (bs ! i) receipt (gd_log w'))"
  using assms
proof (induction bs arbitrary: ordinal slot w outcomes)
  case (Cons b bs)
  let ?key = "\<lambda>b. receipt_key cd (pb_partition b) (pb_request b)"
  from Cons.prems(1) obtain w1 o1 slot1 outs where
    one: "(if pb_cluster b \<noteq> cluster
        then Inr (w, \<lparr>io_request = pb_request b, io_result =
          Inl (IdentityMismatch ''publish cluster does not match the data group'')\<rparr>)
        else publish_one cd staged l ordinal slot b (prior_publish_outcome cd w b) w) = Inr (w1, o1)" and
    slot1: "usize_checked_add slot (length (pb_records b)) = Some slot1" and
    rest: "publish_sequence cd staged l cluster (Suc ordinal) slot1 bs w1 = Inr (w', outs)"
      "outcomes = o1 # outs"
    unfolding publish_sequence_Cons by blast
  have small: "length (pb_records b) < 2 ^ 64" and new: "tget (ps_receipts (gd_producers w)) (?key b) = None"
    using Cons.prems(3,5) by simp_all
  have slot1: "slot1 = slot + length (pb_records b)"
    using slot1 by (simp add: usize_checked_add_def split: if_splits)
  have step: "publish_ok w1 \<and> log_extends (gd_log w) (gd_log w1) \<and>
      (\<forall>c \<in> set bs. tget (ps_receipts (gd_producers w1)) (?key c) = None) \<and>
      (\<forall>receipt. io_result o1 = Inr receipt \<longrightarrow>
        rc_request receipt = pb_request b \<and> holds_records l slot b receipt (gd_log w1))"
  proof (cases "pb_cluster b \<noteq> cluster")
    case True
    with one Cons.prems show ?thesis by auto
  next
    case False
    with one have run: "publish_one cd staged l ordinal slot b (prior_publish_outcome cd w b) w = Inr (w1, o1)"
      by simp
    have others: "tget (ps_receipts (gd_producers w1)) (?key c) = None" if "c \<in> set bs" for c
    proof -
      have "?key c \<in> ?key ` set bs" using that by blast
      moreover have "?key b \<notin> ?key ` set bs" using Cons.prems(4) by simp
      ultimately have "?key c \<noteq> ?key b" by metis
      then show ?thesis
        using publish_one_receipts [OF run Cons.prems(2) small] Cons.prems(5) that by simp
    qed
    from publish_one_keeps [OF run Cons.prems(2) small] others
      publish_one_acknowledged [OF run Cons.prems(2) small new] show ?thesis by blast
  qed
  have prems: "\<forall>c \<in> set bs. length (pb_records c) < 2 ^ 64" "distinct (map ?key bs)"
    using Cons.prems(3,4) by simp_all
  note run = Cons.IH [OF rest(1) conjunct1 [OF step] prems conjunct1 [OF conjunct2 [OF conjunct2 [OF step]]]]
  have IH: "log_extends (gd_log w1) (gd_log w')" "length outs = length bs"
    "i < length bs \<Longrightarrow> io_result (outs ! i) = Inr receipt \<Longrightarrow> rc_request receipt = pb_request (bs ! i) \<and>
      holds_records l (slot1 + slot_of bs i) (bs ! i) receipt (gd_log w')" for i receipt
    using run by blast+
  show ?case
  proof (intro conjI allI impI)
    show "log_extends (gd_log w) (gd_log w')" using step IH(1) log_extends_trans by blast
    show "length outcomes = length (b # bs)" using rest(2) IH(2) by simp
  next
    fix i receipt assume i: "i < length (b # bs)" "io_result (outcomes ! i) = Inr receipt"
    have "rc_request receipt = pb_request ((b # bs) ! i) \<and>
        holds_records l (slot + slot_of (b # bs) i) ((b # bs) ! i) receipt (gd_log w')"
    proof (cases i)
      case 0
      with i(2) rest(2) have "io_result o1 = Inr receipt" by simp
      with step have "rc_request receipt = pb_request b" "holds_records l slot b receipt (gd_log w1)" by blast+
      with holds_records_extends [OF this(2) IH(1)] 0 show ?thesis by simp
    next
      case (Suc k)
      with i rest(2) have "k < length bs" "io_result (outs ! k) = Inr receipt" by simp_all
      from IH(3) [OF this] Suc slot1 show ?thesis by (simp add: add.assoc)
    qed
    then show "rc_request receipt = pb_request ((b # bs) ! i)"
      "holds_records l (slot + slot_of (b # bs) i) ((b # bs) ! i) receipt (gd_log w')" by simp_all
  qed
qed simp

section \<open>Retries\<close>

text \<open>
  A request that was answered is answered the same way again. The handler of one request is an
  instance of \<open>idempotent_handler\<close>: its receipt log is the outcome table of the producers.
\<close>

definition publish_prior :: "codec \<Rightarrow> group_db \<Rightarrow> PublishBatch \<Rightarrow> PublishReceipt result option" where
  "publish_prior cd db batch =
     (case prior_publish_outcome cd db batch of
        Some r \<Rightarrow> Some r
      | None \<Rightarrow> if publish_expired cd db batch then Some (Inl ReceiptExpired) else None)"

definition stored_of :: "PublishReceipt result \<Rightarrow> StoredPublishResult" where
  "stored_of r =
     (case r of
        Inr receipt \<Rightarrow> StoredPublished receipt
      | Inl (InvalidRange reason) \<Rightarrow> StoredRejected (RejInvalidRange reason)
      | Inl _ \<Rightarrow> StoredRejected RejBookmarkNameConflict)"

definition publish_store ::
  "codec \<Rightarrow> group_db \<Rightarrow> PublishBatch \<Rightarrow> PublishReceipt result \<Rightarrow> group_db \<Rightarrow> group_db" where
  "publish_store cd db batch res w =
     (let p = pb_partition batch; request = pb_request batch; ps = gd_producers w
      in w\<lparr>gd_producers := push_session cd (gd_receipt_window db) batch (producer_session cd db p request)
           (ps\<lparr>ps_receipts := tput (ps_receipts ps) (receipt_key cd p request)
              (VersionedOutcome \<lparr>vo_fingerprint = fingerprint cd batch, vo_result = stored_of res\<rparr>)\<rparr>)\<rparr>)"

definition publish_storable :: "PublishReceipt result \<Rightarrow> bool" where
  "publish_storable res \<longleftrightarrow> as_result (stored_of res) = res"

text \<open>The receipt key of the request collides with none of the keys its own window may evict.\<close>

definition publish_keys_apart :: "codec \<Rightarrow> group_db \<Rightarrow> PublishBatch \<Rightarrow> bool" where
  "publish_keys_apart cd db batch \<longleftrightarrow>
     0 < gd_receipt_window db \<and>
     (\<forall>q \<in> set (ss_retained_sequences (producer_session cd db (pb_partition batch) (pb_request batch))).
        receipt_key cd (pb_partition batch) ((pb_request batch)\<lparr>pr_sequence := q\<rparr>) \<noteq>
        receipt_key cd (pb_partition batch) (pb_request batch))"

definition publish_handle ::
  "codec \<Rightarrow> group_db \<Rightarrow> PublishBatch \<Rightarrow> GroupLogId \<Rightarrow> (group_db \<times> PublishReceipt result) io" where
  "publish_handle cd db batch l =
     bind_result (publish_one cd (gd_log db) l 0 0 batch (prior_publish_outcome cd db batch) db)
       (\<lambda>(w, outcome). Inr (w, io_result outcome))"

lemma stored_of_as_result [simp]: "stored_of (as_result r) = r"
  by (cases r) (auto simp: stored_of_def as_result_def split: StoredPublishRejection.splits)

lemma publish_store_lookup:
  assumes "publish_keys_apart cd db batch"
  shows "tget (ps_receipts (gd_producers (publish_store cd db batch res w)))
      (receipt_key cd (pb_partition batch) (pb_request batch)) =
    Some (VersionedOutcome \<lparr>vo_fingerprint = fingerprint cd batch, vo_result = stored_of res\<rparr>)"
  using assms
  by (auto simp: publish_store_def push_session_def publish_keys_apart_def Let_def
      split: prod.splits option.splits dest!: session_push_evicts [OF sndI])

lemma publish_store_identity [simp]: "gd_identity (publish_store cd db batch res w) = gd_identity w"
  by (simp add: publish_store_def Let_def)

text \<open>A publish that was not answered from the receipts is recorded.\<close>

lemma publish_one_stores:
  assumes "publish_one cd staged l ordinal slot0 batch None w = Inr (w', outcome)"
    and "pb_cluster batch = gi_cluster_id (gd_identity w)" "\<not> publish_expired cd w batch"
  shows "publish_storable (io_result outcome) \<and> gd_identity w' = gd_identity w \<and>
    (\<exists>w0. w' = publish_store cd w batch (io_result outcome) w0)"
proof -
  have recorded: "publish_record cd batch (stored_of (as_result result)) w1 = publish_store cd w batch (as_result result) w1"
    if "producer_session cd w1 (pb_partition batch) (pb_request batch) =
        producer_session cd w (pb_partition batch) (pb_request batch)"
      "gd_receipt_window w1 = gd_receipt_window w" for w1 result
    using that by (simp add: publish_record_def publish_store_def Let_def)
  have stored: "publish_storable (io_result outcome) \<and> gd_identity w' = gd_identity w \<and>
      (\<exists>w0. w' = publish_store cd w batch (io_result outcome) w0)"
    if "(w', outcome) = publish_result cd batch result w1" "gd_identity w1 = gd_identity w"
      "gd_producers w1 = gd_producers w" "gd_receipt_window w1 = gd_receipt_window w" for result w1
    using that recorded [of w1 result]
    by (auto simp: publish_result_def publish_storable_def producer_session_def)
  show ?thesis
  proof (cases "bookmark_taken w batch")
    case True
    with assms have "(w', outcome) = publish_result cd batch (StoredRejected RejBookmarkNameConflict) w"
      by (simp add: publish_one_def Let_def)
    then show ?thesis by (rule stored) simp_all
  next
    case False
    with assms have "publish_fresh cd staged l ordinal slot0 batch w = Inr (w', outcome)"
      by (simp add: publish_one_def Let_def)
    then show ?thesis
    proof (cases rule: publish_fresh_cases)
      case (rejected rejection)
      then show ?thesis by (rule stored) simp_all
    next
      case (accepted w1 bookmark committed)
      note w1 = marks_fields [OF accepted(2)]
      from accepted(3) show ?thesis
        by (rule publish_append_Inr, elim stored) (subst w1, simp)+
    qed
  qed
qed

interpretation publish: idempotent_handler "publish_prior cd" "publish_store cd" "publish_keys_apart cd"
  publish_storable "\<lambda>db batch. pb_cluster batch = gi_cluster_id (gd_identity db)" "publish_handle cd" for cd
proof
  fix db batch res w
  assume "publish_keys_apart cd db batch" "publish_storable res"
  then show "publish_prior cd (publish_store cd db batch res w) batch = Some res"
    using publish_store_lookup [of cd db batch res w]
    by (simp add: publish_prior_def prior_publish_outcome_def versioned_outcome_def publish_storable_def)
next
  fix db batch res l
  assume "pb_cluster batch = gi_cluster_id (gd_identity db)" "publish_prior cd db batch = Some res"
  then show "publish_handle cd db batch l = Inr (db, res)"
    by (auto simp: publish_handle_def publish_one_def publish_prior_def Let_def
        split: option.splits if_splits)
next
  fix db batch l w res
  assume a: "pb_cluster batch = gi_cluster_id (gd_identity db)" "publish_prior cd db batch = None"
    "publish_handle cd db batch l = Inr (w, res)"
  then have "prior_publish_outcome cd db batch = None" "\<not> publish_expired cd db batch"
    by (auto simp: publish_prior_def split: option.splits if_splits)
  with a publish_one_stores show "publish_storable res \<and> (\<exists>w0. w = publish_store cd db batch res w0)"
    by (fastforce simp: publish_handle_def bind_result_Inr)
next
  fix db batch l w res
  assume a: "pb_cluster batch = gi_cluster_id (gd_identity db)" "publish_handle cd db batch l = Inr (w, res)"
  then obtain o1 where run: "publish_one cd (gd_log db) l 0 0 batch (prior_publish_outcome cd db batch) db = Inr (w, o1)"
    by (auto simp: publish_handle_def bind_result_Inr)
  show "pb_cluster batch = gi_cluster_id (gd_identity w)"
  proof (cases "prior_publish_outcome cd db batch = None \<and> \<not> publish_expired cd db batch")
    case True
    with run publish_one_stores [of cd "gd_log db" l 0 0 batch db w o1] a show ?thesis by simp
  next
    case False
    with run a show ?thesis by (auto simp: publish_one_def Let_def split: option.splits if_splits)
  qed
qed

section \<open>A concrete batch\<close>

definition demo_entry :: GroupLogId where
  "demo_entry = \<lparr>li_term = 1, li_node = 1, li_index = 5\<rparr>"

definition staged_owners :: PayloadOwners where
  "staged_owners = \<lparr>po_raft_log = True, po_applied_state = False, po_applied_banks = 0\<rparr>"

text \<open>A bootstrapped data group that holds the staged payloads of one entry with three records.\<close>

definition demo_data :: group_db where
  "demo_data = (empty_group (GroupIdentity_new 9 2 DataGroup) 2)
     \<lparr>gd_catalog := (gd_catalog (empty_group (GroupIdentity_new 9 2 DataGroup) 2))
        \<lparr>ct_bootstrap := Some \<lparr>bs_cluster = 9, bs_stream = 4, bs_stream_name = [115]\<rparr>\<rparr>,
      gd_log := empty_log\<lparr>lg_owners :=
        [(payload_id demo_entry 0, staged_owners), (payload_id demo_entry 1, staged_owners),
         (payload_id demo_entry 2, staged_owners)]\<rparr>\<rparr>"

definition demo_request :: "u64 \<Rightarrow> bytes list \<Rightarrow> PublishBatch" where
  "demo_request sequence recs =
     \<lparr>pb_cluster = 9, pb_partition = PartitionKey 4 0,
      pb_request = \<lparr>pr_principal = [112], pr_session = 7, pr_sequence = sequence\<rparr>,
      pb_records = recs, pb_bookmark = None\<rparr>"

definition demo_requests :: "PublishBatch list" where
  "demo_requests = [demo_request 1 [[1, 2], [3]], demo_request 2 [[4]]]"

lemma demo_data_simps [simp]:
  "gd_producers demo_data = \<lparr>ps_receipts = [], ps_sessions = []\<rparr>"
  "gd_bookmarks demo_data = \<lparr>bk_ids = [], bk_names = [], bk_order = [], bk_publication = []\<rparr>"
  "gd_receipt_window demo_data = 2" "kind_is_data demo_data"
  "gd_identity demo_data = GroupIdentity_new 9 2 DataGroup"
  "ct_bootstrap (gd_catalog demo_data) = Some \<lparr>bs_cluster = 9, bs_stream = 4, bs_stream_name = [115]\<rparr>"
  by (simp_all add: demo_data_def empty_group_def kind_is_data_def GroupIdentity_new_def)

lemma demo_data_ok: "publish_ok demo_data"
proof -
  have "records_of (gd_log demo_data) = records_of empty_log" "retention_of (gd_log demo_data) = retention_of empty_log"
    "next_offset (gd_log demo_data) = next_offset empty_log" "lg_records (gd_log demo_data) = []"
    by (simp_all add: demo_data_def records_of_def retention_of_def next_offset_def empty_log_def fun_eq_iff)
  then have "log_ok (gd_log demo_data)" using log_ok_empty by (simp add: log_ok_def partition_ok_def)
  then show ?thesis
    by (simp add: publish_ok_def sessions_ok_empty bookmarks_ok_def bookmark_publication_of_def)
qed

lemma demo_receipt_key [simp]:
  "receipt_key demo_codec (PartitionKey 4 0) \<lparr>pr_principal = [112], pr_session = 7, pr_sequence = a\<rparr> =
   receipt_key demo_codec (PartitionKey 4 0) \<lparr>pr_principal = [112], pr_session = 7, pr_sequence = b\<rparr> \<longleftrightarrow> a = b"
  by (auto simp: receipt_key_def demo_codec_def)

lemma demo_payload_id [simp]:
  "payload_id demo_entry 0 \<noteq> payload_id demo_entry (Suc 0)" "payload_id demo_entry 0 \<noteq> payload_id demo_entry (Suc (Suc 0))"
  "payload_id demo_entry (Suc 0) \<noteq> payload_id demo_entry (Suc (Suc 0))"
  by (simp_all add: payload_id_inject)

lemmas publish_eval = apply_publish_many_def PublishApplyTxn_new_def txn_apply_one_def txn_prior_outcome_def
  txn_session_def txn_publish_def txn_next_offset_def txn_retention_def txn_commit_def txn_store_outcome_def
  txn_advance_session_def CommittedRecordRange_new_def offset_checked_add_def checked_add_def
  usize_checked_add_def Let_def tget_or_def sequence_expired_def session_push_def SessionState_default_def
  GroupIdentity_new_def finish_append_def index_record_def next_offset_def retention_of_def
  PartitionRetentionState_default_def

lemma demo_published:
  "\<exists>w. apply_publish_many demo_codec demo_data demo_entry demo_requests demo_data =
    Inr (w, PublishedMany
      [\<lparr>io_request = pb_request (demo_request 1 []), io_result = Inr \<lparr>rc_request = pb_request (demo_request 1 []),
         rc_range = \<lparr>rr_partition = PartitionKey 4 0, rr_first = 0, rr_count = 2\<rparr>, rc_bookmark = None\<rparr>\<rparr>,
       \<lparr>io_request = pb_request (demo_request 2 []), io_result = Inr \<lparr>rc_request = pb_request (demo_request 2 []),
         rc_range = \<lparr>rr_partition = PartitionKey 4 0, rr_first = 2, rr_count = 1\<rparr>, rc_bookmark = None\<rparr>\<rparr>])"
proof -
  have lg: "gd_log demo_data = empty_log\<lparr>lg_owners :=
        [(payload_id demo_entry 0, staged_owners), (payload_id demo_entry (Suc 0), staged_owners),
         (payload_id demo_entry (Suc (Suc 0)), staged_owners)]\<rparr>"
    by (simp add: demo_data_def numeral_2_eq_2)
  show ?thesis
    by (simp add: publish_eval demo_requests_def demo_request_def lg empty_log_def word_le_nat_alt)
qed

section \<open>Properties\<close>

lemma apply_publish_many_run:
  assumes "kind_is_data db" "ct_bootstrap (gd_catalog db) = Some spec"
  shows "apply_publish_many cd db l batches db =
    bind_result (publish_many_loop cd db l (bs_cluster spec) 0 0 batches (PublishApplyTxn_new db))
      (\<lambda>(tx, outcomes). Inr (tx_write tx, PublishedMany outcomes))"
  using assms by (simp add: apply_publish_many_def)

lemma coherent_start: "coherent db (PublishApplyTxn_new db)" "tx_write (PublishApplyTxn_new db) = db"
  by (rule coherent_new) (simp_all add: PublishApplyTxn_new_def)

text \<open>
  C1. A replicated batch is its requests applied one after the other: when no request of the batch has
  an outcome yet, the transaction with its seven read caches returns the outcomes, the failure and the
  state of the cacheless steps, each of which reads the state the previous one left.
\<close>

theorem publish_batch_sequential:
  assumes "kind_is_data db" "ct_bootstrap (gd_catalog db) = Some spec"
    and "\<forall>b \<in> set batches. tget (ps_receipts (gd_producers db))
      (receipt_key cd (pb_partition b) (pb_request b)) = None"
  shows "apply_publish_many cd db l batches db =
    bind_result (publish_sequence cd (gd_log db) l (bs_cluster spec) 0 0 batches db)
      (\<lambda>(w, outcomes). Inr (w, PublishedMany outcomes))"
proof -
  have "refines db (publish_many_loop cd db l (bs_cluster spec) 0 0 batches (PublishApplyTxn_new db))
      (publish_sequence cd (gd_log db) l (bs_cluster spec) 0 0 batches db)"
    using refines_publish_many_loop [OF coherent_start(1) assms(3)] by (simp only: coherent_start(2))
  then show ?thesis
    unfolding apply_publish_many_run [OF assms(1,2)]
    by (cases "publish_many_loop cd db l (bs_cluster spec) 0 0 batches (PublishApplyTxn_new db)")
      (auto simp: refines_def)
qed

theorem publish_batch_sequential_witness:
  "\<exists>w outcomes. publish_sequence demo_codec (gd_log demo_data) demo_entry 9 0 0 demo_requests demo_data =
      Inr (w, outcomes) \<and> length outcomes = 2 \<and>
    apply_publish_many demo_codec demo_data demo_entry demo_requests demo_data = Inr (w, PublishedMany outcomes)"
proof -
  have "apply_publish_many demo_codec demo_data demo_entry demo_requests demo_data =
      bind_result (publish_sequence demo_codec (gd_log demo_data) demo_entry
        (bs_cluster \<lparr>bs_cluster = 9, bs_stream = 4, bs_stream_name = [115]\<rparr>) 0 0 demo_requests demo_data)
      (\<lambda>(w, outcomes). Inr (w, PublishedMany outcomes))"
    by (rule publish_batch_sequential) simp_all
  with demo_published show ?thesis by (auto simp: bind_result_Inr)
qed

lemma publish_many_keeps:
  assumes "apply_publish_many cd db l batches db = Inr (w, PublishedMany outcomes)"
    and "publish_ok db" "\<forall>b \<in> set batches. length (pb_records b) < 2 ^ 64"
  shows "publish_ok w \<and> log_extends (gd_log db) (gd_log w) \<and> publish_frame db w \<and>
    map io_request outcomes = map pb_request batches"
proof -
  obtain spec where db: "kind_is_data db" "ct_bootstrap (gd_catalog db) = Some spec"
    using assms(1) by (auto simp: apply_publish_many_def split: if_splits option.splits)
  from assms(1) obtain tx where
    run: "publish_many_loop cd db l (bs_cluster spec) 0 0 batches (PublishApplyTxn_new db) = Inr (tx, outcomes)"
    and w: "w = tx_write tx"
    unfolding apply_publish_many_run [OF db] by (auto simp: bind_result_Inr)
  show ?thesis
    using publish_many_loop_keeps [OF run coherent_start(1)] assms(2,3) w by (simp add: coherent_start(2))
qed

text \<open>
  C2. A replicated batch keeps the group sound and only extends the log: the record index, the bookmark
  indexes and the producer sessions keep their invariants, no tail moves back, no record below a tail
  changes, nothing outside log, bookmarks and producers changes, and every request is answered, in order.
\<close>

theorem publish_batch_keeps_group:
  assumes "apply_publish_many cd db l batches db = Inr (w, PublishedMany outcomes)"
    and "publish_ok db" "\<forall>b \<in> set batches. length (pb_records b) < 2 ^ 64"
  shows "publish_ok w \<and> log_extends (gd_log db) (gd_log w) \<and> publish_frame db w \<and>
    map io_request outcomes = map pb_request batches"
  using assms by (rule publish_many_keeps)

theorem publish_batch_keeps_group_witness:
  "\<exists>w outcomes. apply_publish_many demo_codec demo_data demo_entry demo_requests demo_data =
      Inr (w, PublishedMany outcomes) \<and> publish_ok w \<and> log_extends (gd_log demo_data) (gd_log w) \<and>
    map io_request outcomes = map pb_request demo_requests"
proof -
  obtain w outcomes where run: "apply_publish_many demo_codec demo_data demo_entry demo_requests demo_data =
      Inr (w, PublishedMany outcomes)"
    using demo_published by blast
  from publish_batch_keeps_group [OF run demo_data_ok] run show ?thesis
    by (auto simp: demo_requests_def demo_request_def)
qed

lemma publish_many_acknowledged:
  assumes "apply_publish_many cd db l batches db = Inr (w, PublishedMany outcomes)"
    and "publish_ok db" "\<forall>b \<in> set batches. length (pb_records b) < 2 ^ 64"
    and "distinct (map (\<lambda>b. receipt_key cd (pb_partition b) (pb_request b)) batches)"
    and "\<forall>b \<in> set batches. tget (ps_receipts (gd_producers db))
      (receipt_key cd (pb_partition b) (pb_request b)) = None"
    and "i < length batches" "io_result (outcomes ! i) = Inr receipt"
  shows "rc_request receipt = pb_request (batches ! i) \<and>
    holds_records l (slot_of batches i) (batches ! i) receipt (gd_log w)"
proof -
  obtain spec where db: "kind_is_data db" "ct_bootstrap (gd_catalog db) = Some spec"
    using assms(1) by (auto simp: apply_publish_many_def split: if_splits option.splits)
  have run: "publish_sequence cd (gd_log db) l (bs_cluster spec) 0 0 batches db = Inr (w, outcomes)"
    using assms(1) refines_publish_many_loop [OF coherent_start(1) assms(5), of l "bs_cluster spec" 0 0]
    unfolding apply_publish_many_run [OF db] coherent_start(2)
    by (auto simp: bind_result_Inr refines_def)
  from publish_sequence_acknowledged [OF run assms(2-5)] assms(6,7) show ?thesis by simp
qed

text \<open>
  C3. An acknowledged request is in the log: when the requests of a batch are new and have different
  receipt keys, the receipt of a published request names consecutive offsets of its partition below the
  tail, and after the whole batch the record at each of them refers to the payload slot of the log entry
  that holds the request's payload, with its length.
\<close>

theorem publish_acknowledged_stored:
  assumes "apply_publish_many cd db l batches db = Inr (w, PublishedMany outcomes)"
    and "publish_ok db" "\<forall>b \<in> set batches. length (pb_records b) < 2 ^ 64"
    and "distinct (map (\<lambda>b. receipt_key cd (pb_partition b) (pb_request b)) batches)"
    and "\<forall>b \<in> set batches. tget (ps_receipts (gd_producers db))
      (receipt_key cd (pb_partition b) (pb_request b)) = None"
    and "i < length batches" "io_result (outcomes ! i) = Inr receipt"
  shows "rc_request receipt = pb_request (batches ! i) \<and>
    holds_records l (slot_of batches i) (batches ! i) receipt (gd_log w)"
  by (rule publish_many_acknowledged [OF assms])

theorem publish_acknowledged_stored_witness:
  "\<exists>w outcomes. apply_publish_many demo_codec demo_data demo_entry demo_requests demo_data =
      Inr (w, PublishedMany outcomes) \<and>
    holds_records demo_entry 2 (demo_request 2 [[4]]) \<lparr>rc_request = pb_request (demo_request 2 []),
      rc_range = \<lparr>rr_partition = PartitionKey 4 0, rr_first = 2, rr_count = 1\<rparr>, rc_bookmark = None\<rparr> (gd_log w)"
proof -
  let ?out = "[\<lparr>io_request = pb_request (demo_request 1 []), io_result = Inr \<lparr>rc_request = pb_request (demo_request 1 []),
         rc_range = \<lparr>rr_partition = PartitionKey 4 0, rr_first = 0, rr_count = 2\<rparr>, rc_bookmark = None\<rparr>\<rparr>,
       \<lparr>io_request = pb_request (demo_request 2 []), io_result = Inr \<lparr>rc_request = pb_request (demo_request 2 []),
         rc_range = \<lparr>rr_partition = PartitionKey 4 0, rr_first = 2, rr_count = 1\<rparr>, rc_bookmark = None\<rparr>\<rparr>]"
  from demo_published obtain w where run: "apply_publish_many demo_codec demo_data demo_entry demo_requests demo_data =
      Inr (w, PublishedMany ?out)" by blast
  have slot: "slot_of demo_requests 1 = 2" by (simp add: slot_of_def demo_requests_def demo_request_def)
  have "holds_records demo_entry (slot_of demo_requests 1) (demo_requests ! 1) \<lparr>rc_request = pb_request (demo_request 2 []),
      rc_range = \<lparr>rr_partition = PartitionKey 4 0, rr_first = 2, rr_count = 1\<rparr>, rc_bookmark = None\<rparr> (gd_log w)"
    by (rule publish_acknowledged_stored [OF run demo_data_ok, THEN conjunct2])
      (simp_all add: demo_requests_def demo_request_def)
  then have "holds_records demo_entry 2 (demo_request 2 [[4]]) \<lparr>rc_request = pb_request (demo_request 2 []),
      rc_range = \<lparr>rr_partition = PartitionKey 4 0, rr_first = 2, rr_count = 1\<rparr>, rc_bookmark = None\<rparr> (gd_log w)"
    unfolding slot by (simp add: demo_requests_def)
  with run show ?thesis by blast
qed

text \<open>
  A later state of the group that still holds the receipt the first attempt left. The receipt window of a
  producer session evicts receipts; from then on the code answers \<open>ReceiptExpired\<close>.
\<close>

definition receipt_kept :: "codec \<Rightarrow> PublishBatch \<Rightarrow> group_db \<Rightarrow> group_db \<Rightarrow> bool" where
  "receipt_kept cd batch w v \<longleftrightarrow>
     gd_identity v = gd_identity w \<and> ct_bootstrap (gd_catalog v) = ct_bootstrap (gd_catalog w) \<and>
     (\<exists>stored. tget (ps_receipts (gd_producers w)) (receipt_key cd (pb_partition batch) (pb_request batch)) = Some stored \<and>
        tget (ps_receipts (gd_producers v)) (receipt_key cd (pb_partition batch) (pb_request batch)) = Some stored)"

lemma receipt_kept_prior:
  "receipt_kept cd batch w v \<Longrightarrow>
    \<exists>r. prior_publish_outcome cd w batch = Some r \<and> prior_publish_outcome cd v batch = Some r"
  by (auto simp: receipt_kept_def prior_publish_outcome_def split: StoredPublishOutcome.splits)

text \<open>
  C4. A publish request can be retried: when a replicated batch of one request was answered, with a receipt, a
  recorded rejection or \<open>ReceiptExpired\<close>, the same request replicated again directly afterwards is answered
  the same way and changes nothing; and in every later state of the group that still holds the receipt of the
  request it is answered the same way and changes nothing. The receipt keys of the retained sequences of its
  session are assumed to differ from its own, which is so unless SHA-256 collides. After the receipt was
  evicted nothing is claimed.
\<close>

theorem publish_retry_same:
  assumes "kind_is_data db" "ct_bootstrap (gd_catalog db) = Some spec"
    and "pb_cluster batch = bs_cluster spec" "pb_cluster batch = gi_cluster_id (gd_identity db)"
    and "publish_ok db" "length (pb_records batch) < 2 ^ 64" "publish_keys_apart cd db batch"
    and "apply_publish_many cd db l [batch] db = Inr (w, PublishedMany outcomes)"
  shows "apply_publish_many cd w l' [batch] w = Inr (w, PublishedMany outcomes) \<and>
    (receipt_kept cd batch w v \<longrightarrow> apply_publish_many cd v l' [batch] v = Inr (v, PublishedMany outcomes))"
proof -
  have single: "(apply_publish_many cd d k [batch] d = Inr (w', PublishedMany outs)) \<longleftrightarrow>
      (\<exists>o1. publish_one cd (gd_log d) k 0 0 batch (prior_publish_outcome cd d batch) d = Inr (w', o1) \<and> outs = [o1])"
    if "kind_is_data d" "ct_bootstrap (gd_catalog d) = Some spec" for d k w' outs
  proof -
    have "txn_prior_outcome cd d (PublishApplyTxn_new d) batch
        (receipt_key cd (pb_partition batch) (pb_request batch)) (fingerprint cd batch) =
        prior_publish_outcome cd d batch"
      by (simp add: txn_prior_outcome_def PublishApplyTxn_new_def prior_publish_outcome_def)
    then have r: "refines d (txn_apply_one cd d k 0 0 batch (PublishApplyTxn_new d))
        (publish_one cd (gd_log d) k 0 0 batch (prior_publish_outcome cd d batch) d)"
      using refines_apply_one [OF coherent_start(1), of d cd k 0 0 batch] by (simp only: coherent_start(2))
    show ?thesis
      unfolding apply_publish_many_run [OF that]
      using r assms(3,6)
      by (cases "txn_apply_one cd d k 0 0 batch (PublishApplyTxn_new d)")
        (auto simp: refines_def bind_result_Inr usize_checked_add_def)
  qed
  from assms(8) obtain o1 where
    run: "publish_one cd (gd_log db) l 0 0 batch (prior_publish_outcome cd db batch) db = Inr (w, o1)"
    and outs: "outcomes = [o1]" unfolding single [OF assms(1,2)] by blast
  have frame: "gd_catalog w = gd_catalog db" "gd_identity w = gd_identity db"
    using publish_frame_fields [of db w] publish_one_keeps [OF run assms(5,6)] by simp_all
  have w: "kind_is_data w" "ct_bootstrap (gd_catalog w) = Some spec"
    using assms(1,2) frame by (simp_all add: kind_is_data_def)
  have "publish_handle cd db batch l = Inr (w, io_result o1)" using run by (simp add: publish_handle_def)
  from publish.retry_returns_same [OF assms(4,7) this, of l']
  obtain o2 where again: "publish_one cd (gd_log w) l' 0 0 batch (prior_publish_outcome cd w batch) w = Inr (w, o2)"
    "io_result o2 = io_result o1" by (auto simp: publish_handle_def bind_result_Inr)
  have "o2 = o1"
    using publish_one_request [OF run] publish_one_request [OF again(1)] again(2)
    by (cases o1; cases o2) simp
  with again(1) have first: "publish_one cd (gd_log w) l' 0 0 batch (prior_publish_outcome cd w batch) w = Inr (w, o1)" by simp
  have "apply_publish_many cd v l' [batch] v = Inr (v, PublishedMany outcomes)" if kept: "receipt_kept cd batch w v"
  proof -
    have v: "kind_is_data v" "ct_bootstrap (gd_catalog v) = Some spec" "gd_identity v = gd_identity w"
      using kept w by (simp_all add: receipt_kept_def kind_is_data_def)
    obtain r where r: "prior_publish_outcome cd w batch = Some r" "prior_publish_outcome cd v batch = Some r"
      using receipt_kept_prior [OF kept] by blast
    have "publish_one cd (gd_log v) l' 0 0 batch (prior_publish_outcome cd v batch) v = Inr (v, o1)"
      using first unfolding r by (auto simp: publish_one_def Let_def v(3) split: if_splits)
    with outs show ?thesis unfolding single [OF v(1,2)] by blast
  qed
  with first outs show ?thesis unfolding single [OF w] by blast
qed

theorem publish_retry_same_witness:
  "\<exists>w outcomes v others. apply_publish_many demo_codec demo_data demo_entry [demo_request 1 [[1, 2]]] demo_data =
      Inr (w, PublishedMany outcomes) \<and>
    apply_publish_many demo_codec w demo_entry [demo_request 2 [[3]]] w = Inr (v, PublishedMany others) \<and>
    apply_publish_many demo_codec v (demo_entry\<lparr>li_index := 6\<rparr>) [demo_request 1 [[1, 2]]] v =
      Inr (v, PublishedMany outcomes)"
proof -
  have lg: "gd_log demo_data = empty_log\<lparr>lg_owners :=
        [(payload_id demo_entry 0, staged_owners), (payload_id demo_entry (Suc 0), staged_owners),
         (payload_id demo_entry (Suc (Suc 0)), staged_owners)]\<rparr>"
    by (simp add: demo_data_def numeral_2_eq_2)
  have "\<exists>w outcomes v others. apply_publish_many demo_codec demo_data demo_entry [demo_request 1 [[1, 2]]] demo_data =
        Inr (w, PublishedMany outcomes) \<and>
      apply_publish_many demo_codec w demo_entry [demo_request 2 [[3]]] w = Inr (v, PublishedMany others) \<and>
      receipt_kept demo_codec (demo_request 1 [[1, 2]]) w v"
    by (simp add: publish_eval demo_request_def lg empty_log_def word_le_nat_alt receipt_kept_def
        session_key_def kind_is_data_def GroupIdentity_new_def)
  then obtain w outcomes v others where run: "apply_publish_many demo_codec demo_data demo_entry
        [demo_request 1 [[1, 2]]] demo_data = Inr (w, PublishedMany outcomes)"
      "apply_publish_many demo_codec w demo_entry [demo_request 2 [[3]]] w = Inr (v, PublishedMany others)"
      "receipt_kept demo_codec (demo_request 1 [[1, 2]]) w v" by blast
  have "publish_keys_apart demo_codec demo_data (demo_request 1 [[1, 2]])"
    by (simp add: publish_keys_apart_def producer_session_def tget_or_def SessionState_default_def)
  from publish_retry_same [OF _ _ _ _ demo_data_ok _ this run(1)] run show ?thesis
    by (fastforce simp: demo_request_def GroupIdentity_new_def)
qed

end
