(* ===== verification/Checkpoints.thy ===== *)
theory Checkpoints
  imports Mutation_Receipts
begin

text \<open>
  Consumer checkpoints: \<open>apply_checkpoint_mutation\<close> and the checkpoint read of
  \<open>crates/light-stream-storage/src/lib.rs\<close>. A mutation is a compare-and-set on the stored revision;
  its receipt makes a retry return the recorded result. The theory proves that along any sequence of
  mutations the checkpoint of a consumer moves forward only, its revision counts its moves, and it
  never passes the committed tail.
\<close>

section \<open>The handler\<close>

abbreviation checkpoint_slot :: "CheckpointKey \<Rightarrow> PartitionKey \<times> ConsumerId" where
  "checkpoint_slot key \<equiv> (ck_partition key, ck_consumer key)"

definition expectation_matches :: "CheckpointExpectation \<Rightarrow> CommittedCheckpoint option \<Rightarrow> bool" where
  "expectation_matches expected current =
     (case (expected, current) of
        (Missing, None) \<Rightarrow> True
      | (Revision r, Some c) \<Rightarrow> r = cp_revision c
      | _ \<Rightarrow> False)"

definition checkpoint_result ::
  "CheckpointMutation \<Rightarrow> CommittedCheckpoint option \<Rightarrow> RecordOffset \<Rightarrow> (CommittedCheckpoint option \<times> ApplyResult) io"
where
  "checkpoint_result m current tail =
     (let candidate = cc_next_offset (cm_candidate m)
      in if \<not> expectation_matches (cm_expected m) current
         then Inr (None, CheckpointResult (CasConflict (cm_request m) current))
         else if candidate > tail
         then Inr (None, Rejected (CheckpointAheadOfTail candidate tail))
         else (case current of
             Some c \<Rightarrow>
               if candidate < cc_next_offset (cp_cursor c)
               then Inr (None, Rejected (CheckpointRegression (cc_next_offset (cp_cursor c)) candidate))
               else (case revision_checked_next (cp_revision c) of
                   Inl _ \<Rightarrow> Inl ''invalid committed range: checkpoint revision overflow''
                 | Inr revision \<Rightarrow>
                     (let checkpoint = \<lparr>cp_key = cm_key m, cp_cursor = cm_candidate m, cp_revision = revision\<rparr>
                      in Inr (Some checkpoint,
                              CheckpointResult (CasAdvanced (cm_request m) current checkpoint))))
           | None \<Rightarrow>
               (let checkpoint = \<lparr>cp_key = cm_key m, cp_cursor = cm_candidate m,
                      cp_revision = CheckpointRevision_initial\<rparr>
                in Inr (Some checkpoint,
                        CheckpointResult (CasAdvanced (cm_request m) None checkpoint)))))"

definition apply_checkpoint_mutation ::
  "codec \<Rightarrow> group_db \<Rightarrow> CheckpointMutation \<Rightarrow> group_db \<Rightarrow> ApplyResult applied" where
  "apply_checkpoint_mutation cd db m w =
     (if \<not> kind_is_data db
      then Inr (w, Rejected (IdentityMismatch ''checkpoint mutation reached the control group''))
      else case ct_bootstrap (gd_catalog db) of
        None \<Rightarrow> Inr (w, Rejected NotBootstrapped)
      | Some spec \<Rightarrow>
        (let fp = mutation_fingerprint cd (cd_json_checkpoint cd m)
         in case prior_mutation_result cd db (cm_request m) fp of
              Some result \<Rightarrow> Inr (w, result)
            | None \<Rightarrow>
                if ck_cluster (cm_key m) \<noteq> gi_cluster_id (gd_identity db) \<or>
                   ck_cluster (cm_key m) \<noteq> bs_cluster spec
                then Inr (w, Rejected (IdentityMismatch
                  ''checkpoint cluster does not match the data group''))
                else
                  (let slot = checkpoint_slot (cm_key m)
                   in bind_result (checkpoint_result m (tget (gd_checkpoints db) slot)
                        (next_offset (gd_log db) (ck_partition (cm_key m)))) (\<lambda>(stored, result).
                      Inr (store_mutation_result cd db (cm_request m) fp result
                            (case stored of
                               None \<Rightarrow> w
                             | Some c \<Rightarrow> w\<lparr>gd_checkpoints := tput (gd_checkpoints w) slot c\<rparr>),
                           result)))))"

definition reader_checkpoint :: "group_db \<Rightarrow> CheckpointKey \<Rightarrow> CommittedCheckpoint result" where
  "reader_checkpoint db key =
     (if ck_cluster key \<noteq> gi_cluster_id (gd_identity db)
      then Inl (IdentityMismatch ''checkpoint cluster does not match the data group'')
      else ok_or CheckpointNotFound (tget (gd_checkpoints db) (checkpoint_slot key)))"

section \<open>What a mutation does\<close>

lemma revision_next_Inr:
  "revision_checked_next r = Inr v \<Longrightarrow> unat v = unat r + 1"
  by (auto simp: revision_checked_next_def checked_add_Some split: option.splits if_splits)

text \<open>The checkpoint a mutation may store over the current one.\<close>

definition advances :: "RecordOffset \<Rightarrow> CheckpointMutation \<Rightarrow> CommittedCheckpoint option \<Rightarrow> CommittedCheckpoint \<Rightarrow> bool"
where
  "advances tail m current c \<longleftrightarrow>
     cp_key c = cm_key m \<and> cp_cursor c = cm_candidate m \<and> cc_next_offset (cm_candidate m) \<le> tail \<and>
     (case current of
        None \<Rightarrow> cm_expected m = Missing \<and> cp_revision c = 1
      | Some c0 \<Rightarrow> cm_expected m = Revision (cp_revision c0) \<and> unat (cp_revision c) = unat (cp_revision c0) + 1 \<and>
          cc_next_offset (cp_cursor c0) \<le> cc_next_offset (cm_candidate m))"

lemma checkpoint_result_cases:
  assumes "checkpoint_result m current tail = Inr (stored, result)"
  obtains (kept) "stored = None" "\<And>c. result \<noteq> CheckpointResult (CasAdvanced (cm_request m) current c)"
  | (stored) c where "stored = Some c" "advances tail m current c"
      "result = CheckpointResult (CasAdvanced (cm_request m) current c)"
proof (cases stored)
  case None
  with assms show thesis
    by (intro kept) (auto simp: checkpoint_result_def Let_def split: if_splits option.splits sum.splits)
next
  case (Some c)
  with assms have "advances tail m current c \<and> result = CheckpointResult (CasAdvanced (cm_request m) current c)"
    by (auto simp: checkpoint_result_def Let_def advances_def expectation_matches_def not_less
        CheckpointRevision_initial_def dest: revision_next_Inr
        split: if_splits option.splits sum.splits CheckpointExpectation.splits)
  with Some show thesis using that(2) [of c] by simp
qed

definition checkpoint_fp :: "codec \<Rightarrow> CheckpointMutation \<Rightarrow> string" where
  "checkpoint_fp cd m = mutation_fingerprint cd (cd_json_checkpoint cd m)"

definition checkpoint_accepts :: "group_db \<Rightarrow> CheckpointMutation \<Rightarrow> bool" where
  "checkpoint_accepts db m \<longleftrightarrow> kind_is_data db \<and> ck_cluster (cm_key m) = gi_cluster_id (gd_identity db) \<and>
     map_option bs_cluster (ct_bootstrap (gd_catalog db)) = Some (ck_cluster (cm_key m))"

lemma apply_checkpoint_fresh:
  assumes "checkpoint_accepts db m" "prior_mutation_result cd db (cm_request m) (checkpoint_fp cd m) = None"
  shows "apply_checkpoint_mutation cd db m w =
    bind_result (checkpoint_result m (tget (gd_checkpoints db) (checkpoint_slot (cm_key m)))
      (next_offset (gd_log db) (ck_partition (cm_key m)))) (\<lambda>(stored, result).
    Inr (store_mutation_result cd db (cm_request m) (checkpoint_fp cd m) result
          (case stored of None \<Rightarrow> w
           | Some c \<Rightarrow> w\<lparr>gd_checkpoints := tput (gd_checkpoints w) (checkpoint_slot (cm_key m)) c\<rparr>), result))"
  using assms by (auto simp: checkpoint_accepts_def apply_checkpoint_mutation_def checkpoint_fp_def Let_def)

lemma apply_checkpoint_known:
  assumes "\<not> (checkpoint_accepts db m \<and> prior_mutation_result cd db (cm_request m) (checkpoint_fp cd m) = None)"
  shows "\<exists>result. apply_checkpoint_mutation cd db m w = Inr (w, result) \<and>
    (checkpoint_accepts db m \<longrightarrow> prior_mutation_result cd db (cm_request m) (checkpoint_fp cd m) = Some result)"
  using assms
  by (auto simp: checkpoint_accepts_def apply_checkpoint_mutation_def checkpoint_fp_def Let_def
      split: option.splits)

lemma apply_checkpoint_cases:
  assumes "apply_checkpoint_mutation cd db m db = Inr (w, result)"
  obtains (unchanged) "w = db"
  | (kept) "w = store_mutation_result cd db (cm_request m) (checkpoint_fp cd m) result db"
      "prior_mutation_result cd db (cm_request m) (checkpoint_fp cd m) = None"
      "\<And>c. result \<noteq> CheckpointResult (CasAdvanced (cm_request m) (tget (gd_checkpoints db) (checkpoint_slot (cm_key m))) c)"
  | (stored) c where
      "w = store_mutation_result cd db (cm_request m) (checkpoint_fp cd m) result
         (db\<lparr>gd_checkpoints := tput (gd_checkpoints db) (checkpoint_slot (cm_key m)) c\<rparr>)"
      "advances (next_offset (gd_log db) (ck_partition (cm_key m))) m
         (tget (gd_checkpoints db) (checkpoint_slot (cm_key m))) c"
      "prior_mutation_result cd db (cm_request m) (checkpoint_fp cd m) = None"
      "result = CheckpointResult (CasAdvanced (cm_request m)
         (tget (gd_checkpoints db) (checkpoint_slot (cm_key m))) c)"
proof -
  show thesis
  proof (cases "checkpoint_accepts db m \<and> prior_mutation_result cd db (cm_request m) (checkpoint_fp cd m) = None")
    case False
    with apply_checkpoint_known [OF False, of db] assms show thesis by (auto intro: unchanged)
  next
    case True
    with assms obtain st where
      run: "checkpoint_result m (tget (gd_checkpoints db) (checkpoint_slot (cm_key m)))
         (next_offset (gd_log db) (ck_partition (cm_key m))) = Inr (st, result)"
      "w = store_mutation_result cd db (cm_request m) (checkpoint_fp cd m) result
         (case st of None \<Rightarrow> db
          | Some c \<Rightarrow> db\<lparr>gd_checkpoints := tput (gd_checkpoints db) (checkpoint_slot (cm_key m)) c\<rparr>)"
      by (auto simp only: apply_checkpoint_fresh bind_result_Inr split: prod.splits)
    from run(1) show thesis
    proof (cases rule: checkpoint_result_cases)
      case kept: kept
      with run(2) True show thesis by (intro that(2)) simp_all
    next
      case (stored c)
      with run(2) True show thesis by (intro that(3)) simp_all
    qed
  qed
qed

interpretation checkpoint: mutation_handler cd cm_request "checkpoint_fp cd" checkpoint_accepts
  "\<lambda>db m (_::unit). apply_checkpoint_mutation cd db m db" for cd
proof
  fix db m r arg
  assume "checkpoint_accepts db m" "prior_mutation_result cd db (cm_request m) (checkpoint_fp cd m) = Some r"
  then show "apply_checkpoint_mutation cd db m db = Inr (db, r)"
    using apply_checkpoint_known [of db m cd db] by auto
next
  fix db m w r and arg :: unit
  assume a: "checkpoint_accepts db m" "prior_mutation_result cd db (cm_request m) (checkpoint_fp cd m) = None"
    "apply_checkpoint_mutation cd db m db = Inr (w, r)"
  from a(3) obtain st where
    w: "w = store_mutation_result cd db (cm_request m) (checkpoint_fp cd m) r
         (case st of None \<Rightarrow> db
          | Some c \<Rightarrow> db\<lparr>gd_checkpoints := tput (gd_checkpoints db) (checkpoint_slot (cm_key m)) c\<rparr>)"
    unfolding apply_checkpoint_fresh [OF a(1,2)] by (auto simp only: bind_result_Inr split: prod.splits)
  have "checkpoint_accepts w m"
    using a(1) unfolding w by (auto simp: checkpoint_accepts_def kind_is_data_def split: option.splits)
  with w show "\<exists>w0. w = store_mutation_result cd db (cm_request m) (checkpoint_fp cd m) r w0 \<and>
      checkpoint_accepts w m" by blast
qed

section \<open>Sequences of mutations\<close>

inductive checkpoint_step :: "codec \<Rightarrow> group_db \<Rightarrow> CheckpointMutation \<Rightarrow> group_db \<Rightarrow> bool" where
  "apply_checkpoint_mutation cd db m db = Inr (w, result) \<Longrightarrow> checkpoint_step cd db m w"

inductive_cases checkpoint_stepE: "checkpoint_step cd db m w"

text \<open>Every checkpoint is inside its partition.\<close>

definition checkpoints_ok :: "group_db \<Rightarrow> bool" where
  "checkpoints_ok db \<longleftrightarrow> (\<forall>p consumer c. tget (gd_checkpoints db) (p, consumer) = Some c \<longrightarrow>
     cc_next_offset (cp_cursor c) \<le> next_offset (gd_log db) p)"

text \<open>The checkpoint of a slot is \<open>c\<close> or a later one.\<close>

definition checkpoint_since :: "PartitionKey \<times> ConsumerId \<Rightarrow> CommittedCheckpoint \<Rightarrow> group_db \<Rightarrow> bool" where
  "checkpoint_since slot c db \<longleftrightarrow> checkpoints_ok db \<and>
     (\<exists>d. tget (gd_checkpoints db) slot = Some d \<and>
        (d = c \<or> cp_revision c < cp_revision d \<and>
           cc_next_offset (cp_cursor c) \<le> cc_next_offset (cp_cursor d)))"

lemma checkpoint_step_ok:
  assumes "checkpoint_step cd db m w" "checkpoints_ok db"
  shows "checkpoints_ok w"
  using assms(1)
proof (rule checkpoint_stepE)
  fix result assume "apply_checkpoint_mutation cd db m db = Inr (w, result)"
  then show ?thesis
    using assms(2) by (cases rule: apply_checkpoint_cases) (auto simp: checkpoints_ok_def advances_def)
qed

lemma checkpoint_step_since:
  assumes "checkpoint_step cd db m w" "checkpoint_since slot c db"
  shows "checkpoint_since slot c w"
proof -
  from assms(2) obtain d where d: "tget (gd_checkpoints db) slot = Some d" "d = c \<or> cp_revision c < cp_revision d \<and>
      cc_next_offset (cp_cursor c) \<le> cc_next_offset (cp_cursor d)" and ok: "checkpoints_ok db"
    by (auto simp: checkpoint_since_def)
  have ok': "checkpoints_ok w" using assms(1) ok by (rule checkpoint_step_ok)
  from assms(1) obtain result where "apply_checkpoint_mutation cd db m db = Inr (w, result)"
    by (rule checkpoint_stepE)
  then show ?thesis
  proof (cases rule: apply_checkpoint_cases)
    case (stored e)
    show ?thesis
    proof (cases "slot = checkpoint_slot (cm_key m)")
      case True
      with stored(2) d(1) have "cp_revision d < cp_revision e"
        "cc_next_offset (cp_cursor d) \<le> cc_next_offset (cp_cursor e)"
        by (auto simp: advances_def word_less_nat_alt)
      with d(2) True stored(1) ok' show ?thesis by (auto simp: checkpoint_since_def)
    next
      case False
      with stored(1) d ok' show ?thesis by (auto simp: checkpoint_since_def)
    qed
  qed (use d ok' in \<open>auto simp: checkpoint_since_def\<close>)
qed

interpretation checkpoint_runs: keeps_invariant "checkpoint_step cd" "checkpoint_since slot c" for cd slot c
  by unfold_locales (rule checkpoint_step_since)

section \<open>A concrete mutation\<close>

definition demo_checkpoint_group :: group_db where
  "demo_checkpoint_group =
     (let g = empty_group (GroupIdentity_new 9 2 DataGroup) 2
      in g\<lparr>gd_catalog := (gd_catalog g)\<lparr>ct_bootstrap := Some \<lparr>bs_cluster = 9, bs_stream = 4, bs_stream_name = [115]\<rparr>\<rparr>,
           gd_log := (gd_log g)\<lparr>lg_next_offset := [(PartitionKey 4 0, 7)]\<rparr>\<rparr>)"

definition demo_mutation :: "u64 \<Rightarrow> CheckpointExpectation \<Rightarrow> u64 \<Rightarrow> CheckpointMutation" where
  "demo_mutation sequence expected off =
     \<lparr>cm_request = \<lparr>mr_principal = [112], mr_session = 3, mr_sequence = sequence\<rparr>,
      cm_key = \<lparr>ck_cluster = 9, ck_partition = PartitionKey 4 0, ck_consumer = [99]\<rparr>,
      cm_expected = expected,
      cm_candidate = \<lparr>cc_cluster = 9, cc_partition = PartitionKey 4 0, cc_next_offset = off\<rparr>\<rparr>"

definition demo_checkpoint :: "u64 \<Rightarrow> u64 \<Rightarrow> CommittedCheckpoint" where
  "demo_checkpoint off revision =
     \<lparr>cp_key = cm_key (demo_mutation 1 Missing off), cp_cursor = cm_candidate (demo_mutation 1 Missing off),
      cp_revision = revision\<rparr>"

definition demo_checked :: group_db where
  "demo_checked = store_mutation_result demo_codec demo_checkpoint_group (cm_request (demo_mutation 1 Missing 5))
     (checkpoint_fp demo_codec (demo_mutation 1 Missing 5))
     (CheckpointResult (CasAdvanced (cm_request (demo_mutation 1 Missing 5)) None (demo_checkpoint 5 1)))
     (demo_checkpoint_group\<lparr>gd_checkpoints := [((PartitionKey 4 0, [99]), demo_checkpoint 5 1)]\<rparr>)"

lemmas demo_checkpoint_defs = demo_checkpoint_group_def demo_mutation_def demo_checkpoint_def
  empty_group_def empty_log_def GroupIdentity_new_def kind_is_data_def Let_def

lemma demo_checkpoint_fresh:
  "mr_sequence (cm_request m) = 1 \<Longrightarrow>
    prior_mutation_result demo_codec demo_checkpoint_group (cm_request m) fp = None"
  by (simp add: prior_mutation_result_def mutation_session_def demo_checkpoint_defs tget_or_def
      sequence_expired_def SessionState_default_def)

lemma demo_checkpoint_apply:
  "apply_checkpoint_mutation demo_codec demo_checkpoint_group (demo_mutation 1 Missing 5) demo_checkpoint_group =
    Inr (demo_checked, CheckpointResult (CasAdvanced (cm_request (demo_mutation 1 Missing 5)) None (demo_checkpoint 5 1)))"
proof -
  have "checkpoint_accepts demo_checkpoint_group (demo_mutation 1 Missing 5)"
    by (simp add: checkpoint_accepts_def demo_checkpoint_defs)
  from apply_checkpoint_fresh [OF this demo_checkpoint_fresh, of demo_checkpoint_group] show ?thesis
    by (simp add: demo_checked_def demo_checkpoint_defs checkpoint_result_def expectation_matches_def
        next_offset_def tget_or_def word_less_nat_alt CheckpointRevision_initial_def)
qed

section \<open>Properties\<close>

text \<open>
  C15. A checkpoint only moves forward: whatever sequence of mutations is applied, by any clients in any
  order, a consumer that has a checkpoint keeps one; it is the same one, or a later revision at an
  offset that is not smaller; and it never lies past the committed tail of its partition.
\<close>

theorem checkpoint_moves_forward:
  assumes "runs (checkpoint_step cd) db ms w" "checkpoints_ok db"
    and "tget (gd_checkpoints db) (p, consumer) = Some c"
  shows "\<exists>d. tget (gd_checkpoints w) (p, consumer) = Some d \<and>
    cc_next_offset (cp_cursor d) \<le> next_offset (gd_log w) p \<and>
    (d = c \<or> cp_revision c < cp_revision d \<and> cc_next_offset (cp_cursor c) \<le> cc_next_offset (cp_cursor d))"
proof -
  have "checkpoint_since (p, consumer) c db" using assms(2,3) by (simp add: checkpoint_since_def)
  with assms(1) have "checkpoint_since (p, consumer) c w" by (rule checkpoint_runs.runs_ok)
  then show ?thesis by (auto simp: checkpoint_since_def checkpoints_ok_def)
qed

theorem checkpoint_moves_forward_witness:
  "\<exists>w d. runs (checkpoint_step demo_codec) demo_checked [demo_mutation 2 (Revision 1) 6] w \<and>
    tget (gd_checkpoints w) (PartitionKey 4 0, [99]) = Some d \<and> 5 \<le> cc_next_offset (cp_cursor d)"
proof -
  let ?m = "demo_mutation 2 (Revision 1) 6"
  have "\<exists>w r. apply_checkpoint_mutation demo_codec demo_checked ?m demo_checked = Inr (w, r)"
    by (simp add: apply_checkpoint_mutation_def demo_checked_def demo_checkpoint_defs checkpoint_result_def
        expectation_matches_def revision_checked_next_def checked_add_def bind_result_def
        split: option.splits)
  then obtain w where step: "checkpoint_step demo_codec demo_checked ?m w"
    by (auto intro: checkpoint_step.intros)
  then have run: "runs (checkpoint_step demo_codec) demo_checked [?m] w" by (simp add: runs_Cons_iff)
  have at: "tget (gd_checkpoints demo_checked) (PartitionKey 4 0, [99]) = Some (demo_checkpoint 5 1)"
    by (simp add: demo_checked_def)
  have ok: "checkpoints_ok demo_checked"
    by (auto simp: checkpoints_ok_def demo_checked_def demo_checkpoint_defs next_offset_def tget_or_def
        word_le_nat_alt)
  from checkpoint_moves_forward [OF run ok at] run show ?thesis
    by (auto simp: demo_checkpoint_defs)
qed

text \<open>
  C16. A checkpoint mutation is a compare-and-set: after one has advanced the checkpoint, another request
  with the same expectation is a conflict, and the conflict reports the checkpoint that won.
\<close>

theorem checkpoint_single_winner:
  assumes "apply_checkpoint_mutation cd db m db = Inr (w, CheckpointResult (CasAdvanced (cm_request m) previous c))"
    and "prior_mutation_result cd db (cm_request m) (checkpoint_fp cd m) = None" "checkpoint_accepts db m"
    and "cm_key n = cm_key m" "cm_expected n = cm_expected m"
    and "prior_mutation_result cd w (cm_request n) (checkpoint_fp cd n) = None"
  shows "\<exists>w'. apply_checkpoint_mutation cd w n w = Inr (w', CheckpointResult (CasConflict (cm_request n) (Some c))) \<and>
    gd_checkpoints w' = gd_checkpoints w"
proof -
  let ?slot = "checkpoint_slot (cm_key m)" and ?tail = "next_offset (gd_log db) (ck_partition (cm_key m))"
  from assms(1) obtain st where
    run: "checkpoint_result m (tget (gd_checkpoints db) ?slot) ?tail =
        Inr (st, CheckpointResult (CasAdvanced (cm_request m) previous c))"
      "w = store_mutation_result cd db (cm_request m) (checkpoint_fp cd m)
         (CheckpointResult (CasAdvanced (cm_request m) previous c))
         (case st of None \<Rightarrow> db | Some c \<Rightarrow> db\<lparr>gd_checkpoints := tput (gd_checkpoints db) ?slot c\<rparr>)"
    unfolding apply_checkpoint_fresh [OF assms(3,2)] by (auto simp only: bind_result_Inr split: prod.splits)
  have adv: "st = Some c" "advances ?tail m (tget (gd_checkpoints db) ?slot) c"
    using run(1) by (cases rule: checkpoint_result_cases;
      auto simp: checkpoint_result_def Let_def split: if_splits option.splits sum.splits)+
  have w: "tget (gd_checkpoints w) ?slot = Some c" "checkpoint_accepts w n"
    using run(2) adv(1) assms(3,4) by (auto simp: checkpoint_accepts_def kind_is_data_def)
  have "\<not> expectation_matches (cm_expected n) (Some c)"
    using adv(2) assms(5)
    by (auto simp: advances_def expectation_matches_def split: option.splits CheckpointExpectation.splits)
  then show ?thesis
    using apply_checkpoint_fresh [OF w(2) assms(6), of w] w(1) assms(4)
    by (simp add: checkpoint_result_def Let_def)
qed

theorem checkpoint_single_winner_witness:
  "\<exists>w'. apply_checkpoint_mutation demo_codec demo_checked (demo_mutation 2 Missing 6) demo_checked =
      Inr (w', CheckpointResult (CasConflict (cm_request (demo_mutation 2 Missing 6)) (Some (demo_checkpoint 5 1)))) \<and>
    gd_checkpoints w' = gd_checkpoints demo_checked"
proof (rule checkpoint_single_winner [OF demo_checkpoint_apply demo_checkpoint_fresh])
  have "mutation_receipt_key demo_codec \<lparr>mr_principal = [112], mr_session = 3, mr_sequence = 2\<rparr> \<noteq>
      mutation_receipt_key demo_codec \<lparr>mr_principal = [112], mr_session = 3, mr_sequence = 1\<rparr>"
    by (simp add: mutation_receipt_key_def demo_codec_def demo_json_mutation_def)
  then show "prior_mutation_result demo_codec demo_checked (cm_request (demo_mutation 2 Missing 6))
      (checkpoint_fp demo_codec (demo_mutation 2 Missing 6)) = None"
    by (simp add: prior_mutation_result_def demo_checked_def demo_checkpoint_defs store_mutation_result_def
        mutation_session_def mutation_session_key_def mutation_session_message_def session_push_def
        sequence_expired_def tget_or_def SessionState_default_def word_le_nat_alt)
qed (simp_all add: checkpoint_accepts_def demo_checkpoint_defs)

text \<open>
  A checkpoint mutation is idempotent: whatever the first attempt answered, advanced, conflict or
  rejection, a retry of the request answers the same and changes nothing.
\<close>

lemma checkpoint_retry_same:
  assumes "checkpoint_accepts db m" "mutation_keys_apart cd db (cm_request m)"
    and "apply_checkpoint_mutation cd db m db = Inr (w, result)"
  shows "apply_checkpoint_mutation cd w m w = Inr (w, result)"
  using checkpoint.retry_returns_same [OF assms] by simp

end
