(* ===== verification/Leases.thy ===== *)
theory Leases
  imports Mutation_Receipts Log_Invariant
begin

text \<open>
  Retention and replay leases in \<open>crates/light-stream-storage/src/lib.rs\<close>: the floor of a partition
  (\<open>apply_advance_retention\<close>), the expiry of due leases, admission, renewal and release of a lease, and
  the reclamation of records below the floor (\<open>apply_maintain_retention\<close>).
\<close>

section \<open>Clock and expiry\<close>

definition advance_lease_clock :: "group_db \<Rightarrow> ClockObservation \<Rightarrow> SafeLeaseClock result" where
  "advance_lease_clock db ob =
     (case ls_clock (gd_leases db) of
        Some clock \<Rightarrow> clock_advance clock ob
      | None \<Rightarrow> SafeLeaseClock_new ob)"

definition export_fenced :: "group_db \<Rightarrow> bool" where
  "export_fenced db \<longleftrightarrow> mf_held (mutation_fence_state db) \<noteq> None"

text \<open>\<open>retentions\<close> is searched by partition and \<open>reclaim_hints\<close> is a hash map: both are tables.\<close>

record LeaseExpiryState =
  xs_budget :: LeaseBudget
  xs_active :: "ReplayLease list"
  xs_retentions :: "(PartitionKey, PartitionRetentionState) table"
  xs_reclaim_hints :: "(PartitionKey, u64) table"

definition budget_release :: "LeaseBudget \<Rightarrow> u64 \<Rightarrow> LeaseBudget" where
  "budget_release b bytes =
     \<lparr>lb_active_leases = saturating_sub (lb_active_leases b) 1,
      lb_reserved_bytes = saturating_sub (lb_reserved_bytes b) bytes\<rparr>"

text \<open>One turn of the loop for a lease that is active no longer: its partition and its bytes are freed.\<close>

definition expire_lease ::
  "group_db \<Rightarrow> ReplayLease \<Rightarrow> LeaseExpiryState \<times> group_db \<Rightarrow> LeaseExpiryState \<times> group_db" where
  "expire_lease db l st =
     (let xs = fst st; w = snd st; r = rl_range l; p = rg_partition r;
          expired = lease_expired l;
          w = w\<lparr>gd_leases := (gd_leases w)\<lparr>ls_leases := tput (ls_leases (gd_leases w)) (rl_id expired) expired\<rparr>\<rparr>;
          xs = xs\<lparr>xs_budget := budget_release (xs_budget xs) (rl_protected_bytes l)\<rparr>
      in if export_fenced db
         then
           (if rg_start r < pr_logical_floor (retention_of (gd_log db) p)
            then (xs\<lparr>xs_reclaim_hints := tput (xs_reclaim_hints xs) p
                       (case tget (xs_reclaim_hints xs) p of
                          Some cursor \<Rightarrow> min cursor (rg_start r)
                        | None \<Rightarrow> rg_start r)\<rparr>, w)
            else (xs, w))
         else
           (let ret = (case tget (xs_retentions xs) p of
                  Some ret \<Rightarrow> ret | None \<Rightarrow> retention_of (gd_log db) p);
                ret = (if rg_start r < pr_logical_floor ret
                       then ret\<lparr>pr_reclaim_cursor := min (pr_reclaim_cursor ret) (rg_start r)\<rparr> else ret)
            in (xs\<lparr>xs_retentions := tput (xs_retentions xs) p ret\<rparr>, w)))"

fun expire_loop ::
  "group_db \<Rightarrow> SafeLeaseClock \<Rightarrow> ReplayLease list \<Rightarrow> bool \<Rightarrow> LeaseExpiryState \<times> group_db
   \<Rightarrow> bool \<times> LeaseExpiryState \<times> group_db" where
  "expire_loop db clock [] expired_any st = (expired_any, st)"
| "expire_loop db clock (l # ls) expired_any st =
     (if lease_is_effectively_active l clock
      then expire_loop db clock ls expired_any ((fst st)\<lparr>xs_active := xs_active (fst st) @ [l]\<rparr>, snd st)
      else if rl_lifecycle l \<noteq> LeaseActive then expire_loop db clock ls expired_any st
      else expire_loop db clock ls True (expire_lease db l st))"

text \<open>The writes after the loop; the hints stored before take the minimum.\<close>

definition put_retentions ::
  "(PartitionKey, PartitionRetentionState) table \<Rightarrow> log_state \<Rightarrow> log_state" where
  "put_retentions rs lg = lg\<lparr>lg_retention := fold (\<lambda>(p, ret) t. tput t p ret) rs (lg_retention lg)\<rparr>"

definition put_hint :: "group_db \<Rightarrow> PartitionKey \<Rightarrow> u64 \<Rightarrow> log_state \<Rightarrow> log_state" where
  "put_hint db p cursor lg =
     lg\<lparr>lg_reclaim_hint := tput (lg_reclaim_hint lg) p
       (case tget (lg_reclaim_hint (gd_log db)) p of None \<Rightarrow> cursor | Some e \<Rightarrow> min e cursor)\<rparr>"

definition put_hints :: "group_db \<Rightarrow> (PartitionKey, u64) table \<Rightarrow> log_state \<Rightarrow> log_state" where
  "put_hints db hs lg = fold (\<lambda>(p, cursor). put_hint db p cursor) hs lg"

definition lease_budget_of :: "group_db \<Rightarrow> LeaseBudget" where
  "lease_budget_of db =
     (case ls_budget (gd_leases db) of None \<Rightarrow> LeaseBudget_default | Some b \<Rightarrow> b)"

definition expire_due_leases ::
  "group_db \<Rightarrow> SafeLeaseClock \<Rightarrow> group_db \<Rightarrow> group_db \<times> LeaseExpiryState" where
  "expire_due_leases db clock w =
     (let leases = map snd (ls_leases (gd_leases db));
          (expired_any, xs, w) = expire_loop db clock leases False
            (\<lparr>xs_budget = lease_budget_of db, xs_active = [], xs_retentions = [], xs_reclaim_hints = []\<rparr>, w)
      in (if expired_any
          then w\<lparr>gd_leases := (gd_leases w)\<lparr>ls_budget := Some (xs_budget xs)\<rparr>,
                 gd_log := put_hints db (xs_reclaim_hints xs) (put_retentions (xs_retentions xs) (gd_log w))\<rparr>
          else w, xs))"

section \<open>Advancing the floor\<close>

definition floor_boundary ::
  "log_state \<Rightarrow> PartitionKey \<Rightarrow> PartitionRetentionState \<Rightarrow> RecordOffset \<Rightarrow> u64 option" where
  "floor_boundary lg p previous floor =
     (if floor = 0 then Some 0
      else case tget (lg_records lg) (p, floor - 1) of
        Some r \<Rightarrow> Some (sr_cumulative_end_bytes r)
      | None \<Rightarrow> if floor = pr_logical_floor previous then Some (pr_floor_byte_position previous) else None)"

text \<open>A missing boundary is rejected at once, without a receipt.\<close>

definition apply_advance_retention ::
  "codec \<Rightarrow> group_db \<Rightarrow> RetentionRequest \<Rightarrow> ClockObservation \<Rightarrow> group_db \<Rightarrow> group_db \<times> ApplyResult" where
  "apply_advance_retention cd db request ob w =
     (if \<not> kind_is_data db
      then (w, Rejected (IdentityMismatch ''retention command reached the control group''))
      else
        (let fp = retention_fingerprint cd request; p = rq_partition request
         in case prior_mutation_result cd db (rq_request request) fp of
              Some result \<Rightarrow> (w, result)
            | None \<Rightarrow>
                (let tail = next_offset (gd_log db) p; previous = retention_of (gd_log db) p;
                     finish = (\<lambda>w result.
                       (store_mutation_result cd db (rq_request request) fp result w, result))
                 in case advance_floor (pr_logical_floor previous) (rq_target_floor request) tail of
                      Inl e \<Rightarrow> finish w (Rejected e)
                    | Inr floor \<Rightarrow>
                        (case advance_lease_clock db ob of
                           Inl e \<Rightarrow> finish w (Rejected e)
                         | Inr clock \<Rightarrow>
                             (case floor_boundary (gd_log db) p previous floor of
                                None \<Rightarrow> (w, Rejected (Storage ''retention floor byte boundary is unavailable''))
                              | Some position \<Rightarrow>
                                  finish
                                    (w\<lparr>gd_log := (gd_log w)\<lparr>lg_retention := tput (lg_retention (gd_log w)) p
                                         (previous\<lparr>pr_logical_floor := floor,
                                            pr_floor_byte_position := position\<rparr>)\<rparr>,
                                       gd_leases := (gd_leases w)\<lparr>ls_clock := Some clock\<rparr>\<rparr>)
                                    (RetentionAdvanced \<lparr>rs_request = rq_request request, rs_partition = p,
                                       rs_previous_floor = pr_logical_floor previous,
                                       rs_floor = floor\<rparr>))))))"

section \<open>Leases\<close>

text \<open>The payload bytes of a range, from the byte positions stored at its two ends.\<close>

definition replay_range_bytes ::
  "log_state \<Rightarrow> ReplayLeaseRequest \<Rightarrow> PartitionRetentionState \<Rightarrow> u64 result" where
  "replay_range_bytes lg request ret =
     (let r = lr_range request; p = rg_partition r
      in bind_result
           (if rg_start r = pr_logical_floor ret then Inr (pr_floor_byte_position ret)
            else case tget (lg_records lg) (p, rg_start r - 1) of
              None \<Rightarrow> Inl (InvalidRange ''replay lease start boundary is unavailable'')
            | Some v \<Rightarrow> Inr (sr_cumulative_end_bytes v)) (\<lambda>start_bytes.
         bind_result (ok_or (InvalidRange ''replay lease range is empty'') (checked_sub (rg_end r) 1))
           (\<lambda>last_offset.
         bind_result (ok_or (InvalidRange ''replay lease end boundary is unavailable'')
           (tget (lg_records lg) (p, last_offset))) (\<lambda>v.
         ok_or (Storage ''replay lease byte index is not monotonic'')
           (checked_sub (sr_cumulative_end_bytes v) start_bytes)))))"

definition admit_lease ::
  "codec \<Rightarrow> group_db \<Rightarrow> ReplayLeaseRequest \<Rightarrow> SafeLeaseClock \<Rightarrow> LeaseBudget \<Rightarrow> ReplayLease result" where
  "admit_lease cd db request clock budget =
     (let r = lr_range request; ret = retention_of (gd_log db) (rg_partition r);
          tail = next_offset (gd_log db) (rg_partition r)
      in if rg_start r < pr_logical_floor ret
         then Inl (CursorExpired (rg_start r) (pr_logical_floor ret))
         else bind_result (replay_range_bytes (gd_log db) request ret) (\<lambda>bytes.
           admit (replay_lease_id cd (lr_request request)) request bytes
             \<lparr>am_floor = pr_logical_floor ret, am_tail = tail, am_clock = clock,
              am_limits = RetentionLimits_default, am_budget = budget\<rparr>))"

definition apply_admit_replay_lease ::
  "codec \<Rightarrow> group_db \<Rightarrow> ReplayLeaseRequest \<Rightarrow> ClockObservation \<Rightarrow> group_db \<Rightarrow> group_db \<times> ApplyResult" where
  "apply_admit_replay_lease cd db request ob w =
     (let fp = mutation_fingerprint cd (cd_json_lease cd request);
          finish = (\<lambda>w result. (store_mutation_result cd db (lr_request request) fp result w, result))
      in case prior_mutation_result cd db (lr_request request) fp of
           Some result \<Rightarrow> (w, result)
         | None \<Rightarrow>
             (case advance_lease_clock db ob of
                Inl e \<Rightarrow> finish w (Rejected e)
              | Inr clock \<Rightarrow>
                  (let (w, expiry) = expire_due_leases db clock w; budget = xs_budget expiry
                   in case admit_lease cd db request clock budget of
                        Inl e \<Rightarrow> finish w (Rejected e)
                      | Inr lease \<Rightarrow>
                          (let ls = gd_leases w
                           in finish
                                (w\<lparr>gd_leases := ls
                                   \<lparr>ls_leases := tput (ls_leases ls) (rl_id lease) lease,
                                    ls_requests := tput (ls_requests ls)
                                      (replay_lease_request_key cd (lr_request request)) (rl_id lease),
                                    ls_budget := Some
                                      \<lparr>lb_active_leases = saturating_add (lb_active_leases budget) 1,
                                       lb_reserved_bytes = saturating_add (lb_reserved_bytes budget)
                                         (rl_protected_bytes lease)\<rparr>,
                                    ls_clock := Some clock\<rparr>\<rparr>)
                                (ReplayLeaseResult lease)))))"

text \<open>The last two arms of the match on a stored lease.\<close>

definition lease_inactive :: "ReplayLease \<Rightarrow> DomainError" where
  "lease_inactive l =
     ReplayLeaseInactive (rl_id l)
       (if rl_lifecycle l = LeaseActive then LeaseExpired else rl_lifecycle l)"

definition apply_renew_replay_lease ::
  "codec \<Rightarrow> group_db \<Rightarrow> LeaseRenewal \<Rightarrow> ClockObservation \<Rightarrow> group_db \<Rightarrow> group_db \<times> ApplyResult" where
  "apply_renew_replay_lease cd db request ob w =
     (let fp = mutation_fingerprint cd (cd_json_renewal cd request);
          finish = (\<lambda>w result. (store_mutation_result cd db (ln_request request) fp result w, result))
      in case prior_mutation_result cd db (ln_request request) fp of
           Some result \<Rightarrow> (w, result)
         | None \<Rightarrow>
             (case advance_lease_clock db ob of
                Inl e \<Rightarrow> finish w (Rejected e)
              | Inr clock \<Rightarrow>
                  (let (w, expiry) = expire_due_leases db clock w
                   in case tget (ls_leases (gd_leases db)) (ln_lease request) of
                        None \<Rightarrow> finish w (Rejected (ReplayLeaseNotFound (ln_lease request)))
                      | Some l \<Rightarrow>
                          if rg_partition (rl_range l) \<noteq> ln_partition request
                          then finish w (Rejected ReplayLeaseRangeViolation)
                          else if lease_is_effectively_active l clock
                          then (case checked_add (sc_upper_bound clock) (ln_duration request) of
                              None \<Rightarrow> finish w (Rejected LeaseClockUnavailable)
                            | Some expires_at \<Rightarrow>
                                (case lease_renewed l expires_at (rl_hard_expires_at l) of
                                   Inl e \<Rightarrow> finish w (Rejected e)
                                 | Inr renewed \<Rightarrow>
                                     finish
                                       (w\<lparr>gd_leases := (gd_leases w)
                                          \<lparr>ls_leases := tput (ls_leases (gd_leases w)) (ln_lease request) renewed,
                                           ls_clock := Some clock\<rparr>\<rparr>)
                                       (ReplayLeaseResult renewed)))
                          else finish w (Rejected (lease_inactive l)))))"

text \<open>What a release does to the partition of its range.\<close>

definition release_range ::
  "group_db \<Rightarrow> LeaseExpiryState \<Rightarrow> ReplayRange \<Rightarrow> log_state \<Rightarrow> log_state" where
  "release_range db expiry r lg =
     (let p = rg_partition r;
          ret = (case tget (xs_retentions expiry) p of
              Some ret \<Rightarrow> ret | None \<Rightarrow> retention_of (gd_log db) p)
      in if rg_start r < pr_logical_floor ret
         then
           (if export_fenced db
            then put_hint db p (min (case tget (xs_reclaim_hints expiry) p of
                     Some h \<Rightarrow> h | None \<Rightarrow> rg_start r) (rg_start r)) lg
            else lg\<lparr>lg_retention := tput (lg_retention lg) p
                   (ret\<lparr>pr_reclaim_cursor := min (pr_reclaim_cursor ret) (rg_start r)\<rparr>)\<rparr>)
         else lg)"

definition apply_release_replay_lease ::
  "codec \<Rightarrow> group_db \<Rightarrow> LeaseRelease \<Rightarrow> ClockObservation \<Rightarrow> group_db \<Rightarrow> group_db \<times> ApplyResult" where
  "apply_release_replay_lease cd db request ob w =
     (let fp = mutation_fingerprint cd (cd_json_release cd request);
          finish = (\<lambda>w result. (store_mutation_result cd db (le_request request) fp result w, result))
      in case prior_mutation_result cd db (le_request request) fp of
           Some result \<Rightarrow> (w, result)
         | None \<Rightarrow>
             (case advance_lease_clock db ob of
                Inl e \<Rightarrow> finish w (Rejected e)
              | Inr clock \<Rightarrow>
                  (let (w, expiry) = expire_due_leases db clock w
                   in case tget (ls_leases (gd_leases db)) (le_lease request) of
                        None \<Rightarrow> finish w (Rejected (ReplayLeaseNotFound (le_lease request)))
                      | Some l \<Rightarrow>
                          if rg_partition (rl_range l) \<noteq> le_partition request
                          then finish w (Rejected ReplayLeaseRangeViolation)
                          else if lease_is_effectively_active l clock
                          then
                            (let released = lease_released l; ls = gd_leases w
                             in finish
                                  (w\<lparr>gd_leases := ls
                                     \<lparr>ls_leases := tput (ls_leases ls) (le_lease request) released,
                                      ls_budget := Some (budget_release (xs_budget expiry)
                                        (rl_protected_bytes released)),
                                      ls_clock := Some clock\<rparr>,
                                     gd_log := release_range db expiry (rl_range released) (gd_log w)\<rparr>)
                                  (ReplayLeaseResult released))
                          else finish w (Rejected (lease_inactive l)))))"

section \<open>Reclaiming\<close>

text \<open>
  One record taken off the index: its payload loses this bank, and goes when nothing else owns it.
\<close>

definition reclaim_record ::
  "StateBank \<Rightarrow> PartitionKey \<Rightarrow> StoredRecord \<Rightarrow> PayloadOwners \<Rightarrow> PartitionRetentionState \<times> log_state
   \<Rightarrow> PartitionRetentionState \<times> log_state" where
  "reclaim_record bank p r owners st =
     (let ret = fst st; lg = snd st; owners = set_applied_in owners bank False;
          lg = lg\<lparr>lg_records := tdel (lg_records lg) (p, pr_reclaim_cursor ret)\<rparr>;
          key = sr_payload_key r;
          lg = (if owners_reachable owners
                then lg\<lparr>lg_owners := tput (lg_owners lg) key owners\<rparr>
                else lg\<lparr>lg_owners := tdel (lg_owners lg) key, lg_payload := tdel (lg_payload lg) key\<rparr>);
          ret = (if owners_reachable owners \<and> po_raft_log owners
                 then ret\<lparr>pr_raft_only_bytes := saturating_add (pr_raft_only_bytes ret) (sr_payload_bytes r)\<rparr>
                 else ret)
      in (ret\<lparr>pr_logically_expired_bytes := saturating_add (pr_logically_expired_bytes ret) (sr_payload_bytes r),
              pr_reclaim_cursor := saturating_add (pr_reclaim_cursor ret) 1\<rparr>, lg))"

lemma reclaim_record_cursor [simp]:
  "pr_reclaim_cursor (fst (reclaim_record bank p r owners (ret, lg))) = saturating_add (pr_reclaim_cursor ret) 1"
  "pr_logical_floor (fst (reclaim_record bank p r owners (ret, lg))) = pr_logical_floor ret"
  by (simp_all add: reclaim_record_def Let_def)

lemma cursor_step: "c < floor \<Longrightarrow> unat floor - unat (saturating_add c 1) < unat floor - unat c"
  for c floor :: u64
  by (simp add: saturating_add_one unat_Suc_below word_less_nat_alt)

lemma cursor_skip:
  assumes "c < floor" "range_contains r c"
  shows "unat floor - unat (min (rg_end r) floor) < unat floor - unat c"
  using assms by (auto simp: range_contains_def min_def word_less_nat_alt word_le_nat_alt)

function maintain_loop ::
  "log_state \<Rightarrow> StateBank \<Rightarrow> PartitionKey \<Rightarrow> ReplayRange list \<Rightarrow> u32 \<Rightarrow> u64 \<Rightarrow> u32 \<Rightarrow> u64
   \<Rightarrow> PartitionRetentionState \<times> log_state \<Rightarrow> (PartitionRetentionState \<times> log_state) io" where
  "maintain_loop dblog bank p ranges max_records max_bytes examined reclaimed (ret, lg) =
     (if pr_reclaim_cursor ret < pr_logical_floor ret \<and> examined < max_records
      then
        (case find (\<lambda>r. range_contains r (pr_reclaim_cursor ret)) ranges of
           Some r \<Rightarrow>
             maintain_loop dblog bank p ranges max_records max_bytes examined reclaimed
               (ret\<lparr>pr_reclaim_cursor := min (rg_end r) (pr_logical_floor ret)\<rparr>, lg)
         | None \<Rightarrow>
             (case tget (lg_records dblog) (p, pr_reclaim_cursor ret) of
                None \<Rightarrow>
                  maintain_loop dblog bank p ranges max_records max_bytes (saturating_add examined 1) reclaimed
                    (ret\<lparr>pr_reclaim_cursor := saturating_add (pr_reclaim_cursor ret) 1\<rparr>, lg)
              | Some r \<Rightarrow>
                  if examined > 0 \<and> saturating_add reclaimed (sr_payload_bytes r) > max_bytes
                  then Inr (ret, lg)
                  else (case tget (lg_owners dblog) (sr_payload_key r) of
                      None \<Rightarrow> Inl ''retained record payload is missing ownership''
                    | Some owners \<Rightarrow>
                        maintain_loop dblog bank p ranges max_records max_bytes (saturating_add examined 1)
                          (saturating_add reclaimed (sr_payload_bytes r))
                          (reclaim_record bank p r owners (ret, lg)))))
      else Inr (ret, lg))"
  by pat_completeness auto

termination
  by (relation "measure (\<lambda>(dblog, bank, p, ranges, mr, mb, ex, rb, ret, lg).
      unat (pr_logical_floor ret) - unat (pr_reclaim_cursor ret))")
    (auto simp: cursor_step case_prod_unfold find_Some_iff intro: cursor_skip)

definition retention_status_of :: "PartitionKey \<Rightarrow> PartitionRetentionState \<Rightarrow> RetentionStatus" where
  "retention_status_of p ret =
     \<lparr>rt_partition = p, rt_logical_floor = pr_logical_floor ret, rt_reclaim_cursor = pr_reclaim_cursor ret,
      rt_logically_expired_bytes = pr_logically_expired_bytes ret,
      rt_raft_only_bytes = pr_raft_only_bytes ret\<rparr>"

definition apply_maintain_retention ::
  "group_db \<Rightarrow> PartitionKey \<Rightarrow> RecordOffset \<Rightarrow> u32 \<Rightarrow> u64 \<Rightarrow> ClockObservation \<Rightarrow> group_db \<Rightarrow> ApplyResult applied"
where
  "apply_maintain_retention db p expected_cursor max_records max_bytes ob w =
     (if max_records = 0 \<or> max_bytes = 0
      then Inr (w, Rejected (InvalidRange ''retention maintenance limits must be greater than zero''))
      else
        (let ret = retention_of (gd_log db) p
         in if pr_reclaim_cursor ret \<noteq> expected_cursor
            then Inr (w, RetentionStatusResult (retention_status_of p ret))
            else case advance_lease_clock db ob of
              Inl e \<Rightarrow> Inr (w, Rejected e)
            | Inr clock \<Rightarrow>
                (let (w, expiry) = expire_due_leases db clock w;
                     ret = (case tget (xs_retentions expiry) p of Some r \<Rightarrow> r | None \<Rightarrow> ret);
                     active = map rl_range (filter (\<lambda>l. rg_partition (rl_range l) = p) (xs_active expiry))
                 in bind_result (maintain_loop (gd_log db) (gd_active_bank db) p active max_records max_bytes
                      0 0 (ret, gd_log w)) (\<lambda>(ret, lg).
                    Inr (w\<lparr>gd_log := lg\<lparr>lg_retention := tput (lg_retention lg) p ret\<rparr>,
                           gd_leases := (gd_leases w)\<lparr>ls_clock := Some clock\<rparr>\<rparr>,
                         RetentionStatusResult (retention_status_of p ret))))))"

end
