(* ===== verification/Lease_Expiry.thy ===== *)
theory Lease_Expiry
  imports Leases
begin

text \<open>
  What \<open>expire_due_leases\<close> does. Its loop is a fold over the due leases; the fold marks exactly them
  as expired, takes them off the budget, and hands their ranges below the floor back to reclamation,
  through the cursor of the partition or, while an export holds the fence, through its hint.
\<close>

section \<open>The loop as a fold\<close>

definition lease_due :: "SafeLeaseClock \<Rightarrow> ReplayLease \<Rightarrow> bool" where
  "lease_due clock l \<longleftrightarrow> rl_lifecycle l = LeaseActive \<and> \<not> lease_is_effectively_active l clock"

definition expire_if_due :: "SafeLeaseClock \<Rightarrow> ReplayLease \<Rightarrow> ReplayLease" where
  "expire_if_due clock l = (if lease_due clock l then lease_expired l else l)"

lemma expire_lease_active [simp]:
  "expire_lease db l (xs\<lparr>xs_active := a\<rparr>, w) =
    ((fst (expire_lease db l (xs, w)))\<lparr>xs_active := a\<rparr>, snd (expire_lease db l (xs, w)))"
  "xs_active (fst (expire_lease db l (xs, w))) = xs_active xs"
  by (simp_all add: expire_lease_def Let_def)

lemma fold_expire_active:
  "fold (expire_lease db) ls (xs\<lparr>xs_active := a\<rparr>, w) =
    ((fst (fold (expire_lease db) ls (xs, w)))\<lparr>xs_active := a\<rparr>, snd (fold (expire_lease db) ls (xs, w)))"
proof (induction ls arbitrary: xs w)
  case (Cons l ls)
  obtain xs' w' where e: "expire_lease db l (xs, w) = (xs', w')" by fastforce
  then show ?case using Cons.IH [of xs' w'] by simp
qed simp

lemma fold_expire_keeps_active: "xs_active (fst (fold (expire_lease db) ls (xs, w))) = xs_active xs"
proof (induction ls arbitrary: xs w)
  case (Cons l ls)
  obtain xs' w' where e: "expire_lease db l (xs, w) = (xs', w')" by fastforce
  then show ?case using Cons.IH [of xs' w'] expire_lease_active(2) [of db l xs w] by simp
qed simp

lemma expire_loop_fold:
  "expire_loop db clock ls b (xs, w) =
    (b \<or> (\<exists>l \<in> set ls. lease_due clock l),
     (fst (fold (expire_lease db) (filter (lease_due clock) ls) (xs, w)))
        \<lparr>xs_active := xs_active xs @ filter (\<lambda>l. lease_is_effectively_active l clock) ls\<rparr>,
     snd (fold (expire_lease db) (filter (lease_due clock) ls) (xs, w)))"
proof (induction ls arbitrary: b xs w)
  case Nil
  show ?case by simp
next
  case (Cons l ls)
  consider (eff) "lease_is_effectively_active l clock" "\<not> lease_due clock l"
    | (idle) "\<not> lease_is_effectively_active l clock" "rl_lifecycle l \<noteq> LeaseActive" "\<not> lease_due clock l"
    | (due) "\<not> lease_is_effectively_active l clock" "rl_lifecycle l = LeaseActive" "lease_due clock l"
    by (auto simp: lease_due_def)
  then show ?case
  proof cases
    case due
    obtain xs' w' where e: "expire_lease db l (xs, w) = (xs', w')" by fastforce
    with expire_lease_active(2) [of db l xs w] due show ?thesis by (simp add: Cons.IH)
  qed (simp_all add: Cons.IH fold_expire_active)
qed

section \<open>Effect of the fold\<close>

text \<open>The retention state and the hint of a partition as the loop sees them.\<close>

definition ret_view :: "group_db \<Rightarrow> LeaseExpiryState \<Rightarrow> PartitionKey \<Rightarrow> PartitionRetentionState" where
  "ret_view db xs p = (case tget (xs_retentions xs) p of Some ret \<Rightarrow> ret | None \<Rightarrow> retention_of (gd_log db) p)"

definition returned :: "group_db \<Rightarrow> LeaseExpiryState \<Rightarrow> ReplayLease \<Rightarrow> bool" where
  "returned db xs l \<longleftrightarrow>
     rg_start (rl_range l) < pr_logical_floor (retention_of (gd_log db) (rg_partition (rl_range l))) \<longrightarrow>
     (if export_fenced db
      then \<exists>h. tget (xs_reclaim_hints xs) (rg_partition (rl_range l)) = Some h \<and> h \<le> rg_start (rl_range l)
      else pr_reclaim_cursor (ret_view db xs (rg_partition (rl_range l))) \<le> rg_start (rl_range l))"

text \<open>Two retention states differ in the cursor at most.\<close>

definition same_but_cursor :: "PartitionRetentionState \<Rightarrow> PartitionRetentionState \<Rightarrow> bool" where
  "same_but_cursor a b \<longleftrightarrow> a\<lparr>pr_reclaim_cursor := 0\<rparr> = b\<lparr>pr_reclaim_cursor := 0\<rparr>"

lemma same_but_cursor_refl [simp]:
  "same_but_cursor a a" "same_but_cursor (a\<lparr>pr_reclaim_cursor := c\<rparr>) b = same_but_cursor a b"
  "same_but_cursor a (b\<lparr>pr_reclaim_cursor := c\<rparr>) = same_but_cursor a b"
  by (simp_all add: same_but_cursor_def)

lemma same_but_cursor_trans: "same_but_cursor a b \<Longrightarrow> same_but_cursor b c \<Longrightarrow> same_but_cursor a c"
  by (simp add: same_but_cursor_def)

lemma same_but_cursorD:
  assumes "same_but_cursor a b"
  shows "pr_logical_floor a = pr_logical_floor b" "pr_next_byte_position a = pr_next_byte_position b"
    "pr_floor_byte_position a = pr_floor_byte_position b"
proof -
  note e = assms [unfolded same_but_cursor_def]
  show "pr_logical_floor a = pr_logical_floor b" using arg_cong [OF e, of pr_logical_floor] by simp
  show "pr_next_byte_position a = pr_next_byte_position b" using arg_cong [OF e, of pr_next_byte_position] by simp
  show "pr_floor_byte_position a = pr_floor_byte_position b" using arg_cong [OF e, of pr_floor_byte_position] by simp
qed

text \<open>One state of the loop follows another: cursors and hints only move down.\<close>

definition lowers :: "group_db \<Rightarrow> LeaseExpiryState \<Rightarrow> LeaseExpiryState \<Rightarrow> bool" where
  "lowers db xs ys \<longleftrightarrow>
     (\<forall>p. same_but_cursor (ret_view db ys p) (ret_view db xs p) \<and>
        pr_reclaim_cursor (ret_view db ys p) \<le> pr_reclaim_cursor (ret_view db xs p)) \<and>
     (\<forall>p h. tget (xs_reclaim_hints xs) p = Some h \<longrightarrow>
        (\<exists>k. tget (xs_reclaim_hints ys) p = Some k \<and> k \<le> h))"

lemma lowers_refl: "lowers db xs xs"
  by (auto simp: lowers_def)

lemma lowers_trans: "lowers db xs ys \<Longrightarrow> lowers db ys zs \<Longrightarrow> lowers db xs zs"
  unfolding lowers_def by (meson order_trans same_but_cursor_trans)

lemma expire_lease_lowers:
  assumes "fst (expire_lease db l (xs, w)) = ys"
  shows "lowers db xs ys" "same_but_cursor (ret_view db xs (rg_partition (rl_range l)))
      (retention_of (gd_log db) (rg_partition (rl_range l))) \<Longrightarrow> returned db ys l"
proof -
  let ?p = "rg_partition (rl_range l)"
  show "lowers db xs ys"
    using assms by (auto simp: lowers_def expire_lease_def Let_def ret_view_def split: option.splits if_splits)
  assume "same_but_cursor (ret_view db xs ?p) (retention_of (gd_log db) ?p)"
  from same_but_cursorD(1) [OF this] assms show "returned db ys l"
    by (auto simp: returned_def expire_lease_def Let_def ret_view_def split: option.splits if_splits)
qed

lemma returned_lowers:
  assumes "returned db xs l" "lowers db xs ys"
  shows "returned db ys l"
  using assms unfolding returned_def lowers_def by (meson order_trans)

lemma fold_expire_lowers:
  assumes "\<forall>p. same_but_cursor (ret_view db xs p) (retention_of (gd_log db) p)"
  shows "lowers db xs (fst (fold (expire_lease db) ls (xs, w))) \<and>
    (\<forall>l \<in> set ls. returned db (fst (fold (expire_lease db) ls (xs, w))) l)"
  using assms
proof (induction ls arbitrary: xs w)
  case Nil
  then show ?case by (simp add: lowers_refl)
next
  case (Cons l ls)
  obtain ys v where e: "expire_lease db l (xs, w) = (ys, v)" by fastforce
  have low: "lowers db xs ys" and ret: "returned db ys l"
    using expire_lease_lowers [of db l xs w ys] e Cons.prems by simp_all
  have "\<forall>p. same_but_cursor (ret_view db ys p) (retention_of (gd_log db) p)"
    using low Cons.prems by (meson lowers_def same_but_cursor_trans)
  from Cons.IH [OF this, of v] low ret e returned_lowers lowers_trans show ?case by fastforce
qed

text \<open>The leases, the budget and the rest of the group.\<close>

lemma fold_expire_leases:
  "fold (expire_lease db) ls (xs, w) = (ys, v) \<Longrightarrow>
    v = w\<lparr>gd_leases := (gd_leases w)\<lparr>ls_leases :=
      fold (\<lambda>l t. tput t (rl_id l) (lease_expired l)) ls (ls_leases (gd_leases w))\<rparr>\<rparr> \<and>
    xs_budget ys = fold (\<lambda>l b. budget_release b (rl_protected_bytes l)) ls (xs_budget xs)"
proof (induction ls arbitrary: xs w)
  case (Cons l ls)
  obtain zs u where e: "expire_lease db l (xs, w) = (zs, u)" by fastforce
  then have "u = w\<lparr>gd_leases := (gd_leases w)\<lparr>ls_leases :=
      tput (ls_leases (gd_leases w)) (rl_id l) (lease_expired l)\<rparr>\<rparr>"
    "xs_budget zs = budget_release (xs_budget xs) (rl_protected_bytes l)"
    by (auto simp: expire_lease_def Let_def lease_expired_def split: if_splits option.splits)
  with Cons.IH [of zs u] Cons.prems e show ?case by simp
qed simp

lemma fold_expire_sorted:
  assumes "tsorted (xs_retentions xs)" "tsorted (xs_reclaim_hints xs)"
  shows "tsorted (xs_retentions (fst (fold (expire_lease db) ls (xs, w)))) \<and>
    tsorted (xs_reclaim_hints (fst (fold (expire_lease db) ls (xs, w))))"
  using assms
proof (induction ls arbitrary: xs w)
  case (Cons l ls)
  obtain ys v where e: "expire_lease db l (xs, w) = (ys, v)" by fastforce
  then have "tsorted (xs_retentions ys)" "tsorted (xs_reclaim_hints ys)"
    using Cons.prems by (auto simp: expire_lease_def Let_def split: if_splits)
  from Cons.IH [OF this, of v] e show ?case by simp
qed simp

lemma fold_expire_fence:
  fixes xs :: LeaseExpiryState
  shows "(export_fenced db \<longrightarrow> xs_retentions (fst (fold (expire_lease db) ls (xs, w))) = xs_retentions xs) \<and>
    (\<not> export_fenced db \<longrightarrow> xs_reclaim_hints (fst (fold (expire_lease db) ls (xs, w))) = xs_reclaim_hints xs)"
proof (induction ls arbitrary: xs w)
  case (Cons l ls)
  obtain ys v where e: "expire_lease db l (xs, w) = (ys, v)" by fastforce
  then have "export_fenced db \<longrightarrow> xs_retentions ys = xs_retentions xs"
    "\<not> export_fenced db \<longrightarrow> xs_reclaim_hints ys = xs_reclaim_hints xs"
    by (auto simp: expire_lease_def Let_def split: if_splits)
  with Cons.IH [of ys v] e show ?case by simp
qed simp

section \<open>The lease table and its budget\<close>

type_synonym lease_table = "(ReplayLeaseId, ReplayLease) table"

definition leases_keyed :: "lease_table \<Rightarrow> bool" where
  "leases_keyed t \<longleftrightarrow> tsorted t \<and> (\<forall>e \<in> set t. rl_id (snd e) = fst e)"

definition active_leases :: "lease_table \<Rightarrow> nat" where
  "active_leases t = (\<Sum>(i, l)\<leftarrow>t. if rl_lifecycle l = LeaseActive then 1 else 0)"

definition reserved_bytes :: "lease_table \<Rightarrow> nat" where
  "reserved_bytes t = (\<Sum>(i, l)\<leftarrow>t. if rl_lifecycle l = LeaseActive then unat (rl_protected_bytes l) else 0)"

definition budget_ok :: "LeaseBudget \<Rightarrow> lease_table \<Rightarrow> bool" where
  "budget_ok b t \<longleftrightarrow>
     unat (lb_active_leases b) = active_leases t \<and> unat (lb_reserved_bytes b) = reserved_bytes t"

definition expire_table :: "SafeLeaseClock \<Rightarrow> lease_table \<Rightarrow> lease_table" where
  "expire_table clock t = map (\<lambda>(i, l). (i, expire_if_due clock l)) t"

lemma tput_middle: "\<forall>x \<in> fst ` set t. x < k \<Longrightarrow> tput (t @ (k, v) # u) k v' = t @ (k, v') # u"
  by (induction t) auto

lemma fold_expired_table:
  assumes "leases_keyed (t @ u)"
  shows "fold (\<lambda>l t. tput t (rl_id l) (lease_expired l)) (filter (lease_due clock) (map snd u)) (t @ u) =
    t @ expire_table clock u"
  using assms
proof (induction u arbitrary: t)
  case (Cons e u)
  obtain i l where e: "e = (i, l)" by (cases e)
  have id: "rl_id l = i" and below: "\<forall>x \<in> fst ` set t. x < i"
    using Cons.prems e by (auto simp: leases_keyed_def tsorted_def sorted_wrt_append)
  have keyed: "leases_keyed ((t @ [(i, expire_if_due clock l)]) @ u)"
    using Cons.prems e by (auto simp: leases_keyed_def tsorted_def expire_if_due_def lease_expired_def)
  show ?case
    using Cons.IH [OF keyed] e id tput_middle [OF below, of l u "lease_expired l"]
    by (cases "lease_due clock l") (simp_all add: expire_table_def expire_if_due_def)
qed (simp add: expire_table_def)

lemma expire_table_keyed: "leases_keyed t \<Longrightarrow> leases_keyed (expire_table clock t)"
  by (auto simp: leases_keyed_def tsorted_def expire_table_def expire_if_due_def lease_expired_def
      comp_def case_prod_unfold)

lemma tget_expire_table: "tget (expire_table clock t) i = map_option (expire_if_due clock) (tget t i)"
  by (induction t) (auto simp: expire_table_def)

lemma budget_release_exact:
  assumes "unat (lb_active_leases b) = Suc n" "unat (lb_reserved_bytes b) = unat bytes + m"
  shows "unat (lb_active_leases (budget_release b bytes)) = n"
    "unat (lb_reserved_bytes (budget_release b bytes)) = m"
  using assms by (simp_all add: budget_release_def unat_saturating_sub)

lemma fold_budget:
  assumes "unat (lb_active_leases b) = n + active_leases t" "unat (lb_reserved_bytes b) = m + reserved_bytes t"
  shows "unat (lb_active_leases (fold (\<lambda>l b. budget_release b (rl_protected_bytes l))
        (filter (lease_due clock) (map snd t)) b)) = n + active_leases (expire_table clock t) \<and>
    unat (lb_reserved_bytes (fold (\<lambda>l b. budget_release b (rl_protected_bytes l))
        (filter (lease_due clock) (map snd t)) b)) = m + reserved_bytes (expire_table clock t)"
  using assms
proof (induction t arbitrary: b n m)
  case Nil
  then show ?case by (simp add: expire_table_def)
next
  case (Cons e t)
  obtain i l where e: "e = (i, l)" by (cases e)
  show ?case
  proof (cases "lease_due clock l")
    case True
    then have act: "rl_lifecycle l = LeaseActive" by (simp add: lease_due_def)
    let ?b = "budget_release b (rl_protected_bytes l)"
    have "unat (lb_active_leases ?b) = n + active_leases t" "unat (lb_reserved_bytes ?b) = m + reserved_bytes t"
      using Cons.prems e act
      by (auto simp: active_leases_def reserved_bytes_def intro!: budget_release_exact)
    from Cons.IH [OF this] e True show ?thesis
      by (simp add: expire_table_def expire_if_due_def lease_expired_def active_leases_def reserved_bytes_def)
  next
    case False
    let ?n = "if rl_lifecycle l = LeaseActive then 1 else 0"
    let ?m = "if rl_lifecycle l = LeaseActive then unat (rl_protected_bytes l) else 0"
    have "unat (lb_active_leases b) = (n + ?n) + active_leases t"
      "unat (lb_reserved_bytes b) = (m + ?m) + reserved_bytes t"
      using Cons.prems e by (simp_all add: active_leases_def reserved_bytes_def)
    from Cons.IH [OF this] e False show ?thesis
      by (simp add: expire_table_def expire_if_due_def active_leases_def reserved_bytes_def)
  qed
qed

section \<open>Expiry as a whole\<close>

lemma tget_below: "\<forall>e \<in> set u. k < fst e \<Longrightarrow> tget u k = None" for k :: "'a::linorder"
  by (induction u) auto

lemma tget_fold_tput:
  "tsorted u \<Longrightarrow> tget (fold (\<lambda>(k, v) t. tput t k v) u t) k =
    (case tget u k of Some v \<Rightarrow> Some v | None \<Rightarrow> tget t k)"
proof (induction u arbitrary: t)
  case (Cons e u)
  have "tget u (fst e) = None" using Cons.prems by (intro tget_below) (auto simp: tsorted_Cons)
  with Cons.IH [of "tput t (fst e) (snd e)"] Cons.prems show ?case
    by (cases e) (auto simp: tsorted_Cons split: option.splits)
qed simp

lemma retention_put_retentions:
  assumes "tsorted rs"
  shows "retention_of (put_retentions rs lg) p =
    (case tget rs p of Some ret \<Rightarrow> ret | None \<Rightarrow> retention_of lg p)"
  using tget_fold_tput [OF assms, of "lg_retention lg" p]
  by (simp add: retention_of_def put_retentions_def tget_or_def split: option.splits)

lemma put_hints_hint:
  assumes "tsorted hs"
  shows "tget (lg_reclaim_hint (put_hints db hs lg)) p =
    (case tget hs p of
       Some c \<Rightarrow> Some (case tget (lg_reclaim_hint (gd_log db)) p of None \<Rightarrow> c | Some e \<Rightarrow> min e c)
     | None \<Rightarrow> tget (lg_reclaim_hint lg) p)"
  using assms
proof (induction hs arbitrary: lg)
  case (Cons e hs)
  have "tget hs (fst e) = None" using Cons.prems by (intro tget_below) (auto simp: tsorted_Cons)
  with Cons.IH [of "put_hint db (fst e) (snd e) lg"] Cons.prems show ?case
    by (cases e) (auto simp: put_hints_def put_hint_def tsorted_Cons split: option.splits)
qed (simp add: put_hints_def)

lemma put_hints_fields [simp]:
  "lg_records (put_hints db hs lg) = lg_records lg" "lg_retention (put_hints db hs lg) = lg_retention lg"
  "lg_next_offset (put_hints db hs lg) = lg_next_offset lg" "lg_owners (put_hints db hs lg) = lg_owners lg"
  "lg_payload (put_hints db hs lg) = lg_payload lg"
  by (induction hs arbitrary: lg) (auto simp: put_hints_def put_hint_def)

lemma put_retentions_fields [simp]:
  "lg_records (put_retentions rs lg) = lg_records lg" "lg_reclaim_hint (put_retentions rs lg) = lg_reclaim_hint lg"
  "lg_next_offset (put_retentions rs lg) = lg_next_offset lg" "lg_owners (put_retentions rs lg) = lg_owners lg"
  "lg_payload (put_retentions rs lg) = lg_payload lg"
  by (simp_all add: put_retentions_def)

text \<open>
  A change of the log that only gives ranges back to reclamation: records and tails stay, cursors and
  hints move down. A range below the floor is handed back when the cursor or the hint is at its start.
\<close>

definition lowered :: "log_state \<Rightarrow> log_state \<Rightarrow> bool" where
  "lowered lg lg' \<longleftrightarrow>
     lg_records lg' = lg_records lg \<and> lg_next_offset lg' = lg_next_offset lg \<and>
     (\<forall>p. same_but_cursor (retention_of lg' p) (retention_of lg p) \<and>
        pr_reclaim_cursor (retention_of lg' p) \<le> pr_reclaim_cursor (retention_of lg p)) \<and>
     (\<forall>p h. tget (lg_reclaim_hint lg) p = Some h \<longrightarrow> (\<exists>k \<le> h. tget (lg_reclaim_hint lg') p = Some k))"

definition handed_back :: "log_state \<Rightarrow> log_state \<Rightarrow> ReplayRange \<Rightarrow> bool" where
  "handed_back lg lg' r \<longleftrightarrow>
     (rg_start r < pr_logical_floor (retention_of lg (rg_partition r)) \<longrightarrow>
        (\<exists>h \<le> rg_start r. tget (lg_reclaim_hint lg') (rg_partition r) = Some h) \<or>
        pr_reclaim_cursor (retention_of lg' (rg_partition r)) \<le> rg_start r)"

text \<open>
  The result of expiry on a group whose leases are stored under their identities: only leases, budget,
  cursors and hints change, as the fold says.
\<close>

definition expiry_effect :: "SafeLeaseClock \<Rightarrow> group_db \<Rightarrow> group_db \<Rightarrow> LeaseExpiryState \<Rightarrow> bool" where
  "expiry_effect clock db w xs \<longleftrightarrow>
     w = db\<lparr>gd_leases := gd_leases w, gd_log := gd_log w\<rparr> \<and>
     ls_leases (gd_leases w) = expire_table clock (ls_leases (gd_leases db)) \<and>
     ls_clock (gd_leases w) = ls_clock (gd_leases db) \<and> ls_requests (gd_leases w) = ls_requests (gd_leases db) \<and>
     xs_budget xs = lease_budget_of w \<and>
     (budget_ok (lease_budget_of db) (ls_leases (gd_leases db)) \<longrightarrow>
        budget_ok (lease_budget_of w) (ls_leases (gd_leases w))) \<and>
     xs_active xs = filter (\<lambda>l. lease_is_effectively_active l clock) (map snd (ls_leases (gd_leases db))) \<and>
     lg_owners (gd_log w) = lg_owners (gd_log db) \<and> lg_payload (gd_log w) = lg_payload (gd_log db) \<and>
     lowered (gd_log db) (gd_log w) \<and>
     (\<forall>p. ret_view db xs p = retention_of (gd_log w) p) \<and>
     (\<forall>p. tget (lg_reclaim_hint (gd_log w)) p =
        (case tget (xs_reclaim_hints xs) p of
           Some c \<Rightarrow> Some (case tget (lg_reclaim_hint (gd_log db)) p of None \<Rightarrow> c | Some e \<Rightarrow> min e c)
         | None \<Rightarrow> tget (lg_reclaim_hint (gd_log db)) p)) \<and>
     (\<forall>i l. tget (ls_leases (gd_leases db)) i = Some l \<and> lease_due clock l \<longrightarrow>
        handed_back (gd_log db) (gd_log w) (rl_range l))"

lemma expire_due_leases_effect:
  assumes run: "expire_due_leases db clock db = (w, xs)" and keyed: "leases_keyed (ls_leases (gd_leases db))"
  shows "expiry_effect clock db w xs"
proof -
  let ?t = "ls_leases (gd_leases db)" and ?due = "filter (lease_due clock) (map snd (ls_leases (gd_leases db)))"
  let ?xs0 = "\<lparr>xs_budget = lease_budget_of db, xs_active = [], xs_retentions = [], xs_reclaim_hints = []\<rparr>"
  obtain ys v where f: "fold (expire_lease db) ?due (?xs0, db) = (ys, v)" by fastforce
  let ?any = "\<exists>l \<in> set (map snd ?t). lease_due clock l"
  have xs: "xs = ys\<lparr>xs_active := filter (\<lambda>l. lease_is_effectively_active l clock) (map snd ?t)\<rparr>"
    and w: "w = (if ?any then v\<lparr>gd_leases := (gd_leases v)\<lparr>ls_budget := Some (xs_budget ys)\<rparr>,
        gd_log := put_hints db (xs_reclaim_hints ys) (put_retentions (xs_retentions ys) (gd_log v))\<rparr> else v)"
    using run f by (auto simp: expire_due_leases_def expire_loop_fold Let_def split: if_splits)
  have v: "v = db\<lparr>gd_leases := (gd_leases db)\<lparr>ls_leases := expire_table clock ?t\<rparr>\<rparr>"
    and budget: "xs_budget ys = fold (\<lambda>l b. budget_release b (rl_protected_bytes l)) ?due (lease_budget_of db)"
    using fold_expire_leases [OF f] fold_expired_table [of "[]" ?t clock] keyed by simp_all
  have none: "\<not> ?any \<Longrightarrow> ?due = []" by (auto simp: filter_empty_conv)
  have idle: "xs_retentions ys = [] \<and> xs_reclaim_hints ys = [] \<and> xs_budget ys = lease_budget_of db" if "\<not> ?any"
    using f none [OF that] by auto
  have sorted: "tsorted (xs_retentions ys)" "tsorted (xs_reclaim_hints ys)"
    using fold_expire_sorted [of ?xs0 db ?due db] f by simp_all
  have low: "lowers db ?xs0 ys" and handed: "l \<in> set ?due \<Longrightarrow> returned db ys l" for l
    using fold_expire_lowers [of db ?xs0 ?due db] f by (simp_all add: ret_view_def)
  have view0: "ret_view db ?xs0 p = retention_of (gd_log db) p" for p by (simp add: ret_view_def)
  have ret: "retention_of (gd_log w) p = ret_view db ys p" for p
  proof (cases ?any)
    case True
    have "retention_of (put_hints db hs lg) p = retention_of lg p" for hs lg by (simp add: retention_of_def)
    with True show ?thesis
      by (simp add: w v retention_put_retentions [OF sorted(1)] ret_view_def)
  next
    case False
    with idle show ?thesis by (simp add: w v ret_view_def)
  qed
  have hint: "tget (lg_reclaim_hint (gd_log w)) p = (case tget (xs_reclaim_hints ys) p of
      Some c \<Rightarrow> Some (case tget (lg_reclaim_hint (gd_log db)) p of None \<Rightarrow> c | Some e \<Rightarrow> min e c)
    | None \<Rightarrow> tget (lg_reclaim_hint (gd_log db)) p)" for p
    using idle by (cases ?any) (simp_all add: w v put_hints_hint [OF sorted(2)] split: option.split)
  show ?thesis
    unfolding expiry_effect_def
  proof (intro conjI allI impI)
    show "w = db\<lparr>gd_leases := gd_leases w, gd_log := gd_log w\<rparr>" by (simp add: w v)
    show "ls_leases (gd_leases w) = expire_table clock ?t" "ls_clock (gd_leases w) = ls_clock (gd_leases db)"
      "ls_requests (gd_leases w) = ls_requests (gd_leases db)" by (simp_all add: w v)
    show "xs_active xs = filter (\<lambda>l. lease_is_effectively_active l clock) (map snd ?t)" by (simp add: xs)
    show "lg_owners (gd_log w) = lg_owners (gd_log db)" "lg_payload (gd_log w) = lg_payload (gd_log db)"
      by (simp_all add: w v)
    show "xs_budget xs = lease_budget_of w"
      using idle by (cases ?any) (simp_all add: xs w v lease_budget_of_def)
    show "budget_ok (lease_budget_of w) (ls_leases (gd_leases w))"
      if "budget_ok (lease_budget_of db) ?t"
      using that fold_budget [of "lease_budget_of db" 0 ?t 0 clock] \<open>xs_budget xs = lease_budget_of w\<close> budget
      by (simp add: budget_ok_def xs w v)
    have "\<exists>k \<le> h. tget (lg_reclaim_hint (gd_log w)) p = Some k"
      if "tget (lg_reclaim_hint (gd_log db)) p = Some h" for p h
      using that by (auto simp: hint split: option.splits)
    moreover have "same_but_cursor (retention_of (gd_log w) p) (retention_of (gd_log db) p)"
      "pr_reclaim_cursor (retention_of (gd_log w) p) \<le> pr_reclaim_cursor (retention_of (gd_log db) p)" for p
      using low unfolding ret lowers_def view0 by blast+
    ultimately show "lowered (gd_log db) (gd_log w)" by (simp add: lowered_def w v)
  next
    fix p
    show "ret_view db xs p = retention_of (gd_log w) p" by (simp add: ret xs ret_view_def)
    show "tget (lg_reclaim_hint (gd_log w)) p = (case tget (xs_reclaim_hints xs) p of
        Some c \<Rightarrow> Some (case tget (lg_reclaim_hint (gd_log db)) p of None \<Rightarrow> c | Some e \<Rightarrow> min e c)
      | None \<Rightarrow> tget (lg_reclaim_hint (gd_log db)) p)" by (simp add: hint xs)
  next
    fix i l assume l: "tget ?t i = Some l \<and> lease_due clock l"
    then have "l \<in> set ?due" by (force dest: tget_Some_in)
    from handed [OF this] show "handed_back (gd_log db) (gd_log w) (rl_range l)"
      unfolding returned_def handed_back_def ret
      by (auto simp: hint min_def split: if_splits option.splits)
  qed
qed

end
