(* ===== verification/Lease_Safety.thy ===== *)
theory Lease_Safety
  imports Lease_Expiry
begin

text \<open>
  The invariant of retention and leases, \<open>retention_ok\<close>: the record index is sound, the lease budget is
  what the active leases add up to and within its limits, every record in the range of an active lease
  is present, and every record left behind the reclaim cursor is in the range of an active lease or at
  or past the partition's reclaim hint. Every handler keeps it, so a lease protects its records and an
  ended lease never leaks one.
\<close>

section \<open>The invariant\<close>

definition live_lease :: "lease_table \<Rightarrow> ReplayLease \<Rightarrow> bool" where
  "live_lease t l \<longleftrightarrow> tget t (rl_id l) = Some l \<and> rl_lifecycle l = LeaseActive"

definition leases_backed :: "log_state \<Rightarrow> lease_table \<Rightarrow> bool" where
  "leases_backed lg t \<longleftrightarrow>
     (\<forall>l off. live_lease t l \<and> range_contains (rl_range l) off \<longrightarrow>
        records_of lg (rg_partition (rl_range l)) off \<noteq> None)"

definition no_leak :: "log_state \<Rightarrow> lease_table \<Rightarrow> bool" where
  "no_leak lg t \<longleftrightarrow>
     (\<forall>p off. records_of lg p off \<noteq> None \<and> off < pr_reclaim_cursor (retention_of lg p) \<longrightarrow>
        (\<exists>l. live_lease t l \<and> rg_partition (rl_range l) = p \<and> range_contains (rl_range l) off) \<or>
        (\<exists>h \<le> off. tget (lg_reclaim_hint lg) p = Some h))"

definition budget_limited :: "lease_table \<Rightarrow> bool" where
  "budget_limited t \<longleftrightarrow>
     active_leases t \<le> unat (lim_max_active_leases RetentionLimits_default) \<and>
     reserved_bytes t \<le> unat (lim_max_group_reserved_lease_bytes RetentionLimits_default)"

definition retention_ok :: "group_db \<Rightarrow> bool" where
  "retention_ok db \<longleftrightarrow>
     log_ok (gd_log db) \<and> leases_keyed (ls_leases (gd_leases db)) \<and>
     budget_ok (lease_budget_of db) (ls_leases (gd_leases db)) \<and> budget_limited (ls_leases (gd_leases db)) \<and>
     leases_backed (gd_log db) (ls_leases (gd_leases db)) \<and> no_leak (gd_log db) (ls_leases (gd_leases db))"

lemma retention_okD:
  assumes "retention_ok db"
  shows "log_ok (gd_log db)" "leases_keyed (ls_leases (gd_leases db))"
    "budget_ok (lease_budget_of db) (ls_leases (gd_leases db))" "budget_limited (ls_leases (gd_leases db))"
    "leases_backed (gd_log db) (ls_leases (gd_leases db))" "no_leak (gd_log db) (ls_leases (gd_leases db))"
  using assms by (simp_all add: retention_ok_def)

lemma retention_ok_cong:
  "gd_log w = gd_log v \<Longrightarrow> ls_leases (gd_leases w) = ls_leases (gd_leases v) \<Longrightarrow>
    ls_budget (gd_leases w) = ls_budget (gd_leases v) \<Longrightarrow> retention_ok w = retention_ok v"
  by (simp add: retention_ok_def lease_budget_of_def)

lemma retention_ok_store [simp]:
  "retention_ok (store_mutation_result cd db r fp res w) = retention_ok w"
  by (rule retention_ok_cong) simp_all

section \<open>Expiry keeps it\<close>

lemma lease_lifecycle [simp]:
  "rl_lifecycle (lease_expired l) = LeaseExpired" "rl_lifecycle (lease_released l) = LeaseReleased"
  "rl_id (lease_expired l) = rl_id l" "rl_id (lease_released l) = rl_id l"
  "rl_request (lease_released l) = rl_request l" "rl_protected_bytes (lease_released l) = rl_protected_bytes l"
  by (simp_all add: lease_expired_def lease_released_def)

lemma live_lease_expire_table:
  "live_lease (expire_table clock t) l \<longleftrightarrow> live_lease t l \<and> lease_is_effectively_active l clock"
proof -
  have "expire_if_due clock m = l \<and> rl_lifecycle l = LeaseActive \<longleftrightarrow>
      m = l \<and> rl_lifecycle l = LeaseActive \<and> lease_is_effectively_active l clock" for m
    by (cases "lease_due clock m") (auto simp: expire_if_due_def lease_due_def)
  then show ?thesis unfolding live_lease_def tget_expire_table map_option_eq_Some by metis
qed

lemma active_expire_table:
  "active_leases (expire_table clock t) \<le> active_leases t" "reserved_bytes (expire_table clock t) \<le> reserved_bytes t"
  by (induction t) (auto simp: active_leases_def reserved_bytes_def expire_table_def expire_if_due_def
      lease_expired_def)

lemma lowered_log_ok:
  assumes "lowered lg lg'" "log_ok lg"
  shows "log_ok lg'"
proof -
  have recs: "records_of lg' = records_of lg" "next_offset lg' = next_offset lg"
    using assms(1) by (auto simp: lowered_def records_of_def next_offset_def fun_eq_iff)
  have "partition_ok lg' p" for p
  proof -
    note c = log_okD [OF assms(2), of p]
    have ret: "same_but_cursor (retention_of lg' p) (retention_of lg p)"
      "pr_reclaim_cursor (retention_of lg' p) \<le> pr_reclaim_cursor (retention_of lg p)"
      using assms(1) by (auto simp: lowered_def)
    then have "pr_reclaim_cursor (retention_of lg' p) \<le> pr_logical_floor (retention_of lg p)"
      using c by (auto simp: chain_ok_def dest: chain_withD(2) intro: order_trans)
    then show ?thesis
      unfolding partition_ok_def recs
      using same_but_cursorD [OF ret(1)] by (intro chain_reclaim [OF c]) simp_all
  qed
  then show ?thesis using assms by (simp add: log_ok_def lowered_def)
qed

text \<open>Leases may end as long as their ranges are handed back.\<close>

lemma lowered_no_leak:
  assumes "no_leak lg t" "log_ok lg" "lowered lg lg'"
    and ends: "\<And>l. live_lease t l \<Longrightarrow> live_lease t' l \<or> handed_back lg lg' (rl_range l)"
  shows "no_leak lg' t'"
  unfolding no_leak_def
proof (intro allI impI)
  fix p off
  assume a: "records_of lg' p off \<noteq> None \<and> off < pr_reclaim_cursor (retention_of lg' p)"
  have recs: "records_of lg' = records_of lg"
    and ret: "same_but_cursor (retention_of lg' p) (retention_of lg p)"
      "pr_reclaim_cursor (retention_of lg' p) \<le> pr_reclaim_cursor (retention_of lg p)"
    and hints: "tget (lg_reclaim_hint lg) p = Some h \<Longrightarrow> \<exists>k \<le> h. tget (lg_reclaim_hint lg') p = Some k" for h
    using assms(3) by (auto simp: lowered_def records_of_def fun_eq_iff)
  have before: "off < pr_reclaim_cursor (retention_of lg p)" using conjunct2 [OF a] ret(2) by order
  with a assms(1) consider
      (lease) l where "live_lease t l" "rg_partition (rl_range l) = p" "range_contains (rl_range l) off"
    | (hint) h where "h \<le> off" "tget (lg_reclaim_hint lg) p = Some h"
    unfolding no_leak_def recs by blast
  then show "(\<exists>l. live_lease t' l \<and> rg_partition (rl_range l) = p \<and> range_contains (rl_range l) off) \<or>
      (\<exists>h \<le> off. tget (lg_reclaim_hint lg') p = Some h)"
  proof cases
    case (hint h)
    from hints [OF hint(2)] hint(1) show ?thesis by (meson order_trans)
  next
    case (lease l)
    have start: "rg_start (rl_range l) \<le> off" using lease(3) by (simp add: range_contains_def)
    have "pr_reclaim_cursor (retention_of lg p) \<le> pr_logical_floor (retention_of lg p)"
      using log_okD [OF assms(2), of p] by (auto simp: chain_ok_def dest: chain_withD(2))
    with before start have below: "rg_start (rl_range l) < pr_logical_floor (retention_of lg p)" by order
    have ahead: "\<not> pr_reclaim_cursor (retention_of lg' p) \<le> rg_start (rl_range l)"
      using conjunct2 [OF a] start by order
    from ends [OF lease(1)] show ?thesis
    proof
      assume "live_lease t' l"
      with lease show ?thesis by blast
    next
      assume "handed_back lg lg' (rl_range l)"
      with lease(2) below ahead obtain h where "h \<le> rg_start (rl_range l)" "tget (lg_reclaim_hint lg') p = Some h"
        unfolding handed_back_def by blast
      with start show ?thesis by (meson order_trans)
    qed
  qed
qed

lemma lowered_backed:
  assumes "leases_backed lg t" "lowered lg lg'" "\<And>l. live_lease t' l \<Longrightarrow> live_lease t l"
  shows "leases_backed lg' t'"
proof -
  have "records_of lg' = records_of lg" using assms(2) by (auto simp: lowered_def records_of_def fun_eq_iff)
  with assms(1,3) show ?thesis unfolding leases_backed_def by metis
qed

lemma expiry_keeps:
  assumes eff: "expiry_effect clock db w xs" and ok: "retention_ok db"
  shows "retention_ok w"
proof -
  note D = retention_okD [OF ok]
  let ?t = "ls_leases (gd_leases db)" and ?t' = "ls_leases (gd_leases w)"
  have t': "?t' = expire_table clock ?t" and low: "lowered (gd_log db) (gd_log w)"
    and due: "tget ?t i = Some l \<Longrightarrow> lease_due clock l \<Longrightarrow> handed_back (gd_log db) (gd_log w) (rl_range l)"
    and budget: "budget_ok (lease_budget_of w) ?t'" for i l
    using eff D(3) unfolding expiry_effect_def by blast+
  have "no_leak (gd_log w) ?t'"
  proof (rule lowered_no_leak [OF D(6,1) low])
    fix l assume l: "live_lease ?t l"
    show "live_lease ?t' l \<or> handed_back (gd_log db) (gd_log w) (rl_range l)"
    proof (cases "lease_is_effectively_active l clock")
      case True
      with l show ?thesis by (simp add: t' live_lease_expire_table)
    next
      case False
      with l due [of "rl_id l" l] show ?thesis by (simp add: live_lease_def lease_due_def)
    qed
  qed
  moreover have "leases_backed (gd_log w) ?t'"
    using D(5) low by (rule lowered_backed) (simp add: t' live_lease_expire_table)
  moreover have "budget_limited ?t'"
    using D(4) active_expire_table [of clock ?t] unfolding budget_limited_def t' by linarith
  moreover have "leases_keyed ?t'" using D(2) by (simp add: t' expire_table_keyed)
  moreover have "log_ok (gd_log w)" using low D(1) by (rule lowered_log_ok)
  ultimately show ?thesis using budget by (simp add: retention_ok_def)
qed

section \<open>Changing one lease\<close>

lemma active_leases_tput:
  assumes "tsorted t"
  shows "active_leases (tput t i l) + (case tget t i of Some m \<Rightarrow> if rl_lifecycle m = LeaseActive then 1 else 0 | None \<Rightarrow> 0) =
    active_leases t + (if rl_lifecycle l = LeaseActive then 1 else 0)"
  using tab.weight_put [OF assms, of "\<lambda>_ l. if rl_lifecycle l = LeaseActive then 1 else 0" i l]
  by (simp add: active_leases_def split: option.splits)

lemma reserved_bytes_tput:
  assumes "tsorted t"
  shows "reserved_bytes (tput t i l) +
      (case tget t i of Some m \<Rightarrow> if rl_lifecycle m = LeaseActive then unat (rl_protected_bytes m) else 0 | None \<Rightarrow> 0) =
    reserved_bytes t + (if rl_lifecycle l = LeaseActive then unat (rl_protected_bytes l) else 0)"
  using tab.weight_put [OF assms, of "\<lambda>_ l. if rl_lifecycle l = LeaseActive then unat (rl_protected_bytes l) else 0" i l]
  by (simp add: reserved_bytes_def split: option.splits)

lemma leases_keyed_id: "leases_keyed t \<Longrightarrow> tget t i = Some l \<Longrightarrow> rl_id l = i"
  unfolding leases_keyed_def by (metis fst_conv snd_conv tget_Some_in)

lemma leases_keyed_tput: "leases_keyed t \<Longrightarrow> leases_keyed (tput t (rl_id l) l)"
proof -
  assume k: "leases_keyed t"
  then have s: "tsorted (tput t (rl_id l) l)" by (simp add: leases_keyed_def)
  have "rl_id m = i" if "(i, m) \<in> set (tput t (rl_id l) l)" for i m
  proof -
    have "tget (tput t (rl_id l) l) i = Some m" using that tget_set [OF s] by simp
    then have "i = rl_id l \<and> m = l \<or> tget t i = Some m" by (simp split: if_splits)
    then show ?thesis using leases_keyed_id [OF k] by blast
  qed
  with s show ?thesis by (auto simp: leases_keyed_def)
qed

text \<open>A new lease on retained records.\<close>

lemma records_in_retained:
  assumes "log_ok lg" "pr_logical_floor (retention_of lg p) \<le> off" "off < next_offset lg p"
  shows "records_of lg p off \<noteq> None"
  using log_okD [OF assms(1), of p] assms(2,3) unfolding chain_ok_def chain_with_def by blast

lemma retention_ok_admitted:
  assumes ok: "retention_ok w" and new: "tget (ls_leases (gd_leases w)) (rl_id l) = None"
    and act: "rl_lifecycle l = LeaseActive"
    and inside: "pr_logical_floor (retention_of (gd_log w) (rg_partition (rl_range l))) \<le> rg_start (rl_range l)"
      "rg_end (rl_range l) \<le> next_offset (gd_log w) (rg_partition (rl_range l))"
    and room: "lb_active_leases (lease_budget_of w) < lim_max_active_leases RetentionLimits_default"
      "saturating_add (lb_reserved_bytes (lease_budget_of w)) (rl_protected_bytes l)
        \<le> lim_max_group_reserved_lease_bytes RetentionLimits_default"
    and w': "gd_log w' = gd_log w" "ls_leases (gd_leases w') = tput (ls_leases (gd_leases w)) (rl_id l) l"
      "ls_budget (gd_leases w') = Some \<lparr>lb_active_leases = saturating_add (lb_active_leases (lease_budget_of w)) 1,
         lb_reserved_bytes = saturating_add (lb_reserved_bytes (lease_budget_of w)) (rl_protected_bytes l)\<rparr>"
  shows "retention_ok w'"
proof -
  note D = retention_okD [OF ok]
  let ?t = "ls_leases (gd_leases w)" and ?b = "lease_budget_of w"
  have sorted: "tsorted ?t" using D(2) by (simp add: leases_keyed_def)
  have live: "live_lease (tput ?t (rl_id l) l) m \<longleftrightarrow> m = l \<or> live_lease ?t m" for m
    using new act by (auto simp: live_lease_def)
  have backed: "leases_backed (gd_log w) (tput ?t (rl_id l) l)"
    unfolding leases_backed_def live
  proof (intro allI impI)
    fix m off assume a: "(m = l \<or> live_lease ?t m) \<and> range_contains (rl_range m) off"
    show "records_of (gd_log w) (rg_partition (rl_range m)) off \<noteq> None"
    proof (cases "m = l")
      case True
      with a inside show ?thesis
        by (intro records_in_retained [OF D(1)]) (auto simp: range_contains_def)
    next
      case False
      with a D(5) show ?thesis unfolding leases_backed_def by blast
    qed
  qed
  have leak: "no_leak (gd_log w) (tput ?t (rl_id l) l)" using D(6) unfolding no_leak_def live by blast
  have limit: "unat (lim_max_group_reserved_lease_bytes RetentionLimits_default) < 2 ^ 64 - 1"
    "unat (lim_max_active_leases RetentionLimits_default) = 256"
    by (simp_all add: RetentionLimits_default_def)
  have "unat (saturating_add (lb_active_leases ?b) 1) = unat (lb_active_leases ?b) + 1"
    using room(1) by (simp add: saturating_add_one unat_Suc_below)
  moreover have "unat (lb_reserved_bytes ?b) + unat (rl_protected_bytes l)
      \<le> unat (lim_max_group_reserved_lease_bytes RetentionLimits_default) \<and>
    unat (saturating_add (lb_reserved_bytes ?b) (rl_protected_bytes l)) =
      unat (lb_reserved_bytes ?b) + unat (rl_protected_bytes l)"
    using room(2) limit(1) by (simp add: word_le_nat_alt unat_saturating_add min_def split: if_splits)
  moreover have "unat (lb_active_leases ?b) < 256" using room(1) limit(2) by (simp add: word_less_nat_alt)
  ultimately have "budget_ok (lease_budget_of w') (tput ?t (rl_id l) l)" "budget_limited (tput ?t (rl_id l) l)"
    using D(3) active_leases_tput [OF sorted, of "rl_id l" l] reserved_bytes_tput [OF sorted, of "rl_id l" l]
      new act limit(2)
    by (simp_all add: budget_ok_def budget_limited_def lease_budget_of_def w'(3))
  with D(1) leases_keyed_tput [OF D(2)] backed leak show ?thesis by (simp add: retention_ok_def w')
qed

text \<open>A live lease replaced by one with the same range and bytes.\<close>

lemma retention_ok_renewed:
  assumes ok: "retention_ok w" and live: "live_lease (ls_leases (gd_leases w)) l"
    and m: "rl_id m = rl_id l" "rl_request m = rl_request l" "rl_protected_bytes m = rl_protected_bytes l"
      "rl_lifecycle m = LeaseActive"
    and w': "gd_log w' = gd_log w" "ls_leases (gd_leases w') = tput (ls_leases (gd_leases w)) (rl_id l) m"
      "ls_budget (gd_leases w') = ls_budget (gd_leases w)"
  shows "retention_ok w'"
proof -
  note D = retention_okD [OF ok]
  let ?t = "ls_leases (gd_leases w)"
  have l: "tget ?t (rl_id l) = Some l" "rl_lifecycle l = LeaseActive" using live by (simp_all add: live_lease_def)
  have sorted: "tsorted ?t" using D(2) by (simp add: leases_keyed_def)
  have live': "live_lease (tput ?t (rl_id l) m) k \<longleftrightarrow> k = m \<or> live_lease ?t k \<and> rl_id k \<noteq> rl_id l" for k
    using m by (auto simp: live_lease_def)
  have same: "live_lease ?t k \<Longrightarrow> rl_id k = rl_id l \<Longrightarrow> k = l" for k using l(1) by (simp add: live_lease_def)
  have backed: "leases_backed (gd_log w) (tput ?t (rl_id l) m)"
    using D(5) live m(2) unfolding leases_backed_def live' by metis
  have leak: "no_leak (gd_log w) (tput ?t (rl_id l) m)"
    using D(6) same m(2) unfolding no_leak_def live' by metis
  have sums: "active_leases (tput ?t (rl_id l) m) = active_leases ?t" "reserved_bytes (tput ?t (rl_id l) m) = reserved_bytes ?t"
    using active_leases_tput [OF sorted, of "rl_id l" m] reserved_bytes_tput [OF sorted, of "rl_id l" m] l m
    by simp_all
  have "leases_keyed (tput ?t (rl_id l) m)" using leases_keyed_tput [OF D(2), of m] m(1) by simp
  with D(1,3,4) backed leak sums show ?thesis
    by (simp add: retention_ok_def w' budget_ok_def budget_limited_def lease_budget_of_def)
qed

text \<open>A live lease released, its range handed back.\<close>

lemma retention_ok_released:
  assumes ok: "retention_ok w" and live: "live_lease (ls_leases (gd_leases w)) l"
    and log: "lowered (gd_log w) (gd_log w')" "handed_back (gd_log w) (gd_log w') (rl_range l)"
    and w': "ls_leases (gd_leases w') = tput (ls_leases (gd_leases w)) (rl_id l) (lease_released l)"
      "ls_budget (gd_leases w') = Some (budget_release (lease_budget_of w) (rl_protected_bytes l))"
  shows "retention_ok w'"
proof -
  note D = retention_okD [OF ok]
  let ?t = "ls_leases (gd_leases w)"
  have l: "tget ?t (rl_id l) = Some l" "rl_lifecycle l = LeaseActive" using live by (simp_all add: live_lease_def)
  have sorted: "tsorted ?t" using D(2) by (simp add: leases_keyed_def)
  have live': "live_lease (tput ?t (rl_id l) (lease_released l)) k \<longleftrightarrow> live_lease ?t k \<and> k \<noteq> l" for k
  proof -
    have "lease_released l \<noteq> l"
      using l(2) lease_lifecycle(2) [of l] by (metis ReplayLeaseLifecycle.distinct(1))
    with l show ?thesis by (auto simp: live_lease_def)
  qed
  have leak: "no_leak (gd_log w') (tput ?t (rl_id l) (lease_released l))"
    using log(2) by (intro lowered_no_leak [OF D(6,1) log(1)]) (auto simp: live')
  have backed: "leases_backed (gd_log w') (tput ?t (rl_id l) (lease_released l))"
    using D(5) log(1) by (rule lowered_backed) (simp add: live')
  have sums: "active_leases ?t = Suc (active_leases (tput ?t (rl_id l) (lease_released l)))"
    "reserved_bytes ?t = unat (rl_protected_bytes l) + reserved_bytes (tput ?t (rl_id l) (lease_released l))"
    using active_leases_tput [OF sorted, of "rl_id l" "lease_released l"]
      reserved_bytes_tput [OF sorted, of "rl_id l" "lease_released l"] l by simp_all
  have "budget_ok (lease_budget_of w') (tput ?t (rl_id l) (lease_released l))"
    using D(3) sums by (auto simp: budget_ok_def lease_budget_of_def w'(2) intro!: budget_release_exact)
  moreover have "budget_limited (tput ?t (rl_id l) (lease_released l))" using D(4) sums by (simp add: budget_limited_def)
  moreover have "leases_keyed (tput ?t (rl_id l) (lease_released l))"
    using leases_keyed_tput [OF D(2), of "lease_released l"] by simp
  ultimately show ?thesis using lowered_log_ok [OF log(1) D(1)] backed leak by (simp add: retention_ok_def w')
qed

end
