(* ===== verification/Lease_Handlers.thy ===== *)
theory Lease_Handlers
  imports Lease_Safety
begin

text \<open>Every retention and lease handler keeps \<open>retention_ok\<close>.\<close>

section \<open>Advancing the floor\<close>

text \<open>The byte boundary of a new floor is always there: the handler's storage rejection cannot happen.\<close>

lemma floor_boundary_exact:
  assumes c: "chain_with pos (records_of lg p) (retention_of lg p) (next_offset lg p)"
    and floor: "pr_logical_floor (retention_of lg p) \<le> floor" "floor \<le> next_offset lg p"
  shows "\<exists>b. floor_boundary lg p (retention_of lg p) floor = Some b \<and> unat b = pos (unat floor)"
proof (cases "floor = 0")
  case True
  then show ?thesis using chain_withD(1) [OF c] by (simp add: floor_boundary_def)
next
  case False
  have up: "unat (floor - 1) + 1 = unat floor" using False by (simp add: unat_minus_one unat_gt_0)
  show ?thesis
  proof (cases "tget (lg_records lg) (p, floor - 1)")
    case (Some r)
    then have "unat (sr_cumulative_end_bytes r) = pos (unat floor)"
      using chain_record(2) [OF c, of "floor - 1" r] up by (simp add: records_of_def)
    with Some False show ?thesis by (simp add: floor_boundary_def)
  next
    case None
    have "\<not> pr_logical_floor (retention_of lg p) < floor"
      using chain_boundary [OF c _ floor(2)] None by (auto simp: records_of_def)
    then have "floor = pr_logical_floor (retention_of lg p)" using floor(1) by simp
    with None False show ?thesis using chain_withD(4) [OF c] by (simp add: floor_boundary_def)
  qed
qed

lemma retention_ok_floor:
  assumes ok: "retention_ok w" and up: "pr_logical_floor (retention_of (gd_log w) p) \<le> floor"
      "floor \<le> next_offset (gd_log w) p"
    and b: "floor_boundary (gd_log w) p (retention_of (gd_log w) p) floor = Some b"
    and w': "gd_log w' = (gd_log w)\<lparr>lg_retention := tput (lg_retention (gd_log w)) p
        ((retention_of (gd_log w) p)\<lparr>pr_logical_floor := floor, pr_floor_byte_position := b\<rparr>)\<rparr>"
      "ls_leases (gd_leases w') = ls_leases (gd_leases w)" "ls_budget (gd_leases w') = ls_budget (gd_leases w)"
  shows "retention_ok w'"
proof -
  note D = retention_okD [OF ok]
  have reads: "records_of (gd_log w') = records_of (gd_log w)" "next_offset (gd_log w') = next_offset (gd_log w)"
    "retention_of (gd_log w') = (retention_of (gd_log w))(p :=
      (retention_of (gd_log w) p)\<lparr>pr_logical_floor := floor, pr_floor_byte_position := b\<rparr>)"
    by (auto simp: w' records_of_def next_offset_def retention_of_def fun_eq_iff)
  have bytes: "unat b = pos (unat floor)"
    if "chain_with pos (records_of (gd_log w) p) (retention_of (gd_log w) p) (next_offset (gd_log w) p)" for pos
    using floor_boundary_exact [OF that up] b by auto
  have "partition_ok (gd_log w') q" for q
  proof (cases "q = p")
    case True
    then show ?thesis
      unfolding partition_ok_def reads using chain_floor [OF log_okD [OF D(1), of p] up, of b] bytes by simp
  next
    case False
    then show ?thesis using log_okD [OF D(1), of q] by (simp add: partition_ok_def reads)
  qed
  then have "log_ok (gd_log w')" using D(1) by (simp add: log_ok_def w')
  moreover have "pr_reclaim_cursor (retention_of (gd_log w') q) = pr_reclaim_cursor (retention_of (gd_log w) q)" for q
    by (simp add: reads)
  ultimately show ?thesis
    using D w'(2,3) reads(1)
    by (simp add: retention_ok_def leases_backed_def no_leak_def lease_budget_of_def w'(1))
qed

lemma advance_retention_keeps:
  assumes run: "apply_advance_retention cd db request ob db = (w, result)" and ok: "retention_ok db"
  shows "retention_ok w"
proof -
  let ?p = "rq_partition request" and ?fp = "retention_fingerprint cd request"
  let ?ret = "retention_of (gd_log db) (rq_partition request)"
  note unfold = apply_advance_retention_def Let_def
  show ?thesis
  proof (cases "kind_is_data db \<and> prior_mutation_result cd db (rq_request request) ?fp = None")
    case False
    then have "w = db" using run unfolding unfold by (auto split: if_splits option.splits)
    with ok show ?thesis by simp
  next
    case fresh: True
    show ?thesis
    proof (cases "advance_floor (pr_logical_floor ?ret) (rq_target_floor request) (next_offset (gd_log db) ?p)")
      case (Inl e)
      with run fresh ok show ?thesis unfolding unfold by auto
    next
      case floor: (Inr floor)
      show ?thesis
      proof (cases "advance_lease_clock db ob")
        case (Inl e)
        with run fresh floor ok show ?thesis unfolding unfold by auto
      next
        case clock: (Inr clock)
        have "pr_logical_floor ?ret \<le> next_offset (gd_log db) ?p"
          using log_okD [OF retention_okD(1) [OF ok], of ?p] by (auto simp: chain_ok_def dest: chain_withD)
        with floor have up: "pr_logical_floor ?ret \<le> floor" "floor \<le> next_offset (gd_log db) ?p"
          by (auto simp: advance_floor_Inr)
        obtain pos where "chain_with pos (records_of (gd_log db) ?p) ?ret (next_offset (gd_log db) ?p)"
          using log_okD [OF retention_okD(1) [OF ok], of ?p] by (auto simp: chain_ok_def)
        from floor_boundary_exact [OF this up] obtain b where b: "floor_boundary (gd_log db) ?p ?ret floor = Some b"
          by blast
        let ?w = "db\<lparr>gd_log := (gd_log db)\<lparr>lg_retention := tput (lg_retention (gd_log db)) ?p
             (?ret\<lparr>pr_logical_floor := floor, pr_floor_byte_position := b\<rparr>)\<rparr>,
           gd_leases := (gd_leases db)\<lparr>ls_clock := Some clock\<rparr>\<rparr>"
        have "w = store_mutation_result cd db (rq_request request) ?fp result ?w"
          using run fresh floor clock b unfolding unfold by auto
        then show ?thesis using retention_ok_floor [OF ok up b, of ?w] by simp
      qed
    qed
  qed
qed

section \<open>Leases\<close>

lemma admit_lease_Inr:
  assumes "admit_lease cd db request clock budget = Inr l"
  shows "rl_id l = replay_lease_id cd (lr_request request)" "rl_request l = request" "rl_lifecycle l = LeaseActive"
    "pr_logical_floor (retention_of (gd_log db) (rg_partition (lr_range request))) \<le> rg_start (lr_range request)"
    "rg_end (lr_range request) \<le> next_offset (gd_log db) (rg_partition (lr_range request))"
    "lb_active_leases budget < lim_max_active_leases RetentionLimits_default"
    "saturating_add (lb_reserved_bytes budget) (rl_protected_bytes l)
      \<le> lim_max_group_reserved_lease_bytes RetentionLimits_default"
    "replay_range_bytes (gd_log db) request (retention_of (gd_log db) (rg_partition (lr_range request))) =
      Inr (rl_protected_bytes l)"
proof -
  from assms obtain bytes where b: "replay_range_bytes (gd_log db) request
      (retention_of (gd_log db) (rg_partition (lr_range request))) = Inr bytes"
    and a: "admit (replay_lease_id cd (lr_request request)) request bytes
      \<lparr>am_floor = pr_logical_floor (retention_of (gd_log db) (rg_partition (lr_range request))),
       am_tail = next_offset (gd_log db) (rg_partition (lr_range request)), am_clock = clock,
       am_limits = RetentionLimits_default, am_budget = budget\<rparr> = Inr l"
    by (auto simp: admit_lease_def Let_def bind_result_Inr split: if_splits)
  have i: "pr_logical_floor (retention_of (gd_log db) (rg_partition (lr_range request))) \<le> rg_start (lr_range request)"
    "rg_end (lr_range request) \<le> next_offset (gd_log db) (rg_partition (lr_range request))"
    "lb_active_leases budget < lim_max_active_leases RetentionLimits_default"
    "saturating_add (lb_reserved_bytes budget) bytes \<le> lim_max_group_reserved_lease_bytes RetentionLimits_default"
    using admit_Inr [OF a] by simp_all
  have l: "l = ReplayLease_admitted (replay_lease_id cd (lr_request request)) request bytes
      (rl_expires_at l) (rl_hard_expires_at l)" using admit_Inr [OF a] by blast
  have bytes: "rl_protected_bytes l = bytes" by (subst l) (simp add: ReplayLease_admitted_def)
  show "rl_id l = replay_lease_id cd (lr_request request)" "rl_request l = request" "rl_lifecycle l = LeaseActive"
    by (subst l, simp add: ReplayLease_admitted_def)+
  show "replay_range_bytes (gd_log db) request (retention_of (gd_log db) (rg_partition (lr_range request))) =
      Inr (rl_protected_bytes l)" using b bytes by simp
  show "pr_logical_floor (retention_of (gd_log db) (rg_partition (lr_range request))) \<le> rg_start (lr_range request)"
    "rg_end (lr_range request) \<le> next_offset (gd_log db) (rg_partition (lr_range request))"
    "lb_active_leases budget < lim_max_active_leases RetentionLimits_default"
    "saturating_add (lb_reserved_bytes budget) (rl_protected_bytes l)
      \<le> lim_max_group_reserved_lease_bytes RetentionLimits_default"
    using i bytes by simp_all
qed

text \<open>The common start of the three lease handlers, up to the expiry of due leases.\<close>

lemma lease_handler_start:
  assumes run: "(case prior of Some r \<Rightarrow> (db, r)
      | None \<Rightarrow> (case advance_lease_clock db ob of Inl e \<Rightarrow> finish db (Rejected e)
          | Inr clock \<Rightarrow> (case expire_due_leases db clock db of (w1, xs) \<Rightarrow> body clock w1 xs))) = (w, result)"
    and ok: "retention_ok db" and finish: "\<And>r. fst (finish db r) = store_mutation_result cd db request fp r db"
    and body: "\<And>clock w1 xs. prior = None \<Longrightarrow> expiry_effect clock db w1 xs \<Longrightarrow> retention_ok w1 \<Longrightarrow>
      retention_ok (fst (body clock w1 xs))"
  shows "retention_ok w"
proof (cases prior)
  case (Some r)
  with run ok show ?thesis by simp
next
  case None
  show ?thesis
  proof (cases "advance_lease_clock db ob")
    case (Inl e)
    with run None have "(w, result) = finish db (Rejected e)" by simp
    then have "w = store_mutation_result cd db request fp (Rejected e) db" by (metis finish fst_conv)
    with ok show ?thesis by simp
  next
    case (Inr clock)
    obtain w1 xs where e: "expire_due_leases db clock db = (w1, xs)" by fastforce
    note eff = expire_due_leases_effect [OF e retention_okD(2) [OF ok]]
    have "retention_ok (fst (body clock w1 xs))" by (rule body [OF None eff expiry_keeps [OF eff ok]])
    with run None Inr e show ?thesis by simp
  qed
qed

lemma expiry_reads:
  assumes "expiry_effect clock db w xs"
  shows "pr_logical_floor (retention_of (gd_log w) p) = pr_logical_floor (retention_of (gd_log db) p)"
    "next_offset (gd_log w) p = next_offset (gd_log db) p" "xs_budget xs = lease_budget_of w"
    "tget (ls_leases (gd_leases w)) i = map_option (expire_if_due clock) (tget (ls_leases (gd_leases db)) i)"
proof -
  have low: "lowered (gd_log db) (gd_log w)" and t: "ls_leases (gd_leases w) = expire_table clock (ls_leases (gd_leases db))"
    and b: "xs_budget xs = lease_budget_of w"
    using assms unfolding expiry_effect_def by blast+
  have "same_but_cursor (retention_of (gd_log w) p) (retention_of (gd_log db) p)"
    "lg_next_offset (gd_log w) = lg_next_offset (gd_log db)" using low by (auto simp: lowered_def)
  then show "pr_logical_floor (retention_of (gd_log w) p) = pr_logical_floor (retention_of (gd_log db) p)"
    "next_offset (gd_log w) p = next_offset (gd_log db) p"
    by (auto simp: next_offset_def dest: same_but_cursorD(1))
  show "xs_budget xs = lease_budget_of w" by (rule b)
  show "tget (ls_leases (gd_leases w)) i = map_option (expire_if_due clock) (tget (ls_leases (gd_leases db)) i)"
    by (simp add: t tget_expire_table)
qed

text \<open>The identity of an admitted lease is new unless SHA-256 collides on its first sixteen bytes.\<close>

lemma admit_keeps:
  assumes run: "apply_admit_replay_lease cd db request ob db = (w, result)" and ok: "retention_ok db"
    and new: "prior_mutation_result cd db (lr_request request) (mutation_fingerprint cd (cd_json_lease cd request)) = None \<Longrightarrow>
      tget (ls_leases (gd_leases db)) (replay_lease_id cd (lr_request request)) = None"
  shows "retention_ok w"
  using run ok unfolding apply_admit_replay_lease_def Let_def
proof (rule lease_handler_start [where cd = cd and request = "lr_request request" and
      fp = "mutation_fingerprint cd (cd_json_lease cd request)"], goal_cases)
  case (1 r)
  show ?case by simp
next
  case (2 clock w1 xs)
  note reads = expiry_reads [OF 2(2)]
  show ?case
  proof (cases "admit_lease cd db request clock (xs_budget xs)")
    case (Inl e)
    with 2(3) show ?thesis by simp
  next
    case (Inr l)
    note a = admit_lease_Inr [OF Inr]
    have fresh: "tget (ls_leases (gd_leases w1)) (rl_id l) = None" using new [OF 2(1)] by (simp add: reads(4) a(1))
    have "retention_ok (w1\<lparr>gd_leases := (gd_leases w1)
        \<lparr>ls_leases := tput (ls_leases (gd_leases w1)) (rl_id l) l,
         ls_requests := tput (ls_requests (gd_leases w1)) (replay_lease_request_key cd (lr_request request)) (rl_id l),
         ls_budget := Some \<lparr>lb_active_leases = saturating_add (lb_active_leases (xs_budget xs)) 1,
            lb_reserved_bytes = saturating_add (lb_reserved_bytes (xs_budget xs)) (rl_protected_bytes l)\<rparr>,
         ls_clock := Some clock\<rparr>\<rparr>)"
      by (rule retention_ok_admitted [OF 2(3) fresh a(3)])
        (use a reads in \<open>simp_all add: a(2)\<close>)
    with Inr show ?thesis by simp
  qed
qed

lemma effective_lease_live:
  assumes "expiry_effect clock db w xs" "tget (ls_leases (gd_leases db)) i = Some l"
    and "lease_is_effectively_active l clock" "leases_keyed (ls_leases (gd_leases db))"
  shows "live_lease (ls_leases (gd_leases w)) l" "rl_id l = i"
proof -
  show id: "rl_id l = i" using leases_keyed_id [OF assms(4,2)] .
  have t: "ls_leases (gd_leases w) = expire_table clock (ls_leases (gd_leases db))"
    using assms(1) unfolding expiry_effect_def by blast
  show "live_lease (ls_leases (gd_leases w)) l"
    unfolding t live_lease_expire_table
    using assms(2,3) id by (simp add: live_lease_def lease_is_effectively_active_def)
qed

lemma renew_keeps:
  assumes run: "apply_renew_replay_lease cd db request ob db = (w, result)" and ok: "retention_ok db"
  shows "retention_ok w"
  using run ok unfolding apply_renew_replay_lease_def Let_def
proof (rule lease_handler_start [where cd = cd and request = "ln_request request" and
      fp = "mutation_fingerprint cd (cd_json_renewal cd request)"], goal_cases)
  case (1 r)
  show ?case by simp
next
  case (2 clock w1 xs)
  show ?case
  proof (cases "tget (ls_leases (gd_leases db)) (ln_lease request)")
    case None
    with 2(3) show ?thesis by simp
  next
    case (Some l)
    have "retention_ok (w1\<lparr>gd_leases := (gd_leases w1)
        \<lparr>ls_leases := tput (ls_leases (gd_leases w1)) (ln_lease request) m, ls_clock := Some clock\<rparr>\<rparr>)"
      if eff: "lease_is_effectively_active l clock" and m: "lease_renewed l e h = Inr m" for e h m
    proof -
      note live = effective_lease_live [OF 2(2) Some eff retention_okD(2) [OF ok]]
      have "rl_id m = rl_id l" "rl_request m = rl_request l" "rl_protected_bytes m = rl_protected_bytes l"
        "rl_lifecycle m = LeaseActive"
        using m eff by (auto simp: lease_renewed_def lease_is_effectively_active_def split: if_splits)
      from retention_ok_renewed [OF 2(3) live(1) this] live(2) show ?thesis by simp
    qed
    with Some 2(3) show ?thesis by (auto split: option.splits sum.splits)
  qed
qed

lemma release_range_effect:
  assumes eff: "expiry_effect clock db w xs"
  shows "lowered (gd_log w) (release_range db xs r (gd_log w))"
    "handed_back (gd_log w) (release_range db xs r (gd_log w)) r"
proof -
  let ?p = "rg_partition r"
  have view: "(case tget (xs_retentions xs) ?p of Some ret \<Rightarrow> ret | None \<Rightarrow> retention_of (gd_log db) ?p) =
      retention_of (gd_log w) ?p"
    and hint: "tget (lg_reclaim_hint (gd_log w)) ?p = (case tget (xs_reclaim_hints xs) ?p of
        Some c \<Rightarrow> Some (case tget (lg_reclaim_hint (gd_log db)) ?p of None \<Rightarrow> c | Some e \<Rightarrow> min e c)
      | None \<Rightarrow> tget (lg_reclaim_hint (gd_log db)) ?p)"
    using eff unfolding expiry_effect_def ret_view_def by blast+
  have set_cursor: "retention_of ((gd_log w)\<lparr>lg_retention := tput (lg_retention (gd_log w)) ?p v\<rparr>) =
      (retention_of (gd_log w))(?p := v)" for v
    by (auto simp: retention_of_def fun_eq_iff)
  have keep: "retention_of ((gd_log w)\<lparr>lg_reclaim_hint := h\<rparr>) = retention_of (gd_log w)" for h
    by (auto simp: retention_of_def fun_eq_iff)
  show "lowered (gd_log w) (release_range db xs r (gd_log w))"
    by (auto simp: lowered_def release_range_def Let_def view set_cursor put_hint_def keep hint min_def
        split: option.splits)
  show "handed_back (gd_log w) (release_range db xs r (gd_log w)) r"
    by (auto simp: handed_back_def release_range_def Let_def view set_cursor put_hint_def keep min_def
        split: option.splits)
qed

lemma release_keeps:
  assumes run: "apply_release_replay_lease cd db request ob db = (w, result)" and ok: "retention_ok db"
  shows "retention_ok w"
  using run ok unfolding apply_release_replay_lease_def Let_def
proof (rule lease_handler_start [where cd = cd and request = "le_request request" and
      fp = "mutation_fingerprint cd (cd_json_release cd request)"], goal_cases)
  case (1 r)
  show ?case by simp
next
  case (2 clock w1 xs)
  show ?case
  proof (cases "tget (ls_leases (gd_leases db)) (le_lease request)")
    case None
    with 2(3) show ?thesis by simp
  next
    case (Some l)
    have "retention_ok (w1\<lparr>gd_leases := (gd_leases w1)
          \<lparr>ls_leases := tput (ls_leases (gd_leases w1)) (le_lease request) (lease_released l),
           ls_budget := Some (budget_release (xs_budget xs) (rl_protected_bytes (lease_released l))),
           ls_clock := Some clock\<rparr>,
         gd_log := release_range db xs (rl_range (lease_released l)) (gd_log w1)\<rparr>)"
      if eff: "lease_is_effectively_active l clock"
    proof -
      note live = effective_lease_live [OF 2(2) Some eff retention_okD(2) [OF ok]]
      show ?thesis
        by (rule retention_ok_released [OF 2(3) live(1)])
          (simp_all add: release_range_effect [OF 2(2)] live(2) expiry_reads(3) [OF 2(2)])
    qed
    with Some 2(3) show ?thesis by (auto split: option.splits sum.splits)
  qed
qed

section \<open>Reclaiming\<close>

text \<open>
  What a run of the maintenance loop may have done to the log it started from: it has moved the cursor
  up to the floor at most, deleted only records it passed and that no active range covers, and left
  behind only records that one does.
\<close>

definition reclaims ::
  "PartitionKey \<Rightarrow> ReplayRange list \<Rightarrow> PartitionRetentionState \<times> log_state \<Rightarrow> PartitionRetentionState \<times> log_state \<Rightarrow> bool"
where
  "reclaims p ranges st st' \<longleftrightarrow>
     (let ret = fst st; lg = snd st; ret' = fst st'; lg' = snd st'
      in lg_next_offset lg' = lg_next_offset lg \<and> lg_retention lg' = lg_retention lg \<and>
         lg_reclaim_hint lg' = lg_reclaim_hint lg \<and> (tsorted (lg_records lg) \<longrightarrow> tsorted (lg_records lg')) \<and>
         pr_logical_floor ret' = pr_logical_floor ret \<and> pr_next_byte_position ret' = pr_next_byte_position ret \<and>
         pr_floor_byte_position ret' = pr_floor_byte_position ret \<and>
         pr_reclaim_cursor ret \<le> pr_reclaim_cursor ret' \<and>
         (pr_reclaim_cursor ret \<le> pr_logical_floor ret \<longrightarrow> pr_reclaim_cursor ret' \<le> pr_logical_floor ret) \<and>
         (\<forall>q off. (q, off) \<noteq> (p, off) \<or> off < pr_reclaim_cursor ret \<or> pr_reclaim_cursor ret' \<le> off \<longrightarrow>
            records_of lg' q off = records_of lg q off) \<and>
         (\<forall>off. pr_reclaim_cursor ret \<le> off \<and> off < pr_reclaim_cursor ret' \<longrightarrow>
            records_of lg' p off = (if \<exists>r \<in> set ranges. range_contains r off then records_of lg p off else None)))"

lemma reclaims_refl: "reclaims p ranges st st"
  by (auto simp: reclaims_def Let_def)

lemma reclaims_trans:
  assumes "reclaims p ranges a b" "reclaims p ranges b c"
  shows "reclaims p ranges a c"
proof -
  let ?ca = "pr_reclaim_cursor (fst a)" and ?cb = "pr_reclaim_cursor (fst b)" and ?cc = "pr_reclaim_cursor (fst c)"
  have f: "lg_next_offset (snd c) = lg_next_offset (snd a)" "lg_retention (snd c) = lg_retention (snd a)"
    "lg_reclaim_hint (snd c) = lg_reclaim_hint (snd a)" "tsorted (lg_records (snd a)) \<longrightarrow> tsorted (lg_records (snd c))"
    "pr_logical_floor (fst c) = pr_logical_floor (fst a)" "pr_next_byte_position (fst c) = pr_next_byte_position (fst a)"
    "pr_floor_byte_position (fst c) = pr_floor_byte_position (fst a)" "?ca \<le> ?cb" "?cb \<le> ?cc"
    "?ca \<le> pr_logical_floor (fst a) \<longrightarrow> ?cc \<le> pr_logical_floor (fst a)"
    using assms unfolding reclaims_def Let_def by simp_all
  have ab: "(q, off) \<noteq> (p, off) \<or> off < ?ca \<or> ?cb \<le> off \<Longrightarrow> records_of (snd b) q off = records_of (snd a) q off"
    "?ca \<le> off \<Longrightarrow> off < ?cb \<Longrightarrow> records_of (snd b) p off =
      (if \<exists>r \<in> set ranges. range_contains r off then records_of (snd a) p off else None)" for q off
    using assms(1) unfolding reclaims_def Let_def by blast+
  have bc: "(q, off) \<noteq> (p, off) \<or> off < ?cb \<or> ?cc \<le> off \<Longrightarrow> records_of (snd c) q off = records_of (snd b) q off"
    "?cb \<le> off \<Longrightarrow> off < ?cc \<Longrightarrow> records_of (snd c) p off =
      (if \<exists>r \<in> set ranges. range_contains r off then records_of (snd b) p off else None)" for q off
    using assms(2) unfolding reclaims_def Let_def by blast+
  have outside: "records_of (snd c) q off = records_of (snd a) q off"
    if "(q, off) \<noteq> (p, off) \<or> off < ?ca \<or> ?cc \<le> off" for q off
  proof -
    have "(q, off) \<noteq> (p, off) \<or> off < ?ca \<or> ?cb \<le> off" "(q, off) \<noteq> (p, off) \<or> off < ?cb \<or> ?cc \<le> off"
      using that order_trans [OF f(9)] order_less_le_trans [OF _ f(8)] by blast+
    then show ?thesis using ab(1) [of q off] bc(1) [of q off] by simp
  qed
  have inside: "records_of (snd c) p off = (if \<exists>r \<in> set ranges. range_contains r off then records_of (snd a) p off else None)"
    if "?ca \<le> off" "off < ?cc" for off
  proof (cases "off < ?cb")
    case True
    with that show ?thesis using ab(2) [of off] bc(1) [of p off] by simp
  next
    case False
    then have "?cb \<le> off" by (simp add: not_less)
    with that show ?thesis using ab(1) [of p off] bc(2) [of off] by simp
  qed
  show ?thesis
    unfolding reclaims_def Let_def
    using f outside inside order_trans [OF f(8,9)] by simp
qed

lemma reclaims_skip:
  assumes "range_contains r (pr_reclaim_cursor ret)" "r \<in> set ranges"
    "pr_reclaim_cursor ret < pr_logical_floor ret"
  shows "reclaims p ranges (ret, lg) (ret\<lparr>pr_reclaim_cursor := min (rg_end r) (pr_logical_floor ret)\<rparr>, lg)"
  using assms unfolding reclaims_def Let_def range_contains_def
  by (auto simp: min_def intro: order_trans)

lemma below_next: "c < floor \<Longrightarrow> off < saturating_add c 1 \<longleftrightarrow> off \<le> c" for c floor off :: u64
  by (simp add: saturating_add_one word_less_nat_alt word_le_nat_alt unat_Suc_below less_Suc_eq_le)

lemma reclaims_missing:
  assumes "records_of lg p (pr_reclaim_cursor ret) = None" "pr_reclaim_cursor ret < pr_logical_floor ret"
  shows "reclaims p ranges (ret, lg) (ret\<lparr>pr_reclaim_cursor := saturating_add (pr_reclaim_cursor ret) 1\<rparr>, lg)"
proof -
  note next_ = below_next [OF assms(2)]
  have "pr_reclaim_cursor ret \<le> saturating_add (pr_reclaim_cursor ret) 1"
    using next_ [of "pr_reclaim_cursor ret"] by simp
  moreover have "saturating_add (pr_reclaim_cursor ret) 1 \<le> pr_logical_floor ret"
    using next_ [of "pr_logical_floor ret"] assms(2) by (simp add: not_less [symmetric])
  moreover have "off = pr_reclaim_cursor ret" if "pr_reclaim_cursor ret \<le> off" "off < saturating_add (pr_reclaim_cursor ret) 1" for off
    using that next_ by simp
  ultimately show ?thesis using assms(1) unfolding reclaims_def Let_def by auto
qed

lemma records_of_tdel [simp]:
  "records_of (lg\<lparr>lg_records := tdel (lg_records lg) (p, c)\<rparr>) q =
    (if q = p then (records_of lg p)(c := None) else records_of lg q)"
  by (auto simp: records_of_def fun_eq_iff)

lemma reclaims_record:
  assumes "\<forall>r \<in> set ranges. \<not> range_contains r (pr_reclaim_cursor ret)"
    "pr_reclaim_cursor ret < pr_logical_floor ret"
  shows "reclaims p ranges (ret, lg) (reclaim_record bank p r owners (ret, lg))"
proof -
  note next_ = below_next [OF assms(2)]
  obtain ret' lg' where e: "reclaim_record bank p r owners (ret, lg) = (ret', lg')" by fastforce
  have le: "pr_reclaim_cursor ret \<le> saturating_add (pr_reclaim_cursor ret) 1"
    "saturating_add (pr_reclaim_cursor ret) 1 \<le> pr_logical_floor ret"
    using next_ [of "pr_reclaim_cursor ret"] next_ [of "pr_logical_floor ret"] assms(2)
    by (simp_all add: not_less [symmetric])
  have one: "off = pr_reclaim_cursor ret" if "pr_reclaim_cursor ret \<le> off" "off < saturating_add (pr_reclaim_cursor ret) 1" for off
    using that next_ by simp
  have f: "lg_next_offset lg' = lg_next_offset lg" "lg_retention lg' = lg_retention lg"
    "lg_reclaim_hint lg' = lg_reclaim_hint lg" "lg_records lg' = tdel (lg_records lg) (p, pr_reclaim_cursor ret)"
    "pr_logical_floor ret' = pr_logical_floor ret" "pr_next_byte_position ret' = pr_next_byte_position ret"
    "pr_floor_byte_position ret' = pr_floor_byte_position ret"
    "pr_reclaim_cursor ret' = saturating_add (pr_reclaim_cursor ret) 1"
    using e by (auto simp: reclaim_record_def Let_def)
  have recs: "records_of lg' q off = (if (q, off) = (p, pr_reclaim_cursor ret) then None else records_of lg q off)" for q off
    by (simp add: records_of_def f)
  have "pr_reclaim_cursor ret < saturating_add (pr_reclaim_cursor ret) 1"
    using next_ [of "pr_reclaim_cursor ret"] by simp
  then show ?thesis
    unfolding e reclaims_def Let_def fst_conv snd_conv recs f using le one assms(1) by auto
qed

lemma maintain_loop_reclaims:
  assumes "maintain_loop dblog bank p ranges max_records max_bytes examined reclaimed (ret, lg) = Inr st"
    and "\<And>off. pr_reclaim_cursor ret \<le> off \<Longrightarrow> records_of lg p off = records_of dblog p off"
  shows "reclaims p ranges (ret, lg) st"
  using assms
proof (induction dblog bank p ranges max_records max_bytes examined reclaimed "(ret, lg)" arbitrary: ret lg
    rule: maintain_loop.induct)
  case (1 dblog bank p ranges max_records max_bytes examined reclaimed ret lg)
  let ?c = "pr_reclaim_cursor ret"
  show ?case
  proof (cases "?c < pr_logical_floor ret \<and> examined < max_records")
    case False
    then have "st = (ret, lg)" using "1.prems"(1) by (subst (asm) maintain_loop.simps) auto
    then show ?thesis by (simp add: reclaims_refl)
  next
    case go: True
    then have below: "?c < pr_logical_floor ret" by simp
    have up: "?c \<le> saturating_add ?c 1" using below_next [OF below, of ?c] by simp
    show ?thesis
    proof (cases "find (\<lambda>r. range_contains r ?c) ranges")
      case (Some r)
      then have r: "range_contains r ?c" "r \<in> set ranges" by (auto simp: find_Some_iff)
      let ?ret = "ret\<lparr>pr_reclaim_cursor := min (rg_end r) (pr_logical_floor ret)\<rparr>"
      have up: "?c \<le> pr_reclaim_cursor ?ret" using r(1) below by (auto simp: range_contains_def)
      have next_: "maintain_loop dblog bank p ranges max_records max_bytes examined reclaimed (?ret, lg) = Inr st"
        using "1.prems"(1) go Some by (subst (asm) maintain_loop.simps) simp
      have "reclaims p ranges (?ret, lg) st"
        by (rule "1.hyps"(3) [OF go Some next_]) (rule "1.prems"(2) [OF order_trans [OF up]])
      with reclaims_skip [OF r below] show ?thesis by (rule reclaims_trans)
    next
      case none: None
      show ?thesis
      proof (cases "tget (lg_records dblog) (p, ?c)")
        case None
        let ?ret = "ret\<lparr>pr_reclaim_cursor := saturating_add ?c 1\<rparr>"
        have next_: "maintain_loop dblog bank p ranges max_records max_bytes (saturating_add examined 1) reclaimed
            (?ret, lg) = Inr st"
          using "1.prems"(1) go none None by (subst (asm) maintain_loop.simps) simp
        have "reclaims p ranges (?ret, lg) st"
          by (rule "1.hyps"(1) [OF go none None next_]) (rule "1.prems"(2), use up in simp)
        moreover have "records_of lg p ?c = None" using "1.prems"(2) [of ?c] None by (simp add: records_of_def)
        ultimately show ?thesis using reclaims_missing [OF _ below] by (blast intro: reclaims_trans)
      next
        case (Some r)
        show ?thesis
        proof (cases "examined > 0 \<and> saturating_add reclaimed (sr_payload_bytes r) > max_bytes")
          case True
          then have "st = (ret, lg)" using "1.prems"(1) go none Some by (subst (asm) maintain_loop.simps) auto
          then show ?thesis by (simp add: reclaims_refl)
        next
          case run: False
          with "1.prems"(1) go none Some obtain owners where o: "tget (lg_owners dblog) (sr_payload_key r) = Some owners"
            by (subst (asm) maintain_loop.simps) (auto split: option.splits)
          obtain ret' lg' where e: "reclaim_record bank p r owners (ret, lg) = (ret', lg')" by fastforce
          have "\<forall>r \<in> set ranges. \<not> range_contains r ?c" using none by (auto simp: find_None_iff)
          from reclaims_record [OF this below, of p lg bank r owners]
          have step: "reclaims p ranges (ret, lg) (ret', lg')" unfolding e .
          have cur: "pr_reclaim_cursor ret' = saturating_add ?c 1"
            using reclaim_record_cursor(1) [of bank p r owners ret lg] e by simp
          have same: "records_of lg' p off = records_of dblog p off" if "pr_reclaim_cursor ret' \<le> off" for off
          proof -
            have "records_of lg' p off = records_of lg p off"
              using step that unfolding reclaims_def Let_def fst_conv snd_conv by blast
            then show ?thesis using "1.prems"(2) [of off] that up cur by (simp add: order_trans [OF up])
          qed
          have next_: "maintain_loop dblog bank p ranges max_records max_bytes (saturating_add examined 1)
              (saturating_add reclaimed (sr_payload_bytes r)) (ret', lg') = Inr st"
            using "1.prems"(1) go none Some run o e by (subst (asm) maintain_loop.simps) auto
          have "reclaims p ranges (ret', lg') st"
            by (rule "1.hyps"(2) [OF go none Some run o e next_ same])
          with step show ?thesis by (rule reclaims_trans)
        qed
      qed
    qed
  qed
qed


lemma reclaimsD:
  assumes "reclaims p ranges (ret, lg) (ret', lg')"
  shows "lg_next_offset lg' = lg_next_offset lg" "lg_retention lg' = lg_retention lg"
    "lg_reclaim_hint lg' = lg_reclaim_hint lg" "tsorted (lg_records lg) \<Longrightarrow> tsorted (lg_records lg')"
    "pr_logical_floor ret' = pr_logical_floor ret" "pr_next_byte_position ret' = pr_next_byte_position ret"
    "pr_floor_byte_position ret' = pr_floor_byte_position ret" "pr_reclaim_cursor ret \<le> pr_reclaim_cursor ret'"
    "pr_reclaim_cursor ret \<le> pr_logical_floor ret \<Longrightarrow> pr_reclaim_cursor ret' \<le> pr_logical_floor ret"
    "q \<noteq> p \<or> off < pr_reclaim_cursor ret \<or> pr_reclaim_cursor ret' \<le> off \<Longrightarrow>
      records_of lg' q off = records_of lg q off"
    "pr_reclaim_cursor ret \<le> off \<Longrightarrow> off < pr_reclaim_cursor ret' \<Longrightarrow> records_of lg' p off =
      (if \<exists>r \<in> set ranges. range_contains r off then records_of lg p off else None)"
  using assms unfolding reclaims_def Let_def by auto

text \<open>A run over the ranges of exactly the live leases of the partition keeps the invariant.\<close>

lemma retention_ok_reclaimed:
  assumes ok: "retention_ok w" and run: "reclaims p ranges (retention_of (gd_log w) p, gd_log w) (ret', lg')"
    and ranges: "set ranges = {rl_range l | l. live_lease (ls_leases (gd_leases w)) l \<and> rg_partition (rl_range l) = p}"
    and w': "gd_log w' = lg'\<lparr>lg_retention := tput (lg_retention lg') p ret'\<rparr>"
      "ls_leases (gd_leases w') = ls_leases (gd_leases w)" "ls_budget (gd_leases w') = ls_budget (gd_leases w)"
  shows "retention_ok w'"
proof -
  note D = retention_okD [OF ok] and R = reclaimsD [OF run]
  let ?ret = "retention_of (gd_log w) p" and ?t = "ls_leases (gd_leases w)"
  have reads: "records_of (gd_log w') = records_of lg'" "next_offset (gd_log w') = next_offset (gd_log w)"
    "retention_of (gd_log w') = (retention_of (gd_log w))(p := ret')"
    "lg_reclaim_hint (gd_log w') = lg_reclaim_hint (gd_log w)"
    by (auto simp: w' R records_of_def next_offset_def retention_of_def fun_eq_iff)
  have below: "pr_reclaim_cursor ?ret \<le> pr_logical_floor ?ret"
    using log_okD [OF D(1), of p] by (auto simp: chain_ok_def dest: chain_withD(2))
  have kept: "records_of lg' q off = records_of (gd_log w) q off \<or>
      q = p \<and> records_of lg' q off = None \<and> off < pr_logical_floor ?ret \<and> \<not> (\<exists>r \<in> set ranges. range_contains r off)"
    for q off
  proof (cases "q \<noteq> p \<or> off < pr_reclaim_cursor ?ret \<or> pr_reclaim_cursor ret' \<le> off")
    case False
    then have "off < pr_reclaim_cursor ret'" by (simp add: not_le)
    with R(9) [OF below] have "off < pr_logical_floor ?ret" by order
    with False R(11) [of off] show ?thesis by (simp add: not_le not_less split: if_splits)
  qed (simp add: R(10))
  have "partition_ok (gd_log w') q" for q
  proof (cases "q = p")
    case True
    have "chain_ok (records_of lg' p) ret' (next_offset (gd_log w) p)"
      by (rule chain_reclaim [OF log_okD [OF D(1)] R(9) [OF below] R(5-7)]) (use kept in blast)
    with True show ?thesis by (simp add: partition_ok_def reads)
  next
    case False
    then have "records_of lg' q = records_of (gd_log w) q" using R(10) by (simp add: fun_eq_iff)
    with False show ?thesis using log_okD [OF D(1), of q] by (simp add: partition_ok_def reads)
  qed
  then have "log_ok (gd_log w')" using D(1) R(4) by (simp add: log_ok_def w')
  moreover have "leases_backed (gd_log w') ?t"
    unfolding leases_backed_def reads
  proof (intro allI impI)
    fix l off assume l: "live_lease ?t l \<and> range_contains (rl_range l) off"
    then have "rg_partition (rl_range l) = p \<longrightarrow> rl_range l \<in> set ranges" unfolding ranges by blast
    with l kept [of "rg_partition (rl_range l)" off]
    have "records_of lg' (rg_partition (rl_range l)) off = records_of (gd_log w) (rg_partition (rl_range l)) off" by blast
    with l D(5) show "records_of lg' (rg_partition (rl_range l)) off \<noteq> None" unfolding leases_backed_def by metis
  qed
  moreover have "no_leak (gd_log w') ?t"
    unfolding no_leak_def reads
  proof (intro allI impI)
    fix q off
    assume a: "records_of lg' q off \<noteq> None \<and> off < pr_reclaim_cursor (((retention_of (gd_log w))(p := ret')) q)"
    show "(\<exists>l. live_lease ?t l \<and> rg_partition (rl_range l) = q \<and> range_contains (rl_range l) off) \<or>
        (\<exists>h \<le> off. tget (lg_reclaim_hint (gd_log w)) q = Some h)"
    proof (cases "q = p \<and> pr_reclaim_cursor ?ret \<le> off")
      case True
      with a R(11) [of off] obtain r where "r \<in> set ranges" "range_contains r off" by (auto split: if_splits)
      with True show ?thesis unfolding ranges by blast
    next
      case False
      then have "off < pr_reclaim_cursor (retention_of (gd_log w) q)" using conjunct2 [OF a] by (cases "q = p") (auto simp: not_le)
      moreover have "records_of (gd_log w) q off \<noteq> None" using a kept [of q off] by auto
      ultimately show ?thesis using D(6) unfolding no_leak_def by blast
    qed
  qed
  ultimately show ?thesis using D w'(2,3) by (simp add: retention_ok_def lease_budget_of_def)
qed

lemma active_ranges:
  assumes eff: "expiry_effect clock db w xs" and keyed: "leases_keyed (ls_leases (gd_leases db))"
  shows "set (map rl_range (filter (\<lambda>l. rg_partition (rl_range l) = p) (xs_active xs))) =
    {rl_range l | l. live_lease (ls_leases (gd_leases w)) l \<and> rg_partition (rl_range l) = p}"
proof -
  have act: "xs_active xs = filter (\<lambda>l. lease_is_effectively_active l clock) (map snd (ls_leases (gd_leases db)))"
    and t: "ls_leases (gd_leases w) = expire_table clock (ls_leases (gd_leases db))"
    using eff unfolding expiry_effect_def by blast+
  have "l \<in> set (xs_active xs) \<longleftrightarrow> live_lease (ls_leases (gd_leases w)) l" for l
  proof -
    have "l \<in> snd ` set (ls_leases (gd_leases db)) \<longleftrightarrow> tget (ls_leases (gd_leases db)) (rl_id l) = Some l"
      using keyed tget_set [of "ls_leases (gd_leases db)"] by (force simp: leases_keyed_def)
    then show ?thesis
      unfolding act t live_lease_expire_table by (auto simp: live_lease_def lease_is_effectively_active_def)
  qed
  then show ?thesis by auto
qed

lemma maintain_start:
  assumes run: "apply_maintain_retention db p c mr mb ob db = Inr (w, result)"
  shows "w = db \<or> (\<exists>clock w1 xs ret' lg'. expire_due_leases db clock db = (w1, xs) \<and>
      maintain_loop (gd_log db) (gd_active_bank db) p
        (map rl_range (filter (\<lambda>l. rg_partition (rl_range l) = p) (xs_active xs))) mr mb 0 0
        (ret_view db xs p, gd_log w1) = Inr (ret', lg') \<and>
      w = w1\<lparr>gd_log := lg'\<lparr>lg_retention := tput (lg_retention lg') p ret'\<rparr>,
             gd_leases := (gd_leases w1)\<lparr>ls_clock := Some clock\<rparr>\<rparr> \<and>
      result = RetentionStatusResult (retention_status_of p ret'))"
  using run unfolding apply_maintain_retention_def Let_def ret_view_def
  by (auto simp: bind_result_Inr simp del: maintain_loop.simps split: if_splits sum.splits prod.splits) blast

lemma maintain_keeps:
  assumes run: "apply_maintain_retention db p c mr mb ob db = Inr (w, result)" and ok: "retention_ok db"
  shows "retention_ok w"
  using maintain_start [OF run]
proof (elim disjE exE conjE)
  assume "w = db"
  with ok show ?thesis by simp
next
  fix clock w1 xs ret' lg'
  assume e: "expire_due_leases db clock db = (w1, xs)"
    and l: "maintain_loop (gd_log db) (gd_active_bank db) p
        (map rl_range (filter (\<lambda>l. rg_partition (rl_range l) = p) (xs_active xs))) mr mb 0 0
        (ret_view db xs p, gd_log w1) = Inr (ret', lg')"
    and w: "w = w1\<lparr>gd_log := lg'\<lparr>lg_retention := tput (lg_retention lg') p ret'\<rparr>,
             gd_leases := (gd_leases w1)\<lparr>ls_clock := Some clock\<rparr>\<rparr>"
  note eff = expire_due_leases_effect [OF e retention_okD(2) [OF ok]]
  have "lowered (gd_log db) (gd_log w1)" and view: "ret_view db xs p = retention_of (gd_log w1) p"
    using eff unfolding expiry_effect_def by blast+
  then have "records_of (gd_log w1) p off = records_of (gd_log db) p off" for off
    by (simp add: lowered_def records_of_def)
  from maintain_loop_reclaims [OF l this] have rec: "reclaims p
      (map rl_range (filter (\<lambda>l. rg_partition (rl_range l) = p) (xs_active xs)))
      (retention_of (gd_log w1) p, gd_log w1) (ret', lg')" unfolding view .
  show ?thesis
    by (rule retention_ok_reclaimed [OF expiry_keeps [OF eff ok] rec active_ranges [OF eff retention_okD(2) [OF ok]]])
      (simp_all add: w)
qed

end
