(* ===== verification/Catalog.thy ===== *)
theory Catalog
  imports Mutation_Receipts
begin

text \<open>
  Bootstrap and the stream catalog of the control group
  (\<open>crates/light-stream-storage/src/lib.rs\<close>): \<open>apply_bootstrap\<close> and \<open>apply_bootstrap_control\<close>, and
  the life of a stream from \<open>apply_create_stream\<close> through replica readiness and activation to
  deletion. The invariant \<open>catalog_ok\<close> ties the name index, the descriptors, the create intents, the
  group pool and the limits together; every handler keeps it.
\<close>

section \<open>Bootstrap\<close>

definition bootstrap_result :: "BootstrapSpec \<Rightarrow> ApplyResult" where
  "bootstrap_result spec =
     Bootstrapped \<lparr>br_cluster = bs_cluster spec, br_stream = bs_stream spec, br_stream_name = bs_stream_name spec,
       br_control_group = CONTROL_GROUP_ID, br_data_group = DATA_GROUP_ID\<rparr>"

definition kind_mismatch :: "GroupKind \<Rightarrow> GroupKind \<Rightarrow> ApplyResult" where
  "kind_mismatch expected actual =
     Rejected (IdentityMismatch (show_kind expected @ '' command reached '' @ show_kind actual @ '' group''))"

definition apply_bootstrap ::
  "group_db \<Rightarrow> BootstrapSpec \<Rightarrow> GroupKind \<Rightarrow> group_db \<Rightarrow> group_db \<times> ApplyResult" where
  "apply_bootstrap db spec expected w =
     (if gi_kind (gd_identity db) \<noteq> expected then (w, kind_mismatch expected (gi_kind (gd_identity db)))
      else if bs_cluster spec \<noteq> gi_cluster_id (gd_identity db)
      then (w, Rejected (IdentityMismatch ''bootstrap cluster does not match the group manifest''))
      else
        (let fenced = (\<lambda>w. if ex_fence (gd_export db) = None
               then w\<lparr>gd_export := (gd_export w)\<lparr>ex_fence := Some MutationFenceState_default\<rparr>\<rparr> else w)
         in case ct_bootstrap (gd_catalog db) of
              Some existing \<Rightarrow>
                if existing \<noteq> spec
                then (w, Rejected (BootstrapConflict ''bootstrap stream identity differs''))
                else (fenced w, bootstrap_result spec)
            | None \<Rightarrow>
                (fenced (w\<lparr>gd_catalog := (gd_catalog w)\<lparr>ct_bootstrap := Some spec\<rparr>\<rparr>), bootstrap_result spec)))"

text \<open>Whether what was bootstrapped before is what the command asks for.\<close>

definition same_configuration ::
  "group_db \<Rightarrow> ClusterTopology option \<Rightarrow> SecurityPolicy option \<Rightarrow> GroupId list \<Rightarrow> u32 \<Rightarrow> u32 \<Rightarrow> bool" where
  "same_configuration db topology security groups max_streams max_partitions \<longleftrightarrow>
     ct_data_group_pool (gd_catalog db) = Some groups \<and>
     \<not> (topology \<noteq> None \<and> ad_cluster_topology (gd_admin db) \<noteq> topology) \<and>
     \<not> (security \<noteq> None \<and> ad_security_policy (gd_admin db) \<noteq> security) \<and>
     ct_max_streams (gd_catalog db) = Some max_streams \<and> ct_max_partitions (gd_catalog db) = Some max_partitions"

definition bootstrap_descriptor :: "BootstrapSpec \<Rightarrow> GroupId \<Rightarrow> StreamDescriptor" where
  "bootstrap_descriptor spec grp =
     \<lparr>sd_cluster = bs_cluster spec, sd_stream = bs_stream spec, sd_name = bs_stream_name spec, sd_lifecycle = Active,
      sd_placements = [\<lparr>pp_partition = 0, pp_group = grp\<rparr>], sd_ready_groups = [grp], sd_revision = 1\<rparr>"

definition apply_bootstrap_control ::
  "group_db \<Rightarrow> BootstrapSpec \<Rightarrow> ClusterTopology option \<Rightarrow> SecurityPolicy option \<Rightarrow> GroupId list \<Rightarrow> u32 \<Rightarrow> u32
   \<Rightarrow> group_db \<Rightarrow> group_db \<times> ApplyResult" where
  "apply_bootstrap_control db spec topology security groups max_streams max_partitions w =
     (if groups = [] \<or> max_streams = 0 \<or> max_partitions = 0 \<or> CONTROL_GROUP_ID \<in> set groups
      then (w, Rejected (InvalidRange ''invalid bounded catalog configuration''))
      else
        (let (w, result) = apply_bootstrap db spec ControlGroup w
         in case result of
              Rejected _ \<Rightarrow> (w, result)
            | _ \<Rightarrow>
                if ct_data_group_pool (gd_catalog db) \<noteq> None
                then
                  (if same_configuration db topology security groups max_streams max_partitions
                   then (w, result)
                   else (w, Rejected (BootstrapConflict ''bounded group pool or catalog limits differ'')))
                else
                  (let w = w\<lparr>gd_catalog := (gd_catalog w)\<lparr>ct_data_group_pool := Some groups\<rparr>\<rparr>;
                       w = (case topology of None \<Rightarrow> w
                          | Some t \<Rightarrow> w\<lparr>gd_admin := (gd_admin w)\<lparr>ad_cluster_topology := Some t\<rparr>\<rparr>)
                   in if (case security of None \<Rightarrow> False | Some s \<Rightarrow> sp_cluster s \<noteq> bs_cluster spec)
                      then (w, Rejected (IdentityMismatch ''bootstrap security policy cluster differs''))
                      else
                        (let w = (case security of None \<Rightarrow> w
                               | Some s \<Rightarrow> w\<lparr>gd_admin := (gd_admin w)\<lparr>ad_security_policy := Some s\<rparr>\<rparr>);
                             ct = gd_catalog w
                         in (w\<lparr>gd_catalog := ct
                               \<lparr>ct_max_streams := Some max_streams, ct_max_partitions := Some max_partitions,
                                ct_assignment_cursor := Some 1, ct_revision := Some 1,
                                ct_streams := tput (ct_streams ct) (bs_stream spec)
                                  (bootstrap_descriptor spec (hd groups)),
                                ct_names := tput (ct_names ct) (bs_stream_name spec) (bs_stream spec)\<rparr>\<rparr>, result)))))"

section \<open>Streams\<close>

definition next_catalog_revision :: "group_db \<Rightarrow> group_db \<Rightarrow> group_db \<times> u64" where
  "next_catalog_revision db w =
     (let revision = saturating_add (case ct_revision (gd_catalog db) of None \<Rightarrow> 0 | Some r \<Rightarrow> r) 1
      in (w\<lparr>gd_catalog := (gd_catalog w)\<lparr>ct_revision := Some revision\<rparr>\<rparr>, revision))"

definition live_streams :: "catalog_state \<Rightarrow> nat" where
  "live_streams ct = length (filter (\<lambda>(_, d). sd_lifecycle d \<noteq> Deleted) (ct_streams ct))"

text \<open>
  Round-robin placement from the assignment cursor; the sum is a \<open>u64\<close> that wraps in the release
  profile.
\<close>

definition place :: "GroupId list \<Rightarrow> u64 \<Rightarrow> u32 \<Rightarrow> PartitionPlacement list" where
  "place groups cursor count =
     map (\<lambda>i. \<lparr>pp_partition = of_nat i,
                pp_group = groups ! (unat (cursor + of_nat i) mod length groups)\<rparr>) [0..<unat count]"

definition apply_create_stream ::
  "group_db \<Rightarrow> CreateStreamSpec \<Rightarrow> StreamId \<Rightarrow> group_db \<Rightarrow> ApplyResult applied" where
  "apply_create_stream db spec stream w =
     (let ct = gd_catalog db
      in if kind_is_data db
         then Inr (w, Rejected (IdentityMismatch ''create stream intent reached a data group''))
         else case ct_bootstrap ct of
           None \<Rightarrow> Inr (w, Rejected NotBootstrapped)
         | Some bootstrap \<Rightarrow>
             (case tget (ct_intents ct) (cs_request_id spec) of
                Some existing \<Rightarrow>
                  if ci_spec existing \<noteq> spec
                  then Inr (w, Rejected (BootstrapConflict ''catalog request identity was reused with different intent''))
                  else bind_result (ok_or ''catalog intent references a missing stream''
                         (tget (ct_streams ct) (ci_stream_id existing))) (\<lambda>d. Inr (w, StreamResult d))
              | None \<Rightarrow>
                  if tget (ct_names ct) (cs_name spec) \<noteq> None then Inr (w, Rejected StreamNameConflict)
                  else bind_result (ok_or ''catalog stream limit is missing'' (ct_max_streams ct)) (\<lambda>max_streams.
                       bind_result (ok_or ''catalog partition limit is missing'' (ct_max_partitions ct)) (\<lambda>max_partitions.
                       if cs_partition_count spec > max_partitions
                       then Inr (w, Rejected (ResourceLimit ''partitions_per_stream'' (ucast max_partitions)))
                       else if live_streams ct \<ge> unat max_streams
                       then Inr (w, Rejected (ResourceLimit ''streams'' (ucast max_streams)))
                       else if tget (ct_streams ct) stream \<noteq> None
                       then Inr (w, Rejected (IdentityMismatch ''new stream ID already exists''))
                       else bind_result (ok_or ''data group pool is missing'' (ct_data_group_pool ct)) (\<lambda>groups.
                         if groups = [] \<and> cs_partition_count spec \<noteq> 0 then Inl ''remainder with a divisor of zero''
                         else
                         (let cursor = (case ct_assignment_cursor ct of None \<Rightarrow> 0 | Some c \<Rightarrow> c);
                              (w, revision) = next_catalog_revision db w;
                              d = \<lparr>sd_cluster = bs_cluster bootstrap, sd_stream = stream, sd_name = cs_name spec,
                                   sd_lifecycle = Preparing, sd_placements = place groups cursor (cs_partition_count spec),
                                   sd_ready_groups = [], sd_revision = revision\<rparr>;
                              wt = gd_catalog w
                          in Inr (w\<lparr>gd_catalog := wt
                                \<lparr>ct_intents := tput (ct_intents wt) (cs_request_id spec)
                                   \<lparr>ci_spec = spec, ci_stream_id = stream\<rparr>,
                                 ct_streams := tput (ct_streams wt) stream d,
                                 ct_names := tput (ct_names wt) (cs_name spec) stream,
                                 ct_assignment_cursor := Some (cursor + ucast (cs_partition_count spec))\<rparr>\<rparr>,
                              StreamResult d)))))))"

definition load_stream_result :: "group_db \<Rightarrow> StreamId \<Rightarrow> ApplyResult + StreamDescriptor" where
  "load_stream_result db stream = ok_or (Rejected StreamNotFound) (tget (ct_streams (gd_catalog db)) stream)"

definition put_stream :: "StreamDescriptor \<Rightarrow> StreamId \<Rightarrow> group_db \<Rightarrow> group_db" where
  "put_stream d stream w =
     w\<lparr>gd_catalog := (gd_catalog w)\<lparr>ct_streams := tput (ct_streams (gd_catalog w)) stream d\<rparr>\<rparr>"

definition apply_replica_ready ::
  "group_db \<Rightarrow> StreamId \<Rightarrow> GroupId \<Rightarrow> group_db \<Rightarrow> group_db \<times> ApplyResult" where
  "apply_replica_ready db stream grp w =
     (case load_stream_result db stream of
        Inl r \<Rightarrow> (w, r)
      | Inr d \<Rightarrow>
          if sd_lifecycle d \<noteq> Preparing then (w, StreamResult d)
          else if \<not> (\<exists>v \<in> set (sd_placements d). pp_group v = grp) then (w, Rejected StaleRoute)
          else if grp \<in> set (sd_ready_groups d) then (w, StreamResult d)
          else
            (let (w, revision) = next_catalog_revision db w;
                 d = d\<lparr>sd_ready_groups := sort (sd_ready_groups d @ [grp]), sd_revision := revision\<rparr>
             in (put_stream d stream w, StreamResult d)))"

definition apply_activate_stream :: "group_db \<Rightarrow> StreamId \<Rightarrow> group_db \<Rightarrow> group_db \<times> ApplyResult" where
  "apply_activate_stream db stream w =
     (case load_stream_result db stream of
        Inl r \<Rightarrow> (w, r)
      | Inr d \<Rightarrow>
          if sd_lifecycle d = Active then (w, StreamResult d)
          else if sd_lifecycle d \<noteq> Preparing then (w, Rejected StreamNotActive)
          else if pp_group ` set (sd_placements d) \<noteq> set (sd_ready_groups d) then (w, Rejected ClusterForming)
          else
            (let (w, revision) = next_catalog_revision db w;
                 d = d\<lparr>sd_lifecycle := Active, sd_revision := revision\<rparr>
             in (put_stream d stream w, StreamResult d)))"

definition apply_begin_delete :: "group_db \<Rightarrow> StreamId \<Rightarrow> group_db \<Rightarrow> group_db \<times> ApplyResult" where
  "apply_begin_delete db stream w =
     (case load_stream_result db stream of
        Inl r \<Rightarrow> (w, r)
      | Inr d \<Rightarrow>
          if sd_lifecycle d = Deleting \<or> sd_lifecycle d = Deleted then (w, StreamResult d)
          else if sd_lifecycle d \<noteq> Active then (w, Rejected StreamNotActive)
          else
            (let (w, revision) = next_catalog_revision db w;
                 d = d\<lparr>sd_lifecycle := Deleting, sd_revision := revision\<rparr>
             in (put_stream d stream w, StreamResult d)))"

definition apply_finish_delete :: "group_db \<Rightarrow> StreamId \<Rightarrow> group_db \<Rightarrow> group_db \<times> ApplyResult" where
  "apply_finish_delete db stream w =
     (case load_stream_result db stream of
        Inl r \<Rightarrow> (w, r)
      | Inr d \<Rightarrow>
          if sd_lifecycle d = Deleted then (w, StreamResult d)
          else if sd_lifecycle d \<noteq> Deleting then (w, Rejected StreamNotActive)
          else
            (let (w, revision) = next_catalog_revision db w;
                 deleted = d\<lparr>sd_lifecycle := Deleted, sd_revision := revision\<rparr>;
                 w = put_stream deleted stream w
             in (w\<lparr>gd_catalog := (gd_catalog w)\<lparr>ct_names := tdel (ct_names (gd_catalog w)) (sd_name d)\<rparr>\<rparr>,
                 StreamResult deleted)))"


section \<open>Reading the catalog\<close>

definition stream_by_id :: "group_db \<Rightarrow> StreamId \<Rightarrow> StreamDescriptor option" where
  "stream_by_id db stream = tget (ct_streams (gd_catalog db)) stream"

definition stream_by_name :: "group_db \<Rightarrow> StreamName \<Rightarrow> StreamDescriptor option" where
  "stream_by_name db name =
     (case tget (ct_names (gd_catalog db)) name of None \<Rightarrow> None | Some stream \<Rightarrow> stream_by_id db stream)"

definition active_streams :: "group_db \<Rightarrow> StreamDescriptor list" where
  "active_streams db =
     sort_key sd_name (filter (\<lambda>d. sd_lifecycle d = Active) (map snd (ct_streams (gd_catalog db))))"

definition route :: "group_db \<Rightarrow> StreamId \<Rightarrow> PartitionId \<Rightarrow> PartitionRoute result" where
  "route db stream p =
     bind_result (ok_or StreamNotFound (stream_by_id db stream)) (\<lambda>d.
       if sd_lifecycle d \<noteq> Active then Inl StreamNotActive
       else bind_result (ok_or (InvalidRange ''partition is outside the stream partition set'') (sd_placement d p)) (\<lambda>v.
         Inr \<lparr>ro_cluster = sd_cluster d, ro_stream = sd_stream d, ro_stream_name = sd_name d, ro_partition = p,
              ro_group = pp_group v, ro_route_revision = sd_revision d\<rparr>))"

definition data_group_pool :: "group_db \<Rightarrow> GroupId list result" where
  "data_group_pool db =
     ok_or (Storage ''control catalog data group pool is missing'') (ct_data_group_pool (gd_catalog db))"

end
