(* ===== verification/Catalog_Invariant.thy ===== *)
theory Catalog_Invariant
  imports Catalog
begin

text \<open>
  The invariant of the catalog and the order in which it grows. \<open>catalog_ok\<close>: names and live streams
  are in one-to-one correspondence, every descriptor is filed under its identity, places partitions
  \<open>0, 1, ..\<close> on groups of the pool and, once it has left \<open>Preparing\<close>, has every one of them ready;
  intents refer to the stream they created; the number of live streams is within the limit.
  \<open>catalog_grows\<close>: a stream keeps its identity, name and placement for ever and its life only goes
  forward.
\<close>

section \<open>Definitions\<close>

definition revision_of :: "catalog_state \<Rightarrow> u64" where
  "revision_of ct = (case ct_revision ct of None \<Rightarrow> 0 | Some r \<Rightarrow> r)"

definition placed_groups :: "StreamDescriptor \<Rightarrow> GroupId set" where
  "placed_groups d = pp_group ` set (sd_placements d)"

definition stream_ok :: "catalog_state \<Rightarrow> StreamId \<Rightarrow> StreamDescriptor \<Rightarrow> bool" where
  "stream_ok ct sid d \<longleftrightarrow>
     sd_stream d = sid \<and> sd_revision d \<le> revision_of ct \<and>
     map pp_partition (sd_placements d) = map of_nat [0..<length (sd_placements d)] \<and>
     (\<exists>gs. ct_data_group_pool ct = Some gs \<and> placed_groups d \<subseteq> set gs) \<and>
     set (sd_ready_groups d) \<subseteq> placed_groups d \<and>
     (sd_lifecycle d \<noteq> Preparing \<longrightarrow> set (sd_ready_groups d) = placed_groups d)"

definition catalog_ok :: "catalog_state \<Rightarrow> bool" where
  "catalog_ok ct \<longleftrightarrow>
     tsorted (ct_streams ct) \<and>
     (\<forall>sid d. tget (ct_streams ct) sid = Some d \<longrightarrow> stream_ok ct sid d \<and>
        (sd_lifecycle d \<noteq> Deleted \<longrightarrow> tget (ct_names ct) (sd_name d) = Some sid)) \<and>
     (\<forall>n sid. tget (ct_names ct) n = Some sid \<longrightarrow>
        (\<exists>d. tget (ct_streams ct) sid = Some d \<and> sd_name d = n \<and> sd_lifecycle d \<noteq> Deleted)) \<and>
     (\<forall>r i. tget (ct_intents ct) r = Some i \<longrightarrow>
        (\<exists>d. tget (ct_streams ct) (ci_stream_id i) = Some d \<and> sd_name d = cs_name (ci_spec i) \<and>
           length (sd_placements d) = unat (cs_partition_count (ci_spec i)))) \<and>
     ct_data_group_pool ct \<noteq> Some [] \<and> (ct_data_group_pool ct = None \<longrightarrow> ct_max_streams ct = None) \<and>
     (case ct_max_streams ct of None \<Rightarrow> ct_streams ct = [] \<and> ct_revision ct = None | Some m \<Rightarrow> live_streams ct \<le> unat m)"

lemma catalog_okD:
  assumes "catalog_ok ct"
  shows "tsorted (ct_streams ct)"
    "tget (ct_streams ct) sid = Some d \<Longrightarrow> stream_ok ct sid d"
    "tget (ct_streams ct) sid = Some d \<Longrightarrow> sd_lifecycle d \<noteq> Deleted \<Longrightarrow> tget (ct_names ct) (sd_name d) = Some sid"
    "tget (ct_names ct) n = Some sid \<Longrightarrow>
      \<exists>d. tget (ct_streams ct) sid = Some d \<and> sd_name d = n \<and> sd_lifecycle d \<noteq> Deleted"
    "tget (ct_intents ct) r = Some i \<Longrightarrow> \<exists>d. tget (ct_streams ct) (ci_stream_id i) = Some d \<and>
      sd_name d = cs_name (ci_spec i) \<and> length (sd_placements d) = unat (cs_partition_count (ci_spec i))"
    "ct_data_group_pool ct \<noteq> Some []" "ct_data_group_pool ct = None \<Longrightarrow> ct_max_streams ct = None"
    "ct_max_streams ct = None \<Longrightarrow> ct_streams ct = [] \<and> ct_revision ct = None" "ct_max_streams ct = Some m \<Longrightarrow> live_streams ct \<le> unat m"
  using assms by (auto simp: catalog_ok_def)

fun life_rank :: "StreamLifecycle \<Rightarrow> nat" where
  "life_rank Preparing = 0"
| "life_rank Active = 1"
| "life_rank Deleting = 2"
| "life_rank Deleted = 3"

definition stream_follows :: "StreamDescriptor \<Rightarrow> StreamDescriptor \<Rightarrow> bool" where
  "stream_follows d e \<longleftrightarrow>
     sd_cluster e = sd_cluster d \<and> sd_stream e = sd_stream d \<and> sd_name e = sd_name d \<and>
     sd_placements e = sd_placements d \<and> set (sd_ready_groups d) \<subseteq> set (sd_ready_groups e) \<and>
     life_rank (sd_lifecycle d) \<le> life_rank (sd_lifecycle e) \<and> sd_revision d \<le> sd_revision e"

definition catalog_grows :: "catalog_state \<Rightarrow> catalog_state \<Rightarrow> bool" where
  "catalog_grows ct ct' \<longleftrightarrow>
     (\<forall>sid d. tget (ct_streams ct) sid = Some d \<longrightarrow>
        (\<exists>e. tget (ct_streams ct') sid = Some e \<and> stream_follows d e)) \<and>
     (\<forall>r i. tget (ct_intents ct) r = Some i \<longrightarrow> tget (ct_intents ct') r = Some i) \<and>
     revision_of ct \<le> revision_of ct'"

lemma stream_follows_refl [simp]: "stream_follows d d"
  by (simp add: stream_follows_def)

lemma stream_follows_trans: "stream_follows a b \<Longrightarrow> stream_follows b c \<Longrightarrow> stream_follows a c"
  by (auto simp: stream_follows_def)

lemma catalog_grows_refl [simp]: "catalog_grows ct ct"
  by (auto simp: catalog_grows_def)

lemma catalog_grows_trans:
  assumes "catalog_grows a b" "catalog_grows b c"
  shows "catalog_grows a c"
  unfolding catalog_grows_def
proof (intro conjI allI impI)
  fix sid d assume "tget (ct_streams a) sid = Some d"
  with assms(1) obtain e where e: "tget (ct_streams b) sid = Some e" "stream_follows d e"
    unfolding catalog_grows_def by blast
  with assms(2) obtain f where "tget (ct_streams c) sid = Some f" "stream_follows e f"
    unfolding catalog_grows_def by blast
  with e(2) show "\<exists>e. tget (ct_streams c) sid = Some e \<and> stream_follows d e"
    using stream_follows_trans by blast
qed (use assms in \<open>auto simp: catalog_grows_def\<close>)

section \<open>Counting live streams\<close>

lemma length_filter_sum: "length (filter P xs) = (\<Sum>x\<leftarrow>xs. if P x then 1 else 0)"
  by (induction xs) auto

lemma live_streams_tput:
  assumes "tsorted (ct_streams ct)"
  shows "live_streams (ct\<lparr>ct_streams := tput (ct_streams ct) sid d\<rparr>) +
      (case tget (ct_streams ct) sid of Some e \<Rightarrow> if sd_lifecycle e \<noteq> Deleted then 1 else 0 | None \<Rightarrow> 0) =
    live_streams ct + (if sd_lifecycle d \<noteq> Deleted then 1 else 0)"
  using tab.weight_put [OF assms, of "\<lambda>_ d. if sd_lifecycle d \<noteq> Deleted then 1 else 0" sid d]
  by (simp add: live_streams_def length_filter_sum case_prod_unfold split: option.splits)

lemma live_streams_cong: "ct_streams a = ct_streams b \<Longrightarrow> live_streams a = live_streams b"
  by (simp add: live_streams_def)

section \<open>Changing a stream\<close>

lemma revision_of_Some [simp]: "revision_of (ct\<lparr>ct_revision := Some r\<rparr>) = r"
  by (simp add: revision_of_def)

lemma stream_ok_mono:
  assumes "stream_ok ct sid d" "revision_of ct \<le> revision_of ct'" "ct_data_group_pool ct' = ct_data_group_pool ct"
  shows "stream_ok ct' sid d"
  using assms unfolding stream_ok_def by (auto intro: order_trans)

text \<open>A live stream goes one step on and stays live.\<close>

lemma catalog_update:
  assumes ok: "catalog_ok ct" and d: "tget (ct_streams ct) sid = Some d" and follows: "stream_follows d e"
    and live: "sd_lifecycle d \<noteq> Deleted" "sd_lifecycle e \<noteq> Deleted"
    and e: "sd_revision e = r" "revision_of ct \<le> r" "set (sd_ready_groups e) \<subseteq> placed_groups e"
      "sd_lifecycle e \<noteq> Preparing \<Longrightarrow> set (sd_ready_groups e) = placed_groups e"
    and ct': "ct' = ct\<lparr>ct_revision := Some r, ct_streams := tput (ct_streams ct) sid e\<rparr>"
  shows "catalog_ok ct' \<and> catalog_grows ct ct'"
proof
  note D = catalog_okD [OF ok]
  have same: "sd_stream e = sd_stream d" "sd_name e = sd_name d" "sd_placements e = sd_placements d"
    using follows by (simp_all add: stream_follows_def)
  have rev: "revision_of ct' = r" by (simp add: ct' revision_of_def)
  have eok: "stream_ok ct' sid e"
    using D(2) [OF d] e same rev by (auto simp: stream_ok_def placed_groups_def ct')
  have others: "tget (ct_streams ct') s = Some f \<Longrightarrow> stream_ok ct' s f" for s f
    using eok stream_ok_mono [OF D(2), of s f ct'] e(2) rev by (auto simp: ct' split: if_splits)
  have "live_streams ct' = live_streams ct"
    using live_streams_tput [OF D(1), of sid e] d live by (simp add: ct' live_streams_def)
  moreover have "ct_streams ct \<noteq> []" using d by auto
  ultimately show "catalog_ok ct'"
    unfolding catalog_ok_def
  proof (intro conjI)
    show "\<forall>sid d. tget (ct_streams ct') sid = Some d \<longrightarrow> stream_ok ct' sid d \<and>
        (sd_lifecycle d \<noteq> Deleted \<longrightarrow> tget (ct_names ct') (sd_name d) = Some sid)"
      using others D(3) d live same by (auto simp: ct' split: if_splits)
    show "\<forall>n s. tget (ct_names ct') n = Some s \<longrightarrow>
        (\<exists>f. tget (ct_streams ct') s = Some f \<and> sd_name f = n \<and> sd_lifecycle f \<noteq> Deleted)"
      using D(4) d live same by (fastforce simp: ct')
    show "\<forall>q i. tget (ct_intents ct') q = Some i \<longrightarrow> (\<exists>f. tget (ct_streams ct') (ci_stream_id i) = Some f \<and>
        sd_name f = cs_name (ci_spec i) \<and> length (sd_placements f) = unat (cs_partition_count (ci_spec i)))"
      using D(5) d same by (fastforce simp: ct')
  qed (use D(1,6-9) in \<open>auto simp: ct' split: option.splits\<close>)
  show "catalog_grows ct ct'"
    using d follows e(2) rev by (auto simp: catalog_grows_def ct')
qed


text \<open>A stream is deleted and its name is free again.\<close>

lemma catalog_delete:
  assumes ok: "catalog_ok ct" and d: "tget (ct_streams ct) sid = Some d" and life: "sd_lifecycle d = Deleting"
    and e: "e = d\<lparr>sd_lifecycle := Deleted, sd_revision := r\<rparr>" "revision_of ct \<le> r"
    and ct': "ct' = ct\<lparr>ct_revision := Some r, ct_streams := tput (ct_streams ct) sid e,
      ct_names := tdel (ct_names ct) (sd_name d)\<rparr>"
  shows "catalog_ok ct' \<and> catalog_grows ct ct'"
proof
  note D = catalog_okD [OF ok]
  have rev: "revision_of ct' = r" by (simp add: ct' revision_of_def)
  have eok: "stream_ok ct' sid e"
    using D(2) [OF d] e life rev by (auto simp: stream_ok_def placed_groups_def ct')
  have others: "tget (ct_streams ct') s = Some f \<Longrightarrow> stream_ok ct' s f" for s f
    using eok stream_ok_mono [OF D(2), of s f ct'] e(2) rev by (auto simp: ct' split: if_splits)
  have named: "tget (ct_names ct) (sd_name d) = Some sid" using D(3) [OF d] life by simp
  have "live_streams ct' \<le> live_streams ct"
    using live_streams_tput [OF D(1), of sid e] d life e(1) by (simp add: ct' live_streams_def)
  moreover have "ct_streams ct \<noteq> []" using d by auto
  ultimately show "catalog_ok ct'"
    unfolding catalog_ok_def
  proof (intro conjI)
    show "\<forall>s f. tget (ct_streams ct') s = Some f \<longrightarrow> stream_ok ct' s f \<and>
        (sd_lifecycle f \<noteq> Deleted \<longrightarrow> tget (ct_names ct') (sd_name f) = Some s)"
      using others D(3) named e(1) by (fastforce simp: ct' split: if_splits)
    show "\<forall>n s. tget (ct_names ct') n = Some s \<longrightarrow>
        (\<exists>f. tget (ct_streams ct') s = Some f \<and> sd_name f = n \<and> sd_lifecycle f \<noteq> Deleted)"
      using D(4) d by (fastforce simp: ct' split: if_splits)
    show "\<forall>q i. tget (ct_intents ct') q = Some i \<longrightarrow> (\<exists>f. tget (ct_streams ct') (ci_stream_id i) = Some f \<and>
        sd_name f = cs_name (ci_spec i) \<and> length (sd_placements f) = unat (cs_partition_count (ci_spec i)))"
      using D(5) d e(1) by (fastforce simp: ct')
  qed (use D(1,6-9) in \<open>auto simp: ct' split: option.splits\<close>)
  have "sd_revision d \<le> r" using D(2) [OF d] e(2) by (auto simp: stream_ok_def intro: order_trans)
  then show "catalog_grows ct ct'"
    using d life e rev by (auto simp: catalog_grows_def ct' stream_follows_def)
qed

text \<open>A stream joins under a new identity and a free name.\<close>

lemma catalog_add:
  assumes ok: "catalog_ok ct" and new: "tget (ct_streams ct) sid = None" "tget (ct_names ct) (sd_name d) = None"
    and d: "sd_stream d = sid" "sd_lifecycle d \<noteq> Deleted" "sd_revision d = r" "revision_of ct \<le> r"
      "stream_ok (ct\<lparr>ct_revision := Some r\<rparr>) sid d"
    and room: "ct_max_streams ct = Some m" "live_streams ct < unat m"
    and ints: "ints = ct_intents ct \<or> ints = tput (ct_intents ct) q i \<and> tget (ct_intents ct) q = None \<and> ci_stream_id i = sid \<and>
      sd_name d = cs_name (ci_spec i) \<and> length (sd_placements d) = unat (cs_partition_count (ci_spec i))"
    and ct': "ct' = ct\<lparr>ct_revision := Some r, ct_streams := tput (ct_streams ct) sid d,
      ct_names := tput (ct_names ct) (sd_name d) sid, ct_intents := ints, ct_assignment_cursor := c\<rparr>"
  shows "catalog_ok ct' \<and> catalog_grows ct ct'"
proof
  note D = catalog_okD [OF ok]
  have rev: "revision_of ct' = r" by (simp add: ct' revision_of_def)
  have "stream_ok ct' sid d" using d(5) by (simp add: stream_ok_def ct' revision_of_def)
  then have others: "tget (ct_streams ct') s = Some f \<Longrightarrow> stream_ok ct' s f" for s f
    using stream_ok_mono [OF D(2), of s f ct'] d(4) rev by (auto simp: ct' split: if_splits)
  have "live_streams ct' = Suc (live_streams ct)"
    using live_streams_tput [OF D(1), of sid d] new(1) d(2) by (simp add: ct' live_streams_def)
  then show "catalog_ok ct'"
    unfolding catalog_ok_def
  proof (intro conjI)
    show "\<forall>s f. tget (ct_streams ct') s = Some f \<longrightarrow> stream_ok ct' s f \<and>
        (sd_lifecycle f \<noteq> Deleted \<longrightarrow> tget (ct_names ct') (sd_name f) = Some s)"
      using others D(3) new(2) by (fastforce simp: ct' split: if_splits)
    show "\<forall>n s. tget (ct_names ct') n = Some s \<longrightarrow>
        (\<exists>f. tget (ct_streams ct') s = Some f \<and> sd_name f = n \<and> sd_lifecycle f \<noteq> Deleted)"
      using D(4) new(1) d(2) by (fastforce simp: ct' split: if_splits)
    show "\<forall>q i. tget (ct_intents ct') q = Some i \<longrightarrow> (\<exists>f. tget (ct_streams ct') (ci_stream_id i) = Some f \<and>
        sd_name f = cs_name (ci_spec i) \<and> length (sd_placements f) = unat (cs_partition_count (ci_spec i)))"
      using D(5) ints new(1) by (fastforce simp: ct' split: if_splits)
  qed (use D(1,6,7) room in \<open>auto simp: ct' split: option.splits\<close>)
  show "catalog_grows ct ct'"
    using new(1) ints d(4) rev by (auto simp: catalog_grows_def ct')
qed

lemma place_ok:
  "length (place gs c n) = unat n" "map pp_partition (place gs c n) = map of_nat [0..<unat n]"
  "gs \<noteq> [] \<Longrightarrow> pp_group ` set (place gs c n) \<subseteq> set gs"
  by (auto simp: place_def)

section \<open>The handlers\<close>

text \<open>A catalog command touches the catalog alone.\<close>

definition catalog_effect :: "group_db \<Rightarrow> group_db \<Rightarrow> bool" where
  "catalog_effect db w \<longleftrightarrow> w = db\<lparr>gd_catalog := gd_catalog w\<rparr> \<and>
     (catalog_ok (gd_catalog db) \<longrightarrow> catalog_ok (gd_catalog w) \<and> catalog_grows (gd_catalog db) (gd_catalog w))"

lemma catalog_effect_refl [simp]: "catalog_effect db db"
  by (simp add: catalog_effect_def)

lemma next_revision_up: "revision_of ct \<le> saturating_add (revision_of ct) 1"
  using unat_lt_width [of "revision_of ct"] by (simp add: word_le_nat_alt unat_saturating_add min_def)

lemma next_catalog_revision_eq:
  "next_catalog_revision db w =
    (w\<lparr>gd_catalog := (gd_catalog w)\<lparr>ct_revision := Some (saturating_add (revision_of (gd_catalog db)) 1)\<rparr>\<rparr>,
     saturating_add (revision_of (gd_catalog db)) 1)"
  by (simp add: next_catalog_revision_def revision_of_def Let_def)

lemma load_stream_Inr: "load_stream_result db sid = Inr d \<longleftrightarrow> tget (ct_streams (gd_catalog db)) sid = Some d"
  by (simp add: load_stream_result_def ok_or_def split: option.splits)

lemma load_stream_cases:
  obtains (missing) "load_stream_result db sid = Inl (Rejected StreamNotFound)"
  | (found) d where "load_stream_result db sid = Inr d" "tget (ct_streams (gd_catalog db)) sid = Some d"
  by (cases "tget (ct_streams (gd_catalog db)) sid") (auto simp: load_stream_result_def ok_or_def)

lemma update_effect:
  assumes "tget (ct_streams (gd_catalog db)) sid = Some d" "sd_lifecycle d \<noteq> Deleted" "sd_lifecycle e \<noteq> Deleted"
    and "e = d\<lparr>sd_ready_groups := ready, sd_lifecycle := life, sd_revision := saturating_add (revision_of (gd_catalog db)) 1\<rparr>"
    and "set (sd_ready_groups d) \<subseteq> set ready" "life_rank (sd_lifecycle d) \<le> life_rank life"
    and "stream_ok (gd_catalog db) sid d \<Longrightarrow>
      set ready \<subseteq> placed_groups d \<and> (life \<noteq> Preparing \<longrightarrow> set ready = placed_groups d)"
  shows "catalog_effect db (put_stream e sid (fst (next_catalog_revision db db)))"
proof -
  let ?ct = "gd_catalog db" and ?r = "saturating_add (revision_of (gd_catalog db)) 1"
  have "catalog_ok (?ct\<lparr>ct_revision := Some ?r, ct_streams := tput (ct_streams ?ct) sid e\<rparr>) \<and>
      catalog_grows ?ct (?ct\<lparr>ct_revision := Some ?r, ct_streams := tput (ct_streams ?ct) sid e\<rparr>)" if ok: "catalog_ok ?ct"
  proof -
    note dok = catalog_okD(2) [OF ok assms(1)]
    have "sd_revision d \<le> ?r" using dok next_revision_up [of ?ct] by (auto simp: stream_ok_def intro: order_trans)
    then have "stream_follows d e" using assms(4-6) by (simp add: stream_follows_def)
    then show ?thesis
      by (rule catalog_update [OF ok assms(1) _ assms(2,3)])
        (use assms(4) assms(7) [OF dok] in \<open>auto simp: placed_groups_def next_revision_up\<close>)
  qed
  then show ?thesis
    by (simp add: catalog_effect_def next_catalog_revision_eq put_stream_def)
qed

lemma replica_ready_effect: "catalog_effect db (fst (apply_replica_ready db sid grp db))"
proof (cases db sid rule: load_stream_cases)
  case missing
  then show ?thesis by (simp add: apply_replica_ready_def)
next
  case (found d)
  show ?thesis
  proof (cases "sd_lifecycle d = Preparing \<and> grp \<in> placed_groups d \<and> grp \<notin> set (sd_ready_groups d)")
    case True
    let ?e = "d\<lparr>sd_ready_groups := sort (sd_ready_groups d @ [grp]),
      sd_revision := saturating_add (revision_of (gd_catalog db)) 1\<rparr>"
    have "apply_replica_ready db sid grp db =
        (put_stream ?e sid (fst (next_catalog_revision db db)), StreamResult ?e)"
      using True found(1) by (auto simp: apply_replica_ready_def next_catalog_revision_eq placed_groups_def Let_def)
    moreover have "catalog_effect db (put_stream ?e sid (fst (next_catalog_revision db db)))"
      by (rule update_effect [OF found(2), where life = "sd_lifecycle d" and ready = "sort (sd_ready_groups d @ [grp])"]) (use True in \<open>auto simp: stream_ok_def\<close>)
    ultimately show ?thesis by simp
  next
    case False
    then show ?thesis using found(1) by (auto simp: apply_replica_ready_def placed_groups_def image_iff split: if_splits)
  qed
qed


lemma activate_effect: "catalog_effect db (fst (apply_activate_stream db sid db))"
proof (cases db sid rule: load_stream_cases)
  case missing
  then show ?thesis by (simp add: apply_activate_stream_def)
next
  case (found d)
  show ?thesis
  proof (cases "sd_lifecycle d = Preparing \<and> placed_groups d = set (sd_ready_groups d)")
    case True
    let ?e = "d\<lparr>sd_lifecycle := Active, sd_revision := saturating_add (revision_of (gd_catalog db)) 1\<rparr>"
    have "apply_activate_stream db sid db = (put_stream ?e sid (fst (next_catalog_revision db db)), StreamResult ?e)"
      using True found(1) by (auto simp: apply_activate_stream_def next_catalog_revision_eq placed_groups_def Let_def)
    moreover have "catalog_effect db (put_stream ?e sid (fst (next_catalog_revision db db)))"
      by (rule update_effect [OF found(2), where life = Active and ready = "sd_ready_groups d"]) (use True in auto)
    ultimately show ?thesis by simp
  next
    case False
    then show ?thesis using found(1) by (auto simp: apply_activate_stream_def placed_groups_def)
  qed
qed

lemma begin_delete_effect: "catalog_effect db (fst (apply_begin_delete db sid db))"
proof (cases db sid rule: load_stream_cases)
  case missing
  then show ?thesis by (simp add: apply_begin_delete_def)
next
  case (found d)
  show ?thesis
  proof (cases "sd_lifecycle d = Active")
    case True
    let ?e = "d\<lparr>sd_lifecycle := Deleting, sd_revision := saturating_add (revision_of (gd_catalog db)) 1\<rparr>"
    have "apply_begin_delete db sid db = (put_stream ?e sid (fst (next_catalog_revision db db)), StreamResult ?e)"
      using True found(1) by (auto simp: apply_begin_delete_def next_catalog_revision_eq Let_def)
    moreover have "catalog_effect db (put_stream ?e sid (fst (next_catalog_revision db db)))"
      by (rule update_effect [OF found(2), where life = Deleting and ready = "sd_ready_groups d"])
        (use True in \<open>auto simp: stream_ok_def\<close>)
    ultimately show ?thesis by simp
  next
    case False
    then show ?thesis using found(1) by (auto simp: apply_begin_delete_def)
  qed
qed

lemma finish_delete_effect: "catalog_effect db (fst (apply_finish_delete db sid db))"
proof (cases db sid rule: load_stream_cases)
  case missing
  then show ?thesis by (simp add: apply_finish_delete_def)
next
  case (found d)
  show ?thesis
  proof (cases "sd_lifecycle d = Deleting")
    case True
    let ?ct = "gd_catalog db" and ?r = "saturating_add (revision_of (gd_catalog db)) 1"
    let ?ct' = "?ct\<lparr>ct_revision := Some ?r, ct_streams := tput (ct_streams ?ct) sid
      (d\<lparr>sd_lifecycle := Deleted, sd_revision := ?r\<rparr>), ct_names := tdel (ct_names ?ct) (sd_name d)\<rparr>"
    have "fst (apply_finish_delete db sid db) = db\<lparr>gd_catalog := ?ct'\<rparr>"
      using True found(1) by (simp add: apply_finish_delete_def next_catalog_revision_eq Let_def put_stream_def)
    then show ?thesis
      using catalog_delete [OF _ found(2) True refl next_revision_up refl] by (simp add: catalog_effect_def)
  next
    case False
    then show ?thesis using found(1) by (auto simp: apply_finish_delete_def)
  qed
qed

lemma create_stream_cases:
  assumes "apply_create_stream db spec sid db = Inr (w, result)"
  obtains (unchanged) "w = db"
  | (created) groups m r d where "ct_data_group_pool (gd_catalog db) = Some groups" "ct_max_streams (gd_catalog db) = Some m"
      "\<not> unat m \<le> live_streams (gd_catalog db)" "tget (ct_streams (gd_catalog db)) sid = None"
      "tget (ct_names (gd_catalog db)) (cs_name spec) = None" "tget (ct_intents (gd_catalog db)) (cs_request_id spec) = None"
      "r = saturating_add (revision_of (gd_catalog db)) 1" "\<not> kind_is_data db"
      "d = \<lparr>sd_cluster = bs_cluster (the (ct_bootstrap (gd_catalog db))), sd_stream = sid, sd_name = cs_name spec,
         sd_lifecycle = Preparing, sd_placements = place groups
           (case ct_assignment_cursor (gd_catalog db) of None \<Rightarrow> 0 | Some c \<Rightarrow> c) (cs_partition_count spec),
         sd_ready_groups = [], sd_revision = r\<rparr>"
      "w = db\<lparr>gd_catalog := (gd_catalog db)\<lparr>ct_revision := Some r,
         ct_streams := tput (ct_streams (gd_catalog db)) sid d,
         ct_names := tput (ct_names (gd_catalog db)) (cs_name spec) sid,
         ct_intents := tput (ct_intents (gd_catalog db)) (cs_request_id spec) \<lparr>ci_spec = spec, ci_stream_id = sid\<rparr>,
         ct_assignment_cursor := Some ((case ct_assignment_cursor (gd_catalog db) of None \<Rightarrow> 0 | Some c \<Rightarrow> c) +
           ucast (cs_partition_count spec))\<rparr>\<rparr>" "result = StreamResult d"
proof -
  let ?ct = "gd_catalog db"
  show thesis
  proof (cases "kind_is_data db \<or> ct_bootstrap ?ct = None \<or> tget (ct_intents ?ct) (cs_request_id spec) \<noteq> None \<or>
      tget (ct_names ?ct) (cs_name spec) \<noteq> None")
    case True
    then have "w = db"
      using assms by (auto simp: apply_create_stream_def Let_def bind_result_Inr split: if_splits option.splits)
    then show thesis by (rule unchanged)
  next
    case False
    then obtain b where b: "ct_bootstrap ?ct = Some b" by auto
    from assms False b obtain m k where m: "ct_max_streams ?ct = Some m" "ct_max_partitions ?ct = Some k"
      by (auto simp: apply_create_stream_def Let_def bind_result_Inr ok_or_def split: option.splits)
    show thesis
    proof (cases "cs_partition_count spec > k \<or> unat m \<le> live_streams ?ct \<or> tget (ct_streams ?ct) sid \<noteq> None")
      case True
      with assms False b m have "w = db" by (auto simp: apply_create_stream_def Let_def split: if_splits)
      then show thesis by (rule unchanged)
    next
      case new: False
      from assms False b m new obtain groups where g: "ct_data_group_pool ?ct = Some groups"
        by (auto simp: apply_create_stream_def Let_def bind_result_Inr ok_or_def split: option.splits)
      with assms False b m new show thesis
        by (intro created [of groups m]) (auto simp: apply_create_stream_def Let_def next_catalog_revision_eq split: if_splits)
    qed
  qed
qed

lemma create_stream_effect:
  assumes "apply_create_stream db spec sid db = Inr (w, result)"
  shows "catalog_effect db w"
  using assms
proof (cases rule: create_stream_cases)
  case unchanged
  then show ?thesis by simp
next
  case (created groups m r d)
  have "catalog_ok (gd_catalog w) \<and> catalog_grows (gd_catalog db) (gd_catalog w)" if ok: "catalog_ok (gd_catalog db)"
  proof (rule catalog_add [OF ok created(4)])
    have "groups \<noteq> []" using catalog_okD(6) [OF ok] created(1) by auto
    then show "stream_ok (gd_catalog db\<lparr>ct_revision := Some r\<rparr>) sid d"
      using created(1) place_ok by (auto simp: created(9) stream_ok_def placed_groups_def)
    show "gd_catalog w = (gd_catalog db)\<lparr>ct_revision := Some r, ct_streams := tput (ct_streams (gd_catalog db)) sid d,
        ct_names := tput (ct_names (gd_catalog db)) (sd_name d) sid,
        ct_intents := tput (ct_intents (gd_catalog db)) (cs_request_id spec) \<lparr>ci_spec = spec, ci_stream_id = sid\<rparr>,
        ct_assignment_cursor := Some ((case ct_assignment_cursor (gd_catalog db) of None \<Rightarrow> 0 | Some c \<Rightarrow> c) +
           ucast (cs_partition_count spec))\<rparr>"
      by (simp add: created(9,10))
  qed (use created(2,3,5,6,7) in \<open>auto simp: created(9) place_ok next_revision_up\<close>)
  then show ?thesis by (simp add: catalog_effect_def created(10))
qed


text \<open>Bootstrap also sets the first topology and policy and stores the default fence.\<close>

definition bootstrap_effect :: "group_db \<Rightarrow> group_db \<Rightarrow> bool" where
  "bootstrap_effect db w \<longleftrightarrow>
     w = db\<lparr>gd_catalog := gd_catalog w, gd_admin := gd_admin w,
           gd_export := (gd_export db)\<lparr>ex_fence := ex_fence (gd_export w)\<rparr>\<rparr> \<and>
     mutation_fence_state w = mutation_fence_state db \<and>
     (catalog_ok (gd_catalog db) \<longrightarrow> catalog_ok (gd_catalog w) \<and> catalog_grows (gd_catalog db) (gd_catalog w))"

lemma catalog_ok_bootstrap [simp]: "catalog_ok (ct\<lparr>ct_bootstrap := b\<rparr>) = catalog_ok ct"
  by (simp add: catalog_ok_def stream_ok_def revision_of_def live_streams_def split: option.split)

lemma catalog_grows_bootstrap [simp]: "catalog_grows ct (ct'\<lparr>ct_bootstrap := b\<rparr>) = catalog_grows ct ct'"
  by (simp add: catalog_grows_def revision_of_def)

lemma apply_bootstrap_shape:
  assumes "apply_bootstrap db spec k db = (w, result)"
  shows "w = db\<lparr>gd_catalog := gd_catalog w, gd_export := gd_export w\<rparr>"
    "gd_catalog w = (gd_catalog db)\<lparr>ct_bootstrap := ct_bootstrap (gd_catalog w)\<rparr>"
    "gd_export w = (gd_export db)\<lparr>ex_fence := ex_fence (gd_export w)\<rparr>"
    "mutation_fence_state w = mutation_fence_state db"
    "\<forall>e. result \<noteq> Rejected e \<Longrightarrow> ct_bootstrap (gd_catalog w) = Some spec \<and> result = bootstrap_result spec"
  using assms
  by (simp_all add: apply_bootstrap_def Let_def kind_mismatch_def mutation_fence_state_def bootstrap_result_def
      split: if_splits option.splits, auto)

lemma bootstrap_data_effect:
  assumes "apply_bootstrap db spec k db = (w, result)"
  shows "bootstrap_effect db w"
proof -
  note s = apply_bootstrap_shape [OF assms]
  have admin: "gd_admin w = gd_admin db" by (subst s(1)) simp
  have "w = db\<lparr>gd_catalog := gd_catalog w, gd_admin := gd_admin w,
      gd_export := (gd_export db)\<lparr>ex_fence := ex_fence (gd_export w)\<rparr>\<rparr>"
    unfolding s(3) [symmetric] admin by (rule trans [OF s(1)]) simp
  moreover have "catalog_ok (gd_catalog w) \<and> catalog_grows (gd_catalog db) (gd_catalog w)" if "catalog_ok (gd_catalog db)"
    using that by (subst (1 2) s(2)) simp
  ultimately show ?thesis using s(4) by (simp add: bootstrap_effect_def)
qed

lemma catalog_empty:
  assumes "catalog_ok ct" "ct_data_group_pool ct = None"
  shows "ct_streams ct = []" "tget (ct_names ct) n = None" "tget (ct_intents ct) q = None" "ct_revision ct = None"
    "ct_max_streams ct = None"
proof -
  show m: "ct_max_streams ct = None" using catalog_okD(7) [OF assms] .
  then show s: "ct_streams ct = []" "ct_revision ct = None" using catalog_okD(8) [OF assms(1)] by auto
  show "tget (ct_names ct) n = None"
  proof (rule ccontr)
    assume "tget (ct_names ct) n \<noteq> None"
    then obtain sid where "tget (ct_names ct) n = Some sid" by auto
    from catalog_okD(4) [OF assms(1) this] s show False by simp
  qed
  show "tget (ct_intents ct) q = None"
  proof (rule ccontr)
    assume "tget (ct_intents ct) q \<noteq> None"
    then obtain i where "tget (ct_intents ct) q = Some i" by auto
    from catalog_okD(5) [OF assms(1) this] s show False by simp
  qed
qed

lemma catalog_first_stream:
  assumes ok: "catalog_ok ct" and pool: "ct_data_group_pool ct = None" and gs: "gs \<noteq> []" "0 < unat m"
    and ct': "ct' = ct\<lparr>ct_data_group_pool := Some gs, ct_max_streams := Some m, ct_max_partitions := k,
      ct_assignment_cursor := Some 1, ct_revision := Some 1,
      ct_streams := tput (ct_streams ct) (bs_stream spec) (bootstrap_descriptor spec (hd gs)),
      ct_names := tput (ct_names ct) (bs_stream_name spec) (bs_stream spec)\<rparr>"
  shows "catalog_ok ct' \<and> catalog_grows ct ct'"
proof -
  note e = catalog_empty [OF ok pool]
  let ?ct = "ct\<lparr>ct_data_group_pool := Some gs, ct_max_streams := Some m, ct_max_partitions := k\<rparr>"
  let ?d = "bootstrap_descriptor spec (hd gs)"
  have base: "catalog_ok ?ct" using e gs by (simp add: catalog_ok_def live_streams_def)
  have "catalog_ok ct' \<and> catalog_grows ?ct ct'"
  proof (rule catalog_add [OF base])
    show "stream_ok (?ct\<lparr>ct_revision := Some 1\<rparr>) (bs_stream spec) ?d"
      using gs by (simp add: stream_ok_def bootstrap_descriptor_def placed_groups_def)
    show "ct' = ?ct\<lparr>ct_revision := Some 1, ct_streams := tput (ct_streams ?ct) (bs_stream spec) ?d,
        ct_names := tput (ct_names ?ct) (sd_name ?d) (bs_stream spec), ct_intents := ct_intents ?ct,
        ct_assignment_cursor := Some 1\<rparr>"
      by (simp add: ct' bootstrap_descriptor_def)
  qed (use e gs in \<open>simp_all add: bootstrap_descriptor_def revision_of_def live_streams_def\<close>)
  then show ?thesis using e by (simp add: catalog_grows_def ct' revision_of_def)
qed


text \<open>
  The control bootstrap: nothing new, a rejection that leaves the pool behind, or the first stream.
\<close>

lemma bootstrap_control_cases:
  assumes "apply_bootstrap_control db spec t sec gs ms mp db = (w, result)"
  obtains (unchanged) "w = db"
  | (repeated) w1 r where "apply_bootstrap db spec ControlGroup db = (w1, r)" "w = w1"
  | (fresh) w1 r where "apply_bootstrap db spec ControlGroup db = (w1, r)" "\<forall>e. r \<noteq> Rejected e" "gs \<noteq> []" "ms \<noteq> 0"
      "ct_data_group_pool (gd_catalog db) = None"
      "w = w1\<lparr>gd_catalog := gd_catalog w, gd_admin := gd_admin w\<rparr>"
      "gd_catalog w = (gd_catalog w1)\<lparr>ct_data_group_pool := Some gs\<rparr> \<or>
       gd_catalog w = (gd_catalog w1)\<lparr>ct_data_group_pool := Some gs, ct_max_streams := Some ms,
         ct_max_partitions := Some mp, ct_assignment_cursor := Some 1, ct_revision := Some 1,
         ct_streams := tput (ct_streams (gd_catalog w1)) (bs_stream spec) (bootstrap_descriptor spec (hd gs)),
         ct_names := tput (ct_names (gd_catalog w1)) (bs_stream_name spec) (bs_stream spec)\<rparr>"
proof -
  obtain w1 r where b: "apply_bootstrap db spec ControlGroup db = (w1, r)" by fastforce
  show thesis
  proof (cases "gs = [] \<or> ms = 0 \<or> mp = 0 \<or> CONTROL_GROUP_ID \<in> set gs")
    case True
    with assms have "w = db" by (auto simp: apply_bootstrap_control_def)
    then show thesis by (rule unchanged)
  next
    case go: False
    show thesis
    proof (cases "(\<exists>e. r = Rejected e) \<or> ct_data_group_pool (gd_catalog db) \<noteq> None")
      case True
      with assms go b have "w = w1"
        by (cases r) (auto simp: apply_bootstrap_control_def Let_def split: if_splits)
      with b show thesis by (rule repeated)
    next
      case False
      then have r: "r = bootstrap_result spec" "\<forall>e. r \<noteq> Rejected e" "ct_data_group_pool (gd_catalog db) = None"
        using apply_bootstrap_shape(5) [OF b] by auto
      have "w = w1\<lparr>gd_catalog := gd_catalog w, gd_admin := gd_admin w\<rparr>"
        using assms go b r by (auto simp: apply_bootstrap_control_def Let_def bootstrap_result_def split: option.splits if_splits)
      moreover have "gd_catalog w = (gd_catalog w1)\<lparr>ct_data_group_pool := Some gs\<rparr> \<or>
         gd_catalog w = (gd_catalog w1)\<lparr>ct_data_group_pool := Some gs, ct_max_streams := Some ms,
         ct_max_partitions := Some mp, ct_assignment_cursor := Some 1, ct_revision := Some 1,
         ct_streams := tput (ct_streams (gd_catalog w1)) (bs_stream spec) (bootstrap_descriptor spec (hd gs)),
         ct_names := tput (ct_names (gd_catalog w1)) (bs_stream_name spec) (bs_stream spec)\<rparr>"
        using assms go b r by (auto simp: apply_bootstrap_control_def Let_def bootstrap_result_def split: option.splits if_splits)
      ultimately show thesis using fresh [OF b r(2)] go r(3) by blast
    qed
  qed
qed

lemma bootstrap_control_effect:
  assumes "apply_bootstrap_control db spec t sec gs ms mp db = (w, result)"
  shows "bootstrap_effect db w"
  using assms
proof (cases rule: bootstrap_control_cases)
  case unchanged
  then show ?thesis by (simp add: bootstrap_effect_def)
next
  case (repeated w1 r)
  then show ?thesis using bootstrap_data_effect by simp
next
  case (fresh w1 r)
  note s = apply_bootstrap_shape [OF fresh(1)]
  have ex: "gd_export w = gd_export w1" "gd_admin w1 = gd_admin db"
    by (subst fresh(6), simp, subst s(1), simp)
  have "w = db\<lparr>gd_catalog := gd_catalog w, gd_admin := gd_admin w,
      gd_export := (gd_export db)\<lparr>ex_fence := ex_fence (gd_export w)\<rparr>\<rparr>"
    unfolding ex(1) s(3) [symmetric] by (rule trans [OF fresh(6)], subst s(1)) simp
  moreover have "mutation_fence_state w = mutation_fence_state db"
    using s(4) ex(1) by (simp add: mutation_fence_state_def)
  moreover have "catalog_ok (gd_catalog w) \<and> catalog_grows (gd_catalog db) (gd_catalog w)" if ok: "catalog_ok (gd_catalog db)"
  proof -
    have ok1: "catalog_ok (gd_catalog w1)" "catalog_grows (gd_catalog db) (gd_catalog w1)"
      "ct_data_group_pool (gd_catalog w1) = None"
      using ok fresh(5) by (subst s(2), simp)+
    have "catalog_ok (gd_catalog w) \<and> catalog_grows (gd_catalog w1) (gd_catalog w)"
      using fresh(7)
    proof
      assume c: "gd_catalog w = (gd_catalog w1)\<lparr>ct_data_group_pool := Some gs\<rparr>"
      note e = catalog_empty [OF ok1(1,3)]
      show ?thesis unfolding c using e fresh(3) by (simp add: catalog_ok_def catalog_grows_def revision_of_def)
    next
      assume c: "gd_catalog w = (gd_catalog w1)\<lparr>ct_data_group_pool := Some gs, ct_max_streams := Some ms,
         ct_max_partitions := Some mp, ct_assignment_cursor := Some 1, ct_revision := Some 1,
         ct_streams := tput (ct_streams (gd_catalog w1)) (bs_stream spec) (bootstrap_descriptor spec (hd gs)),
         ct_names := tput (ct_names (gd_catalog w1)) (bs_stream_name spec) (bs_stream spec)\<rparr>"
      show ?thesis by (rule catalog_first_stream [OF ok1(1,3) fresh(3) _ c]) (use fresh(4) in \<open>simp add: unat_gt_0\<close>)
    qed
    with ok1(2) show ?thesis using catalog_grows_trans by blast
  qed
  ultimately show ?thesis by (simp add: bootstrap_effect_def)
qed

end
