(* ===== verification/Administration.thy ===== *)
theory Administration
  imports Mutation_Receipts
begin

text \<open>
  The administration handlers of the control group (\<open>crates/light-stream-storage/src/lib.rs\<close>): voter
  replacement and leader transfer from intent to completion or abort, the first topology and policy,
  policy mutations, the switch to secured transport and the operational probe. The lemmas show that
  at most one operation is active, that its stored states agree and that an ended one is final.
\<close>

section \<open>Operations\<close>

definition not_control :: "string \<Rightarrow> ApplyResult" where
  "not_control reason = Rejected (IdentityMismatch reason)"

definition transitional_topology ::
  "codec \<Rightarrow> group_db \<Rightarrow> ClusterTopology \<Rightarrow> AdministrationIntent \<Rightarrow> ClusterTopology option result" where
  "transitional_topology cd db topology intent =
     (case intent of
        ReplaceVoter _ expected rem add \<Rightarrow>
          bind_result (replacement_transition (cd_parse_uri cd) topology expected rem add) (\<lambda>t. Inr (Some t))
      | TransferLeader _ grp target \<Rightarrow>
          if target \<notin> tp_desired_voters topology
          then Inl (InvalidIdentity ''leader transfer target'' ''target is not a desired voter'')
          else if grp \<noteq> CONTROL_GROUP_ID \<and>
            grp \<notin> set (case ct_data_group_pool (gd_catalog db) of None \<Rightarrow> [] | Some gs \<Rightarrow> gs)
          then Inl (InvalidIdentity ''leader transfer group'' ''group is not in the bounded group pool'')
          else Inr None)"

definition apply_begin_administration ::
  "codec \<Rightarrow> group_db \<Rightarrow> AdministrationIntent \<Rightarrow> group_db \<Rightarrow> ApplyResult applied" where
  "apply_begin_administration cd db intent w =
     (let ad = gd_admin db
      in if kind_is_data db then Inr (w, not_control ''administration intent reached a data group'')
         else case tget (ad_requests ad) (ai_request intent) of
           Some existing \<Rightarrow>
             Inr (w, if ao_intent existing = intent then AdministrationResult existing else Rejected MutationConflict)
         | None \<Rightarrow>
             (case ex_active (gd_export db) of
                Some active \<Rightarrow>
                  Inr (w, Rejected (ExportInProgress (ei_export (es_intent (ae_spec active))) DefiniteNoCommit))
              | None \<Rightarrow>
                  if ad_active ad \<noteq> None
                  then Inr (w, Rejected (ResourceLimit ''active_administration_operations'' 1))
                  else bind_result (ok_or ''control topology is missing'' (ad_cluster_topology ad)) (\<lambda>topology.
                    (case transitional_topology cd db topology intent of
                       Inl e \<Rightarrow> Inr (w, Rejected e)
                     | Inr transition \<Rightarrow>
                         (let op = AdministrationOperation_pending intent; wa = gd_admin w;
                              wa = (case transition of None \<Rightarrow> wa | Some t \<Rightarrow> wa\<lparr>ad_cluster_topology := Some t\<rparr>)
                          in Inr (w\<lparr>gd_admin := wa\<lparr>ad_requests := tput (ad_requests wa) (ai_request intent) op,
                                                   ad_active := Some op\<rparr>\<rparr>, AdministrationResult op))))))"

definition request_unknown :: ApplyResult where
  "request_unknown = Rejected (InvalidIdentity ''administration request'' ''request was not found'')"

definition apply_complete_administration ::
  "codec \<Rightarrow> group_db \<Rightarrow> AdministrationRequestId \<Rightarrow> group_db \<Rightarrow> ApplyResult applied" where
  "apply_complete_administration cd db request w =
     (let ad = gd_admin db
      in if kind_is_data db then Inr (w, not_control ''administration completion reached a data group'')
         else case tget (ad_requests ad) request of
           None \<Rightarrow> Inr (w, request_unknown)
         | Some op \<Rightarrow>
             if ao_lifecycle op \<noteq> AdminPending then Inr (w, AdministrationResult op)
             else if ai_request (ao_intent op) \<noteq> request then Inr (w, Rejected MutationConflict)
             else case ad_active ad of
               None \<Rightarrow> Inr (w, Rejected MutationConflict)
             | Some active \<Rightarrow>
                 if ai_request (ao_intent active) \<noteq> request then Inr (w, Rejected MutationConflict)
                 else bind_result (ok_or ''control topology is missing'' (ad_cluster_topology ad)) (\<lambda>current.
                   (case (case ao_intent op of
                        ReplaceVoter _ expected rem add \<Rightarrow> replacement_complete (cd_parse_uri cd) current expected rem add
                      | TransferLeader _ _ _ \<Rightarrow> Inr current) of
                      Inl e \<Rightarrow> Inr (w, Rejected e)
                    | Inr topology \<Rightarrow>
                        (let completed = administration_completed op (tp_revision topology); wa = gd_admin w
                         in Inr (w\<lparr>gd_admin := wa\<lparr>ad_cluster_topology := Some topology,
                                    ad_requests := tput (ad_requests wa) request completed, ad_active := None\<rparr>\<rparr>,
                                 AdministrationResult completed)))))"

definition apply_abort_administration ::
  "codec \<Rightarrow> group_db \<Rightarrow> AdministrationRequestId \<Rightarrow> group_db \<Rightarrow> ApplyResult applied" where
  "apply_abort_administration cd db request w =
     (let ad = gd_admin db
      in if kind_is_data db then Inr (w, not_control ''administration abort reached a data group'')
         else case tget (ad_requests ad) request of
           None \<Rightarrow> Inr (w, request_unknown)
         | Some op \<Rightarrow>
             if ao_lifecycle op \<noteq> AdminPending then Inr (w, AdministrationResult op)
             else case ad_active ad of
               None \<Rightarrow> Inr (w, Rejected MutationConflict)
             | Some active \<Rightarrow>
                 if ai_request (ao_intent active) \<noteq> request then Inr (w, Rejected MutationConflict)
                 else bind_result (ok_or ''control topology is missing'' (ad_cluster_topology ad)) (\<lambda>current.
                   (let finish = (\<lambda>w revision.
                          (let aborted = administration_aborted op revision; wa = gd_admin w
                           in Inr (w\<lparr>gd_admin := wa\<lparr>ad_requests := tput (ad_requests wa) request aborted,
                                      ad_active := Some aborted\<rparr>\<rparr>, AdministrationResult aborted)))
                    in case ao_intent op of
                         ReplaceVoter _ expected rem add \<Rightarrow>
                           (case replacement_abort (cd_parse_uri cd) current expected rem add of
                              Inl e \<Rightarrow> Inr (w, Rejected e)
                            | Inr t \<Rightarrow>
                                finish (w\<lparr>gd_admin := (gd_admin w)\<lparr>ad_cluster_topology := Some t\<rparr>\<rparr>) (tp_revision t))
                       | TransferLeader _ _ _ \<Rightarrow> finish w (tp_revision current))))"

definition apply_finish_administration_abort ::
  "group_db \<Rightarrow> AdministrationRequestId \<Rightarrow> group_db \<Rightarrow> group_db \<times> ApplyResult" where
  "apply_finish_administration_abort db request w =
     (case tget (ad_requests (gd_admin db)) request of
        None \<Rightarrow> (w, request_unknown)
      | Some op \<Rightarrow>
          (case ao_lifecycle op of
             AdminAborted _ \<Rightarrow>
               (case ad_active (gd_admin db) of
                  None \<Rightarrow> (w, AdministrationResult op)
                | Some active \<Rightarrow>
                    if ai_request (ao_intent active) \<noteq> request then (w, Rejected MutationConflict)
                    else (w\<lparr>gd_admin := (gd_admin w)\<lparr>ad_active := None\<rparr>\<rparr>, AdministrationResult op))
           | _ \<Rightarrow> (w, Rejected MutationConflict)))"

section \<open>Topology and policy\<close>

definition apply_initialize_cluster_topology ::
  "group_db \<Rightarrow> ClusterTopology \<Rightarrow> group_db \<Rightarrow> group_db \<times> ApplyResult" where
  "apply_initialize_cluster_topology db topology w =
     (if kind_is_data db then (w, not_control ''cluster topology initialization reached a data group'')
      else case ad_cluster_topology (gd_admin db) of
        Some existing \<Rightarrow>
          (w, if existing = topology then Noop
              else Rejected (IdentityMismatch ''cluster topology conflicts with existing control state''))
      | None \<Rightarrow> (w\<lparr>gd_admin := (gd_admin w)\<lparr>ad_cluster_topology := Some topology\<rparr>\<rparr>, Noop))"

definition apply_initialize_security_policy ::
  "group_db \<Rightarrow> SecurityPolicy \<Rightarrow> group_db \<Rightarrow> group_db \<times> ApplyResult" where
  "apply_initialize_security_policy db policy w =
     (if kind_is_data db then (w, not_control ''security policy initialization reached a data group'')
      else if sp_cluster policy \<noteq> gi_cluster_id (gd_identity db)
      then (w, Rejected (IdentityMismatch ''security policy cluster does not match the control group''))
      else case ad_security_policy (gd_admin db) of
        Some existing \<Rightarrow>
          (w, if existing = policy then SecurityPolicyResult existing else Rejected SecurityPolicyConflict)
      | None \<Rightarrow>
          (w\<lparr>gd_admin := (gd_admin w)\<lparr>ad_security_policy := Some policy\<rparr>\<rparr>, SecurityPolicyResult policy))"

definition apply_security_mutation ::
  "codec \<Rightarrow> group_db \<Rightarrow> SecurityMutation \<Rightarrow> group_db \<Rightarrow> group_db \<times> ApplyResult" where
  "apply_security_mutation cd db mutation w =
     (if kind_is_data db then (w, not_control ''security policy mutation reached a data group'')
      else
        (let fp = mutation_fingerprint cd (cd_json_security cd mutation)
         in case prior_mutation_result cd db (sm_request mutation) fp of
              Some result \<Rightarrow> (w, result)
            | None \<Rightarrow>
                (case ad_security_policy (gd_admin db) of
                   None \<Rightarrow> (w, Rejected SecurityPolicyConflict)
                 | Some policy \<Rightarrow>
                     (let (w, result) = (case SecurityPolicy_apply policy mutation of
                            Inr p \<Rightarrow> (w\<lparr>gd_admin := (gd_admin w)\<lparr>ad_security_policy := Some p\<rparr>\<rparr>, SecurityPolicyResult p)
                          | Inl e \<Rightarrow> (w, Rejected e))
                      in (store_mutation_result cd db (sm_request mutation) fp result w, result)))))"

text \<open>\<open>starts_with("https://")\<close>\<close>

definition is_https :: "utf8 \<Rightarrow> bool" where
  "is_https uri \<longleftrightarrow> take 8 uri = ascii ''https://''"

definition secured_transport_valid ::
  "group_db \<Rightarrow> ClusterTopology \<Rightarrow> ClusterTopology \<Rightarrow> SecurityPolicy \<Rightarrow> bool" where
  "secured_transport_valid db current topology policy \<longleftrightarrow>
     \<not> (tp_revision topology \<noteq> saturating_add (tp_revision current) 1 \<or>
        tp_desired_voters topology \<noteq> tp_desired_voters current \<or>
        fst ` set (tp_authorized_nodes topology) \<noteq> fst ` set (tp_authorized_nodes current) \<or>
        (\<exists>(_, node) \<in> set (tp_authorized_nodes topology).
           \<not> is_https (nd_public_uri node) \<or> \<not> is_https (nd_peer_uri node)) \<or>
        sp_cluster policy \<noteq> gi_cluster_id (gd_identity db) \<or>
        (\<exists>(node, _) \<in> set (tp_authorized_nodes topology). \<not> has_active_peer policy node))"

definition apply_secured_transport ::
  "codec \<Rightarrow> group_db \<Rightarrow> MutationRequestId \<Rightarrow> ClusterTopology \<Rightarrow> SecurityPolicy \<Rightarrow> group_db \<Rightarrow> ApplyResult applied"
where
  "apply_secured_transport cd db request topology policy w =
     (if kind_is_data db then Inr (w, not_control ''secured transport activation reached a data group'')
      else
        (let fp = mutation_fingerprint cd (cd_json_transport cd request topology policy)
         in case prior_mutation_result cd db request fp of
              Some result \<Rightarrow> Inr (w, result)
            | None \<Rightarrow>
                bind_result (ok_or ''control topology is missing'' (ad_cluster_topology (gd_admin db))) (\<lambda>current.
                (case ad_security_policy (gd_admin db) of
                   Some existing \<Rightarrow>
                     Inr (w, if existing = policy \<and> current = topology then SecurityPolicyResult existing
                             else Rejected SecurityPolicyConflict)
                 | None \<Rightarrow>
                     if \<not> secured_transport_valid db current topology policy
                     then Inr (w, Rejected SecurityPolicyConflict)
                     else
                       (let w = w\<lparr>gd_admin := (gd_admin w)\<lparr>ad_cluster_topology := Some topology,
                                   ad_security_policy := Some policy\<rparr>\<rparr>;
                            result = SecurityPolicyResult policy
                        in Inr (store_mutation_result cd db request fp result w, result))))))"

definition apply_operational_probe ::
  "group_db \<Rightarrow> GroupLogId \<Rightarrow> GroupId \<Rightarrow> group_db \<Rightarrow> ApplyResult applied" where
  "apply_operational_probe db l grp w =
     (if grp \<noteq> gi_group_id (gd_identity db)
      then Inr (w, Rejected (IdentityMismatch ''operational probe reached another group''))
      else if li_node l = 0 then Inl ''invalid node ID: zero is reserved''
      else
        (let op1 = \<lparr>op_group = grp, op_leader = li_node l, op_term = li_term l, op_log_index = li_index l\<rparr>
         in Inr (w\<lparr>gd_admin := (gd_admin w)\<lparr>ad_operational_proof := Some op1\<rparr>\<rparr>, OperationalProofResult op1)))"

end
