(* ===== verification/Export_Apply.thy ===== *)
theory Export_Apply
  imports Mutation_Receipts
begin

text \<open>
  The export commands of a group (\<open>crates/light-stream-storage/src/lib.rs\<close>): the control group runs the
  active export of theory \<open>Export_Protocol\<close> and keeps its receipts, every data group acquires and
  releases its mutation fence, and a release hands the reclaim hints left under the fence back to the
  reclaim cursors.
\<close>

datatype ExportCommand =
    ExportBegin ExportIntent ExportDeadline
  | AcquireFence ExportFenceToken
  | RecordFence ExportFenceToken ExportFenceObservation
  | BeginMaterialization ExportFenceToken
  | PublishArtifact ExportFenceToken ArtifactIdentity QuiescentCut
  | RequestCompletion MutationRequestId ExportId ArtifactIdentity
  | RequestAbort MutationRequestId ExportAbortReason ExportDeadline
  | ReleaseFence ExportFenceToken
  | RecordRelease ExportFenceToken ExportFenceObservation
  | ExportFinish ExportFenceToken

section \<open>Shared steps\<close>

definition export_terminal :: "ExportReceipt \<Rightarrow> ApplyResult" where
  "export_terminal receipt = ExportResult (ExportStatusResult (StatusTerminal receipt))"

definition export_active_status :: "ActiveExport \<Rightarrow> ApplyResult" where
  "export_active_status active = ExportResult (ExportStatusResult (ExportStatus_active active))"

definition group_cut :: "group_db \<Rightarrow> GroupLogId \<Rightarrow> GroupCut io" where
  "group_cut db l =
     (if li_node l = 0 then Inl ''invalid node ID: zero is reserved''
      else Inr \<lparr>gc_group = gi_group_id (gd_identity db), gc_term = li_term l, gc_leader = li_node l,
                gc_applied_index = li_index l\<rparr>)"

definition export_request_expired :: "codec \<Rightarrow> group_db \<Rightarrow> MutationRequestId \<Rightarrow> bool" where
  "export_request_expired cd db request \<longleftrightarrow>
     (case tget (ex_sessions (gd_export db)) (export_session_key cd request) of
        Some (Some highest) \<Rightarrow> mr_sequence request \<le> highest
      | _ \<Rightarrow> False)"

definition control_active_export :: "group_db \<Rightarrow> ActiveExport option" where
  "control_active_export db = (if kind_is_data db then None else ex_active (gd_export db))"

definition export_receipt_result ::
  "codec \<Rightarrow> group_db \<Rightarrow> MutationRequestId \<Rightarrow> ExportId option \<Rightarrow> ExportRequestDigest option \<Rightarrow> ApplyResult" where
  "export_receipt_result cd db request export digest =
     (case tget (ex_receipts (gd_export db)) (export_receipt_key cd request) of
        None \<Rightarrow>
          Rejected (if export_request_expired cd db request then MutationReceiptExpired else ExportConflict)
      | Some receipt \<Rightarrow>
          if (case export of None \<Rightarrow> False | Some v \<Rightarrow> v \<noteq> xr_export receipt) \<or>
             (case digest of None \<Rightarrow> False | Some v \<Rightarrow> v \<noteq> xr_request_digest receipt)
          then Rejected ExportConflict
          else export_terminal receipt)"

definition export_receipt_for_token :: "group_db \<Rightarrow> ExportFenceToken \<Rightarrow> ApplyResult" where
  "export_receipt_for_token db token =
     (case find (\<lambda>receipt. xr_export receipt = ft_export token \<and> xr_epoch receipt = ft_epoch token \<and>
             xr_request_digest receipt = ft_request_digest token) (map snd (ex_receipts (gd_export db))) of
        Some receipt \<Rightarrow> export_terminal receipt
      | None \<Rightarrow> Rejected ExportConflict)"

definition store_active_export ::
  "ActiveExport result \<Rightarrow> group_db \<Rightarrow> group_db \<times> ApplyResult" where
  "store_active_export active w =
     (case active of
        Inl e \<Rightarrow> (w, Rejected e)
      | Inr a \<Rightarrow> (w\<lparr>gd_export := (gd_export w)\<lparr>ex_active := Some a\<rparr>\<rparr>, export_active_status a))"

definition update_active_export ::
  "group_db \<Rightarrow> ExportFenceToken \<Rightarrow> (ActiveExport \<Rightarrow> ActiveExport result) \<Rightarrow> group_db \<Rightarrow> group_db \<times> ApplyResult" where
  "update_active_export db token transition w =
     (case control_active_export db of
        None \<Rightarrow> (w, export_receipt_for_token db token)
      | Some active \<Rightarrow>
          if es_token (ae_spec active) \<noteq> token then (w, Rejected ExportConflict)
          else store_active_export (transition active) w)"

definition put_fence :: "MutationFenceState \<Rightarrow> group_db \<Rightarrow> group_db" where
  "put_fence f w = w\<lparr>gd_export := (gd_export w)\<lparr>ex_fence := Some f\<rparr>\<rparr>"

section \<open>Commands\<close>

text \<open>The loop over the selected streams.\<close>

fun check_selection :: "group_db \<Rightarrow> ClusterId \<Rightarrow> StreamId list \<Rightarrow> unit result" where
  "check_selection db cluster [] = Inr ()"
| "check_selection db cluster (s # ss) =
     (case tget (ct_streams (gd_catalog db)) s of
        None \<Rightarrow> Inl StreamNotFound
      | Some d \<Rightarrow>
          if sd_cluster d \<noteq> cluster
          then Inl (IdentityMismatch ''selected export stream belongs to another cluster'')
          else if sd_lifecycle d \<noteq> Active then Inl StreamNotActive
          else check_selection db cluster ss)"

definition start_export ::
  "group_db \<Rightarrow> GroupLogId \<Rightarrow> ExportIntent \<Rightarrow> ExportDeadline \<Rightarrow> group_db \<Rightarrow> ApplyResult applied" where
  "start_export db l intent deadline w =
     bind_result (ok_or ''control data-group pool is missing'' (ct_data_group_pool (gd_catalog db))) (\<lambda>groups.
     bind_result (ok_or ''export epoch overflow''
       (checked_add (case ex_epoch (gd_export db) of None \<Rightarrow> 0 | Some e \<Rightarrow> e) 1)) (\<lambda>next_epoch.
     bind_result (case ExportEpoch_new next_epoch of Inl _ \<Rightarrow> Inl ''export epoch is zero'' | Inr e \<Rightarrow> Inr e) (\<lambda>epoch.
     (case ExportSpec_try_new intent epoch groups deadline of
        Inl e \<Rightarrow> Inr (w, Rejected e)
      | Inr spec \<Rightarrow>
          bind_result (group_cut db l) (\<lambda>control_cut.
          (case fence_acquire (mutation_fence_state db) (es_token spec) control_cut of
             Inl e \<Rightarrow> Inr (w, Rejected e)
           | Inr (fence, _) \<Rightarrow>
               (let active = ActiveExport_preparing spec control_cut;
                    w = put_fence fence (w\<lparr>gd_export := (gd_export w)\<lparr>ex_epoch := Some next_epoch\<rparr>\<rparr>)
                in Inr (w\<lparr>gd_export := (gd_export w)\<lparr>ex_active := Some active\<rparr>\<rparr>, export_active_status active))))))))"

definition apply_begin_export ::
  "codec \<Rightarrow> group_db \<Rightarrow> GroupLogId \<Rightarrow> ExportIntent \<Rightarrow> ExportDeadline \<Rightarrow> group_db \<Rightarrow> ApplyResult applied" where
  "apply_begin_export cd db l intent deadline w =
     (if kind_is_data db then Inr (w, Rejected (IdentityMismatch ''export begin reached a data group''))
      else if ei_cluster intent \<noteq> gi_cluster_id (gd_identity db)
      then Inr (w, Rejected (IdentityMismatch ''export cluster does not match the control group''))
      else case tget (ex_receipts (gd_export db)) (export_receipt_key cd (ei_request intent)) of
        Some receipt \<Rightarrow>
          Inr (w, if xr_request_digest receipt = ei_request_digest intent \<and>
                     (case xr_deadline receipt of None \<Rightarrow> True | Some stored \<Rightarrow> stored = deadline)
                  then export_terminal receipt else Rejected ExportConflict)
      | None \<Rightarrow>
          (case ex_active (gd_export db) of
             Some active \<Rightarrow>
               Inr (w, if ei_request (es_intent (ae_spec active)) = ei_request intent
                       then (if ei_request_digest (es_intent (ae_spec active)) = ei_request_digest intent \<and>
                                es_deadline (ae_spec active) = deadline
                             then export_active_status active else Rejected ExportConflict)
                       else Rejected (ResourceLimit ''active_exports'' 1))
           | None \<Rightarrow>
               if export_request_expired cd db (ei_request intent) then Inr (w, Rejected MutationReceiptExpired)
               else if ad_active (gd_admin db) \<noteq> None
               then Inr (w, Rejected (ResourceLimit ''active_administration_operations'' 1))
               else (case check_selection db (ei_cluster intent) (ei_selection intent) of
                   Inl e \<Rightarrow> Inr (w, Rejected e)
                 | Inr _ \<Rightarrow> start_export db l intent deadline w)))"

definition apply_acquire_export_fence ::
  "group_db \<Rightarrow> GroupLogId \<Rightarrow> ExportFenceToken \<Rightarrow> group_db \<Rightarrow> ApplyResult applied" where
  "apply_acquire_export_fence db l token w =
     (if \<not> kind_is_data db then Inr (w, Rejected (IdentityMismatch ''export data fence reached the control group''))
      else bind_result (group_cut db l) (\<lambda>ct.
        (case fence_acquire (mutation_fence_state db) token ct of
           Inl e \<Rightarrow> Inr (w, Rejected e)
         | Inr (fence, observation) \<Rightarrow>
             Inr (put_fence fence w, ExportResult (ExportFenceResult observation)))))"

definition ended_as :: "ExportReceiptOutcome \<Rightarrow> ApplyResult \<Rightarrow> ApplyResult" where
  "ended_as outcome result =
     (case result of
        ExportResult (ExportStatusResult (StatusTerminal receipt)) \<Rightarrow>
          if xr_outcome receipt = outcome then export_terminal receipt else Rejected ExportConflict
      | other \<Rightarrow> other)"

definition apply_request_export_completion ::
  "codec \<Rightarrow> group_db \<Rightarrow> MutationRequestId \<Rightarrow> ExportId \<Rightarrow> ArtifactIdentity \<Rightarrow> group_db \<Rightarrow> group_db \<times> ApplyResult" where
  "apply_request_export_completion cd db request export artifact w =
     (case control_active_export db of
        None \<Rightarrow> (w, ended_as (Completed artifact) (export_receipt_result cd db request (Some export) None))
      | Some active \<Rightarrow>
          if ei_request (es_intent (ae_spec active)) \<noteq> request \<or> ei_export (es_intent (ae_spec active)) \<noteq> export
          then (w, Rejected ExportConflict)
          else store_active_export (request_completion active artifact) w)"

definition apply_request_export_abort ::
  "codec \<Rightarrow> group_db \<Rightarrow> MutationRequestId \<Rightarrow> ExportAbortReason \<Rightarrow> ExportDeadline \<Rightarrow> group_db \<Rightarrow> group_db \<times> ApplyResult"
where
  "apply_request_export_abort cd db request reason observed w =
     (case control_active_export db of
        None \<Rightarrow> (w, ended_as (Aborted reason) (export_receipt_result cd db request None None))
      | Some active \<Rightarrow>
          if ei_request (es_intent (ae_spec active)) \<noteq> request then (w, Rejected ExportConflict)
          else if reason = DeadlineExceeded \<and> ed_lower_bound observed < ed_upper_bound (es_deadline (ae_spec active))
          then (w, Rejected (InvalidRange ''export deadline has not definitely elapsed''))
          else store_active_export (request_abort active reason) w)"

definition resume_deferred_reclaim :: "group_db \<Rightarrow> group_db \<Rightarrow> group_db" where
  "resume_deferred_reclaim db w =
     w\<lparr>gd_log := fold (\<lambda>(p, hinted) lg.
         (let ret = retention_of (gd_log db) p
          in lg\<lparr>lg_retention := tput (lg_retention lg) p (ret\<lparr>pr_reclaim_cursor := min (pr_reclaim_cursor ret) hinted\<rparr>),
                lg_reclaim_hint := tdel (lg_reclaim_hint lg) p\<rparr>))
       (lg_reclaim_hint (gd_log db)) (gd_log w)\<rparr>"

definition apply_release_export_fence ::
  "group_db \<Rightarrow> ExportFenceToken \<Rightarrow> group_db \<Rightarrow> group_db \<times> ApplyResult" where
  "apply_release_export_fence db token w =
     (if \<not> kind_is_data db
      then (w, Rejected (IdentityMismatch ''export data-fence release reached the control group''))
      else case fence_release_for_group (mutation_fence_state db) token (gi_group_id (gd_identity db)) of
        Inl e \<Rightarrow> (w, Rejected e)
      | Inr (fence, observation) \<Rightarrow>
          (resume_deferred_reclaim db (put_fence fence w), ExportResult (ExportFenceResult observation)))"

text \<open>The receipts other than the new one leave in epoch order until a window of them is left.\<close>

definition evict_export_receipts :: "codec \<Rightarrow> group_db \<Rightarrow> MutationRequestId \<Rightarrow> group_db \<Rightarrow> group_db" where
  "evict_export_receipts cd db inserted w =
     (let key = export_receipt_key cd inserted;
          receipts = sort_key (\<lambda>(_, receipt). xr_epoch receipt)
            (filter (\<lambda>(k, _). k \<noteq> key) (ex_receipts (gd_export db)));
          excess = (length receipts + 1) - gd_receipt_window db
      in w\<lparr>gd_export := (gd_export w)\<lparr>ex_receipts :=
             fold (\<lambda>(k, _) t. tdel t k) (take excess receipts) (ex_receipts (gd_export w))\<rparr>\<rparr>)"

definition apply_finish_export ::
  "codec \<Rightarrow> group_db \<Rightarrow> ExportFenceToken \<Rightarrow> group_db \<Rightarrow> group_db \<times> ApplyResult" where
  "apply_finish_export cd db token w =
     (case control_active_export db of
        None \<Rightarrow> (w, export_receipt_for_token db token)
      | Some active \<Rightarrow>
          if es_token (ae_spec active) \<noteq> token then (w, Rejected ExportConflict)
          else case export_receipt_of active of
            Inl e \<Rightarrow> (w, Rejected e)
          | Inr receipt \<Rightarrow>
              (case fence_release_for_group (mutation_fence_state db) token (gi_group_id (gd_identity db)) of
                 Inl e \<Rightarrow> (w, Rejected e)
               | Inr (fence, _) \<Rightarrow>
                   (let request = xr_request receipt; key = export_session_key cd request;
                        highest = (case tget (ex_sessions (gd_export db)) key of
                            Some (Some h) \<Rightarrow> max h (mr_sequence request) | _ \<Rightarrow> mr_sequence request);
                        w = put_fence fence w; ex = gd_export w;
                        w = w\<lparr>gd_export := ex\<lparr>ex_active := None,
                              ex_receipts := tput (ex_receipts ex) (export_receipt_key cd request) receipt,
                              ex_sessions := tput (ex_sessions ex) key (Some highest)\<rparr>\<rparr>
                    in (evict_export_receipts cd db request w, export_terminal receipt))))"

definition apply_export :: "codec \<Rightarrow> group_db \<Rightarrow> GroupLogId \<Rightarrow> ExportCommand \<Rightarrow> group_db \<Rightarrow> ApplyResult applied" where
  "apply_export cd db l command w =
     (case command of
        ExportBegin intent deadline \<Rightarrow> apply_begin_export cd db l intent deadline w
      | AcquireFence token \<Rightarrow> apply_acquire_export_fence db l token w
      | RecordFence token observation \<Rightarrow> Inr (update_active_export db token (\<lambda>a. record_fence a observation) w)
      | BeginMaterialization token \<Rightarrow> Inr (update_active_export db token begin_materialization w)
      | PublishArtifact token artifact ct \<Rightarrow>
          Inr (update_active_export db token (\<lambda>a. publish_artifact a artifact ct) w)
      | RequestCompletion request export artifact \<Rightarrow> Inr (apply_request_export_completion cd db request export artifact w)
      | RequestAbort request reason observed \<Rightarrow> Inr (apply_request_export_abort cd db request reason observed w)
      | ReleaseFence token \<Rightarrow> Inr (apply_release_export_fence db token w)
      | RecordRelease token observation \<Rightarrow> Inr (update_active_export db token (\<lambda>a. record_release a observation) w)
      | ExportFinish token \<Rightarrow> Inr (apply_finish_export cd db token w))"

end
