(* ===== verification/Apply_Command.thy ===== *)
theory Apply_Command
  imports Publish_Properties Checkpoints Lease_Handlers Catalog_Invariant Administration Export_Apply
begin

text \<open>
  The replicated state machine of a group (\<open>crates/light-stream-storage/src/lib.rs\<close>): the commands, their
  fence classes, what a command answers while an export holds the fence, \<open>apply_command\<close> and
  \<open>apply_entry\<close>, which applies one committed log entry as one atomic batch.
\<close>

section \<open>Commands\<close>

datatype GroupCommand =
    BootstrapControl BootstrapSpec "ClusterTopology option" "SecurityPolicy option" "GroupId list" u32 u32
  | BootstrapData BootstrapSpec
  | CreateStreamIntent CreateStreamSpec StreamId
  | ReplicaReady StreamId GroupId
  | ActivateStream StreamId
  | BeginDeleteStream StreamId
  | FinishDeleteStream StreamId
  | Publish PublishBatch
  | PublishMany "PublishBatch list"
  | CompareAndSetCheckpoint CheckpointMutation
  | CreateBookmark BookmarkId PartitionKey BookmarkName RecordOffset
  | DeleteBookmark PartitionKey BookmarkId
  | CreateStreamBookmark BookmarkId BookmarkName StreamCursorVector
  | DeleteStreamBookmark StreamId BookmarkId
  | AdvanceRetention RetentionRequest ClockObservation
  | AdmitReplayLease ReplayLeaseRequest ClockObservation
  | RenewReplayLease LeaseRenewal ClockObservation
  | ReleaseReplayLease LeaseRelease ClockObservation
  | MaintainRetention PartitionKey RecordOffset u32 u64 ClockObservation
  | OperationalProbe GroupId
  | BeginAdministration AdministrationIntent
  | CompleteAdministration AdministrationRequestId
  | AbortAdministration AdministrationRequestId
  | FinishAdministrationAbort AdministrationRequestId
  | InitializeClusterTopology ClusterTopology
  | InitializeSecurityPolicy SecurityPolicy
  | ApplySecurityMutation SecurityMutation
  | ActivateSecuredTransport MutationRequestId ClusterTopology SecurityPolicy
  | Export ExportCommand

datatype CommandFenceClass = IncludedMutation | ExcludedMutation | ExportProtocol

fun fence_class :: "GroupCommand \<Rightarrow> CommandFenceClass" where
  "fence_class (CompareAndSetCheckpoint _) = ExcludedMutation"
| "fence_class (AdmitReplayLease _ _) = ExcludedMutation"
| "fence_class (RenewReplayLease _ _) = ExcludedMutation"
| "fence_class (ReleaseReplayLease _ _) = ExcludedMutation"
| "fence_class (OperationalProbe _) = ExcludedMutation"
| "fence_class (BeginAdministration (TransferLeader _ _ _)) = ExcludedMutation"
| "fence_class (CompleteAdministration _) = ExcludedMutation"
| "fence_class (AbortAdministration _) = ExcludedMutation"
| "fence_class (FinishAdministrationAbort _) = ExcludedMutation"
| "fence_class (InitializeClusterTopology _) = ExcludedMutation"
| "fence_class (InitializeSecurityPolicy _) = ExcludedMutation"
| "fence_class (ApplySecurityMutation _) = ExcludedMutation"
| "fence_class (ActivateSecuredTransport _ _ _) = ExcludedMutation"
| "fence_class (Export _) = ExportProtocol"
| "fence_class _ = IncludedMutation"

section \<open>Answers while the fence is held\<close>

text \<open>The descriptor of a stream when its lifecycle says the command was applied before.\<close>

definition replayed_stream :: "group_db \<Rightarrow> StreamId \<Rightarrow> (StreamDescriptor \<Rightarrow> bool) \<Rightarrow> ApplyResult option" where
  "replayed_stream db stream done =
     (case tget (ct_streams (gd_catalog db)) stream of
        None \<Rightarrow> None
      | Some d \<Rightarrow> if done d then Some (StreamResult d) else None)"

definition replay_bootstrap ::
  "group_db \<Rightarrow> GroupKind \<Rightarrow> BootstrapSpec \<Rightarrow> ApplyResult \<Rightarrow> ApplyResult option" where
  "replay_bootstrap db expected spec same =
     (if gi_kind (gd_identity db) \<noteq> expected then Some (kind_mismatch expected (gi_kind (gd_identity db)))
      else case ct_bootstrap (gd_catalog db) of
        None \<Rightarrow> None
      | Some existing \<Rightarrow>
          if existing \<noteq> spec then Some (Rejected (BootstrapConflict ''bootstrap stream identity differs''))
          else Some same)"

definition replay_included_command ::
  "codec \<Rightarrow> group_db \<Rightarrow> GroupCommand \<Rightarrow> ExportId \<Rightarrow> ApplyResult option io" where
  "replay_included_command cd db command export =
     (case command of
        BootstrapControl spec topology security groups max_streams max_partitions \<Rightarrow>
          Inr (replay_bootstrap db ControlGroup spec
            (if same_configuration db topology security groups max_streams max_partitions then bootstrap_result spec
             else Rejected (BootstrapConflict ''bounded group pool or catalog limits differ'')))
      | BootstrapData spec \<Rightarrow> Inr (replay_bootstrap db DataGroup spec (bootstrap_result spec))
      | CreateStreamIntent spec _ \<Rightarrow>
          (case tget (ct_intents (gd_catalog db)) (cs_request_id spec) of
             None \<Rightarrow> Inr None
           | Some existing \<Rightarrow>
               if ci_spec existing \<noteq> spec
               then Inr (Some (Rejected (BootstrapConflict ''catalog request identity was reused with different intent'')))
               else bind_result (ok_or ''catalog intent references a missing stream''
                      (tget (ct_streams (gd_catalog db)) (ci_stream_id existing))) (\<lambda>d. Inr (Some (StreamResult d))))
      | ReplicaReady stream grp \<Rightarrow>
          Inr (replayed_stream db stream (\<lambda>d. sd_lifecycle d \<noteq> Preparing \<or> grp \<in> set (sd_ready_groups d)))
      | ActivateStream stream \<Rightarrow> Inr (replayed_stream db stream (\<lambda>d. sd_lifecycle d = Active))
      | BeginDeleteStream stream \<Rightarrow>
          Inr (replayed_stream db stream (\<lambda>d. sd_lifecycle d = Deleting \<or> sd_lifecycle d = Deleted))
      | FinishDeleteStream stream \<Rightarrow> Inr (replayed_stream db stream (\<lambda>d. sd_lifecycle d = Deleted))
      | Publish batch \<Rightarrow> Inr (replay_publish cd db batch)
      | PublishMany batches \<Rightarrow> Inr (Some (replay_publish_many cd db batches export))
      | CreateBookmark bid p name off \<Rightarrow>
          Inr (case tget (bk_ids (gd_bookmarks db)) bid of
             None \<Rightarrow> None
           | Some existing \<Rightarrow>
               Some (if cb_name existing = name \<and> cc_partition (cb_cursor existing) = p \<and>
                        cc_next_offset (cb_cursor existing) = off
                     then BookmarkResult existing else Rejected BookmarkNameConflict))
      | DeleteBookmark p bid \<Rightarrow>
          Inr (case tget (bk_ids (gd_bookmarks db)) bid of
             None \<Rightarrow> None
           | Some b \<Rightarrow>
               if cc_partition (cb_cursor b) = p \<and> cb_lifecycle b = BookmarkDeleted then Some (BookmarkResult b) else None)
      | CreateStreamBookmark bid name vector \<Rightarrow>
          Inr (case tget (sbk_ids (gd_stream_bookmarks db)) bid of
             None \<Rightarrow> None
           | Some existing \<Rightarrow>
               Some (if sb_name existing = name \<and> sb_vector existing = vector then StreamBookmarkResult existing
                     else Rejected BookmarkNameConflict))
      | DeleteStreamBookmark stream bid \<Rightarrow>
          Inr (case tget (sbk_ids (gd_stream_bookmarks db)) bid of
             None \<Rightarrow> None
           | Some b \<Rightarrow>
               if sv_stream (sb_vector b) = stream \<and> sb_lifecycle b = BookmarkDeleted
               then Some (StreamBookmarkResult b) else None)
      | AdvanceRetention request _ \<Rightarrow>
          Inr (prior_mutation_result cd db (rq_request request) (retention_fingerprint cd request))
      | MaintainRetention p expected_cursor _ _ _ \<Rightarrow>
          (let ret = retention_of (gd_log db) p
           in Inr (if pr_reclaim_cursor ret \<noteq> expected_cursor
                   then Some (RetentionStatusResult (retention_status_of p ret)) else None))
      | BeginAdministration intent \<Rightarrow>
          Inr (case tget (ad_requests (gd_admin db)) (ai_request intent) of
             None \<Rightarrow> None
           | Some existing \<Rightarrow>
               Some (if ao_intent existing = intent then AdministrationResult existing else Rejected MutationConflict))
      | _ \<Rightarrow> Inr None)"

section \<open>Applying an entry\<close>

definition dispatch ::
  "codec \<Rightarrow> group_db \<Rightarrow> GroupLogId \<Rightarrow> GroupCommand \<Rightarrow> group_db \<Rightarrow> ApplyResult applied" where
  "dispatch cd db l command w =
     (case command of
        BootstrapControl spec topology security groups max_streams max_partitions \<Rightarrow>
          Inr (apply_bootstrap_control db spec topology security groups max_streams max_partitions w)
      | BootstrapData spec \<Rightarrow> Inr (apply_bootstrap db spec DataGroup w)
      | CreateStreamIntent spec stream \<Rightarrow> apply_create_stream db spec stream w
      | ReplicaReady stream grp \<Rightarrow> Inr (apply_replica_ready db stream grp w)
      | ActivateStream stream \<Rightarrow> Inr (apply_activate_stream db stream w)
      | BeginDeleteStream stream \<Rightarrow> Inr (apply_begin_delete db stream w)
      | FinishDeleteStream stream \<Rightarrow> Inr (apply_finish_delete db stream w)
      | Publish batch \<Rightarrow> apply_publish cd db l batch w
      | PublishMany batches \<Rightarrow> apply_publish_many cd db l batches w
      | CompareAndSetCheckpoint mutation \<Rightarrow> apply_checkpoint_mutation cd db mutation w
      | CreateBookmark bid p name off \<Rightarrow> Inr (apply_create_bookmark db bid p name off w)
      | DeleteBookmark p bid \<Rightarrow> Inr (apply_delete_bookmark db p bid w)
      | CreateStreamBookmark bid name vector \<Rightarrow> Inr (apply_create_stream_bookmark db bid name vector w)
      | DeleteStreamBookmark stream bid \<Rightarrow> Inr (apply_delete_stream_bookmark db stream bid w)
      | AdvanceRetention request clock \<Rightarrow> Inr (apply_advance_retention cd db request clock w)
      | AdmitReplayLease request clock \<Rightarrow> Inr (apply_admit_replay_lease cd db request clock w)
      | RenewReplayLease request clock \<Rightarrow> Inr (apply_renew_replay_lease cd db request clock w)
      | ReleaseReplayLease request clock \<Rightarrow> Inr (apply_release_replay_lease cd db request clock w)
      | MaintainRetention p expected_cursor max_records max_bytes clock \<Rightarrow>
          apply_maintain_retention db p expected_cursor max_records max_bytes clock w
      | OperationalProbe grp \<Rightarrow> apply_operational_probe db l grp w
      | BeginAdministration intent \<Rightarrow> apply_begin_administration cd db intent w
      | CompleteAdministration request \<Rightarrow> apply_complete_administration cd db request w
      | AbortAdministration request \<Rightarrow> apply_abort_administration cd db request w
      | FinishAdministrationAbort request \<Rightarrow> Inr (apply_finish_administration_abort db request w)
      | InitializeClusterTopology topology \<Rightarrow> Inr (apply_initialize_cluster_topology db topology w)
      | InitializeSecurityPolicy policy \<Rightarrow> Inr (apply_initialize_security_policy db policy w)
      | ApplySecurityMutation mutation \<Rightarrow> Inr (apply_security_mutation cd db mutation w)
      | ActivateSecuredTransport request topology policy \<Rightarrow> apply_secured_transport cd db request topology policy w
      | Export export \<Rightarrow> apply_export cd db l export w)"

definition apply_command ::
  "codec \<Rightarrow> group_db \<Rightarrow> GroupLogId \<Rightarrow> GroupCommand \<Rightarrow> group_db \<Rightarrow> ApplyResult applied" where
  "apply_command cd db l command w =
     (case (if fence_class command = IncludedMutation then mf_held (mutation_fence_state db) else None) of
        Some held \<Rightarrow>
          bind_result (replay_included_command cd db command (ft_export (hf_token held))) (\<lambda>replayed.
            Inr (w, case replayed of
               Some result \<Rightarrow> result
             | None \<Rightarrow> Rejected (ExportInProgress (ft_export (hf_token held)) DefiniteNoCommit)))
      | None \<Rightarrow> dispatch cd db l command w)"

text \<open>\<open>Membership\<close> is a type of the consensus library: the state machine stores it as it is.\<close>

datatype EntryPayload = Blank | Normal GroupCommand | Membership bytes

record GroupEntry =
  en_log_id :: GroupLogId
  en_payload :: EntryPayload

definition apply_entry :: "codec \<Rightarrow> group_db \<Rightarrow> GroupEntry \<Rightarrow> ApplyResult applied" where
  "apply_entry cd db entry =
     bind_result
       (case en_payload entry of
          Blank \<Rightarrow> Inr (db, Noop)
        | Membership m \<Rightarrow> Inr (db\<lparr>gd_membership := Some (en_log_id entry, m)\<rparr>, Noop)
        | Normal command \<Rightarrow> apply_command cd db (en_log_id entry) command db) (\<lambda>(w, result).
     Inr (w\<lparr>gd_applied := Some (en_log_id entry)\<rparr>, result))"

end
