(* ===== verification/Group_Effects.thy ===== *)
theory Group_Effects
  imports Apply_Command
begin

text \<open>
  What the commands of a group change outside their own component. \<open>log_evolves\<close> orders the states of the
  record index: tails and floors never move back, and a record below the tail stays what it is until
  it is reclaimed below the floor. The lemmas give the effect of the lease, retention and publish
  commands in these terms.
\<close>

section \<open>How the log evolves\<close>

definition floor_of :: "log_state \<Rightarrow> PartitionKey \<Rightarrow> u64" where
  "floor_of lg p = pr_logical_floor (retention_of lg p)"

definition log_evolves :: "log_state \<Rightarrow> log_state \<Rightarrow> bool" where
  "log_evolves lg lg' \<longleftrightarrow>
     (\<forall>p. next_offset lg p \<le> next_offset lg' p \<and> floor_of lg p \<le> floor_of lg' p) \<and>
     (\<forall>p off. off < next_offset lg p \<longrightarrow>
        records_of lg' p off = records_of lg p off \<or> records_of lg' p off = None \<and> off < floor_of lg' p)"

lemma log_evolves_refl [simp]: "log_evolves lg lg"
  by (simp add: log_evolves_def)

lemma log_evolvesD:
  assumes "log_evolves lg lg'"
  shows "next_offset lg p \<le> next_offset lg' p" "floor_of lg p \<le> floor_of lg' p"
    "off < next_offset lg p \<Longrightarrow>
      records_of lg' p off = records_of lg p off \<or> records_of lg' p off = None \<and> off < floor_of lg' p"
  using assms unfolding log_evolves_def by blast+

lemma log_evolves_trans:
  assumes "log_evolves a b" "log_evolves b c"
  shows "log_evolves a c"
  unfolding log_evolves_def
proof (intro conjI allI impI)
  fix p
  show "next_offset a p \<le> next_offset c p" "floor_of a p \<le> floor_of c p"
    using log_evolvesD(1,2) [OF assms(1), of p] log_evolvesD(1,2) [OF assms(2), of p] by simp_all
next
  fix p off assume "off < next_offset a p"
  moreover from this have "off < next_offset b p" using log_evolvesD(1) [OF assms(1), of p] by order
  ultimately have "records_of b p off = records_of a p off \<or> records_of b p off = None \<and> off < floor_of b p"
    "records_of c p off = records_of b p off \<or> records_of c p off = None \<and> off < floor_of c p"
    using log_evolvesD(3) [OF assms(1)] log_evolvesD(3) [OF assms(2)] by blast+
  moreover have "off < floor_of b p \<Longrightarrow> off < floor_of c p" using log_evolvesD(2) [OF assms(2), of p] by order
  ultimately show "records_of c p off = records_of a p off \<or> records_of c p off = None \<and> off < floor_of c p"
    by auto
qed

lemma extends_evolves: "log_extends lg lg' \<Longrightarrow> log_evolves lg lg'"
  by (simp add: log_extends_def log_evolves_def same_retention_def floor_of_def)

lemma lowered_evolves:
  assumes "lowered lg lg'"
  shows "log_evolves lg lg'" "next_offset lg' = next_offset lg"
proof -
  have "records_of lg' = records_of lg" "floor_of lg' = floor_of lg" "next_offset lg' = next_offset lg"
    using assms by (auto simp: lowered_def records_of_def next_offset_def floor_of_def fun_eq_iff
        dest: same_but_cursorD(1))
  then show "log_evolves lg lg'" "next_offset lg' = next_offset lg" by (simp_all add: log_evolves_def)
qed

lemma lowered_trans:
  assumes "lowered a b" "lowered b c"
  shows "lowered a c"
proof -
  have "same_but_cursor (retention_of c p) (retention_of a p)"
    "pr_reclaim_cursor (retention_of c p) \<le> pr_reclaim_cursor (retention_of a p)" for p
    using assms by (auto simp: lowered_def intro: same_but_cursor_trans order_trans)
  moreover have "\<exists>k \<le> h. tget (lg_reclaim_hint c) p = Some k" if "tget (lg_reclaim_hint a) p = Some h" for p h
    using assms that unfolding lowered_def by (meson order_trans)
  ultimately show ?thesis using assms by (simp add: lowered_def)
qed

section \<open>Expiry under and outside a fence\<close>

lemma expire_lease_fence:
  "export_fenced db \<Longrightarrow> xs_retentions (fst (expire_lease db l st)) = xs_retentions (fst st)"
  "\<not> export_fenced db \<Longrightarrow> xs_reclaim_hints (fst (expire_lease db l st)) = xs_reclaim_hints (fst st)"
  by (simp_all add: expire_lease_def Let_def)

lemma fold_expire_kinds:
  "export_fenced db \<Longrightarrow> xs_retentions (fst (fold (expire_lease db) ls st)) = xs_retentions (fst st)"
  "\<not> export_fenced db \<Longrightarrow> xs_reclaim_hints (fst (fold (expire_lease db) ls st)) = xs_reclaim_hints (fst st)"
  by (induction ls arbitrary: st) (simp_all add: expire_lease_fence)

lemma fold_expire_log: "gd_log (snd (fold (expire_lease db) ls st)) = gd_log (snd st)"
  by (induction ls arbitrary: st) (simp_all add: expire_lease_def Let_def)

lemma put_hints_frame: "put_hints db hs lg = lg\<lparr>lg_reclaim_hint := lg_reclaim_hint (put_hints db hs lg)\<rparr>"
proof -
  have "fold (\<lambda>(p, cursor). put_hint db p cursor) hs lg =
      lg\<lparr>lg_reclaim_hint := lg_reclaim_hint (fold (\<lambda>(p, cursor). put_hint db p cursor) hs lg)\<rparr>"
  proof (induction hs arbitrary: lg)
    case (Cons h hs)
    show ?case using Cons.IH [of "put_hint db (fst h) (snd h) lg"] by (simp add: case_prod_unfold put_hint_def)
  qed simp
  then show ?thesis by (simp add: put_hints_def)
qed

lemma expire_fence:
  assumes "expire_due_leases db clock db = (w, xs)"
  shows "export_fenced db \<Longrightarrow> gd_log w = (gd_log db)\<lparr>lg_reclaim_hint := lg_reclaim_hint (gd_log w)\<rparr>"
    "\<not> export_fenced db \<Longrightarrow> lg_reclaim_hint (gd_log w) = lg_reclaim_hint (gd_log db)"
    "export_fenced db \<Longrightarrow> xs_retentions xs = []" "\<not> export_fenced db \<Longrightarrow> xs_reclaim_hints xs = []"
proof -
  let ?due = "filter (lease_due clock) (map snd (ls_leases (gd_leases db)))"
  let ?st = "(\<lparr>xs_budget = lease_budget_of db, xs_active = [], xs_retentions = [], xs_reclaim_hints = []\<rparr>, db)"
  obtain ys v where f: "fold (expire_lease db) ?due ?st = (ys, v)" by fastforce
  have v: "gd_log v = gd_log db" using fold_expire_log [of db ?due ?st] f by simp
  have ret: "export_fenced db \<Longrightarrow> xs_retentions ys = []" and hint: "\<not> export_fenced db \<Longrightarrow> xs_reclaim_hints ys = []"
    using fold_expire_kinds [of db ?due ?st] f by simp_all
  have xs: "xs_retentions xs = xs_retentions ys" "xs_reclaim_hints xs = xs_reclaim_hints ys"
    and w: "gd_log w = gd_log v \<or>
      gd_log w = put_hints db (xs_reclaim_hints ys) (put_retentions (xs_retentions ys) (gd_log v))"
    using assms f by (auto simp: expire_due_leases_def expire_loop_fold Let_def split: if_splits)
  show "export_fenced db \<Longrightarrow> gd_log w = (gd_log db)\<lparr>lg_reclaim_hint := lg_reclaim_hint (gd_log w)\<rparr>"
  proof -
    assume "export_fenced db"
    then have "put_retentions (xs_retentions ys) (gd_log v) = gd_log db" using ret v by (simp add: put_retentions_def)
    with w v put_hints_frame [of db "xs_reclaim_hints ys" "gd_log db"] show ?thesis by auto
  qed
  show "\<not> export_fenced db \<Longrightarrow> lg_reclaim_hint (gd_log w) = lg_reclaim_hint (gd_log db)"
    using w v hint by (auto simp: put_hints_def put_retentions_def)
  show "export_fenced db \<Longrightarrow> xs_retentions xs = []" "\<not> export_fenced db \<Longrightarrow> xs_reclaim_hints xs = []"
    using ret hint xs by simp_all
qed

section \<open>What lease commands change\<close>

definition lease_frame :: "group_db \<Rightarrow> group_db \<Rightarrow> bool" where
  "lease_frame db w \<longleftrightarrow>
     gd_identity w = gd_identity db \<and> gd_receipt_window w = gd_receipt_window db \<and>
     gd_active_bank w = gd_active_bank db \<and> gd_producers w = gd_producers db \<and> gd_bookmarks w = gd_bookmarks db \<and>
     gd_stream_bookmarks w = gd_stream_bookmarks db \<and> gd_checkpoints w = gd_checkpoints db \<and>
     gd_catalog w = gd_catalog db \<and> gd_admin w = gd_admin db \<and> gd_export w = gd_export db"

text \<open>
  Besides the invariant: the log evolves without moving a tail; under a fence only hints change and
  outside a fence hints do not.
\<close>

definition lease_effect :: "group_db \<Rightarrow> group_db \<Rightarrow> bool" where
  "lease_effect db w \<longleftrightarrow>
     lease_frame db w \<and> log_evolves (gd_log db) (gd_log w) \<and> lg_next_offset (gd_log w) = lg_next_offset (gd_log db) \<and>
     (export_fenced db \<longrightarrow> gd_log w = (gd_log db)\<lparr>lg_reclaim_hint := lg_reclaim_hint (gd_log w)\<rparr>) \<and>
     (\<not> export_fenced db \<longrightarrow> lg_reclaim_hint (gd_log w) = lg_reclaim_hint (gd_log db))"

lemma lease_effect_refl [simp]: "lease_effect db db"
  by (simp add: lease_effect_def lease_frame_def)

lemma lease_effect_store [simp]:
  "lease_effect db (store_mutation_result cd db' r fp res w) = lease_effect db w"
  by (simp add: lease_effect_def lease_frame_def)

lemma lease_effect_leases [simp]: "lease_effect db (w\<lparr>gd_leases := ls\<rparr>) = lease_effect db w"
  by (simp add: lease_effect_def lease_frame_def)

lemma expiry_lease_effect:
  assumes "expire_due_leases db clock db = (w, xs)" "leases_keyed (ls_leases (gd_leases db))"
  shows "lease_effect db w"
proof -
  have e: "w = db\<lparr>gd_leases := gd_leases w, gd_log := gd_log w\<rparr>" "lowered (gd_log db) (gd_log w)"
    using expire_due_leases_effect [OF assms] unfolding expiry_effect_def by blast+
  have "lease_frame db w" unfolding lease_frame_def by (subst (1 2 3 4 5 6 7 8 9 10) e(1)) simp
  with lowered_evolves(1) [OF e(2)] expire_fence(1,2) [OF assms(1)] e(2) show ?thesis
    unfolding lease_effect_def by (simp add: lowered_def)
qed

text \<open>The handlers after expiry: a change of the leases, and for a release of the log.\<close>

lemma lease_handler_effect:
  assumes run: "(case prior of Some r \<Rightarrow> (db, r)
      | None \<Rightarrow> (case advance_lease_clock db ob of Inl e \<Rightarrow> finish db (Rejected e)
          | Inr clock \<Rightarrow> (case expire_due_leases db clock db of (w1, xs) \<Rightarrow> body clock w1 xs))) = (w, result)"
    and keyed: "leases_keyed (ls_leases (gd_leases db))"
    and finish: "\<And>r. fst (finish db r) = store_mutation_result cd db request fp r db"
    and body: "\<And>clock w1 xs. expire_due_leases db clock db = (w1, xs) \<Longrightarrow> lease_effect db w1 \<Longrightarrow>
      lease_effect db (fst (body clock w1 xs))"
  shows "lease_effect db w"
proof (cases prior)
  case (Some r)
  with run show ?thesis by simp
next
  case None
  show ?thesis
  proof (cases "advance_lease_clock db ob")
    case (Inl e)
    with run None have "(w, result) = finish db (Rejected e)" by simp
    then have "w = store_mutation_result cd db request fp (Rejected e) db" by (metis finish fst_conv)
    then show ?thesis by simp
  next
    case (Inr clock)
    obtain w1 xs where e: "expire_due_leases db clock db = (w1, xs)" by fastforce
    from body [OF e expiry_lease_effect [OF e keyed]] run None Inr e show ?thesis by simp
  qed
qed

lemma admit_effect:
  assumes run: "apply_admit_replay_lease cd db request ob db = (w, result)" and keyed: "leases_keyed (ls_leases (gd_leases db))"
  shows "lease_effect db w"
  using run keyed unfolding apply_admit_replay_lease_def Let_def
  by (rule lease_handler_effect [where cd = cd and request = "lr_request request" and
        fp = "mutation_fingerprint cd (cd_json_lease cd request)"])
    (auto split: sum.splits)

lemma renew_effect:
  assumes run: "apply_renew_replay_lease cd db request ob db = (w, result)" and keyed: "leases_keyed (ls_leases (gd_leases db))"
  shows "lease_effect db w"
  using run keyed unfolding apply_renew_replay_lease_def Let_def
  by (rule lease_handler_effect [where cd = cd and request = "ln_request request" and
        fp = "mutation_fingerprint cd (cd_json_renewal cd request)"])
    (auto split: sum.splits option.splits)

lemma release_range_lease_effect:
  assumes e: "expire_due_leases db clock db = (w, xs)" and keyed: "leases_keyed (ls_leases (gd_leases db))"
  shows "lease_effect db (w\<lparr>gd_leases := ls, gd_log := release_range db xs r (gd_log w)\<rparr>)"
proof -
  note eff = expire_due_leases_effect [OF e keyed]
  have low: "lowered (gd_log db) (release_range db xs r (gd_log w))"
    using eff release_range_effect(1) [OF eff] lowered_trans unfolding expiry_effect_def by blast
  have w: "lease_effect db w" by (rule expiry_lease_effect [OF e keyed])
  have fenced: "export_fenced db \<Longrightarrow> release_range db xs r (gd_log w) =
      (gd_log w)\<lparr>lg_reclaim_hint := lg_reclaim_hint (release_range db xs r (gd_log w))\<rparr>"
    and free: "\<not> export_fenced db \<Longrightarrow> lg_reclaim_hint (release_range db xs r (gd_log w)) = lg_reclaim_hint (gd_log w)"
    by (auto simp: release_range_def Let_def put_hint_def)
  have "export_fenced db \<Longrightarrow> release_range db xs r (gd_log w) =
      (gd_log db)\<lparr>lg_reclaim_hint := lg_reclaim_hint (release_range db xs r (gd_log w))\<rparr>"
  proof -
    assume f: "export_fenced db"
    have "release_range db xs r (gd_log w) =
        (gd_log w)\<lparr>lg_reclaim_hint := lg_reclaim_hint (release_range db xs r (gd_log w))\<rparr>" by (rule fenced [OF f])
    also have "\<dots> = (gd_log db)\<lparr>lg_reclaim_hint := lg_reclaim_hint (release_range db xs r (gd_log w))\<rparr>"
      by (subst expire_fence(1) [OF e f]) simp
    finally show ?thesis .
  qed
  with w free lowered_evolves [OF low] low show ?thesis
    by (simp add: lease_effect_def lease_frame_def lowered_def)
qed

lemma release_effect:
  assumes run: "apply_release_replay_lease cd db request ob db = (w, result)" and keyed: "leases_keyed (ls_leases (gd_leases db))"
  shows "lease_effect db w"
  using run keyed unfolding apply_release_replay_lease_def Let_def
  by (rule lease_handler_effect [where cd = cd and request = "le_request request" and
        fp = "mutation_fingerprint cd (cd_json_release cd request)"])
    (auto simp: release_range_lease_effect [OF _ keyed] split: sum.splits option.splits)


section \<open>What retention commands change\<close>

text \<open>Retention commands run outside a fence only, so the fenced half of the effect is not needed.\<close>

definition retention_effect :: "group_db \<Rightarrow> group_db \<Rightarrow> bool" where
  "retention_effect db w \<longleftrightarrow>
     lease_frame db w \<and> log_evolves (gd_log db) (gd_log w) \<and> lg_next_offset (gd_log w) = lg_next_offset (gd_log db) \<and>
     (\<not> export_fenced db \<longrightarrow> lg_reclaim_hint (gd_log w) = lg_reclaim_hint (gd_log db))"

lemma retention_effect_refl [simp]: "retention_effect db db"
  by (simp add: retention_effect_def lease_frame_def)

lemma retention_effect_store [simp]:
  "retention_effect db (store_mutation_result cd db' r fp res w) = retention_effect db w"
  by (simp add: retention_effect_def lease_frame_def)

lemma lease_retention_effect: "lease_effect db w \<Longrightarrow> retention_effect db w"
  by (simp add: lease_effect_def retention_effect_def)

lemma floor_evolves:
  assumes "floor_of lg p \<le> pr_logical_floor ret"
  shows "log_evolves lg (lg\<lparr>lg_retention := tput (lg_retention lg) p ret\<rparr>)"
  using assms by (auto simp: log_evolves_def floor_of_def records_of_def next_offset_def retention_of_def)

lemma advance_retention_effect: "retention_effect db (fst (apply_advance_retention cd db request ob db))"
proof -
  let ?p = "rq_partition request" and ?ret = "retention_of (gd_log db) (rq_partition request)"
  have "retention_effect db (db\<lparr>gd_log := (gd_log db)\<lparr>lg_retention := tput (lg_retention (gd_log db)) ?p
      (?ret\<lparr>pr_logical_floor := f, pr_floor_byte_position := b\<rparr>)\<rparr>, gd_leases := ls\<rparr>)"
    if "advance_floor (pr_logical_floor ?ret) (rq_target_floor request) t = Inr f" for f b ls t
    using that floor_evolves [of "gd_log db" ?p "?ret\<lparr>pr_logical_floor := f, pr_floor_byte_position := b\<rparr>"]
    by (simp add: retention_effect_def lease_frame_def floor_of_def advance_floor_Inr)
  then show ?thesis
    unfolding apply_advance_retention_def Let_def by (auto split: sum.splits option.splits)
qed

lemma reclaims_evolves:
  assumes "reclaims p ranges (retention_of lg p, lg) (ret', lg')" "pr_reclaim_cursor (retention_of lg p) \<le> floor_of lg p"
  shows "log_evolves lg (lg'\<lparr>lg_retention := tput (lg_retention lg') p ret'\<rparr>)"
proof -
  note R = reclaimsD [OF assms(1)]
  let ?lg = "lg'\<lparr>lg_retention := tput (lg_retention lg') p ret'\<rparr>"
  have reads: "records_of ?lg = records_of lg'" "next_offset ?lg = next_offset lg" "floor_of ?lg = floor_of lg"
    using R(1,2,5) by (auto simp: records_of_def next_offset_def floor_of_def retention_of_def fun_eq_iff)
  have "records_of lg' q off = records_of lg q off \<or> records_of lg' q off = None \<and> off < floor_of lg q" for q off
  proof (cases "q \<noteq> p \<or> off < pr_reclaim_cursor (retention_of lg p) \<or> pr_reclaim_cursor ret' \<le> off")
    case False
    then have "q = p" "pr_reclaim_cursor (retention_of lg p) \<le> off" "off < pr_reclaim_cursor ret'" by auto
    moreover have "pr_reclaim_cursor ret' \<le> floor_of lg p" using R(9) assms(2) by (simp add: floor_of_def)
    ultimately show ?thesis using R(11) [of off] by (auto split: if_splits)
  qed (simp add: R(10))
  then show ?thesis by (simp add: log_evolves_def reads)
qed

lemma maintain_effect:
  assumes run: "apply_maintain_retention db p c mr mb ob db = Inr (w, result)" and ok: "retention_ok db"
  shows "retention_effect db w"
  using maintain_start [OF run]
proof (elim disjE exE conjE)
  assume "w = db"
  then show ?thesis by simp
next
  fix clock w1 xs ret' lg'
  assume e: "expire_due_leases db clock db = (w1, xs)"
    and l: "maintain_loop (gd_log db) (gd_active_bank db) p
        (map rl_range (filter (\<lambda>l. rg_partition (rl_range l) = p) (xs_active xs))) mr mb 0 0
        (ret_view db xs p, gd_log w1) = Inr (ret', lg')"
    and w: "w = w1\<lparr>gd_log := lg'\<lparr>lg_retention := tput (lg_retention lg') p ret'\<rparr>,
             gd_leases := (gd_leases w1)\<lparr>ls_clock := Some clock\<rparr>\<rparr>"
  note eff = expire_due_leases_effect [OF e retention_okD(2) [OF ok]]
  note first = expiry_lease_effect [OF e retention_okD(2) [OF ok]]
  have low: "lowered (gd_log db) (gd_log w1)" and view: "ret_view db xs p = retention_of (gd_log w1) p"
    using eff unfolding expiry_effect_def by blast+
  have "records_of (gd_log w1) p off = records_of (gd_log db) p off" for off
    using low by (simp add: lowered_def records_of_def)
  from maintain_loop_reclaims [OF l this] have rec: "reclaims p
      (map rl_range (filter (\<lambda>l. rg_partition (rl_range l) = p) (xs_active xs)))
      (retention_of (gd_log w1) p, gd_log w1) (ret', lg')" unfolding view .
  have "pr_reclaim_cursor (retention_of (gd_log w1) p) \<le> floor_of (gd_log w1) p"
    using log_okD [OF lowered_log_ok [OF low retention_okD(1) [OF ok]], of p]
    by (auto simp: floor_of_def chain_ok_def dest: chain_withD(2))
  from reclaims_evolves [OF rec this] first reclaimsD(1,3) [OF rec] show ?thesis
    using log_evolves_trans [of "gd_log db" "gd_log w1"]
    by (simp add: w retention_effect_def lease_effect_def lease_frame_def)
qed

section \<open>Publishing\<close>

text \<open>Appending keeps leases backed and leaks nothing: the new records lie past every cursor.\<close>

lemma retention_ok_extends:
  assumes ok: "retention_ok db" and ext: "log_extends (gd_log db) (gd_log w)" and log: "log_ok (gd_log w)"
    and leases: "gd_leases w = gd_leases db"
  shows "retention_ok w"
proof -
  note D = retention_okD [OF ok]
  have same: "off < next_offset (gd_log db) p \<Longrightarrow> records_of (gd_log w) p off = records_of (gd_log db) p off"
    and ret: "same_retention (gd_log db) (gd_log w)" for p off
    using ext unfolding log_extends_def by blast+
  have tail: "records_of (gd_log db) p off = Some r \<Longrightarrow> off < next_offset (gd_log db) p" for p off r
    using log_okD [OF D(1), of p] by (auto simp: chain_ok_def dest: chain_record(1))
  have cursor: "pr_reclaim_cursor (retention_of (gd_log db) p) \<le> next_offset (gd_log db) p" for p
  proof -
    obtain pos where c: "chain_with pos (records_of (gd_log db) p) (retention_of (gd_log db) p) (next_offset (gd_log db) p)"
      using log_okD [OF D(1), of p] by (auto simp: chain_ok_def)
    show ?thesis using chain_withD(2,3) [OF c] by order
  qed
  have "leases_backed (gd_log w) (ls_leases (gd_leases w))"
    unfolding leases_backed_def leases
  proof (intro allI impI)
    fix l off assume "live_lease (ls_leases (gd_leases db)) l \<and> range_contains (rl_range l) off"
    with D(5) obtain r where "records_of (gd_log db) (rg_partition (rl_range l)) off = Some r"
      unfolding leases_backed_def by blast
    with same [OF tail [OF this]] show "records_of (gd_log w) (rg_partition (rl_range l)) off \<noteq> None" by simp
  qed
  moreover have "no_leak (gd_log w) (ls_leases (gd_leases w))"
    unfolding no_leak_def leases
  proof (intro allI impI)
    fix p off assume a: "records_of (gd_log w) p off \<noteq> None \<and> off < pr_reclaim_cursor (retention_of (gd_log w) p)"
    then have b: "off < pr_reclaim_cursor (retention_of (gd_log db) p)" using ret by (simp add: same_retention_def)
    then have "off < next_offset (gd_log db) p" using cursor [of p] by order
    with a b same have "records_of (gd_log db) p off \<noteq> None" by simp
    with b D(6) ret show "(\<exists>l. live_lease (ls_leases (gd_leases db)) l \<and> rg_partition (rl_range l) = p \<and>
        range_contains (rl_range l) off) \<or> (\<exists>h \<le> off. tget (lg_reclaim_hint (gd_log w)) p = Some h)"
      unfolding no_leak_def same_retention_def by metis
  qed
  ultimately show ?thesis using D(2-4) log by (simp add: retention_ok_def leases lease_budget_of_def)
qed


text \<open>The single-request handler changes what a batch of one would.\<close>

lemma apply_publish_cases:
  assumes "apply_publish cd db l batch db = Inr (w, result)"
  obtains (unchanged) "w = db"
  | (appended) committed w1 ret lg outcome where
      "\<not> publish_expired cd db batch" "kind_is_data db"
      "CommittedRecordRange_new (pb_partition batch) (next_offset (gd_log db) (pb_partition batch))
         (of_nat (length (pb_records batch))) = Inr committed"
      "w1 = db \<or> (\<exists>name r. create_bookmark_record db (bookmark_id cd l) (pb_partition batch) name
          (next_offset (gd_log db) (pb_partition batch) + of_nat (length (pb_records batch)))
          (next_offset (gd_log db) (pb_partition batch) + of_nat (length (pb_records batch))) db = (w1, r))"
      "append_records l (gd_active_bank db) (gd_log db) (pb_partition batch)
         (next_offset (gd_log db) (pb_partition batch)) 0 0 (pb_records batch)
         (retention_of (gd_log db) (pb_partition batch), gd_log w1) = Inr (ret, lg)"
      "w = w1\<lparr>gd_log := finish_append (pb_partition batch)
          (next_offset (gd_log db) (pb_partition batch) + of_nat (length (pb_records batch))) ret lg,
         gd_producers := push_session cd (gd_receipt_window db) batch
           (producer_session cd db (pb_partition batch) (pb_request batch))
           ((gd_producers w1)\<lparr>ps_receipts := tput (ps_receipts (gd_producers w1))
              (receipt_key cd (pb_partition batch) (pb_request batch)) outcome\<rparr>)\<rparr>"
  | (refused) name r where "create_bookmark_record db (bookmark_id cd l) (pb_partition batch) name
          (next_offset (gd_log db) (pb_partition batch) + of_nat (length (pb_records batch)))
          (next_offset (gd_log db) (pb_partition batch) + of_nat (length (pb_records batch))) db = (w, Rejected r)"
proof -
  let ?p = "pb_partition batch" and ?first = "next_offset (gd_log db) (pb_partition batch)"
  let ?n = "of_nat (length (pb_records batch)) :: u64"
  let ?old = "tget (ps_receipts (gd_producers db)) (receipt_key cd ?p (pb_request batch))"
  show thesis
  proof (cases "\<not> kind_is_data db \<or> ct_bootstrap (gd_catalog db) = None \<or> pb_cluster batch \<noteq> gi_cluster_id (gd_identity db) \<or>
      Some (pb_cluster batch) \<noteq> map_option bs_cluster (ct_bootstrap (gd_catalog db)) \<or> ?old \<noteq> None \<or> publish_expired cd db batch")
    case True
    then have "w = db" using assms
      by (auto simp: apply_publish_def Let_def split: if_splits option.splits StoredPublishOutcome.splits)
    then show thesis by (rule unchanged)
  next
    case False
    then obtain spec where c: "kind_is_data db" "ct_bootstrap (gd_catalog db) = Some spec"
      "pb_cluster batch = gi_cluster_id (gd_identity db)" "pb_cluster batch = bs_cluster spec" "?old = None"
      "\<not> publish_expired cd db batch" by auto
    have run: "(case CommittedRecordRange_new ?p ?first ?n of
          Inl (InvalidRange reason) \<Rightarrow> Inl (''invalid committed range: '' @ reason)
        | Inl _ \<Rightarrow> Inl ''invalid committed range''
        | Inr committed \<Rightarrow>
          (case (case pb_bookmark batch of None \<Rightarrow> Inr (db, None)
             | Some name \<Rightarrow> (case create_bookmark_record db (bookmark_id cd l) ?p name (?first + ?n) (?first + ?n) db of
                 (w', BookmarkResult b) \<Rightarrow> Inr (w', Some b) | (w', r) \<Rightarrow> Inl (w', r))) of
            Inl (w', Rejected e) \<Rightarrow> Inr (w', Rejected e)
          | Inl _ \<Rightarrow> Inl ''unexpected bookmark apply result''
          | Inr (w', bookmark) \<Rightarrow>
              bind_result (append_records l (gd_active_bank db) (gd_log db) ?p ?first 0 0 (pb_records batch)
                (retention_of (gd_log db) ?p, gd_log w')) (\<lambda>(ret, lg).
              Inr (w'\<lparr>gd_log := finish_append ?p (?first + ?n) ret lg,
                 gd_producers := push_session cd (gd_receipt_window db) batch (producer_session cd db ?p (pb_request batch))
                   ((gd_producers w')\<lparr>ps_receipts := tput (ps_receipts (gd_producers w')) (receipt_key cd ?p (pb_request batch))
                     (LegacyOutcome \<lparr>st_fingerprint = legacy_fingerprint cd batch, st_receipt =
                        \<lparr>rc_request = pb_request batch, rc_range = committed, rc_bookmark = bookmark\<rparr>\<rparr>)\<rparr>)\<rparr>,
                Published \<lparr>rc_request = pb_request batch, rc_range = committed, rc_bookmark = bookmark\<rparr>)))) = Inr (w, result)"
      using assms c unfolding apply_publish_def Let_def by simp
    then obtain committed where com: "CommittedRecordRange_new ?p ?first ?n = Inr committed"
      by (cases "CommittedRecordRange_new ?p ?first ?n") (auto split: DomainError.splits)
    have ends: thesis
      if made: "w1 = db \<or> (\<exists>name r. create_bookmark_record db (bookmark_id cd l) ?p name (?first + ?n) (?first + ?n) db = (w1, r))"
        and rest: "bind_result (append_records l (gd_active_bank db) (gd_log db) ?p ?first 0 0 (pb_records batch)
            (retention_of (gd_log db) ?p, gd_log w1)) (\<lambda>(ret, lg).
          Inr (w1\<lparr>gd_log := finish_append ?p (?first + ?n) ret lg,
             gd_producers := push_session cd (gd_receipt_window db) batch (producer_session cd db ?p (pb_request batch))
               ((gd_producers w1)\<lparr>ps_receipts := tput (ps_receipts (gd_producers w1)) (receipt_key cd ?p (pb_request batch))
                  outcome\<rparr>)\<rparr>, r1)) = Inr (w, result)" for w1 outcome r1
    proof -
      from rest obtain ret lg where
        app: "append_records l (gd_active_bank db) (gd_log db) ?p ?first 0 0 (pb_records batch)
            (retention_of (gd_log db) ?p, gd_log w1) = Inr (ret, lg)"
        and w: "w = w1\<lparr>gd_log := finish_append ?p (?first + ?n) ret lg,
             gd_producers := push_session cd (gd_receipt_window db) batch (producer_session cd db ?p (pb_request batch))
               ((gd_producers w1)\<lparr>ps_receipts := tput (ps_receipts (gd_producers w1)) (receipt_key cd ?p (pb_request batch))
                  outcome\<rparr>)\<rparr>"
        by (auto simp: bind_result_Inr)
      show thesis by (rule appended [OF c(6,1) com made app w])
    qed
    show thesis
    proof (cases "pb_bookmark batch")
      case None
      have "w1 = db \<Longrightarrow> thesis" for w1
        using run ends [of db] unfolding com None by simp
      then show thesis by simp
    next
      case (Some name)
      obtain w1 r where m: "create_bookmark_record db (bookmark_id cd l) ?p name (?first + ?n) (?first + ?n) db = (w1, r)"
        by fastforce
      show thesis
      proof (cases "\<exists>b. r = BookmarkResult b")
        case True
        then obtain b where r: "r = BookmarkResult b" by blast
        have made: "w1 = db \<or> (\<exists>name r. create_bookmark_record db (bookmark_id cd l) ?p name (?first + ?n) (?first + ?n) db = (w1, r))"
          using m by blast
        show thesis using run ends [OF made] unfolding com Some by (simp add: m r)
      next
        case False
        then have "\<exists>e. r = Rejected e \<and> w = w1" using run unfolding com Some by (cases r) (auto simp add: m)
        with m show thesis by (auto intro: refused)
      qed
    qed
  qed
qed


lemma apply_publish_keeps:
  assumes run: "apply_publish cd db l batch db = Inr (w, result)" and ok: "publish_ok db"
    and small: "length (pb_records batch) < 2 ^ 64" and pub: "publication_open db (pb_partition batch)"
  shows "publish_ok w \<and> log_extends (gd_log db) (gd_log w) \<and> publish_frame db w"
  using run
proof (cases rule: apply_publish_cases)
  case unchanged
  with ok show ?thesis by simp
next
  case (refused name r)
  from refused have "w = db" by (cases rule: create_bookmark_record_cases) simp_all
  with ok show ?thesis by simp
next
  case (appended committed w1 ret lg outcome)
  have bk: "bookmarks_ok (gd_bookmarks w1)" "w1 = db\<lparr>gd_bookmarks := gd_bookmarks w1\<rparr>"
  proof -
    have "bookmarks_ok (gd_bookmarks w1) \<and> w1 = db\<lparr>gd_bookmarks := gd_bookmarks w1\<rparr>"
      using appended(4)
    proof (elim disjE exE)
      assume "w1 = db"
      with ok show ?thesis by (simp add: publish_ok_def)
    next
      fix name r
      assume c: "create_bookmark_record db (bookmark_id cd l) (pb_partition batch) name
          (next_offset (gd_log db) (pb_partition batch) + of_nat (length (pb_records batch)))
          (next_offset (gd_log db) (pb_partition batch) + of_nat (length (pb_records batch))) db = (w1, r)"
      have "w1 = db\<lparr>gd_bookmarks := gd_bookmarks w1\<rparr>" using c by (cases rule: create_bookmark_record_cases) simp_all
      with create_bookmark_record_ok [OF c _ refl pub] ok show ?thesis by (simp add: publish_ok_def)
    qed
    then show "bookmarks_ok (gd_bookmarks w1)" "w1 = db\<lparr>gd_bookmarks := gd_bookmarks w1\<rparr>" by blast+
  qed
  have lg1: "gd_log w1 = gd_log db" "gd_producers w1 = gd_producers db" "gd_receipt_window w1 = gd_receipt_window db"
    by (subst bk(2), simp)+
  have log: "log_ok (gd_log db)" using ok by (simp add: publish_ok_def)
  have "gd_log w = finish_append (pb_partition batch)
      (next_offset (gd_log db) (pb_partition batch) + of_nat (length (pb_records batch))) ret lg"
    by (simp add: appended(6))
  from append_finish [OF log appended(3) small appended(5) [unfolded lg1] this]
  have a: "log_ok (gd_log w)" "log_extends (gd_log db) (gd_log w)" by (auto intro: appended_extends)
  have "session_ok (gd_receipt_window db) (fst (session_push (gd_receipt_window db) (pr_sequence (pb_request batch))
      (producer_session cd db (pb_partition batch) (pb_request batch))))"
    using ok appended(1) by (intro session_ok_push)
      (auto simp: publish_ok_def sessions_ok_def publish_expired_def producer_session_def)
  then have "sessions_ok (gd_receipt_window w) (ps_sessions (gd_producers w))"
    using ok by (auto simp: appended(6) lg1 publish_ok_def push_session_def Let_def intro!: sessions_ok_put
        split: prod.splits)
  moreover have "publish_frame db w" unfolding publish_frame_def appended(6) by (subst bk(2)) simp
  ultimately show ?thesis using a bk(1) by (simp add: publish_ok_def appended(6))
qed

end
