(* ===== verification/Lease_Origins.thy ===== *)
theory Lease_Origins
  imports Group_Effects
begin

text \<open>
  Where leases come from. The identifier of a lease is a hash of the request that admitted it, and the
  request was recorded in its session when the lease was admitted. So, short of a collision of that
  hash, a request that is not known to its session has no lease yet: an admission never replaces one.
\<close>

section \<open>Sessions only grow\<close>

definition sessions_grow :: "codec \<Rightarrow> group_db \<Rightarrow> group_db \<Rightarrow> bool" where
  "sessions_grow cd db w \<longleftrightarrow>
     (\<forall>q s. sequence_expired s (mutation_session cd db q) \<longrightarrow> sequence_expired s (mutation_session cd w q))"

text \<open>What a handler with receipts does to the receipts and sessions: nothing, or one new record.\<close>

definition recorded :: "codec \<Rightarrow> MutationRequestId \<Rightarrow> group_db \<Rightarrow> group_db \<Rightarrow> bool" where
  "recorded cd r db w \<longleftrightarrow>
     w = db \<or> (\<exists>fp res v. prior_mutation_result cd db r fp = None \<and> gd_mutations v = gd_mutations db \<and>
       w = store_mutation_result cd db r fp res v)"

lemma sessions_grow_same: "gd_mutations w = gd_mutations db \<Longrightarrow> sessions_grow cd db w"
  by (simp add: sessions_grow_def mutation_session_def)

lemma mutation_session_store_other:
  "gd_mutations v = gd_mutations db \<Longrightarrow>
    mutation_session cd (store_mutation_result cd db r fp res v) q =
      (if mutation_session_key cd q = mutation_session_key cd r
       then fst (session_push (gd_receipt_window db) (mr_sequence r) (mutation_session cd db r))
       else mutation_session cd db q)"
  by (simp add: store_mutation_result_def mutation_session_def Let_def split: prod.splits)

lemma sessions_grow_store:
  assumes "prior_mutation_result cd db r fp = None" "gd_mutations v = gd_mutations db"
  shows "sessions_grow cd db (store_mutation_result cd db r fp res v)"
  unfolding sessions_grow_def
proof (intro allI impI)
  fix q s assume e: "sequence_expired s (mutation_session cd db q)"
  show "sequence_expired s (mutation_session cd (store_mutation_result cd db r fp res v) q)"
  proof (cases "mutation_session_key cd q = mutation_session_key cd r")
    case True
    then have "mutation_session cd db q = mutation_session cd db r" by (simp add: mutation_session_def)
    with e prior_mutation_None [OF assms(1)] have "s \<le> mr_sequence r"
      by (auto simp: sequence_expired_def split: option.splits)
    then show ?thesis by (simp add: mutation_session_store_other [OF assms(2)] True sequence_expired_def)
  next
    case False
    with e show ?thesis by (simp add: mutation_session_store_other [OF assms(2)])
  qed
qed

lemma recorded_grows: "recorded cd r db w \<Longrightarrow> sessions_grow cd db w"
  by (auto simp: recorded_def sessions_grow_store intro: sessions_grow_same)

text \<open>A request that is recorded is known to its session from then on.\<close>

lemma stored_known: "sequence_expired (mr_sequence r) (mutation_session cd (store_mutation_result cd db r fp res v) r)"
  by (simp add: sequence_expired_def)

section \<open>Leases and their requests\<close>

definition admitted_by :: "ReplayLease \<Rightarrow> MutationRequestId" where
  "admitted_by l = lr_request (rl_request l)"

definition leases_traced :: "codec \<Rightarrow> group_db \<Rightarrow> bool" where
  "leases_traced cd db \<longleftrightarrow>
     (\<forall>i l. tget (ls_leases (gd_leases db)) i = Some l \<longrightarrow> i = replay_lease_id cd (admitted_by l) \<and>
        sequence_expired (mr_sequence (admitted_by l)) (mutation_session cd db (admitted_by l)))"

definition leases_from :: "group_db \<Rightarrow> group_db \<Rightarrow> bool" where
  "leases_from db w \<longleftrightarrow>
     (\<forall>i l. tget (ls_leases (gd_leases w)) i = Some l \<longrightarrow>
        (\<exists>l0. tget (ls_leases (gd_leases db)) i = Some l0 \<and> rl_request l = rl_request l0))"

lemma leases_from_refl [simp]: "leases_from db db"
  by (simp add: leases_from_def)

lemma leases_traced_from:
  assumes "leases_traced cd db" "leases_from db w" "sessions_grow cd db w"
  shows "leases_traced cd w"
  unfolding leases_traced_def
proof (intro allI impI)
  fix i l assume "tget (ls_leases (gd_leases w)) i = Some l"
  with assms(2) obtain l0 where l0: "tget (ls_leases (gd_leases db)) i = Some l0" "rl_request l = rl_request l0"
    unfolding leases_from_def by blast
  with assms(1,3) show "i = replay_lease_id cd (admitted_by l) \<and>
      sequence_expired (mr_sequence (admitted_by l)) (mutation_session cd w (admitted_by l))"
    by (simp add: leases_traced_def sessions_grow_def admitted_by_def)
qed

lemma leases_traced_frame:
  assumes "leases_traced cd db" "gd_leases w = gd_leases db" "sessions_grow cd db w"
  shows "leases_traced cd w"
  using assms by (intro leases_traced_from [OF assms(1) _ assms(3)]) (simp add: leases_from_def)

text \<open>No lease of another request has the identifier the hash gives this one.\<close>

definition lease_ids_apart :: "codec \<Rightarrow> group_db \<Rightarrow> ReplayLeaseRequest \<Rightarrow> bool" where
  "lease_ids_apart cd db request \<longleftrightarrow>
     (\<forall>l. tget (ls_leases (gd_leases db)) (replay_lease_id cd (lr_request request)) = Some l \<longrightarrow>
        admitted_by l = lr_request request)"

lemma admission_fresh:
  assumes "leases_traced cd db" "lease_ids_apart cd db request"
    and "prior_mutation_result cd db (lr_request request) fp = None"
  shows "tget (ls_leases (gd_leases db)) (replay_lease_id cd (lr_request request)) = None"
proof (rule ccontr)
  assume "tget (ls_leases (gd_leases db)) (replay_lease_id cd (lr_request request)) \<noteq> None"
  then obtain l where l: "tget (ls_leases (gd_leases db)) (replay_lease_id cd (lr_request request)) = Some l" by blast
  with assms(2) have "admitted_by l = lr_request request" by (simp add: lease_ids_apart_def)
  with l assms(1) have "sequence_expired (mr_sequence (lr_request request)) (mutation_session cd db (lr_request request))"
    unfolding leases_traced_def by metis
  with prior_mutation_None [OF assms(3)] show False by blast
qed

section \<open>The lease handlers\<close>

lemma lease_handler_cases:
  assumes run: "(case prior of Some r \<Rightarrow> (db, r)
      | None \<Rightarrow> (case advance_lease_clock db ob of Inl e \<Rightarrow> finish db (Rejected e)
          | Inr clock \<Rightarrow> (case expire_due_leases db clock db of (w1, xs) \<Rightarrow> body clock w1 xs))) = (w, result)"
  obtains (prior) r where "prior = Some r" "w = db"
  | (clock) e where "prior = None" "finish db (Rejected e) = (w, result)"
  | (body) clock w1 xs where "prior = None" "advance_lease_clock db ob = Inr clock"
      "expire_due_leases db clock db = (w1, xs)" "body clock w1 xs = (w, result)"
  using run by (auto split: option.splits sum.splits prod.splits)

lemma expiry_leases_from:
  assumes "expire_due_leases db clock db = (w, xs)" "leases_keyed (ls_leases (gd_leases db))"
  shows "leases_from db w" "gd_mutations w = gd_mutations db"
    "tget (ls_leases (gd_leases w)) i = map_option (expire_if_due clock) (tget (ls_leases (gd_leases db)) i)"
proof -
  have e: "w = db\<lparr>gd_leases := gd_leases w, gd_log := gd_log w\<rparr>"
    "ls_leases (gd_leases w) = expire_table clock (ls_leases (gd_leases db))"
    using expire_due_leases_effect [OF assms] unfolding expiry_effect_def by blast+
  show "gd_mutations w = gd_mutations db" by (subst e(1)) simp
  show "tget (ls_leases (gd_leases w)) i = map_option (expire_if_due clock) (tget (ls_leases (gd_leases db)) i)" for i
    by (simp add: e(2) tget_expire_table)
  then show "leases_from db w"
    by (auto simp: leases_from_def expire_if_due_def lease_expired_def)
qed


definition traced_step :: "codec \<Rightarrow> group_db \<Rightarrow> group_db \<Rightarrow> bool" where
  "traced_step cd db w \<longleftrightarrow> (leases_traced cd db \<longrightarrow> leases_traced cd w) \<and> sessions_grow cd db w"

lemma traced_stepI: "leases_from db w \<Longrightarrow> sessions_grow cd db w \<Longrightarrow> traced_step cd db w"
  by (auto simp: traced_step_def intro: leases_traced_from)

lemma traced_step_refl [simp]: "traced_step cd db db"
  by (rule traced_stepI) (simp_all add: sessions_grow_def)

text \<open>A stored result over a state whose leases come from the ones before.\<close>

lemma from_store:
  assumes "prior_mutation_result cd db r fp = None" "gd_mutations v = gd_mutations db" "leases_from db v"
  shows "leases_from db (store_mutation_result cd db r fp res v)"
    "sessions_grow cd db (store_mutation_result cd db r fp res v)"
  using assms(3) by (simp add: leases_from_def, intro sessions_grow_store [OF assms(1,2)])

lemma traced_store:
  assumes "prior_mutation_result cd db r fp = None" "gd_mutations v = gd_mutations db" "leases_from db v"
  shows "traced_step cd db (store_mutation_result cd db r fp res v)"
  by (rule traced_stepI [OF from_store [OF assms]])

lemma leases_from_put:
  assumes "leases_from db w" "tget (ls_leases (gd_leases db)) i = Some l0" "rl_request l = rl_request l0"
    and "ls_leases (gd_leases v) = tput (ls_leases (gd_leases w)) i l"
  shows "leases_from db v"
  using assms unfolding leases_from_def assms(4) by auto

lemma leases_from_cong:
  "ls_leases (gd_leases v) = ls_leases (gd_leases w) \<Longrightarrow> leases_from db v = leases_from db w"
  by (simp add: leases_from_def)

lemma advance_retention_traced: "traced_step cd db (fst (apply_advance_retention cd db request ob db))"
  by (auto simp: apply_advance_retention_def Let_def leases_from_def intro!: traced_store
      split: option.splits sum.splits)

lemma admit_traced:
  assumes run: "apply_admit_replay_lease cd db request ob db = (w, result)"
    and keyed: "leases_keyed (ls_leases (gd_leases db))"
  shows "traced_step cd db w"
  using run unfolding apply_admit_replay_lease_def Let_def
proof (cases rule: lease_handler_cases)
  case (clock e)
  then show ?thesis by (auto intro: traced_store)
next
  case (body clock w1 xs)
  note e = expiry_leases_from [OF body(3) keyed]
  show ?thesis
  proof (cases "admit_lease cd db request clock (xs_budget xs)")
    case (Inl err)
    with body e show ?thesis by (auto intro: traced_store)
  next
    case (Inr l)
    from admit_lease_Inr(1,2) [OF Inr] have l: "rl_id l = replay_lease_id cd (lr_request request)"
      "admitted_by l = lr_request request" by (simp_all add: admitted_by_def)
    from body Inr obtain fp res v where w: "w = store_mutation_result cd db (lr_request request) fp res v"
      and v: "gd_mutations v = gd_mutations w1" "ls_leases (gd_leases v) = tput (ls_leases (gd_leases w1)) (rl_id l) l"
      and none: "prior_mutation_result cd db (lr_request request) fp = None"
      by auto
    have grow: "sessions_grow cd db w" using sessions_grow_store [OF none, of v] v(1) e(2) w by simp
    have "leases_traced cd w" if t: "leases_traced cd db"
      unfolding leases_traced_def
    proof (intro allI impI)
      fix i k assume k: "tget (ls_leases (gd_leases w)) i = Some k"
      show "i = replay_lease_id cd (admitted_by k) \<and>
          sequence_expired (mr_sequence (admitted_by k)) (mutation_session cd w (admitted_by k))"
      proof (cases "i = rl_id l")
        case True
        with k v(2) have "k = l" by (simp add: w)
        with True l stored_known show ?thesis by (simp add: w)
      next
        case False
        with k v(2) have "tget (ls_leases (gd_leases w1)) i = Some k" by (simp add: w)
        with e(1) obtain l0 where "tget (ls_leases (gd_leases db)) i = Some l0" "rl_request k = rl_request l0"
          unfolding leases_from_def by blast
        with t grow show ?thesis by (simp add: leases_traced_def sessions_grow_def admitted_by_def)
      qed
    qed
    with grow show ?thesis by (simp add: traced_step_def)
  qed
qed simp

lemma renew_from:
  assumes run: "apply_renew_replay_lease cd db request ob db = (w, result)"
    and keyed: "leases_keyed (ls_leases (gd_leases db))"
  shows "leases_from db w \<and> sessions_grow cd db w"
  using run unfolding apply_renew_replay_lease_def Let_def
proof (cases rule: lease_handler_cases)
  case (clock e)
  then show ?thesis by (auto intro: from_store)
next
  case (body clock w1 xs)
  note e = expiry_leases_from [OF body(3) keyed]
  have "leases_from db (w1\<lparr>gd_leases := (gd_leases w1)\<lparr>ls_leases := tput (ls_leases (gd_leases w1)) (ln_lease request) r,
      ls_clock := c\<rparr>\<rparr>)"
    if "tget (ls_leases (gd_leases db)) (ln_lease request) = Some l" "lease_renewed l x y = Inr r" for l x y r c
    using that(2) by (intro leases_from_put [OF e(1) that(1)]) (auto simp: lease_renewed_def split: if_splits)
  with body(1,4) e(1,2) show ?thesis
    by (auto intro!: from_store split: option.splits if_splits sum.splits)
qed (simp add: sessions_grow_def)

lemma release_from:
  assumes run: "apply_release_replay_lease cd db request ob db = (w, result)"
    and keyed: "leases_keyed (ls_leases (gd_leases db))"
  shows "leases_from db w \<and> sessions_grow cd db w"
  using run unfolding apply_release_replay_lease_def Let_def
proof (cases rule: lease_handler_cases)
  case (clock e)
  then show ?thesis by (auto intro: from_store)
next
  case (body clock w1 xs)
  note e = expiry_leases_from [OF body(3) keyed]
  have "leases_from db (w1\<lparr>gd_leases := (gd_leases w1)\<lparr>ls_leases := tput (ls_leases (gd_leases w1)) (le_lease request)
      (lease_released l), ls_budget := b, ls_clock := c\<rparr>, gd_log := lg\<rparr>)"
    if "tget (ls_leases (gd_leases db)) (le_lease request) = Some l" for l b c lg
    by (intro leases_from_put [OF e(1) that]) (simp_all add: lease_released_def)
  with body(1,4) e(1,2) show ?thesis
    by (auto intro!: from_store split: option.splits if_splits)
qed (simp add: sessions_grow_def)

lemma maintain_from:
  assumes run: "apply_maintain_retention db p c mr mb ob db = Inr (w, result)"
    and keyed: "leases_keyed (ls_leases (gd_leases db))"
  shows "leases_from db w \<and> sessions_grow cd db w"
proof (cases "w = db")
  case False
  with run obtain clock w1 xs where e: "expire_due_leases db clock db = (w1, xs)"
    and w: "gd_mutations w = gd_mutations w1" "ls_leases (gd_leases w) = ls_leases (gd_leases w1)"
    by (auto simp: apply_maintain_retention_def Let_def bind_result_Inr simp del: maintain_loop.simps
        split: if_splits sum.splits prod.splits)
  note f = expiry_leases_from [OF e keyed]
  show ?thesis
    using f w by (intro conjI sessions_grow_same) (simp_all add: leases_from_cong [OF w(2)])
qed (simp add: sessions_grow_def)

text \<open>Handlers that leave the leases alone.\<close>

lemma traced_frame: "gd_leases w = gd_leases db \<Longrightarrow> gd_mutations w = gd_mutations db \<Longrightarrow> traced_step cd db w"
  by (intro traced_stepI sessions_grow_same) (simp_all add: leases_from_def)

lemma checkpoint_traced:
  assumes "apply_checkpoint_mutation cd db m db = Inr (w, result)"
  shows "traced_step cd db w"
  using assms by (cases rule: apply_checkpoint_cases) (auto intro!: traced_store simp: leases_from_def)

lemma security_traced: "traced_step cd db (fst (apply_security_mutation cd db mutation db))"
  by (auto simp: apply_security_mutation_def Let_def leases_from_def intro!: traced_store
      split: option.splits sum.splits prod.splits)

lemma secured_transport_traced:
  assumes "apply_secured_transport cd db request topology policy db = Inr (w, result)"
  shows "traced_step cd db w"
  using assms
  by (auto simp: apply_secured_transport_def Let_def bind_result_Inr leases_from_def intro!: traced_store
      split: if_splits option.splits)

end
