(* ===== verification/Administration_Effects.thy ===== *)
theory Administration_Effects
  imports Group_Effects
begin

text \<open>
  The invariant of the administration state: at most one operation is active, it is the one stored under
  its request, and every other stored operation has ended. The lemmas give the effect of every
  administration handler: it keeps the invariant, touches nothing but the administration state and the
  receipts, and starts an operation only when no export runs.
\<close>

section \<open>Administration\<close>

definition admin_ok :: "admin_state \<Rightarrow> bool" where
  "admin_ok ad \<longleftrightarrow>
     (\<forall>r op. tget (ad_requests ad) r = Some op \<longrightarrow> ai_request (ao_intent op) = r) \<and>
     (case ad_active ad of
        None \<Rightarrow> \<forall>r op. tget (ad_requests ad) r = Some op \<longrightarrow> ao_lifecycle op \<noteq> AdminPending
      | Some a \<Rightarrow> tget (ad_requests ad) (ai_request (ao_intent a)) = Some a \<and>
          (\<forall>rev. ao_lifecycle a \<noteq> AdminComplete rev) \<and>
          (\<forall>r op. tget (ad_requests ad) r = Some op \<and> ao_lifecycle op = AdminPending \<longrightarrow> op = a))"

lemma admin_ok_cong:
  "ad_requests b = ad_requests a \<Longrightarrow> ad_active b = ad_active a \<Longrightarrow> admin_ok b = admin_ok a"
  by (simp add: admin_ok_def split: option.split)

lemma admin_ok_simps [simp]:
  "admin_ok (ad\<lparr>ad_cluster_topology := t\<rparr>) = admin_ok ad" "admin_ok (ad\<lparr>ad_security_policy := s\<rparr>) = admin_ok ad"
  "admin_ok (ad\<lparr>ad_operational_proof := o1\<rparr>) = admin_ok ad"
  by (rule admin_ok_cong; simp)+

lemma admin_ok_begin:
  assumes "admin_ok ad" "ad_active ad = None" "tget (ad_requests ad) (ai_request intent) = None"
  shows "admin_ok (ad\<lparr>ad_requests := tput (ad_requests ad) (ai_request intent) (AdministrationOperation_pending intent),
    ad_active := Some (AdministrationOperation_pending intent)\<rparr>)"
  using assms by (auto simp: admin_ok_def AdministrationOperation_pending_def split: if_splits)

lemma admin_ok_end:
  assumes "admin_ok ad" "tget (ad_requests ad) r = Some op" "ad_active ad = Some a" "ai_request (ao_intent a) = r"
    and "ao_intent op' = ao_intent op" "ao_lifecycle op' \<noteq> AdminPending"
    and "act = None \<or> act = Some op' \<and> (\<forall>rev. ao_lifecycle op' \<noteq> AdminComplete rev)"
  shows "admin_ok (ad\<lparr>ad_requests := tput (ad_requests ad) r op', ad_active := act\<rparr>)"
proof -
  have a: "op = a" "ai_request (ao_intent op) = r" using assms(1-4) by (auto simp: admin_ok_def)
  have pending: "tget (ad_requests ad) q = Some p \<Longrightarrow> ao_lifecycle p = AdminPending \<Longrightarrow> p = a \<and> q = r" for q p
    using assms(1,3,4) a unfolding admin_ok_def by auto
  show ?thesis
    using assms(1,5-7) a pending unfolding admin_ok_def by (auto split: if_splits option.splits)
qed

text \<open>Administration touches the administration state and receipts, and starts an operation only when no export runs.\<close>

definition admin_frame :: "group_db \<Rightarrow> group_db \<Rightarrow> bool" where
  "admin_frame db w \<longleftrightarrow>
     gd_identity w = gd_identity db \<and> gd_receipt_window w = gd_receipt_window db \<and>
     gd_active_bank w = gd_active_bank db \<and> gd_log w = gd_log db \<and> gd_producers w = gd_producers db \<and>
     gd_bookmarks w = gd_bookmarks db \<and> gd_stream_bookmarks w = gd_stream_bookmarks db \<and>
     gd_leases w = gd_leases db \<and> gd_checkpoints w = gd_checkpoints db \<and>
     gd_catalog w = gd_catalog db \<and> gd_export w = gd_export db"

definition admin_effect :: "group_db \<Rightarrow> group_db \<Rightarrow> bool" where
  "admin_effect db w \<longleftrightarrow> admin_frame db w \<and> (admin_ok (gd_admin db) \<longrightarrow> admin_ok (gd_admin w)) \<and>
     (ad_active (gd_admin w) = None \<or> ad_active (gd_admin db) \<noteq> None \<or>
      ex_active (gd_export db) = None \<and> \<not> kind_is_data db)"

lemma admin_effect_refl [simp]: "admin_effect db db"
  by (auto simp: admin_effect_def admin_frame_def)

lemma admin_effect_store [simp]:
  "admin_effect db (store_mutation_result cd db' r fp res w) =
    (admin_frame db w \<and> (admin_ok (gd_admin db) \<longrightarrow> admin_ok (gd_admin w)) \<and>
     (ad_active (gd_admin w) = None \<or> ad_active (gd_admin db) \<noteq> None \<or>
      ex_active (gd_export db) = None \<and> \<not> kind_is_data db))"
proof -
  have "gd_admin (store_mutation_result cd db' r fp res w) = gd_admin w" by simp
  then show ?thesis by (simp add: admin_effect_def admin_frame_def)
qed

lemma begin_administration_effect:
  assumes "apply_begin_administration cd db intent db = Inr (w, result)"
  shows "admin_effect db w \<and> gd_mutations w = gd_mutations db"
proof (cases "w = db")
  case False
  from assms False have c: "\<not> kind_is_data db" "tget (ad_requests (gd_admin db)) (ai_request intent) = None"
    "ex_active (gd_export db) = None" "ad_active (gd_admin db) = None"
    by (auto simp: apply_begin_administration_def Let_def split: if_splits option.splits)
  from assms False c obtain t tr where
    "ad_cluster_topology (gd_admin db) = Some t" "transitional_topology cd db t intent = Inr tr"
    by (auto simp: apply_begin_administration_def Let_def bind_result_Inr split: sum.splits) (metis sum.exhaust)
  with assms c have "w = (let wa = (case tr of None \<Rightarrow> gd_admin db | Some t \<Rightarrow> (gd_admin db)\<lparr>ad_cluster_topology := Some t\<rparr>)
      in db\<lparr>gd_admin := wa\<lparr>ad_requests := tput (ad_requests wa) (ai_request intent) (AdministrationOperation_pending intent),
        ad_active := Some (AdministrationOperation_pending intent)\<rparr>\<rparr>)"
    by (simp add: apply_begin_administration_def Let_def)
  then show ?thesis
    using c admin_ok_begin by (auto simp: admin_effect_def admin_frame_def Let_def split: option.splits)
qed simp


lemma complete_administration_effect:
  assumes "apply_complete_administration cd db request db = Inr (w, result)"
  shows "admin_effect db w \<and> gd_mutations w = gd_mutations db"
proof (cases "w = db")
  case False
  from assms False obtain op a where
    c: "tget (ad_requests (gd_admin db)) request = Some op" "ad_active (gd_admin db) = Some a"
      "ai_request (ao_intent a) = request" "ao_lifecycle op = AdminPending" "ai_request (ao_intent op) = request"
      "\<not> kind_is_data db"
    by (auto simp: apply_complete_administration_def Let_def split: if_splits option.splits)
  from assms False c obtain topology where
    w: "w = db\<lparr>gd_admin := (gd_admin db)\<lparr>ad_cluster_topology := Some topology,
       ad_requests := tput (ad_requests (gd_admin db)) request (administration_completed op (tp_revision topology)),
       ad_active := None\<rparr>\<rparr>"
    by (auto simp: apply_complete_administration_def Let_def bind_result_Inr split: sum.splits) (metis sum.exhaust)
  have "admin_ok (gd_admin w)" if "admin_ok (gd_admin db)"
  proof (rule iffD1 [OF admin_ok_cong])
    show "admin_ok ((gd_admin db)\<lparr>ad_requests := tput (ad_requests (gd_admin db)) request
        (administration_completed op (tp_revision topology)), ad_active := None\<rparr>)"
      using admin_ok_end [OF that c(1-3), of "administration_completed op (tp_revision topology)" None]
      by (simp add: administration_completed_def)
  qed (simp_all add: w)
  then show ?thesis by (simp add: admin_effect_def admin_frame_def w)
qed simp

lemma abort_administration_effect:
  assumes "apply_abort_administration cd db request db = Inr (w, result)"
  shows "admin_effect db w \<and> gd_mutations w = gd_mutations db"
proof (cases "w = db")
  case False
  from assms False obtain op a where
    c: "tget (ad_requests (gd_admin db)) request = Some op" "ad_active (gd_admin db) = Some a"
      "ai_request (ao_intent a) = request" "\<not> kind_is_data db" "ao_lifecycle op = AdminPending"
    by (auto simp: apply_abort_administration_def Let_def split: if_splits option.splits)
  from assms False c obtain current where t: "ad_cluster_topology (gd_admin db) = Some current"
    by (auto simp: apply_abort_administration_def Let_def bind_result_Inr)
  have end_ok: "admin_ok (gd_admin db) \<Longrightarrow> admin_ok ((gd_admin db)\<lparr>ad_requests := tput (ad_requests (gd_admin db)) request
      (administration_aborted op rev), ad_active := Some (administration_aborted op rev)\<rparr>)" for rev
    using admin_ok_end [OF _ c(1-3), of "administration_aborted op rev" "Some (administration_aborted op rev)"]
    by (simp add: administration_aborted_def)
  show ?thesis
  proof (cases "ao_intent op")
    case (TransferLeader r g n)
    with assms c t have "w = db\<lparr>gd_admin := (gd_admin db)\<lparr>ad_requests := tput (ad_requests (gd_admin db)) request
        (administration_aborted op (tp_revision current)), ad_active := Some (administration_aborted op (tp_revision current))\<rparr>\<rparr>"
      by (simp add: apply_abort_administration_def Let_def)
    with end_ok c(2) show ?thesis by (simp add: admin_effect_def admin_frame_def)
  next
    case (ReplaceVoter r expected rem add)
    show ?thesis
    proof (cases "replacement_abort (cd_parse_uri cd) current expected rem add")
      case (Inl e)
      with assms c t ReplaceVoter False show ?thesis by (simp add: apply_abort_administration_def Let_def)
    next
      case (Inr n)
      with assms c t ReplaceVoter have w: "w = db\<lparr>gd_admin := (gd_admin db)\<lparr>ad_cluster_topology := Some n,
          ad_requests := tput (ad_requests (gd_admin db)) request (administration_aborted op (tp_revision n)),
          ad_active := Some (administration_aborted op (tp_revision n))\<rparr>\<rparr>"
        by (simp add: apply_abort_administration_def Let_def)
      have "admin_ok (gd_admin w)" if "admin_ok (gd_admin db)"
        by (rule iffD1 [OF admin_ok_cong end_ok [OF that]]) (simp_all add: w)
      with c(2) show ?thesis by (simp add: admin_effect_def admin_frame_def w)
    qed
  qed
qed simp

lemma finish_abort_effect:
  "admin_effect db (fst (apply_finish_administration_abort db request db)) \<and>
    gd_mutations (fst (apply_finish_administration_abort db request db)) = gd_mutations db"
proof (cases "fst (apply_finish_administration_abort db request db) = db")
  case False
  then obtain op a rev where
    c: "tget (ad_requests (gd_admin db)) request = Some op" "ad_active (gd_admin db) = Some a"
      "ai_request (ao_intent a) = request" "ao_lifecycle op = AdminAborted rev"
    by (auto simp: apply_finish_administration_abort_def split: if_splits option.splits AdministrationLifecycle.splits)
  then have w: "fst (apply_finish_administration_abort db request db) = db\<lparr>gd_admin := (gd_admin db)\<lparr>ad_active := None\<rparr>\<rparr>"
    by (simp add: apply_finish_administration_abort_def)
  have "admin_ok ((gd_admin db)\<lparr>ad_active := None\<rparr>)" if "admin_ok (gd_admin db)"
  proof -
    have "a = op" using that c(1-3) by (auto simp: admin_ok_def)
    with that c(2,4) show ?thesis by (auto simp: admin_ok_def)
  qed
  with w show ?thesis by (simp add: admin_effect_def admin_frame_def)
qed simp

lemma policy_effects:
  "admin_effect db (fst (apply_initialize_cluster_topology db topology db)) \<and>
    gd_mutations (fst (apply_initialize_cluster_topology db topology db)) = gd_mutations db"
  "admin_effect db (fst (apply_initialize_security_policy db policy db)) \<and>
    gd_mutations (fst (apply_initialize_security_policy db policy db)) = gd_mutations db"
  "admin_effect db (fst (apply_security_mutation cd db mutation db))"
  by (auto simp: apply_initialize_cluster_topology_def apply_initialize_security_policy_def apply_security_mutation_def
      admin_effect_def admin_frame_def Let_def split: option.splits sum.splits prod.splits)

lemma secured_transport_effect:
  assumes "apply_secured_transport cd db request topology policy db = Inr (w, result)"
  shows "admin_effect db w"
  using assms
  by (auto simp: apply_secured_transport_def Let_def bind_result_Inr admin_frame_def split: if_splits option.splits)

lemma operational_probe_effect:
  assumes "apply_operational_probe db l grp db = Inr (w, result)"
  shows "admin_effect db w \<and> gd_mutations w = gd_mutations db"
  using assms by (auto simp: apply_operational_probe_def Let_def admin_effect_def admin_frame_def split: if_splits)

end
