(* ===== verification/Export_Effects.thy ===== *)
theory Export_Effects
  imports Administration_Effects
begin

text \<open>
  The invariant of the export state of a group and what the export commands change. The active export
  of a control group holds its fence and its epoch is the newest; a fence is released by its own token
  only; a release hands every reclaim hint back to the cursors.
\<close>

section \<open>Invariant\<close>

definition epoch_of :: "export_state \<Rightarrow> u64" where
  "epoch_of ex = (case ex_epoch ex of None \<Rightarrow> 0 | Some e \<Rightarrow> e)"

definition held_token :: "group_db \<Rightarrow> ExportFenceToken option" where
  "held_token db = map_option hf_token (mf_held (mutation_fence_state db))"

definition export_ok :: "group_db \<Rightarrow> bool" where
  "export_ok db \<longleftrightarrow>
     fence_decodes (mutation_fence_state db) \<and>
     (if kind_is_data db then ex_active (gd_export db) = None \<and> ad_active (gd_admin db) = None
      else mf_through_epoch (mutation_fence_state db) \<le> epoch_of (gd_export db) \<and>
        (case ex_active (gd_export db) of
           None \<Rightarrow> held_token db = None
         | Some a \<Rightarrow> held_token db = Some (es_token (ae_spec a)) \<and> export_wf a \<and> ad_active (gd_admin db) = None \<and>
             es_epoch (ae_spec a) \<le> epoch_of (gd_export db)))"

lemma export_fenced_held: "export_fenced db \<longleftrightarrow> held_token db \<noteq> None"
  by (simp add: export_fenced_def held_token_def)

lemma export_ok_cong:
  assumes "gd_identity w = gd_identity db" "mutation_fence_state w = mutation_fence_state db"
    and "ex_active (gd_export w) = ex_active (gd_export db)" "ex_epoch (gd_export w) = ex_epoch (gd_export db)"
    and "ad_active (gd_admin w) = ad_active (gd_admin db)"
  shows "export_ok w = export_ok db"
  using assms by (simp add: export_ok_def kind_is_data_def held_token_def epoch_of_def split: option.split)

section \<open>Effect of the commands\<close>

definition export_frame :: "group_db \<Rightarrow> group_db \<Rightarrow> bool" where
  "export_frame db w \<longleftrightarrow> w = db\<lparr>gd_export := gd_export w\<rparr>"

text \<open>Only the release of a data fence changes more than the export state.\<close>

definition released_frame :: "group_db \<Rightarrow> group_db \<Rightarrow> bool" where
  "released_frame db w \<longleftrightarrow> w = resume_deferred_reclaim db (db\<lparr>gd_export := gd_export w\<rparr>)"

text \<open>The token that a command may take the fence away from.\<close>

fun releases :: "ExportCommand \<Rightarrow> ExportFenceToken option" where
  "releases (ReleaseFence token) = Some token"
| "releases (ExportFinish token) = Some token"
| "releases _ = None"

definition export_effect :: "ExportCommand \<Rightarrow> group_db \<Rightarrow> group_db \<Rightarrow> bool" where
  "export_effect c db w \<longleftrightarrow>
     (export_frame db w \<and> (kind_is_data db \<and> export_fenced db \<longrightarrow> export_fenced w) \<or>
      (\<exists>token. c = ReleaseFence token) \<and> kind_is_data db \<and> held_token w = None \<and> released_frame db w) \<and>
     (export_ok db \<longrightarrow> export_ok w) \<and>
     (\<forall>h. mf_held (mutation_fence_state db) = Some h \<longrightarrow>
        mf_held (mutation_fence_state w) = Some h \<or>
        mf_held (mutation_fence_state w) = None \<and> releases c = Some (hf_token h))"

lemma export_effect_refl [simp]: "export_effect c db db"
  by (simp add: export_effect_def export_frame_def)

lemma fence_put_simps [simp]:
  "mutation_fence_state (put_fence f w) = f"
  "mutation_fence_state (w\<lparr>gd_export := ex\<lparr>ex_active := a\<rparr>\<rparr>) = mutation_fence_state (w\<lparr>gd_export := ex\<rparr>)"
  "mutation_fence_state (w\<lparr>gd_log := lg\<rparr>) = mutation_fence_state w"
  "gd_export (put_fence f w) = (gd_export w)\<lparr>ex_fence := Some f\<rparr>" "gd_identity (put_fence f w) = gd_identity w"
  "gd_admin (put_fence f w) = gd_admin w" "gd_log (put_fence f w) = gd_log w"
  by (simp_all add: put_fence_def mutation_fence_state_def)


lemma active_update_effect:
  assumes "\<not> kind_is_data db" "ex_active (gd_export db) = Some a" "export_step a e b"
  shows "export_effect c db (db\<lparr>gd_export := (gd_export db)\<lparr>ex_active := Some b\<rparr>\<rparr>)"
proof -
  let ?w = "db\<lparr>gd_export := (gd_export db)\<lparr>ex_active := Some b\<rparr>\<rparr>"
  have held: "mutation_fence_state ?w = mutation_fence_state db" by simp
  have "export_ok ?w" if "export_ok db"
    using that assms(1,2) export_step_wf [OF assms(3)] export_step_spec [OF assms(3)] held
    by (simp add: export_ok_def kind_is_data_def held_token_def epoch_of_def)
  then show ?thesis by (simp add: export_effect_def export_frame_def export_fenced_def)
qed

lemma store_active_effect:
  assumes "\<not> kind_is_data db" "ex_active (gd_export db) = Some a"
    and "\<And>b. r = Inr b \<Longrightarrow> \<exists>e. export_step a e b"
  shows "export_effect c db (fst (store_active_export r db))"
  using assms by (cases r) (auto simp: store_active_export_def dest!: assms(3) intro: active_update_effect)

lemma control_active_Some:
  "control_active_export db = Some a \<longleftrightarrow> \<not> kind_is_data db \<and> ex_active (gd_export db) = Some a"
  by (simp add: control_active_export_def)

lemma update_active_effect:
  assumes "\<And>a b. f a = Inr b \<Longrightarrow> \<exists>e. export_step a e b"
  shows "export_effect c db (fst (update_active_export db token f db))"
  by (auto simp: update_active_export_def control_active_Some split: option.split
      intro!: store_active_effect assms)

lemma map_err_Inr: "(case x of Inl _ \<Rightarrow> Inl e | Inr v \<Rightarrow> Inr v) = Inr b \<longleftrightarrow> x = Inr b"
  by (cases x) simp_all

lemma start_export_Inr:
  assumes s: "start_export db l intent deadline db = Inr (w, result)" and changed: "w \<noteq> db"
  obtains groups epoch spec ct fence ob where
    "checked_add (epoch_of (gd_export db)) 1 = Some epoch" "ExportSpec_try_new intent epoch groups deadline = Inr spec"
    "fence_acquire (mutation_fence_state db) (es_token spec) ct = Inr (fence, ob)"
    "w = db\<lparr>gd_export := (gd_export db)\<lparr>ex_epoch := Some epoch, ex_fence := Some fence,
      ex_active := Some (ActiveExport_preparing spec ct)\<rparr>\<rparr>"
proof -
  from s obtain groups n epoch where n: "checked_add (epoch_of (gd_export db)) 1 = Some n"
    and epoch: "ExportEpoch_new n = Inr epoch"
    and rest: "(case ExportSpec_try_new intent epoch groups deadline of
        Inl e \<Rightarrow> Inr (db, Rejected e)
      | Inr spec \<Rightarrow>
          bind_result (group_cut db l) (\<lambda>control_cut.
          (case fence_acquire (mutation_fence_state db) (es_token spec) control_cut of
             Inl e \<Rightarrow> Inr (db, Rejected e)
           | Inr (fence, _) \<Rightarrow>
               (let active = ActiveExport_preparing spec control_cut;
                    w = put_fence fence (db\<lparr>gd_export := (gd_export db)\<lparr>ex_epoch := Some n\<rparr>\<rparr>)
                in Inr (w\<lparr>gd_export := (gd_export w)\<lparr>ex_active := Some active\<rparr>\<rparr>, export_active_status active))))) = Inr (w, result)"
    unfolding start_export_def epoch_of_def bind_result_Inr ok_or_Inr map_err_Inr by blast
  have en: "epoch = n" using epoch by (auto simp: ExportEpoch_new_def nonzero_new_def split: if_splits)
  from rest changed obtain spec ct fence ob where "ExportSpec_try_new intent epoch groups deadline = Inr spec"
    "fence_acquire (mutation_fence_state db) (es_token spec) ct = Inr (fence, ob)"
    "w = db\<lparr>gd_export := (gd_export db)\<lparr>ex_epoch := Some n, ex_fence := Some fence,
      ex_active := Some (ActiveExport_preparing spec ct)\<rparr>\<rparr>"
    by (cases "ExportSpec_try_new intent epoch groups deadline")
      (auto simp: bind_result_Inr put_fence_def Let_def split: sum.splits prod.splits,
        metis sum.exhaust prod.exhaust)
  with n en show thesis by (auto intro: that)
qed

lemma begin_export_effect:
  assumes run: "apply_begin_export cd db l intent deadline db = Inr (w, result)"
  shows "export_effect (ExportBegin intent deadline) db w"
proof (cases "w = db")
  case False
  with run have c: "\<not> kind_is_data db" "ex_active (gd_export db) = None" "ad_active (gd_admin db) = None"
    and s: "start_export db l intent deadline db = Inr (w, result)"
    by (auto simp: apply_begin_export_def split: if_splits option.splits sum.splits)
  from s False obtain groups epoch spec ct fence ob where
    e: "checked_add (epoch_of (gd_export db)) 1 = Some epoch" "ExportSpec_try_new intent epoch groups deadline = Inr spec"
    "fence_acquire (mutation_fence_state db) (es_token spec) ct = Inr (fence, ob)"
    and w: "w = db\<lparr>gd_export := (gd_export db)\<lparr>ex_epoch := Some epoch, ex_fence := Some fence,
      ex_active := Some (ActiveExport_preparing spec ct)\<rparr>\<rparr>"
    by (rule start_export_Inr)
  have epoch: "epoch_of (gd_export db) < epoch" "es_epoch spec = epoch" "ft_epoch (es_token spec) = epoch"
    using e(1,2) by (auto simp: checked_add_Some word_less_nat_alt ExportSpec_try_new_def es_token_def
        ExportFenceToken_new_def Let_def split: if_splits)
  have fence: "mutation_fence_state w = fence" by (simp add: w mutation_fence_state_def)
  have held: "mf_held (mutation_fence_state db) = Some h \<Longrightarrow> mf_held fence = Some h" for h
    using e(3) by (auto simp: fence_acquire_def Let_def split: if_splits option.splits)
  have "export_ok w" if ok: "export_ok db"
  proof -
    from ok c have through: "mf_through_epoch (mutation_fence_state db) \<le> epoch_of (gd_export db)"
      and free: "mf_held (mutation_fence_state db) = None" and dec: "fence_decodes (mutation_fence_state db)"
      by (simp_all add: export_ok_def held_token_def)
    have "\<not> ft_epoch (es_token spec) \<le> mf_through_epoch (mutation_fence_state db)" using through epoch by order
    with e(3) free have "mf_held fence = Some \<lparr>hf_token = es_token spec, hf_cut = ct\<rparr>"
      by (auto simp: fence_acquire_def Let_def)
    moreover have "mf_through_epoch fence \<le> epoch" using fence_acquire_through [OF e(3)] through epoch(1) by order
    moreover have "fence_decodes fence" by (rule fence_acquire_decodes [OF dec e(3)])
    moreover have "export_wf (ActiveExport_preparing spec ct)" by (rule export_preparing_wf [OF e(2)])
    ultimately show ?thesis using c epoch fence
      by (simp add: export_ok_def held_token_def w kind_is_data_def epoch_of_def ActiveExport_preparing_def)
  qed
  with held c(1) show ?thesis by (simp add: export_effect_def export_frame_def fence) (simp add: w)
qed simp


lemma acquire_fence_effect:
  assumes run: "apply_acquire_export_fence db l token db = Inr (w, result)"
  shows "export_effect (AcquireFence token) db w"
proof (cases "w = db")
  case False
  with run have data: "kind_is_data db" by (auto simp: apply_acquire_export_fence_def split: if_splits)
  from run False data obtain ct where ct: "group_cut db l = Inr ct"
    by (auto simp: apply_acquire_export_fence_def bind_result_Inr)
  obtain fence ob where f: "fence_acquire (mutation_fence_state db) token ct = Inr (fence, ob)"
    and w: "w = put_fence fence db"
    using run False data ct
    by (cases "fence_acquire (mutation_fence_state db) token ct") (auto simp: apply_acquire_export_fence_def)
  have "mf_held (mutation_fence_state db) = Some h \<Longrightarrow> mf_held fence = Some h" for h
    using f by (auto simp: fence_acquire_def Let_def split: if_splits option.splits)
  moreover have "export_ok w" if "export_ok db"
    using that data fence_acquire_decodes [OF _ f] by (simp add: export_ok_def w kind_is_data_def)
  ultimately show ?thesis
    by (simp add: export_effect_def export_frame_def export_fenced_def w) (auto simp: put_fence_def)
qed simp

lemma fence_release_cases:
  assumes "fence_release_for_group f token grp = Inr (f', ob)"
  shows "mf_held f' = None" "mf_held f = None \<or> (\<exists>h. mf_held f = Some h \<and> hf_token h = token)"
    "mf_through_epoch f' = max (mf_through_epoch f) (ft_epoch token)"
  using assms by (auto simp: fence_release_for_group_def Let_def split: if_splits option.splits)

lemma resume_deferred_simps [simp]:
  "gd_export (resume_deferred_reclaim db w) = gd_export w" "gd_identity (resume_deferred_reclaim db w) = gd_identity w"
  "gd_admin (resume_deferred_reclaim db w) = gd_admin w"
  "mutation_fence_state (resume_deferred_reclaim db w) = mutation_fence_state w"
  by (simp_all add: resume_deferred_reclaim_def mutation_fence_state_def)

lemma release_fence_effect:
  assumes run: "apply_release_export_fence db token db = (w, result)"
  shows "export_effect (ReleaseFence token) db w"
proof (cases "w = db")
  case False
  with run obtain fence ob where data: "kind_is_data db"
    and f: "fence_release_for_group (mutation_fence_state db) token (gi_group_id (gd_identity db)) = Inr (fence, ob)"
    and w: "w = resume_deferred_reclaim db (put_fence fence db)"
    by (auto simp: apply_release_export_fence_def split: if_splits sum.splits prod.splits)
  have "released_frame db w" by (simp add: released_frame_def w) (simp add: put_fence_def)
  moreover have "held_token w = None" using fence_release_cases(1) [OF f] by (simp add: w held_token_def)
  moreover have "export_ok w" if "export_ok db"
    using that data fence_release_decodes [OF f] by (simp add: export_ok_def w kind_is_data_def)
  ultimately show ?thesis
    using data fence_release_cases(1,2) [OF f] by (auto simp: export_effect_def w)
qed simp

lemma finish_export_effect:
  assumes run: "apply_finish_export cd db token db = (w, result)"
  shows "export_effect (ExportFinish token) db w"
proof (cases "w = db")
  case False
  obtain a where ca: "control_active_export db = Some a"
    using run False by (cases "control_active_export db") (simp_all add: apply_finish_export_def)
  have token: "es_token (ae_spec a) = token"
    using run False ca by (cases "es_token (ae_spec a) = token") (simp_all add: apply_finish_export_def)
  have c: "\<not> kind_is_data db" "ex_active (gd_export db) = Some a" "es_token (ae_spec a) = token"
    using ca token by (simp_all add: control_active_Some)
  obtain receipt where r: "export_receipt_of a = Inr receipt"
    using run False ca by (cases "export_receipt_of a") (simp_all add: apply_finish_export_def token)
  obtain fence ob where f: "fence_release_for_group (mutation_fence_state db) token (gi_group_id (gd_identity db)) = Inr (fence, ob)"
    using run False ca c(3) r
    by (cases "fence_release_for_group (mutation_fence_state db) token (gi_group_id (gd_identity db))")
      (simp_all add: apply_finish_export_def, metis prod.exhaust)
  from run ca c(3) r f obtain rs ss where "w = evict_export_receipts cd db (xr_request receipt)
      (db\<lparr>gd_export := (gd_export db)\<lparr>ex_fence := Some fence, ex_active := None, ex_receipts := rs, ex_sessions := ss\<rparr>\<rparr>)"
    by (simp add: apply_finish_export_def put_fence_def Let_def) blast
  then obtain rs where eq: "w = db\<lparr>gd_export := (gd_export db)\<lparr>ex_fence := Some fence, ex_active := None, ex_sessions := ss,
      ex_receipts := rs\<rparr>\<rparr>"
    by (simp add: evict_export_receipts_def Let_def)
  then have w: "w = db\<lparr>gd_export := gd_export w\<rparr>" "ex_active (gd_export w) = None" "ex_fence (gd_export w) = Some fence"
      "ex_epoch (gd_export w) = ex_epoch (gd_export db)"
    by simp_all
  have same: "gd_identity w = gd_identity db" "gd_admin w = gd_admin db" by (subst w(1), simp)+
  have fence: "mutation_fence_state w = fence" using w(3) by (simp add: mutation_fence_state_def)
  have "export_ok w" if ok: "export_ok db"
  proof -
    have "ft_epoch token = es_epoch (ae_spec a)" using c(3) by (auto simp: es_token_def ExportFenceToken_new_def)
    with ok c have "mf_through_epoch fence \<le> epoch_of (gd_export db)"
      using fence_release_cases(3) [OF f] by (simp add: export_ok_def)
    then show ?thesis
      using fence_release_cases(1) [OF f] fence_release_decodes [OF f] c(1) same
      by (simp add: export_ok_def fence w(2,4) kind_is_data_def held_token_def epoch_of_def)
  qed
  moreover have "export_frame db w" unfolding export_frame_def by (rule w(1))
  ultimately show ?thesis
    using fence_release_cases(1,2) [OF f] c(1) by (auto simp: export_effect_def fence)
qed simp

lemma apply_export_effect:
  assumes "apply_export cd db l c db = Inr (w, result)"
  shows "export_effect c db w"
proof (cases c)
  case (ExportBegin intent deadline)
  with assms begin_export_effect show ?thesis by (auto simp: apply_export_def)
next
  case (AcquireFence token)
  with assms acquire_fence_effect show ?thesis by (auto simp: apply_export_def)
next
  case (RecordFence token ob)
  have "export_effect c db (fst (update_active_export db token (\<lambda>a. record_fence a ob) db))"
    by (rule update_active_effect) (blast intro: ev_fence)
  with assms RecordFence show ?thesis by (simp add: apply_export_def)
next
  case (BeginMaterialization token)
  have "export_effect c db (fst (update_active_export db token begin_materialization db))"
    by (rule update_active_effect) (blast intro: ev_materialize)
  with assms BeginMaterialization show ?thesis by (simp add: apply_export_def)
next
  case (PublishArtifact token artifact ct)
  have "export_effect c db (fst (update_active_export db token (\<lambda>a. publish_artifact a artifact ct) db))"
    by (rule update_active_effect) (blast intro: ev_publish)
  with assms PublishArtifact show ?thesis by (simp add: apply_export_def)
next
  case (RequestCompletion request export artifact)
  have "export_effect c db (fst (apply_request_export_completion cd db request export artifact db))"
    by (auto simp: apply_request_export_completion_def control_active_Some split: option.split
        intro!: store_active_effect intro: ev_complete)
  with assms RequestCompletion show ?thesis by (simp add: apply_export_def)
next
  case (RequestAbort request reason observed)
  have "export_effect c db (fst (apply_request_export_abort cd db request reason observed db))"
    by (auto simp: apply_request_export_abort_def control_active_Some split: option.split
        intro!: store_active_effect intro: ev_abort)
  with assms RequestAbort show ?thesis by (simp add: apply_export_def)
next
  case (ReleaseFence token)
  with assms release_fence_effect show ?thesis by (simp add: apply_export_def)
next
  case (RecordRelease token ob)
  have "export_effect c db (fst (update_active_export db token (\<lambda>a. record_release a ob) db))"
    by (rule update_active_effect) (blast intro: ev_release)
  with assms RecordRelease show ?thesis by (simp add: apply_export_def)
next
  case (ExportFinish token)
  with assms finish_export_effect show ?thesis by (simp add: apply_export_def)
qed


section \<open>Handing the hints back\<close>

lemma fold_tdel_filter: "fold (\<lambda>(k, _) t. tdel t k) hs t = filter (\<lambda>e. fst e \<notin> fst ` set hs) t"
proof (induction hs arbitrary: t)
  case (Cons h hs)
  then show ?case by (cases h) (auto simp: tdel_def intro: filter_cong)
qed simp

lemma resume_fold:
  assumes "tsorted hs"
  shows "fold (\<lambda>(p, hinted) lg.
      (let ret = retention_of lg0 p
       in lg\<lparr>lg_retention := tput (lg_retention lg) p (ret\<lparr>pr_reclaim_cursor := min (pr_reclaim_cursor ret) hinted\<rparr>),
             lg_reclaim_hint := tdel (lg_reclaim_hint lg) p\<rparr>)) hs lg =
    lg\<lparr>lg_retention := fold (\<lambda>(p, hinted) t. tput t p ((retention_of lg0 p)
         \<lparr>pr_reclaim_cursor := min (pr_reclaim_cursor (retention_of lg0 p)) hinted\<rparr>)) hs (lg_retention lg),
       lg_reclaim_hint := fold (\<lambda>(k, _) t. tdel t k) hs (lg_reclaim_hint lg)\<rparr>"
  using assms by (induction hs arbitrary: lg) (auto simp: Let_def tsorted_Cons)

lemma tget_fold_put:
  "tsorted hs \<Longrightarrow> tget (fold (\<lambda>(p, h) t. tput t p (f p h)) hs t) q =
    (case tget hs q of None \<Rightarrow> tget t q | Some h \<Rightarrow> Some (f q h))"
proof (induction hs arbitrary: t)
  case (Cons h hs)
  show ?case
  proof (cases "fst h = q")
    case True
    with Cons.prems have "tget hs q = None" by (auto simp: tsorted_Cons intro: tget_below)
    with Cons True show ?thesis by (cases h) (simp add: tsorted_Cons)
  next
    case False
    with Cons show ?thesis by (cases h) (auto simp: tsorted_Cons split: option.split)
  qed
qed simp

lemma resume_log:
  assumes "tsorted (lg_reclaim_hint (gd_log db))" "gd_log v = gd_log db"
  defines "lg \<equiv> gd_log (resume_deferred_reclaim db v)"
  shows "lg_reclaim_hint lg = []" "lg_records lg = lg_records (gd_log db)"
    "lg_next_offset lg = lg_next_offset (gd_log db)" "lg_owners lg = lg_owners (gd_log db)"
    "lg_payload lg = lg_payload (gd_log db)"
    "retention_of lg p = (case tget (lg_reclaim_hint (gd_log db)) p of None \<Rightarrow> retention_of (gd_log db) p
       | Some h \<Rightarrow> (retention_of (gd_log db) p)
           \<lparr>pr_reclaim_cursor := min (pr_reclaim_cursor (retention_of (gd_log db) p)) h\<rparr>)"
proof -
  let ?put = "\<lambda>p hinted. (retention_of (gd_log db) p)
    \<lparr>pr_reclaim_cursor := min (pr_reclaim_cursor (retention_of (gd_log db) p)) hinted\<rparr>"
  have lg: "lg = (gd_log db)\<lparr>lg_retention := fold (\<lambda>(p, hinted) t. tput t p (?put p hinted))
        (lg_reclaim_hint (gd_log db)) (lg_retention (gd_log db)),
      lg_reclaim_hint := filter (\<lambda>e. fst e \<notin> fst ` set (lg_reclaim_hint (gd_log db))) (lg_reclaim_hint (gd_log db))\<rparr>"
    unfolding lg_def resume_deferred_reclaim_def assms(2)
    by (simp only: resume_fold [OF assms(1)] fold_tdel_filter) simp
  then show "lg_reclaim_hint lg = []" "lg_records lg = lg_records (gd_log db)"
    "lg_next_offset lg = lg_next_offset (gd_log db)" "lg_owners lg = lg_owners (gd_log db)"
    "lg_payload lg = lg_payload (gd_log db)" by simp_all
  show "retention_of lg p = (case tget (lg_reclaim_hint (gd_log db)) p of None \<Rightarrow> retention_of (gd_log db) p
       | Some h \<Rightarrow> ?put p h)"
    by (simp add: lg retention_of_def [of "log_state.lg_retention_update _ _"] retention_of_def tget_or_def
        tget_fold_put [OF assms(1)] split: option.split)
qed

lemma resume_retention:
  assumes sorted: "tsorted (lg_reclaim_hint (gd_log db))" and v: "gd_log v = gd_log db" "gd_leases v = gd_leases db"
    and ok: "retention_ok db"
  shows "retention_ok (resume_deferred_reclaim db v)" "log_evolves (gd_log db) (gd_log (resume_deferred_reclaim db v))"
proof -
  let ?w = "resume_deferred_reclaim db v" and ?t = "ls_leases (gd_leases db)"
  note r = resume_log [OF sorted v(1)] and D = retention_okD [OF ok]
  define lg where "lg = (gd_log ?w)\<lparr>lg_reclaim_hint := lg_reclaim_hint (gd_log db)\<rparr>"
  have lg: "retention_of lg = retention_of (gd_log ?w)" "records_of lg = records_of (gd_log ?w)" "next_offset lg = next_offset (gd_log ?w)"
    "floor_of lg = floor_of (gd_log ?w)"
    by (auto simp: lg_def retention_of_def records_of_def next_offset_def floor_of_def fun_eq_iff)
  have low: "lowered (gd_log db) lg"
    by (auto simp: lowered_def lg r same_but_cursor_def split: option.split) (auto simp: lg_def r)
  have recs: "records_of (gd_log ?w) = records_of (gd_log db)" by (simp add: records_of_def r fun_eq_iff)
  from lowered_log_ok [OF low D(1)] have "log_ok (gd_log ?w)"
    using lg by (simp add: log_ok_def partition_ok_def lg_def)
  moreover have leases: "gd_leases ?w = gd_leases db" by (simp add: resume_deferred_reclaim_def v)
  moreover have "leases_backed (gd_log ?w) ?t" using D(5) recs by (simp add: leases_backed_def)
  moreover have "no_leak (gd_log ?w) ?t"
    unfolding no_leak_def
  proof (intro allI impI)
    fix p off assume a: "records_of (gd_log ?w) p off \<noteq> None \<and> off < pr_reclaim_cursor (retention_of (gd_log ?w) p)"
    have "off < pr_reclaim_cursor (retention_of (gd_log db) p)"
      using a by (auto simp: r split: option.splits)
    with a recs D(6) have "(\<exists>l. live_lease ?t l \<and> rg_partition (rl_range l) = p \<and> range_contains (rl_range l) off) \<or>
        (\<exists>h \<le> off. tget (lg_reclaim_hint (gd_log db)) p = Some h)" unfolding no_leak_def by metis
    moreover have "h \<le> off \<Longrightarrow> tget (lg_reclaim_hint (gd_log db)) p \<noteq> Some h" for h
      using a by (auto simp: r not_le)
    ultimately show "(\<exists>l. live_lease ?t l \<and> rg_partition (rl_range l) = p \<and> range_contains (rl_range l) off) \<or>
        (\<exists>h \<le> off. tget (lg_reclaim_hint (gd_log ?w)) p = Some h)" by blast
  qed
  ultimately show "retention_ok ?w" using D by (simp add: retention_ok_def lease_budget_of_def)
  show "log_evolves (gd_log db) (gd_log ?w)" using lowered_evolves(1) [OF low] lg by (simp add: log_evolves_def)
qed

end
