(* ===== verification/Group_Invariant.thy ===== *)
theory Group_Invariant
  imports Lease_Origins Export_Effects
begin

text \<open>
  The invariant of a group, \<open>group_ok\<close>: the invariants of the components, and the ones that span them.
  Reclaim hints exist only under a fence; a control group holds no records and no leases; the active
  export of a control group holds its fence; an export and an administration operation are never
  active at once. One lemma per kind of effect shows that the invariant is kept.
\<close>

section \<open>Reclaim hints\<close>

definition hints_ok :: "group_db \<Rightarrow> bool" where
  "hints_ok db \<longleftrightarrow> tsorted (lg_reclaim_hint (gd_log db)) \<and> (export_fenced db \<or> lg_reclaim_hint (gd_log db) = [])"

lemma put_hints_sorted: "tsorted (lg_reclaim_hint lg) \<Longrightarrow> tsorted (lg_reclaim_hint (put_hints db hs lg))"
  unfolding put_hints_def by (induction hs arbitrary: lg) (auto simp: put_hint_def)

lemma expire_hints_sorted:
  assumes "expire_due_leases db clock db = (w, xs)" "tsorted (lg_reclaim_hint (gd_log db))"
  shows "tsorted (lg_reclaim_hint (gd_log w))"
proof -
  let ?due = "filter (lease_due clock) (map snd (ls_leases (gd_leases db)))"
  let ?st = "(\<lparr>xs_budget = lease_budget_of db, xs_active = [], xs_retentions = [], xs_reclaim_hints = []\<rparr>, db)"
  obtain ys v where f: "fold (expire_lease db) ?due ?st = (ys, v)" by fastforce
  have "gd_log v = gd_log db" using fold_expire_log [of db ?due ?st] f by simp
  moreover have "gd_log w = gd_log v \<or>
      gd_log w = put_hints db (xs_reclaim_hints ys) (put_retentions (xs_retentions ys) (gd_log v))"
    using assms(1) f by (auto simp: expire_due_leases_def expire_loop_fold Let_def split: if_splits)
  ultimately show ?thesis using assms(2) by (auto intro!: put_hints_sorted simp: put_retentions_def)
qed

lemma release_range_sorted:
  "tsorted (lg_reclaim_hint lg) \<Longrightarrow> tsorted (lg_reclaim_hint (release_range db xs r lg))"
  by (simp add: release_range_def Let_def put_hint_def)

lemma lease_hints_sorted:
  assumes "tsorted (lg_reclaim_hint (gd_log db))"
  shows "apply_admit_replay_lease cd db r1 ob db = (w, result) \<Longrightarrow> tsorted (lg_reclaim_hint (gd_log w))"
    "apply_renew_replay_lease cd db r2 ob db = (w, result) \<Longrightarrow> tsorted (lg_reclaim_hint (gd_log w))"
    "apply_release_replay_lease cd db r3 ob db = (w, result) \<Longrightarrow> tsorted (lg_reclaim_hint (gd_log w))"
proof -
  have expired: "tsorted (lg_reclaim_hint (gd_log v))" if "expire_due_leases db clock db = (v, xs)" for clock v xs
    by (rule expire_hints_sorted [OF that assms])
  have ranged: "tsorted (lg_reclaim_hint (release_range db xs r (gd_log v)))"
    if "expire_due_leases db clock db = (v, xs)" for clock v xs r
    by (rule release_range_sorted [OF expired [OF that]])
  show "apply_admit_replay_lease cd db r1 ob db = (w, result) \<Longrightarrow> tsorted (lg_reclaim_hint (gd_log w))"
    unfolding apply_admit_replay_lease_def Let_def
    by (erule lease_handler_cases) (use assms expired in \<open>auto split: sum.splits\<close>)
  show "apply_renew_replay_lease cd db r2 ob db = (w, result) \<Longrightarrow> tsorted (lg_reclaim_hint (gd_log w))"
    unfolding apply_renew_replay_lease_def Let_def
    by (erule lease_handler_cases) (use assms expired in \<open>auto split: sum.splits option.splits if_splits\<close>)
  show "apply_release_replay_lease cd db r3 ob db = (w, result) \<Longrightarrow> tsorted (lg_reclaim_hint (gd_log w))"
    unfolding apply_release_replay_lease_def Let_def
    by (erule lease_handler_cases) (use assms expired ranged in \<open>auto split: option.splits if_splits\<close>)
qed

section \<open>The invariant\<close>

definition control_ok :: "group_db \<Rightarrow> bool" where
  "control_ok db \<longleftrightarrow> kind_is_data db \<or>
     lg_next_offset (gd_log db) = [] \<and> lg_reclaim_hint (gd_log db) = [] \<and> ls_leases (gd_leases db) = []"

definition group_ok :: "codec \<Rightarrow> group_db \<Rightarrow> bool" where
  "group_ok cd db \<longleftrightarrow> publish_ok db \<and> retention_ok db \<and> checkpoints_ok db \<and> catalog_ok (gd_catalog db) \<and>
     admin_ok (gd_admin db) \<and> control_ok db \<and> hints_ok db \<and> export_ok db \<and> leases_traced cd db"

lemma group_okD:
  assumes "group_ok cd db"
  shows "publish_ok db" "retention_ok db" "checkpoints_ok db" "catalog_ok (gd_catalog db)" "admin_ok (gd_admin db)"
    "control_ok db" "hints_ok db" "export_ok db" "leases_traced cd db" "leases_keyed (ls_leases (gd_leases db))"
    "log_ok (gd_log db)"
  using assms by (simp_all add: group_ok_def retention_ok_def)


lemma fence_cong:
  assumes "gd_export w = gd_export db"
  shows "mutation_fence_state w = mutation_fence_state db" "held_token w = held_token db"
    "export_fenced w = export_fenced db"
  using assms by (simp_all add: mutation_fence_state_def held_token_def export_fenced_def)

lemma kind_cong: "gd_identity w = gd_identity db \<Longrightarrow> kind_is_data w = kind_is_data db"
  by (simp add: kind_is_data_def)

lemma export_ok_frame:
  "gd_identity w = gd_identity db \<Longrightarrow> gd_export w = gd_export db \<Longrightarrow> gd_admin w = gd_admin db \<Longrightarrow> export_ok w = export_ok db"
  by (rule export_ok_cong) (simp_all add: fence_cong [of w db])

lemma checkpoints_ok_mono:
  assumes "checkpoints_ok db" "gd_checkpoints w = gd_checkpoints db" "\<And>p. next_offset (gd_log db) p \<le> next_offset (gd_log w) p"
  shows "checkpoints_ok w"
  unfolding checkpoints_ok_def
proof (intro allI impI)
  fix p consumer c assume "tget (gd_checkpoints w) (p, consumer) = Some c"
  with assms(1,2) have "cc_next_offset (cp_cursor c) \<le> next_offset (gd_log db) p" by (simp add: checkpoints_ok_def)
  with assms(3) [of p] show "cc_next_offset (cp_cursor c) \<le> next_offset (gd_log w) p" by order
qed

lemma next_offset_cong: "lg_next_offset lg' = lg_next_offset lg \<Longrightarrow> next_offset lg' = next_offset lg"
  by (simp add: next_offset_def fun_eq_iff)

lemma control_ok_cong:
  "gd_identity w = gd_identity db \<Longrightarrow> lg_next_offset (gd_log w) = lg_next_offset (gd_log db) \<Longrightarrow>
    lg_reclaim_hint (gd_log w) = lg_reclaim_hint (gd_log db) \<Longrightarrow> ls_leases (gd_leases w) = ls_leases (gd_leases db) \<Longrightarrow> control_ok w = control_ok db"
  by (simp add: control_ok_def kind_is_data_def)

lemma hints_ok_cong:
  "lg_reclaim_hint (gd_log w) = lg_reclaim_hint (gd_log db) \<Longrightarrow> gd_export w = gd_export db \<Longrightarrow> hints_ok w = hints_ok db"
  by (simp add: hints_ok_def fence_cong [of w db])

lemma publish_ok_cong:
  "gd_log w = gd_log db \<Longrightarrow> gd_bookmarks w = gd_bookmarks db \<Longrightarrow> gd_producers w = gd_producers db \<Longrightarrow>
    gd_receipt_window w = gd_receipt_window db \<Longrightarrow> publish_ok w = publish_ok db"
  by (simp add: publish_ok_def)

text \<open>What a command leaves alone keeps its part of the invariant.\<close>

lemma group_ok_outside_log:
  assumes ok: "group_ok cd db" and f: "gd_identity w = gd_identity db" "gd_log w = gd_log db" "gd_leases w = gd_leases db"
    and rest: "publish_ok w" "checkpoints_ok w" "catalog_ok (gd_catalog w)" "admin_ok (gd_admin w)" "export_ok w"
    and fence: "export_fenced w = export_fenced db" and grow: "sessions_grow cd db w"
  shows "group_ok cd w"
proof -
  note D = group_okD [OF ok]
  have "leases_traced cd w" by (rule leases_traced_frame [OF D(9) f(3) grow])
  moreover have "retention_ok w" using D(2) f retention_ok_cong [of w db] by simp
  moreover have "control_ok w" using D(6) f control_ok_cong [of w db] by simp
  moreover have "hints_ok w" using D(7) f(2) fence by (simp add: hints_ok_def)
  ultimately show ?thesis using rest by (simp add: group_ok_def)
qed

section \<open>Every kind of effect keeps it\<close>

lemma group_ok_publish:
  assumes ok: "group_ok cd db" and eff: "publish_ok w" "log_extends (gd_log db) (gd_log w)" "publish_frame db w"
    and data: "kind_is_data db"
  shows "group_ok cd w"
proof -
  have f: "gd_identity w = gd_identity db" "gd_export w = gd_export db" "gd_admin w = gd_admin db" "gd_leases w = gd_leases db"
    "gd_mutations w = gd_mutations db" "gd_checkpoints w = gd_checkpoints db" "gd_catalog w = gd_catalog db"
    by (subst eff(3) [unfolded publish_frame_def], simp)+
  note D = group_okD [OF ok]
  have "retention_ok w" using eff(1) by (intro retention_ok_extends [OF D(2) eff(2) _ f(4)]) (simp add: publish_ok_def)
  moreover have "checkpoints_ok w" using eff(2) by (intro checkpoints_ok_mono [OF D(3) f(6)]) (simp add: log_extends_def)
  moreover have "hints_ok w"
    using D(7) eff(2) hints_ok_cong [OF _ f(2)] by (simp add: log_extends_def same_retention_def)
  moreover have "leases_traced cd w" by (rule leases_traced_frame [OF D(9) f(4) sessions_grow_same [OF f(5)]])
  moreover have "export_ok w" using D(8) export_ok_frame [OF f(1-3)] by simp
  moreover have "control_ok w" using data kind_cong [OF f(1)] by (simp add: control_ok_def)
  ultimately show ?thesis using eff(1) D(4,5) f by (simp add: group_ok_def)
qed

lemma group_ok_bookmarks:
  assumes ok: "group_ok cd db" and frame: "w = db\<lparr>gd_bookmarks := gd_bookmarks w\<rparr>" and bk: "bookmarks_ok (gd_bookmarks w)"
  shows "group_ok cd w"
proof -
  have f: "gd_identity w = gd_identity db" "gd_log w = gd_log db" "gd_leases w = gd_leases db" "gd_export w = gd_export db"
    "gd_admin w = gd_admin db" "gd_mutations w = gd_mutations db" "gd_checkpoints w = gd_checkpoints db"
    "gd_catalog w = gd_catalog db" "gd_producers w = gd_producers db" "gd_receipt_window w = gd_receipt_window db"
    by (subst frame, simp)+
  note D = group_okD [OF ok]
  show ?thesis
  proof (rule group_ok_outside_log [OF ok f(1-3)])
    show "publish_ok w" using D(1) bk f by (simp add: publish_ok_def)
    show "checkpoints_ok w" using D(3) f by (simp add: checkpoints_ok_def)
    show "export_ok w" using D(8) export_ok_frame [OF f(1,4,5)] by simp
  qed (use D(4,5) f in \<open>simp_all add: fence_cong [OF f(4)] sessions_grow_same\<close>)
qed

lemma group_ok_stream_bookmarks:
  assumes ok: "group_ok cd db" and frame: "w = db\<lparr>gd_stream_bookmarks := gd_stream_bookmarks w\<rparr>"
  shows "group_ok cd w"
proof -
  have f: "gd_identity w = gd_identity db" "gd_log w = gd_log db" "gd_leases w = gd_leases db" "gd_export w = gd_export db"
    "gd_admin w = gd_admin db" "gd_mutations w = gd_mutations db" "gd_checkpoints w = gd_checkpoints db"
    "gd_catalog w = gd_catalog db" "gd_producers w = gd_producers db" "gd_receipt_window w = gd_receipt_window db"
    "gd_bookmarks w = gd_bookmarks db"
    by (subst frame, simp)+
  note D = group_okD [OF ok]
  show ?thesis
  proof (rule group_ok_outside_log [OF ok f(1-3)])
    show "publish_ok w" using D(1) publish_ok_cong [OF f(2,11,9,10)] by simp
    show "checkpoints_ok w" using D(3) f by (simp add: checkpoints_ok_def)
    show "export_ok w" using D(8) export_ok_frame [OF f(1,4,5)] by simp
  qed (use D(4,5) f in \<open>simp_all add: fence_cong [OF f(4)] sessions_grow_same\<close>)
qed

lemma group_ok_checkpoint:
  assumes ok: "group_ok cd db" and run: "apply_checkpoint_mutation cd db m db = Inr (w, result)"
  shows "group_ok cd w"
proof -
  note D = group_okD [OF ok]
  have f: "gd_identity w = gd_identity db" "gd_log w = gd_log db" "gd_leases w = gd_leases db" "gd_export w = gd_export db"
    "gd_admin w = gd_admin db" "gd_catalog w = gd_catalog db" "gd_producers w = gd_producers db"
    "gd_receipt_window w = gd_receipt_window db" "gd_bookmarks w = gd_bookmarks db"
    using run by (cases rule: apply_checkpoint_cases; simp)+
  have "checkpoint_step cd db m w" using run by (auto intro: checkpoint_step.intros)
  from checkpoint_step_ok [OF this D(3)] have c: "checkpoints_ok w" .
  show ?thesis
  proof (rule group_ok_outside_log [OF ok f(1-3) _ c])
    show "publish_ok w" using D(1) publish_ok_cong [OF f(2,9,7,8)] by simp
    show "export_ok w" using D(8) export_ok_frame [OF f(1,4,5)] by simp
    show "sessions_grow cd db w" using checkpoint_traced [OF run] by (simp add: traced_step_def)
  qed (use D(4,5) f in \<open>simp_all add: fence_cong [OF f(4)]\<close>)
qed


text \<open>Leases and retention: the table of leases of a control group stays empty.\<close>

lemma tget_empty: "(\<And>k. tget t k = None) \<Longrightarrow> t = []"
  by (cases t) (auto simp: split_paired_all, metis option.distinct(1))

lemma leases_from_empty: "leases_from db w \<Longrightarrow> ls_leases (gd_leases db) = [] \<Longrightarrow> ls_leases (gd_leases w) = []"
  by (rule tget_empty) (auto simp: leases_from_def intro: option.exhaust)

lemma group_ok_retention:
  assumes ok: "group_ok cd db" and eff: "retention_effect db w" and ret: "retention_ok w" and traced: "traced_step cd db w"
    and hints: "tsorted (lg_reclaim_hint (gd_log w))"
    and control: "\<not> kind_is_data db \<Longrightarrow> ls_leases (gd_leases db) = [] \<Longrightarrow> lg_reclaim_hint (gd_log db) = [] \<Longrightarrow>
      ls_leases (gd_leases w) = [] \<and> lg_reclaim_hint (gd_log w) = []"
  shows "group_ok cd w"
proof -
  note D = group_okD [OF ok]
  from eff have f: "gd_identity w = gd_identity db" "gd_receipt_window w = gd_receipt_window db" "gd_producers w = gd_producers db"
    "gd_bookmarks w = gd_bookmarks db" "gd_checkpoints w = gd_checkpoints db" "gd_catalog w = gd_catalog db"
    "gd_admin w = gd_admin db" "gd_export w = gd_export db"
    and tails: "lg_next_offset (gd_log w) = lg_next_offset (gd_log db)"
    and free: "\<not> export_fenced db \<Longrightarrow> lg_reclaim_hint (gd_log w) = lg_reclaim_hint (gd_log db)"
    by (simp_all add: retention_effect_def lease_frame_def)
  have "publish_ok w" using D(1) ret f by (simp add: publish_ok_def retention_ok_def)
  moreover have "checkpoints_ok w" using D(3) f(5) next_offset_cong [OF tails] by (simp add: checkpoints_ok_def)
  moreover have "control_ok w" using D(6) f(1) tails control by (auto simp: control_ok_def kind_is_data_def)
  moreover have "hints_ok w" using D(7) hints free fence_cong(3) [OF f(8)] by (auto simp: hints_ok_def)
  moreover have "export_ok w" using D(8) export_ok_frame [OF f(1,8,7)] by simp
  moreover have "leases_traced cd w" using traced D(9) by (simp add: traced_step_def)
  ultimately show ?thesis using ret D(4,5) f by (simp add: group_ok_def)
qed

lemma admit_control:
  assumes ok: "group_ok cd db" and control: "\<not> kind_is_data db"
  shows "admit_lease cd db request clock budget \<noteq> Inr l"
proof
  assume a: "admit_lease cd db request clock budget = Inr l"
  let ?p = "rg_partition (lr_range request)"
  have tail: "next_offset (gd_log db) ?p = 0"
    using group_okD(6) [OF ok] control by (simp add: control_ok_def next_offset_def tget_or_def)
  from admit_lease_Inr(8) [OF a] obtain off r where "tget (lg_records (gd_log db)) (?p, off) = Some r"
    by (auto simp: replay_range_bytes_def Let_def bind_result_Inr ok_or_Inr)
  then have "records_of (gd_log db) ?p off = Some r" by (simp add: records_of_def)
  with log_okD [OF group_okD(11) [OF ok], of ?p] have "off < next_offset (gd_log db) ?p"
    by (auto simp: chain_ok_def dest: chain_record(1))
  with tail show False by simp
qed

lemma expire_empty:
  assumes "ls_leases (gd_leases db) = []" "expire_due_leases db clock db = (w, xs)"
  shows "w = db"
  using assms by (simp add: expire_due_leases_def)

lemma lease_control:
  assumes ok: "group_ok cd db" and control: "\<not> kind_is_data db" "ls_leases (gd_leases db) = []"
  shows "apply_admit_replay_lease cd db r1 ob db = (w, result) \<Longrightarrow> gd_log w = gd_log db \<and> ls_leases (gd_leases w) = []"
    "apply_renew_replay_lease cd db r2 ob db = (w, result) \<Longrightarrow> gd_log w = gd_log db \<and> ls_leases (gd_leases w) = []"
    "apply_release_replay_lease cd db r3 ob db = (w, result) \<Longrightarrow> gd_log w = gd_log db \<and> ls_leases (gd_leases w) = []"
proof -
  note same = expire_empty [OF control(2)]
  show "gd_log w = gd_log db \<and> ls_leases (gd_leases w) = []" if "apply_admit_replay_lease cd db r1 ob db = (w, result)"
    using that unfolding apply_admit_replay_lease_def Let_def
    by (cases rule: lease_handler_cases)
      (use control admit_control [OF ok control(1)] in \<open>auto dest: same split: sum.splits\<close>)
  show "gd_log w = gd_log db \<and> ls_leases (gd_leases w) = []" if "apply_renew_replay_lease cd db r2 ob db = (w, result)"
    using that unfolding apply_renew_replay_lease_def Let_def
    by (cases rule: lease_handler_cases) (use control in \<open>auto dest: same\<close>)
  show "gd_log w = gd_log db \<and> ls_leases (gd_leases w) = []" if "apply_release_replay_lease cd db r3 ob db = (w, result)"
    using that unfolding apply_release_replay_lease_def Let_def
    by (cases rule: lease_handler_cases) (use control in \<open>auto dest: same\<close>)
qed

lemma group_ok_lease:
  assumes ok: "group_ok cd db"
  shows "apply_admit_replay_lease cd db r1 ob db = (w, result) \<Longrightarrow> lease_ids_apart cd db r1 \<Longrightarrow> group_ok cd w"
    "apply_renew_replay_lease cd db r2 ob db = (w, result) \<Longrightarrow> group_ok cd w"
    "apply_release_replay_lease cd db r3 ob db = (w, result) \<Longrightarrow> group_ok cd w"
proof -
  note D = group_okD [OF ok]
  have sorted: "tsorted (lg_reclaim_hint (gd_log db))" using D(7) by (simp add: hints_ok_def)
  show "group_ok cd w" if run: "apply_admit_replay_lease cd db r1 ob db = (w, result)" and apart: "lease_ids_apart cd db r1"
    by (rule group_ok_retention [OF ok lease_retention_effect [OF admit_effect [OF run D(10)]]
          admit_keeps [OF run D(2) admission_fresh [OF D(9) apart]] admit_traced [OF run D(10)]
          lease_hints_sorted(1) [OF sorted run]]) (simp_all add: lease_control(1) [OF ok _ _ run])
  have traced: "traced_step cd db w" if "leases_from db w \<and> sessions_grow cd db w"
    using that by (blast intro: traced_stepI)
  show "group_ok cd w" if run: "apply_renew_replay_lease cd db r2 ob db = (w, result)"
    by (rule group_ok_retention [OF ok lease_retention_effect [OF renew_effect [OF run D(10)]] renew_keeps [OF run D(2)]
          traced [OF renew_from [OF run D(10)]] lease_hints_sorted(2) [OF sorted run]])
      (simp_all add: lease_control(2) [OF ok _ _ run])
  show "group_ok cd w" if run: "apply_release_replay_lease cd db r3 ob db = (w, result)"
    by (rule group_ok_retention [OF ok lease_retention_effect [OF release_effect [OF run D(10)]] release_keeps [OF run D(2)]
          traced [OF release_from [OF run D(10)]] lease_hints_sorted(3) [OF sorted run]])
      (simp_all add: lease_control(3) [OF ok _ _ run])
qed

lemma group_ok_advance_retention:
  assumes ok: "group_ok cd db" and run: "apply_advance_retention cd db r ob db = (w, result)" and free: "\<not> export_fenced db"
  shows "group_ok cd w"
proof -
  note D = group_okD [OF ok]
  have w: "w = fst (apply_advance_retention cd db r ob db)" by (simp add: run)
  have eff: "retention_effect db w" "traced_step cd db w"
    unfolding w by (rule advance_retention_effect, rule advance_retention_traced)
  moreover have "ls_leases (gd_leases w) = ls_leases (gd_leases db)"
    using run by (auto simp: apply_advance_retention_def Let_def split: if_splits option.splits sum.splits)
  moreover have "lg_reclaim_hint (gd_log w) = []" using eff(1) free D(7) by (auto simp: retention_effect_def hints_ok_def)
  ultimately show ?thesis using advance_retention_keeps [OF run D(2)] by (intro group_ok_retention [OF ok]) simp_all
qed

lemma group_ok_maintain:
  assumes ok: "group_ok cd db" and run: "apply_maintain_retention db p c mr mb ob db = Inr (w, result)"
    and free: "\<not> export_fenced db"
  shows "group_ok cd w"
proof -
  note D = group_okD [OF ok]
  have eff: "retention_effect db w" by (rule maintain_effect [OF run D(2)])
  have "lg_reclaim_hint (gd_log w) = []" using eff free D(7) by (auto simp: retention_effect_def hints_ok_def)
  moreover have "leases_from db w" "traced_step cd db w" using maintain_from [OF run D(10)] by (blast intro: traced_stepI)+
  ultimately show ?thesis
    using maintain_keeps [OF run D(2)] leases_from_empty [of db w] by (intro group_ok_retention [OF ok eff]) simp_all
qed


lemma group_ok_catalog:
  assumes ok: "group_ok cd db" and eff: "catalog_effect db w"
  shows "group_ok cd w"
proof -
  from eff have frame: "w = db\<lparr>gd_catalog := gd_catalog w\<rparr>" unfolding catalog_effect_def by blast
  have f: "gd_identity w = gd_identity db" "gd_log w = gd_log db" "gd_leases w = gd_leases db" "gd_export w = gd_export db"
    "gd_admin w = gd_admin db" "gd_mutations w = gd_mutations db" "gd_checkpoints w = gd_checkpoints db"
    "gd_bookmarks w = gd_bookmarks db" "gd_producers w = gd_producers db" "gd_receipt_window w = gd_receipt_window db"
    by (subst frame, simp)+
  note D = group_okD [OF ok]
  show ?thesis
  proof (rule group_ok_outside_log [OF ok f(1-3)])
    show "publish_ok w" using D(1) publish_ok_cong [OF f(2,8,9,10)] by simp
    show "checkpoints_ok w" using D(3) f by (simp add: checkpoints_ok_def)
    show "export_ok w" using D(8) export_ok_frame [OF f(1,4,5)] by simp
    show "catalog_ok (gd_catalog w)" using eff D(4) unfolding catalog_effect_def by blast
  qed (use D(5) f in \<open>simp_all add: fence_cong [OF f(4)] sessions_grow_same\<close>)
qed

lemma bootstrap_admin:
  "apply_bootstrap db spec k db = (w, result) \<Longrightarrow> gd_admin w = gd_admin db"
  "apply_bootstrap_control db spec t sec gs ms mp db = (w, result) \<Longrightarrow>
    ad_requests (gd_admin w) = ad_requests (gd_admin db) \<and> ad_active (gd_admin w) = ad_active (gd_admin db)"
proof -
  show b: "gd_admin w = gd_admin db" if "apply_bootstrap db spec k db = (w, result)" for k w result
    using that by (auto simp: apply_bootstrap_def Let_def split: if_splits option.splits)
  assume run: "apply_bootstrap_control db spec t sec gs ms mp db = (w, result)"
  obtain w1 r where w1: "apply_bootstrap db spec ControlGroup db = (w1, r)" by fastforce
  show "ad_requests (gd_admin w) = ad_requests (gd_admin db) \<and> ad_active (gd_admin w) = ad_active (gd_admin db)"
    using run b [OF w1] w1
    by (cases r) (auto simp: apply_bootstrap_control_def Let_def split: if_splits option.splits)
qed

lemma group_ok_bootstrap:
  assumes ok: "group_ok cd db" and eff: "bootstrap_effect db w"
    and admin: "ad_requests (gd_admin w) = ad_requests (gd_admin db)" "ad_active (gd_admin w) = ad_active (gd_admin db)"
  shows "group_ok cd w"
proof -
  from eff have frame: "w = db\<lparr>gd_catalog := gd_catalog w, gd_admin := gd_admin w,
      gd_export := (gd_export db)\<lparr>ex_fence := ex_fence (gd_export w)\<rparr>\<rparr>"
    and fence: "mutation_fence_state w = mutation_fence_state db" unfolding bootstrap_effect_def by blast+
  have f: "gd_identity w = gd_identity db" "gd_log w = gd_log db" "gd_leases w = gd_leases db"
    "gd_mutations w = gd_mutations db" "gd_checkpoints w = gd_checkpoints db"
    "gd_bookmarks w = gd_bookmarks db" "gd_producers w = gd_producers db" "gd_receipt_window w = gd_receipt_window db"
    "ex_active (gd_export w) = ex_active (gd_export db)" "ex_epoch (gd_export w) = ex_epoch (gd_export db)"
    by (subst frame, simp)+
  note D = group_okD [OF ok]
  show ?thesis
  proof (rule group_ok_outside_log [OF ok f(1-3)])
    show "publish_ok w" using D(1) publish_ok_cong [OF f(2,6,7,8)] by simp
    show "checkpoints_ok w" using D(3) f by (simp add: checkpoints_ok_def)
    show "export_ok w" using D(8) export_ok_cong [OF f(1) fence f(9,10) admin(2)] by simp
    show "catalog_ok (gd_catalog w)" using eff D(4) unfolding bootstrap_effect_def by blast
    show "admin_ok (gd_admin w)" using D(5) admin_ok_cong [OF admin] by simp
  qed (use f fence in \<open>simp_all add: sessions_grow_same export_fenced_def\<close>)
qed

lemma group_ok_admin:
  assumes ok: "group_ok cd db" and eff: "admin_effect db w" and traced: "traced_step cd db w"
  shows "group_ok cd w"
proof -
  from eff have f: "gd_identity w = gd_identity db" "gd_log w = gd_log db" "gd_leases w = gd_leases db" "gd_export w = gd_export db"
    "gd_checkpoints w = gd_checkpoints db" "gd_bookmarks w = gd_bookmarks db" "gd_producers w = gd_producers db"
    "gd_receipt_window w = gd_receipt_window db" "gd_catalog w = gd_catalog db"
    unfolding admin_effect_def admin_frame_def by blast+
  note D = group_okD [OF ok] and fe = fence_cong [OF f(4)]
  show ?thesis
  proof (rule group_ok_outside_log [OF ok f(1-3)])
    show "publish_ok w" using D(1) publish_ok_cong [OF f(2,6,7,8)] by simp
    show "checkpoints_ok w" using D(3) f by (simp add: checkpoints_ok_def)
    show "admin_ok (gd_admin w)" using eff D(5) unfolding admin_effect_def by blast
    have act: "ad_active (gd_admin w) = None \<or> ad_active (gd_admin db) \<noteq> None \<or>
        ex_active (gd_export db) = None \<and> \<not> kind_is_data db" using eff unfolding admin_effect_def by blast
    show "export_ok w"
    proof (cases "kind_is_data db")
      case True
      with D(8) act f(1,4) fe show ?thesis by (auto simp: export_ok_def kind_is_data_def)
    next
      case False
      with D(8) act f(1,4) fe show ?thesis by (auto simp: export_ok_def kind_is_data_def split: option.splits)
    qed
  qed (use D(4) f fe traced in \<open>simp_all add: traced_step_def\<close>)
qed

lemma group_ok_export:
  assumes ok: "group_ok cd db" and eff: "export_effect c db w"
  shows "group_ok cd w"
proof -
  note D = group_okD [OF ok]
  have sorted: "tsorted (lg_reclaim_hint (gd_log db))" using D(7) by (simp add: hints_ok_def)
  have eok: "export_ok w" using eff D(8) unfolding export_effect_def by blast
  consider (frame) "export_frame db w" "kind_is_data db \<and> export_fenced db \<longrightarrow> export_fenced w"
    | (released) "kind_is_data db" "held_token w = None" "released_frame db w"
    using eff unfolding export_effect_def by metis
  then show ?thesis
  proof cases
    case frame
    have f: "gd_identity w = gd_identity db" "gd_log w = gd_log db" "gd_leases w = gd_leases db" "gd_admin w = gd_admin db"
      "gd_checkpoints w = gd_checkpoints db" "gd_bookmarks w = gd_bookmarks db" "gd_producers w = gd_producers db"
      "gd_receipt_window w = gd_receipt_window db" "gd_catalog w = gd_catalog db" "gd_mutations w = gd_mutations db"
      by (subst frame(1) [unfolded export_frame_def], simp)+
    have "hints_ok w" using D(6,7) frame(2) f(2) by (auto simp: hints_ok_def control_ok_def)
    moreover have "publish_ok w" using D(1) publish_ok_cong [OF f(2,6,7,8)] by simp
    moreover have "retention_ok w" using D(2) retention_ok_cong [of w db] f by simp
    moreover have "checkpoints_ok w" using D(3) f by (simp add: checkpoints_ok_def)
    moreover have "control_ok w" using D(6) control_ok_cong [of w db] f by simp
    moreover have "leases_traced cd w" by (rule leases_traced_frame [OF D(9) f(3) sessions_grow_same [OF f(10)]])
    ultimately show ?thesis using D(4,5) f eok by (simp add: group_ok_def)
  next
    case released
    let ?v = "db\<lparr>gd_export := gd_export w\<rparr>"
    note w = released(3) [unfolded released_frame_def]
    have v: "gd_log ?v = gd_log db" "gd_leases ?v = gd_leases db" by simp_all
    note res = resume_retention [OF sorted v D(2), folded w] and log = resume_log [OF sorted v(1), folded w]
    have f: "gd_identity w = gd_identity db" "gd_leases w = gd_leases db" "gd_admin w = gd_admin db"
      "gd_checkpoints w = gd_checkpoints db" "gd_bookmarks w = gd_bookmarks db" "gd_producers w = gd_producers db"
      "gd_receipt_window w = gd_receipt_window db" "gd_catalog w = gd_catalog db" "gd_mutations w = gd_mutations db"
      by (subst w, simp add: resume_deferred_reclaim_def)+
    have "publish_ok w" using D(1) res(1) f by (simp add: publish_ok_def retention_ok_def)
    moreover have "checkpoints_ok w" using D(3) f next_offset_cong [OF log(3)] by (simp add: checkpoints_ok_def)
    moreover have "control_ok w" using released(1) kind_cong [OF f(1)] by (simp add: control_ok_def)
    moreover have "hints_ok w" using log(1) by (simp add: hints_ok_def)
    moreover have "leases_traced cd w" by (rule leases_traced_frame [OF D(9) f(2) sessions_grow_same [OF f(9)]])
    ultimately show ?thesis using D(4,5) f eok res(1) by (simp add: group_ok_def)
  qed
qed

end
