(* ===== verification/Lease_History.thy ===== *)
theory Lease_History
  imports Group_Invariant
begin

text \<open>
  The life of a lease: no handler forgets a lease, changes the request that admitted it or revives one
  that ended, and renewals only move its expiry forward.
\<close>

definition lease_follows :: "ReplayLease \<Rightarrow> ReplayLease \<Rightarrow> bool" where
  "lease_follows l k \<longleftrightarrow>
     rl_id k = rl_id l \<and> rl_request k = rl_request l \<and> rl_protected_bytes k = rl_protected_bytes l \<and>
     rl_hard_expires_at k = rl_hard_expires_at l \<and> rl_expires_at l \<le> rl_expires_at k \<and>
     (rl_lifecycle l \<noteq> LeaseActive \<longrightarrow> k = l)"

definition leases_follow :: "group_db \<Rightarrow> group_db \<Rightarrow> bool" where
  "leases_follow db w \<longleftrightarrow>
     (\<forall>i l. tget (ls_leases (gd_leases db)) i = Some l \<longrightarrow>
        (\<exists>k. tget (ls_leases (gd_leases w)) i = Some k \<and> lease_follows l k))"

lemma lease_follows_refl [simp]: "lease_follows l l"
  by (simp add: lease_follows_def)

lemma lease_follows_trans: "lease_follows a b \<Longrightarrow> lease_follows b c \<Longrightarrow> lease_follows a c"
  unfolding lease_follows_def by (auto intro: order_trans)

lemma leases_follow_refl [simp]: "leases_follow db db"
  by (simp add: leases_follow_def)

lemma leases_follow_trans: "leases_follow a b \<Longrightarrow> leases_follow b c \<Longrightarrow> leases_follow a c"
  unfolding leases_follow_def by (meson lease_follows_trans)

lemma leases_follow_same: "ls_leases (gd_leases w) = ls_leases (gd_leases db) \<Longrightarrow> leases_follow db w"
  by (simp add: leases_follow_def)

lemma expire_follows: "lease_follows l (expire_if_due clock l)"
  by (simp add: lease_follows_def expire_if_due_def lease_expired_def lease_due_def)

lemma expiry_follows:
  assumes "expire_due_leases db clock db = (w, xs)" "leases_keyed (ls_leases (gd_leases db))"
  shows "leases_follow db w"
  using expire_follows by (auto simp: leases_follow_def expiry_leases_from(3) [OF assms])

text \<open>A lease of the old state replaced by one that follows it, the other leases expired or kept.\<close>

lemma follow_put:
  assumes "leases_follow db w" "ls_leases (gd_leases v) = tput (ls_leases (gd_leases w)) i k"
    and "\<And>l. tget (ls_leases (gd_leases db)) i = Some l \<Longrightarrow> lease_follows l k"
  shows "leases_follow db v"
  using assms by (auto simp: leases_follow_def)

lemma renewed_follows: "lease_renewed l x (rl_hard_expires_at l) = Inr k \<Longrightarrow> lease_follows l k"
  by (auto simp: lease_renewed_def lease_follows_def split: if_splits)

lemma released_follows: "rl_lifecycle l = LeaseActive \<Longrightarrow> lease_follows l (lease_released l)"
  by (simp add: lease_released_def lease_follows_def)

lemma lease_handlers_follow:
  assumes keyed: "leases_keyed (ls_leases (gd_leases db))"
  shows "apply_admit_replay_lease cd db r1 ob db = (w, result) \<Longrightarrow>
      (\<And>fp. prior_mutation_result cd db (lr_request r1) fp = None \<Longrightarrow>
        tget (ls_leases (gd_leases db)) (replay_lease_id cd (lr_request r1)) = None) \<Longrightarrow> leases_follow db w"
    "apply_renew_replay_lease cd db r2 ob db = (w, result) \<Longrightarrow> leases_follow db w"
    "apply_release_replay_lease cd db r3 ob db = (w, result) \<Longrightarrow> leases_follow db w"
proof -
  have stored: "leases_follow db (store_mutation_result cd db' r fp res v) = leases_follow db v" for db' r fp res v
    by (simp add: leases_follow_def)
  show "leases_follow db w" if run: "apply_admit_replay_lease cd db r1 ob db = (w, result)"
    and fresh: "\<And>fp. prior_mutation_result cd db (lr_request r1) fp = None \<Longrightarrow>
        tget (ls_leases (gd_leases db)) (replay_lease_id cd (lr_request r1)) = None"
    using run unfolding apply_admit_replay_lease_def Let_def
  proof (cases rule: lease_handler_cases)
    case (clock e)
    then show ?thesis by (auto simp: stored)
  next
    case (body clock w1 xs)
    note e = expiry_follows [OF body(3) keyed]
    have "leases_follow db (w1\<lparr>gd_leases := (gd_leases w1)\<lparr>ls_leases := tput (ls_leases (gd_leases w1)) (rl_id l) l,
        ls_requests := q, ls_budget := b, ls_clock := c\<rparr>\<rparr>)"
      if "admit_lease cd db r1 clock (xs_budget xs) = Inr l" for l q b c
      using fresh [OF body(1)] admit_lease_Inr(1) [OF that] by (intro follow_put [OF e]) auto
    with body(4) e show ?thesis by (auto simp: stored split: sum.splits)
  qed simp
  show "leases_follow db w" if run: "apply_renew_replay_lease cd db r2 ob db = (w, result)"
    using run unfolding apply_renew_replay_lease_def Let_def
  proof (cases rule: lease_handler_cases)
    case (clock e)
    then show ?thesis by (auto simp: stored)
  next
    case (body clock w1 xs)
    note e = expiry_follows [OF body(3) keyed]
    have "leases_follow db (w1\<lparr>gd_leases := (gd_leases w1)\<lparr>ls_leases := tput (ls_leases (gd_leases w1)) (ln_lease r2) k,
        ls_clock := c\<rparr>\<rparr>)"
      if "tget (ls_leases (gd_leases db)) (ln_lease r2) = Some l" "lease_renewed l x (rl_hard_expires_at l) = Inr k" for l x k c
      using that by (intro follow_put [OF e]) (auto dest: renewed_follows)
    with body(4) e show ?thesis by (auto simp: stored split: sum.splits option.splits if_splits)
  qed simp
  show "leases_follow db w" if run: "apply_release_replay_lease cd db r3 ob db = (w, result)"
    using run unfolding apply_release_replay_lease_def Let_def
  proof (cases rule: lease_handler_cases)
    case (clock e)
    then show ?thesis by (auto simp: stored)
  next
    case (body clock w1 xs)
    note e = expiry_follows [OF body(3) keyed]
    have "leases_follow db (w1\<lparr>gd_leases := (gd_leases w1)\<lparr>ls_leases := tput (ls_leases (gd_leases w1)) (le_lease r3)
        (lease_released l), ls_budget := b, ls_clock := c\<rparr>, gd_log := lg\<rparr>)"
      if "tget (ls_leases (gd_leases db)) (le_lease r3) = Some l" "lease_is_effectively_active l clock" for l b c lg
      using that by (intro follow_put [OF e]) (auto intro: released_follows simp: lease_is_effectively_active_def)
    with body(4) e show ?thesis by (auto simp: stored split: option.splits if_splits)
  qed simp
qed

lemma maintain_follows:
  assumes run: "apply_maintain_retention db p c mr mb ob db = Inr (w, result)"
    and keyed: "leases_keyed (ls_leases (gd_leases db))"
  shows "leases_follow db w"
proof (cases "w = db")
  case False
  with run obtain clock w1 xs where e: "expire_due_leases db clock db = (w1, xs)"
    and w: "ls_leases (gd_leases w) = ls_leases (gd_leases w1)"
    by (auto simp: apply_maintain_retention_def Let_def bind_result_Inr simp del: maintain_loop.simps
        split: if_splits sum.splits prod.splits)
  with expiry_follows [OF e keyed] show ?thesis by (simp add: leases_follow_def)
qed simp

end
