(* ===== verification/Group_Run.thy ===== *)
theory Group_Run
  imports Lease_History
begin

text \<open>
  Runs of a group: sequences of committed entries applied one after the other (\<open>apply_entry\<close>). A command
  has one of ten kinds of effect (\<open>dispatch_effect\<close>); from them follow the step lemmas and the
  properties of runs: the invariant, the history of records, leases and streams, and the fence.
\<close>

section \<open>What a command may assume\<close>

text \<open>
  Bounds and hash collisions: a batch has fewer than \<open>2 ^ 64\<close> records, the publication counter of a
  partition is not exhausted (the code saturates there), and the identifiers the hash gives to two
  requests with a lease differ.
\<close>

fun command_fits :: "codec \<Rightarrow> group_db \<Rightarrow> GroupCommand \<Rightarrow> bool" where
  "command_fits cd db (Publish batch) \<longleftrightarrow> length (pb_records batch) < 2 ^ 64 \<and> publication_open db (pb_partition batch)"
| "command_fits cd db (PublishMany batches) \<longleftrightarrow> (\<forall>b \<in> set batches. length (pb_records b) < 2 ^ 64)"
| "command_fits cd db (CreateBookmark bid p name off) \<longleftrightarrow> publication_open db p"
| "command_fits cd db (AdmitReplayLease request clock) \<longleftrightarrow> lease_ids_apart cd db request"
| "command_fits cd db _ \<longleftrightarrow> True"

section \<open>The effect of a command\<close>

lemma publish_many_effect:
  assumes run: "apply_publish_many cd db l batches db = Inr (w, result)" and ok: "publish_ok db"
    and small: "\<forall>b \<in> set batches. length (pb_records b) < 2 ^ 64"
  shows "w = db \<or> kind_is_data db \<and> publish_ok w \<and> log_extends (gd_log db) (gd_log w) \<and> publish_frame db w"
proof (cases "kind_is_data db \<and> ct_bootstrap (gd_catalog db) \<noteq> None")
  case True
  then obtain spec where spec: "kind_is_data db" "ct_bootstrap (gd_catalog db) = Some spec" by blast
  from run obtain tx outcomes where
    "publish_many_loop cd db l (bs_cluster spec) 0 0 batches (PublishApplyTxn_new db) = Inr (tx, outcomes)"
    "w = tx_write tx"
    unfolding apply_publish_many_run [OF spec] by (auto simp: bind_result_Inr)
  with publish_many_loop_keeps [OF this(1) coherent_start(1)] ok small spec(1) show ?thesis
    by (simp add: coherent_start(2))
next
  case False
  with run show ?thesis by (auto simp: apply_publish_many_def split: if_splits)
qed

lemma apply_publish_control:
  assumes "apply_publish cd db l batch db = Inr (w, result)" "\<not> kind_is_data db"
  shows "w = db"
  using assms by (simp add: apply_publish_def)

lemma stream_bookmark_frames:
  "apply_create_stream_bookmark db bid name vector db = (w, r) \<Longrightarrow> w = db\<lparr>gd_stream_bookmarks := gd_stream_bookmarks w\<rparr>"
  "apply_delete_stream_bookmark db sid bid db = (w, r) \<Longrightarrow> w = db\<lparr>gd_stream_bookmarks := gd_stream_bookmarks w\<rparr>"
  by (auto simp: apply_create_stream_bookmark_def apply_delete_stream_bookmark_def Let_def
      split: if_splits option.splits)

lemma bookmark_frames:
  "apply_create_bookmark db bid p name off db = (w, r) \<Longrightarrow> bookmarks_ok (gd_bookmarks db) \<Longrightarrow> publication_open db p \<Longrightarrow>
    w = db\<lparr>gd_bookmarks := gd_bookmarks w\<rparr> \<and> bookmarks_ok (gd_bookmarks w)"
  "apply_delete_bookmark db p bid db = (w, r) \<Longrightarrow> bookmarks_ok (gd_bookmarks db) \<Longrightarrow>
    w = db\<lparr>gd_bookmarks := gd_bookmarks w\<rparr> \<and> bookmarks_ok (gd_bookmarks w)"
proof -
  assume run: "apply_create_bookmark db bid p name off db = (w, r)" and ok: "bookmarks_ok (gd_bookmarks db)" "publication_open db p"
  note run' = run [unfolded apply_create_bookmark_def]
  have "w = db\<lparr>gd_bookmarks := gd_bookmarks w\<rparr>" using run' by (cases rule: create_bookmark_record_cases) simp_all
  with create_bookmark_record_ok [OF run' ok(1) refl ok(2)]
  show "w = db\<lparr>gd_bookmarks := gd_bookmarks w\<rparr> \<and> bookmarks_ok (gd_bookmarks w)" by blast
next
  assume run: "apply_delete_bookmark db p bid db = (w, r)" and ok: "bookmarks_ok (gd_bookmarks db)"
  have "w = db\<lparr>gd_bookmarks := gd_bookmarks w\<rparr>"
    using run by (auto simp: apply_delete_bookmark_def Let_def split: if_splits option.splits)
  with apply_delete_bookmark_ok [OF run ok refl]
  show "w = db\<lparr>gd_bookmarks := gd_bookmarks w\<rparr> \<and> bookmarks_ok (gd_bookmarks w)" by blast
qed

text \<open>The kinds of effect, with the fence class of the commands that have them.\<close>

inductive effect :: "codec \<Rightarrow> group_db \<Rightarrow> GroupCommand \<Rightarrow> group_db \<Rightarrow> bool" for cd db where
  eff_publish: "kind_is_data db \<Longrightarrow> publish_ok w \<Longrightarrow> log_extends (gd_log db) (gd_log w) \<Longrightarrow> publish_frame db w \<Longrightarrow>
    fence_class c = IncludedMutation \<Longrightarrow> effect cd db c w"
| eff_bookmarks: "w = db\<lparr>gd_bookmarks := gd_bookmarks w\<rparr> \<Longrightarrow> bookmarks_ok (gd_bookmarks w) \<Longrightarrow>
    fence_class c = IncludedMutation \<Longrightarrow> effect cd db c w"
| eff_stream_bookmarks: "w = db\<lparr>gd_stream_bookmarks := gd_stream_bookmarks w\<rparr> \<Longrightarrow>
    fence_class c = IncludedMutation \<Longrightarrow> effect cd db c w"
| eff_checkpoint: "apply_checkpoint_mutation cd db m db = Inr (w, r) \<Longrightarrow> c = CompareAndSetCheckpoint m \<Longrightarrow> effect cd db c w"
| eff_lease: "lease_effect db w \<Longrightarrow> leases_follow db w \<Longrightarrow> group_ok cd w \<Longrightarrow> fence_class c = ExcludedMutation \<Longrightarrow> effect cd db c w"
| eff_retention: "retention_effect db w \<Longrightarrow> leases_follow db w \<Longrightarrow> group_ok cd w \<Longrightarrow> fence_class c = IncludedMutation \<Longrightarrow> effect cd db c w"
| eff_catalog: "catalog_effect db w \<Longrightarrow> fence_class c = IncludedMutation \<Longrightarrow> effect cd db c w"
| eff_bootstrap: "bootstrap_effect db w \<Longrightarrow> ad_requests (gd_admin w) = ad_requests (gd_admin db) \<Longrightarrow>
    ad_active (gd_admin w) = ad_active (gd_admin db) \<Longrightarrow> fence_class c = IncludedMutation \<Longrightarrow> effect cd db c w"
| eff_admin: "admin_effect db w \<Longrightarrow> traced_step cd db w \<Longrightarrow> effect cd db c w"
| eff_export: "export_effect e db w \<Longrightarrow> c = Export e \<Longrightarrow> effect cd db c w"

lemma eff_unchanged: "effect cd db c db"
  by (rule eff_admin) simp_all


lemma admin_traced: "admin_effect db w \<and> gd_mutations w = gd_mutations db \<Longrightarrow> traced_step cd db w"
  unfolding admin_effect_def admin_frame_def by (blast intro: traced_frame)

text \<open>Two groups of commands, so that each proof stays small.\<close>

lemma admin_dispatch_effect:
  assumes run: "dispatch cd db l c db = Inr (w, result)"
    and c: "case c of OperationalProbe _ \<Rightarrow> True | BeginAdministration _ \<Rightarrow> True | CompleteAdministration _ \<Rightarrow> True
      | AbortAdministration _ \<Rightarrow> True | FinishAdministrationAbort _ \<Rightarrow> True | InitializeClusterTopology _ \<Rightarrow> True
      | InitializeSecurityPolicy _ \<Rightarrow> True | ApplySecurityMutation _ \<Rightarrow> True | ActivateSecuredTransport _ _ _ \<Rightarrow> True
      | _ \<Rightarrow> False"
  shows "effect cd db c w"
proof -
  have same: "effect cd db k w" if "admin_effect db w \<and> gd_mutations w = gd_mutations db" for k
    using that admin_traced by (blast intro: eff_admin)
  show ?thesis
  proof (cases c)
    case (ApplySecurityMutation m)
    with run have w: "w = fst (apply_security_mutation cd db m db)" by (simp add: dispatch_def)
    show ?thesis unfolding w by (rule eff_admin [OF policy_effects(3) security_traced])
  next
    case (ActivateSecuredTransport request topology policy)
    with run have "apply_secured_transport cd db request topology policy db = Inr (w, result)" by (simp add: dispatch_def)
    from secured_transport_effect [OF this] secured_transport_traced [OF this] show ?thesis by (rule eff_admin)
  next
    case (FinishAdministrationAbort request)
    with run have "w = fst (apply_finish_administration_abort db request db)" by (simp add: dispatch_def)
    then show ?thesis using finish_abort_effect [of db request] by (intro same) simp
  next
    case (InitializeClusterTopology topology)
    with run have "w = fst (apply_initialize_cluster_topology db topology db)" by (simp add: dispatch_def)
    then show ?thesis using policy_effects(1) [of db topology] by (intro same) simp
  next
    case (InitializeSecurityPolicy policy)
    with run have "w = fst (apply_initialize_security_policy db policy db)" by (simp add: dispatch_def)
    then show ?thesis using policy_effects(2) [of db policy] by (intro same) simp
  qed (use run c in \<open>auto simp: dispatch_def intro!: same
      dest!: begin_administration_effect complete_administration_effect abort_administration_effect operational_probe_effect\<close>)
qed

lemma catalog_dispatch_effect:
  assumes run: "dispatch cd db l c db = Inr (w, result)"
    and c: "case c of BootstrapControl _ _ _ _ _ _ \<Rightarrow> True | BootstrapData _ \<Rightarrow> True | CreateStreamIntent _ _ \<Rightarrow> True
      | ReplicaReady _ _ \<Rightarrow> True | ActivateStream _ \<Rightarrow> True | BeginDeleteStream _ \<Rightarrow> True | FinishDeleteStream _ \<Rightarrow> True
      | _ \<Rightarrow> False"
  shows "effect cd db c w"
proof (cases c)
  case (BootstrapControl spec t sec gs ms mp)
  with run have b: "apply_bootstrap_control db spec t sec gs ms mp db = (w, result)" by (simp add: dispatch_def)
  from bootstrap_control_effect [OF b] bootstrap_admin(2) [OF b] BootstrapControl show ?thesis by (auto intro: eff_bootstrap)
next
  case (BootstrapData spec)
  with run have b: "apply_bootstrap db spec DataGroup db = (w, result)" by (simp add: dispatch_def)
  from bootstrap_data_effect [OF b] bootstrap_admin(1) [OF b] BootstrapData show ?thesis by (auto intro: eff_bootstrap)
next
  case (CreateStreamIntent spec sid)
  with run have "apply_create_stream db spec sid db = Inr (w, result)" by (simp add: dispatch_def)
  from create_stream_effect [OF this] CreateStreamIntent show ?thesis by (auto intro: eff_catalog)
next
  case (ReplicaReady sid grp)
  with run have "w = fst (apply_replica_ready db sid grp db)" by (simp add: dispatch_def)
  with replica_ready_effect [of db sid grp] ReplicaReady show ?thesis by (auto intro: eff_catalog)
next
  case (ActivateStream sid)
  with run have "w = fst (apply_activate_stream db sid db)" by (simp add: dispatch_def)
  with activate_effect [of db sid] ActivateStream show ?thesis by (auto intro: eff_catalog)
next
  case (BeginDeleteStream sid)
  with run have "w = fst (apply_begin_delete db sid db)" by (simp add: dispatch_def)
  with begin_delete_effect [of db sid] BeginDeleteStream show ?thesis by (auto intro: eff_catalog)
next
  case (FinishDeleteStream sid)
  with run have "w = fst (apply_finish_delete db sid db)" by (simp add: dispatch_def)
  with finish_delete_effect [of db sid] FinishDeleteStream show ?thesis by (auto intro: eff_catalog)
qed (use c in simp_all)

lemma record_dispatch_effect:
  assumes run: "dispatch cd db l c db = Inr (w, result)" and ok: "group_ok cd db" and fits: "command_fits cd db c"
    and c: "case c of Publish _ \<Rightarrow> True | PublishMany _ \<Rightarrow> True | CompareAndSetCheckpoint _ \<Rightarrow> True
      | CreateBookmark _ _ _ _ \<Rightarrow> True | DeleteBookmark _ _ \<Rightarrow> True | CreateStreamBookmark _ _ _ \<Rightarrow> True
      | DeleteStreamBookmark _ _ \<Rightarrow> True | Export _ \<Rightarrow> True | _ \<Rightarrow> False"
  shows "effect cd db c w"
proof -
  have pok: "publish_ok db" "bookmarks_ok (gd_bookmarks db)" using group_okD(1) [OF ok] by (simp_all add: publish_ok_def)
  show ?thesis
  proof (cases c)
    case (Publish batch)
    with run have p: "apply_publish cd db l batch db = Inr (w, result)" by (simp add: dispatch_def)
    show ?thesis
    proof (cases "kind_is_data db")
      case True
      with apply_publish_keeps [OF p pok(1)] fits Publish show ?thesis by (auto intro: eff_publish)
    next
      case False
      from apply_publish_control [OF p False] show ?thesis by (simp add: eff_unchanged)
    qed
  next
    case (PublishMany batches)
    with run have "apply_publish_many cd db l batches db = Inr (w, result)" by (simp add: dispatch_def)
    from publish_many_effect [OF this pok(1)] fits PublishMany show ?thesis
      by (auto intro: eff_publish eff_unchanged)
  next
    case (CompareAndSetCheckpoint m)
    with run show ?thesis by (auto simp: dispatch_def intro: eff_checkpoint)
  next
    case (CreateBookmark bid p name off)
    with run have "apply_create_bookmark db bid p name off db = (w, result)" by (simp add: dispatch_def)
    from bookmark_frames(1) [OF this pok(2)] fits CreateBookmark show ?thesis by (auto intro: eff_bookmarks)
  next
    case (DeleteBookmark p bid)
    with run have "apply_delete_bookmark db p bid db = (w, result)" by (simp add: dispatch_def)
    from bookmark_frames(2) [OF this pok(2)] DeleteBookmark show ?thesis by (auto intro: eff_bookmarks)
  next
    case (CreateStreamBookmark bid name vector)
    with run have "apply_create_stream_bookmark db bid name vector db = (w, result)" by (simp add: dispatch_def)
    from stream_bookmark_frames(1) [OF this] CreateStreamBookmark show ?thesis by (auto intro: eff_stream_bookmarks)
  next
    case (DeleteStreamBookmark sid bid)
    with run have "apply_delete_stream_bookmark db sid bid db = (w, result)" by (simp add: dispatch_def)
    from stream_bookmark_frames(2) [OF this] DeleteStreamBookmark show ?thesis by (auto intro: eff_stream_bookmarks)
  next
    case (Export e)
    with run have "apply_export cd db l e db = Inr (w, result)" by (simp add: dispatch_def)
    from apply_export_effect [OF this] Export show ?thesis by (blast intro: eff_export)
  qed (use c in simp_all)
qed

lemma lease_dispatch_effect:
  assumes run: "dispatch cd db l c db = Inr (w, result)" and ok: "group_ok cd db" and fits: "command_fits cd db c"
    and free: "fence_class c = IncludedMutation \<Longrightarrow> \<not> export_fenced db"
    and c: "case c of AdvanceRetention _ _ \<Rightarrow> True | AdmitReplayLease _ _ \<Rightarrow> True | RenewReplayLease _ _ \<Rightarrow> True
      | ReleaseReplayLease _ _ \<Rightarrow> True | MaintainRetention _ _ _ _ _ \<Rightarrow> True | _ \<Rightarrow> False"
  shows "effect cd db c w"
proof -
  note keyed = group_okD(10) [OF ok]
  show ?thesis
  proof (cases c)
    case (AdvanceRetention r ob)
    with run have a: "apply_advance_retention cd db r ob db = (w, result)" by (simp add: dispatch_def)
    then have "retention_effect db w" using advance_retention_effect [of db cd r ob] by simp
    moreover have "leases_follow db w"
      using a by (intro leases_follow_same)
        (auto simp: apply_advance_retention_def Let_def split: if_splits option.splits sum.splits)
    ultimately show ?thesis using group_ok_advance_retention [OF ok a] free AdvanceRetention by (auto intro: eff_retention)
  next
    case (AdmitReplayLease r ob)
    with run have a: "apply_admit_replay_lease cd db r ob db = (w, result)" by (simp add: dispatch_def)
    have "leases_follow db w"
      using fits AdmitReplayLease
      by (intro lease_handlers_follow(1) [OF keyed a] admission_fresh [OF group_okD(9) [OF ok]]) simp_all
    with admit_effect [OF a keyed] group_ok_lease(1) [OF ok a] fits AdmitReplayLease show ?thesis by (auto intro: eff_lease)
  next
    case (RenewReplayLease r ob)
    with run have a: "apply_renew_replay_lease cd db r ob db = (w, result)" by (simp add: dispatch_def)
    from renew_effect [OF a keyed] lease_handlers_follow(2) [OF keyed a] group_ok_lease(2) [OF ok a] RenewReplayLease show ?thesis by (auto intro: eff_lease)
  next
    case (ReleaseReplayLease r ob)
    with run have a: "apply_release_replay_lease cd db r ob db = (w, result)" by (simp add: dispatch_def)
    from release_effect [OF a keyed] lease_handlers_follow(3) [OF keyed a] group_ok_lease(3) [OF ok a] ReleaseReplayLease show ?thesis by (auto intro: eff_lease)
  next
    case (MaintainRetention p cursor mr mb ob)
    with run have a: "apply_maintain_retention db p cursor mr mb ob db = Inr (w, result)" by (simp add: dispatch_def)
    from maintain_effect [OF a group_okD(2) [OF ok]] maintain_follows [OF a keyed] group_ok_maintain [OF ok a] free MaintainRetention show ?thesis
      by (auto intro: eff_retention)
  qed (use c in simp_all)
qed

lemma dispatch_effect:
  assumes "dispatch cd db l c db = Inr (w, result)" "group_ok cd db" "command_fits cd db c"
    and "fence_class c = IncludedMutation \<Longrightarrow> \<not> export_fenced db"
  shows "effect cd db c w"
  by (cases c; use admin_dispatch_effect [OF assms(1)] catalog_dispatch_effect [OF assms(1)]
      record_dispatch_effect [OF assms(1-3)] lease_dispatch_effect [OF assms] in simp)


lemma apply_command_effect:
  assumes run: "apply_command cd db l c db = Inr (w, result)" and ok: "group_ok cd db" and fits: "command_fits cd db c"
  shows "effect cd db c w"
proof (cases "fence_class c = IncludedMutation \<and> export_fenced db")
  case True
  with run have "w = db" by (auto simp: apply_command_def export_fenced_def bind_result_Inr)
  then show ?thesis by (simp add: eff_unchanged)
next
  case False
  then have "dispatch cd db l c db = Inr (w, result)"
    using run by (auto simp: apply_command_def export_fenced_def split: if_splits option.splits)
  from dispatch_effect [OF this ok fits] False show ?thesis by blast
qed

lemma included_under_fence:
  assumes "apply_command cd db l c db = Inr (w, result)" "fence_class c = IncludedMutation" "export_fenced db"
  shows "w = db"
  using assms by (auto simp: apply_command_def export_fenced_def bind_result_Inr)

section \<open>What every effect keeps\<close>

lemma effect_group_ok: "effect cd db c w \<Longrightarrow> group_ok cd db \<Longrightarrow> group_ok cd w"
  by (induction rule: effect.induct)
    (auto intro: group_ok_publish group_ok_bookmarks group_ok_stream_bookmarks group_ok_checkpoint group_ok_catalog
      group_ok_bootstrap group_ok_admin group_ok_export)

text \<open>The fields an effect leaves alone.\<close>

lemma publish_fields:
  assumes "publish_frame db w"
  shows
    "gd_identity w = gd_identity db" "gd_receipt_window w = gd_receipt_window db"
    "gd_active_bank w = gd_active_bank db" "gd_applied w = gd_applied db" "gd_membership w = gd_membership db"
    "gd_mutations w = gd_mutations db" "gd_stream_bookmarks w = gd_stream_bookmarks db"
    "gd_leases w = gd_leases db" "gd_checkpoints w = gd_checkpoints db" "gd_catalog w = gd_catalog db"
    "gd_admin w = gd_admin db" "gd_export w = gd_export db"
  by (subst assms [unfolded publish_frame_def], simp)+

lemma bookmark_fields:
  assumes "w = db\<lparr>gd_bookmarks := gd_bookmarks w\<rparr>"
  shows
    "gd_identity w = gd_identity db" "gd_receipt_window w = gd_receipt_window db"
    "gd_active_bank w = gd_active_bank db" "gd_applied w = gd_applied db" "gd_membership w = gd_membership db"
    "gd_log w = gd_log db" "gd_producers w = gd_producers db" "gd_mutations w = gd_mutations db"
    "gd_stream_bookmarks w = gd_stream_bookmarks db" "gd_leases w = gd_leases db"
    "gd_checkpoints w = gd_checkpoints db" "gd_catalog w = gd_catalog db" "gd_admin w = gd_admin db"
    "gd_export w = gd_export db"
  by (subst assms, simp)+

lemma stream_bookmark_fields:
  assumes "w = db\<lparr>gd_stream_bookmarks := gd_stream_bookmarks w\<rparr>"
  shows
    "gd_identity w = gd_identity db" "gd_receipt_window w = gd_receipt_window db"
    "gd_active_bank w = gd_active_bank db" "gd_applied w = gd_applied db" "gd_membership w = gd_membership db"
    "gd_log w = gd_log db" "gd_producers w = gd_producers db" "gd_mutations w = gd_mutations db"
    "gd_bookmarks w = gd_bookmarks db" "gd_leases w = gd_leases db" "gd_checkpoints w = gd_checkpoints db"
    "gd_catalog w = gd_catalog db" "gd_admin w = gd_admin db" "gd_export w = gd_export db"
  by (subst assms, simp)+

lemma checkpoint_fields:
  assumes "apply_checkpoint_mutation cd db m db = Inr (w, r)"
  shows
    "gd_identity w = gd_identity db" "gd_receipt_window w = gd_receipt_window db"
    "gd_active_bank w = gd_active_bank db" "gd_applied w = gd_applied db" "gd_membership w = gd_membership db"
    "gd_log w = gd_log db" "gd_producers w = gd_producers db" "gd_bookmarks w = gd_bookmarks db"
    "gd_stream_bookmarks w = gd_stream_bookmarks db" "gd_leases w = gd_leases db"
    "gd_catalog w = gd_catalog db" "gd_admin w = gd_admin db" "gd_export w = gd_export db"
  using assms by (cases rule: apply_checkpoint_cases; simp)+

lemma catalog_fields:
  assumes "catalog_effect db w"
  shows
    "gd_identity w = gd_identity db" "gd_receipt_window w = gd_receipt_window db"
    "gd_active_bank w = gd_active_bank db" "gd_applied w = gd_applied db" "gd_membership w = gd_membership db"
    "gd_log w = gd_log db" "gd_producers w = gd_producers db" "gd_mutations w = gd_mutations db"
    "gd_bookmarks w = gd_bookmarks db" "gd_stream_bookmarks w = gd_stream_bookmarks db"
    "gd_leases w = gd_leases db" "gd_checkpoints w = gd_checkpoints db" "gd_admin w = gd_admin db"
    "gd_export w = gd_export db"
  by (subst conjunct1 [OF assms [unfolded catalog_effect_def]], simp)+

lemma bootstrap_fields:
  assumes "bootstrap_effect db w"
  shows
    "gd_identity w = gd_identity db" "gd_receipt_window w = gd_receipt_window db"
    "gd_active_bank w = gd_active_bank db" "gd_applied w = gd_applied db" "gd_membership w = gd_membership db"
    "gd_log w = gd_log db" "gd_producers w = gd_producers db" "gd_mutations w = gd_mutations db"
    "gd_bookmarks w = gd_bookmarks db" "gd_stream_bookmarks w = gd_stream_bookmarks db"
    "gd_leases w = gd_leases db" "gd_checkpoints w = gd_checkpoints db"
    "ex_active (gd_export w) = ex_active (gd_export db)"
  by (subst conjunct1 [OF assms [unfolded bootstrap_effect_def]], simp)+

lemma export_frame_fields:
  assumes "export_frame db w"
  shows
    "gd_identity w = gd_identity db" "gd_receipt_window w = gd_receipt_window db"
    "gd_active_bank w = gd_active_bank db" "gd_applied w = gd_applied db" "gd_membership w = gd_membership db"
    "gd_log w = gd_log db" "gd_producers w = gd_producers db" "gd_mutations w = gd_mutations db"
    "gd_bookmarks w = gd_bookmarks db" "gd_stream_bookmarks w = gd_stream_bookmarks db"
    "gd_leases w = gd_leases db" "gd_checkpoints w = gd_checkpoints db" "gd_catalog w = gd_catalog db"
    "gd_admin w = gd_admin db"
  by (subst assms [unfolded export_frame_def], simp)+

lemma released_frame_fields:
  assumes "released_frame db w"
  shows
    "gd_identity w = gd_identity db" "gd_receipt_window w = gd_receipt_window db"
    "gd_active_bank w = gd_active_bank db" "gd_applied w = gd_applied db" "gd_membership w = gd_membership db"
    "gd_producers w = gd_producers db" "gd_mutations w = gd_mutations db" "gd_bookmarks w = gd_bookmarks db"
    "gd_stream_bookmarks w = gd_stream_bookmarks db" "gd_leases w = gd_leases db"
    "gd_checkpoints w = gd_checkpoints db" "gd_catalog w = gd_catalog db" "gd_admin w = gd_admin db"
  by (subst assms [unfolded released_frame_def], simp add: resume_deferred_reclaim_def)+

lemma export_effect_frames:
  assumes "export_effect e db w"
  shows "export_frame db w \<or> released_frame db w"
  using assms unfolding export_effect_def by blast

lemma effect_identity:
  "effect cd db c w \<Longrightarrow> gd_identity w = gd_identity db \<and> gd_receipt_window w = gd_receipt_window db"
  by (induction rule: effect.induct)
    (auto simp: lease_effect_def retention_effect_def lease_frame_def admin_effect_def admin_frame_def
      dest: publish_fields(1,2) bookmark_fields(1,2) stream_bookmark_fields(1,2) checkpoint_fields(1,2) catalog_fields(1,2)
        bootstrap_fields(1,2) export_frame_fields(1,2) released_frame_fields(1,2) dest!: export_effect_frames)


text \<open>The record index, the leases and the catalog have a history that no effect rewrites.\<close>

definition follows :: "group_db \<Rightarrow> group_db \<Rightarrow> bool" where
  "follows db w \<longleftrightarrow>
     gd_identity w = gd_identity db \<and> log_evolves (gd_log db) (gd_log w) \<and> leases_follow db w \<and>
     catalog_grows (gd_catalog db) (gd_catalog w)"

lemma follows_refl [simp]: "follows db db"
  by (simp add: follows_def)

lemma follows_trans: "follows a b \<Longrightarrow> follows b c \<Longrightarrow> follows a c"
  unfolding follows_def by (auto intro: log_evolves_trans leases_follow_trans catalog_grows_trans)

lemma followsI_same:
  "gd_identity w = gd_identity db \<Longrightarrow> gd_log w = gd_log db \<Longrightarrow> gd_leases w = gd_leases db \<Longrightarrow> gd_catalog w = gd_catalog db \<Longrightarrow>
    follows db w"
  by (simp add: follows_def leases_follow_same)

lemma effect_follows:
  assumes "effect cd db c w" "group_ok cd db"
  shows "follows db w"
  using assms(1)
proof cases
  case eff_publish
  note f = publish_fields [OF eff_publish(4)]
  from eff_publish(3) show ?thesis by (simp add: follows_def extends_evolves f leases_follow_same)
next
  case eff_bookmarks
  from bookmark_fields [OF eff_bookmarks(1)] show ?thesis by (intro followsI_same)
next
  case eff_stream_bookmarks
  from stream_bookmark_fields [OF eff_stream_bookmarks(1)] show ?thesis by (intro followsI_same)
next
  case (eff_checkpoint m r)
  from checkpoint_fields [OF eff_checkpoint(1)] show ?thesis by (intro followsI_same)
next
  case eff_lease
  then show ?thesis by (simp add: follows_def lease_effect_def lease_frame_def)
next
  case eff_retention
  then show ?thesis by (simp add: follows_def retention_effect_def lease_frame_def)
next
  case eff_catalog
  with catalog_fields [OF eff_catalog(1)] group_okD(4) [OF assms(2)] show ?thesis
    by (simp add: follows_def leases_follow_same) (simp add: catalog_effect_def)
next
  case eff_bootstrap
  with bootstrap_fields [OF eff_bootstrap(1)] group_okD(4) [OF assms(2)] show ?thesis
    by (simp add: follows_def leases_follow_same) (simp add: bootstrap_effect_def)
next
  case eff_admin
  then show ?thesis by (intro followsI_same) (simp_all add: admin_effect_def admin_frame_def)
next
  case (eff_export e)
  from export_effect_frames [OF eff_export(1)] show ?thesis
  proof
    assume "export_frame db w"
    from export_frame_fields [OF this] show ?thesis by (intro followsI_same)
  next
    assume r: "released_frame db w"
    note f = released_frame_fields [OF r] and D = group_okD [OF assms(2)]
    have sorted: "tsorted (lg_reclaim_hint (gd_log db))" using D(7) by (simp add: hints_ok_def)
    have "log_evolves (gd_log db) (gd_log (resume_deferred_reclaim db (db\<lparr>gd_export := gd_export w\<rparr>)))"
      by (rule resume_retention(2) [OF sorted _ _ D(2)]) simp_all
    then have "log_evolves (gd_log db) (gd_log w)" unfolding r [unfolded released_frame_def, symmetric] .
    with f show ?thesis by (simp add: follows_def leases_follow_same)
  qed
qed

section \<open>The state an export reads\<close>

record exported_state =
  xp_next_offset :: "(PartitionKey, u64) table"
  xp_retention :: "(PartitionKey, PartitionRetentionState) table"
  xp_records :: "(PartitionKey \<times> u64, StoredRecord) table"
  xp_owners :: "(bytes, PayloadOwners) table"
  xp_payload :: "(bytes, bytes) table"
  xp_producers :: producer_state
  xp_bookmarks :: bookmark_state
  xp_stream_bookmarks :: stream_bookmark_state
  xp_catalog :: catalog_state

definition exported :: "group_db \<Rightarrow> exported_state" where
  "exported db =
     \<lparr>xp_next_offset = lg_next_offset (gd_log db), xp_retention = lg_retention (gd_log db),
      xp_records = lg_records (gd_log db), xp_owners = lg_owners (gd_log db), xp_payload = lg_payload (gd_log db),
      xp_producers = gd_producers db, xp_bookmarks = gd_bookmarks db,
      xp_stream_bookmarks = gd_stream_bookmarks db, xp_catalog = gd_catalog db\<rparr>"

fun released_token :: "GroupCommand \<Rightarrow> ExportFenceToken option" where
  "released_token (Export e) = releases e"
| "released_token _ = None"

lemma effect_fence:
  assumes "effect cd db c w" "fence_class c \<noteq> IncludedMutation" "mf_held (mutation_fence_state db) = Some h"
    and "released_token c \<noteq> Some (hf_token h)"
  shows "mf_held (mutation_fence_state w) = Some h" "exported w = exported db"
proof -
  have fenced: "export_fenced db" using assms(3) by (simp add: export_fenced_def)
  have "mf_held (mutation_fence_state w) = Some h \<and> exported w = exported db"
    using assms(1)
  proof cases
    case (eff_checkpoint m r)
    note f = checkpoint_fields [OF eff_checkpoint(1)]
    show ?thesis using assms(3) fence_cong(1) [OF f(13)] by (simp add: exported_def f)
  next
    case eff_lease
    then have f: "gd_export w = gd_export db" "gd_producers w = gd_producers db" "gd_bookmarks w = gd_bookmarks db"
      "gd_stream_bookmarks w = gd_stream_bookmarks db" "gd_catalog w = gd_catalog db"
      and lg: "gd_log w = (gd_log db)\<lparr>lg_reclaim_hint := lg_reclaim_hint (gd_log w)\<rparr>"
      using fenced unfolding lease_effect_def lease_frame_def by blast+
    have "lg_next_offset (gd_log w) = lg_next_offset (gd_log db)" "lg_retention (gd_log w) = lg_retention (gd_log db)"
      "lg_records (gd_log w) = lg_records (gd_log db)" "lg_owners (gd_log w) = lg_owners (gd_log db)"
      "lg_payload (gd_log w) = lg_payload (gd_log db)" by (subst lg, simp)+
    then show ?thesis using assms(3) fence_cong(1) [OF f(1)] f by (simp add: exported_def)
  next
    case eff_admin
    then have "gd_export w = gd_export db" "gd_log w = gd_log db" "gd_producers w = gd_producers db" "gd_bookmarks w = gd_bookmarks db"
      "gd_stream_bookmarks w = gd_stream_bookmarks db" "gd_catalog w = gd_catalog db"
      unfolding admin_effect_def admin_frame_def by blast+
    then show ?thesis using assms(3) fence_cong(1) [of w db] by (simp add: exported_def)
  next
    case (eff_export e)
    from eff_export assms(3,4) have held: "mf_held (mutation_fence_state w) = Some h"
      unfolding export_effect_def by (metis released_token.simps(1))
    then have "held_token w \<noteq> None" by (simp add: held_token_def)
    with eff_export(1) have "export_frame db w" unfolding export_effect_def by blast
    from export_frame_fields [OF this] held show ?thesis by (simp add: exported_def)
  qed (use assms(2) in simp_all)
  then show "mf_held (mutation_fence_state w) = Some h" "exported w = exported db" by blast+
qed


section \<open>Entries\<close>

definition entry_fits :: "codec \<Rightarrow> group_db \<Rightarrow> GroupEntry \<Rightarrow> bool" where
  "entry_fits cd db entry \<longleftrightarrow> (case en_payload entry of Normal c \<Rightarrow> command_fits cd db c | _ \<Rightarrow> True)"

inductive entry_step :: "codec \<Rightarrow> group_db \<Rightarrow> GroupEntry \<Rightarrow> group_db \<Rightarrow> bool" where
  "apply_entry cd db entry = Inr (w, result) \<Longrightarrow> entry_fits cd db entry \<Longrightarrow> entry_step cd db entry w"

inductive_cases entry_stepE: "entry_step cd db entry w"

text \<open>The state an entry leaves is the state its command leaves, with the entry marked as applied.\<close>

definition marked :: "group_db \<Rightarrow> group_db \<Rightarrow> bool" where
  "marked v w \<longleftrightarrow> (\<exists>a m. w = v\<lparr>gd_membership := m, gd_applied := a\<rparr>)"

lemma marked_simps:
  assumes "marked v w"
  shows "group_ok cd w = group_ok cd v" "follows db w = follows db v" "exported w = exported v"
    "mutation_fence_state w = mutation_fence_state v"
proof -
  from assms obtain a m where w: "w = v\<lparr>gd_membership := m, gd_applied := a\<rparr>" by (auto simp: marked_def)
  have fence: "mutation_fence_state w = mutation_fence_state v" by (simp add: w mutation_fence_state_def)
  have "export_ok w = export_ok v" by (rule export_ok_cong) (simp_all add: fence, simp_all add: w)
  moreover have "hints_ok w = hints_ok v" by (simp add: hints_ok_def export_fenced_def fence) (simp add: w)
  ultimately show "group_ok cd w = group_ok cd v"
    by (simp add: w group_ok_def publish_ok_def retention_ok_def lease_budget_of_def checkpoints_ok_def control_ok_def
        kind_is_data_def leases_traced_def mutation_session_def)
  show "follows db w = follows db v" "exported w = exported v" by (simp_all add: w follows_def leases_follow_def exported_def)
  show "mutation_fence_state w = mutation_fence_state v" by (rule fence)
qed

lemma entry_step_cases:
  assumes "entry_step cd db entry w"
  obtains (other) "marked db w" "\<And>c. en_payload entry \<noteq> Normal c"
  | (command) c v result where "en_payload entry = Normal c" "apply_command cd db (en_log_id entry) c db = Inr (v, result)"
      "command_fits cd db c" "marked v w" "gd_applied w = Some (en_log_id entry)"
  using assms
proof (rule entry_stepE)
  fix result assume run: "apply_entry cd db entry = Inr (w, result)" and fits: "entry_fits cd db entry"
  show thesis
  proof (cases "en_payload entry")
    case Blank
    with run have "w = db\<lparr>gd_membership := gd_membership db, gd_applied := Some (en_log_id entry)\<rparr>"
      by (simp add: apply_entry_def)
    then have "marked db w" unfolding marked_def by blast
    with Blank show ?thesis by (intro other) auto
  next
    case (Membership m)
    with run have "marked db w" by (auto simp: apply_entry_def marked_def)
    with Membership show ?thesis by (intro other) auto
  next
    case (Normal c)
    with run obtain v where v: "apply_command cd db (en_log_id entry) c db = Inr (v, result)"
      and w: "w = v\<lparr>gd_applied := Some (en_log_id entry)\<rparr>" by (auto simp: apply_entry_def bind_result_Inr)
    have "w = v\<lparr>gd_membership := gd_membership v, gd_applied := Some (en_log_id entry)\<rparr>" by (simp add: w)
    then have "marked v w" unfolding marked_def by blast
    with Normal v w fits show ?thesis by (intro command) (auto simp: entry_fits_def)
  qed
qed

lemma entry_step_ok: "entry_step cd db entry w \<Longrightarrow> group_ok cd db \<Longrightarrow> group_ok cd w"
  by (erule entry_step_cases) (auto simp: marked_simps dest: apply_command_effect intro: effect_group_ok)

lemma entry_step_follows: "entry_step cd db entry w \<Longrightarrow> group_ok cd db \<Longrightarrow> follows db w"
  by (erule entry_step_cases) (auto simp: marked_simps dest: apply_command_effect intro: effect_follows)

definition releasing :: "ExportFenceToken \<Rightarrow> GroupEntry \<Rightarrow> bool" where
  "releasing token entry \<longleftrightarrow> (case en_payload entry of Normal c \<Rightarrow> released_token c = Some token | _ \<Rightarrow> False)"

lemma entry_step_fence:
  assumes step: "entry_step cd db entry w" and ok: "group_ok cd db" and held: "mf_held (mutation_fence_state db) = Some h"
    and keep: "\<not> releasing (hf_token h) entry"
  shows "mf_held (mutation_fence_state w) = Some h \<and> exported w = exported db"
  using step
proof (cases rule: entry_step_cases)
  case other
  with held show ?thesis by (simp add: marked_simps [OF other(1)])
next
  case (command c v result)
  have "released_token c \<noteq> Some (hf_token h)" using keep command(1) by (simp add: releasing_def)
  moreover have "v = db" if "fence_class c = IncludedMutation"
    using included_under_fence [OF command(2) that] held by (simp add: export_fenced_def)
  ultimately show ?thesis
    using effect_fence [OF apply_command_effect [OF command(2) ok command(3)] _ held] held marked_simps(3,4) [OF command(4)]
    by (cases "fence_class c = IncludedMutation") simp_all
qed

section \<open>Runs\<close>

text \<open>What a step relation with an invariant never undoes, it does not undo over a run either.\<close>

locale keeps_history = keeps_invariant +
  fixes rel :: "'a \<Rightarrow> 'a \<Rightarrow> bool"
  assumes rel_refl: "rel s s" and rel_trans: "rel s t \<Longrightarrow> rel t u \<Longrightarrow> rel s u"
    and step_rel: "step s e t \<Longrightarrow> ok s \<Longrightarrow> rel s t"
begin

lemma runs_rel: "runs step s es t \<Longrightarrow> ok s \<Longrightarrow> rel s t"
  by (induction rule: runs.induct) (auto dest: step_ok step_rel intro: rel_refl rel_trans)

end

interpretation grp: keeps_history "entry_step cd" "group_ok cd" follows for cd
  by unfold_locales (auto intro: entry_step_ok entry_step_follows follows_trans)

lemma runs_fence:
  assumes "runs (entry_step cd) db es w" "group_ok cd db" "mf_held (mutation_fence_state db) = Some h"
    and "\<forall>entry \<in> set es. \<not> releasing (hf_token h) entry"
  shows "mf_held (mutation_fence_state w) = Some h \<and> exported w = exported db"
  using assms
proof (induction rule: runs.induct)
  case (runs_Cons s e t es u)
  from entry_step_fence [OF runs_Cons(1,4,5)] runs_Cons(6) have t: "mf_held (mutation_fence_state t) = Some h" "exported t = exported s"
    by simp_all
  with runs_Cons.IH [OF entry_step_ok [OF runs_Cons(1,4)]] runs_Cons(6) show ?case by simp
qed simp

text \<open>A new group.\<close>

lemma group_ok_empty: "0 < window \<Longrightarrow> group_ok cd (empty_group identity window)"
proof -
  assume w: "0 < window"
  let ?db = "empty_group identity window"
  have log: "gd_log ?db = empty_log" and leases: "ls_leases (gd_leases ?db) = []" "ls_budget (gd_leases ?db) = None"
    by (simp_all add: empty_group_def)
  have "publish_ok ?db" using w log_ok_empty sessions_ok_empty by (simp add: publish_ok_def empty_group_def bookmarks_ok_def)
  moreover have "retention_ok ?db"
    using log_ok_empty
    by (simp add: retention_ok_def log leases lease_budget_of_def leases_keyed_def budget_ok_def budget_limited_def
        active_leases_def reserved_bytes_def leases_backed_def live_lease_def no_leak_def LeaseBudget_default_def
        records_of_def) (simp add: empty_log_def)
  moreover have "catalog_ok (gd_catalog ?db)" by (simp add: catalog_ok_def empty_group_def)
  moreover have "admin_ok (gd_admin ?db)" by (simp add: admin_ok_def empty_group_def)
  moreover have "export_ok ?db"
    by (simp add: export_ok_def empty_group_def mutation_fence_state_def MutationFenceState_default_def fence_decodes_def
        held_token_def)
  ultimately show ?thesis
    by (simp add: group_ok_def checkpoints_ok_def control_ok_def hints_ok_def leases_traced_def leases) (simp add: empty_group_def empty_log_def)
qed

end
