(* ===== verification/Raft_Log.thy ===== *)
theory Raft_Log
  imports Group_Run
begin

text \<open>
  The Raft log of a group (\<open>crates/light-stream-storage/src/lib.rs\<close>): log entries are stored thin, with
  the records of a publish moved to the payload column family under the identity of the entry and a
  slot, where the log and the applied state share them. \<open>thin_entry\<close> takes an entry apart,
  \<open>hydrate_entry\<close> puts it together when the log is read, and \<open>append\<close>, \<open>truncate_after\<close> and \<open>purge\<close> keep
  the owners of the payloads. The log, the vote and the commit mark are the record \<open>raft_state\<close>.
\<close>

section \<open>Thin entries\<close>

record ThinPublish =
  tp_cluster :: ClusterId
  tp_partition :: PartitionKey
  tp_request :: ProducerRequestId
  tp_fingerprint :: string
  tp_payload_keys :: "bytes list"
  tp_bookmark :: "BookmarkName option"

datatype ThinCommand =
    ThinBootstrapControl BootstrapSpec "ClusterTopology option" "SecurityPolicy option" "GroupId list" u32 u32
  | ThinBootstrapData BootstrapSpec
  | ThinCreateStreamIntent CreateStreamSpec StreamId
  | ThinReplicaReady StreamId GroupId
  | ThinActivateStream StreamId
  | ThinBeginDeleteStream StreamId
  | ThinFinishDeleteStream StreamId
  | ThinPublishOne ClusterId PartitionKey ProducerRequestId string "bytes list" "BookmarkName option"
  | ThinPublishMany "ThinPublish list"
  | ThinCompareAndSetCheckpoint CheckpointMutation
  | ThinCreateBookmark BookmarkId PartitionKey BookmarkName RecordOffset
  | ThinDeleteBookmark PartitionKey BookmarkId
  | ThinCreateStreamBookmark BookmarkId BookmarkName StreamCursorVector
  | ThinDeleteStreamBookmark StreamId BookmarkId
  | ThinAdvanceRetention RetentionRequest ClockObservation
  | ThinAdmitReplayLease ReplayLeaseRequest ClockObservation
  | ThinRenewReplayLease LeaseRenewal ClockObservation
  | ThinReleaseReplayLease LeaseRelease ClockObservation
  | ThinMaintainRetention PartitionKey RecordOffset u32 u64 ClockObservation
  | ThinOperationalProbe GroupId
  | ThinBeginAdministration AdministrationIntent
  | ThinCompleteAdministration AdministrationRequestId
  | ThinAbortAdministration AdministrationRequestId
  | ThinFinishAdministrationAbort AdministrationRequestId
  | ThinInitializeClusterTopology ClusterTopology
  | ThinInitializeSecurityPolicy SecurityPolicy
  | ThinApplySecurityMutation SecurityMutation
  | ThinActivateSecuredTransport MutationRequestId ClusterTopology SecurityPolicy
  | ThinExport ExportCommand

datatype ThinPayload = ThinBlank | ThinMembership bytes | ThinNormal ThinCommand

record ThinEntry =
  th_log_id :: GroupLogId
  th_payload :: ThinPayload

text \<open>The payloads of the records of one request, from a slot on.\<close>

fun thin_records :: "GroupLogId \<Rightarrow> nat \<Rightarrow> bytes list \<Rightarrow> (nat \<times> (bytes \<times> bytes) list) io" where
  "thin_records l slot [] = Inr (slot, [])"
| "thin_records l slot (r # rs) =
     bind_result (ok_or ''publish payload slot overflow'' (usize_checked_add slot 1)) (\<lambda>next_slot.
     bind_result (thin_records l next_slot rs) (\<lambda>(end_slot, payloads).
     Inr (end_slot, (payload_id l slot, r) # payloads)))"

fun thin_requests ::
  "codec \<Rightarrow> GroupLogId \<Rightarrow> nat \<Rightarrow> PublishBatch list \<Rightarrow> (ThinPublish list \<times> (bytes \<times> bytes) list) io" where
  "thin_requests cd l slot [] = Inr ([], [])"
| "thin_requests cd l slot (b # bs) =
     bind_result (thin_records l slot (pb_records b)) (\<lambda>(next_slot, payloads).
     bind_result (thin_requests cd l next_slot bs) (\<lambda>(requests, rest).
     Inr (\<lparr>tp_cluster = pb_cluster b, tp_partition = pb_partition b, tp_request = pb_request b,
            tp_fingerprint = fingerprint cd b, tp_payload_keys = map fst payloads,
            tp_bookmark = pb_bookmark b\<rparr> # requests, payloads @ rest)))"

fun thin_command :: "codec \<Rightarrow> GroupLogId \<Rightarrow> GroupCommand \<Rightarrow> (ThinCommand \<times> (bytes \<times> bytes) list) io" where
  "thin_command cd l (Publish batch) =
     (let payloads = map (\<lambda>(slot, record1). (payload_id l slot, record1)) (enumerate 0 (pb_records batch))
      in Inr (ThinPublishOne (pb_cluster batch) (pb_partition batch) (pb_request batch) (legacy_fingerprint cd batch)
                (map fst payloads) (pb_bookmark batch), payloads))"
| "thin_command cd l (PublishMany batches) =
     bind_result (thin_requests cd l 0 batches) (\<lambda>(requests, payloads). Inr (ThinPublishMany requests, payloads))"
| "thin_command cd l (BootstrapControl a b c d e f) = Inr (ThinBootstrapControl a b c d e f, [])"
| "thin_command cd l (BootstrapData a) = Inr (ThinBootstrapData a, [])"
| "thin_command cd l (CreateStreamIntent a b) = Inr (ThinCreateStreamIntent a b, [])"
| "thin_command cd l (ReplicaReady a b) = Inr (ThinReplicaReady a b, [])"
| "thin_command cd l (ActivateStream a) = Inr (ThinActivateStream a, [])"
| "thin_command cd l (BeginDeleteStream a) = Inr (ThinBeginDeleteStream a, [])"
| "thin_command cd l (FinishDeleteStream a) = Inr (ThinFinishDeleteStream a, [])"
| "thin_command cd l (CompareAndSetCheckpoint a) = Inr (ThinCompareAndSetCheckpoint a, [])"
| "thin_command cd l (CreateBookmark a b c d) = Inr (ThinCreateBookmark a b c d, [])"
| "thin_command cd l (DeleteBookmark a b) = Inr (ThinDeleteBookmark a b, [])"
| "thin_command cd l (CreateStreamBookmark a b c) = Inr (ThinCreateStreamBookmark a b c, [])"
| "thin_command cd l (DeleteStreamBookmark a b) = Inr (ThinDeleteStreamBookmark a b, [])"
| "thin_command cd l (AdvanceRetention a b) = Inr (ThinAdvanceRetention a b, [])"
| "thin_command cd l (AdmitReplayLease a b) = Inr (ThinAdmitReplayLease a b, [])"
| "thin_command cd l (RenewReplayLease a b) = Inr (ThinRenewReplayLease a b, [])"
| "thin_command cd l (ReleaseReplayLease a b) = Inr (ThinReleaseReplayLease a b, [])"
| "thin_command cd l (MaintainRetention a b c d e) = Inr (ThinMaintainRetention a b c d e, [])"
| "thin_command cd l (OperationalProbe a) = Inr (ThinOperationalProbe a, [])"
| "thin_command cd l (BeginAdministration a) = Inr (ThinBeginAdministration a, [])"
| "thin_command cd l (CompleteAdministration a) = Inr (ThinCompleteAdministration a, [])"
| "thin_command cd l (AbortAdministration a) = Inr (ThinAbortAdministration a, [])"
| "thin_command cd l (FinishAdministrationAbort a) = Inr (ThinFinishAdministrationAbort a, [])"
| "thin_command cd l (InitializeClusterTopology a) = Inr (ThinInitializeClusterTopology a, [])"
| "thin_command cd l (InitializeSecurityPolicy a) = Inr (ThinInitializeSecurityPolicy a, [])"
| "thin_command cd l (ApplySecurityMutation a) = Inr (ThinApplySecurityMutation a, [])"
| "thin_command cd l (ActivateSecuredTransport a b c) = Inr (ThinActivateSecuredTransport a b c, [])"
| "thin_command cd l (Export a) = Inr (ThinExport a, [])"

definition thin_entry :: "codec \<Rightarrow> GroupEntry \<Rightarrow> (ThinEntry \<times> (bytes \<times> bytes) list) io" where
  "thin_entry cd entry =
     (case en_payload entry of
        Blank \<Rightarrow> Inr (\<lparr>th_log_id = en_log_id entry, th_payload = ThinBlank\<rparr>, [])
      | Membership m \<Rightarrow> Inr (\<lparr>th_log_id = en_log_id entry, th_payload = ThinMembership m\<rparr>, [])
      | Normal command \<Rightarrow>
          bind_result (thin_command cd (en_log_id entry) command) (\<lambda>(thin, payloads).
          Inr (\<lparr>th_log_id = en_log_id entry, th_payload = ThinNormal thin\<rparr>, payloads)))"

section \<open>Reading the log\<close>

text \<open>An error of the domain, as an I/O error: its message.\<close>

definition payload_io :: "DomainError \<Rightarrow> string" where
  "payload_io e = (case e of InvalidPayload reason \<Rightarrow> ''invalid publish payload: '' @ reason | _ \<Rightarrow> ''invalid publish batch'')"

definition domain_io :: "'a result \<Rightarrow> 'a io" where
  "domain_io r = (case r of Inl e \<Rightarrow> Inl (payload_io e) | Inr v \<Rightarrow> Inr v)"

fun hydrate_records :: "codec \<Rightarrow> (bytes, bytes) table \<Rightarrow> bytes list \<Rightarrow> bytes list io" where
  "hydrate_records cd payload [] = Inr []"
| "hydrate_records cd payload (key # keys) =
     bind_result (ok_or ''log entry references a missing payload'' (tget payload key)) (\<lambda>stored.
     bind_result (decode_payload_value cd stored) (\<lambda>record1.
     bind_result (hydrate_records cd payload keys) (\<lambda>rest. Inr (record1 # rest))))"

definition hydrate_batch ::
  "codec \<Rightarrow> (bytes, bytes) table \<Rightarrow> ClusterId \<Rightarrow> PartitionKey \<Rightarrow> ProducerRequestId \<Rightarrow> bytes list \<Rightarrow> BookmarkName option
   \<Rightarrow> PublishBatch io" where
  "hydrate_batch cd payload cluster p request keys bookmark =
     bind_result (hydrate_records cd payload keys) (\<lambda>recs.
     bind_result (domain_io (PublishBatch_new cluster p request recs)) (\<lambda>batch.
     Inr (case bookmark of None \<Rightarrow> batch | Some name \<Rightarrow> with_bookmark batch name)))"

fun hydrate_requests :: "codec \<Rightarrow> (bytes, bytes) table \<Rightarrow> ThinPublish list \<Rightarrow> PublishBatch list io" where
  "hydrate_requests cd payload [] = Inr []"
| "hydrate_requests cd payload (t # ts) =
     bind_result (hydrate_batch cd payload (tp_cluster t) (tp_partition t) (tp_request t) (tp_payload_keys t) (tp_bookmark t))
       (\<lambda>batch.
     if fingerprint cd batch \<noteq> tp_fingerprint t then Inl ''publish log fingerprint does not match payload''
     else bind_result (hydrate_requests cd payload ts) (\<lambda>rest. Inr (batch # rest)))"

fun hydrate_command :: "codec \<Rightarrow> (bytes, bytes) table \<Rightarrow> ThinCommand \<Rightarrow> GroupCommand io" where
  "hydrate_command cd payload (ThinPublishOne cluster p request fp keys bookmark) =
     bind_result (hydrate_batch cd payload cluster p request keys bookmark) (\<lambda>batch. Inr (Publish batch))"
| "hydrate_command cd payload (ThinPublishMany requests) =
     bind_result (hydrate_requests cd payload requests) (\<lambda>publishes.
     bind_result (domain_io (ReplicatedPublishBatch_new publishes)) (\<lambda>batch. Inr (PublishMany batch)))"
| "hydrate_command cd payload (ThinBootstrapControl a b c d e f) = Inr (BootstrapControl a b c d e f)"
| "hydrate_command cd payload (ThinBootstrapData a) = Inr (BootstrapData a)"
| "hydrate_command cd payload (ThinCreateStreamIntent a b) = Inr (CreateStreamIntent a b)"
| "hydrate_command cd payload (ThinReplicaReady a b) = Inr (ReplicaReady a b)"
| "hydrate_command cd payload (ThinActivateStream a) = Inr (ActivateStream a)"
| "hydrate_command cd payload (ThinBeginDeleteStream a) = Inr (BeginDeleteStream a)"
| "hydrate_command cd payload (ThinFinishDeleteStream a) = Inr (FinishDeleteStream a)"
| "hydrate_command cd payload (ThinCompareAndSetCheckpoint a) = Inr (CompareAndSetCheckpoint a)"
| "hydrate_command cd payload (ThinCreateBookmark a b c d) = Inr (CreateBookmark a b c d)"
| "hydrate_command cd payload (ThinDeleteBookmark a b) = Inr (DeleteBookmark a b)"
| "hydrate_command cd payload (ThinCreateStreamBookmark a b c) = Inr (CreateStreamBookmark a b c)"
| "hydrate_command cd payload (ThinDeleteStreamBookmark a b) = Inr (DeleteStreamBookmark a b)"
| "hydrate_command cd payload (ThinAdvanceRetention a b) = Inr (AdvanceRetention a b)"
| "hydrate_command cd payload (ThinAdmitReplayLease a b) = Inr (AdmitReplayLease a b)"
| "hydrate_command cd payload (ThinRenewReplayLease a b) = Inr (RenewReplayLease a b)"
| "hydrate_command cd payload (ThinReleaseReplayLease a b) = Inr (ReleaseReplayLease a b)"
| "hydrate_command cd payload (ThinMaintainRetention a b c d e) = Inr (MaintainRetention a b c d e)"
| "hydrate_command cd payload (ThinOperationalProbe a) = Inr (OperationalProbe a)"
| "hydrate_command cd payload (ThinBeginAdministration a) = Inr (BeginAdministration a)"
| "hydrate_command cd payload (ThinCompleteAdministration a) = Inr (CompleteAdministration a)"
| "hydrate_command cd payload (ThinAbortAdministration a) = Inr (AbortAdministration a)"
| "hydrate_command cd payload (ThinFinishAdministrationAbort a) = Inr (FinishAdministrationAbort a)"
| "hydrate_command cd payload (ThinInitializeClusterTopology a) = Inr (InitializeClusterTopology a)"
| "hydrate_command cd payload (ThinInitializeSecurityPolicy a) = Inr (InitializeSecurityPolicy a)"
| "hydrate_command cd payload (ThinApplySecurityMutation a) = Inr (ApplySecurityMutation a)"
| "hydrate_command cd payload (ThinActivateSecuredTransport a b c) = Inr (ActivateSecuredTransport a b c)"
| "hydrate_command cd payload (ThinExport a) = Inr (Export a)"

definition hydrate_entry :: "codec \<Rightarrow> (bytes, bytes) table \<Rightarrow> ThinEntry \<Rightarrow> GroupEntry io" where
  "hydrate_entry cd payload thin =
     bind_result
       (case th_payload thin of
          ThinBlank \<Rightarrow> Inr Blank
        | ThinMembership m \<Rightarrow> Inr (Membership m)
        | ThinNormal command \<Rightarrow> bind_result (hydrate_command cd payload command) (\<lambda>c. Inr (Normal c)))
       (\<lambda>p. Inr \<lparr>en_log_id = th_log_id thin, en_payload = p\<rparr>)"

fun hydrate_entries :: "codec \<Rightarrow> (bytes, bytes) table \<Rightarrow> ThinEntry list \<Rightarrow> GroupEntry list io" where
  "hydrate_entries cd payload [] = Inr []"
| "hydrate_entries cd payload (t # ts) =
     bind_result (hydrate_entry cd payload t) (\<lambda>entry.
     bind_result (hydrate_entries cd payload ts) (\<lambda>rest. Inr (entry # rest)))"

datatype bound = Included u64 | Excluded u64 | Unbounded

definition range_start :: "bound \<Rightarrow> u64" where
  "range_start b = (case b of Included v \<Rightarrow> v | Excluded v \<Rightarrow> saturating_add v 1 | Unbounded \<Rightarrow> 0)"

definition range_end :: "bound \<Rightarrow> u64 option" where
  "range_end b = (case b of Included v \<Rightarrow> checked_add v 1 | Excluded v \<Rightarrow> Some v | Unbounded \<Rightarrow> None)"

text \<open>\<open>VoteOf\<close> is a type of the consensus library, stored as it is.\<close>

record raft_state =
  rf_log :: "(u64, ThinEntry) table"
  rf_vote :: "bytes option"
  rf_committed :: "GroupLogId option option"
  rf_purged :: "GroupLogId option"

text \<open>A replica of a group: the state and the log in one database.\<close>

record replica =
  rp_group :: group_db
  rp_raft :: raft_state

definition log_slice :: "u64 \<Rightarrow> u64 option \<Rightarrow> (u64, ThinEntry) table \<Rightarrow> (u64 \<times> ThinEntry) list" where
  "log_slice start stop t =
     takeWhile (\<lambda>(index, _). case stop of None \<Rightarrow> True | Some e \<Rightarrow> index < e) (dropWhile (\<lambda>(index, _). index < start) t)"

definition try_get_log_entries :: "codec \<Rightarrow> replica \<Rightarrow> bound \<Rightarrow> bound \<Rightarrow> GroupEntry list io" where
  "try_get_log_entries cd rp start stop =
     hydrate_entries cd (lg_payload (gd_log (rp_group rp)))
       (map snd (log_slice (range_start start) (range_end stop) (rf_log (rp_raft rp))))"

definition LOG_READ_LIMIT :: nat where "LOG_READ_LIMIT = 8 * 1024 * 1024"

text \<open>The byte count is a \<open>usize\<close> that saturates; the size of an entry is the length of its JSON form.\<close>

fun limit_entries :: "(GroupEntry \<Rightarrow> nat) \<Rightarrow> nat \<Rightarrow> GroupEntry list \<Rightarrow> GroupEntry list \<Rightarrow> GroupEntry list" where
  "limit_entries json_size total_bytes limited [] = limited"
| "limit_entries json_size total_bytes limited (e # es) =
     (if limited \<noteq> [] \<and> min (total_bytes + json_size e) (2 ^ 64 - 1) > LOG_READ_LIMIT then limited
      else limit_entries json_size (min (total_bytes + json_size e) (2 ^ 64 - 1)) (limited @ [e]) es)"

definition limited_get_log_entries ::
  "codec \<Rightarrow> (GroupEntry \<Rightarrow> nat) \<Rightarrow> replica \<Rightarrow> u64 \<Rightarrow> u64 \<Rightarrow> GroupEntry list io" where
  "limited_get_log_entries cd json_size rp start stop =
     bind_result (try_get_log_entries cd rp (Included start) (Excluded stop)) (\<lambda>entries.
     Inr (limit_entries json_size 0 [] entries))"

definition get_log_state :: "replica \<Rightarrow> GroupLogId option \<times> GroupLogId option" where
  "get_log_state rp =
     (rf_purged (rp_raft rp),
      if rf_log (rp_raft rp) = [] then rf_purged (rp_raft rp)
      else Some (th_log_id (snd (last (rf_log (rp_raft rp))))))"

definition read_committed :: "replica \<Rightarrow> GroupLogId option" where
  "read_committed rp = (case rf_committed (rp_raft rp) of None \<Rightarrow> None | Some c \<Rightarrow> c)"

definition save_committed :: "GroupLogId option \<Rightarrow> replica \<Rightarrow> replica" where
  "save_committed c rp = rp\<lparr>rp_raft := (rp_raft rp)\<lparr>rf_committed := Some c\<rparr>\<rparr>"

definition save_vote :: "bytes \<Rightarrow> replica \<Rightarrow> replica" where
  "save_vote v rp = rp\<lparr>rp_raft := (rp_raft rp)\<lparr>rf_vote := Some v\<rparr>\<rparr>"

section \<open>Writing the log\<close>

definition staged :: PayloadOwners where
  "staged = \<lparr>po_raft_log = True, po_applied_state = False, po_applied_banks = 0\<rparr>"

definition put_payload :: "bytes \<times> bytes \<Rightarrow> log_state \<Rightarrow> log_state" where
  "put_payload kb lg =
     lg\<lparr>lg_payload := tput (lg_payload lg) (fst kb) (encode_payload_value (snd kb)),
        lg_owners := tput (lg_owners lg) (fst kb) staged\<rparr>"

fun append_loop :: "codec \<Rightarrow> GroupEntry list \<Rightarrow> replica \<Rightarrow> replica io" where
  "append_loop cd [] w = Inr w"
| "append_loop cd (entry # es) w =
     bind_result (thin_entry cd entry) (\<lambda>(thin, payloads).
     append_loop cd es
       (w\<lparr>rp_group := (rp_group w)\<lparr>gd_log := fold put_payload payloads (gd_log (rp_group w))\<rparr>,
          rp_raft := (rp_raft w)\<lparr>rf_log := tput (rf_log (rp_raft w)) (li_index (th_log_id thin)) thin\<rparr>\<rparr>))"

definition append_entries :: "codec \<Rightarrow> replica \<Rightarrow> GroupEntry list \<Rightarrow> replica io" where
  "append_entries cd rp entries = append_loop cd entries rp"

definition thin_payload_keys :: "ThinEntry \<Rightarrow> bytes list" where
  "thin_payload_keys thin =
     (case th_payload thin of
        ThinNormal (ThinPublishOne _ _ _ _ keys _) \<Rightarrow> keys
      | ThinNormal (ThinPublishMany requests) \<Rightarrow> concat (map tp_payload_keys requests)
      | _ \<Rightarrow> [])"

text \<open>The log gives up a payload: the bytes go when no bank owns them either.\<close>

fun disown_payloads :: "log_state \<Rightarrow> bytes list \<Rightarrow> log_state \<Rightarrow> log_state io" where
  "disown_payloads dblog [] lg = Inr lg"
| "disown_payloads dblog (key # keys) lg =
     bind_result (ok_or ''missing payload ownership record'' (tget (lg_owners dblog) key)) (\<lambda>owners.
     (let owners = owners\<lparr>po_raft_log := False\<rparr>
      in disown_payloads dblog keys
           (if owners_reachable owners then lg\<lparr>lg_owners := tput (lg_owners lg) key owners\<rparr>
            else lg\<lparr>lg_payload := tdel (lg_payload lg) key, lg_owners := tdel (lg_owners lg) key\<rparr>)))"

fun remove_loop :: "log_state \<Rightarrow> (u64 \<times> ThinEntry) list \<Rightarrow> replica \<Rightarrow> replica io" where
  "remove_loop dblog [] w = Inr w"
| "remove_loop dblog (e # es) w =
     bind_result (disown_payloads dblog (thin_payload_keys (snd e)) (gd_log (rp_group w))) (\<lambda>lg.
     remove_loop dblog es
       (w\<lparr>rp_group := (rp_group w)\<lparr>gd_log := lg\<rparr>,
          rp_raft := (rp_raft w)\<lparr>rf_log := tdel (rf_log (rp_raft w)) (fst e)\<rparr>\<rparr>))"

definition remove_log_range :: "replica \<Rightarrow> u64 \<Rightarrow> u64 option \<Rightarrow> GroupLogId option \<Rightarrow> replica io" where
  "remove_log_range rp start stop purged =
     bind_result (remove_loop (gd_log (rp_group rp)) (log_slice start stop (rf_log (rp_raft rp))) rp) (\<lambda>w.
     Inr (case purged of None \<Rightarrow> w | Some l \<Rightarrow> w\<lparr>rp_raft := (rp_raft w)\<lparr>rf_purged := Some l\<rparr>\<rparr>))"

definition truncate_after :: "replica \<Rightarrow> GroupLogId option \<Rightarrow> replica io" where
  "truncate_after rp last_log_id =
     remove_log_range rp (case last_log_id of None \<Rightarrow> 0 | Some l \<Rightarrow> saturating_add (li_index l) 1) None None"

definition purge :: "replica \<Rightarrow> GroupLogId \<Rightarrow> replica io" where
  "purge rp l = remove_log_range rp 0 (Some (saturating_add (li_index l) 1)) (Some l)"


section \<open>Reading back what was appended\<close>

text \<open>The payload keys of an entry are the slots of its log identity.\<close>

definition slot_keys :: "GroupLogId \<Rightarrow> nat \<Rightarrow> nat \<Rightarrow> bytes list" where
  "slot_keys l slot n = map (payload_id l) [slot..<slot + n]"

lemma slot_keys_simps [simp]:
  "slot_keys l slot 0 = []" "slot_keys l slot (Suc n) = payload_id l slot # slot_keys l (Suc slot) n"
  "length (slot_keys l slot n) = n"
  by (simp_all add: slot_keys_def upt_conv_Cons del: upt_Suc)

lemma slot_keys_add: "slot_keys l slot (m + n) = slot_keys l slot m @ slot_keys l (slot + m) n"
  by (simp add: slot_keys_def upt_add_eq_append [of slot "slot + m" n] flip: add.assoc)

lemma zip_slots:
  "zip (slot_keys l slot (length xs + n)) (xs @ ys) = zip (slot_keys l slot (length xs)) xs @ zip (slot_keys l (slot + length xs) n) ys"
  by (simp add: slot_keys_add zip_append)

lemma thin_records_ok:
  "slot + length rs < 2 ^ 64 \<Longrightarrow>
    thin_records l slot rs = Inr (slot + length rs, zip (slot_keys l slot (length rs)) rs)"
  by (induction rs arbitrary: slot) (simp_all add: usize_checked_add_def)

definition total_records :: "PublishBatch list \<Rightarrow> nat" where
  "total_records bs = sum_list (map (length \<circ> pb_records) bs)"

lemma total_records_simps [simp]:
  "total_records [] = 0" "total_records (b # bs) = length (pb_records b) + total_records bs"
  by (simp_all add: total_records_def)

text \<open>The thin form of the requests of a batch, from a slot on.\<close>

fun thin_of :: "codec \<Rightarrow> GroupLogId \<Rightarrow> nat \<Rightarrow> PublishBatch list \<Rightarrow> ThinPublish list" where
  "thin_of cd l slot [] = []"
| "thin_of cd l slot (b # bs) =
     \<lparr>tp_cluster = pb_cluster b, tp_partition = pb_partition b, tp_request = pb_request b,
      tp_fingerprint = fingerprint cd b, tp_payload_keys = slot_keys l slot (length (pb_records b)),
      tp_bookmark = pb_bookmark b\<rparr> # thin_of cd l (slot + length (pb_records b)) bs"

lemma thin_requests_ok:
  "slot + total_records bs < 2 ^ 64 \<Longrightarrow>
    thin_requests cd l slot bs =
      Inr (thin_of cd l slot bs, zip (slot_keys l slot (total_records bs)) (concat (map pb_records bs)))"
proof (induction bs arbitrary: slot)
  case (Cons b bs)
  let ?n = "length (pb_records b)"
  have "thin_requests cd l (slot + ?n) bs = Inr (thin_of cd l (slot + ?n) bs,
      zip (slot_keys l (slot + ?n) (total_records bs)) (concat (map pb_records bs)))"
    using Cons.prems by (intro Cons.IH) simp
  then show ?case
    using thin_records_ok [of slot "pb_records b" l] Cons.prems by (simp add: zip_slots)
qed simp

text \<open>A table that holds the encoded payloads gives the records back.\<close>

definition holds_payloads :: "(bytes, bytes) table \<Rightarrow> (bytes \<times> bytes) list \<Rightarrow> bool" where
  "holds_payloads payload kbs \<longleftrightarrow> (\<forall>(k, b) \<in> set kbs. tget payload k = Some (encode_payload_value b))"

lemma decode_encode: "decode_payload_value cd (encode_payload_value b) = Inr b"
  by (simp add: decode_payload_value_def encode_payload_value_def)

lemma hydrate_records_ok:
  "length keys = length recs \<Longrightarrow> holds_payloads payload (zip keys recs) \<Longrightarrow> hydrate_records cd payload keys = Inr recs"
  by (induction keys recs rule: list_induct2) (simp_all add: holds_payloads_def decode_encode)

definition batch_valid :: "PublishBatch \<Rightarrow> bool" where
  "batch_valid b \<longleftrightarrow> validate_records (pb_records b) = Inr ()"

lemma hydrate_batch_ok:
  assumes "batch_valid b" "holds_payloads payload (zip (slot_keys l slot (length (pb_records b))) (pb_records b))"
  shows "hydrate_batch cd payload (pb_cluster b) (pb_partition b) (pb_request b) (slot_keys l slot (length (pb_records b)))
    (pb_bookmark b) = Inr b"
proof -
  have "hydrate_records cd payload (slot_keys l slot (length (pb_records b))) = Inr (pb_records b)"
    by (rule hydrate_records_ok [OF _ assms(2)]) simp
  then show ?thesis
    using assms(1)
    by (cases b) (simp add: hydrate_batch_def PublishBatch_new_def batch_valid_def domain_io_def compact_records_def
        with_bookmark_def split: option.split)
qed

lemma hydrate_requests_ok:
  assumes "\<forall>b \<in> set bs. batch_valid b"
    and "holds_payloads payload (zip (slot_keys l slot (total_records bs)) (concat (map pb_records bs)))"
  shows "hydrate_requests cd payload (thin_of cd l slot bs) = Inr bs"
  using assms
proof (induction bs arbitrary: slot)
  case (Cons b bs)
  let ?n = "length (pb_records b)"
  from Cons.prems(2) have h: "holds_payloads payload (zip (slot_keys l slot ?n) (pb_records b))"
    "holds_payloads payload (zip (slot_keys l (slot + ?n) (total_records bs)) (concat (map pb_records bs)))"
    by (auto simp: holds_payloads_def zip_slots)
  from hydrate_batch_ok [OF _ h(1)] Cons.prems(1) Cons.IH [OF _ h(2)] show ?case by simp
qed simp

text \<open>What the constructors of the commands guarantee.\<close>

definition entry_valid :: "GroupEntry \<Rightarrow> bool" where
  "entry_valid e \<longleftrightarrow>
     (case en_payload e of
        Normal (Publish b) \<Rightarrow> batch_valid b
      | Normal (PublishMany bs) \<Rightarrow> (\<forall>b \<in> set bs. batch_valid b) \<and> ReplicatedPublishBatch_new bs = Inr bs
      | _ \<Rightarrow> True)"

definition entry_records :: "GroupEntry \<Rightarrow> bytes list" where
  "entry_records e =
     (case en_payload e of
        Normal (Publish b) \<Rightarrow> pb_records b
      | Normal (PublishMany bs) \<Rightarrow> concat (map pb_records bs)
      | _ \<Rightarrow> [])"

definition entry_payloads :: "GroupEntry \<Rightarrow> (bytes \<times> bytes) list" where
  "entry_payloads e = zip (slot_keys (en_log_id e) 0 (length (entry_records e))) (entry_records e)"

lemma replicated_loop_total: "replicated_loop n m bs = Inr (k, v) \<Longrightarrow> k = n + total_records bs"
proof (induction bs arbitrary: n m)
  case (Cons b bs)
  then have "replicated_loop (n + length (pb_records b)) (m + payload_bytes_of b) bs = Inr (k, v)"
    by (auto simp: bind_result_Inr ok_or_Inr usize_checked_add_def split: if_splits)
  from Cons.IH [OF this] show ?case by simp
qed simp

lemma entry_records_bound:
  assumes "entry_valid e"
  shows "length (entry_records e) \<le> 1024"
proof -
  have many: "length (concat (map pb_records bs)) \<le> 1024" if "ReplicatedPublishBatch_new bs = Inr bs" for bs
  proof -
    from that obtain k v where "replicated_loop 0 0 bs = Inr (k, v)" "k \<le> MAX_RECORDS_PER_REPLICATED_PUBLISH"
      by (auto simp: ReplicatedPublishBatch_new_def bind_result_Inr split: if_splits prod.splits)
    with replicated_loop_total show ?thesis
      by (fastforce simp: MAX_RECORDS_PER_REPLICATED_PUBLISH_def length_concat total_records_def comp_def)
  qed
  have one: "length (pb_records b) \<le> 1024" if "batch_valid b" for b
    using that by (auto simp: batch_valid_def validate_records_def MAX_RECORDS_PER_PUBLISH_def split: if_splits)
  show ?thesis
    using assms one many by (auto simp: entry_valid_def entry_records_def split: EntryPayload.splits GroupCommand.splits)
qed

lemma enumerate_slots: "map (\<lambda>(slot, r). (payload_id l slot, r)) (enumerate n rs) = zip (slot_keys l n (length rs)) rs"
  by (induction rs arbitrary: n) (simp_all add: upt_conv_Cons del: upt_Suc)

lemma total_records_concat: "length (concat (map pb_records bs)) = total_records bs"
  by (simp add: length_concat total_records_def comp_def)

lemma thin_entry_round_trip:
  assumes "entry_valid e"
  shows "\<exists>thin. thin_entry cd e = Inr (thin, entry_payloads e) \<and> th_log_id thin = en_log_id e \<and>
    thin_payload_keys thin = slot_keys (en_log_id e) 0 (length (entry_records e)) \<and>
    (\<forall>payload. holds_payloads payload (entry_payloads e) \<longrightarrow> hydrate_entry cd payload thin = Inr e)"
proof -
  show ?thesis
  proof (cases "en_payload e")
    case (Normal c)
    show ?thesis
    proof (cases c)
      case (Publish b)
      with Normal assms have v: "batch_valid b" "entry_records e = pb_records b"
        by (simp_all add: entry_valid_def entry_records_def)
      show ?thesis
        using Normal Publish v hydrate_batch_ok [OF v(1), of _ "en_log_id e" 0 cd]
        by (cases e) (auto simp: thin_entry_def enumerate_slots entry_payloads_def hydrate_entry_def thin_payload_keys_def Let_def)
    next
      case (PublishMany bs)
      with Normal assms have v: "\<forall>b \<in> set bs. batch_valid b" "ReplicatedPublishBatch_new bs = Inr bs"
        "entry_records e = concat (map pb_records bs)" by (simp_all add: entry_valid_def entry_records_def)
      have n: "total_records bs < 2 ^ 64" using entry_records_bound [OF assms] v(3) by (simp add: total_records_concat)
      have keys: "concat (map tp_payload_keys (thin_of cd (en_log_id e) slot bs)) = slot_keys (en_log_id e) slot (total_records bs)"
        for slot by (induction bs arbitrary: slot) (simp_all add: slot_keys_add)
      show ?thesis
        using Normal PublishMany v n thin_requests_ok [of 0 bs cd "en_log_id e"] keys [of 0]
          hydrate_requests_ok [OF v(1), of _ "en_log_id e" 0 cd]
        by (cases e) (auto simp: thin_entry_def entry_payloads_def hydrate_entry_def thin_payload_keys_def total_records_concat
            domain_io_def)
    qed ((use Normal in \<open>cases e, simp add: thin_entry_def entry_payloads_def entry_records_def hydrate_entry_def
        thin_payload_keys_def\<close>)+)
  qed (cases e, simp add: thin_entry_def entry_payloads_def entry_records_def hydrate_entry_def thin_payload_keys_def)+
qed


lemma slot_keys_set: "slot + n \<le> 2 ^ 32 \<Longrightarrow> k \<in> set (slot_keys l slot n) \<longleftrightarrow> (\<exists>i. slot \<le> i \<and> i < slot + n \<and> k = payload_id l i)"
  by (auto simp: slot_keys_def)

lemma slot_keys_distinct: "slot + n \<le> 2 ^ 32 \<Longrightarrow> distinct (slot_keys l slot n)"
  by (auto simp: slot_keys_def distinct_map payload_id_inject intro!: inj_onI)

lemma slot_keys_disjoint:
  "l \<noteq> m \<Longrightarrow> i + a \<le> 2 ^ 32 \<Longrightarrow> j + b \<le> 2 ^ 32 \<Longrightarrow> set (slot_keys l i a) \<inter> set (slot_keys m j b) = {}"
  by (auto simp: slot_keys_set payload_id_inject)

definition entry_keys :: "GroupEntry \<Rightarrow> bytes set" where
  "entry_keys e = set (slot_keys (en_log_id e) 0 (length (entry_records e)))"

lemma entry_payload_keys: "fst ` set (entry_payloads e) = entry_keys e"
  by (simp add: entry_payloads_def entry_keys_def flip: set_map)

lemma entry_keys_disjoint:
  assumes "entry_valid e" "entry_valid f" "en_log_id e \<noteq> en_log_id f"
  shows "entry_keys e \<inter> entry_keys f = {}"
  unfolding entry_keys_def
  using entry_records_bound [OF assms(1)] entry_records_bound [OF assms(2)]
  by (intro slot_keys_disjoint [OF assms(3)]) simp_all

text \<open>Staging: the payloads arrive with the log as their owner, and nothing else changes.\<close>

definition stages :: "(bytes \<times> bytes) list \<Rightarrow> log_state \<Rightarrow> log_state \<Rightarrow> bool" where
  "stages kbs lg lg' \<longleftrightarrow>
     lg' = lg\<lparr>lg_payload := lg_payload lg', lg_owners := lg_owners lg'\<rparr> \<and>
     (\<forall>k. tget (lg_owners lg') k = (if k \<in> fst ` set kbs then Some staged else tget (lg_owners lg) k)) \<and>
     (\<forall>k. k \<notin> fst ` set kbs \<longrightarrow> tget (lg_payload lg') k = tget (lg_payload lg) k) \<and> holds_payloads (lg_payload lg') kbs"

lemma stages_Nil [simp]: "stages [] lg lg"
  by (simp add: stages_def holds_payloads_def)

lemma stages_append:
  assumes "stages a lg lg1" "stages b lg1 lg2" "fst ` set a \<inter> fst ` set b = {}"
  shows "stages (a @ b) lg lg2"
proof -
  from assms(2) have "lg2 = lg1\<lparr>lg_payload := lg_payload lg2, lg_owners := lg_owners lg2\<rparr>" unfolding stages_def by blast
  moreover from assms(1) have "lg1 = lg\<lparr>lg_payload := lg_payload lg1, lg_owners := lg_owners lg1\<rparr>" unfolding stages_def by blast
  ultimately have "lg2 = lg\<lparr>lg_payload := lg_payload lg2, lg_owners := lg_owners lg2\<rparr>"
    by (metis (no_types, lifting) log_state.surjective log_state.update_convs(5,6))
  moreover have "tget (lg_payload lg2) k = tget (lg_payload lg1) k" if "k \<in> fst ` set a" for k
    using that assms(2,3) unfolding stages_def by blast
  then have "holds_payloads (lg_payload lg2) a" using assms(1) unfolding stages_def holds_payloads_def by force
  ultimately show ?thesis using assms(1,2) unfolding stages_def holds_payloads_def by (simp add: ball_Un image_Un)
qed

lemma stages_put: "stages [kb] lg (put_payload kb lg)"
  by (simp add: stages_def put_payload_def holds_payloads_def split: prod.split)

lemma stages_fold: "distinct (map fst kbs) \<Longrightarrow> stages kbs lg (fold put_payload kbs lg)"
proof (induction kbs arbitrary: lg)
  case (Cons kb kbs)
  then have "stages kbs (put_payload kb lg) (fold put_payload kbs (put_payload kb lg))" by simp
  from stages_append [OF stages_put this] Cons.prems show ?case by simp
qed simp

text \<open>Appending entries with fresh, ascending indices.\<close>

definition ascending :: "GroupEntry list \<Rightarrow> bool" where
  "ascending es \<longleftrightarrow> sorted_wrt (<) (map (li_index \<circ> en_log_id) es)"

definition thin_form :: "codec \<Rightarrow> GroupEntry \<Rightarrow> ThinEntry" where
  "thin_form cd e = (case thin_entry cd e of Inr (thin, _) \<Rightarrow> thin | Inl _ \<Rightarrow> \<lparr>th_log_id = en_log_id e, th_payload = ThinBlank\<rparr>)"

lemma thin_form:
  assumes "entry_valid e"
  shows "thin_entry cd e = Inr (thin_form cd e, entry_payloads e)" "th_log_id (thin_form cd e) = en_log_id e"
    "set (thin_payload_keys (thin_form cd e)) = entry_keys e" "distinct (thin_payload_keys (thin_form cd e))"
    "holds_payloads payload (entry_payloads e) \<Longrightarrow> hydrate_entry cd payload (thin_form cd e) = Inr e"
proof -
  obtain thin where t: "thin_entry cd e = Inr (thin, entry_payloads e)" "th_log_id thin = en_log_id e"
    "thin_payload_keys thin = slot_keys (en_log_id e) 0 (length (entry_records e))"
    "\<forall>payload. holds_payloads payload (entry_payloads e) \<longrightarrow> hydrate_entry cd payload thin = Inr e"
    using thin_entry_round_trip [OF assms, of cd] by blast
  then have eq: "thin_form cd e = thin" by (simp add: thin_form_def)
  show "thin_entry cd e = Inr (thin_form cd e, entry_payloads e)" "th_log_id (thin_form cd e) = en_log_id e"
    "set (thin_payload_keys (thin_form cd e)) = entry_keys e"
    "holds_payloads payload (entry_payloads e) \<Longrightarrow> hydrate_entry cd payload (thin_form cd e) = Inr e"
    using t by (simp_all add: eq entry_keys_def)
  show "distinct (thin_payload_keys (thin_form cd e))"
    using entry_records_bound [OF assms] by (simp add: eq t(3) slot_keys_distinct)
qed

lemma append_loop_ok:
  assumes "\<forall>e \<in> set es. entry_valid e" "ascending es" "\<forall>e \<in> set es. \<forall>i \<in> fst ` set (rf_log (rp_raft w)). i < li_index (en_log_id e)"
  shows "\<exists>w'. append_loop cd es w = Inr w' \<and>
    rf_log (rp_raft w') = rf_log (rp_raft w) @ map (\<lambda>e. (li_index (en_log_id e), thin_form cd e)) es \<and>
    rp_raft w' = (rp_raft w)\<lparr>rf_log := rf_log (rp_raft w')\<rparr> \<and> rp_group w' = (rp_group w)\<lparr>gd_log := gd_log (rp_group w')\<rparr> \<and>
    stages (concat (map entry_payloads es)) (gd_log (rp_group w)) (gd_log (rp_group w'))"
  using assms
proof (induction es arbitrary: w)
  case Nil
  show ?case by simp
next
  case (Cons e es)
  let ?w = "w\<lparr>rp_group := (rp_group w)\<lparr>gd_log := fold put_payload (entry_payloads e) (gd_log (rp_group w))\<rparr>,
      rp_raft := (rp_raft w)\<lparr>rf_log := tput (rf_log (rp_raft w)) (li_index (en_log_id e)) (thin_form cd e)\<rparr>\<rparr>"
  have v: "entry_valid e" and asc: "ascending es" "\<forall>f \<in> set es. li_index (en_log_id e) < li_index (en_log_id f)"
    using Cons.prems by (auto simp: ascending_def)
  have log: "rf_log (rp_raft ?w) = rf_log (rp_raft w) @ [(li_index (en_log_id e), thin_form cd e)]"
    using Cons.prems(3) by (simp add: tput_above)
  have above: "\<forall>f \<in> set es. \<forall>i \<in> fst ` set (rf_log (rp_raft ?w)). i < li_index (en_log_id f)"
    unfolding log using Cons.prems(3) asc(2) by auto
  obtain w' where ih: "append_loop cd es ?w = Inr w'"
    "rf_log (rp_raft w') = rf_log (rp_raft ?w) @ map (\<lambda>e. (li_index (en_log_id e), thin_form cd e)) es"
    "rp_raft w' = (rp_raft ?w)\<lparr>rf_log := rf_log (rp_raft w')\<rparr>" "rp_group w' = (rp_group ?w)\<lparr>gd_log := gd_log (rp_group w')\<rparr>"
    "stages (concat (map entry_payloads es)) (gd_log (rp_group ?w)) (gd_log (rp_group w'))"
    using Cons.IH [OF _ asc(1) above] Cons.prems(1) by (auto simp del: replica.simps)
  have "stages (entry_payloads e) (gd_log (rp_group w)) (gd_log (rp_group ?w))"
    using entry_records_bound [OF v] by (simp add: stages_fold entry_payloads_def slot_keys_distinct)
  moreover have "fst ` set (entry_payloads e) \<inter> fst ` set (concat (map entry_payloads es)) = {}"
  proof -
    have "fst ` set (concat (map entry_payloads es)) = (\<Union>f \<in> set es. entry_keys f)"
      by (auto simp: image_UN entry_payload_keys)
    moreover have "entry_keys e \<inter> entry_keys f = {}" if "f \<in> set es" for f
      using that asc(2) Cons.prems(1) by (intro entry_keys_disjoint [OF v]) auto
    ultimately show ?thesis by (auto simp: entry_payload_keys)
  qed
  ultimately have "stages (concat (map entry_payloads (e # es))) (gd_log (rp_group w)) (gd_log (rp_group w'))"
    using stages_append [OF _ ih(5)] by simp
  moreover have "append_loop cd (e # es) w = Inr w'" using ih(1) thin_form(1,2) [OF v] by simp
  ultimately show ?case using ih(2-4) log by (intro exI [of _ w']) simp
qed

end
