(* ===== verification/Payload_Ownership.thy ===== *)
theory Payload_Ownership
  imports Raft_Log
begin

text \<open>
  Who owns a payload. The log owns the payloads of its entries, the active bank those its records index,
  and a payload is stored exactly as long as one of the two does. Appending stages payloads, publishing
  adds the bank as an owner, and purging, truncating and reclaiming take an owner away: each of them
  keeps the owners exact (\<open>owned\<close>), so nothing leaks and no reader finds a payload gone.
\<close>

section \<open>Exact owners\<close>

text \<open>The payload keys that the record index refers to.\<close>

definition indexed :: "log_state \<Rightarrow> bytes set" where
  "indexed lg = {sr_payload_key r |s r. tget (lg_records lg) s = Some r}"

text \<open>The owners a payload key should have: the log of keys \<open>logged\<close>, and the bank.\<close>

definition share :: "StateBank \<Rightarrow> bytes set \<Rightarrow> bytes set \<Rightarrow> bytes \<Rightarrow> PayloadOwners option" where
  "share bank logged kept k =
     (if k \<in> logged \<or> k \<in> kept
      then Some \<lparr>po_raft_log = (k \<in> logged), po_applied_state = False,
                 po_applied_banks = (if k \<in> kept then bank_bit bank else 0)\<rparr>
      else None)"

definition apart :: "log_state \<Rightarrow> bool" where
  "apart lg \<longleftrightarrow>
     (\<forall>s t r q. tget (lg_records lg) s = Some r \<and> tget (lg_records lg) t = Some q \<and>
        sr_payload_key r = sr_payload_key q \<longrightarrow> s = t)"

definition owned :: "StateBank \<Rightarrow> bytes set \<Rightarrow> log_state \<Rightarrow> bool" where
  "owned bank logged lg \<longleftrightarrow>
     (\<forall>k. tget (lg_owners lg) k = share bank logged (indexed lg) k) \<and>
     (\<forall>k. tget (lg_payload lg) k = None \<longleftrightarrow> tget (lg_owners lg) k = None) \<and> apart lg"

lemma ownedD:
  assumes "owned bank logged lg"
  shows "tget (lg_owners lg) k = share bank logged (indexed lg) k"
    "tget (lg_payload lg) k = None \<longleftrightarrow> k \<notin> logged \<and> k \<notin> indexed lg" "apart lg"
  using assms by (auto simp: owned_def share_def)

lemma indexedI: "tget (lg_records lg) s = Some r \<Longrightarrow> sr_payload_key r \<in> indexed lg"
  by (auto simp: indexed_def simp del: split_paired_Ex)

lemma bank_bits [simp]:
  "or 0 (bank_bit bank) = bank_bit bank" "or (bank_bit bank) (bank_bit bank) = bank_bit bank"
  "and (bank_bit bank) (not (bank_bit bank)) = 0" "bank_bit bank \<noteq> 0"
  by (cases bank; simp add: bank_bit_def)+

lemma owned_empty: "owned bank {} empty_log"
  by (simp add: owned_def share_def indexed_def apart_def empty_log_def)

text \<open>What the owners, the payloads and the records depend on.\<close>

definition same_store :: "log_state \<Rightarrow> log_state \<Rightarrow> bool" where
  "same_store lg lg' \<longleftrightarrow>
     lg_owners lg' = lg_owners lg \<and> lg_payload lg' = lg_payload lg \<and> lg_records lg' = lg_records lg"

lemma same_store_refl [simp]: "same_store lg lg"
  by (simp add: same_store_def)

lemma same_store_trans: "same_store a b \<Longrightarrow> same_store b c \<Longrightarrow> same_store a c"
  by (simp add: same_store_def)

lemma indexed_same: "same_store lg lg' \<Longrightarrow> indexed lg' = indexed lg"
  by (simp add: same_store_def indexed_def)

lemma owned_same: "same_store lg lg' \<Longrightarrow> owned bank logged lg' = owned bank logged lg"
  by (simp add: owned_def indexed_same) (simp add: same_store_def apart_def)

section \<open>One record\<close>

lemma indexed_index:
  assumes "tget (lg_records lg) (p, off) = None"
  shows "indexed (index_record bank p off key owners len position lg) = insert key (indexed lg)"
proof -
  have "tget (lg_records (index_record bank p off key owners len position lg)) s =
      (if s = (p, off) then Some \<lparr>sr_payload_key = key, sr_payload_bytes = of_nat len, sr_cumulative_end_bytes = position\<rparr>
       else tget (lg_records lg) s)" for s
    by (simp add: index_record_def)
  then show ?thesis using assms by (auto simp: indexed_def simp del: split_paired_Ex split: if_splits) (metis option.distinct(1))
qed

lemma owned_index:
  assumes ok: "owned bank logged lg" and key: "key \<in> logged" "key \<notin> indexed lg"
    and room: "tget (lg_records lg) (p, off) = None" and owners: "tget (lg_owners lg) key = Some owners"
  shows "owned bank logged (index_record bank p off key owners len position lg)"
proof -
  let ?lg = "index_record bank p off key owners len position lg"
  have o: "owners = \<lparr>po_raft_log = True, po_applied_state = False, po_applied_banks = 0\<rparr>"
    using owners key by (simp add: ownedD(1) [OF ok] share_def)
  have "tget (lg_owners ?lg) k = share bank logged (indexed ?lg) k" for k
    unfolding indexed_index [OF room] using ownedD(1) [OF ok, of k] key
    by (auto simp: index_record_def o share_def set_applied_in_def)
  moreover have "tget (lg_payload ?lg) k = None \<longleftrightarrow> k \<notin> logged \<and> k \<notin> indexed ?lg" for k
    using ownedD(2) [OF ok, of k] key by (auto simp: indexed_index [OF room])
  moreover have "apart ?lg"
    using ownedD(3) [OF ok] key(2) by (auto simp: apart_def index_record_def dest: indexedI split: if_splits)
  ultimately show ?thesis by (simp add: owned_def share_def)
qed

lemma indexed_unindex:
  assumes "apart lg" "tget (lg_records lg) s = Some r" "lg_records lg' = tdel (lg_records lg) s"
  shows "indexed lg' = indexed lg - {sr_payload_key r}"
  using assms unfolding indexed_def apart_def
  by (auto simp: assms(3) simp del: split_paired_Ex split_paired_All split: if_splits) (metis option.inject)+

lemma owned_reclaim:
  assumes ok: "owned bank logged lg" and r: "tget (lg_records lg) (p, pr_reclaim_cursor ret) = Some r"
    and owners: "tget (lg_owners lg) (sr_payload_key r) = Some owners"
    and run: "reclaim_record bank p r owners (ret, lg) = (ret', lg')"
  shows "owned bank logged lg'" "indexed lg' = indexed lg - {sr_payload_key r}"
    "lg_records lg' = tdel (lg_records lg) (p, pr_reclaim_cursor ret)"
    "k \<noteq> sr_payload_key r \<Longrightarrow> tget (lg_owners lg') k = tget (lg_owners lg) k"
    "k \<noteq> sr_payload_key r \<Longrightarrow> tget (lg_payload lg') k = tget (lg_payload lg) k"
proof -
  let ?k = "sr_payload_key r"
  have o: "owners = \<lparr>po_raft_log = (?k \<in> logged), po_applied_state = False, po_applied_banks = bank_bit bank\<rparr>"
    using owners indexedI [OF r] by (simp add: ownedD(1) [OF ok] share_def)
  show recs: "lg_records lg' = tdel (lg_records lg) (p, pr_reclaim_cursor ret)"
    using run by (auto simp: reclaim_record_def Let_def)
  show ix: "indexed lg' = indexed lg - {?k}" by (rule indexed_unindex [OF ownedD(3) [OF ok] r recs])
  have own: "tget (lg_owners lg') k = (if k = ?k then share bank logged (indexed lg') k else tget (lg_owners lg) k)"
    and pay: "tget (lg_payload lg') k = (if k = ?k \<and> ?k \<notin> logged then None else tget (lg_payload lg) k)" for k
    using run unfolding ix by (auto simp: reclaim_record_def Let_def o set_applied_in_def owners_reachable_def share_def)
  show "k \<noteq> ?k \<Longrightarrow> tget (lg_owners lg') k = tget (lg_owners lg) k"
    "k \<noteq> ?k \<Longrightarrow> tget (lg_payload lg') k = tget (lg_payload lg) k" by (simp_all add: own pay)
  have "tget (lg_owners lg') k = share bank logged (indexed lg') k" for k
    using ownedD(1) [OF ok, of k] by (simp add: own share_def ix)
  moreover have "tget (lg_payload lg') k = None \<longleftrightarrow> k \<notin> logged \<and> k \<notin> indexed lg'" for k
    using ownedD(2) [OF ok, of k] indexedI [OF r] by (auto simp: pay ix)
  moreover have "apart lg'" using ownedD(3) [OF ok] by (auto simp: apart_def recs)
  ultimately show "owned bank logged lg'" by (simp add: owned_def share_def)
qed

section \<open>Publishing\<close>

text \<open>
  The slots of an entry from \<open>slot\<close> on are still untouched: no record indexes them, and their owners are
  those of the state the entry is applied to.
\<close>

definition untouched :: "log_state \<Rightarrow> GroupLogId \<Rightarrow> nat \<Rightarrow> log_state \<Rightarrow> bool" where
  "untouched lg0 l slot lg \<longleftrightarrow>
     (\<forall>i. slot \<le> i \<and> i < 2 ^ 32 \<longrightarrow>
        payload_id l i \<notin> indexed lg \<and> tget (lg_owners lg) (payload_id l i) = tget (lg_owners lg0) (payload_id l i))"

lemma untouched_mono: "untouched lg0 l slot lg \<Longrightarrow> slot \<le> slot' \<Longrightarrow> untouched lg0 l slot' lg"
  by (simp add: untouched_def)

lemma untouched_same: "same_store lg lg' \<Longrightarrow> untouched lg0 l slot lg' = untouched lg0 l slot lg"
  by (simp add: untouched_def indexed_same) (simp add: same_store_def)

text \<open>Records are added for slots of the entry only, and payloads stay.\<close>

definition indexes_slots :: "GroupLogId \<Rightarrow> log_state \<Rightarrow> log_state \<Rightarrow> bool" where
  "indexes_slots l lg lg' \<longleftrightarrow>
     indexed lg \<subseteq> indexed lg' \<and> indexed lg' \<subseteq> indexed lg \<union> {payload_id l i |i. i < 2 ^ 32} \<and> lg_payload lg' = lg_payload lg"

lemma indexes_slots_refl [simp]: "indexes_slots l lg lg"
  by (simp add: indexes_slots_def)

lemma indexes_slots_trans: "indexes_slots l a b \<Longrightarrow> indexes_slots l b c \<Longrightarrow> indexes_slots l a c"
  unfolding indexes_slots_def by auto

lemma indexes_slots_same: "same_store lg lg' \<Longrightarrow> indexes_slots l lg lg'"
  by (simp add: indexes_slots_def indexed_same) (simp add: same_store_def)

lemma append_records_owned:
  assumes "append_records l bank lg0 p first slot0 i rs (ret, w) = Inr (ret', w')"
    and "owned bank logged w" "untouched lg0 l (slot0 + i) w"
    and "slot0 + i + length rs \<le> 2 ^ 32" "\<forall>j < slot0 + i + length rs. payload_id l j \<in> logged"
    and "\<forall>off. unat first + i \<le> unat off \<longrightarrow> records_of w p off = None" "unat first + i + length rs < 2 ^ 64"
  shows "owned bank logged w' \<and> untouched lg0 l (slot0 + i + length rs) w' \<and> indexes_slots l w w'"
  using assms
proof (induction rs arbitrary: i ret w)
  case (Cons r rs)
  from Cons.prems(1) obtain owners position where o: "tget (lg_owners lg0) (payload_id l (slot0 + i)) = Some owners" and
    rest: "append_records l bank lg0 p first slot0 (Suc i) rs (ret\<lparr>pr_next_byte_position := position\<rparr>,
       index_record bank p (first + of_nat i) (payload_id l (slot0 + i)) owners (length r) position w) = Inr (ret', w')"
    unfolding append_records_Cons by blast
  let ?k = "payload_id l (slot0 + i)"
  let ?w = "index_record bank p (first + of_nat i) ?k owners (length r) position w"
  have at: "unat (first + of_nat i) = unat first + i"
    using Cons.prems(7) by (simp add: unat_word_ariths unat_of_nat)
  have room: "tget (lg_records w) (p, first + of_nat i) = None"
    using Cons.prems(6) at by (simp add: records_of_def)
  have k: "?k \<in> logged" "?k \<notin> indexed w" "tget (lg_owners w) ?k = Some owners"
    using Cons.prems(3-5) o by (simp_all add: untouched_def)
  have "owned bank logged ?w" by (rule owned_index [OF Cons.prems(2) k(1,2) room k(3)])
  moreover have "untouched lg0 l (slot0 + Suc i) ?w"
    using Cons.prems(3,4) unfolding untouched_def indexed_index [OF room]
    by (auto simp: payload_id_inject index_record_def)
  moreover have "\<forall>off. unat first + Suc i \<le> unat off \<longrightarrow> records_of ?w p off = None"
    using Cons.prems(6) at by auto
  ultimately have "owned bank logged w' \<and> untouched lg0 l (slot0 + Suc i + length rs) w' \<and> indexes_slots l ?w w'"
    using Cons.prems(4,5,7) by (intro Cons.IH [OF rest]) simp_all
  moreover have "indexes_slots l w ?w"
    using Cons.prems(4) by (auto simp: indexes_slots_def indexed_index [OF room] intro!: exI [of _ "slot0 + i"])
  ultimately show ?case by (auto intro: indexes_slots_trans)
qed simp

text \<open>The whole append to a partition, from its tail on.\<close>

lemma append_tail_owned:
  assumes run: "append_records l bank lg0 p (next_offset lg p) slot0 0 rs (ret, lg) = Inr (ret', lg1)"
    and lg': "lg' = finish_append p tail ret' lg1"
    and range: "CommittedRecordRange_new p (next_offset lg p) (of_nat (length rs)) = Inr committed"
    and ok: "log_ok lg" and own: "owned bank logged lg" "untouched lg0 l slot0 lg"
    and slots: "slot0 + length rs \<le> 2 ^ 32" "\<forall>j < slot0 + length rs. payload_id l j \<in> logged"
  shows "owned bank logged lg' \<and> untouched lg0 l (slot0 + length rs) lg' \<and> indexes_slots l lg lg'"
proof -
  have room: "unat (next_offset lg p) + length rs < 2 ^ 64"
    using range slots(1) by (simp add: range_new_Inr unat_of_nat)
  from log_okD [OF ok, of p] obtain pos where chain: "chain_with pos (records_of lg p) (retention_of lg p) (next_offset lg p)"
    unfolding chain_ok_def by blast
  have "records_of lg p off = None" if "unat (next_offset lg p) \<le> unat off" for off
    using chain_record(1) [OF chain, of off] that by (cases "records_of lg p off") (auto simp: word_less_nat_alt)
  then have "owned bank logged lg1 \<and> untouched lg0 l (slot0 + length rs) lg1 \<and> indexes_slots l lg lg1"
    using append_records_owned [OF run own(1)] own(2) slots room by simp
  moreover have same: "same_store lg1 lg'" by (simp add: lg' finish_append_def same_store_def)
  ultimately show ?thesis
    using indexes_slots_trans [OF _ indexes_slots_same [OF same]] by (simp add: owned_same [OF same] untouched_same [OF same])
qed

text \<open>What the application of an entry's records does to the store.\<close>

definition stores :: "bytes set \<Rightarrow> GroupLogId \<Rightarrow> group_db \<Rightarrow> group_db \<Rightarrow> bool" where
  "stores logged l w w' \<longleftrightarrow>
     gd_active_bank w' = gd_active_bank w \<and> owned (gd_active_bank w) logged (gd_log w') \<and> indexes_slots l (gd_log w) (gd_log w')"

lemma stores_same: "owned (gd_active_bank w) logged (gd_log w) \<Longrightarrow> stores logged l w w"
  by (simp add: stores_def)

lemma stores_trans: "stores logged l a b \<Longrightarrow> stores logged l b c \<Longrightarrow> stores logged l a c"
  unfolding stores_def by (auto intro: indexes_slots_trans)

lemma publish_fresh_owned:
  assumes run: "publish_fresh cd lg0 l ordinal slot0 batch w = Inr (w', outcome)"
    and ok: "log_ok (gd_log w)" and own: "owned (gd_active_bank w) logged (gd_log w)" "untouched lg0 l slot0 (gd_log w)"
    and slots: "slot0 + length (pb_records batch) \<le> 2 ^ 32" "\<forall>j < slot0 + length (pb_records batch). payload_id l j \<in> logged"
  shows "stores logged l w w' \<and> untouched lg0 l (slot0 + length (pb_records batch)) (gd_log w')"
  using run
proof (cases rule: publish_fresh_cases)
  case (rejected rejection)
  then have "gd_log w' = gd_log w" "gd_active_bank w' = gd_active_bank w" by (simp_all add: publish_result_def)
  then show ?thesis using own untouched_mono [OF own(2)] by (simp add: stores_def)
next
  case (accepted w1 bookmark committed)
  let ?p = "pb_partition batch"
  note w1 = marks_fields [OF accepted(2)]
  have eq: "gd_log w1 = gd_log w" "gd_active_bank w1 = gd_active_bank w" by (subst w1, simp)+
  from accepted(3) obtain ret lg where
    run: "append_records l (gd_active_bank w1) lg0 ?p (next_offset (gd_log w1) ?p) slot0 0
      (pb_records batch) (retention_of (gd_log w1) ?p, gd_log w1) = Inr (ret, lg)" and
    w': "(w', outcome) = publish_result cd batch (StoredPublished \<lparr>rc_request = pb_request batch,
        rc_range = committed, rc_bookmark = bookmark\<rparr>)
      (w1\<lparr>gd_log := finish_append ?p (next_offset (gd_log w1) ?p + of_nat (length (pb_records batch))) ret lg\<rparr>)"
    by (rule publish_append_Inr)
  have log': "gd_log w' = finish_append ?p (next_offset (gd_log w) ?p + of_nat (length (pb_records batch))) ret lg"
    "gd_active_bank w' = gd_active_bank w"
    using w' eq by (simp_all add: publish_result_def)
  from append_tail_owned [OF run [unfolded eq] log'(1) accepted(1) ok own slots] log'(2) show ?thesis
    by (simp add: stores_def)
qed

lemma publish_one_owned:
  assumes run: "publish_one cd lg0 l ordinal slot0 batch prior w = Inr (w', outcome)"
    and ok: "log_ok (gd_log w)" and own: "owned (gd_active_bank w) logged (gd_log w)" "untouched lg0 l slot0 (gd_log w)"
    and slots: "slot0 + length (pb_records batch) \<le> 2 ^ 32" "\<forall>j < slot0 + length (pb_records batch). payload_id l j \<in> logged"
  shows "stores logged l w w' \<and> untouched lg0 l (slot0 + length (pb_records batch)) (gd_log w')"
proof -
  have "gd_log w' = gd_log w \<and> gd_active_bank w' = gd_active_bank w \<or>
      publish_fresh cd lg0 l ordinal slot0 batch w = Inr (w', outcome)"
    using run by (cases prior) (auto simp: publish_one_def Let_def publish_result_def split: if_splits)
  then consider (kept) "gd_log w' = gd_log w" "gd_active_bank w' = gd_active_bank w"
    | (fresh) "publish_fresh cd lg0 l ordinal slot0 batch w = Inr (w', outcome)" by blast
  then show ?thesis
  proof cases
    case kept
    with own(1) untouched_mono [OF own(2)] show ?thesis by (simp add: stores_def)
  next
    case fresh
    from publish_fresh_owned [OF fresh ok own slots] show ?thesis .
  qed
qed

lemma publish_many_loop_owned:
  assumes "publish_many_loop cd db l cluster ordinal slot bs tx = Inr (tx', outcomes)"
    and "coherent db tx" "publish_ok (tx_write tx)"
    and "owned (gd_active_bank (tx_write tx)) logged (gd_log (tx_write tx))" "untouched (gd_log db) l slot (gd_log (tx_write tx))"
    and "slot + total_records bs \<le> 2 ^ 32" "\<forall>j < slot + total_records bs. payload_id l j \<in> logged"
  shows "stores logged l (tx_write tx) (tx_write tx')"
  using assms
proof (induction bs arbitrary: ordinal slot tx outcomes)
  case (Cons b bs)
  let ?n = "length (pb_records b)"
  from Cons.prems(1) obtain tx1 o1 slot1 outs where
    one: "(if pb_cluster b \<noteq> cluster
        then Inr (tx, \<lparr>io_request = pb_request b, io_result =
          Inl (IdentityMismatch ''publish cluster does not match the data group'')\<rparr>)
        else txn_apply_one cd db l ordinal slot b tx) = Inr (tx1, o1)" and
    slot1: "usize_checked_add slot ?n = Some slot1" and
    rest: "publish_many_loop cd db l cluster (Suc ordinal) slot1 bs tx1 = Inr (tx', outs)"
    unfolding publish_many_loop_Cons by blast
  have slot1: "slot1 = slot + ?n" using slot1 by (simp add: usize_checked_add_def split: if_splits)
  have step: "coherent db tx1 \<and> publish_ok (tx_write tx1) \<and> stores logged l (tx_write tx) (tx_write tx1) \<and>
      untouched (gd_log db) l slot1 (gd_log (tx_write tx1))"
  proof (cases "pb_cluster b \<noteq> cluster")
    case True
    with one Cons.prems untouched_mono [OF Cons.prems(5), of slot1] show ?thesis by (auto simp: stores_same slot1)
  next
    case False
    with one refines_apply_one [OF Cons.prems(2), of cd l ordinal slot b]
    obtain prior where p: "coherent db tx1"
      "publish_one cd (gd_log db) l ordinal slot b prior (tx_write tx) = Inr (tx_write tx1, o1)"
      by (auto simp: refines_def)
    have log: "log_ok (gd_log (tx_write tx))" using Cons.prems(3) by (simp add: publish_ok_def)
    from publish_one_owned [OF p(2) log Cons.prems(4,5)] publish_one_keeps [OF p(2) Cons.prems(3)] Cons.prems(6,7) p(1)
    show ?thesis by (simp add: slot1)
  qed
  then have "owned (gd_active_bank (tx_write tx1)) logged (gd_log (tx_write tx1))" by (simp add: stores_def)
  with Cons.IH [OF rest] step Cons.prems(6,7) have "stores logged l (tx_write tx1) (tx_write tx')"
    by (simp add: slot1 add.assoc)
  with step show ?case by (auto intro: stores_trans)
qed (simp add: stores_same)

lemma apply_publish_many_owned:
  assumes run: "apply_publish_many cd db l batches db = Inr (w, result)" and ok: "publish_ok db"
    and own: "owned (gd_active_bank db) logged (gd_log db)" "untouched (gd_log db) l 0 (gd_log db)"
    and slots: "total_records batches \<le> 2 ^ 32" "\<forall>j < total_records batches. payload_id l j \<in> logged"
  shows "stores logged l db w"
proof (cases "kind_is_data db \<and> ct_bootstrap (gd_catalog db) \<noteq> None")
  case True
  then obtain spec where spec: "kind_is_data db" "ct_bootstrap (gd_catalog db) = Some spec" by blast
  from run obtain tx outcomes where
    "publish_many_loop cd db l (bs_cluster spec) 0 0 batches (PublishApplyTxn_new db) = Inr (tx, outcomes)"
    "w = tx_write tx"
    unfolding apply_publish_many_run [OF spec] by (auto simp: bind_result_Inr)
  with publish_many_loop_owned [OF this(1) coherent_start(1)] ok own slots show ?thesis
    by (simp add: coherent_start(2))
next
  case False
  with run own(1) show ?thesis by (auto simp: apply_publish_many_def stores_same split: if_splits)
qed

lemma apply_publish_owned:
  assumes run: "apply_publish cd db l batch db = Inr (w, result)" and ok: "publish_ok db"
    and own: "owned (gd_active_bank db) logged (gd_log db)" "untouched (gd_log db) l 0 (gd_log db)"
    and slots: "length (pb_records batch) \<le> 2 ^ 32" "\<forall>j < length (pb_records batch). payload_id l j \<in> logged"
  shows "stores logged l db w"
  using run
proof (cases rule: apply_publish_cases)
  case unchanged
  with own(1) show ?thesis by (simp add: stores_same)
next
  case (refused name r)
  from refused have "w = db" by (cases rule: create_bookmark_record_cases) simp_all
  with own(1) show ?thesis by (simp add: stores_same)
next
  case (appended committed w1 ret lg outcome)
  have "w1 = db\<lparr>gd_bookmarks := gd_bookmarks w1\<rparr>"
    using appended(4) by (auto elim: create_bookmark_record_cases)
  then have eq: "gd_log w1 = gd_log db" "gd_active_bank w1 = gd_active_bank db" by (metis group_db.ext_inject group_db.surjective group_db.update_convs(9))+
  have log: "log_ok (gd_log db)" using ok by (simp add: publish_ok_def)
  have w: "gd_log w = finish_append (pb_partition batch)
      (next_offset (gd_log db) (pb_partition batch) + of_nat (length (pb_records batch))) ret lg" "gd_active_bank w = gd_active_bank db"
    using appended(6) eq by simp_all
  from append_tail_owned [OF appended(5) [unfolded eq] w(1) appended(3) log own] slots w(2) show ?thesis
    by (simp add: stores_def)
qed

section \<open>Reclaiming\<close>

text \<open>An invariant of the three kinds of turn of the maintenance loop.\<close>

lemma maintain_loop_invariant:
  assumes "maintain_loop dblog bank p ranges max_records max_bytes examined reclaimed st = Inr st'" "P st"
    and "\<And>ret lg r. P (ret, lg) \<Longrightarrow> pr_reclaim_cursor ret < pr_logical_floor ret \<Longrightarrow> range_contains r (pr_reclaim_cursor ret) \<Longrightarrow>
      P (ret\<lparr>pr_reclaim_cursor := min (rg_end r) (pr_logical_floor ret)\<rparr>, lg)"
    and "\<And>ret lg. P (ret, lg) \<Longrightarrow> pr_reclaim_cursor ret < pr_logical_floor ret \<Longrightarrow>
      P (ret\<lparr>pr_reclaim_cursor := saturating_add (pr_reclaim_cursor ret) 1\<rparr>, lg)"
    and "\<And>ret lg r owners. P (ret, lg) \<Longrightarrow> pr_reclaim_cursor ret < pr_logical_floor ret \<Longrightarrow>
      tget (lg_records dblog) (p, pr_reclaim_cursor ret) = Some r \<Longrightarrow> tget (lg_owners dblog) (sr_payload_key r) = Some owners \<Longrightarrow>
      P (reclaim_record bank p r owners (ret, lg))"
  shows "P st'"
  using assms
proof (induction dblog bank p ranges max_records max_bytes examined reclaimed st rule: maintain_loop.induct)
  case (1 dblog bank p ranges max_records max_bytes examined reclaimed ret lg)
  note run = "1.prems"(1) and P = "1.prems"(2) and turns = "1.prems"(3-5)
  let ?c = "pr_reclaim_cursor ret"
  show ?case
  proof (cases "?c < pr_logical_floor ret \<and> examined < max_records")
    case False
    then have "st' = (ret, lg)" using run by (subst (asm) maintain_loop.simps) auto
    with P show ?thesis by simp
  next
    case go: True
    show ?thesis
    proof (cases "find (\<lambda>r. range_contains r ?c) ranges")
      case (Some r)
      then have r: "range_contains r ?c" by (auto simp: find_Some_iff)
      have "maintain_loop dblog bank p ranges max_records max_bytes examined reclaimed
          (ret\<lparr>pr_reclaim_cursor := min (rg_end r) (pr_logical_floor ret)\<rparr>, lg) = Inr st'"
        using run go Some by (subst (asm) maintain_loop.simps) simp
      from "1.IH"(3) [OF go Some this turns(1) [OF P conjunct1 [OF go] r] turns] show ?thesis by blast
    next
      case none: None
      show ?thesis
      proof (cases "tget (lg_records dblog) (p, ?c)")
        case None
        have "maintain_loop dblog bank p ranges max_records max_bytes (saturating_add examined 1) reclaimed
            (ret\<lparr>pr_reclaim_cursor := saturating_add ?c 1\<rparr>, lg) = Inr st'"
          using run go none None by (subst (asm) maintain_loop.simps) simp
        from "1.IH"(1) [OF go none None this turns(2) [OF P conjunct1 [OF go]] turns] show ?thesis by blast
      next
        case (Some r)
        show ?thesis
        proof (cases "examined > 0 \<and> saturating_add reclaimed (sr_payload_bytes r) > max_bytes")
          case True
          then have "st' = (ret, lg)" using run go none Some by (subst (asm) maintain_loop.simps) auto
          with P show ?thesis by simp
        next
          case small: False
          with run go none Some obtain owners where o: "tget (lg_owners dblog) (sr_payload_key r) = Some owners"
            by (subst (asm) maintain_loop.simps) (auto split: option.splits)
          have "maintain_loop dblog bank p ranges max_records max_bytes (saturating_add examined 1)
              (saturating_add reclaimed (sr_payload_bytes r)) (reclaim_record bank p r owners (ret, lg)) = Inr st'"
            using run go none Some small o by (subst (asm) maintain_loop.simps) auto
          from "1.IH"(2) [OF go none Some small o this turns(3) [OF P conjunct1 [OF go] Some o] turns] show ?thesis by blast
        qed
      qed
    qed
  qed
qed

text \<open>What is left of a log while records are reclaimed from it.\<close>

definition remains :: "log_state \<Rightarrow> log_state \<Rightarrow> bool" where
  "remains lg0 lg \<longleftrightarrow>
     (\<forall>s r. tget (lg_records lg) s = Some r \<longrightarrow> tget (lg_records lg0) s = Some r \<and>
        tget (lg_owners lg) (sr_payload_key r) = tget (lg_owners lg0) (sr_payload_key r)) \<and>
     (\<forall>k. tget (lg_payload lg) k = None \<or> tget (lg_payload lg) k = tget (lg_payload lg0) k)"

lemma remains_refl [simp]: "remains lg lg"
  by (simp add: remains_def)

lemma remains_reclaim:
  assumes ok: "owned bank logged lg" and rem: "remains lg0 lg"
    and r: "tget (lg_records lg) (p, pr_reclaim_cursor ret) = Some r" "tget (lg_owners lg0) (sr_payload_key r) = Some owners"
    and run: "reclaim_record bank p r owners (ret, lg) = (ret', lg')"
  shows "owned bank logged lg' \<and> remains lg0 lg' \<and> lg_records lg' = tdel (lg_records lg) (p, pr_reclaim_cursor ret)"
proof -
  have "tget (lg_owners lg) (sr_payload_key r) = Some owners" using rem r by (simp add: remains_def)
  note own = owned_reclaim [OF ok r(1) this run]
  have "tget (lg_payload lg') k = None \<or> tget (lg_payload lg') k = tget (lg_payload lg0) k" for k
  proof -
    have "tget (lg_payload lg') k = None \<or> tget (lg_payload lg') k = tget (lg_payload lg) k"
      using run by (cases "owners_reachable (set_applied_in owners bank False)") (auto simp: reclaim_record_def Let_def)
    with rem show ?thesis unfolding remains_def by metis
  qed
  moreover have "tget (lg_records lg0) s = Some q \<and>
        tget (lg_owners lg') (sr_payload_key q) = tget (lg_owners lg0) (sr_payload_key q)"
    if q: "tget (lg_records lg') s = Some q" for s q
  proof -
    from q have s: "tget (lg_records lg) s = Some q" "s \<noteq> (p, pr_reclaim_cursor ret)" by (simp_all add: own(3) split: if_splits)
    then have "sr_payload_key q \<noteq> sr_payload_key r" using ownedD(3) [OF ok] r(1) unfolding apart_def by metis
    with s(1) rem show ?thesis by (simp add: remains_def own(4) del: split_paired_All)
  qed
  ultimately have "remains lg0 lg'" by (simp add: remains_def del: split_paired_All)
  with own show ?thesis by blast
qed

lemma maintain_loop_owned:
  assumes run: "maintain_loop dblog bank p ranges mr mb 0 0 (ret, lg) = Inr (ret', lg')"
    and own: "owned bank logged lg" and same: "same_store dblog lg"
  shows "owned bank logged lg' \<and> remains dblog lg'"
proof -
  let ?P = "\<lambda>(ret, lg). owned bank logged lg \<and> remains dblog lg \<and>
      (\<forall>off \<ge> pr_reclaim_cursor ret. tget (lg_records lg) (p, off) = tget (lg_records dblog) (p, off))"
  have "?P (ret', lg')"
  proof (rule maintain_loop_invariant [OF run])
    show "?P (ret, lg)" using own same by (simp add: same_store_def remains_def)
  next
    fix ret lg r assume "?P (ret, lg)" "pr_reclaim_cursor ret < pr_logical_floor ret" "range_contains r (pr_reclaim_cursor ret)"
    then show "?P (ret\<lparr>pr_reclaim_cursor := min (rg_end r) (pr_logical_floor ret)\<rparr>, lg)"
      by (auto simp: range_contains_def min_le_iff_disj)
  next
    fix ret :: PartitionRetentionState and lg
    assume P: "?P (ret, lg)" and below: "pr_reclaim_cursor ret < pr_logical_floor ret"
    have "pr_reclaim_cursor ret \<le> saturating_add (pr_reclaim_cursor ret) 1" using below_next [OF below, of "pr_reclaim_cursor ret"] by simp
    with P show "?P (ret\<lparr>pr_reclaim_cursor := saturating_add (pr_reclaim_cursor ret) 1\<rparr>, lg)" by auto
  next
    fix ret :: PartitionRetentionState and lg r owners
    assume P: "?P (ret, lg)" and below: "pr_reclaim_cursor ret < pr_logical_floor ret"
      and r: "tget (lg_records dblog) (p, pr_reclaim_cursor ret) = Some r" "tget (lg_owners dblog) (sr_payload_key r) = Some owners"
    obtain ret1 lg1 where e: "reclaim_record bank p r owners (ret, lg) = (ret1, lg1)" by fastforce
    have c: "pr_reclaim_cursor ret1 = saturating_add (pr_reclaim_cursor ret) 1"
      using reclaim_record_cursor(1) [of bank p r owners ret lg] e by simp
    have past: "pr_reclaim_cursor ret \<le> off \<and> off \<noteq> pr_reclaim_cursor ret" if "pr_reclaim_cursor ret1 \<le> off" for off
      using that below_next [OF below, of off] unfolding c by (metis leD leI order.order_iff_strict)
    from P r have "owned bank logged lg1 \<and> remains dblog lg1 \<and> lg_records lg1 = tdel (lg_records lg) (p, pr_reclaim_cursor ret)"
      by (intro remains_reclaim [OF _ _ _ _ e]) auto
    with P past show "?P (reclaim_record bank p r owners (ret, lg))" by (auto simp: e)
  qed
  then show ?thesis by simp
qed

lemma maintain_owned:
  assumes run: "apply_maintain_retention db p c mr mb ob db = Inr (w, result)"
    and own: "owned (gd_active_bank db) logged (gd_log db)" and keyed: "leases_keyed (ls_leases (gd_leases db))"
  shows "gd_active_bank w = gd_active_bank db \<and> owned (gd_active_bank db) logged (gd_log w) \<and> remains (gd_log db) (gd_log w)"
  using maintain_start [OF run]
proof (elim disjE exE conjE)
  assume "w = db"
  with own show ?thesis by simp
next
  fix clock w1 xs ret' lg'
  assume e: "expire_due_leases db clock db = (w1, xs)"
    and l: "maintain_loop (gd_log db) (gd_active_bank db) p
        (map rl_range (filter (\<lambda>l. rg_partition (rl_range l) = p) (xs_active xs))) mr mb 0 0
        (ret_view db xs p, gd_log w1) = Inr (ret', lg')"
    and w: "w = w1\<lparr>gd_log := lg'\<lparr>lg_retention := tput (lg_retention lg') p ret'\<rparr>,
             gd_leases := (gd_leases w1)\<lparr>ls_clock := Some clock\<rparr>\<rparr>"
  note eff = expire_due_leases_effect [OF e keyed]
  have same: "same_store (gd_log db) (gd_log w1)" using eff by (simp add: expiry_effect_def same_store_def lowered_def)
  have bank: "gd_active_bank w1 = gd_active_bank db"
    by (subst conjunct1 [OF eff [unfolded expiry_effect_def]]) simp
  from maintain_loop_owned [OF l _ same] own
  have "owned (gd_active_bank db) logged lg' \<and> remains (gd_log db) lg'" by (simp add: owned_same [OF same])
  moreover have "same_store lg' (gd_log w)" by (simp add: w same_store_def)
  ultimately show ?thesis using bank by (simp add: owned_same) (simp add: w same_store_def remains_def)
qed

end
