(* ===== verification/Replica_Store.thy ===== *)
theory Replica_Store
  imports Payload_Ownership
begin

text \<open>
  What the operations of a replica do to the payload store: every command of the state machine keeps the
  owners exact and rewrites no payload (\<open>keeps_store\<close>), and removing log entries takes the log's share of
  their payloads away (\<open>remove_loop_ok\<close>).
\<close>

section \<open>What a command does to the store\<close>

lemma put_hint_store: "same_store lg (put_hint db p h lg)"
  by (simp add: put_hint_def same_store_def split: option.split)

lemma release_range_store: "same_store lg (release_range db xs r lg)"
  using put_hint_store by (auto simp: release_range_def Let_def same_store_def)

lemma expiry_store:
  assumes "expire_due_leases db clock db = (w, xs)" "leases_keyed (ls_leases (gd_leases db))"
  shows "same_store (gd_log db) (gd_log w)"
  using expire_due_leases_effect [OF assms] by (simp add: expiry_effect_def same_store_def lowered_def)

lemma lease_handler_store:
  assumes run: "(case prior of Some r \<Rightarrow> (db, r)
      | None \<Rightarrow> (case advance_lease_clock db ob of Inl e \<Rightarrow> finish db (Rejected e)
          | Inr clock \<Rightarrow> (case expire_due_leases db clock db of (w1, xs) \<Rightarrow> body clock w1 xs))) = (w, result)"
    and keyed: "leases_keyed (ls_leases (gd_leases db))"
    and finish: "\<And>r. gd_log (fst (finish db r)) = gd_log db"
    and body: "\<And>clock w1 xs. same_store (gd_log w1) (gd_log (fst (body clock w1 xs)))"
  shows "same_store (gd_log db) (gd_log w)"
  using run
proof (cases rule: lease_handler_cases)
  case (clock e)
  with finish [of "Rejected e"] show ?thesis by simp
next
  case (body clock w1 xs)
  with assms(4) [of w1 clock xs] expiry_store [OF body(3) keyed] show ?thesis
    by (auto intro: same_store_trans)
qed simp

lemma lease_stores:
  assumes keyed: "leases_keyed (ls_leases (gd_leases db))"
  shows "apply_admit_replay_lease cd db r ob db = (w, result) \<Longrightarrow> same_store (gd_log db) (gd_log w)"
    "apply_renew_replay_lease cd db r' ob db = (w, result) \<Longrightarrow> same_store (gd_log db) (gd_log w)"
    "apply_release_replay_lease cd db r'' ob db = (w, result) \<Longrightarrow> same_store (gd_log db) (gd_log w)"
  unfolding apply_admit_replay_lease_def apply_renew_replay_lease_def apply_release_replay_lease_def Let_def
  by (erule lease_handler_store [OF _ keyed]; auto simp: release_range_store split: sum.splits option.splits)+

lemma advance_retention_store: "same_store (gd_log db) (gd_log (fst (apply_advance_retention cd db request ob db)))"
  unfolding apply_advance_retention_def Let_def by (auto simp: same_store_def split: sum.splits option.splits)

text \<open>Commands that neither publish nor reclaim.\<close>

lemma catalog_command_store:
  assumes run: "dispatch cd db l c db = Inr (w, result)"
    and c: "case c of BootstrapControl _ _ _ _ _ _ \<Rightarrow> True | BootstrapData _ \<Rightarrow> True | CreateStreamIntent _ _ \<Rightarrow> True
      | ReplicaReady _ _ \<Rightarrow> True | ActivateStream _ \<Rightarrow> True | BeginDeleteStream _ \<Rightarrow> True | FinishDeleteStream _ \<Rightarrow> True
      | _ \<Rightarrow> False"
  shows "gd_log w = gd_log db \<and> gd_active_bank w = gd_active_bank db"
proof -
  have boot: ?thesis if "bootstrap_effect db w" using bootstrap_fields [OF that] by simp
  have cat: ?thesis if "catalog_effect db w" using catalog_fields [OF that] by simp
  show ?thesis
  proof (cases c)
    case (ReplicaReady sid grp)
    with run replica_ready_effect [of db sid grp] show ?thesis by (intro cat) (simp add: dispatch_def)
  next
    case (ActivateStream sid)
    with run activate_effect [of db sid] show ?thesis by (intro cat) (simp add: dispatch_def)
  next
    case (BeginDeleteStream sid)
    with run begin_delete_effect [of db sid] show ?thesis by (intro cat) (simp add: dispatch_def)
  next
    case (FinishDeleteStream sid)
    with run finish_delete_effect [of db sid] show ?thesis by (intro cat) (simp add: dispatch_def)
  qed (use run c in \<open>auto simp: dispatch_def dest: boot cat dest!: bootstrap_control_effect bootstrap_data_effect create_stream_effect\<close>)
qed

lemma admin_command_store:
  assumes run: "dispatch cd db l c db = Inr (w, result)"
    and c: "case c of OperationalProbe _ \<Rightarrow> True | BeginAdministration _ \<Rightarrow> True | CompleteAdministration _ \<Rightarrow> True
      | AbortAdministration _ \<Rightarrow> True | FinishAdministrationAbort _ \<Rightarrow> True | InitializeClusterTopology _ \<Rightarrow> True
      | InitializeSecurityPolicy _ \<Rightarrow> True | ApplySecurityMutation _ \<Rightarrow> True | ActivateSecuredTransport _ _ _ \<Rightarrow> True
      | _ \<Rightarrow> False"
  shows "gd_log w = gd_log db \<and> gd_active_bank w = gd_active_bank db"
proof -
  have adm: ?thesis if "admin_effect db w" using that by (simp add: admin_effect_def admin_frame_def)
  show ?thesis
  proof (cases c)
    case (ApplySecurityMutation m)
    with run policy_effects(3) [of db cd m] show ?thesis by (intro adm) (simp add: dispatch_def)
  next
    case (FinishAdministrationAbort request)
    with run finish_abort_effect [of db request] show ?thesis by (intro adm) (simp add: dispatch_def)
  next
    case (InitializeClusterTopology topology)
    with run policy_effects(1) [of db topology] show ?thesis by (intro adm) (simp add: dispatch_def)
  next
    case (InitializeSecurityPolicy policy)
    with run policy_effects(2) [of db policy] show ?thesis by (intro adm) (simp add: dispatch_def)
  qed (use run c in \<open>auto simp: dispatch_def intro!: adm dest: secured_transport_effect
      dest!: begin_administration_effect complete_administration_effect abort_administration_effect operational_probe_effect\<close>)
qed

lemma export_command_store:
  assumes "apply_export cd db l e db = Inr (w, result)" "tsorted (lg_reclaim_hint (gd_log db))"
  shows "same_store (gd_log db) (gd_log w) \<and> gd_active_bank w = gd_active_bank db"
  using export_effect_frames [OF apply_export_effect [OF assms(1)]]
proof
  assume "export_frame db w"
  from export_frame_fields [OF this] show ?thesis by simp
next
  assume r: "released_frame db w"
  have "same_store (gd_log db) (gd_log (resume_deferred_reclaim db (db\<lparr>gd_export := gd_export w\<rparr>)))"
    using resume_log(2,4,5) [OF assms(2), of "db\<lparr>gd_export := gd_export w\<rparr>"] by (simp add: same_store_def)
  with released_frame_fields(3) [OF r] show ?thesis unfolding r [unfolded released_frame_def, symmetric] by simp
qed

text \<open>
  The effect of the application of a committed entry: the owners stay exact, records are added for
  payloads of the entry only, and no payload is rewritten.
\<close>

definition keeps_store :: "bytes set \<Rightarrow> GroupLogId \<Rightarrow> group_db \<Rightarrow> group_db \<Rightarrow> bool" where
  "keeps_store logged l db w \<longleftrightarrow>
     gd_active_bank w = gd_active_bank db \<and> owned (gd_active_bank db) logged (gd_log w) \<and>
     indexed (gd_log w) \<subseteq> indexed (gd_log db) \<union> {payload_id l i |i. i < 2 ^ 32} \<and>
     (\<forall>k. tget (lg_payload (gd_log w)) k = None \<or> tget (lg_payload (gd_log w)) k = tget (lg_payload (gd_log db)) k)"

lemma keeps_store_same:
  assumes "same_store (gd_log db) (gd_log w)" "gd_active_bank w = gd_active_bank db" "owned (gd_active_bank db) logged (gd_log db)"
  shows "keeps_store logged l db w"
  using assms owned_same [OF assms(1)] indexed_same [OF assms(1)] by (simp add: keeps_store_def) (simp add: same_store_def)

lemma stores_keeps: "stores logged l db w \<Longrightarrow> keeps_store logged l db w"
  by (auto simp: stores_def keeps_store_def indexes_slots_def)

lemma remains_keeps:
  assumes "gd_active_bank w = gd_active_bank db" "owned (gd_active_bank db) logged (gd_log w)" "remains (gd_log db) (gd_log w)"
  shows "keeps_store logged l db w"
  using assms by (force simp: keeps_store_def remains_def indexed_def)

text \<open>The records of a command, in the order of their slots.\<close>

definition slots_logged :: "bytes set \<Rightarrow> GroupLogId \<Rightarrow> nat \<Rightarrow> bool" where
  "slots_logged logged l n \<longleftrightarrow> n \<le> 2 ^ 32 \<and> (\<forall>j < n. payload_id l j \<in> logged)"

fun command_records :: "GroupCommand \<Rightarrow> nat" where
  "command_records (Publish b) = length (pb_records b)"
| "command_records (PublishMany bs) = total_records bs"
| "command_records _ = 0"

lemma dispatch_store:
  assumes run: "dispatch cd db l c db = Inr (w, result)" and ok: "group_ok cd db"
    and own: "owned (gd_active_bank db) logged (gd_log db)" "untouched (gd_log db) l 0 (gd_log db)"
    and slots: "slots_logged logged l (command_records c)"
  shows "keeps_store logged l db w"
proof -
  have pok: "publish_ok db" and keyed: "leases_keyed (ls_leases (gd_leases db))" and hints: "tsorted (lg_reclaim_hint (gd_log db))"
    using group_okD(1,7) [OF ok] retention_okD(2) [OF group_okD(2) [OF ok]] by (simp_all add: hints_ok_def)
  have same: ?thesis if "same_store (gd_log db) (gd_log w)" "gd_active_bank w = gd_active_bank db"
    using keeps_store_same [OF that own(1)] .
  have lease: ?thesis if "same_store (gd_log db) (gd_log w)" "lease_effect db w"
    using that by (intro same) (simp_all add: lease_effect_def lease_frame_def)
  show ?thesis
  proof (cases c)
    case (Publish b)
    with run slots have a: "apply_publish cd db l b db = Inr (w, result)" "slots_logged logged l (command_records c)"
      by (simp_all add: dispatch_def)
    from apply_publish_owned [OF a(1) pok own] a(2) Publish show ?thesis by (simp add: stores_keeps slots_logged_def)
  next
    case (PublishMany bs)
    with run slots have a: "apply_publish_many cd db l bs db = Inr (w, result)" "slots_logged logged l (command_records c)"
      by (simp_all add: dispatch_def)
    from apply_publish_many_owned [OF a(1) pok own] a(2) PublishMany show ?thesis by (simp add: stores_keeps slots_logged_def)
  next
    case (CompareAndSetCheckpoint m)
    with run have "apply_checkpoint_mutation cd db m db = Inr (w, result)" by (simp add: dispatch_def)
    from checkpoint_fields [OF this] show ?thesis by (intro same) simp_all
  next
    case (CreateBookmark bid p name off)
    with run have a: "apply_create_bookmark db bid p name off db = (w, result)" by (simp add: dispatch_def)
    note r = a [unfolded apply_create_bookmark_def]
    have "w = db\<lparr>gd_bookmarks := gd_bookmarks w\<rparr>" using r by (cases rule: create_bookmark_record_cases) simp_all
    from bookmark_fields [OF this] show ?thesis by (intro same) simp_all
  next
    case (DeleteBookmark p bid)
    with run have a: "apply_delete_bookmark db p bid db = (w, result)" by (simp add: dispatch_def)
    have "bookmarks_ok (gd_bookmarks db)" using pok by (simp add: publish_ok_def)
    from bookmark_fields [OF conjunct1 [OF bookmark_frames(2) [OF a this]]] show ?thesis by (intro same) simp_all
  next
    case (CreateStreamBookmark bid name v)
    with run have "apply_create_stream_bookmark db bid name v db = (w, result)" by (simp add: dispatch_def)
    from stream_bookmark_fields [OF stream_bookmark_frames(1) [OF this]] show ?thesis by (intro same) simp_all
  next
    case (DeleteStreamBookmark sid bid)
    with run have "apply_delete_stream_bookmark db sid bid db = (w, result)" by (simp add: dispatch_def)
    from stream_bookmark_fields [OF stream_bookmark_frames(2) [OF this]] show ?thesis by (intro same) simp_all
  next
    case (AdvanceRetention r ob)
    with run have "w = fst (apply_advance_retention cd db r ob db)" by (simp add: dispatch_def)
    with advance_retention_store [of db cd r ob] advance_retention_effect [of db cd r ob] show ?thesis
      by (intro same) (simp_all add: retention_effect_def lease_frame_def)
  next
    case (AdmitReplayLease r ob)
    with run have "apply_admit_replay_lease cd db r ob db = (w, result)" by (simp add: dispatch_def)
    from lease_stores(1) [OF keyed this] admit_effect [OF this keyed] show ?thesis by (rule lease)
  next
    case (RenewReplayLease r ob)
    with run have "apply_renew_replay_lease cd db r ob db = (w, result)" by (simp add: dispatch_def)
    from lease_stores(2) [OF keyed this] renew_effect [OF this keyed] show ?thesis by (rule lease)
  next
    case (ReleaseReplayLease r ob)
    with run have "apply_release_replay_lease cd db r ob db = (w, result)" by (simp add: dispatch_def)
    from lease_stores(3) [OF keyed this] release_effect [OF this keyed] show ?thesis by (rule lease)
  next
    case (MaintainRetention p cursor mr mb ob)
    with run have "apply_maintain_retention db p cursor mr mb ob db = Inr (w, result)" by (simp add: dispatch_def)
    from maintain_owned [OF this own(1) keyed] show ?thesis by (intro remains_keeps) simp_all
  next
    case (Export e)
    with run have "apply_export cd db l e db = Inr (w, result)" by (simp add: dispatch_def)
    from export_command_store [OF this hints] show ?thesis by (intro same) simp_all
  qed (use catalog_command_store [OF run] admin_command_store [OF run] in \<open>auto intro!: same\<close>)
qed

section \<open>What the log operations do to the store\<close>

text \<open>A log state in which only owners and payloads differ, and payloads only vanish.\<close>

definition drops :: "log_state \<Rightarrow> log_state \<Rightarrow> bool" where
  "drops lg lg' \<longleftrightarrow>
     lg' = lg\<lparr>lg_payload := lg_payload lg', lg_owners := lg_owners lg'\<rparr> \<and>
     (\<forall>k. tget (lg_payload lg') k = None \<or> tget (lg_payload lg') k = tget (lg_payload lg) k)"

lemma drops_refl [simp]: "drops lg lg"
  by (simp add: drops_def)

lemma drops_trans: "drops a b \<Longrightarrow> drops b c \<Longrightarrow> drops a c"
proof -
  assume ab: "drops a b" and bc: "drops b c"
  have "c = b\<lparr>lg_payload := lg_payload c, lg_owners := lg_owners c\<rparr>" using bc unfolding drops_def by blast
  also have "\<dots> = a\<lparr>lg_payload := lg_payload c, lg_owners := lg_owners c\<rparr>"
    by (subst conjunct1 [OF ab [unfolded drops_def]]) simp
  finally have "c = a\<lparr>lg_payload := lg_payload c, lg_owners := lg_owners c\<rparr>" .
  with ab bc show ?thesis unfolding drops_def by metis
qed

lemma drops_records: "drops lg lg' \<Longrightarrow> lg_records lg' = lg_records lg"
  unfolding drops_def by (metis log_state.select_convs(4) log_state.surjective log_state.update_convs(5,6))

lemma drops_indexed: "drops lg lg' \<Longrightarrow> indexed lg' = indexed lg"
  by (simp add: indexed_def drops_records)

lemma owned_disown:
  assumes ok: "owned bank logged lg" and k: "k \<in> logged" and o: "tget (lg_owners lg) k = Some owners"
    and lg': "lg' = (if owners_reachable (owners\<lparr>po_raft_log := False\<rparr>)
        then lg\<lparr>lg_owners := tput (lg_owners lg) k (owners\<lparr>po_raft_log := False\<rparr>)\<rparr>
        else lg\<lparr>lg_payload := tdel (lg_payload lg) k, lg_owners := tdel (lg_owners lg) k\<rparr>)"
  shows "owned bank (logged - {k}) lg' \<and> drops lg lg' \<and> (\<forall>j. j \<noteq> k \<longrightarrow> tget (lg_owners lg') j = tget (lg_owners lg) j)"
proof -
  have owners: "owners = \<lparr>po_raft_log = True, po_applied_state = False,
      po_applied_banks = (if k \<in> indexed lg then bank_bit bank else 0)\<rparr>"
    using o k by (simp add: ownedD(1) [OF ok] share_def)
  have reach: "owners_reachable (owners\<lparr>po_raft_log := False\<rparr>) \<longleftrightarrow> k \<in> indexed lg"
    by (simp add: owners owners_reachable_def)
  have d: "drops lg lg'" by (simp add: lg' drops_def)
  have "tget (lg_owners lg') j = share bank (logged - {k}) (indexed lg') j" for j
    using ownedD(1) [OF ok, of j] unfolding drops_indexed [OF d]
    by (cases "k \<in> indexed lg") (auto simp: lg' owners owners_reachable_def share_def)
  moreover have "tget (lg_payload lg') j = None \<longleftrightarrow> j \<notin> logged - {k} \<and> j \<notin> indexed lg'" for j
    using ownedD(2) [OF ok, of j] k unfolding drops_indexed [OF d] by (auto simp: lg' reach)
  moreover have "apart lg'" using ownedD(3) [OF ok] by (simp add: apart_def drops_records [OF d])
  ultimately have "owned bank (logged - {k}) lg'" by (simp add: owned_def share_def)
  with d show ?thesis by (simp add: lg')
qed

lemma disown_payloads_ok:
  assumes "owned bank logged lg" "set keys \<subseteq> logged" "distinct keys"
    and "\<forall>k \<in> set keys. tget (lg_owners lg) k = tget (lg_owners lg0) k"
  shows "\<exists>lg'. disown_payloads lg0 keys lg = Inr lg' \<and> owned bank (logged - set keys) lg' \<and> drops lg lg' \<and>
    (\<forall>j. j \<notin> set keys \<longrightarrow> tget (lg_owners lg') j = tget (lg_owners lg) j)"
  using assms
proof (induction keys arbitrary: lg logged)
  case (Cons k keys)
  have k: "k \<in> logged" using Cons.prems(2) by simp
  with ownedD(1) [OF Cons.prems(1), of k] obtain owners where o: "tget (lg_owners lg) k = Some owners" by (auto simp: share_def)
  define lg1 where "lg1 = (if owners_reachable (owners\<lparr>po_raft_log := False\<rparr>)
      then lg\<lparr>lg_owners := tput (lg_owners lg) k (owners\<lparr>po_raft_log := False\<rparr>)\<rparr>
      else lg\<lparr>lg_payload := tdel (lg_payload lg) k, lg_owners := tdel (lg_owners lg) k\<rparr>)"
  note one = owned_disown [OF Cons.prems(1) k o lg1_def]
  have "\<exists>lg'. disown_payloads lg0 keys lg1 = Inr lg' \<and> owned bank (logged - {k} - set keys) lg' \<and> drops lg1 lg' \<and>
      (\<forall>j. j \<notin> set keys \<longrightarrow> tget (lg_owners lg') j = tget (lg_owners lg1) j)"
    using one Cons.prems(2-4) by (intro Cons.IH) auto
  then obtain lg' where r: "disown_payloads lg0 keys lg1 = Inr lg'" "owned bank (logged - {k} - set keys) lg'" "drops lg1 lg'"
    "\<forall>j. j \<notin> set keys \<longrightarrow> tget (lg_owners lg') j = tget (lg_owners lg1) j" by blast
  have "tget (lg_owners lg0) k = Some owners" using Cons.prems(4) o by simp
  then have "disown_payloads lg0 (k # keys) lg = Inr lg'" using r(1) by (simp add: lg1_def Let_def)
  moreover have "logged - {k} - set keys = logged - set (k # keys)" by auto
  ultimately show ?case using r(2-4) one drops_trans [of lg lg1 lg'] by (intro exI [of _ lg']) (simp add: subset_iff)
qed simp

definition logged :: "GroupEntry list \<Rightarrow> bytes set" where
  "logged es = (\<Union>e \<in> set es. entry_keys e)"

definition entry_index :: "GroupEntry \<Rightarrow> u64" where
  "entry_index e = li_index (en_log_id e)"

definition thin_log :: "codec \<Rightarrow> GroupEntry list \<Rightarrow> (u64, ThinEntry) table" where
  "thin_log cd es = map (\<lambda>e. (entry_index e, thin_form cd e)) es"

lemma logged_simps [simp]:
  "logged [] = {}" "logged (e # es) = entry_keys e \<union> logged es" "logged (es @ fs) = logged es \<union> logged fs"
  by (simp_all add: logged_def)

lemma ascending_simps:
  "ascending [] \<longleftrightarrow> True" "ascending (e # es) \<longleftrightarrow> (\<forall>f \<in> set es. entry_index e < entry_index f) \<and> ascending es"
  by (simp_all add: ascending_def entry_index_def)

lemma ascending_filter: "ascending es \<Longrightarrow> ascending (filter P es)"
  by (induction es) (simp_all add: ascending_simps)

lemma ascending_append:
  "ascending (es @ fs) \<longleftrightarrow> ascending es \<and> ascending fs \<and> (\<forall>e \<in> set es. \<forall>f \<in> set fs. entry_index e < entry_index f)"
  by (induction es) (auto simp: ascending_simps)

lemma ascending_inj: "ascending es \<Longrightarrow> e \<in> set es \<Longrightarrow> f \<in> set es \<Longrightarrow> entry_index e = entry_index f \<Longrightarrow> e = f"
  by (induction es) (auto simp: ascending_simps)

lemma thin_log_sorted: "ascending es \<Longrightarrow> tsorted (thin_log cd es)"
  by (simp add: thin_log_def tsorted_def ascending_def comp_def entry_index_def)

lemma logged_disjoint:
  assumes "entry_valid e" "\<forall>f \<in> set es. entry_valid f \<and> entry_index e \<noteq> entry_index f"
  shows "entry_keys e \<inter> logged es = {}"
  using assms entry_keys_disjoint [OF assms(1)] unfolding logged_def entry_index_def by fastforce

lemma remove_loop_ok:
  assumes "owned bank keys (gd_log (rp_group w))" "\<forall>e \<in> set es. entry_valid e" "ascending es" "logged es \<subseteq> keys"
    and "\<forall>k \<in> logged es. tget (lg_owners (gd_log (rp_group w))) k = tget (lg_owners lg0) k"
  shows "\<exists>w'. remove_loop lg0 (thin_log cd es) w = Inr w' \<and>
    owned bank (keys - logged es) (gd_log (rp_group w')) \<and> drops (gd_log (rp_group w)) (gd_log (rp_group w')) \<and>
    rp_group w' = (rp_group w)\<lparr>gd_log := gd_log (rp_group w')\<rparr> \<and>
    rp_raft w' = (rp_raft w)\<lparr>rf_log := filter (\<lambda>x. fst x \<notin> entry_index ` set es) (rf_log (rp_raft w))\<rparr>"
  using assms
proof (induction es arbitrary: w keys)
  case Nil
  then show ?case by (simp add: thin_log_def)
next
  case (Cons e es)
  have v: "entry_valid e" using Cons.prems(2) by simp
  note thin = thin_form(2-4) [OF v, of cd]
  have disj: "entry_keys e \<inter> logged es = {}"
    using Cons.prems(2,3) by (intro logged_disjoint [OF v]) (auto simp: ascending_simps)
  obtain lg where lg: "disown_payloads lg0 (thin_payload_keys (thin_form cd e)) (gd_log (rp_group w)) = Inr lg"
    "owned bank (keys - entry_keys e) lg" "drops (gd_log (rp_group w)) lg"
    "\<forall>j. j \<notin> entry_keys e \<longrightarrow> tget (lg_owners lg) j = tget (lg_owners (gd_log (rp_group w))) j"
    using disown_payloads_ok [OF Cons.prems(1), of "thin_payload_keys (thin_form cd e)" lg0] Cons.prems(4,5) thin by auto
  let ?w = "w\<lparr>rp_group := (rp_group w)\<lparr>gd_log := lg\<rparr>,
      rp_raft := (rp_raft w)\<lparr>rf_log := tdel (rf_log (rp_raft w)) (entry_index e)\<rparr>\<rparr>"
  have "logged es \<subseteq> keys - entry_keys e" using Cons.prems(4) disj by auto
  moreover have "\<forall>k \<in> logged es. tget (lg_owners lg) k = tget (lg_owners lg0) k" using lg(4) Cons.prems(5) disj by auto
  ultimately obtain w' where ih: "remove_loop lg0 (thin_log cd es) ?w = Inr w'"
    "owned bank (keys - entry_keys e - logged es) (gd_log (rp_group w'))" "drops lg (gd_log (rp_group w'))"
    "rp_group w' = (rp_group w)\<lparr>gd_log := gd_log (rp_group w')\<rparr>"
    "rp_raft w' = (rp_raft w)\<lparr>rf_log := filter (\<lambda>x. fst x \<notin> entry_index ` set es) (tdel (rf_log (rp_raft w)) (entry_index e))\<rparr>"
    using Cons.IH [of "keys - entry_keys e" ?w] Cons.prems(2,3) lg(2) by (auto simp: ascending_simps)
  have "remove_loop lg0 (thin_log cd (e # es)) w = Inr w'"
    using ih(1) lg(1) by (simp add: thin_log_def)
  moreover have "keys - entry_keys e - logged es = keys - logged (e # es)" by auto
  moreover have "filter (\<lambda>x. fst x \<notin> entry_index ` set es) (tdel (rf_log (rp_raft w)) (entry_index e)) =
      filter (\<lambda>x. fst x \<notin> entry_index ` set (e # es)) (rf_log (rp_raft w))"
    unfolding tdel_def filter_filter by (rule filter_cong) auto
  ultimately show ?case
    using ih(2-5) drops_trans [OF lg(3) ih(3)] by (intro exI [of _ w']) simp
qed

text \<open>The part of a sorted log between two bounds.\<close>

lemma log_slice_filter:
  "tsorted t \<Longrightarrow> log_slice start stop t =
    filter (\<lambda>x. start \<le> fst x \<and> (case stop of None \<Rightarrow> True | Some e \<Rightarrow> fst x < e)) t"
proof (induction t)
  case (Cons x t)
  let ?in = "\<lambda>x :: u64 \<times> ThinEntry. case stop of None \<Rightarrow> True | Some e \<Rightarrow> fst x < e"
  have sorted: "\<forall>y \<in> set t. fst x < fst y" "tsorted t" using Cons.prems by (auto simp: tsorted_Cons)
  show ?case
  proof (cases "fst x < start")
    case True
    then have "\<not> start \<le> fst x" by simp
    with True Cons.IH [OF sorted(2)] show ?thesis by (simp add: log_slice_def case_prod_unfold)
  next
    case False
    then have ge: "start \<le> fst y" if "y \<in> set t" for y using sorted(1) that by (meson leI order_trans less_imp_le)
    have "takeWhile ?in u = filter ?in u" if "tsorted u" for u
      using that by (induction u) (auto simp: tsorted_Cons split: option.splits intro!: filter_False [symmetric])
    from this [OF Cons.prems] have "log_slice start stop (x # t) = filter ?in (x # t)"
      using False by (simp add: log_slice_def case_prod_unfold)
    also have "\<dots> = filter (\<lambda>x. start \<le> fst x \<and> ?in x) (x # t)"
      using False ge by (intro filter_cong) auto
    finally show ?thesis .
  qed
qed (simp add: log_slice_def)

end
