(* ===== verification/Replica_Run.thy ===== *)
theory Replica_Run
  imports Replica_Store
begin

text \<open>
  Runs of a replica: the consensus library appends, truncates and purges log entries and has committed
  entries applied, in one database. The invariant \<open>replica_ok\<close> joins that of the group with exact payload
  owners; the log the replica represents is a plain list of entries, on which the operations are list
  operations (\<open>represents\<close>).
\<close>

section \<open>The log a replica represents\<close>

definition represents :: "codec \<Rightarrow> replica \<Rightarrow> GroupEntry list \<Rightarrow> bool" where
  "represents cd rp es \<longleftrightarrow>
     rf_log (rp_raft rp) = thin_log cd es \<and> ascending es \<and> (\<forall>e \<in> set es. entry_valid e) \<and>
     holds_payloads (lg_payload (gd_log (rp_group rp))) (concat (map entry_payloads es))"

text \<open>Reading gives back the entries between the bounds.\<close>

definition in_range :: "bound \<Rightarrow> bound \<Rightarrow> u64 \<Rightarrow> bool" where
  "in_range start stop i \<longleftrightarrow>
     range_start start \<le> i \<and> (case range_end stop of None \<Rightarrow> True | Some e \<Rightarrow> i < e)"

lemma hydrate_thin:
  assumes "\<forall>e \<in> set es. entry_valid e" "holds_payloads payload (concat (map entry_payloads es))"
  shows "hydrate_entries cd payload (map (thin_form cd) es) = Inr es"
  using assms
proof (induction es)
  case (Cons e es)
  then have "holds_payloads payload (entry_payloads e)" "holds_payloads payload (concat (map entry_payloads es))"
    by (auto simp: holds_payloads_def)
  with Cons thin_form(5) [of e payload cd] show ?case by simp
qed simp

lemma holds_payloadsD: "holds_payloads payload kbs \<Longrightarrow> (k, b) \<in> set kbs \<Longrightarrow> tget payload k = Some (encode_payload_value b)"
  unfolding holds_payloads_def by blast

lemma entry_payload_logged: "(k, b) \<in> set (concat (map entry_payloads es)) \<Longrightarrow> k \<in> logged es"
  by (auto simp: logged_def entry_payload_keys [symmetric] intro!: rev_image_eqI)

text \<open>Payloads that are still there after some have vanished.\<close>

lemma holds_remaining:
  assumes "holds_payloads payload (concat (map entry_payloads es))"
    and "\<forall>k. tget payload' k = None \<or> tget payload' k = tget payload k" "\<forall>k \<in> logged es. tget payload' k \<noteq> None"
  shows "holds_payloads payload' (concat (map entry_payloads es))"
proof -
  have "tget payload' k = Some (encode_payload_value b)" if "(k, b) \<in> set (concat (map entry_payloads es))" for k b
    using assms(2,3) holds_payloadsD [OF assms(1) that] entry_payload_logged [OF that] by metis
  then show ?thesis unfolding holds_payloads_def by blast
qed

lemma holds_filter:
  "holds_payloads payload (concat (map entry_payloads es)) \<Longrightarrow> holds_payloads payload (concat (map entry_payloads (filter P es)))"
  by (auto simp: holds_payloads_def)

lemma represents_read:
  assumes "represents cd rp es"
  shows "try_get_log_entries cd rp start stop = Inr (filter (\<lambda>e. in_range start stop (entry_index e)) es)"
proof -
  let ?P = "\<lambda>e. in_range start stop (entry_index e)"
  have "map snd (log_slice (range_start start) (range_end stop) (rf_log (rp_raft rp))) = map (thin_form cd) (filter ?P es)"
    using assms unfolding represents_def
    by (simp add: log_slice_filter thin_log_sorted) (simp add: thin_log_def filter_map comp_def in_range_def cong: option.case_cong)
  moreover have "hydrate_entries cd (lg_payload (gd_log (rp_group rp))) (map (thin_form cd) (filter ?P es)) = Inr (filter ?P es)"
    using assms unfolding represents_def by (intro hydrate_thin holds_filter) auto
  ultimately show ?thesis by (simp add: try_get_log_entries_def)
qed

text \<open>The invariant of a replica that represents the entries \<open>es\<close>.\<close>

definition applied_index :: "group_db \<Rightarrow> u64 option" where
  "applied_index db = map_option li_index (gd_applied db)"

definition past_applied :: "group_db \<Rightarrow> u64 \<Rightarrow> bool" where
  "past_applied db i \<longleftrightarrow> (\<forall>a. applied_index db = Some a \<longrightarrow> a < i)"

definition records_applied :: "group_db \<Rightarrow> bool" where
  "records_applied db \<longleftrightarrow>
     (\<forall>k \<in> indexed (gd_log db). \<exists>l i. k = payload_id l i \<and> i < 2 ^ 32 \<and> \<not> past_applied db (li_index l))"

definition payloads_framed :: "log_state \<Rightarrow> bool" where
  "payloads_framed lg \<longleftrightarrow> (\<forall>k v. tget (lg_payload lg) k = Some v \<longrightarrow> (\<exists>b. v = encode_payload_value b))"

lemma payloads_framed_drop:
  assumes "payloads_framed lg" "\<forall>k. tget (lg_payload lg') k = None \<or> tget (lg_payload lg') k = tget (lg_payload lg) k"
  shows "payloads_framed lg'"
  using assms unfolding payloads_framed_def by (metis option.distinct(1))

definition replica_ok :: "codec \<Rightarrow> replica \<Rightarrow> GroupEntry list \<Rightarrow> bool" where
  "replica_ok cd rp es \<longleftrightarrow>
     represents cd rp es \<and> group_ok cd (rp_group rp) \<and> records_applied (rp_group rp) \<and> payloads_framed (gd_log (rp_group rp)) \<and>
     owned (gd_active_bank (rp_group rp)) (logged es) (gd_log (rp_group rp))"

section \<open>Steps\<close>

datatype replica_op =
    AppendOp "GroupEntry list"
  | TruncateOp "GroupLogId option"
  | PurgeOp GroupLogId
  | CommitOp "GroupLogId option"
  | VoteOp bytes
  | ApplyOp u64

text \<open>
  The consensus library appends above the last entry and above what is applied, and it applies the
  entry after the applied ones that it reads from the log. Indices stay below the last \<open>u64\<close>.
\<close>

inductive replica_step :: "codec \<Rightarrow> replica \<Rightarrow> replica_op \<Rightarrow> replica \<Rightarrow> bool" for cd where
  append_step: "append_entries cd rp es = Inr rp' \<Longrightarrow> \<forall>e \<in> set es. entry_valid e \<Longrightarrow> ascending es \<Longrightarrow>
    \<forall>e \<in> set es. (\<forall>i \<in> fst ` set (rf_log (rp_raft rp)). i < entry_index e) \<and> past_applied (rp_group rp) (entry_index e) \<Longrightarrow>
    replica_step cd rp (AppendOp es) rp'"
| truncate_step: "truncate_after rp l = Inr rp' \<Longrightarrow> \<forall>m. l = Some m \<longrightarrow> li_index m < - 1 \<Longrightarrow> replica_step cd rp (TruncateOp l) rp'"
| purge_step: "purge rp l = Inr rp' \<Longrightarrow> li_index l < - 1 \<Longrightarrow> replica_step cd rp (PurgeOp l) rp'"
| commit_step: "replica_step cd rp (CommitOp c) (save_committed c rp)"
| vote_step: "replica_step cd rp (VoteOp v) (save_vote v rp)"
| apply_step: "try_get_log_entries cd rp (Included i) (Included i) = Inr [e] \<Longrightarrow> past_applied (rp_group rp) i \<Longrightarrow>
    entry_step cd (rp_group rp) e g \<Longrightarrow> replica_step cd rp (ApplyOp i) (rp\<lparr>rp_group := g\<rparr>)"

inductive_cases replica_stepE: "replica_step cd rp op rp'"

text \<open>The same operations on the plain list.\<close>

fun log_after :: "replica_op \<Rightarrow> GroupEntry list \<Rightarrow> GroupEntry list" where
  "log_after (AppendOp es) log = log @ es"
| "log_after (TruncateOp l) log =
     (case l of None \<Rightarrow> [] | Some m \<Rightarrow> filter (\<lambda>e. entry_index e \<le> li_index m) log)"
| "log_after (PurgeOp l) log = filter (\<lambda>e. li_index l < entry_index e) log"
| "log_after (CommitOp c) log = log"
| "log_after (VoteOp v) log = log"
| "log_after (ApplyOp i) log = log"

section \<open>The invariant\<close>

text \<open>A group in which only owners and payloads differ.\<close>

definition store_frame :: "group_db \<Rightarrow> group_db \<Rightarrow> bool" where
  "store_frame db w \<longleftrightarrow>
     w = db\<lparr>gd_log := (gd_log db)\<lparr>lg_payload := lg_payload (gd_log w), lg_owners := lg_owners (gd_log w)\<rparr>\<rparr>"

lemma store_frameI:
  assumes "w = db\<lparr>gd_log := gd_log w\<rparr>" "gd_log w = (gd_log db)\<lparr>lg_payload := lg_payload (gd_log w), lg_owners := lg_owners (gd_log w)\<rparr>"
  shows "store_frame db w"
  unfolding store_frame_def using assms by metis

lemma store_frame_fields:
  assumes "store_frame db w"
  shows "gd_active_bank w = gd_active_bank db" "gd_applied w = gd_applied db" "lg_records (gd_log w) = lg_records (gd_log db)"
    "indexed (gd_log w) = indexed (gd_log db)" "past_applied w = past_applied db" "records_applied w = records_applied db"
proof -
  show "gd_active_bank w = gd_active_bank db" and a: "gd_applied w = gd_applied db"
    and r: "lg_records (gd_log w) = lg_records (gd_log db)"
    by (subst assms [unfolded store_frame_def], simp)+
  show i: "indexed (gd_log w) = indexed (gd_log db)" and p: "past_applied w = past_applied db"
    by (simp_all add: indexed_def r past_applied_def applied_index_def a fun_eq_iff)
  show "records_applied w = records_applied db" by (simp add: records_applied_def i p)
qed

lemma group_ok_store:
  assumes "store_frame db w"
  shows "group_ok cd w = group_ok cd db"
proof -
  define lg where "lg = (gd_log db)\<lparr>lg_payload := lg_payload (gd_log w), lg_owners := lg_owners (gd_log w)\<rparr>"
  have w: "w = db\<lparr>gd_log := lg\<rparr>" using assms unfolding store_frame_def lg_def .
  have fence: "mutation_fence_state w = mutation_fence_state db" by (simp add: w mutation_fence_state_def)
  have r: "records_of lg = records_of (gd_log db)" "retention_of lg = retention_of (gd_log db)"
    "next_offset lg = next_offset (gd_log db)" "lg_records lg = lg_records (gd_log db)"
    "lg_reclaim_hint lg = lg_reclaim_hint (gd_log db)" "lg_next_offset lg = lg_next_offset (gd_log db)"
    by (simp_all add: lg_def records_of_def retention_of_def next_offset_def fun_eq_iff)
  have "export_ok w = export_ok db" by (rule export_ok_cong) (simp_all add: fence, simp_all add: w)
  moreover have "hints_ok w = hints_ok db" by (simp add: hints_ok_def export_fenced_def fence) (simp add: w r)
  ultimately show ?thesis
    by (simp add: w r group_ok_def publish_ok_def retention_ok_def lease_budget_of_def checkpoints_ok_def control_ok_def
        kind_is_data_def leases_traced_def mutation_session_def log_ok_def partition_ok_def leases_backed_def no_leak_def)
qed

lemma entry_keyE:
  assumes "k \<in> entry_keys e" "entry_valid e"
  obtains i where "k = payload_id (en_log_id e) i" "i < 2 ^ 32" "i < length (entry_records e)"
  using assms entry_records_bound [OF assms(2)] by (auto simp: entry_keys_def slot_keys_def)

lemma not_indexed:
  assumes "records_applied db" "past_applied db (li_index l)" "i < 2 ^ 32"
  shows "payload_id l i \<notin> indexed (gd_log db)"
proof
  assume "payload_id l i \<in> indexed (gd_log db)"
  with assms(1) obtain m j where m: "payload_id l i = payload_id m j" "j < 2 ^ 32" "\<not> past_applied db (li_index m)"
    unfolding records_applied_def by blast
  then have "m = l" using assms(3) by (simp add: payload_id_inject)
  with m(3) assms(2) show False by simp
qed

lemma append_ok:
  assumes ok: "replica_ok cd rp log" and run: "append_entries cd rp es = Inr rp'"
    and es: "\<forall>e \<in> set es. entry_valid e" "ascending es"
    and above: "\<forall>e \<in> set es. (\<forall>i \<in> fst ` set (rf_log (rp_raft rp)). i < entry_index e) \<and> past_applied (rp_group rp) (entry_index e)"
  shows "replica_ok cd rp' (log @ es)" "store_frame (rp_group rp) (rp_group rp')"
    "k \<in> indexed (gd_log (rp_group rp)) \<Longrightarrow>
      tget (lg_payload (gd_log (rp_group rp'))) k = tget (lg_payload (gd_log (rp_group rp))) k"
proof -
  let ?lg = "gd_log (rp_group rp)" and ?lg' = "gd_log (rp_group rp')"
  have R: "rf_log (rp_raft rp) = thin_log cd log" "ascending log" "\<forall>e \<in> set log. entry_valid e"
    "holds_payloads (lg_payload ?lg) (concat (map entry_payloads log))"
    and own: "owned (gd_active_bank (rp_group rp)) (logged log) ?lg"
    and grp: "group_ok cd (rp_group rp)" "records_applied (rp_group rp)" "payloads_framed ?lg"
    using ok unfolding replica_ok_def represents_def by blast+
  have above': "\<forall>e \<in> set es. \<forall>i \<in> fst ` set (rf_log (rp_raft rp)). i < li_index (en_log_id e)"
    using above by (simp add: entry_index_def)
  obtain A: "rf_log (rp_raft rp') = rf_log (rp_raft rp) @ thin_log cd es"
    "rp_group rp' = (rp_group rp)\<lparr>gd_log := ?lg'\<rparr>" "stages (concat (map entry_payloads es)) ?lg ?lg'"
    using append_loop_ok [OF es above', of cd] run
    unfolding append_entries_def thin_log_def entry_index_def by (metis sum.inject(2))
  have keys: "fst ` set (concat (map entry_payloads es)) = logged es"
    by (auto simp: image_UN entry_payload_keys logged_def)
  have S: "?lg' = ?lg\<lparr>lg_payload := lg_payload ?lg', lg_owners := lg_owners ?lg'\<rparr>"
    "tget (lg_owners ?lg') k = (if k \<in> logged es then Some staged else tget (lg_owners ?lg) k)"
    "k \<notin> logged es \<Longrightarrow> tget (lg_payload ?lg') k = tget (lg_payload ?lg) k"
    "holds_payloads (lg_payload ?lg') (concat (map entry_payloads es))" for k
    using A(3) unfolding stages_def keys by blast+
  have order: "\<forall>e \<in> set log. \<forall>f \<in> set es. entry_index e < entry_index f"
    using above R(1) by (auto simp: thin_log_def)
  have disj: "logged log \<inter> logged es = {}"
  proof -
    have "entry_keys e \<inter> logged es = {}" if "e \<in> set log" for e
      using that R(3) es(1) order by (intro logged_disjoint) (blast dest: less_imp_neq)+
    then show ?thesis unfolding logged_def by blast
  qed
  show frame: "store_frame (rp_group rp) (rp_group rp')" by (rule store_frameI [OF A(2) S(1)])
  note f = store_frame_fields [OF frame]
  have fresh: "k \<notin> indexed ?lg" if k: "k \<in> logged es" for k
  proof -
    from k obtain e where e: "e \<in> set es" "k \<in> entry_keys e" by (auto simp: logged_def)
    with es(1) obtain i where "k = payload_id (en_log_id e) i" "i < 2 ^ 32" by (blast elim: entry_keyE)
    with not_indexed [OF grp(2), of "en_log_id e" i] above e(1) show ?thesis by (simp add: entry_index_def)
  qed
  then show "k \<in> indexed ?lg \<Longrightarrow> tget (lg_payload ?lg') k = tget (lg_payload ?lg) k" using S(3) [of k] by blast
  have "holds_payloads (lg_payload ?lg') (concat (map entry_payloads log))"
  proof -
    have "tget (lg_payload ?lg') k = Some (encode_payload_value b)" if "(k, b) \<in> set (concat (map entry_payloads log))" for k b
      using holds_payloadsD [OF R(4) that] entry_payload_logged [OF that] S(3) [of k] disj by auto
    then show ?thesis unfolding holds_payloads_def by blast
  qed
  then have "represents cd rp' (log @ es)"
    using R A(1) S(4) es order by (auto simp: represents_def ascending_append thin_log_def holds_payloads_def)
  moreover have "owned (gd_active_bank (rp_group rp)) (logged (log @ es)) ?lg'"
  proof -
    have "tget (lg_owners ?lg') k = share (gd_active_bank (rp_group rp)) (logged (log @ es)) (indexed ?lg') k" for k
      using ownedD(1) [OF own, of k] fresh [of k] unfolding S(2) f(4) by (auto simp: share_def staged_def)
    moreover have "tget (lg_payload ?lg') k \<noteq> None" if "k \<in> logged es" for k
    proof -
      from that keys obtain b where "(k, b) \<in> set (concat (map entry_payloads es))" by (metis (no_types, lifting) image_iff prod.collapse)
      from holds_payloadsD [OF S(4) this] show ?thesis by simp
    qed
    then have "tget (lg_payload ?lg') k = None \<longleftrightarrow> tget (lg_owners ?lg') k = None" for k
      using S(3) [of k] ownedD(1,2) [OF own, of k] unfolding S(2) by (auto simp: share_def)
    moreover have "apart ?lg'" using ownedD(3) [OF own] by (simp add: apart_def f(3))
    ultimately show ?thesis unfolding owned_def by blast
  qed
  moreover have "payloads_framed ?lg'"
    unfolding payloads_framed_def
  proof (intro allI impI)
    fix k v assume v: "tget (lg_payload ?lg') k = Some v"
    show "\<exists>b. v = encode_payload_value b"
    proof (cases "k \<in> logged es")
      case True
      with keys obtain b where "(k, b) \<in> set (concat (map entry_payloads es))" by (metis (no_types, lifting) image_iff prod.collapse)
      from holds_payloadsD [OF S(4) this] v show ?thesis by auto
    next
      case False
      with grp(3) S(3) v show ?thesis by (auto simp: payloads_framed_def)
    qed
  qed
  ultimately show "replica_ok cd rp' (log @ es)" using grp by (simp add: replica_ok_def f group_ok_store [OF frame])
qed

lemma remove_ok:
  assumes ok: "replica_ok cd rp log"
  shows "\<exists>rp'. remove_log_range rp start stop purged = Inr rp' \<and> replica_ok cd rp'
    (filter (\<lambda>e. \<not> (start \<le> entry_index e \<and> (case stop of None \<Rightarrow> True | Some s \<Rightarrow> entry_index e < s))) log) \<and>
    store_frame (rp_group rp) (rp_group rp') \<and> drops (gd_log (rp_group rp)) (gd_log (rp_group rp'))"
proof -
  let ?P = "\<lambda>e. start \<le> entry_index e \<and> (case stop of None \<Rightarrow> True | Some s \<Rightarrow> entry_index e < s)"
  let ?gone = "filter ?P log" and ?kept = "filter (\<lambda>e. \<not> ?P e) log" and ?lg = "gd_log (rp_group rp)"
  have R: "rf_log (rp_raft rp) = thin_log cd log" "ascending log" "\<forall>e \<in> set log. entry_valid e"
    "holds_payloads (lg_payload ?lg) (concat (map entry_payloads log))"
    and own: "owned (gd_active_bank (rp_group rp)) (logged log) ?lg"
    and grp: "group_ok cd (rp_group rp)" "records_applied (rp_group rp)" "payloads_framed ?lg"
    using ok unfolding replica_ok_def represents_def by blast+
  have slice: "log_slice start stop (rf_log (rp_raft rp)) = thin_log cd ?gone"
    unfolding R(1) log_slice_filter [OF thin_log_sorted [OF R(2)]]
    by (simp add: thin_log_def filter_map comp_def cong: option.case_cong)
  have sub: "logged ?gone \<subseteq> logged log" by (auto simp: logged_def)
  obtain w where w: "remove_loop ?lg (thin_log cd ?gone) rp = Inr w"
    "owned (gd_active_bank (rp_group rp)) (logged log - logged ?gone) (gd_log (rp_group w))"
    "drops ?lg (gd_log (rp_group w))" "rp_group w = (rp_group rp)\<lparr>gd_log := gd_log (rp_group w)\<rparr>"
    "rp_raft w = (rp_raft rp)\<lparr>rf_log := filter (\<lambda>x. fst x \<notin> entry_index ` set ?gone) (rf_log (rp_raft rp))\<rparr>"
    using remove_loop_ok [OF own _ ascending_filter [OF R(2)] sub, of ?lg cd] R(3) by auto
  define rp' where "rp' = (case purged of None \<Rightarrow> w | Some l \<Rightarrow> w\<lparr>rp_raft := (rp_raft w)\<lparr>rf_purged := Some l\<rparr>\<rparr>)"
  have rp': "rp_group rp' = rp_group w" "rf_log (rp_raft rp') = rf_log (rp_raft w)" by (simp_all add: rp'_def split: option.split)
  have run: "remove_log_range rp start stop purged = Inr rp'"
    by (simp add: remove_log_range_def slice w(1) rp'_def)
  have frame: "store_frame (rp_group rp) (rp_group rp')"
    unfolding rp' using w(3) by (intro store_frameI [OF w(4)]) (simp add: drops_def)
  have log': "rf_log (rp_raft rp') = thin_log cd ?kept"
  proof -
    have "filter (\<lambda>e. entry_index e \<notin> entry_index ` set ?gone) log = ?kept"
      using ascending_inj [OF R(2)] by (intro filter_cong) (auto simp: image_iff)
    then show ?thesis unfolding rp'(2) w(5) R(1) by (simp add: thin_log_def filter_map comp_def)
  qed
  have keys: "logged log - logged ?gone = logged ?kept"
  proof -
    have "entry_keys e \<inter> logged ?gone = {}" if "e \<in> set ?kept" for e
      using that R(3) ascending_inj [OF R(2), of e] by (intro logged_disjoint) auto
    then show ?thesis unfolding logged_def by fastforce
  qed
  have own': "owned (gd_active_bank (rp_group rp)) (logged ?kept) (gd_log (rp_group rp'))"
    using w(2) unfolding keys rp' .
  have "holds_payloads (lg_payload (gd_log (rp_group rp'))) (concat (map entry_payloads ?kept))"
  proof (rule holds_remaining [OF holds_filter [OF R(4)]])
    show "\<forall>k. tget (lg_payload (gd_log (rp_group rp'))) k = None \<or> tget (lg_payload (gd_log (rp_group rp'))) k = tget (lg_payload ?lg) k"
      using w(3) unfolding drops_def rp' by blast
    show "\<forall>k \<in> logged ?kept. tget (lg_payload (gd_log (rp_group rp'))) k \<noteq> None"
      using ownedD(2) [OF own'] by simp
  qed
  then have "represents cd rp' ?kept"
    using R(2,3) log' by (simp add: represents_def ascending_filter)
  moreover have "payloads_framed (gd_log (rp_group rp'))"
    using w(3) unfolding rp' drops_def by (intro payloads_framed_drop [OF grp(3)]) blast
  ultimately have "replica_ok cd rp' ?kept" using own' grp
    by (simp add: replica_ok_def store_frame_fields [OF frame] group_ok_store [OF frame])
  with run frame w(3) show ?thesis by (auto simp: rp')
qed

lemma suc_bounds:
  fixes a i :: u64
  assumes "a < - 1"
  shows "saturating_add a 1 \<le> i \<longleftrightarrow> a < i" "i < saturating_add a 1 \<longleftrightarrow> i \<le> a"
  using below_next [OF assms, of i] by (simp_all add: not_less [symmetric])

lemma truncate_ok:
  assumes "replica_ok cd rp log" "\<forall>m. l = Some m \<longrightarrow> li_index m < - 1"
  shows "\<exists>rp'. truncate_after rp l = Inr rp' \<and> replica_ok cd rp' (log_after (TruncateOp l) log) \<and>
    store_frame (rp_group rp) (rp_group rp') \<and> drops (gd_log (rp_group rp)) (gd_log (rp_group rp'))"
  using remove_ok [OF assms(1), of "case l of None \<Rightarrow> 0 | Some m \<Rightarrow> saturating_add (li_index m) 1" None None] assms(2)
  by (auto simp: truncate_after_def suc_bounds not_less cong: filter_cong split: option.splits)

lemma purge_ok:
  assumes "replica_ok cd rp log" "li_index l < - 1"
  shows "\<exists>rp'. purge rp l = Inr rp' \<and> replica_ok cd rp' (log_after (PurgeOp l) log) \<and>
    store_frame (rp_group rp) (rp_group rp') \<and> drops (gd_log (rp_group rp)) (gd_log (rp_group rp'))"
  using remove_ok [OF assms(1), of 0 "Some (saturating_add (li_index l) 1)" "Some l"] assms(2)
  by (simp add: purge_def suc_bounds not_le)

lemma entry_step_applied: "entry_step cd db e w \<Longrightarrow> gd_applied w = Some (en_log_id e)"
  by (auto elim!: entry_stepE simp: apply_entry_def bind_result_Inr split: EntryPayload.splits)

lemma command_slots:
  assumes "entry_valid e" "en_payload e = Normal c" "entry_keys e \<subseteq> keys"
  shows "slots_logged keys (en_log_id e) (command_records c)"
proof -
  have "length (entry_records e) = command_records c"
    using assms(2) by (cases c) (simp_all add: entry_records_def total_records_concat)
  with entry_records_bound [OF assms(1)] assms(3) show ?thesis
    by (auto simp: slots_logged_def entry_keys_def slot_keys_def)
qed

lemma entry_store:
  assumes step: "entry_step cd db e w" and ok: "group_ok cd db" "records_applied db"
    and own: "owned (gd_active_bank db) keys (gd_log db)" and e: "entry_valid e" "entry_keys e \<subseteq> keys"
    and later: "past_applied db (entry_index e)"
  shows "keeps_store keys (en_log_id e) db w"
  using step
proof (cases rule: entry_step_cases)
  case other
  then have "gd_log w = gd_log db" "gd_active_bank w = gd_active_bank db" by (auto simp: marked_def)
  then show ?thesis using own by (intro keeps_store_same) simp_all
next
  case (command c v result)
  have un: "untouched (gd_log db) (en_log_id e) 0 (gd_log db)"
    using not_indexed [OF ok(2), of "en_log_id e"] later by (simp add: untouched_def entry_index_def)
  have "keeps_store keys (en_log_id e) db v"
  proof (cases "fence_class c = IncludedMutation \<and> export_fenced db")
    case True
    with included_under_fence [OF command(2)] own show ?thesis by (intro keeps_store_same) simp_all
  next
    case False
    then have "dispatch cd db (en_log_id e) c db = Inr (v, result)"
      using command(2) by (auto simp: apply_command_def export_fenced_def split: if_splits option.splits)
    from dispatch_store [OF this ok(1) own un command_slots [OF e(1) command(1) e(2)]] show ?thesis .
  qed
  with command(4) show ?thesis by (auto simp: marked_def keeps_store_def)
qed

lemma apply_ok:
  assumes ok: "replica_ok cd rp log" and read: "try_get_log_entries cd rp (Included i) (Included i) = Inr [e]"
    and later: "past_applied (rp_group rp) i" and step: "entry_step cd (rp_group rp) e g"
  shows "replica_ok cd (rp\<lparr>rp_group := g\<rparr>) log" "e \<in> set log" "entry_index e = i"
    "keeps_store (logged log) (en_log_id e) (rp_group rp) g"
proof -
  let ?db = "rp_group rp"
  have R: "rf_log (rp_raft rp) = thin_log cd log" "ascending log" "\<forall>e \<in> set log. entry_valid e"
    "holds_payloads (lg_payload (gd_log ?db)) (concat (map entry_payloads log))" and rep: "represents cd rp log"
    and own: "owned (gd_active_bank ?db) (logged log) (gd_log ?db)"
    and grp: "group_ok cd ?db" "records_applied ?db" "payloads_framed (gd_log ?db)"
    using ok unfolding replica_ok_def represents_def by blast+
  have eq: "filter (\<lambda>e. in_range (Included i) (Included i) (entry_index e)) log = [e]"
    using read represents_read [OF rep, of "Included i" "Included i"] by simp
  have "e \<in> set (filter (\<lambda>e. in_range (Included i) (Included i) (entry_index e)) log)" unfolding eq by simp
  then have mem: "e \<in> set log" "in_range (Included i) (Included i) (entry_index e)" by simp_all
  then show "e \<in> set log" by simp
  show idx: "entry_index e = i"
  proof (cases "checked_add i 1")
    case None
    with mem(2) unat_lt_width [of "entry_index e"] show ?thesis
      by (simp add: checked_add_None in_range_def range_start_def word_le_nat_alt word_unat_eq_iff)
  next
    case (Some n)
    then have "unat n = unat i + 1" by (simp add: checked_add_Some)
    with mem(2) Some show ?thesis
      by (simp add: in_range_def range_start_def range_end_def word_le_nat_alt word_less_nat_alt word_unat_eq_iff)
  qed
  have keys: "entry_keys e \<subseteq> logged log" using mem(1) by (auto simp: logged_def)
  show store: "keeps_store (logged log) (en_log_id e) ?db g"
    using mem(1) R(3) later idx by (intro entry_store [OF step grp(1,2) own _ keys]) simp_all
  have "holds_payloads (lg_payload (gd_log g)) (concat (map entry_payloads log))"
    using store ownedD(2) [of "gd_active_bank ?db" "logged log" "gd_log g"]
    by (intro holds_remaining [OF R(4)]) (auto simp: keeps_store_def)
  then have "represents cd (rp\<lparr>rp_group := g\<rparr>) log" using R by (simp add: represents_def)
  moreover have "records_applied g"
    unfolding records_applied_def
  proof
    fix k assume "k \<in> indexed (gd_log g)"
    then consider "k \<in> indexed (gd_log ?db)" | j where "k = payload_id (en_log_id e) j" "j < 2 ^ 32"
      using store unfolding keeps_store_def by blast
    then show "\<exists>l j. k = payload_id l j \<and> j < 2 ^ 32 \<and> \<not> past_applied g (li_index l)"
    proof cases
      case 1
      with grp(2) obtain l j a where l: "k = payload_id l j" "j < 2 ^ 32" "applied_index ?db = Some a" "li_index l \<le> a"
        unfolding records_applied_def past_applied_def by (metis not_less)
      with later have "li_index l < i" unfolding past_applied_def by (metis order_le_less_trans)
      with l(1,2) show ?thesis
        using entry_step_applied [OF step] idx
        by (intro exI [of _ l] exI [of _ j]) (simp add: past_applied_def applied_index_def entry_index_def not_less less_imp_le)
    next
      case 2
      then show ?thesis
        using entry_step_applied [OF step] by (intro exI [of _ "en_log_id e"] exI [of _ j]) (simp add: past_applied_def applied_index_def)
    qed
  qed
  moreover have "payloads_framed (gd_log g)"
    using store unfolding keeps_store_def by (intro payloads_framed_drop [OF grp(3)]) blast
  ultimately show "replica_ok cd (rp\<lparr>rp_group := g\<rparr>) log"
    using entry_step_ok [OF step grp(1)] store by (simp add: replica_ok_def keeps_store_def)
qed

section \<open>Runs\<close>

text \<open>The bytes of a record, as a reader decodes them.\<close>

definition content :: "codec \<Rightarrow> log_state \<Rightarrow> PartitionKey \<Rightarrow> u64 \<Rightarrow> bytes option" where
  "content cd lg p off =
     (case records_of lg p off of
        None \<Rightarrow> None
      | Some r \<Rightarrow>
          (case tget (lg_payload lg) (sr_payload_key r) of
             None \<Rightarrow> None
           | Some stored \<Rightarrow> (case decode_payload_value cd stored of Inl _ \<Rightarrow> None | Inr b \<Rightarrow> Some b)))"

text \<open>A record keeps its bytes until it is gone from below the floor.\<close>

definition contents_kept :: "codec \<Rightarrow> log_state \<Rightarrow> log_state \<Rightarrow> bool" where
  "contents_kept cd lg lg' \<longleftrightarrow>
     (\<forall>p off. off < next_offset lg p \<longrightarrow>
        content cd lg' p off = content cd lg p off \<or> records_of lg' p off = None \<and> off < floor_of lg' p)"

definition replica_follows :: "codec \<Rightarrow> replica \<Rightarrow> replica \<Rightarrow> bool" where
  "replica_follows cd rp rp' \<longleftrightarrow>
     follows (rp_group rp) (rp_group rp') \<and> contents_kept cd (gd_log (rp_group rp)) (gd_log (rp_group rp'))"

lemma content_gone: "records_of lg p off = None \<Longrightarrow> content cd lg p off = None"
  by (simp add: content_def)

lemma contents_keptI:
  assumes ev: "log_evolves lg lg'"
    and kept: "\<And>k. k \<in> indexed lg \<Longrightarrow> k \<in> indexed lg' \<Longrightarrow> tget (lg_payload lg') k = tget (lg_payload lg) k"
  shows "contents_kept cd lg lg'"
  unfolding contents_kept_def
proof (intro allI impI)
  fix p off assume below: "off < next_offset lg p"
  show "content cd lg' p off = content cd lg p off \<or> records_of lg' p off = None \<and> off < floor_of lg' p"
  proof (cases "records_of lg' p off = records_of lg p off")
    case same: True
    show ?thesis
    proof (cases "records_of lg p off")
      case None
      with same show ?thesis by (simp add: content_gone)
    next
      case (Some r)
      then have "sr_payload_key r \<in> indexed lg" "sr_payload_key r \<in> indexed lg'"
        using same by (auto simp: records_of_def intro: indexedI)
      with same Some kept show ?thesis by (simp add: content_def)
    qed
  next
    case False
    with log_evolvesD(3) [OF ev below] show ?thesis by blast
  qed
qed

lemma contents_kept_trans:
  assumes "contents_kept cd a b" "contents_kept cd b c" "log_evolves a b" "log_evolves b c"
  shows "contents_kept cd a c"
  unfolding contents_kept_def
proof (intro allI impI)
  fix p off assume below: "off < next_offset a p"
  then have below': "off < next_offset b p" using log_evolvesD(1) [OF assms(3), of p] by order
  consider "content cd b p off = content cd a p off" | "records_of b p off = None" "off < floor_of b p"
    using assms(1) below unfolding contents_kept_def by metis
  then show "content cd c p off = content cd a p off \<or> records_of c p off = None \<and> off < floor_of c p"
  proof cases
    case 1
    with assms(2) below' show ?thesis unfolding contents_kept_def by metis
  next
    case 2
    then have "records_of c p off = None" using log_evolvesD(3) [OF assms(4) below'] by auto
    moreover have "off < floor_of c p" using 2(2) log_evolvesD(2) [OF assms(4), of p] by order
    ultimately show ?thesis by blast
  qed
qed

lemma follows_store:
  assumes "store_frame db w"
  shows "follows db w"
proof -
  define lg where "lg = (gd_log db)\<lparr>lg_payload := lg_payload (gd_log w), lg_owners := lg_owners (gd_log w)\<rparr>"
  have w: "w = db\<lparr>gd_log := lg\<rparr>" using assms unfolding store_frame_def lg_def .
  have "records_of lg = records_of (gd_log db)" "floor_of lg = floor_of (gd_log db)" "next_offset lg = next_offset (gd_log db)"
    by (simp_all add: lg_def records_of_def floor_of_def retention_of_def next_offset_def fun_eq_iff)
  then have "log_evolves (gd_log db) lg" by (simp add: log_evolves_def)
  then show ?thesis by (simp add: w follows_def leases_follow_same)
qed

lemma store_frame_follows:
  assumes "store_frame (rp_group rp) (rp_group rp')"
    and "\<And>k. k \<in> indexed (gd_log (rp_group rp)) \<Longrightarrow> tget (lg_payload (gd_log (rp_group rp'))) k = tget (lg_payload (gd_log (rp_group rp))) k"
  shows "replica_follows cd rp rp'"
  using follows_store [OF assms(1)] assms(2) unfolding replica_follows_def
  by (auto intro!: contents_keptI simp: follows_def)

lemma drops_follows:
  assumes "store_frame (rp_group rp) (rp_group rp')" "drops (gd_log (rp_group rp)) (gd_log (rp_group rp'))" "replica_ok cd rp' log"
  shows "replica_follows cd rp rp'"
proof (rule store_frame_follows [OF assms(1)])
  fix k assume "k \<in> indexed (gd_log (rp_group rp))"
  then have "k \<in> indexed (gd_log (rp_group rp'))" by (simp add: store_frame_fields(4) [OF assms(1)])
  then have "tget (lg_payload (gd_log (rp_group rp'))) k \<noteq> None"
    using assms(3) ownedD(2) unfolding replica_ok_def by blast
  with assms(2) show "tget (lg_payload (gd_log (rp_group rp'))) k = tget (lg_payload (gd_log (rp_group rp))) k"
    unfolding drops_def by metis
qed

lemma replica_step_ok:
  assumes "replica_step cd rp op rp'" "replica_ok cd rp log"
  shows "replica_ok cd rp' (log_after op log) \<and> replica_follows cd rp rp'"
  using assms(1)
proof cases
  case (append_step es)
  note a = append_ok [OF assms(2) append_step(2-5)]
  from a(1) store_frame_follows [OF a(2)] a(3) append_step(1) show ?thesis by simp
next
  case (truncate_step l)
  with truncate_ok [OF assms(2), of l] drops_follows show ?thesis by auto
next
  case (purge_step l)
  with purge_ok [OF assms(2), of l] drops_follows show ?thesis by auto
next
  case (commit_step c)
  with assms(2) show ?thesis
    by (auto simp: replica_ok_def represents_def save_committed_def intro!: store_frame_follows) (simp add: store_frame_def)
next
  case (vote_step v)
  with assms(2) show ?thesis
    by (auto simp: replica_ok_def represents_def save_vote_def intro!: store_frame_follows) (simp add: store_frame_def)
next
  case (apply_step i e g)
  note a = apply_ok [OF assms(2) apply_step(3-5)]
  have ok: "group_ok cd (rp_group rp)" using assms(2) by (simp add: replica_ok_def)
  have f: "follows (rp_group rp) g" by (rule entry_step_follows [OF apply_step(5) ok])
  have "contents_kept cd (gd_log (rp_group rp)) (gd_log g)"
  proof (rule contents_keptI)
    show "log_evolves (gd_log (rp_group rp)) (gd_log g)" using f by (simp add: follows_def)
    fix k assume "k \<in> indexed (gd_log g)"
    then show "tget (lg_payload (gd_log g)) k = tget (lg_payload (gd_log (rp_group rp))) k"
      using a(4) ownedD(2) unfolding keeps_store_def by blast
  qed
  with a(1) f apply_step(1,2) show ?thesis by (simp add: replica_follows_def)
qed

definition replica_good :: "codec \<Rightarrow> replica \<Rightarrow> bool" where
  "replica_good cd rp \<longleftrightarrow> (\<exists>log. replica_ok cd rp log)"

lemma replica_follows_refl: "replica_follows cd rp rp"
  by (simp add: replica_follows_def contents_kept_def)

lemma replica_follows_trans: "replica_follows cd a b \<Longrightarrow> replica_follows cd b c \<Longrightarrow> replica_follows cd a c"
  unfolding replica_follows_def using contents_kept_trans follows_trans by (metis follows_def)

interpretation rep: keeps_history "replica_step cd" "replica_good cd" "replica_follows cd" for cd
  by unfold_locales (auto simp: replica_good_def intro: replica_follows_refl replica_follows_trans dest: replica_step_ok)

text \<open>The log a run leaves is the one the list operations leave.\<close>

lemma runs_log:
  assumes "runs (replica_step cd) rp ops rp'" "replica_ok cd rp log"
  shows "replica_ok cd rp' (fold log_after ops log)"
  using assms by (induction arbitrary: log rule: runs.induct) (auto dest: replica_step_ok)

end
