(* ===== verification/Readers.thy ===== *)
theory Readers
  imports Replica_Run
begin

text \<open>
  Reading committed records (\<open>CommittedStateReader\<close> in \<open>crates/light-stream-storage/src/lib.rs\<close>): a page of
  records from an offset, a page inside the range of a replay lease, and the retention readers. On a
  replica in its invariant a page is a run of consecutive records with the bytes that were published.
\<close>

section \<open>The readers\<close>

definition storage_domain :: "'a io \<Rightarrow> 'a result" where
  "storage_domain r = (case r of Inl e \<Rightarrow> Inl (Storage e) | Inr v \<Rightarrow> Inr v)"

definition bootstrap_spec :: "group_db \<Rightarrow> BootstrapSpec option" where
  "bootstrap_spec db = ct_bootstrap (gd_catalog db)"

text \<open>
  The record loop of both page readers: it runs over the record keys from the start, which sort by
  partition and offset, and stops at the end of the partition, of the page and, for a lease, of its
  range. The byte count is a \<open>usize\<close> that saturates.
\<close>

fun fetch_loop ::
  "codec \<Rightarrow> (bytes, bytes) table \<Rightarrow> string \<Rightarrow> PartitionKey \<Rightarrow> u32 \<Rightarrow> RecordOffset option \<Rightarrow> CommittedRecord list \<Rightarrow> nat
   \<Rightarrow> ((PartitionKey \<times> u64) \<times> StoredRecord) list \<Rightarrow> CommittedRecord list result" where
  "fetch_loop cd payloads missing p limit stop recs payload_bytes [] = Inr recs"
| "fetch_loop cd payloads missing p limit stop recs payload_bytes (item # items) =
     (if fst (fst item) \<noteq> p \<or> length recs \<ge> unat limit then Inr recs
      else if (case stop of None \<Rightarrow> False | Some e \<Rightarrow> snd (fst item) \<ge> e) then Inr recs
      else
        bind_result (ok_or (Storage missing) (tget payloads (sr_payload_key (snd item)))) (\<lambda>stored.
        bind_result (storage_domain (decode_payload_value cd stored)) (\<lambda>payload.
        if recs \<noteq> [] \<and> min (payload_bytes + length payload) (2 ^ 64 - 1) > MAX_FETCH_BYTES then Inr recs
        else fetch_loop cd payloads missing p limit stop
          (recs @ [\<lparr>cr_offset = snd (fst item), cr_payload = payload\<rparr>])
          (min (payload_bytes + length payload) (2 ^ 64 - 1)) items)))"

definition record_items :: "log_state \<Rightarrow> PartitionKey \<Rightarrow> RecordOffset \<Rightarrow> ((PartitionKey \<times> u64) \<times> StoredRecord) list" where
  "record_items lg p off = dropWhile (\<lambda>item. fst item < (p, off)) (lg_records lg)"

definition fetch_page :: "PartitionKey \<Rightarrow> RecordOffset \<Rightarrow> CommittedRecord list \<Rightarrow> FetchPage" where
  "fetch_page p off recs =
     \<lparr>fp_partition = p, fp_records = recs,
      fp_next_offset = (if recs = [] then off else cr_offset (last recs) + 1)\<rparr>"

text \<open>The checks both readers start with.\<close>

definition fetch_checks :: "group_db \<Rightarrow> ClusterId \<Rightarrow> u32 \<Rightarrow> unit result" where
  "fetch_checks db cluster limit =
     (if limit = 0 \<or> limit > MAX_FETCH_RECORDS then Inl (InvalidRange ''fetch limit must be between 1 and 1024'')
      else case bootstrap_spec db of
        None \<Rightarrow> Inl NotBootstrapped
      | Some spec \<Rightarrow>
          if cluster \<noteq> gi_cluster_id (gd_identity db) \<or> cluster \<noteq> bs_cluster spec
          then Inl (IdentityMismatch ''fetch cluster does not match the data group'') else Inr ())"

definition fetch :: "codec \<Rightarrow> group_db \<Rightarrow> ClusterId \<Rightarrow> PartitionKey \<Rightarrow> RecordOffset \<Rightarrow> u32 \<Rightarrow> FetchPage result" where
  "fetch cd db cluster p off limit =
     bind_result (fetch_checks db cluster limit) (\<lambda>_.
     (let floor = pr_logical_floor (retention_of (gd_log db) p)
      in if off < floor then Inl (CursorExpired off floor)
         else
           bind_result (fetch_loop cd (lg_payload (gd_log db)) ''committed record payload is missing'' p limit None [] 0
             (record_items (gd_log db) p off)) (\<lambda>recs.
           Inr (fetch_page p off recs))))"

definition partition_tail :: "group_db \<Rightarrow> PartitionKey \<Rightarrow> RecordOffset" where
  "partition_tail db p = next_offset (gd_log db) p"

definition retention_status :: "group_db \<Rightarrow> PartitionKey \<Rightarrow> RetentionStatus" where
  "retention_status db p = retention_status_of p (retention_of (gd_log db) p)"

definition retention_maintenance_needed :: "group_db \<Rightarrow> PartitionKey \<Rightarrow> u64 \<Rightarrow> bool" where
  "retention_maintenance_needed db p lower_bound =
     (let status = retention_of (gd_log db) p
      in if pr_reclaim_cursor status < pr_logical_floor status then True
         else list_ex (\<lambda>lease. rg_partition (rl_range lease) = p \<and> rl_lifecycle lease = LeaseActive \<and>
             (lower_bound \<ge> rl_expires_at lease \<or> lower_bound \<ge> rl_hard_expires_at lease))
           (map snd (ls_leases (gd_leases db))))"

definition retention_partitions :: "group_db \<Rightarrow> PartitionKey list" where
  "retention_partitions db = map fst (lg_retention (gd_log db))"

text \<open>The name a result has in an error message is left to the caller.\<close>

definition retention_receipt ::
  "codec \<Rightarrow> (ApplyResult \<Rightarrow> string) \<Rightarrow> group_db \<Rightarrow> MutationRequestId \<Rightarrow> RetentionResult result" where
  "retention_receipt cd show_result db request =
     (case tget (ms_receipts (gd_mutations db)) (mutation_receipt_key cd request) of
        None \<Rightarrow> Inl MutationReceiptExpired
      | Some stored \<Rightarrow>
          (case sm_result stored of
             RetentionAdvanced result \<Rightarrow> Inr result
           | Rejected error \<Rightarrow> Inl error
           | other \<Rightarrow> Inl (Storage (''mutation receipt contains unexpected result '' @ show_result other))))"

definition replay_lease_by_request :: "codec \<Rightarrow> group_db \<Rightarrow> MutationRequestId \<Rightarrow> ReplayLease result" where
  "replay_lease_by_request cd db request =
     bind_result (ok_or MutationReceiptExpired (tget (ls_requests (gd_leases db)) (replay_lease_request_key cd request))) (\<lambda>lease.
     ok_or (ReplayLeaseNotFound lease) (tget (ls_leases (gd_leases db)) lease))"

definition replay_lease :: "group_db \<Rightarrow> PartitionKey \<Rightarrow> ReplayLeaseId \<Rightarrow> ReplayLease result" where
  "replay_lease db p lease_id =
     bind_result (ok_or (ReplayLeaseNotFound lease_id) (tget (ls_leases (gd_leases db)) lease_id)) (\<lambda>lease.
     if rg_partition (rl_range lease) \<noteq> p then Inl ReplayLeaseRangeViolation else Inr lease)"

definition fetch_protected ::
  "codec \<Rightarrow> group_db \<Rightarrow> ClusterId \<Rightarrow> PartitionKey \<Rightarrow> ReplayLeaseId \<Rightarrow> RecordOffset \<Rightarrow> u32 \<Rightarrow> FetchPage result" where
  "fetch_protected cd db cluster p lease_id off limit =
     bind_result (fetch_checks db cluster limit) (\<lambda>_.
     bind_result (ok_or (ReplayLeaseNotFound lease_id) (tget (ls_leases (gd_leases db)) lease_id)) (\<lambda>lease.
     if lr_cluster (rl_request lease) \<noteq> cluster \<or> rg_partition (rl_range lease) \<noteq> p then Inl ReplayLeaseRangeViolation
     else
       bind_result (ok_or LeaseClockUnavailable (ls_clock (gd_leases db))) (\<lambda>clock.
       if \<not> lease_is_effectively_active lease clock
       then Inl (ReplayLeaseInactive (rl_id lease)
         (if rl_lifecycle lease = LeaseActive then LeaseExpired else rl_lifecycle lease))
       else
         (let range1 = rl_range lease
          in if off = rg_end range1 then Inr \<lparr>fp_partition = rg_partition range1, fp_records = [], fp_next_offset = off\<rparr>
             else if \<not> range_contains range1 off then Inl ReplayLeaseRangeViolation
             else
               bind_result (fetch_loop cd (lg_payload (gd_log db)) ''protected record payload is missing'' (rg_partition range1)
                 limit (Some (rg_end range1)) [] 0 (record_items (gd_log db) (rg_partition range1) off)) (\<lambda>recs.
               Inr (fetch_page (rg_partition range1) off recs))))))"

section \<open>What a page holds\<close>

lemma items_here:
  assumes "tsorted t" "tget t k = Some v"
  shows "dropWhile (\<lambda>e. fst e < k) t = (k, v) # dropWhile (\<lambda>e. fst e \<le> k) t"
  using assms
proof (induction t)
  case (Cons e t)
  show ?case
  proof (cases "fst e = k")
    case True
    then have "dropWhile (\<lambda>e. fst e \<le> k) t = t" using Cons.prems(1) by (cases t) (auto simp: tsorted_Cons)
    with True Cons.prems(2) show ?thesis by (cases e) simp
  next
    case False
    with Cons.prems have "tget t k = Some v" by simp
    moreover from this have "fst e < k" using Cons.prems(1) by (auto simp: tsorted_Cons dest!: tget_Some_in)
    ultimately show ?thesis using Cons by (simp add: tsorted_Cons)
  qed
qed simp

lemma record_items_here:
  assumes "tsorted (lg_records lg)" "records_of lg p off = Some r" "off < e"
  shows "record_items lg p off = ((p, off), r) # record_items lg p (off + 1)"
proof -
  have le: "x < off + 1 \<longleftrightarrow> x \<le> off" for x :: u64
    using unat_Suc_below [OF assms(3)] by (auto simp: word_le_nat_alt word_less_nat_alt)
  have "k \<le> (p, off) \<longleftrightarrow> k < (p, off + 1)" for k :: "PartitionKey \<times> u64"
    by (cases k) (simp add: le)
  with items_here [OF assms(1), of "(p, off)" r] assms(2) show ?thesis
    by (simp add: record_items_def records_of_def)
qed

lemma record_items_end:
  assumes sorted: "tsorted (lg_records lg)" and none: "\<forall>x \<ge> off. records_of lg p x = None"
    and item: "record_items lg p off = item # items"
  shows "fst (fst item) \<noteq> p"
proof
  assume p: "fst (fst item) = p"
  have "\<not> fst item < (p, off)"
    using item hd_dropWhile [of "\<lambda>item. fst item < (p, off)" "lg_records lg"] unfolding record_items_def by (metis list.distinct(1) list.sel(1))
  with p have "off \<le> snd (fst item)" by (cases "fst item") (auto simp: less_prod_def')
  moreover have "item \<in> set (lg_records lg)"
    using item unfolding record_items_def by (metis list.set_intros(1) set_dropWhileD)
  then have "records_of lg p (snd (fst item)) = Some (snd item)"
    using tget_set [OF sorted, of "fst item" "snd item"] p by (simp add: records_of_def) (metis prod.collapse)
  ultimately show False using none by simp
qed

definition recs_from :: "codec \<Rightarrow> log_state \<Rightarrow> PartitionKey \<Rightarrow> u64 \<Rightarrow> nat \<Rightarrow> CommittedRecord list" where
  "recs_from cd lg p off n =
     map (\<lambda>i. \<lparr>cr_offset = off + of_nat i, cr_payload = the (content cd lg p (off + of_nat i))\<rparr>) [0..<n]"

lemma recs_from_0 [simp]: "recs_from cd lg p off 0 = []"
  by (simp add: recs_from_def)

lemma recs_from_Suc:
  "recs_from cd lg p off (Suc n) = \<lparr>cr_offset = off, cr_payload = the (content cd lg p off)\<rparr> # recs_from cd lg p (off + 1) n"
  unfolding recs_from_def upt_conv_Cons [OF zero_less_Suc] map_Suc_upt [symmetric] by (simp add: add.assoc)

definition page_bytes :: "CommittedRecord list \<Rightarrow> nat" where
  "page_bytes recs = sum_list (map (length \<circ> cr_payload) recs)"

text \<open>The number of records a page gets, and why it stops there.\<close>

definition page_size :: "nat \<Rightarrow> nat \<Rightarrow> nat \<Rightarrow> nat \<Rightarrow> (nat \<Rightarrow> nat) \<Rightarrow> nat \<Rightarrow> bool" where
  "page_size held used room limit bytes k \<longleftrightarrow>
     k \<le> room \<and> (held + k \<le> limit \<or> k = 0) \<and> (held = 0 \<and> 0 < room \<and> 0 < limit \<longrightarrow> 0 < k) \<and>
     (k < room \<and> held + k < limit \<longrightarrow> used + bytes (Suc k) > MAX_FETCH_BYTES)"

lemma fetch_loop_page:
  assumes "tsorted (lg_records lg)" "off \<le> e" "\<forall>x. off \<le> x \<and> x < e \<longrightarrow> content cd lg p x \<noteq> None"
    and "stop = Some e \<or> stop = None \<and> (\<forall>x \<ge> e. records_of lg p x = None)"
  shows "\<exists>k. fetch_loop cd (lg_payload lg) missing p limit stop acc used (record_items lg p off) = Inr (acc @ recs_from cd lg p off k) \<and>
    page_size (length acc) used (unat e - unat off) (unat limit) (\<lambda>n. page_bytes (recs_from cd lg p off n)) k"
  using assms(2,3)
proof (induction "unat e - unat off" arbitrary: off acc used)
  case 0
  then have eq: "off = e" by (simp add: word_le_nat_alt word_unat_eq_iff)
  have "fetch_loop cd (lg_payload lg) missing p limit stop acc used (record_items lg p off) = Inr acc"
  proof (cases "record_items lg p off")
    case (Cons item items)
    have "fst (fst item) \<noteq> p \<or> stop = Some e \<and> e \<le> snd (fst item)"
    proof (cases "fst (fst item) = p")
      case True
      have "\<not> fst item < (p, off)"
        using Cons hd_dropWhile [of "\<lambda>item. fst item < (p, off)" "lg_records lg"] unfolding record_items_def
        by (metis list.distinct(1) list.sel(1))
      with True have "e \<le> snd (fst item)" by (cases "fst item") (auto simp: less_prod_def' eq)
      with assms(4) record_items_end [OF assms(1) _ Cons] True eq show ?thesis by auto
    qed simp
    then show ?thesis unfolding Cons by auto
  qed simp
  then show ?case by (intro exI [of _ 0]) (simp add: page_size_def eq)
next
  case (Suc n)
  then have below: "off < e" by (simp add: word_less_nat_alt)
  let ?next = "off + 1"
  have nat: "unat ?next = unat off + 1" by (rule unat_Suc_below [OF below])
  obtain r stored b where r: "records_of lg p off = Some r" "tget (lg_payload lg) (sr_payload_key r) = Some stored"
    "decode_payload_value cd stored = Inr b" "content cd lg p off = Some b"
  proof -
    from Suc.prems(2) below obtain b where b: "content cd lg p off = Some b" by auto
    then obtain r where r: "records_of lg p off = Some r" by (cases "records_of lg p off") (auto simp: content_def)
    with b obtain stored where "tget (lg_payload lg) (sr_payload_key r) = Some stored"
      by (cases "tget (lg_payload lg) (sr_payload_key r)") (auto simp: content_def)
    with b r that show thesis by (auto simp: content_def split: sum.splits)
  qed
  note items = record_items_here [OF assms(1) r(1) below]
  let ?used = "min (used + length b) (2 ^ 64 - 1)"
  consider (full) "unat limit \<le> length acc" | (big) "length acc < unat limit" "acc \<noteq> []" "?used > MAX_FETCH_BYTES"
    | (more) "length acc < unat limit" "acc = [] \<or> \<not> ?used > MAX_FETCH_BYTES" by linarith
  then show ?case
  proof cases
    case full
    then show ?thesis unfolding items by (intro exI [of _ 0]) (auto simp: page_size_def)
  next
    case big
    have "used + page_bytes (recs_from cd lg p off 1) > MAX_FETCH_BYTES"
      using big(3) r(4) by (simp add: page_bytes_def recs_from_Suc [of _ _ _ _ 0, simplified])
    moreover have "\<not> (case stop of None \<Rightarrow> False | Some e \<Rightarrow> off \<ge> e)" using assms(4) below by auto
    ultimately show ?thesis
      using big r unfolding items by (intro exI [of _ 0]) (simp add: page_size_def storage_domain_def cong: option.case_cong)
  next
    case more
    let ?rec = "\<lparr>cr_offset = off, cr_payload = b\<rparr>"
    have "n = unat e - unat ?next" "?next \<le> e" "\<forall>x. ?next \<le> x \<and> x < e \<longrightarrow> content cd lg p x \<noteq> None"
      using Suc.hyps(2) Suc.prems(2) below nat by (auto simp: word_le_nat_alt word_less_nat_alt)
    from Suc.hyps(1) [OF this, of "acc @ [?rec]" ?used] obtain k where
      k: "fetch_loop cd (lg_payload lg) missing p limit stop (acc @ [?rec]) ?used (record_items lg p ?next) =
        Inr ((acc @ [?rec]) @ recs_from cd lg p ?next k)"
      "page_size (length (acc @ [?rec])) ?used (unat e - unat ?next) (unat limit) (\<lambda>n. page_bytes (recs_from cd lg p ?next n)) k"
      by blast
    have "\<not> (case stop of None \<Rightarrow> False | Some e \<Rightarrow> off \<ge> e)" using assms(4) below by auto
    then have "fetch_loop cd (lg_payload lg) missing p limit stop acc used (record_items lg p off) =
        Inr (acc @ recs_from cd lg p off (Suc k))"
      using more r k(1) unfolding items recs_from_Suc by (auto simp: storage_domain_def cong: option.case_cong)
    moreover have "page_bytes (recs_from cd lg p off (Suc m)) = length b + page_bytes (recs_from cd lg p ?next m)" for m
      using r(4) by (simp add: page_bytes_def recs_from_Suc)
    then have "page_size (length acc) used (unat e - unat off) (unat limit) (\<lambda>n. page_bytes (recs_from cd lg p off n)) (Suc k)"
      using k(2) more(1) below nat by (auto simp: page_size_def word_less_nat_alt)
    ultimately show ?thesis by blast
  qed
qed

text \<open>On a replica in its invariant every record has its bytes.\<close>

lemma record_content:
  assumes ok: "replica_ok cd rp log" and r: "records_of (gd_log (rp_group rp)) p off = Some r"
  shows "\<exists>b. content cd (gd_log (rp_group rp)) p off = Some b \<and>
    tget (lg_payload (gd_log (rp_group rp))) (sr_payload_key r) = Some (encode_payload_value b)"
proof -
  let ?lg = "gd_log (rp_group rp)"
  have "sr_payload_key r \<in> indexed ?lg" using r by (auto simp: records_of_def intro: indexedI)
  then obtain v where v: "tget (lg_payload ?lg) (sr_payload_key r) = Some v"
    using ok ownedD(2) unfolding replica_ok_def by fastforce
  then obtain b where "v = encode_payload_value b" using ok unfolding replica_ok_def payloads_framed_def by blast
  with r v show ?thesis by (simp add: content_def decode_encode)
qed

lemma page_step:
  assumes "unat off + k < 2 ^ 64"
  shows "fetch_page p off (recs_from cd lg p off k) =
    \<lparr>fp_partition = p, fp_records = recs_from cd lg p off k, fp_next_offset = off + of_nat k\<rparr>"
proof (cases k)
  case (Suc n)
  have "last (recs_from cd lg p off (Suc n)) = \<lparr>cr_offset = off + of_nat n, cr_payload = the (content cd lg p (off + of_nat n))\<rparr>"
    by (simp add: recs_from_def)
  with Suc show ?thesis by (simp add: fetch_page_def recs_from_Suc add.assoc add.commute)
qed (simp add: fetch_page_def)

lemma fetch_reads:
  assumes ok: "replica_ok cd rp log" and checks: "fetch_checks (rp_group rp) cluster limit = Inr ()"
    and off: "floor_of (gd_log (rp_group rp)) p \<le> off" "off \<le> partition_tail (rp_group rp) p"
  shows "\<exists>k. fetch cd (rp_group rp) cluster p off limit =
      Inr \<lparr>fp_partition = p, fp_records = recs_from cd (gd_log (rp_group rp)) p off k, fp_next_offset = off + of_nat k\<rparr> \<and>
    page_size 0 0 (unat (partition_tail (rp_group rp) p) - unat off) (unat limit)
      (\<lambda>n. page_bytes (recs_from cd (gd_log (rp_group rp)) p off n)) k \<and>
    (\<forall>i < k. content cd (gd_log (rp_group rp)) p (off + of_nat i) \<noteq> None)"
proof -
  let ?lg = "gd_log (rp_group rp)" and ?tail = "partition_tail (rp_group rp) p"
  have log: "log_ok ?lg" using ok group_okD(11) unfolding replica_ok_def by blast
  then have sorted: "tsorted (lg_records ?lg)" by (simp add: log_ok_def)
  from log_okD [OF log, of p] obtain pos where chain: "chain_with pos (records_of ?lg p) (retention_of ?lg p) ?tail"
    unfolding chain_ok_def partition_tail_def by blast
  have present: "content cd ?lg p x \<noteq> None" if "off \<le> x" "x < ?tail" for x
  proof -
    have "pr_logical_floor (retention_of ?lg p) \<le> x" using off(1) that(1) by (simp add: floor_of_def)
    from chain_present [OF chain this that(2)] record_content [OF ok, of p x] show ?thesis by auto
  qed
  have past: "records_of ?lg p x = None" if "?tail \<le> x" for x
    using chain_record(1) [OF chain, of x] that by (cases "records_of ?lg p x") auto
  from fetch_loop_page [OF sorted off(2), of cd p None "''committed record payload is missing''" limit "[]" 0] present past
  obtain k where k: "fetch_loop cd (lg_payload ?lg) ''committed record payload is missing'' p limit None [] 0 (record_items ?lg p off) =
      Inr (recs_from cd ?lg p off k)"
    "page_size 0 0 (unat ?tail - unat off) (unat limit) (\<lambda>n. page_bytes (recs_from cd ?lg p off n)) k" by auto
  have small: "unat off + k \<le> unat ?tail" using k(2) off(2) by (auto simp: page_size_def word_le_nat_alt)
  then have room: "unat off + k < 2 ^ 64" using unat_lt_width [of ?tail] by simp
  have inside: "content cd ?lg p (off + of_nat i) \<noteq> None" if "i < k" for i
  proof -
    have "unat (off + of_nat i) = unat off + i" using room that by (simp add: unat_word_ariths unat_of_nat)
    with that small show ?thesis by (intro present) (simp_all add: word_le_nat_alt word_less_nat_alt)
  qed
  have "\<not> off < pr_logical_floor (retention_of ?lg p)" using off(1) by (simp add: floor_of_def)
  then have "fetch cd (rp_group rp) cluster p off limit =
      Inr \<lparr>fp_partition = p, fp_records = recs_from cd ?lg p off k, fp_next_offset = off + of_nat k\<rparr>"
    using checks k(1) page_step [OF room, of p cd ?lg] by (simp add: fetch_def Let_def)
  with k(2) inside show ?thesis by blast
qed

lemma fetch_one:
  assumes ok: "replica_ok cd rp log" and checks: "fetch_checks (rp_group rp) cluster 1 = Inr ()"
    and off: "floor_of (gd_log (rp_group rp)) p \<le> off" "off < partition_tail (rp_group rp) p"
    and b: "content cd (gd_log (rp_group rp)) p off = Some b"
  shows "fetch cd (rp_group rp) cluster p off 1 =
    Inr \<lparr>fp_partition = p, fp_records = [\<lparr>cr_offset = off, cr_payload = b\<rparr>], fp_next_offset = off + 1\<rparr>"
proof -
  let ?lg = "gd_log (rp_group rp)"
  from fetch_reads [OF ok checks off(1) less_imp_le [OF off(2)]] obtain k where
    k: "fetch cd (rp_group rp) cluster p off 1 = Inr \<lparr>fp_partition = p, fp_records = recs_from cd ?lg p off k, fp_next_offset = off + of_nat k\<rparr>"
    "page_size 0 0 (unat (partition_tail (rp_group rp) p) - unat off) (unat (1 :: u32)) (\<lambda>n. page_bytes (recs_from cd ?lg p off n)) k"
    by blast
  have "k = Suc 0" using k(2) off(2) by (auto simp: page_size_def word_less_nat_alt)
  with k(1) b show ?thesis by (simp add: recs_from_Suc)
qed

lemma fetch_protected_reads:
  assumes ok: "replica_ok cd rp log" and checks: "fetch_checks (rp_group rp) cluster limit = Inr ()"
    and lease: "tget (ls_leases (gd_leases (rp_group rp))) i = Some lease" "lr_cluster (rl_request lease) = cluster"
    and clock: "ls_clock (gd_leases (rp_group rp)) = Some clock" "lease_is_effectively_active lease clock"
    and off: "range_contains (rl_range lease) off"
  defines "p \<equiv> rg_partition (rl_range lease)" and "e \<equiv> rg_end (rl_range lease)"
  shows "\<exists>k. fetch_protected cd (rp_group rp) cluster p i off limit =
      Inr \<lparr>fp_partition = p, fp_records = recs_from cd (gd_log (rp_group rp)) p off k, fp_next_offset = off + of_nat k\<rparr> \<and>
    page_size 0 0 (unat e - unat off) (unat limit) (\<lambda>n. page_bytes (recs_from cd (gd_log (rp_group rp)) p off n)) k \<and>
    (\<forall>j < k. content cd (gd_log (rp_group rp)) p (off + of_nat j) \<noteq> None)"
proof -
  let ?lg = "gd_log (rp_group rp)"
  have grp: "group_ok cd (rp_group rp)" using ok by (simp add: replica_ok_def)
  have sorted: "tsorted (lg_records ?lg)" using group_okD(11) [OF grp] by (simp add: log_ok_def)
  have id: "rl_id lease = i" using group_okD(10) [OF grp] lease(1) tget_Some_in by (fastforce simp: leases_keyed_def)
  have live: "live_lease (ls_leases (gd_leases (rp_group rp))) lease"
    using lease(1) clock(2) id by (simp add: live_lease_def lease_is_effectively_active_def)
  have below: "off < e" using off by (simp add: range_contains_def e_def)
  have present: "content cd ?lg p x \<noteq> None" if "off \<le> x" "x < e" for x
  proof -
    have "range_contains (rl_range lease) x" using off that by (auto simp: range_contains_def e_def)
    with live retention_okD(5) [OF group_okD(2) [OF grp]] obtain r where "records_of ?lg p x = Some r"
      unfolding leases_backed_def p_def by fastforce
    from record_content [OF ok this] show ?thesis by auto
  qed
  from fetch_loop_page [OF sorted less_imp_le [OF below], of cd p "Some e" "''protected record payload is missing''" limit "[]" 0] present
  obtain k where k: "fetch_loop cd (lg_payload ?lg) ''protected record payload is missing'' p limit (Some e) [] 0 (record_items ?lg p off) =
      Inr (recs_from cd ?lg p off k)"
    "page_size 0 0 (unat e - unat off) (unat limit) (\<lambda>n. page_bytes (recs_from cd ?lg p off n)) k" by auto
  have small: "unat off + k \<le> unat e" using k(2) below by (auto simp: page_size_def word_less_nat_alt)
  then have room: "unat off + k < 2 ^ 64" using unat_lt_width [of e] by simp
  have inside: "content cd ?lg p (off + of_nat j) \<noteq> None" if "j < k" for j
  proof -
    have "unat (off + of_nat j) = unat off + j" using room that by (simp add: unat_word_ariths unat_of_nat)
    with that small show ?thesis by (intro present) (simp_all add: word_le_nat_alt word_less_nat_alt)
  qed
  have "fetch_protected cd (rp_group rp) cluster p i off limit =
      Inr \<lparr>fp_partition = p, fp_records = recs_from cd ?lg p off k, fp_next_offset = off + of_nat k\<rparr>"
    using checks lease clock off less_imp_neq [OF below] k(1) page_step [OF room, of p cd ?lg]
    by (simp add: fetch_protected_def Let_def p_def [symmetric] e_def [symmetric])
  with k(2) inside show ?thesis by blast
qed

section \<open>Published records\<close>

text \<open>The bytes behind the records of a receipt, in the state the entry leaves.\<close>

lemma entry_payload_slot:
  assumes "en_payload e = Normal (PublishMany bs)" "i < length bs" "j < length (pb_records (bs ! i))"
  shows "(payload_id (en_log_id e) (slot_of bs i + j), pb_records (bs ! i) ! j) \<in> set (entry_payloads e)"
proof -
  let ?all = "concat (map pb_records bs)"
  have at: "slot_of bs i + j < length ?all \<and> ?all ! (slot_of bs i + j) = pb_records (bs ! i) ! j"
    using assms(2,3)
  proof (induction bs arbitrary: i)
    case (Cons b bs)
    then show ?case by (cases i) (auto simp: nth_append)
  qed simp
  have recs: "entry_records e = ?all" using assms(1) by (simp add: entry_records_def)
  show ?thesis
    unfolding entry_payloads_def recs set_zip using at
    by (intro CollectI exI [of _ "slot_of bs i + j"]) (simp add: slot_keys_def)
qed

lemma published_content:
  assumes ok: "replica_ok cd rp log" and e: "e \<in> set log" "en_payload e = Normal (PublishMany bs)"
    and held: "holds_records (en_log_id e) (slot_of bs i) (bs ! i) rcpt (gd_log (rp_group rp))"
    and ij: "i < length bs" "j < length (pb_records (bs ! i))"
  shows "content cd (gd_log (rp_group rp)) (pb_partition (bs ! i)) (rr_first (rc_range rcpt) + of_nat j) =
    Some (pb_records (bs ! i) ! j)"
proof -
  let ?lg = "gd_log (rp_group rp)"
  obtain r where r: "records_of ?lg (pb_partition (bs ! i)) (rr_first (rc_range rcpt) + of_nat j) = Some r"
    "sr_payload_key r = payload_id (en_log_id e) (slot_of bs i + j)"
    using held ij(2) by (auto simp: holds_records_def indexes_def)
  have "(payload_id (en_log_id e) (slot_of bs i + j), pb_records (bs ! i) ! j) \<in> set (concat (map entry_payloads log))"
    using entry_payload_slot [OF e(2) ij] e(1) by auto
  from holds_payloadsD [OF _ this, of "lg_payload ?lg"] ok
  have "tget (lg_payload ?lg) (sr_payload_key r) = Some (encode_payload_value (pb_records (bs ! i) ! j))"
    by (simp add: replica_ok_def represents_def r(2))
  with r(1) show ?thesis by (simp add: content_def decode_encode)
qed

lemma entry_acknowledged:
  assumes run: "apply_entry cd db e = Inr (g, PublishedMany outcomes)" "en_payload e = Normal (PublishMany bs)"
    and ok: "publish_ok db" and small: "\<forall>b \<in> set bs. length (pb_records b) < 2 ^ 64"
    and new: "distinct (map (\<lambda>b. receipt_key cd (pb_partition b) (pb_request b)) bs)"
      "\<forall>b \<in> set bs. tget (ps_receipts (gd_producers db)) (receipt_key cd (pb_partition b) (pb_request b)) = None"
    and n: "n < length bs" "io_result (outcomes ! n) = Inr rcpt"
  shows "holds_records (en_log_id e) (slot_of bs n) (bs ! n) rcpt (gd_log g)"
proof -
  obtain v where v: "apply_command cd db (en_log_id e) (PublishMany bs) db = Inr (v, PublishedMany outcomes)" "gd_log g = gd_log v"
    using run by (auto simp: apply_entry_def bind_result_Inr)
  have "apply_publish_many cd db (en_log_id e) bs db = Inr (v, PublishedMany outcomes)"
  proof (cases "mf_held (mutation_fence_state db)")
    case None
    with v(1) show ?thesis by (simp add: apply_command_def dispatch_def)
  next
    case (Some held)
    have "outcomes = map (snd \<circ> replay_item cd db (ft_export (hf_token held))) bs"
      using v(1) Some by (auto simp: apply_command_def replay_included_command_def replay_publish_many_def Let_def bind_result_Inr comp_def split: if_splits)
    moreover have "prior_publish_outcome cd db (bs ! n) = None" using new(2) n(1) by (simp add: prior_publish_outcome_def)
    ultimately show ?thesis using n by (simp add: replay_item_def split: if_splits)
  qed
  from publish_many_acknowledged [OF this ok small new n] v(2) show ?thesis by simp
qed

end
