(* ===== verification/Lease_Properties.thy ===== *)
theory Lease_Properties
  imports Lease_Handlers
begin

text \<open>
  Properties of single retention and lease commands: the bytes a lease reserves, renewals, retries and
  the progress of maintenance. That leases protect their records through whole runs of a group is
  proved where the commands are composed.
\<close>

section \<open>Bytes of a range\<close>

definition payload_size :: "log_state \<Rightarrow> PartitionKey \<Rightarrow> nat \<Rightarrow> nat" where
  "payload_size lg p k = (case records_of lg p (of_nat k) of Some r \<Rightarrow> unat (sr_payload_bytes r) | None \<Rightarrow> 0)"

lemma chain_sum:
  assumes "chain_with pos (records_of lg p) ret tail" "unat (pr_logical_floor ret) \<le> i" "i \<le> j" "j \<le> unat tail"
  shows "pos j = pos i + (\<Sum>k = i..<j. payload_size lg p k)"
  using assms(3,4)
proof (induction j rule: dec_induct)
  case (step n)
  have "n < 2 ^ 64" using step.prems unat_lt_width [of tail] by simp
  then have w: "unat (of_nat n :: u64) = n" by (simp add: unat_of_nat)
  then have "pr_logical_floor ret \<le> of_nat n" "of_nat n < tail"
    using step assms(2) by (auto simp: word_le_nat_alt word_less_nat_alt)
  then obtain r where r: "records_of lg p (of_nat n) = Some r" using chain_present [OF assms(1)] by blast
  have "pos n + payload_size lg p n = pos (Suc n)"
    using chain_record(3) [OF assms(1) r] w r by (simp add: payload_size_def)
  with step show ?case by simp
qed simp

lemma replay_start_boundary:
  assumes c: "chain_with pos (records_of lg p) (retention_of lg p) (next_offset lg p)"
    and start: "pr_logical_floor (retention_of lg p) \<le> s" "s < next_offset lg p"
  shows "\<exists>b. (if s = pr_logical_floor (retention_of lg p) then Inr (pr_floor_byte_position (retention_of lg p))
      else case tget (lg_records lg) (p, s - 1) of
        None \<Rightarrow> Inl (InvalidRange ''replay lease start boundary is unavailable'')
      | Some v \<Rightarrow> Inr (sr_cumulative_end_bytes v)) = Inr b \<and> unat b = pos (unat s)"
proof (cases "s = pr_logical_floor (retention_of lg p)")
  case True
  then show ?thesis using chain_withD(4) [OF c] by simp
next
  case False
  then have "pr_logical_floor (retention_of lg p) < s" using start(1) by simp
  from chain_boundary [OF c this order_less_imp_le [OF start(2)]] show ?thesis using False by (auto simp: records_of_def)
qed

section \<open>Maintenance\<close>

text \<open>Every record of the partition below the floor has an ownership entry for its payload.\<close>

definition owners_known :: "log_state \<Rightarrow> PartitionKey \<Rightarrow> bool" where
  "owners_known lg p \<longleftrightarrow>
     (\<forall>off r. records_of lg p off = Some r \<longrightarrow> tget (lg_owners lg) (sr_payload_key r) \<noteq> None)"

lemma maintain_loop_total:
  assumes "owners_known dblog p"
  shows "\<exists>st. maintain_loop dblog bank p ranges max_records max_bytes examined reclaimed st0 = Inr st"
  using assms
proof (induction dblog bank p ranges max_records max_bytes examined reclaimed st0 rule: maintain_loop.induct)
  case (1 dblog bank p ranges max_records max_bytes examined reclaimed ret lg)
  let ?c = "pr_reclaim_cursor ret"
  have owned: "tget (lg_records dblog) (p, ?c) = Some r \<Longrightarrow> \<exists>o1. tget (lg_owners dblog) (sr_payload_key r) = Some o1" for r
    using "1.prems" by (auto simp: owners_known_def records_of_def)
  show ?case
    using "1.IH" "1.prems" owned
    by (subst maintain_loop.simps) (auto simp del: maintain_loop.simps split: option.splits)
qed

lemma maintain_loop_advances:
  assumes run: "maintain_loop dblog bank p ranges max_records max_bytes 0 reclaimed (ret, lg) = Inr st"
    and same: "\<And>off. pr_reclaim_cursor ret \<le> off \<Longrightarrow> records_of lg p off = records_of dblog p off"
    and go: "pr_reclaim_cursor ret < pr_logical_floor ret" "0 < max_records"
  shows "pr_reclaim_cursor ret < pr_reclaim_cursor (fst st)"
proof -
  let ?c = "pr_reclaim_cursor ret"
  have up: "?c < saturating_add ?c 1" using below_next [OF go(1), of ?c] by simp
  have later: "pr_reclaim_cursor r \<le> pr_reclaim_cursor (fst st)"
    if "maintain_loop dblog bank p ranges max_records max_bytes e b (r, l) = Inr st" "?c \<le> pr_reclaim_cursor r"
      "\<And>off. pr_reclaim_cursor r \<le> off \<Longrightarrow> records_of l p off = records_of dblog p off" for e b r l
    using maintain_loop_reclaims [OF that(1,3)] unfolding reclaims_def Let_def by simp
  show ?thesis
  proof (cases "find (\<lambda>r. range_contains r ?c) ranges")
    case (Some r)
    then have r: "range_contains r ?c" by (auto simp: find_Some_iff)
    let ?ret = "ret\<lparr>pr_reclaim_cursor := min (rg_end r) (pr_logical_floor ret)\<rparr>"
    have lt: "?c < pr_reclaim_cursor ?ret" using r go(1) by (simp add: range_contains_def)
    have "maintain_loop dblog bank p ranges max_records max_bytes 0 reclaimed (?ret, lg) = Inr st"
      using run go Some by (subst (asm) maintain_loop.simps) simp
    from later [OF this] lt same have "pr_reclaim_cursor ?ret \<le> pr_reclaim_cursor (fst st)"
      by (meson order_less_imp_le order_trans)
    with lt show ?thesis by order
  next
    case none: None
    show ?thesis
    proof (cases "tget (lg_records dblog) (p, ?c)")
      case None
      let ?ret = "ret\<lparr>pr_reclaim_cursor := saturating_add ?c 1\<rparr>"
      have "maintain_loop dblog bank p ranges max_records max_bytes (saturating_add 0 1) reclaimed (?ret, lg) = Inr st"
        using run go none None by (subst (asm) maintain_loop.simps) simp
      from later [OF this] up same have "pr_reclaim_cursor ?ret \<le> pr_reclaim_cursor (fst st)"
        by (simp add: order_less_imp_le order_trans [OF order_less_imp_le [OF up]])
      with up show ?thesis by simp
    next
      case (Some r)
      obtain owners where o: "tget (lg_owners dblog) (sr_payload_key r) = Some owners"
        and next_: "maintain_loop dblog bank p ranges max_records max_bytes (saturating_add 0 1)
          (saturating_add reclaimed (sr_payload_bytes r)) (reclaim_record bank p r owners (ret, lg)) = Inr st"
        using run go none Some by (subst (asm) maintain_loop.simps) (auto simp del: maintain_loop.simps split: option.splits)
      obtain ret' lg' where e: "reclaim_record bank p r owners (ret, lg) = (ret', lg')" by fastforce
      have cur: "pr_reclaim_cursor ret' = saturating_add ?c 1"
        using reclaim_record_cursor(1) [of bank p r owners ret lg] e by simp
      have "\<forall>r \<in> set ranges. \<not> range_contains r ?c" using none by (auto simp: find_None_iff)
      from reclaims_record [OF this go(1), of p lg bank r owners]
      have "reclaims p ranges (ret, lg) (ret', lg')" unfolding e .
      from reclaimsD(10) [OF this] same up cur
      have "records_of lg' p off = records_of dblog p off" if "pr_reclaim_cursor ret' \<le> off" for off
        using that by (metis order_less_imp_le order_trans)
      from later [OF next_ [unfolded e] _ this] up cur show ?thesis by (simp add: order_less_le_trans)
    qed
  qed
qed


section \<open>Retries\<close>

lemma advance_retention_records:
  assumes run: "apply_advance_retention cd db request ob db = (w, result)" and ok: "retention_ok db"
    and data: "kind_is_data db"
    and new: "prior_mutation_result cd db (rq_request request) (retention_fingerprint cd request) = None"
  shows "\<exists>w0. w = store_mutation_result cd db (rq_request request) (retention_fingerprint cd request) result w0 \<and>
    gd_identity w0 = gd_identity db"
proof -
  let ?p = "rq_partition request" and ?ret = "retention_of (gd_log db) (rq_partition request)"
  obtain pos where c: "chain_with pos (records_of (gd_log db) ?p) ?ret (next_offset (gd_log db) ?p)"
    using log_okD [OF retention_okD(1) [OF ok], of ?p] by (auto simp: chain_ok_def)
  have "floor_boundary (gd_log db) ?p ?ret floor \<noteq> None"
    if "advance_floor (pr_logical_floor ?ret) (rq_target_floor request) (next_offset (gd_log db) ?p) = Inr floor" for floor
  proof -
    have "pr_logical_floor ?ret \<le> floor" "floor \<le> next_offset (gd_log db) ?p"
      using that chain_withD(3) [OF c] by (auto simp: advance_floor_Inr)
    from floor_boundary_exact [OF c this] show ?thesis by blast
  qed
  with run data new show ?thesis
    unfolding apply_advance_retention_def Let_def by (auto split: sum.splits option.splits)
qed

interpretation retention: mutation_handler cd rq_request "retention_fingerprint cd"
  "\<lambda>db _. kind_is_data db \<and> retention_ok db" "\<lambda>db request ob. Inr (apply_advance_retention cd db request ob db)" for cd
proof
  fix db request r ob
  assume "kind_is_data db \<and> retention_ok db"
    "prior_mutation_result cd db (rq_request request) (retention_fingerprint cd request) = Some r"
  then show "Inr (apply_advance_retention cd db request ob db) = Inr (db, r)"
    by (simp add: apply_advance_retention_def Let_def)
next
  fix db request w r ob
  assume a: "kind_is_data db \<and> retention_ok db"
    "prior_mutation_result cd db (rq_request request) (retention_fingerprint cd request) = None"
    "Inr (apply_advance_retention cd db request ob db) = Inr (w, r)"
  from a(3) have run: "apply_advance_retention cd db request ob db = (w, r)" by simp
  from advance_retention_records [OF run conjunct2 [OF a(1)] conjunct1 [OF a(1)] a(2)] obtain w0
    where w0: "w = store_mutation_result cd db (rq_request request) (retention_fingerprint cd request) r w0"
      "gd_identity w0 = gd_identity db" by blast
  moreover have "kind_is_data w" using a(1) w0 by (simp add: kind_is_data_def)
  moreover have "retention_ok w" using advance_retention_keeps [OF run] a(1) by blast
  ultimately show "\<exists>w0. w = store_mutation_result cd db (rq_request request) (retention_fingerprint cd request) r w0 \<and>
      (kind_is_data w \<and> retention_ok w)" by blast
qed

interpretation admission: mutation_handler cd lr_request "\<lambda>r. mutation_fingerprint cd (cd_json_lease cd r)"
  "\<lambda>_ _. True" "\<lambda>db request ob. Inr (apply_admit_replay_lease cd db request ob db)" for cd
  by unfold_locales (auto simp: apply_admit_replay_lease_def Let_def split: sum.splits option.splits prod.splits)

interpretation renewal: mutation_handler cd ln_request "\<lambda>r. mutation_fingerprint cd (cd_json_renewal cd r)"
  "\<lambda>_ _. True" "\<lambda>db request ob. Inr (apply_renew_replay_lease cd db request ob db)" for cd
  by unfold_locales
    (auto simp: apply_renew_replay_lease_def Let_def split: sum.splits option.splits prod.splits if_splits)

interpretation release: mutation_handler cd le_request "\<lambda>r. mutation_fingerprint cd (cd_json_release cd r)"
  "\<lambda>_ _. True" "\<lambda>db request ob. Inr (apply_release_replay_lease cd db request ob db)" for cd
  by unfold_locales
    (auto simp: apply_release_replay_lease_def Let_def split: sum.splits option.splits prod.splits if_splits)


section \<open>A concrete partition\<close>

text \<open>Three records of two bytes, the first of them below the floor.\<close>

definition demo_record :: "u64 \<Rightarrow> StoredRecord" where
  "demo_record off = \<lparr>sr_payload_key = [ucast off], sr_payload_bytes = 2, sr_cumulative_end_bytes = 2 * off + 2\<rparr>"

definition demo_retained :: group_db where
  "demo_retained =
     (let g = empty_group (GroupIdentity_new 9 2 DataGroup) 2; p = PartitionKey 4 0
      in g\<lparr>gd_log := (gd_log g)
             \<lparr>lg_next_offset := [(p, 3)],
              lg_records := [((p, 0), demo_record 0), ((p, 1), demo_record 1), ((p, 2), demo_record 2)],
              lg_owners := [([0], \<lparr>po_raft_log = True, po_applied_state = False, po_applied_banks = 1\<rparr>),
                            ([1], \<lparr>po_raft_log = True, po_applied_state = False, po_applied_banks = 1\<rparr>),
                            ([2], \<lparr>po_raft_log = True, po_applied_state = False, po_applied_banks = 1\<rparr>)],
              lg_retention := [(p, PartitionRetentionState_default
                \<lparr>pr_logical_floor := 1, pr_floor_byte_position := 2, pr_next_byte_position := 6\<rparr>)]\<rparr>\<rparr>)"

lemmas demo_retained_defs = demo_retained_def empty_group_def empty_log_def GroupIdentity_new_def Let_def
  PartitionRetentionState_default_def retention_of_def next_offset_def tget_or_def

lemma word3_cases: "(off::u64) < 3 \<longleftrightarrow> off = 0 \<or> off = 1 \<or> off = 2"
proof
  assume "off < 3"
  then have "unat off < 3" by (simp add: word_less_nat_alt)
  then have "unat off = unat (0::u64) \<or> unat off = unat (1::u64) \<or> unat off = unat (2::u64)" by auto
  then show "off = 0 \<or> off = 1 \<or> off = 2" unfolding word_unat_eq_iff .
qed auto

lemma demo_retained_records:
  "records_of (gd_log demo_retained) q off = (if q = PartitionKey 4 0 \<and> off < 3 then Some (demo_record off) else None)"
  by (auto simp: records_of_def demo_retained_defs word3_cases)

lemma demo_retained_ok: "retention_ok demo_retained"
proof -
  let ?p = "PartitionKey 4 0"
  have "chain_with (\<lambda>n. 2 * n) (records_of (gd_log demo_retained) ?p) (retention_of (gd_log demo_retained) ?p)
      (next_offset (gd_log demo_retained) ?p)"
    unfolding chain_with_def demo_retained_records
    by (auto simp: demo_retained_defs demo_record_def word3_cases)
  moreover have "chain_ok (\<lambda>_. None) (retention_of (gd_log demo_retained) q) (next_offset (gd_log demo_retained) q)"
    if "q \<noteq> ?p" for q
    using that chain_ok_empty by (simp add: demo_retained_defs)
  moreover have "records_of (gd_log demo_retained) q = (\<lambda>_. None)" if "q \<noteq> ?p" for q
    using that by (simp add: fun_eq_iff demo_retained_records)
  ultimately have "partition_ok (gd_log demo_retained) q" for q
    unfolding partition_ok_def by (cases "q = ?p") (auto simp: chain_ok_def)
  moreover have "tsorted (lg_records (gd_log demo_retained))" by (simp add: demo_retained_defs tsorted_def)
  ultimately have "log_ok (gd_log demo_retained)" by (simp add: log_ok_def)
  moreover have "pr_reclaim_cursor (retention_of (gd_log demo_retained) q) = 0" for q
    by (simp add: demo_retained_defs)
  moreover have "ls_leases (gd_leases demo_retained) = []" "ls_budget (gd_leases demo_retained) = None"
    by (simp_all add: demo_retained_defs)
  ultimately show ?thesis
    by (simp add: retention_ok_def leases_keyed_def tsorted_def budget_ok_def lease_budget_of_def LeaseBudget_default_def
        active_leases_def reserved_bytes_def budget_limited_def leases_backed_def live_lease_def no_leak_def)
qed


section \<open>Properties\<close>

text \<open>
  C17. A lease reserves exactly the payload bytes of its range: for every nonempty range inside the
  retained part of a sound log the two boundary reads succeed, and the computed size is the sum of the
  payload sizes of the records in the range.
\<close>

theorem lease_bytes_exact:
  assumes "log_ok lg" "r = lr_range request" "p = rg_partition r"
    and "pr_logical_floor (retention_of lg p) \<le> rg_start r" "rg_start r < rg_end r" "rg_end r \<le> next_offset lg p"
  shows "\<exists>b. replay_range_bytes lg request (retention_of lg p) = Inr b \<and>
    unat b = (\<Sum>k = unat (rg_start r)..<unat (rg_end r). payload_size lg p k)"
proof -
  obtain pos where c: "chain_with pos (records_of lg p) (retention_of lg p) (next_offset lg p)"
    using log_okD [OF assms(1), of p] by (auto simp: chain_ok_def)
  have "rg_start r < next_offset lg p" using assms(5,6) by order
  from replay_start_boundary [OF c assms(4) this] obtain b where
    b: "(if rg_start r = pr_logical_floor (retention_of lg p) then Inr (pr_floor_byte_position (retention_of lg p))
      else case tget (lg_records lg) (p, rg_start r - 1) of
        None \<Rightarrow> Inl (InvalidRange ''replay lease start boundary is unavailable'')
      | Some v \<Rightarrow> Inr (sr_cumulative_end_bytes v)) = Inr b" "unat b = pos (unat (rg_start r))" by blast
  have "pr_logical_floor (retention_of lg p) < rg_end r" using assms(4,5) by order
  from chain_boundary [OF c this assms(6)] obtain v where
    v: "tget (lg_records lg) (p, rg_end r - 1) = Some v" "unat (sr_cumulative_end_bytes v) = pos (unat (rg_end r))"
    by (auto simp: records_of_def)
  have nz: "1 \<le> rg_end r" using assms(5) by (auto simp: word_le_nat_alt word_less_nat_alt)
  have le: "unat (pr_logical_floor (retention_of lg p)) \<le> unat (rg_start r)" "unat (rg_start r) \<le> unat (rg_end r)"
    "unat (rg_end r) \<le> unat (next_offset lg p)"
    using assms(4-6) by (simp_all add: word_le_nat_alt word_less_nat_alt)
  note sum = chain_sum [OF c le]
  then have "checked_sub (sr_cumulative_end_bytes v) b = Some (sr_cumulative_end_bytes v - b)"
    using v(2) b(2) by (simp add: checked_sub_def word_le_nat_alt)
  moreover have "unat (sr_cumulative_end_bytes v - b) = pos (unat (rg_end r)) - pos (unat (rg_start r))"
    using sum v(2) b(2) by (simp add: unat_sub word_le_nat_alt)
  ultimately show ?thesis
    unfolding replay_range_bytes_def Let_def assms(2) [symmetric] assms(3) [symmetric] b(1)
    using sum v(1) nz by (simp add: checked_sub_def)
qed

definition demo_lease_request :: "u64 \<Rightarrow> ReplayLeaseRequest" where
  "demo_lease_request sequence =
     \<lparr>lr_request = \<lparr>mr_principal = [112], mr_session = 3, mr_sequence = sequence\<rparr>, lr_cluster = 9,
      lr_range = \<lparr>rg_partition = PartitionKey 4 0, rg_start = 1, rg_end = 3\<rparr>, lr_duration = 1000, lr_max_bytes = 64\<rparr>"

theorem lease_bytes_exact_witness:
  "\<exists>b. replay_range_bytes (gd_log demo_retained) (demo_lease_request 1)
      (retention_of (gd_log demo_retained) (PartitionKey 4 0)) = Inr b \<and> unat b = 4"
proof -
  have two: "{unat (1::u64)..<unat (3::u64)} = {1, 2}" by auto
  have e: "(\<Sum>k = unat (1::u64)..<unat (3::u64). payload_size (gd_log demo_retained) (PartitionKey 4 0) k) = 4"
    unfolding two by (simp add: payload_size_def demo_retained_records demo_record_def)
  show ?thesis
    using lease_bytes_exact [OF retention_okD(1) [OF demo_retained_ok] refl refl, of "demo_lease_request 1"] e
    by (simp add: demo_lease_request_def demo_retained_defs)
qed

text \<open>
  C18. Maintenance makes progress: on a group in order whose lease clock accepts the observation, when every
  record of the partition has an ownership entry, a maintenance command at the current cursor with positive
  limits succeeds; the command first expires due leases, which may lower the cursor, and when the cursor is
  then below the floor the command ends with the cursor strictly past that point, however large the first
  record is. It need not end past where the cursor stood before the command.
\<close>

theorem maintenance_progress:
  assumes "retention_ok db" "owners_known (gd_log db) p" "max_records \<noteq> 0" "max_bytes \<noteq> 0"
    and "advance_lease_clock db ob = Inr clock" "expire_due_leases db clock db = (w1, xs)"
    and "pr_reclaim_cursor (retention_of (gd_log w1) p) < pr_logical_floor (retention_of (gd_log db) p)"
  shows "\<exists>w status. apply_maintain_retention db p (pr_reclaim_cursor (retention_of (gd_log db) p))
      max_records max_bytes ob db = Inr (w, RetentionStatusResult status) \<and>
    pr_reclaim_cursor (retention_of (gd_log w1) p) < rt_reclaim_cursor status \<and>
    pr_reclaim_cursor (retention_of (gd_log w) p) = rt_reclaim_cursor status"
proof -
  note eff = expire_due_leases_effect [OF assms(6) retention_okD(2) [OF assms(1)]]
  have low: "lowered (gd_log db) (gd_log w1)" and view: "ret_view db xs p = retention_of (gd_log w1) p"
    using eff unfolding expiry_effect_def by blast+
  let ?ranges = "map rl_range (filter (\<lambda>l. rg_partition (rl_range l) = p) (xs_active xs))"
  obtain ret lg where run: "maintain_loop (gd_log db) (gd_active_bank db) p ?ranges max_records max_bytes 0 0
      (retention_of (gd_log w1) p, gd_log w1) = Inr (ret, lg)"
    using maintain_loop_total [OF assms(2)] by (metis surj_pair)
  have "records_of (gd_log w1) p off = records_of (gd_log db) p off" for off
    using low by (simp add: lowered_def records_of_def)
  moreover have "pr_logical_floor (retention_of (gd_log w1) p) = pr_logical_floor (retention_of (gd_log db) p)"
    by (rule expiry_reads(1) [OF eff])
  ultimately have "pr_reclaim_cursor (retention_of (gd_log w1) p) < pr_reclaim_cursor ret"
    using maintain_loop_advances [OF run] assms(3,7) by (simp add: word_neq_0_conv)
  moreover have "apply_maintain_retention db p (pr_reclaim_cursor (retention_of (gd_log db) p)) max_records max_bytes ob db =
      Inr (w1\<lparr>gd_log := lg\<lparr>lg_retention := tput (lg_retention lg) p ret\<rparr>,
             gd_leases := (gd_leases w1)\<lparr>ls_clock := Some clock\<rparr>\<rparr>, RetentionStatusResult (retention_status_of p ret))"
    using run assms(3-6) view unfolding apply_maintain_retention_def Let_def ret_view_def
    by (simp del: maintain_loop.simps)
  ultimately show ?thesis by (auto simp: retention_status_of_def retention_of_def)
qed

theorem maintenance_progress_witness:
  "\<exists>w status. apply_maintain_retention demo_retained (PartitionKey 4 0) 0 1 1
      \<lparr>co_lower_bound = 10, co_upper_bound = 20\<rparr> demo_retained = Inr (w, RetentionStatusResult status) \<and>
    0 < rt_reclaim_cursor status"
proof -
  let ?clock = "\<lparr>sc_lower_bound = 10, sc_upper_bound = 20\<rparr> :: SafeLeaseClock"
  have known: "owners_known (gd_log demo_retained) (PartitionKey 4 0)"
    unfolding owners_known_def demo_retained_records
    by (auto simp: demo_retained_defs demo_record_def word3_cases split: if_splits)
  have clock: "advance_lease_clock demo_retained \<lparr>co_lower_bound = 10, co_upper_bound = 20\<rparr> = Inr ?clock"
    by (simp add: advance_lease_clock_def demo_retained_defs SafeLeaseClock_new_def)
  have expiry: "expire_due_leases demo_retained ?clock demo_retained =
      (demo_retained, \<lparr>xs_budget = LeaseBudget_default, xs_active = [], xs_retentions = [], xs_reclaim_hints = []\<rparr>)"
    by (simp add: expire_due_leases_def demo_retained_defs lease_budget_of_def)
  have cursor: "pr_reclaim_cursor (retention_of (gd_log demo_retained) (PartitionKey 4 0)) = 0"
    "pr_logical_floor (retention_of (gd_log demo_retained) (PartitionKey 4 0)) = 1"
    by (simp_all add: demo_retained_defs)
  from maintenance_progress [OF demo_retained_ok known _ _ clock expiry, of 1 1] show ?thesis
    unfolding cursor by auto
qed


text \<open>
  Lease commands are idempotent: whatever an admission, a renewal or a release answered, a retry of
  the same request, even at another clock, answers the same and changes nothing.
\<close>

lemma lease_retry_same:
  assumes "mutation_keys_apart cd db (lr_request a)" "apply_admit_replay_lease cd db a ob db = (w1, r1)"
    and "mutation_keys_apart cd db (ln_request b)" "apply_renew_replay_lease cd db b ob db = (w2, r2)"
    and "mutation_keys_apart cd db (le_request c)" "apply_release_replay_lease cd db c ob db = (w3, r3)"
  shows "apply_admit_replay_lease cd w1 a ob' w1 = (w1, r1) \<and> apply_renew_replay_lease cd w2 b ob' w2 = (w2, r2) \<and>
    apply_release_replay_lease cd w3 c ob' w3 = (w3, r3)"
proof (intro conjI)
  show "apply_admit_replay_lease cd w1 a ob' w1 = (w1, r1)"
    using admission.retry_returns_same [OF TrueI assms(1), of ob w1 r1 ob'] assms(2) by simp
  show "apply_renew_replay_lease cd w2 b ob' w2 = (w2, r2)"
    using renewal.retry_returns_same [OF TrueI assms(3), of ob w2 r2 ob'] assms(4) by simp
  show "apply_release_replay_lease cd w3 c ob' w3 = (w3, r3)"
    using release.retry_returns_same [OF TrueI assms(5), of ob w3 r3 ob'] assms(6) by simp
qed

definition demo_renewal :: "u64 \<Rightarrow> LeaseRenewal" where
  "demo_renewal d = \<lparr>ln_request = lr_request (demo_lease_request 2), ln_partition = PartitionKey 4 0, ln_lease = 77, ln_duration = d\<rparr>"

definition demo_release :: LeaseRelease where
  "demo_release = \<lparr>le_request = lr_request (demo_lease_request 3), le_partition = PartitionKey 4 0, le_lease = 77\<rparr>"

definition demo_time :: "u64 \<Rightarrow> ClockObservation" where
  "demo_time t = \<lparr>co_lower_bound = t, co_upper_bound = t\<rparr>"

lemma demo_retained_keys: "mutation_keys_apart demo_codec demo_retained r"
  by (simp add: mutation_keys_apart_def mutation_session_def demo_retained_defs SessionState_default_def)

text \<open>
  C19. A renewal moves the expiry of a lease forward, to the safe upper clock bound plus the requested
  duration and never past the hard expiry set at admission; range, bytes and identity stay.
\<close>

theorem renewal_extends:
  assumes "apply_renew_replay_lease cd db request ob db = (w, ReplayLeaseResult m)"
    and "prior_mutation_result cd db (ln_request request) (mutation_fingerprint cd (cd_json_renewal cd request)) = None"
  shows "\<exists>l clock. tget (ls_leases (gd_leases db)) (ln_lease request) = Some l \<and>
    tget (ls_leases (gd_leases w)) (ln_lease request) = Some m \<and>
    advance_lease_clock db ob = Inr clock \<and> lease_is_effectively_active l clock \<and>
    unat (rl_expires_at m) = unat (sc_upper_bound clock) + unat (ln_duration request) \<and>
    rl_expires_at l < rl_expires_at m \<and> rl_expires_at m \<le> rl_hard_expires_at l \<and>
    rl_hard_expires_at m = rl_hard_expires_at l \<and> rl_id m = rl_id l \<and> rl_request m = rl_request l \<and>
    rl_protected_bytes m = rl_protected_bytes l"
  using assms unfolding apply_renew_replay_lease_def Let_def
  by (auto simp: lease_renewed_def checked_add_Some not_le not_less split: sum.splits prod.splits option.splits if_splits)

definition demo_lease :: ReplayLease where
  "demo_lease = ReplayLease_admitted 77 (demo_lease_request 1) 4 1000 900000"

definition demo_leased :: group_db where
  "demo_leased = demo_retained\<lparr>gd_leases := (gd_leases demo_retained)
     \<lparr>ls_leases := [(77, demo_lease)], ls_budget := Some \<lparr>lb_active_leases = 1, lb_reserved_bytes = 4\<rparr>\<rparr>\<rparr>"

theorem renewal_extends_witness:
  "\<exists>w m. apply_renew_replay_lease demo_codec demo_leased (demo_renewal 600000) (demo_time 10) demo_leased =
      (w, ReplayLeaseResult m) \<and> rl_expires_at m = 600010 \<and>
    lim_max_lease_duration_ms RetentionLimits_default < ln_duration (demo_renewal 600000)"
proof -
  have fresh: "prior_mutation_result demo_codec demo_leased r fp = None" if "mr_sequence r = 2" for r fp
    using that by (simp add: prior_mutation_result_def mutation_session_def demo_leased_def demo_retained_defs
        sequence_expired_def SessionState_default_def)
  have "expire_due_leases demo_leased \<lparr>sc_lower_bound = 10, sc_upper_bound = 10\<rparr> demo_leased =
      (demo_leased, \<lparr>xs_budget = \<lparr>lb_active_leases = 1, lb_reserved_bytes = 4\<rparr>, xs_active = [demo_lease],
         xs_retentions = [], xs_reclaim_hints = []\<rparr>)"
    by (simp add: expire_due_leases_def demo_leased_def lease_budget_of_def lease_is_effectively_active_def
        demo_lease_def ReplayLease_admitted_def)
  moreover have "advance_lease_clock demo_leased (demo_time 10) = Inr \<lparr>sc_lower_bound = 10, sc_upper_bound = 10\<rparr>"
    by (simp add: advance_lease_clock_def demo_leased_def demo_retained_defs demo_time_def SafeLeaseClock_new_def)
  moreover have "tget (ls_leases (gd_leases demo_leased)) 77 = Some demo_lease" by (simp add: demo_leased_def)
  ultimately obtain w m where run: "apply_renew_replay_lease demo_codec demo_leased (demo_renewal 600000) (demo_time 10)
      demo_leased = (w, ReplayLeaseResult m)"
    by (simp add: apply_renew_replay_lease_def fresh demo_renewal_def demo_lease_request_def Let_def
        demo_lease_def ReplayLease_admitted_def lease_is_effectively_active_def lease_renewed_def checked_add_def)
  have "prior_mutation_result demo_codec demo_leased (ln_request (demo_renewal 600000)) fp = None" for fp
    by (rule fresh) (simp add: demo_renewal_def demo_lease_request_def)
  from renewal_extends [OF run this] have "unat (rl_expires_at m) = 600010"
    by (auto simp: advance_lease_clock_def demo_leased_def demo_retained_defs demo_time_def SafeLeaseClock_new_def
        demo_renewal_def)
  then have "unat (rl_expires_at m) = unat (600010 :: u64)" by simp
  then have "rl_expires_at m = 600010" by (simp only: word_unat_eq_iff)
  with run show ?thesis by (auto simp: RetentionLimits_default_def demo_renewal_def)
qed

end
