(* ===== verification/Replica_Properties.thy ===== *)
theory Replica_Properties
  imports Readers Lease_Properties
begin

text \<open>
  The properties of a replica: its log is a list of entries, its payloads have exactly the owners they
  should, and what was published is what readers get, on every run of log operations and applications.
\<close>

section \<open>A concrete replica\<close>

definition fresh_replica :: "GroupIdentity \<Rightarrow> nat \<Rightarrow> replica" where
  "fresh_replica identity window =
     \<lparr>rp_group = empty_group identity window,
      rp_raft = \<lparr>rf_log = [], rf_vote = None, rf_committed = None, rf_purged = None\<rparr>\<rparr>"

lemma fresh_replica_ok: "0 < window \<Longrightarrow> replica_ok cd (fresh_replica identity window) []"
proof -
  assume w: "0 < window"
  have "gd_log (empty_group identity window) = empty_log" "gd_active_bank (empty_group identity window) = BankA"
    by (simp_all add: empty_group_def)
  then show ?thesis
    using group_ok_empty [OF w, of cd identity] owned_empty [of BankA]
    by (simp add: replica_ok_def fresh_replica_def represents_def thin_log_def ascending_simps holds_payloads_def
        records_applied_def payloads_framed_def indexed_def) (simp add: empty_log_def)
qed

text \<open>An entry that bootstraps the group, one that publishes two requests and one that admits a lease.\<close>

definition demo_log_id :: "u64 \<Rightarrow> GroupLogId" where
  "demo_log_id i = \<lparr>li_term = 1, li_node = 1, li_index = i\<rparr>"

definition demo_boot :: GroupEntry where
  "demo_boot = \<lparr>en_log_id = demo_log_id 1,
     en_payload = Normal (BootstrapData \<lparr>bs_cluster = 9, bs_stream = 4, bs_stream_name = [115]\<rparr>)\<rparr>"

definition demo_publish :: GroupEntry where
  "demo_publish = \<lparr>en_log_id = demo_log_id 2, en_payload = Normal (PublishMany demo_requests)\<rparr>"

definition demo_admit :: GroupEntry where
  "demo_admit = \<lparr>en_log_id = demo_log_id 3, en_payload = Normal (AdmitReplayLease (demo_lease_request 1) (demo_time 10))\<rparr>"

definition demo_log :: "GroupEntry list" where
  "demo_log = [demo_boot, demo_publish, demo_admit]"

definition demo_replica :: replica where
  "demo_replica = fresh_replica (GroupIdentity_new 9 2 DataGroup) 2"

lemmas demo_entries = demo_boot_def demo_publish_def demo_admit_def demo_log_id_def entry_index_def

lemma demo_index [simp]: "entry_index demo_boot = 1" "entry_index demo_publish = 2" "entry_index demo_admit = 3"
  "\<not> (2 :: u64) \<le> 1" "\<not> (3 :: u64) \<le> 1" "\<not> (3 :: u64) \<le> 2"
  by (simp_all add: demo_entries word_le_nat_alt)

lemma demo_valid: "\<forall>e \<in> set demo_log. entry_valid e" "ascending demo_log"
  by (simp_all add: entry_valid_def demo_entries demo_log_def ascending_def demo_requests_def demo_request_def batch_valid_def
      validate_records_def ReplicatedPublishBatch_new_def MAX_RECORDS_PER_PUBLISH_def MAX_RECORDS_PER_REPLICATED_PUBLISH_def
      MAX_RECORD_BYTES_def MAX_REQUESTS_PER_REPLICATED_PUBLISH_def MAX_PUBLISH_BYTES_def MAX_REPLICATED_PUBLISH_BYTES_def
      usize_checked_add_def payload_bytes_of_def)

lemma demo_appended:
  "\<exists>rp1 lg. replica_step demo_codec demo_replica (AppendOp demo_log) rp1 \<and>
    rp_group rp1 = (rp_group demo_replica)\<lparr>gd_log := lg\<rparr> \<and> stages (entry_payloads demo_publish) empty_log lg"
proof -
  have nil: "rf_log (rp_raft demo_replica) = []" "gd_log (rp_group demo_replica) = empty_log" "gd_applied (rp_group demo_replica) = None"
    by (simp_all add: demo_replica_def fresh_replica_def empty_group_def)
  have boot: "concat (map entry_payloads demo_log) = entry_payloads demo_publish"
    by (simp add: demo_log_def entry_payloads_def entry_records_def demo_boot_def demo_admit_def)
  obtain rp1 where a: "append_loop demo_codec demo_log demo_replica = Inr rp1"
    "rp_group rp1 = (rp_group demo_replica)\<lparr>gd_log := gd_log (rp_group rp1)\<rparr>"
    "stages (entry_payloads demo_publish) empty_log (gd_log (rp_group rp1))"
    using append_loop_ok [of "demo_log" demo_replica demo_codec] demo_valid nil boot by auto
  then have "replica_step demo_codec demo_replica (AppendOp demo_log) rp1"
    using demo_valid nil by (intro append_step) (simp_all add: append_entries_def past_applied_def applied_index_def)
  with a(2,3) show ?thesis by blast
qed

text \<open>The group once it is bootstrapped, with the log state \<open>lg\<close>.\<close>

definition demo_booted :: "log_state \<Rightarrow> group_db" where
  "demo_booted lg = (rp_group demo_replica)
     \<lparr>gd_log := lg, gd_applied := Some (demo_log_id 1),
      gd_catalog := (gd_catalog (rp_group demo_replica))
        \<lparr>ct_bootstrap := Some \<lparr>bs_cluster = 9, bs_stream = 4, bs_stream_name = [115]\<rparr>\<rparr>,
      gd_export := (gd_export (rp_group demo_replica))\<lparr>ex_fence := Some MutationFenceState_default\<rparr>\<rparr>"

lemma demo_boots:
  "\<exists>result. apply_entry demo_codec ((rp_group demo_replica)\<lparr>gd_log := lg\<rparr>) demo_boot = Inr (demo_booted lg, result)"
  by (simp add: apply_entry_def apply_command_def dispatch_def apply_bootstrap_def demo_booted_def demo_entries demo_replica_def
      fresh_replica_def empty_group_def GroupIdentity_new_def mutation_fence_state_def MutationFenceState_default_def)

lemma demo_slots:
  assumes "stages (entry_payloads demo_publish) empty_log lg"
  shows "tget (lg_owners lg) (payload_id (demo_log_id 2) 0) = Some staged"
    "tget (lg_owners lg) (payload_id (demo_log_id 2) (Suc 0)) = Some staged"
    "tget (lg_owners lg) (payload_id (demo_log_id 2) (Suc (Suc 0))) = Some staged"
    "lg_next_offset lg = []" "lg_retention lg = []" "lg_records lg = []" "lg_reclaim_hint lg = []"
proof -
  have keys: "fst ` set (entry_payloads demo_publish) =
      {payload_id (demo_log_id 2) 0, payload_id (demo_log_id 2) (Suc 0), payload_id (demo_log_id 2) (Suc (Suc 0))}"
    unfolding entry_payload_keys entry_keys_def by (auto simp: entry_records_def demo_publish_def demo_requests_def demo_request_def)
  show "tget (lg_owners lg) (payload_id (demo_log_id 2) 0) = Some staged"
    "tget (lg_owners lg) (payload_id (demo_log_id 2) (Suc 0)) = Some staged"
    "tget (lg_owners lg) (payload_id (demo_log_id 2) (Suc (Suc 0))) = Some staged"
    using assms unfolding stages_def keys by auto
  have "lg = empty_log\<lparr>lg_payload := lg_payload lg, lg_owners := lg_owners lg\<rparr>" using assms unfolding stages_def by blast
  then show "lg_next_offset lg = []" "lg_retention lg = []" "lg_records lg = []" "lg_reclaim_hint lg = []"
    by (metis (no_types, lifting) empty_log_def log_state.select_convs(1-4) log_state.update_convs(5,6))+
qed

definition demo_outcomes :: "PublishItemOutcome list" where
  "demo_outcomes =
     [\<lparr>io_request = pb_request (demo_request 1 []), io_result = Inr \<lparr>rc_request = pb_request (demo_request 1 []),
         rc_range = \<lparr>rr_partition = PartitionKey 4 0, rr_first = 0, rr_count = 2\<rparr>, rc_bookmark = None\<rparr>\<rparr>,
      \<lparr>io_request = pb_request (demo_request 2 []), io_result = Inr \<lparr>rc_request = pb_request (demo_request 2 []),
         rc_range = \<lparr>rr_partition = PartitionKey 4 0, rr_first = 2, rr_count = 1\<rparr>, rc_bookmark = None\<rparr>\<rparr>]"

definition demo_stored :: "nat \<Rightarrow> u64 \<Rightarrow> u64 \<Rightarrow> StoredRecord" where
  "demo_stored slot bytes position =
     \<lparr>sr_payload_key = payload_id (demo_log_id 2) slot, sr_payload_bytes = bytes, sr_cumulative_end_bytes = position\<rparr>"

text \<open>What the application of the second entry leaves.\<close>

definition demo_state :: "group_db \<Rightarrow> bool" where
  "demo_state g \<longleftrightarrow>
     lg_next_offset (gd_log g) = [(PartitionKey 4 0, 3)] \<and>
     lg_retention (gd_log g) = [(PartitionKey 4 0, PartitionRetentionState_default\<lparr>pr_next_byte_position := 4\<rparr>)] \<and>
     lg_records (gd_log g) = [((PartitionKey 4 0, 0), demo_stored 0 2 2), ((PartitionKey 4 0, 1), demo_stored 1 1 3),
       ((PartitionKey 4 0, 2), demo_stored (Suc (Suc 0)) 1 4)] \<and>
     gd_leases g = gd_leases (rp_group demo_replica) \<and> gd_mutations g = gd_mutations (rp_group demo_replica) \<and>
     gd_catalog g = gd_catalog (demo_booted empty_log) \<and> gd_identity g = gd_identity (rp_group demo_replica) \<and>
     gd_export g = gd_export (demo_booted empty_log) \<and> gd_receipt_window g = 2 \<and> gd_applied g = Some (demo_log_id 2)"

lemma demo_publishes:
  assumes "stages (entry_payloads demo_publish) empty_log lg"
  shows "\<exists>g. apply_entry demo_codec (demo_booted lg) demo_publish = Inr (g, PublishedMany demo_outcomes) \<and> demo_state g"
proof -
  have "\<exists>w. apply_publish_many demo_codec (demo_booted lg) (demo_log_id 2) demo_requests (demo_booted lg) =
      Inr (w, PublishedMany demo_outcomes) \<and> demo_state (w\<lparr>gd_applied := Some (demo_log_id 2)\<rparr>)"
    using demo_slots [OF assms]
    by (simp add: publish_eval demo_requests_def demo_request_def demo_booted_def demo_replica_def fresh_replica_def empty_group_def
        kind_is_data_def demo_outcomes_def word_le_nat_alt demo_state_def demo_stored_def)
  then show ?thesis
    by (auto simp: apply_entry_def apply_command_def dispatch_def demo_publish_def demo_booted_def demo_replica_def fresh_replica_def
        empty_group_def mutation_fence_state_def MutationFenceState_default_def)
qed

lemma demo_replica_ok: "replica_ok demo_codec demo_replica []"
  unfolding demo_replica_def by (rule fresh_replica_ok) simp

text \<open>Both entries appended and the first applied.\<close>

lemma demo_run:
  obtains rp lg where "runs (replica_step demo_codec) demo_replica [AppendOp demo_log, ApplyOp 1] rp"
    "replica_ok demo_codec rp demo_log" "rp_group rp = demo_booted lg"
    "stages (entry_payloads demo_publish) empty_log lg"
proof -
  obtain rp1 lg where a: "replica_step demo_codec demo_replica (AppendOp demo_log) rp1"
    "rp_group rp1 = (rp_group demo_replica)\<lparr>gd_log := lg\<rparr>" "stages (entry_payloads demo_publish) empty_log lg"
    using demo_appended by blast
  have ok1: "replica_ok demo_codec rp1 demo_log"
    using replica_step_ok [OF a(1) demo_replica_ok] by simp
  have "try_get_log_entries demo_codec rp1 (Included 1) (Included 1) = Inr [demo_boot]"
    using represents_read [of demo_codec rp1 "demo_log" "Included 1" "Included 1"] ok1
    by (simp add: replica_ok_def in_range_def range_start_def range_end_def checked_add_def demo_log_def)
  moreover have "entry_step demo_codec (rp_group rp1) demo_boot (demo_booted lg)"
    using demo_boots [of lg] unfolding a(2) by (auto intro: entry_step.intros simp: entry_fits_def demo_boot_def)
  moreover have "past_applied (rp_group rp1) 1"
    by (simp add: a(2) past_applied_def applied_index_def demo_replica_def fresh_replica_def empty_group_def)
  ultimately have b: "replica_step demo_codec rp1 (ApplyOp 1) (rp1\<lparr>rp_group := demo_booted lg\<rparr>)" by (blast intro: apply_step)
  have "runs (replica_step demo_codec) demo_replica [AppendOp demo_log, ApplyOp 1] (rp1\<lparr>rp_group := demo_booted lg\<rparr>)"
    using a(1) b by (meson runs_Cons runs_Nil)
  moreover have "replica_ok demo_codec (rp1\<lparr>rp_group := demo_booted lg\<rparr>) demo_log"
    using replica_step_ok [OF b ok1] by simp
  ultimately show thesis using that a(3) by simp
qed

text \<open>The second entry applied as well.\<close>

lemma demo_run_published:
  obtains rp g where "replica_ok demo_codec rp demo_log" "past_applied (rp_group rp) 2"
    "try_get_log_entries demo_codec rp (Included 2) (Included 2) = Inr [demo_publish]"
    "apply_entry demo_codec (rp_group rp) demo_publish = Inr (g, PublishedMany demo_outcomes)" "demo_state g"
    "replica_ok demo_codec (rp\<lparr>rp_group := g\<rparr>) demo_log" "ps_receipts (gd_producers (rp_group rp)) = []"
proof -
  obtain rp lg where r: "replica_ok demo_codec rp demo_log" "rp_group rp = demo_booted lg"
    "stages (entry_payloads demo_publish) empty_log lg" by (rule demo_run)
  obtain g where g: "apply_entry demo_codec (rp_group rp) demo_publish = Inr (g, PublishedMany demo_outcomes)" "demo_state g"
    using demo_publishes [OF r(3)] r(2) by auto
  have later: "past_applied (rp_group rp) 2"
    by (simp add: r(2) demo_booted_def past_applied_def applied_index_def demo_log_id_def)
  have read: "try_get_log_entries demo_codec rp (Included 2) (Included 2) = Inr [demo_publish]"
    using represents_read [of demo_codec rp "demo_log" "Included 2" "Included 2"] r(1)
    by (simp add: replica_ok_def in_range_def range_start_def range_end_def checked_add_def demo_log_def)
  have step: "entry_step demo_codec (rp_group rp) demo_publish g"
    using g by (auto intro!: entry_step.intros simp: entry_fits_def demo_publish_def demo_requests_def demo_request_def)
  have "ps_receipts (gd_producers (rp_group rp)) = []"
    by (simp add: r(2) demo_booted_def demo_replica_def fresh_replica_def empty_group_def)
  with that r(1) later read g apply_ok(1) [OF r(1) read later step] show thesis by blast
qed

text \<open>And the lease admitted.\<close>

definition demo_lease_id :: ReplayLeaseId where
  "demo_lease_id = replay_lease_id demo_codec (lr_request (demo_lease_request 1))"

lemma demo_admits:
  assumes "demo_state g"
  shows "\<exists>w l. apply_entry demo_codec g demo_admit = Inr (w, ReplayLeaseResult l) \<and>
    tget (ls_leases (gd_leases w)) demo_lease_id = Some l \<and> rl_request l = demo_lease_request 1 \<and>
    ls_clock (gd_leases w) = Some \<lparr>sc_lower_bound = 10, sc_upper_bound = 10\<rparr> \<and>
    lease_is_effectively_active l \<lparr>sc_lower_bound = 10, sc_upper_bound = 10\<rparr> \<and>
    gd_catalog w = gd_catalog g \<and> gd_identity w = gd_identity g \<and> gd_log w = gd_log g"
proof -
  let ?c = "\<lparr>sc_lower_bound = 10, sc_upper_bound = 10\<rparr>" and ?r = "demo_lease_request 1"
  have leases: "gd_leases g = \<lparr>ls_clock = None, ls_budget = None, ls_leases = [], ls_requests = []\<rparr>"
    and mut: "gd_mutations g = \<lparr>ms_receipts = [], ms_sessions = []\<rparr>"
    using assms by (simp_all add: demo_state_def demo_replica_def fresh_replica_def empty_group_def)
  have prior: "prior_mutation_result demo_codec g (lr_request ?r) fp = None" for fp
    by (simp add: prior_mutation_result_def mut mutation_session_def sequence_expired_def SessionState_default_def tget_or_def)
  have clock: "advance_lease_clock g (demo_time 10) = Inr ?c"
    by (simp add: advance_lease_clock_def leases SafeLeaseClock_new_def demo_time_def)
  have expiry: "expire_due_leases g ?c g =
      (g, \<lparr>xs_budget = LeaseBudget_default, xs_active = [], xs_retentions = [], xs_reclaim_hints = []\<rparr>)"
    by (simp add: expire_due_leases_def leases lease_budget_of_def)
  have "\<exists>l. admit_lease demo_codec g ?r ?c LeaseBudget_default = Inr l \<and> rl_id l = demo_lease_id \<and> rl_request l = ?r \<and>
      lease_is_effectively_active l ?c"
    using assms
    by (simp add: demo_state_def admit_lease_def replay_range_bytes_def demo_lease_request_def Let_def retention_of_def next_offset_def
        tget_or_def PartitionRetentionState_default_def demo_stored_def checked_sub_def admit_def RetentionLimits_default_def
        LeaseBudget_default_def checked_add_def saturating_add_def ReplayLease_admitted_def demo_lease_id_def
        lease_is_effectively_active_def word_le_nat_alt word_less_nat_alt)
  then obtain l where l: "admit_lease demo_codec g ?r ?c LeaseBudget_default = Inr l" "rl_id l = demo_lease_id" "rl_request l = ?r"
    "lease_is_effectively_active l ?c" by blast
  have "apply_admit_replay_lease demo_codec g ?r (demo_time 10) g =
      (store_mutation_result demo_codec g (lr_request ?r) (mutation_fingerprint demo_codec (cd_json_lease demo_codec ?r)) (ReplayLeaseResult l)
        (g\<lparr>gd_leases := \<lparr>ls_clock = Some ?c, ls_budget = Some \<lparr>lb_active_leases = saturating_add (lb_active_leases LeaseBudget_default) 1,
            lb_reserved_bytes = saturating_add (lb_reserved_bytes LeaseBudget_default) (rl_protected_bytes l)\<rparr>,
           ls_leases = [(demo_lease_id, l)], ls_requests = [(replay_lease_request_key demo_codec (lr_request ?r), demo_lease_id)]\<rparr>\<rparr>),
       ReplayLeaseResult l)"
    by (simp add: apply_admit_replay_lease_def prior clock expiry l(1,2) leases Let_def)
  then show ?thesis
    using l by (simp add: apply_entry_def apply_command_def dispatch_def demo_admit_def demo_log_id_def)
qed

text \<open>A replica in its invariant can purge its log.\<close>

lemma demo_purges:
  assumes "replica_ok cd rp log" "li_index l < - 1"
  obtains rp' where "runs (replica_step cd) rp [PurgeOp l] rp'" "store_frame (rp_group rp) (rp_group rp')"
proof -
  obtain rp' where p: "purge rp l = Inr rp'" "store_frame (rp_group rp) (rp_group rp')" using purge_ok [OF assms] by blast
  have "replica_step cd rp (PurgeOp l) rp'" by (rule purge_step [OF p(1) assms(2)])
  with that p(2) show thesis by (meson runs_Cons runs_Nil)
qed

section \<open>Properties\<close>

text \<open>
  C27. The log of a replica is a list of entries: after any run of appends, truncations, purges, votes,
  commit marks and applications, a read between any bounds gives back, with the records of their
  publishes, exactly the entries between the bounds of the list those operations leave.
\<close>

theorem replica_log_refines_list:
  assumes "runs (replica_step cd) rp ops rp'" "replica_ok cd rp log"
  shows "try_get_log_entries cd rp' start stop =
    Inr (filter (\<lambda>e. in_range start stop (entry_index e)) (fold log_after ops log))"
  using runs_log [OF assms] represents_read unfolding replica_ok_def by blast

theorem replica_log_refines_list_witness:
  "\<exists>ops rp. runs (replica_step demo_codec) demo_replica ops rp \<and> length ops = 2 \<and>
    try_get_log_entries demo_codec rp (Included 2) Unbounded = Inr [demo_publish, demo_admit]"
proof -
  obtain rp lg where r: "runs (replica_step demo_codec) demo_replica [AppendOp demo_log, ApplyOp 1] rp"
    by (rule demo_run)
  have "try_get_log_entries demo_codec rp (Included 2) Unbounded = Inr [demo_publish, demo_admit]"
    using replica_log_refines_list [OF r demo_replica_ok, of "Included 2" Unbounded]
    by (simp add: in_range_def range_start_def range_end_def demo_log_def)
  with r show ?thesis by (intro exI [of _ "[AppendOp demo_log, ApplyOp 1]"]) auto
qed

text \<open>
  C28. Payloads have exactly their owners: on every run a payload is stored if and only if an entry that
  is still in the log carries it or a record of the active bank refers to it, and its stored owners say
  which of the two. Nothing leaks and nothing a reader can reach is gone.
\<close>

theorem payload_owners_exact:
  assumes "runs (replica_step cd) rp ops rp'" "replica_ok cd rp log"
  shows "(tget (lg_payload (gd_log (rp_group rp'))) k \<noteq> None \<longleftrightarrow>
      k \<in> logged (fold log_after ops log) \<or> k \<in> indexed (gd_log (rp_group rp'))) \<and>
    tget (lg_owners (gd_log (rp_group rp'))) k =
      share (gd_active_bank (rp_group rp')) (logged (fold log_after ops log)) (indexed (gd_log (rp_group rp'))) k"
proof -
  have own: "owned (gd_active_bank (rp_group rp')) (logged (fold log_after ops log)) (gd_log (rp_group rp'))"
    using runs_log [OF assms] by (simp add: replica_ok_def)
  show ?thesis using ownedD(1) [OF own, of k] ownedD(2) [OF own, of k] by simp
qed

theorem payload_owners_exact_witness:
  "\<exists>ops rp. runs (replica_step demo_codec) demo_replica ops rp \<and> length ops = 2 \<and>
    tget (lg_payload (gd_log (rp_group rp))) (payload_id (demo_log_id 2) 0) \<noteq> None"
proof -
  let ?ops = "[AppendOp demo_log, ApplyOp 1]"
  obtain rp lg where r: "runs (replica_step demo_codec) demo_replica ?ops rp" by (rule demo_run)
  have "payload_id (demo_log_id 2) 0 \<in> logged (fold log_after ?ops [])"
    by (simp add: demo_log_def entry_keys_def entry_records_def demo_publish_def demo_requests_def demo_request_def)
  with payload_owners_exact [OF r demo_replica_ok] have
    "tget (lg_payload (gd_log (rp_group rp))) (payload_id (demo_log_id 2) 0) \<noteq> None" by blast
  with r show ?thesis by (intro exI [of _ ?ops]) auto
qed

text \<open>
  C29. Published bytes are read back: when an entry with new requests is applied and a request of it is
  acknowledged, then after any further run of the replica, whatever is purged, truncated, published,
  leased or reclaimed, a fetch at each offset of the receipt that the floor has not passed returns the
  record that was published there.
\<close>

theorem published_records_fetched:
  assumes "replica_ok cd rp log" "past_applied (rp_group rp) i"
    and "try_get_log_entries cd rp (Included i) (Included i) = Inr [e]" "en_payload e = Normal (PublishMany bs)"
    and "apply_entry cd (rp_group rp) e = Inr (g, PublishedMany outcomes)" "\<forall>b \<in> set bs. length (pb_records b) < 2 ^ 64"
    and "distinct (map (\<lambda>b. receipt_key cd (pb_partition b) (pb_request b)) bs)"
    and "\<forall>b \<in> set bs. tget (ps_receipts (gd_producers (rp_group rp))) (receipt_key cd (pb_partition b) (pb_request b)) = None"
    and "n < length bs" "io_result (outcomes ! n) = Inr rcpt" "j < length (pb_records (bs ! n))"
    and "runs (replica_step cd) (rp\<lparr>rp_group := g\<rparr>) ops rp'" "fetch_checks (rp_group rp') cluster 1 = Inr ()"
    and "floor_of (gd_log (rp_group rp')) (pb_partition (bs ! n)) \<le> rr_first (rc_range rcpt) + of_nat j"
  shows "fetch cd (rp_group rp') cluster (pb_partition (bs ! n)) (rr_first (rc_range rcpt) + of_nat j) 1 =
    Inr \<lparr>fp_partition = pb_partition (bs ! n),
         fp_records = [\<lparr>cr_offset = rr_first (rc_range rcpt) + of_nat j, cr_payload = pb_records (bs ! n) ! j\<rparr>],
         fp_next_offset = rr_first (rc_range rcpt) + of_nat j + 1\<rparr>"
proof -
  let ?p = "pb_partition (bs ! n)" and ?off = "rr_first (rc_range rcpt) + of_nat j"
  have step: "entry_step cd (rp_group rp) e g"
    using assms(4-6) by (auto intro!: entry_step.intros simp: entry_fits_def)
  note applied = apply_ok [OF assms(1,3,2) step]
  have good: "replica_good cd (rp\<lparr>rp_group := g\<rparr>)" using applied(1) unfolding replica_good_def by blast
  have pok: "publish_ok (rp_group rp)" using assms(1) group_okD(1) unfolding replica_ok_def by blast
  have held: "holds_records (en_log_id e) (slot_of bs n) (bs ! n) rcpt (gd_log g)"
    by (rule entry_acknowledged [OF assms(5,4) pok assms(6-10)])
  then have now: "content cd (gd_log g) ?p ?off = Some (pb_records (bs ! n) ! j)"
    using published_content [OF applied(1,2) assms(4) _ assms(9,11)] by simp
  have below: "?off < next_offset (gd_log g) ?p"
    using held assms(11) unat_lt_width [of "next_offset (gd_log g) ?p"]
    by (simp add: holds_records_def word_less_nat_alt unat_word_ariths unat_of_nat)
  from rep.runs_rel [OF assms(12) good] have f: "contents_kept cd (gd_log g) (gd_log (rp_group rp'))"
    "log_evolves (gd_log g) (gd_log (rp_group rp'))"
    by (simp_all add: replica_follows_def follows_def)
  have later: "content cd (gd_log (rp_group rp')) ?p ?off = Some (pb_records (bs ! n) ! j)"
    using f(1) below now assms(14) unfolding contents_kept_def by (metis not_less)
  have tail: "?off < partition_tail (rp_group rp') ?p"
    using below log_evolvesD(1) [OF f(2), of ?p] unfolding partition_tail_def by order
  from fetch_one [OF runs_log [OF assms(12) applied(1)] assms(13,14) tail later] show ?thesis .
qed

theorem published_records_fetched_witness:
  "\<exists>rp :: replica. fetch demo_codec (rp_group rp) 9 (PartitionKey 4 0) 1 1 =
      Inr \<lparr>fp_partition = PartitionKey 4 0, fp_records = [\<lparr>cr_offset = 1, cr_payload = [3]\<rparr>], fp_next_offset = 2\<rparr> \<and>
    rf_log (rp_raft rp) = []"
proof -
  obtain rp g where r: "replica_ok demo_codec rp demo_log" "past_applied (rp_group rp) 2"
    "try_get_log_entries demo_codec rp (Included 2) (Included 2) = Inr [demo_publish]"
    and g: "apply_entry demo_codec (rp_group rp) demo_publish = Inr (g, PublishedMany demo_outcomes)" "demo_state g"
    and ok: "replica_ok demo_codec (rp\<lparr>rp_group := g\<rparr>) demo_log" and none: "ps_receipts (gd_producers (rp_group rp)) = []"
    by (rule demo_run_published)
  have "li_index (demo_log_id 3) < - 1" by (simp add: demo_log_id_def)
  from demo_purges [OF ok this] obtain rp' where
    p: "runs (replica_step demo_codec) (rp\<lparr>rp_group := g\<rparr>) [PurgeOp (demo_log_id 3)] rp'" "store_frame g (rp_group rp')" by auto
  have same: "gd_catalog (rp_group rp') = gd_catalog g" "gd_identity (rp_group rp') = gd_identity g"
    "retention_of (gd_log (rp_group rp')) = retention_of (gd_log g)"
    by (subst p(2) [unfolded store_frame_def], simp add: retention_of_def fun_eq_iff)+
  have zero: "floor_of (gd_log (rp_group rp')) (PartitionKey 4 0) = 0"
    using g(2) by (simp add: floor_of_def same(3)) (simp add: demo_state_def retention_of_def tget_or_def PartitionRetentionState_default_def)
  have checks: "fetch_checks (rp_group rp') 9 1 = Inr ()"
    using g(2) by (simp add: fetch_checks_def bootstrap_spec_def same demo_state_def demo_booted_def MAX_FETCH_RECORDS_def demo_replica_def
        fresh_replica_def empty_group_def GroupIdentity_new_def)
  have "fetch demo_codec (rp_group rp') 9 (PartitionKey 4 0) (0 + of_nat 1) 1 =
      Inr \<lparr>fp_partition = PartitionKey 4 0, fp_records = [\<lparr>cr_offset = 0 + of_nat 1, cr_payload = [3]\<rparr>], fp_next_offset = 0 + of_nat 1 + 1\<rparr>"
    using published_records_fetched [OF r _ g(1) _ _ _ _ _ _ p(1) checks, of demo_requests 0 "case io_result (demo_outcomes ! 0) of Inr x \<Rightarrow> x" 1]
    by (simp add: demo_publish_def demo_requests_def demo_request_def demo_outcomes_def none zero)
  moreover have "rf_log (rp_raft rp') = []"
    using runs_log [OF p(1) ok] by (simp add: replica_ok_def represents_def thin_log_def demo_log_id_def demo_log_def)
  ultimately have "fetch demo_codec (rp_group rp') 9 (PartitionKey 4 0) 1 1 =
      Inr \<lparr>fp_partition = PartitionKey 4 0, fp_records = [\<lparr>cr_offset = 1, cr_payload = [3]\<rparr>], fp_next_offset = 2\<rparr> \<and>
    rf_log (rp_raft rp') = []" by simp
  then show ?thesis by blast
qed

text \<open>
  C30. A lease is a promise: as long as a lease is active, every record of its range can be read
  through it with the bytes it had when the run began, whatever the floor has become and whatever was
  reclaimed, purged or published in between; a page starts at the asked offset, makes progress and runs
  on until the limit, the byte budget or the end of the range.
\<close>

theorem leased_records_stay_readable:
  assumes "replica_ok cd rp log" "runs (replica_step cd) rp ops rp'"
    and "tget (ls_leases (gd_leases (rp_group rp))) i = Some l" "lr_cluster (rl_request l) = cluster"
    and "tget (ls_leases (gd_leases (rp_group rp'))) i = Some l'"
    and "ls_clock (gd_leases (rp_group rp')) = Some clock" "lease_is_effectively_active l' clock"
    and "fetch_checks (rp_group rp') cluster limit = Inr ()" "range_contains (rl_range l) off"
  shows "\<exists>k. fetch_protected cd (rp_group rp') cluster (rg_partition (rl_range l)) i off limit =
      Inr \<lparr>fp_partition = rg_partition (rl_range l),
           fp_records = recs_from cd (gd_log (rp_group rp)) (rg_partition (rl_range l)) off k, fp_next_offset = off + of_nat k\<rparr> \<and>
    page_size 0 0 (unat (rg_end (rl_range l)) - unat off) (unat limit)
      (\<lambda>n. page_bytes (recs_from cd (gd_log (rp_group rp')) (rg_partition (rl_range l)) off n)) k"
proof -
  let ?p = "rg_partition (rl_range l)" and ?lg = "gd_log (rp_group rp)" and ?lg' = "gd_log (rp_group rp')"
  note ok' = runs_log [OF assms(2,1)]
  have good: "replica_good cd rp" using assms(1) unfolding replica_good_def by blast
  from rep.runs_rel [OF assms(2) good] have f: "contents_kept cd ?lg ?lg'" "leases_follow (rp_group rp) (rp_group rp')"
    by (simp_all add: replica_follows_def follows_def)
  then have follows: "lease_follows l l'" using assms(3,5) unfolding leases_follow_def by fastforce
  then have same: "rl_request l' = rl_request l" by (simp add: lease_follows_def)
  have active: "rl_lifecycle l = LeaseActive"
    using follows assms(7) by (auto simp: lease_follows_def lease_is_effectively_active_def)
  have grp: "group_ok cd (rp_group rp)" using assms(1) by (simp add: replica_ok_def)
  have "rl_id l = i" using group_okD(10) [OF grp] assms(3) tget_Some_in by (fastforce simp: leases_keyed_def)
  then have live: "live_lease (ls_leases (gd_leases (rp_group rp))) l" using assms(3) active by (simp add: live_lease_def)
  have below: "x < next_offset ?lg ?p" if "range_contains (rl_range l) x" for x
  proof -
    from retention_okD(5) [OF group_okD(2) [OF grp]] live that have "records_of ?lg ?p x \<noteq> None"
      unfolding leases_backed_def by blast
    then obtain r where "records_of ?lg ?p x = Some r" by blast
    moreover obtain pos where "chain_with pos (records_of ?lg ?p) (retention_of ?lg ?p) (next_offset ?lg ?p)"
      using log_okD [OF group_okD(11) [OF grp]] unfolding chain_ok_def by blast
    ultimately show ?thesis using chain_record(1) by blast
  qed
  obtain k where k: "fetch_protected cd (rp_group rp') cluster ?p i off limit =
      Inr \<lparr>fp_partition = ?p, fp_records = recs_from cd ?lg' ?p off k, fp_next_offset = off + of_nat k\<rparr>"
    "page_size 0 0 (unat (rg_end (rl_range l)) - unat off) (unat limit) (\<lambda>n. page_bytes (recs_from cd ?lg' ?p off n)) k"
    "\<forall>j < k. content cd ?lg' ?p (off + of_nat j) \<noteq> None"
    using fetch_protected_reads [OF ok' assms(8,5) _ assms(6,7), unfolded same] assms(4,9) by blast
  have "content cd ?lg' ?p (off + of_nat j) = content cd ?lg ?p (off + of_nat j)" if "j < k" for j
  proof -
    have room: "unat off + j < unat (rg_end (rl_range l))" using k(2) that unfolding page_size_def by linarith
    then have "unat (off + of_nat j) = unat off + j"
      using unat_lt_width [of "rg_end (rl_range l)"] by (simp add: unat_word_ariths unat_of_nat)
    with room assms(9) have "range_contains (rl_range l) (off + of_nat j)"
      by (simp add: range_contains_def word_le_nat_alt word_less_nat_alt)
    from f(1) below [OF this] k(3) that show ?thesis unfolding contents_kept_def by (metis content_gone)
  qed
  then have "recs_from cd ?lg' ?p off k = recs_from cd ?lg ?p off k" by (simp add: recs_from_def)
  with k(1,2) show ?thesis by (intro exI [of _ k]) simp
qed

theorem leased_records_stay_readable_witness:
  "\<exists>(rp :: replica) lg k. 0 < k \<and> rf_log (rp_raft rp) = [] \<and>
    fetch_protected demo_codec (rp_group rp) 9 (PartitionKey 4 0) demo_lease_id 1 10 =
      Inr \<lparr>fp_partition = PartitionKey 4 0, fp_records = recs_from demo_codec lg (PartitionKey 4 0) 1 k,
           fp_next_offset = 1 + of_nat k\<rparr>"
proof -
  let ?c = "\<lparr>sc_lower_bound = 10, sc_upper_bound = 10\<rparr>"
  obtain rp g where g: "demo_state g" and ok: "replica_ok demo_codec (rp\<lparr>rp_group := g\<rparr>) demo_log"
    by (rule demo_run_published)
  from demo_admits [OF g] obtain w l where w: "apply_entry demo_codec g demo_admit = Inr (w, ReplayLeaseResult l)"
    and l: "tget (ls_leases (gd_leases w)) demo_lease_id = Some l" "rl_request l = demo_lease_request 1"
      "ls_clock (gd_leases w) = Some ?c" "lease_is_effectively_active l ?c" "gd_catalog w = gd_catalog g" "gd_identity w = gd_identity g"
    by blast
  have "try_get_log_entries demo_codec (rp\<lparr>rp_group := g\<rparr>) (Included 3) (Included 3) = Inr [demo_admit]"
    using represents_read [of demo_codec "rp\<lparr>rp_group := g\<rparr>" demo_log "Included 3" "Included 3"] ok
    by (simp add: replica_ok_def in_range_def range_start_def range_end_def checked_add_def demo_log_def)
  moreover have "past_applied g 3" using g by (simp add: demo_state_def past_applied_def applied_index_def demo_log_id_def)
  moreover have "entry_step demo_codec g demo_admit w"
    using w g by (auto intro!: entry_step.intros simp: entry_fits_def demo_admit_def lease_ids_apart_def demo_state_def demo_replica_def
        fresh_replica_def empty_group_def)
  ultimately have okw: "replica_ok demo_codec (rp\<lparr>rp_group := w\<rparr>) demo_log"
    using apply_ok(1) [OF ok, of 3 demo_admit w] by simp
  have "li_index (demo_log_id 3) < - 1" by (simp add: demo_log_id_def)
  from demo_purges [OF okw this] obtain rp' where
    p: "runs (replica_step demo_codec) (rp\<lparr>rp_group := w\<rparr>) [PurgeOp (demo_log_id 3)] rp'" "store_frame w (rp_group rp')" by auto
  have same: "gd_catalog (rp_group rp') = gd_catalog w" "gd_identity (rp_group rp') = gd_identity w" "gd_leases (rp_group rp') = gd_leases w"
    by (subst p(2) [unfolded store_frame_def], simp)+
  have checks: "fetch_checks (rp_group rp') 9 10 = Inr ()"
    using g l(5,6) by (simp add: fetch_checks_def bootstrap_spec_def same demo_state_def demo_booted_def MAX_FETCH_RECORDS_def demo_replica_def
        fresh_replica_def empty_group_def GroupIdentity_new_def)
  have range: "rl_range l = \<lparr>rg_partition = PartitionKey 4 0, rg_start = 1, rg_end = 3\<rparr>" "lr_cluster (rl_request l) = 9"
    "range_contains (rl_range l) 1"
    by (simp_all add: l(2) demo_lease_request_def range_contains_def)
  from leased_records_stay_readable [OF okw p(1) _ range(2) _ _ l(4) checks range(3), of demo_lease_id] l(1,3)
  obtain k where k: "fetch_protected demo_codec (rp_group rp') 9 (PartitionKey 4 0) demo_lease_id 1 10 =
      Inr \<lparr>fp_partition = PartitionKey 4 0, fp_records = recs_from demo_codec (gd_log w) (PartitionKey 4 0) 1 k,
           fp_next_offset = 1 + of_nat k\<rparr>" "0 < k"
    by (auto simp: same range(1) page_size_def)
  have "rf_log (rp_raft rp') = []"
    using runs_log [OF p(1) okw] by (simp add: replica_ok_def represents_def thin_log_def demo_log_id_def demo_log_def)
  with k show ?thesis by blast
qed

end
