(* ===== verification/Group_Properties.thy ===== *)
theory Group_Properties
  imports Replica_Properties
begin

text \<open>
  The properties of a group over whole runs: everything a new group ever reaches is in its invariant, no
  run rewrites what was stored, a held export fence freezes what an export reads, and the names of the
  catalog are the names of its live streams. Two properties show where a handler leaves the control
  group in a state from which an operation can no longer be carried through.
\<close>

section \<open>A concrete control group\<close>

definition demo_control :: group_db where
  "demo_control = empty_group (GroupIdentity_new 9 CONTROL_GROUP_ID ControlGroup) 2"

definition demo_spec :: BootstrapSpec where
  "demo_spec = \<lparr>bs_cluster = 9, bs_stream = 4, bs_stream_name = [115]\<rparr>"

definition demo_control_boot :: GroupEntry where
  "demo_control_boot = \<lparr>en_log_id = demo_log_id 1, en_payload = Normal (BootstrapControl demo_spec None None [2] 8 4)\<rparr>"

definition demo_create :: GroupEntry where
  "demo_create = \<lparr>en_log_id = demo_log_id 2,
     en_payload = Normal (CreateStreamIntent \<lparr>cs_request_id = 5, cs_name = [116], cs_partition_count = 1\<rparr> 6)\<rparr>"

lemma demo_control_ok: "group_ok cd demo_control" "\<not> kind_is_data demo_control"
  using group_ok_empty [of 2] by (simp_all add: demo_control_def empty_group_def kind_is_data_def GroupIdentity_new_def)

lemma demo_control_run:
  obtains w where "runs (entry_step demo_codec) demo_control [demo_control_boot, demo_create] w"
    "tget (ct_names (gd_catalog w)) [116] = Some 6"
proof -
  obtain v r where v: "apply_entry demo_codec demo_control demo_control_boot = Inr (v, r)"
    "ct_bootstrap (gd_catalog v) = Some demo_spec" "ct_names (gd_catalog v) = [([115], 4)]" "ct_max_streams (gd_catalog v) = Some 8"
    "ct_max_partitions (gd_catalog v) = Some 4" "live_streams (gd_catalog v) = 1" "ct_data_group_pool (gd_catalog v) = Some [2]"
    "tget (ct_streams (gd_catalog v)) 6 = None" "ct_intents (gd_catalog v) = []" "\<not> kind_is_data v"
    "mf_held (mutation_fence_state v) = None"
    by (simp add: apply_entry_def apply_command_def dispatch_def demo_control_boot_def demo_control_def empty_group_def
        apply_bootstrap_control_def apply_bootstrap_def GroupIdentity_new_def demo_spec_def CONTROL_GROUP_ID_def
        mutation_fence_state_def MutationFenceState_default_def bootstrap_descriptor_def live_streams_def kind_is_data_def
        bootstrap_result_def demo_log_id_def)
  obtain w r' where w: "apply_entry demo_codec v demo_create = Inr (w, r')" "tget (ct_names (gd_catalog w)) [116] = Some 6"
    using v by (simp add: apply_entry_def apply_command_def dispatch_def demo_create_def apply_create_stream_def Let_def
        next_catalog_revision_def word_le_nat_alt word_less_nat_alt)
  have "entry_step demo_codec demo_control demo_control_boot v" "entry_step demo_codec v demo_create w"
    using v(1) w(1) by (auto intro!: entry_step.intros simp: entry_fits_def demo_control_boot_def demo_create_def)
  with w(2) that show thesis by (meson runs_Cons runs_Nil)
qed

section \<open>Properties of runs\<close>

text \<open>
  C32. Every group that is reached from a new one by applying committed entries is well formed: its record
  index is gapless between floor and tail, its producer sessions, bookmarks, leases, budget, checkpoints,
  catalog, administration, reclaim hints and export state agree with each other.
\<close>

theorem group_runs_well_formed:
  assumes "0 < window" "runs (entry_step cd) (empty_group identity window) es w"
  shows "group_ok cd w"
  using grp.runs_ok [OF assms(2) group_ok_empty [OF assms(1)]] .

theorem group_runs_well_formed_witness:
  "\<exists>w. runs (entry_step demo_codec) demo_control [demo_control_boot, demo_create] w \<and> group_ok demo_codec w"
proof -
  obtain w where "runs (entry_step demo_codec) demo_control [demo_control_boot, demo_create] w" by (rule demo_control_run)
  with group_runs_well_formed [of 2 demo_codec "GroupIdentity_new 9 CONTROL_GROUP_ID ControlGroup"] show ?thesis
    unfolding demo_control_def by auto
qed

text \<open>
  C33. No run rewrites history: tails and floors never move back, a record below the tail stays what it is
  until the floor passes it, a lease keeps its range, bytes and hard expiry and is final once it ended, and
  a stream keeps its name and placement while its life only goes forward.
\<close>

theorem history_never_rewritten:
  assumes "runs (entry_step cd) db es w" "group_ok cd db"
  shows "next_offset (gd_log db) p \<le> next_offset (gd_log w) p \<and> floor_of (gd_log db) p \<le> floor_of (gd_log w) p \<and>
    (off < next_offset (gd_log db) p \<and> floor_of (gd_log w) p \<le> off \<longrightarrow> records_of (gd_log w) p off = records_of (gd_log db) p off) \<and>
    (\<forall>l. tget (ls_leases (gd_leases db)) i = Some l \<longrightarrow>
       (\<exists>k. tget (ls_leases (gd_leases w)) i = Some k \<and> rl_range k = rl_range l \<and> rl_protected_bytes k = rl_protected_bytes l \<and>
         rl_hard_expires_at k = rl_hard_expires_at l \<and> rl_expires_at l \<le> rl_expires_at k \<and>
         (rl_lifecycle l \<noteq> LeaseActive \<longrightarrow> k = l))) \<and>
    (\<forall>d. tget (ct_streams (gd_catalog db)) sid = Some d \<longrightarrow>
       (\<exists>e. tget (ct_streams (gd_catalog w)) sid = Some e \<and> sd_name e = sd_name d \<and> sd_placements e = sd_placements d \<and>
         life_rank (sd_lifecycle d) \<le> life_rank (sd_lifecycle e)))"
proof -
  have f: "log_evolves (gd_log db) (gd_log w)" "leases_follow db w" "catalog_grows (gd_catalog db) (gd_catalog w)"
    using grp.runs_rel [OF assms] by (simp_all add: follows_def)
  have "off < next_offset (gd_log db) p \<and> floor_of (gd_log w) p \<le> off \<longrightarrow>
      records_of (gd_log w) p off = records_of (gd_log db) p off"
    using log_evolvesD(3) [OF f(1), of off p] by (auto simp: not_less)
  moreover have "\<forall>l. tget (ls_leases (gd_leases db)) i = Some l \<longrightarrow>
       (\<exists>k. tget (ls_leases (gd_leases w)) i = Some k \<and> rl_range k = rl_range l \<and> rl_protected_bytes k = rl_protected_bytes l \<and>
         rl_hard_expires_at k = rl_hard_expires_at l \<and> rl_expires_at l \<le> rl_expires_at k \<and>
         (rl_lifecycle l \<noteq> LeaseActive \<longrightarrow> k = l))"
    using f(2) unfolding leases_follow_def lease_follows_def by metis
  moreover have "\<forall>d. tget (ct_streams (gd_catalog db)) sid = Some d \<longrightarrow>
       (\<exists>e. tget (ct_streams (gd_catalog w)) sid = Some e \<and> sd_name e = sd_name d \<and> sd_placements e = sd_placements d \<and>
         life_rank (sd_lifecycle d) \<le> life_rank (sd_lifecycle e))"
    using f(3) unfolding catalog_grows_def stream_follows_def by metis
  ultimately show ?thesis using log_evolvesD(1,2) [OF f(1), of p] by blast
qed

theorem history_never_rewritten_witness:
  "\<exists>g w l. entry_step demo_codec g demo_admit w \<and> 0 < next_offset (gd_log g) (PartitionKey 4 0) \<and>
    records_of (gd_log w) (PartitionKey 4 0) 1 = Some (demo_stored 1 1 3) \<and> tget (ls_leases (gd_leases w)) demo_lease_id = Some l"
proof -
  obtain rp g where g: "demo_state g" "replica_ok demo_codec (rp\<lparr>rp_group := g\<rparr>) demo_log" by (rule demo_run_published)
  obtain w l where w: "apply_entry demo_codec g demo_admit = Inr (w, ReplayLeaseResult l)"
    "tget (ls_leases (gd_leases w)) demo_lease_id = Some l" "gd_log w = gd_log g" using demo_admits [OF g(1)] by blast
  have ok: "group_ok demo_codec g" using g(2) by (simp add: replica_ok_def)
  have "lease_ids_apart demo_codec g (demo_lease_request 1)"
    using g(1) by (simp add: lease_ids_apart_def demo_state_def demo_replica_def fresh_replica_def empty_group_def)
  then have step: "entry_step demo_codec g demo_admit w"
    using w(1) by (auto intro!: entry_step.intros simp: entry_fits_def demo_admit_def)
  then have run: "runs (entry_step demo_codec) g [demo_admit] w" by (meson runs_Cons runs_Nil)
  have rec: "records_of (gd_log g) (PartitionKey 4 0) 1 = Some (demo_stored 1 1 3)" "next_offset (gd_log g) (PartitionKey 4 0) = 3"
    using g(1) by (simp_all add: demo_state_def records_of_def next_offset_def tget_or_def)
  from w(3) have "floor_of (gd_log w) (PartitionKey 4 0) \<le> 1"
    using g(1) by (simp add: demo_state_def floor_of_def retention_of_def tget_or_def PartitionRetentionState_default_def)
  with history_never_rewritten [OF run ok, of "PartitionKey 4 0" 1] rec
  have "records_of (gd_log w) (PartitionKey 4 0) 1 = Some (demo_stored 1 1 3)" by simp
  with step rec(2) w(2) show ?thesis by (intro exI [of _ g] exI [of _ w] exI [of _ l]) simp
qed

text \<open>
  C34. A held export fence freezes what an export reads: as long as no entry releases the token of the
  fence, the group stays fenced under it and its tails, floors, records, payloads, producer sessions,
  bookmarks and catalog stay exactly as they were at the cut, whatever other entries are applied.
\<close>

theorem fence_freezes_export:
  assumes "runs (entry_step cd) db es w" "group_ok cd db" "mf_held (mutation_fence_state db) = Some h"
    and "\<forall>entry \<in> set es. \<not> releasing (hf_token h) entry"
  shows "mf_held (mutation_fence_state w) = Some h \<and> exported w = exported db"
  using assms by (rule runs_fence)

text \<open>A fence and a bookmark that is refused under it.\<close>

definition demo_token :: ExportFenceToken where
  "demo_token = ExportFenceToken_new 1 (replicate 32 7)"

definition demo_fence :: GroupEntry where
  "demo_fence = \<lparr>en_log_id = demo_log_id 2, en_payload = Normal (Export (AcquireFence demo_token))\<rparr>"

definition demo_bookmark :: GroupEntry where
  "demo_bookmark = \<lparr>en_log_id = demo_log_id 3, en_payload = Normal (CreateBookmark 8 (PartitionKey 4 0) [98] 0)\<rparr>"

theorem fence_freezes_export_witness:
  "\<exists>w r. apply_entry demo_codec (demo_booted empty_log) demo_fence = Inr (w, r) \<and>
    (\<exists>v. apply_entry demo_codec w demo_bookmark =
        Inr (v, Rejected (ExportInProgress (ft_export demo_token) DefiniteNoCommit)) \<and>
      export_fenced v \<and> exported v = exported (demo_booted empty_log))"
proof -
  let ?db = "demo_booted empty_log"
  let ?h = "\<lparr>hf_token = demo_token, hf_cut = \<lparr>gc_group = 2, gc_term = 1, gc_leader = 1, gc_applied_index = 2\<rparr>\<rparr>"
  obtain w r where w: "apply_entry demo_codec ?db demo_fence = Inr (w, r)" "mf_held (mutation_fence_state w) = Some ?h"
    "exported w = exported ?db" "gd_bookmarks w = gd_bookmarks ?db"
    by (simp add: apply_entry_def apply_command_def dispatch_def demo_fence_def apply_export_def apply_acquire_export_fence_def
        demo_booted_def demo_replica_def fresh_replica_def empty_group_def kind_is_data_def GroupIdentity_new_def group_cut_def
        demo_log_id_def fence_acquire_def mutation_fence_state_def MutationFenceState_default_def demo_token_def
        ExportFenceToken_new_def put_fence_def exported_def Let_def)
  obtain v where v: "apply_entry demo_codec w demo_bookmark = Inr (v, Rejected (ExportInProgress (ft_export demo_token) DefiniteNoCommit))"
    using w(2,4) by (simp add: apply_entry_def apply_command_def demo_bookmark_def replay_included_command_def demo_booted_def
        demo_replica_def fresh_replica_def empty_group_def)
  have "(rp_group demo_replica)\<lparr>gd_log := empty_log\<rparr> = empty_group (GroupIdentity_new 9 2 DataGroup) 2"
    by (simp add: demo_replica_def fresh_replica_def empty_group_def)
  with demo_boots [of empty_log] obtain b where
    "apply_entry demo_codec (empty_group (GroupIdentity_new 9 2 DataGroup) 2) demo_boot = Inr (?db, b)" by metis
  then have boot: "group_ok demo_codec ?db"
    by (intro entry_step_ok [OF _ group_ok_empty [of 2], where entry = demo_boot])
      (auto intro!: entry_step.intros simp: entry_fits_def demo_boot_def)
  have ok: "group_ok demo_codec w"
    by (rule entry_step_ok [OF _ boot, of demo_fence]) (use w(1) in \<open>auto intro!: entry_step.intros simp: entry_fits_def demo_fence_def\<close>)
  have "entry_step demo_codec w demo_bookmark v"
    using v w(4) by (auto intro!: entry_step.intros
        simp: entry_fits_def demo_bookmark_def publication_open_def bookmark_publication_of_def tget_or_def unsigned_minus_1_eq_mask word_less_nat_alt mask_eq_exp_minus_1 demo_booted_def demo_replica_def fresh_replica_def empty_group_def)
  then have "runs (entry_step demo_codec) w [demo_bookmark] v" by (meson runs_Cons runs_Nil)
  from fence_freezes_export [OF this ok w(2)] have "export_fenced v" "exported v = exported ?db"
    by (simp_all add: releasing_def demo_bookmark_def export_fenced_def w(3))
  with w(1) v show ?thesis by blast
qed

text \<open>
  C35. In every group reached from a new one, a name of the catalog belongs to exactly one live stream and
  every stream that is not deleted is found by its name, its partitions are placed on groups of the pool,
  and there are never more live streams than the limit allows.
\<close>

theorem catalog_names_live_streams:
  assumes "0 < window" "runs (entry_step cd) (empty_group identity window) es w"
  shows "(tget (ct_names (gd_catalog w)) n = Some sid \<longleftrightarrow>
      (\<exists>d. tget (ct_streams (gd_catalog w)) sid = Some d \<and> sd_name d = n \<and> sd_lifecycle d \<noteq> Deleted)) \<and>
    (\<forall>d. tget (ct_streams (gd_catalog w)) sid = Some d \<longrightarrow>
      (\<exists>gs. ct_data_group_pool (gd_catalog w) = Some gs \<and> pp_group ` set (sd_placements d) \<subseteq> set gs) \<and>
      (sd_lifecycle d = Active \<longrightarrow> set (sd_ready_groups d) = pp_group ` set (sd_placements d))) \<and>
    (\<forall>m. ct_max_streams (gd_catalog w) = Some m \<longrightarrow> live_streams (gd_catalog w) \<le> unat m)"
proof -
  have ok: "catalog_ok (gd_catalog w)"
    using grp.runs_ok [OF assms(2) group_ok_empty [OF assms(1)]] by (simp add: group_ok_def)
  note D = catalog_okD [OF ok]
  show ?thesis
    using D(2) [of sid] D(3) [of sid] D(4) [of n sid] D(9) by (auto simp: stream_ok_def placed_groups_def)
qed

theorem catalog_names_live_streams_witness:
  "\<exists>w. runs (entry_step demo_codec) demo_control [demo_control_boot, demo_create] w \<and>
    (\<exists>d. tget (ct_streams (gd_catalog w)) 6 = Some d \<and> sd_name d = [116] \<and> sd_lifecycle d \<noteq> Deleted)"
proof -
  obtain w where "runs (entry_step demo_codec) demo_control [demo_control_boot, demo_create] w"
    "tget (ct_names (gd_catalog w)) [116] = Some 6" by (rule demo_control_run)
  with catalog_names_live_streams [of 2 demo_codec "GroupIdentity_new 9 CONTROL_GROUP_ID ControlGroup" _ w "[116]" 6] show ?thesis
    unfolding demo_control_def by auto
qed

section \<open>Where the control group gets stuck\<close>

text \<open>
  C36. A control bootstrap whose security policy belongs to another cluster is refused, but not before the
  bootstrap identity, the group pool and the topology are written: afterwards no control bootstrap is
  accepted any more, corrected or not, and creating a stream fails on the missing stream limit.
\<close>

theorem refused_bootstrap_wedges_control:
  assumes "\<not> kind_is_data db" "bs_cluster spec = gi_cluster_id (gd_identity db)" "groups \<noteq> []" "CONTROL_GROUP_ID \<notin> set groups"
    and "max_streams \<noteq> 0" "max_partitions \<noteq> 0" "sp_cluster policy \<noteq> bs_cluster spec"
    and "ct_bootstrap (gd_catalog db) = None" "ct_data_group_pool (gd_catalog db) = None" "ct_max_streams (gd_catalog db) = None"
    and "ct_intents (gd_catalog db) = []" "ct_names (gd_catalog db) = []"
    and "apply_bootstrap_control db spec topology (Some policy) groups max_streams max_partitions db = (w, result)"
  shows "result = Rejected (IdentityMismatch ''bootstrap security policy cluster differs'') \<and>
    ct_bootstrap (gd_catalog w) = Some spec \<and>
    (\<exists>e. snd (apply_bootstrap_control w spec' topology' security' groups' streams' partitions' w) = Rejected e) \<and>
    gd_catalog (fst (apply_bootstrap_control w spec' topology' security' groups' streams' partitions' w)) = gd_catalog w \<and>
    apply_create_stream w create sid w = Inl ''catalog stream limit is missing''"
proof -
  have kind: "gi_kind (gd_identity db) = ControlGroup" using assms(1) by (cases "gi_kind (gd_identity db)") (simp_all add: kind_is_data_def)
  have w: "gd_catalog w = (gd_catalog db)\<lparr>ct_bootstrap := Some spec, ct_data_group_pool := Some groups\<rparr>"
    "gd_identity w = gd_identity db" "result = Rejected (IdentityMismatch ''bootstrap security policy cluster differs'')"
    using assms kind by (auto simp: apply_bootstrap_control_def apply_bootstrap_def bootstrap_result_def Let_def split: option.splits if_splits)
  moreover have "\<exists>e. snd (apply_bootstrap_control w spec' topology' security' groups' streams' partitions' w) = Rejected e"
    "gd_catalog (fst (apply_bootstrap_control w spec' topology' security' groups' streams' partitions' w)) = gd_catalog w"
    using w(1,2) assms(1,10)
    by (auto simp: apply_bootstrap_control_def apply_bootstrap_def kind_mismatch_def bootstrap_result_def Let_def
        same_configuration_def split: option.splits)
  moreover have "apply_create_stream w create sid w = Inl ''catalog stream limit is missing''"
    using w(1,2) assms(1,10-12) by (simp add: apply_create_stream_def kind_is_data_def)
  ultimately show ?thesis by simp
qed

definition foreign_policy :: SecurityPolicy where
  "foreign_policy = \<lparr>sp_cluster = 8, sp_revision = 1, sp_revocation_revision = 0, sp_grants = [], sp_token_verifiers = [],
     sp_peer_certificates = []\<rparr>"

theorem refused_bootstrap_wedges_control_witness:
  "\<exists>w. fst (apply_bootstrap_control demo_control demo_spec None (Some foreign_policy) [2] 8 4 demo_control) = w \<and>
    ct_bootstrap (gd_catalog w) = Some demo_spec \<and>
    (\<exists>e. snd (apply_bootstrap_control w demo_spec None None [2] 8 4 w) = Rejected e)"
proof -
  let ?run = "apply_bootstrap_control demo_control demo_spec None (Some foreign_policy) [2] 8 4 demo_control"
  have "ct_bootstrap (gd_catalog (fst ?run)) = Some demo_spec \<and>
      (\<exists>e. snd (apply_bootstrap_control (fst ?run) demo_spec None None [2] 8 4 (fst ?run)) = Rejected e)"
    using refused_bootstrap_wedges_control [of demo_control demo_spec "[2]" 8 4 foreign_policy None "fst ?run" "snd ?run"] demo_control_ok(2)
    by (simp add: demo_spec_def foreign_policy_def demo_control_def empty_group_def GroupIdentity_new_def CONTROL_GROUP_ID_def)
  then show ?thesis by blast
qed

text \<open>
  C37. The switch to secured transport does not look at the active administration: accepted while a voter
  replacement is pending it moves the topology to a revision that neither the completion nor the abort of
  the replacement accepts, while the replacement stays active and keeps every other administration out.
\<close>

theorem secured_transport_strands_replacement:
  assumes "\<not> kind_is_data db" "tget (ad_requests (gd_admin db)) r = Some op" "ad_active (gd_admin db) = Some op"
    and "ao_intent op = ReplaceVoter r expected rem add" "ao_lifecycle op = AdminPending"
    and "ad_cluster_topology (gd_admin db) = Some current" "replacement_matches current expected rem add"
    and "tp_revision current < - 1" "ad_security_policy (gd_admin db) = None"
    and "prior_mutation_result cd db request (mutation_fingerprint cd (cd_json_transport cd request topology policy)) = None"
    and "apply_secured_transport cd db request topology policy db = Inr (w, SecurityPolicyResult policy)"
  shows "apply_complete_administration cd w r w = Inr (w, Rejected MutationConflict) \<and>
    apply_abort_administration cd w r w = Inr (w, Rejected MutationConflict) \<and>
    apply_finish_administration_abort w r w = (w, Rejected MutationConflict) \<and>
    (tget (ad_requests (gd_admin w)) (ai_request intent) = None \<longrightarrow> (\<exists>e. apply_begin_administration cd w intent w = Inr (w, Rejected e)))"
proof -
  have valid: "secured_transport_valid db current topology policy"
    and w: "w = store_mutation_result cd db request (mutation_fingerprint cd (cd_json_transport cd request topology policy))
      (SecurityPolicyResult policy) (db\<lparr>gd_admin := (gd_admin db)\<lparr>ad_cluster_topology := Some topology, ad_security_policy := Some policy\<rparr>\<rparr>)"
    using assms by (auto simp: apply_secured_transport_def Let_def split: if_splits)
  have "gd_admin w = (gd_admin db)\<lparr>ad_cluster_topology := Some topology, ad_security_policy := Some policy\<rparr>"
    "gd_identity w = gd_identity db"
    by (simp_all add: w)
  moreover have "\<not> replacement_matches topology expected rem add"
  proof -
    have "tp_revision topology = saturating_add (tp_revision current) 1" using valid by (simp add: secured_transport_valid_def)
    moreover have "tp_revision current < saturating_add (tp_revision current) 1"
      using assms(8) below_next by blast
    ultimately show ?thesis using assms(7) by (auto simp: replacement_matches_def)
  qed
  ultimately show ?thesis
    using assms(1-5)
    by (auto simp: apply_complete_administration_def apply_abort_administration_def apply_finish_administration_abort_def
        apply_begin_administration_def replacement_complete_def replacement_abort_def kind_is_data_def ai_request_def
        Let_def split: option.splits)
qed

definition secure_node :: "u64 \<Rightarrow> NodeDescriptor" where
  "secure_node n = \<lparr>nd_node_id = n, nd_public_uri = ascii ''https://p'', nd_peer_uri = ascii ''https://q''\<rparr>"

definition secure_topology :: ClusterTopology where
  "secure_topology = \<lparr>tp_revision = 6, tp_authorized_nodes = map (\<lambda>n. (n, secure_node n)) [1, 2, 3, 4],
     tp_desired_voters = tp_desired_voters demo_next\<rparr>"



definition secure_policy :: SecurityPolicy where
  "secure_policy = foreign_policy\<lparr>sp_cluster := 9,
     sp_peer_certificates := map (\<lambda>n. (n, [(PeerCertificateBinding 9 n 1 [] CredentialActive, ())])) [1, 2, 3, 4]\<rparr>"

definition demo_replacement :: AdministrationOperation where
  "demo_replacement = AdministrationOperation_pending (ReplaceVoter 3 4 3 (demo_node 4 4))"

definition demo_replacing :: group_db where
  "demo_replacing = demo_control\<lparr>gd_admin := (gd_admin demo_control)
     \<lparr>ad_cluster_topology := Some demo_next, ad_requests := [(3, demo_replacement)], ad_active := Some demo_replacement\<rparr>\<rparr>"

definition demo_switch :: MutationRequestId where
  "demo_switch = \<lparr>mr_principal = [97], mr_session = 1, mr_sequence = 1\<rparr>"

theorem secured_transport_strands_replacement_witness:
  "\<exists>w. apply_secured_transport demo_codec demo_replacing demo_switch secure_topology secure_policy demo_replacing =
      Inr (w, SecurityPolicyResult secure_policy) \<and>
    apply_abort_administration demo_codec w 3 w = Inr (w, Rejected MutationConflict)"
proof -
  let ?fp = "mutation_fingerprint demo_codec (cd_json_transport demo_codec demo_switch secure_topology secure_policy)"
  have prior: "prior_mutation_result demo_codec demo_replacing demo_switch ?fp = None"
    by (simp add: prior_mutation_result_def demo_replacing_def demo_control_def empty_group_def mutation_session_def
        sequence_expired_def SessionState_default_def tget_or_def)
  have fields: "\<not> kind_is_data demo_replacing" "gi_cluster_id (gd_identity demo_replacing) = 9"
    "gd_admin demo_replacing = (gd_admin demo_control)
     \<lparr>ad_cluster_topology := Some demo_next, ad_requests := [(3, demo_replacement)], ad_active := Some demo_replacement\<rparr>"
    "ad_security_policy (gd_admin demo_control) = None"
    by (simp_all add: demo_replacing_def demo_control_def empty_group_def kind_is_data_def GroupIdentity_new_def)
  have "secured_transport_valid demo_replacing demo_next secure_topology secure_policy"
    by (simp add: secured_transport_valid_def secure_topology_def demo_next_def fields(2) secure_policy_def secure_node_def
        has_active_peer_def is_https_def ascii_def saturating_add_def)
  then obtain w where w: "apply_secured_transport demo_codec demo_replacing demo_switch secure_topology secure_policy demo_replacing =
      Inr (w, SecurityPolicyResult secure_policy)"
    by (simp add: apply_secured_transport_def fields prior Let_def)
  from secured_transport_strands_replacement [OF _ _ _ _ _ _ _ _ _ prior w, of 3 demo_replacement 4 3 "demo_node 4 4" demo_next] fields w
  show ?thesis
    by (auto simp: demo_replacement_def AdministrationOperation_pending_def replacement_matches_def demo_next_def demo_node_def
        saturating_add_def)
qed

end
