(* ===== verification/Maintenance.thy ===== *)
theory Maintenance
  imports Replica_Properties
begin

text \<open>
  The driver of retention maintenance (\<open>maintain_group_retention\<close> in
  \<open>crates/light-stream-server/src/runtime.rs\<close>): it proposes bounded maintenance commands until nothing is
  left to reclaim, at most 64 of them. The clock, the replicated write and the linearizable read belong to
  the platform and to the consensus library and are parameters. The lemmas bound what one command reclaims
  and show that the driver ends with everything below the floor reclaimed.
\<close>

section \<open>The driver\<close>

record maintenance_env =
  me_clock :: "nat \<Rightarrow> ClockObservation result"
  me_write :: "group_db \<Rightarrow> GroupCommand \<Rightarrow> group_db \<times> ApplyResult result"
  me_linearize :: "group_db \<Rightarrow> unit result"
  me_show :: "ApplyResult \<Rightarrow> string"

definition MAINTENANCE_RECORDS :: u32 where "MAINTENANCE_RECORDS = 1024"
definition MAINTENANCE_BYTES :: u64 where "MAINTENANCE_BYTES = 8 * 1024 * 1024"
definition MAINTENANCE_STEPS :: nat where "MAINTENANCE_STEPS = 64"

text \<open>The rounds that are left; \<open>me_clock\<close> is read once in each.\<close>

fun maintain_rounds :: "maintenance_env \<Rightarrow> PartitionKey \<Rightarrow> nat \<Rightarrow> group_db \<Rightarrow> group_db \<times> RetentionStatus result" where
  "maintain_rounds env p 0 db = (db, Inl (ResourceLimit ''retention_maintenance_steps'' (of_nat MAINTENANCE_STEPS)))"
| "maintain_rounds env p (Suc n) db =
     (case me_clock env n of
        Inl e \<Rightarrow> (db, Inl e)
      | Inr observation \<Rightarrow>
          if \<not> retention_maintenance_needed db p (co_lower_bound observation)
          then (db, case me_linearize env db of Inl e \<Rightarrow> Inl e | Inr _ \<Rightarrow> Inr (retention_status db p))
          else
            (let status = retention_status db p;
                 (db, response) = me_write env db
                   (MaintainRetention p (rt_reclaim_cursor status) MAINTENANCE_RECORDS MAINTENANCE_BYTES observation)
             in case response of
                  Inl e \<Rightarrow> (db, Inl e)
                | Inr (RetentionStatusResult next) \<Rightarrow>
                    if rt_reclaim_cursor next = rt_reclaim_cursor status \<and> rt_logical_floor next \<noteq> rt_reclaim_cursor next
                    then (db, Inl (Storage ''retention maintenance made no progress''))
                    else maintain_rounds env p n db
                | Inr (Rejected error) \<Rightarrow> (db, Inl error)
                | Inr other \<Rightarrow> (db, Inl (Storage (''unexpected retention maintenance result '' @ me_show env other)))))"

definition maintain_group_retention :: "maintenance_env \<Rightarrow> group_db \<Rightarrow> PartitionKey \<Rightarrow> group_db \<times> RetentionStatus result" where
  "maintain_group_retention env db p = maintain_rounds env p MAINTENANCE_STEPS db"

section \<open>What one command reclaims\<close>

text \<open>
  When every record has at most \<open>B\<close> bytes and the limits of a command allow \<open>k\<close> such records, it moves the
  cursor by \<open>k\<close> offsets or to the floor.
\<close>

lemma maintain_loop_moves:
  assumes "maintain_loop dblog bank p ranges max_records max_bytes examined reclaimed (ret, lg) = Inr st"
    and "\<forall>off r. records_of dblog p off = Some r \<longrightarrow> unat (sr_payload_bytes r) \<le> B"
    and "k \<le> unat max_records" "k * B \<le> unat max_bytes" "unat reclaimed \<le> unat examined * B"
  shows "min (unat (pr_logical_floor ret)) (unat (pr_reclaim_cursor ret) + (k - unat examined)) \<le> unat (pr_reclaim_cursor (fst st))"
  using assms
proof (induction dblog bank p ranges max_records max_bytes examined reclaimed "(ret, lg)" arbitrary: ret lg
    rule: maintain_loop.induct)
  case (1 dblog bank p ranges max_records max_bytes examined reclaimed ret lg)
  let ?c = "pr_reclaim_cursor ret" and ?f = "pr_logical_floor ret"
  show ?case
  proof (cases "?c < ?f \<and> examined < max_records")
    case False
    with "1.prems"(1) have "st = (ret, lg)" by (subst (asm) maintain_loop.simps) (auto simp del: maintain_loop.simps)
    with False "1.prems"(3) show ?thesis by (auto simp: not_less word_le_nat_alt)
  next
    case go: True
    then have e: "unat (saturating_add examined 1) = unat examined + 1" "unat (saturating_add ?c 1) = unat ?c + 1"
      by (auto simp: saturating_add_one unat_Suc_below)
    show ?thesis
    proof (cases "find (\<lambda>r. range_contains r ?c) ranges")
      case (Some r)
      then have r: "range_contains r ?c" by (auto simp: find_Some_iff)
      let ?ret = "ret\<lparr>pr_reclaim_cursor := min (rg_end r) ?f\<rparr>"
      have lt: "?c < min (rg_end r) ?f" using r go by (simp add: range_contains_def)
      have "maintain_loop dblog bank p ranges max_records max_bytes examined reclaimed (?ret, lg) = Inr st"
        using "1.prems"(1) go Some by (subst (asm) maintain_loop.simps) simp
      from "1.hyps"(3) [OF go Some this "1.prems"(2-5)] lt show ?thesis by (simp add: word_less_nat_alt)
    next
      case none: None
      show ?thesis
      proof (cases "tget (lg_records dblog) (p, ?c)")
        case None
        let ?ret = "ret\<lparr>pr_reclaim_cursor := saturating_add ?c 1\<rparr>"
        have next_: "maintain_loop dblog bank p ranges max_records max_bytes (saturating_add examined 1) reclaimed (?ret, lg) = Inr st"
          using "1.prems"(1) go none None by (subst (asm) maintain_loop.simps) simp
        have "unat reclaimed \<le> unat (saturating_add examined 1) * B" using "1.prems"(5) by (simp add: e)
        from "1.hyps"(1) [OF go none None next_ "1.prems"(2-4) this] show ?thesis by (simp add: e)
      next
        case (Some r)
        let ?b = "saturating_add reclaimed (sr_payload_bytes r)"
        have size: "unat (sr_payload_bytes r) \<le> B" using "1.prems"(2) Some by (simp add: records_of_def)
        have b: "unat ?b \<le> (unat examined + 1) * B"
          using "1.prems"(5) size by (simp add: unat_saturating_add min.coboundedI1)
        show ?thesis
        proof (cases "0 < examined \<and> max_bytes < ?b")
          case True
          then have "k * B < (unat examined + 1) * B" using b "1.prems"(4) by (simp add: word_less_nat_alt)
          then have "k < unat examined + 1" using mult_less_cancel2 by blast
          moreover have "st = (ret, lg)"
            using "1.prems"(1) go none Some True by (subst (asm) maintain_loop.simps) (simp del: maintain_loop.simps)
          ultimately show ?thesis by simp
        next
          case fits: False
          obtain owners where o: "tget (lg_owners dblog) (sr_payload_key r) = Some owners"
            and next_: "maintain_loop dblog bank p ranges max_records max_bytes (saturating_add examined 1) ?b
              (reclaim_record bank p r owners (ret, lg)) = Inr st"
            using "1.prems"(1) go none Some fits
            by (subst (asm) maintain_loop.simps) (auto simp del: maintain_loop.simps split: option.splits)
          obtain ret' lg' where rec: "reclaim_record bank p r owners (ret, lg) = (ret', lg')" by fastforce
          have cur: "pr_reclaim_cursor ret' = saturating_add ?c 1" "pr_logical_floor ret' = ?f"
            using reclaim_record_cursor [of bank p r owners ret lg] rec by simp_all
          have "unat ?b \<le> unat (saturating_add examined 1) * B" using b by (simp add: e)
          from "1.hyps"(2) [OF go none Some fits o rec next_ [unfolded rec] "1.prems"(2-4) this] show ?thesis
            by (simp add: cur e)
        qed
      qed
    qed
  qed
qed

section \<open>Rounds at a time when no lease ends\<close>

text \<open>
  Every observation of the clock contains the time \<open>t\<close>, and every active lease ends later.
\<close>

definition calm :: "u64 \<Rightarrow> group_db \<Rightarrow> bool" where
  "calm t db \<longleftrightarrow>
     (\<forall>clock. ls_clock (gd_leases db) = Some clock \<longrightarrow> sc_lower_bound clock \<le> t) \<and>
     (\<forall>l \<in> set (map snd (ls_leases (gd_leases db))). rl_lifecycle l = LeaseActive \<longrightarrow> t < rl_expires_at l \<and> t < rl_hard_expires_at l)"

definition observes :: "u64 \<Rightarrow> ClockObservation \<Rightarrow> bool" where
  "observes t ob \<longleftrightarrow> co_lower_bound ob \<le> t \<and> t \<le> co_upper_bound ob"

definition records_small :: "log_state \<Rightarrow> PartitionKey \<Rightarrow> bool" where
  "records_small lg p \<longleftrightarrow> (\<forall>off r. records_of lg p off = Some r \<longrightarrow> unat (sr_payload_bytes r) \<le> MAX_RECORD_BYTES)"

lemma calm_clock:
  assumes "calm t db" "observes t ob"
  obtains c where "advance_lease_clock db ob = Inr c" "sc_lower_bound c \<le> t"
proof (cases "ls_clock (gd_leases db)")
  case None
  with that assms show ?thesis by (simp add: advance_lease_clock_def SafeLeaseClock_new_def observes_def)
next
  case (Some clock)
  with assms have b: "sc_lower_bound clock \<le> t" "co_lower_bound ob \<le> t" "t \<le> co_upper_bound ob"
    by (simp_all add: calm_def observes_def)
  then have "\<not> co_upper_bound ob < sc_lower_bound clock" by (meson leD order_trans)
  with that Some b show ?thesis by (simp add: advance_lease_clock_def clock_advance_def)
qed

lemma calm_expiry:
  assumes "calm t db" "sc_lower_bound c \<le> t"
  obtains xs where "expire_due_leases db c db = (db, xs)" "xs_retentions xs = []"
proof -
  have none: "filter (lease_due c) (map snd (ls_leases (gd_leases db))) = []"
    unfolding filter_empty_conv
  proof
    fix l assume l: "l \<in> set (map snd (ls_leases (gd_leases db)))"
    have "sc_lower_bound c < rl_expires_at l \<and> sc_lower_bound c < rl_hard_expires_at l" if "rl_lifecycle l = LeaseActive"
      using assms l that unfolding calm_def by (auto intro: order_le_less_trans)
    then show "\<not> lease_due c l" by (auto simp: lease_due_def lease_is_effectively_active_def)
  qed
  then have "\<not> (\<exists>l \<in> set (map snd (ls_leases (gd_leases db))). lease_due c l)" by (auto simp: filter_empty_conv)
  with none have "expire_due_leases db c db = (db, snd (expire_due_leases db c db)) \<and> xs_retentions (snd (expire_due_leases db c db)) = []"
    unfolding expire_due_leases_def expire_loop_fold Let_def by simp
  with that show ?thesis by blast
qed

lemma calm_not_needed:
  assumes "calm t db" "observes t ob"
  shows "retention_maintenance_needed db p (co_lower_bound ob) \<longleftrightarrow>
    pr_reclaim_cursor (retention_of (gd_log db) p) < pr_logical_floor (retention_of (gd_log db) p)"
proof -
  have "\<not> (co_lower_bound ob \<ge> rl_expires_at l \<or> co_lower_bound ob \<ge> rl_hard_expires_at l)"
    if "l \<in> set (map snd (ls_leases (gd_leases db)))" "rl_lifecycle l = LeaseActive" for l
  proof -
    have "co_lower_bound ob \<le> t" "t < rl_expires_at l" "t < rl_hard_expires_at l"
      using assms that unfolding calm_def observes_def by blast+
    then show ?thesis by (simp add: not_le order_le_less_trans)
  qed
  then show ?thesis by (auto simp: retention_maintenance_needed_def Let_def list_ex_iff)
qed

text \<open>The state of a group between rounds.\<close>

definition between_rounds :: "codec \<Rightarrow> bytes set \<Rightarrow> u64 \<Rightarrow> PartitionKey \<Rightarrow> group_db \<Rightarrow> bool" where
  "between_rounds cd lk t p db \<longleftrightarrow>
     group_ok cd db \<and> \<not> export_fenced db \<and> owned (gd_active_bank db) lk (gd_log db) \<and> calm t db \<and>
     records_small (gd_log db) p"

lemma owned_known: "owned bank lk lg \<Longrightarrow> owners_known lg p"
  unfolding owners_known_def records_of_def by (simp add: ownedD(1) share_def indexedI)

lemma calm_round:
  assumes b: "between_rounds cd lk t p db" and ob: "observes t ob"
    and go: "pr_reclaim_cursor (retention_of (gd_log db) p) < pr_logical_floor (retention_of (gd_log db) p)"
  obtains w where
    "apply_command cd db l (MaintainRetention p (pr_reclaim_cursor (retention_of (gd_log db) p)) MAINTENANCE_RECORDS MAINTENANCE_BYTES ob) db =
      Inr (w, RetentionStatusResult (retention_status w p))"
    "between_rounds cd lk t p w"
    "pr_logical_floor (retention_of (gd_log w) p) = pr_logical_floor (retention_of (gd_log db) p)"
    "min (unat (pr_logical_floor (retention_of (gd_log db) p))) (unat (pr_reclaim_cursor (retention_of (gd_log db) p)) + 8)
      \<le> unat (pr_reclaim_cursor (retention_of (gd_log w) p))"
    "pr_reclaim_cursor (retention_of (gd_log w) p) \<le> pr_logical_floor (retention_of (gd_log w) p)"
proof -
  let ?ret = "retention_of (gd_log db) p"
  have ok: "group_ok cd db" "\<not> export_fenced db" and own: "owned (gd_active_bank db) lk (gd_log db)"
    and calm: "calm t db" and small: "records_small (gd_log db) p" using b by (simp_all add: between_rounds_def)
  obtain c where c: "advance_lease_clock db ob = Inr c" "sc_lower_bound c \<le> t" using calm_clock [OF calm ob] .
  obtain xs where xs: "expire_due_leases db c db = (db, xs)" "xs_retentions xs = []" using calm_expiry [OF calm c(2)] .
  let ?ranges = "map rl_range (filter (\<lambda>l. rg_partition (rl_range l) = p) (xs_active xs))"
  obtain ret lg where run: "maintain_loop (gd_log db) (gd_active_bank db) p ?ranges MAINTENANCE_RECORDS MAINTENANCE_BYTES 0 0
      (?ret, gd_log db) = Inr (ret, lg)"
    using maintain_loop_total [OF owned_known [OF own]] by (metis surj_pair)
  let ?w = "db\<lparr>gd_log := lg\<lparr>lg_retention := tput (lg_retention lg) p ret\<rparr>, gd_leases := (gd_leases db)\<lparr>ls_clock := Some c\<rparr>\<rparr>"
  have w: "apply_maintain_retention db p (pr_reclaim_cursor ?ret) MAINTENANCE_RECORDS MAINTENANCE_BYTES ob db =
      Inr (?w, RetentionStatusResult (retention_status_of p ret))"
    using run c(1) xs unfolding apply_maintain_retention_def Let_def
    by (simp add: MAINTENANCE_RECORDS_def MAINTENANCE_BYTES_def del: maintain_loop.simps)
  have ret: "retention_of (gd_log ?w) p = ret" by (simp add: retention_of_def)
  have recl: "reclaims p ?ranges (?ret, gd_log db) (ret, lg)" by (rule maintain_loop_reclaims [OF run]) simp
  note R = reclaimsD [OF recl]
  have moved: "min (unat (pr_logical_floor ?ret)) (unat (pr_reclaim_cursor ?ret) + 8) \<le> unat (pr_reclaim_cursor ret)"
    using maintain_loop_moves [OF run, of MAX_RECORD_BYTES 8] small
    by (simp add: records_small_def MAINTENANCE_RECORDS_def MAINTENANCE_BYTES_def MAX_RECORD_BYTES_def)
  have "records_of (gd_log ?w) p off = Some r \<Longrightarrow> records_of (gd_log db) p off = Some r" for off r
  proof -
    assume "records_of (gd_log ?w) p off = Some r"
    then have lg: "records_of lg p off = Some r" by (simp add: records_of_def)
    show "records_of (gd_log db) p off = Some r"
    proof (cases "pr_reclaim_cursor ?ret \<le> off \<and> off < pr_reclaim_cursor ret")
      case True
      with R(11) [of off] lg show ?thesis by (metis option.distinct(1))
    next
      case False
      with R(10) [of p off] lg show ?thesis by (auto simp: not_le not_less)
    qed
  qed
  then have "records_small (gd_log ?w) p" using small by (auto simp: records_small_def)
  moreover have "calm t ?w" using calm c(2) by (auto simp: calm_def)
  moreover have "group_ok cd ?w" by (rule group_ok_maintain [OF ok(1) w ok(2)])
  moreover have "\<not> export_fenced ?w" using ok(2) by (simp add: export_fenced_def mutation_fence_state_def)
  moreover have "owned (gd_active_bank ?w) lk (gd_log ?w)" using maintain_owned [OF w own group_okD(10) [OF ok(1)]] by simp
  ultimately have "between_rounds cd lk t p ?w" unfolding between_rounds_def by blast
  moreover have "apply_command cd db l (MaintainRetention p (pr_reclaim_cursor ?ret) MAINTENANCE_RECORDS MAINTENANCE_BYTES ob) db =
      Inr (?w, RetentionStatusResult (retention_status ?w p))"
    using w ok(2) ret by (simp add: apply_command_def dispatch_def export_fenced_def retention_status_def)
  moreover have "pr_reclaim_cursor ret \<le> pr_logical_floor ret" using R(5) R(9) go by simp
  ultimately show thesis using that [of ?w, unfolded ret] moved R(5) by blast
qed

section \<open>The driver ends\<close>

text \<open>A leader whose writes are applied by this group at once, at the log identities \<open>ids\<close> gives.\<close>

definition local_write ::
  "codec \<Rightarrow> (group_db \<Rightarrow> GroupLogId) \<Rightarrow> group_db \<Rightarrow> GroupCommand \<Rightarrow> group_db \<times> ApplyResult result" where
  "local_write cd ids db c =
     (case apply_command cd db (ids db) c db of Inr (w, result) \<Rightarrow> (w, Inr result) | Inl e \<Rightarrow> (db, Inl (Storage e)))"

lemma rounds_reach_floor:
  assumes "between_rounds cd lk t p db" "me_write env = local_write cd ids" "\<And>db. me_linearize env db = Inr ()"
    and "\<And>n. \<exists>ob. me_clock env n = Inr ob \<and> observes t ob"
    and "pr_reclaim_cursor (retention_of (gd_log db) p) \<le> pr_logical_floor (retention_of (gd_log db) p)"
    and "unat (pr_logical_floor (retention_of (gd_log db) p)) \<le> unat (pr_reclaim_cursor (retention_of (gd_log db) p)) + 8 * n"
  shows "\<exists>w. maintain_rounds env p (Suc n) db = (w, Inr (retention_status w p)) \<and> between_rounds cd lk t p w \<and>
    pr_logical_floor (retention_of (gd_log w) p) = pr_logical_floor (retention_of (gd_log db) p) \<and>
    pr_reclaim_cursor (retention_of (gd_log w) p) = pr_logical_floor (retention_of (gd_log w) p)"
  using assms(1,5,6)
proof (induction n arbitrary: db)
  case 0
  let ?ret = "retention_of (gd_log db) p"
  have eq: "pr_reclaim_cursor ?ret = pr_logical_floor ?ret" using 0 by (simp add: word_le_nat_alt word_unat_eq_iff)
  obtain ob where ob: "me_clock env 0 = Inr ob" "observes t ob" using assms(4) by blast
  have "\<not> retention_maintenance_needed db p (co_lower_bound ob)"
    using calm_not_needed [OF _ ob(2)] "0.prems"(1) eq by (simp add: between_rounds_def)
  with ob(1) assms(3) eq "0.prems"(1) show ?case by simp
next
  case (Suc n)
  let ?ret = "retention_of (gd_log db) p"
  obtain ob where ob: "me_clock env (Suc n) = Inr ob" "observes t ob" using assms(4) by blast
  note needed = calm_not_needed [OF _ ob(2), of db p]
  show ?case
  proof (cases "pr_reclaim_cursor ?ret < pr_logical_floor ?ret")
    case False
    then have eq: "pr_reclaim_cursor ?ret = pr_logical_floor ?ret" using Suc.prems(2) by simp
    have "maintain_rounds env p (Suc (Suc n)) db = (db, Inr (retention_status db p))"
      using needed Suc.prems(1) ob(1) assms(3) False by (simp add: between_rounds_def)
    with Suc.prems(1) eq show ?thesis by blast
  next
    case True
    obtain w where w:
      "apply_command cd db (ids db) (MaintainRetention p (pr_reclaim_cursor ?ret) MAINTENANCE_RECORDS MAINTENANCE_BYTES ob) db =
        Inr (w, RetentionStatusResult (retention_status w p))" "between_rounds cd lk t p w"
      "pr_logical_floor (retention_of (gd_log w) p) = pr_logical_floor ?ret"
      "min (unat (pr_logical_floor ?ret)) (unat (pr_reclaim_cursor ?ret) + 8) \<le> unat (pr_reclaim_cursor (retention_of (gd_log w) p))"
      "pr_reclaim_cursor (retention_of (gd_log w) p) \<le> pr_logical_floor (retention_of (gd_log w) p)"
      using calm_round [OF Suc.prems(1) ob(2) True] by metis
    have up: "pr_reclaim_cursor (retention_of (gd_log w) p) \<noteq> pr_reclaim_cursor ?ret"
      using w(4) True by (auto simp: word_less_nat_alt)
    have "maintain_rounds env p (Suc (Suc n)) db = maintain_rounds env p (Suc n) w"
      using needed Suc.prems(1) ob(1) True w(1) up
      by (subst maintain_rounds.simps)
        (simp add: between_rounds_def assms(2) local_write_def retention_status_def retention_status_of_def del: maintain_rounds.simps)
    moreover have "unat (pr_logical_floor (retention_of (gd_log w) p)) \<le> unat (pr_reclaim_cursor (retention_of (gd_log w) p)) + 8 * n"
      using w(3,4) Suc.prems(3) by simp
    ultimately show ?thesis using Suc.IH [OF w(2,5)] w(3) by simp
  qed
qed

text \<open>
  C38. The maintenance driver ends: on a leader whose group is in order and not fenced by an export, whose
  payload ownership is sound and whose records are within the record limit, when every write is applied
  locally and every linearization succeeds, with a clock whose observations agree on a time at which no lease
  ends and no more than 504 offsets between the cursor and the floor, the driver returns the status of a
  partition whose cursor has reached its floor, within its 64 rounds, and reports neither a missing progress
  nor an exhausted step limit. Larger backlogs and leases that fall due meanwhile are not covered.
\<close>

theorem maintenance_driver_ends:
  assumes "group_ok cd db" "\<not> export_fenced db" "owned (gd_active_bank db) lk (gd_log db)" "calm t db" "records_small (gd_log db) p"
    and "\<forall>n. \<exists>ob. clock n = Inr ob \<and> observes t ob"
    and "unat (pr_logical_floor (retention_of (gd_log db) p)) \<le> unat (pr_reclaim_cursor (retention_of (gd_log db) p)) + 504"
  shows "\<exists>w status. maintain_group_retention
      \<lparr>me_clock = clock, me_write = local_write cd ids, me_linearize = \<lambda>_. Inr (), me_show = shown\<rparr> db p = (w, Inr status) \<and>
    rt_logical_floor status = pr_logical_floor (retention_of (gd_log db) p) \<and> rt_reclaim_cursor status = rt_logical_floor status \<and>
    group_ok cd w"
proof -
  let ?env = "\<lparr>me_clock = clock, me_write = local_write cd ids, me_linearize = \<lambda>_. Inr (), me_show = shown\<rparr>"
  have "between_rounds cd lk t p db" using assms(1-5) by (simp add: between_rounds_def)
  moreover have "pr_reclaim_cursor (retention_of (gd_log db) p) \<le> pr_logical_floor (retention_of (gd_log db) p)"
    using group_okD(11) [OF assms(1)] unfolding log_ok_def partition_ok_def chain_ok_def by (blast dest: chain_withD(2))
  ultimately obtain w where "maintain_rounds ?env p (Suc 63) db = (w, Inr (retention_status w p))" "between_rounds cd lk t p w"
    "pr_logical_floor (retention_of (gd_log w) p) = pr_logical_floor (retention_of (gd_log db) p)"
    "pr_reclaim_cursor (retention_of (gd_log w) p) = pr_logical_floor (retention_of (gd_log w) p)"
    using rounds_reach_floor [of cd lk t p db ?env ids 63] assms(6,7) by auto
  then show ?thesis
    by (auto simp: maintain_group_retention_def MAINTENANCE_STEPS_def between_rounds_def retention_status_def retention_status_of_def
        simp del: maintain_rounds.simps)
qed

text \<open>A group with two records below its floor.\<close>

definition demo_retention :: RetentionRequest where
  "demo_retention = \<lparr>rq_request = \<lparr>mr_principal = [113], mr_session = 3, mr_sequence = 1\<rparr>,
     rq_partition = PartitionKey 4 0, rq_target_floor = 2\<rparr>"

lemma demo_floor_moves:
  assumes "demo_state g"
  shows "\<exists>w. apply_advance_retention demo_codec g demo_retention (demo_time 5) g =
      (w, RetentionAdvanced \<lparr>rs_request = rq_request demo_retention, rs_partition = PartitionKey 4 0, rs_previous_floor = 0, rs_floor = 2\<rparr>) \<and>
    same_store (gd_log g) (gd_log w) \<and> pr_logical_floor (retention_of (gd_log w) (PartitionKey 4 0)) = 2 \<and>
    pr_reclaim_cursor (retention_of (gd_log w) (PartitionKey 4 0)) = 0 \<and>
    ls_leases (gd_leases w) = [] \<and> ls_clock (gd_leases w) = Some \<lparr>sc_lower_bound = 5, sc_upper_bound = 5\<rparr> \<and>
    gd_export w = gd_export g \<and> gd_active_bank w = gd_active_bank g"
proof -
  have fields: "gd_leases g = \<lparr>ls_clock = None, ls_budget = None, ls_leases = [], ls_requests = []\<rparr>"
    "gd_mutations g = \<lparr>ms_receipts = [], ms_sessions = []\<rparr>" "kind_is_data g"
    "next_offset (gd_log g) (PartitionKey 4 0) = 3"
    "lg_retention (gd_log g) = [(PartitionKey 4 0, PartitionRetentionState_default\<lparr>pr_next_byte_position := 4\<rparr>)]"
    "tget (lg_records (gd_log g)) (PartitionKey 4 0, 1) = Some (demo_stored 1 1 3)"
    using assms by (simp_all add: demo_state_def demo_replica_def fresh_replica_def empty_group_def kind_is_data_def GroupIdentity_new_def
        next_offset_def retention_of_def tget_or_def)
  have prior: "prior_mutation_result demo_codec g r fp = None" for r fp
    by (simp add: prior_mutation_result_def fields mutation_session_def sequence_expired_def SessionState_default_def tget_or_def)
  show ?thesis
    by (simp add: apply_advance_retention_def prior fields Let_def advance_floor_def demo_retention_def advance_lease_clock_def
        SafeLeaseClock_new_def demo_time_def floor_boundary_def PartitionRetentionState_default_def same_store_def retention_of_def
        tget_or_def word_less_nat_alt)
qed

theorem maintenance_driver_ends_witness:
  "\<exists>db w status. unat (pr_logical_floor (retention_of (gd_log db) (PartitionKey 4 0))) = 2 \<and>
    pr_reclaim_cursor (retention_of (gd_log db) (PartitionKey 4 0)) = 0 \<and>
    maintain_group_retention \<lparr>me_clock = \<lambda>_. Inr (demo_time 5), me_write = local_write demo_codec (\<lambda>_. demo_log_id 4),
      me_linearize = \<lambda>_. Inr (), me_show = \<lambda>_. []\<rparr> db (PartitionKey 4 0) = (w, Inr status) \<and> rt_reclaim_cursor status = 2"
proof -
  let ?p = "PartitionKey 4 0"
  obtain rp g where g: "demo_state g" "replica_ok demo_codec (rp\<lparr>rp_group := g\<rparr>) demo_log" by (rule demo_run_published)
  obtain db where db: "apply_advance_retention demo_codec g demo_retention (demo_time 5) g =
      (db, RetentionAdvanced \<lparr>rs_request = rq_request demo_retention, rs_partition = ?p, rs_previous_floor = 0, rs_floor = 2\<rparr>)"
    "same_store (gd_log g) (gd_log db)" "pr_logical_floor (retention_of (gd_log db) ?p) = 2"
    "pr_reclaim_cursor (retention_of (gd_log db) ?p) = 0" "ls_leases (gd_leases db) = []"
    "ls_clock (gd_leases db) = Some \<lparr>sc_lower_bound = 5, sc_upper_bound = 5\<rparr>" "gd_export db = gd_export g" "gd_active_bank db = gd_active_bank g"
    using demo_floor_moves [OF g(1)] by blast
  have free: "\<not> export_fenced g" using g(1)
    by (simp add: export_fenced_def mutation_fence_state_def demo_state_def demo_booted_def MutationFenceState_default_def)
  then have "group_ok demo_codec db" using group_ok_advance_retention [OF _ db(1)] g(2) by (simp add: replica_ok_def)
  moreover have "owned (gd_active_bank db) (logged demo_log) (gd_log db)"
    using g(2) by (simp add: replica_ok_def owned_same [OF db(2)] db(8))
  moreover have "\<not> export_fenced db" using free by (simp add: export_fenced_def fence_cong(1) [OF db(7)])
  moreover have "calm 5 db" using db(5,6) by (simp add: calm_def)
  moreover have "records_of (gd_log db) ?p off = Some r \<Longrightarrow> unat (sr_payload_bytes r) \<le> MAX_RECORD_BYTES" for off r
    using db(2) g(1) by (auto simp: records_of_def same_store_def demo_state_def demo_stored_def MAX_RECORD_BYTES_def split: if_splits)
  then have "records_small (gd_log db) ?p" by (simp add: records_small_def)
  ultimately obtain w status where "maintain_group_retention \<lparr>me_clock = \<lambda>_. Inr (demo_time 5),
      me_write = local_write demo_codec (\<lambda>_. demo_log_id 4), me_linearize = \<lambda>_. Inr (), me_show = \<lambda>_. []\<rparr> db ?p = (w, Inr status)"
    "rt_logical_floor status = 2" "rt_reclaim_cursor status = rt_logical_floor status"
    using maintenance_driver_ends [of demo_codec db "logged demo_log" 5 ?p "\<lambda>_. Inr (demo_time 5)" "\<lambda>_. demo_log_id 4" "\<lambda>_. []"] db(3,4)
    by (auto simp: observes_def demo_time_def)
  with db(3,4) show ?thesis by (intro exI [of _ db] exI [of _ w] exI [of _ status]) simp
qed

section \<open>A lease that ends during maintenance\<close>

text \<open>
  Eight records of one MiB under a lease and one small record after them; the floor has passed all nine,
  the cursor stands behind the lease, and the lease is due.
\<close>

definition leased_record :: "nat \<Rightarrow> StoredRecord" where
  "leased_record i = \<lparr>sr_payload_key = [of_nat i], sr_payload_bytes = (if i = 8 then 1 else 1048576),
     sr_cumulative_end_bytes = (if i = 8 then 8388609 else of_nat (Suc i) * 1048576)\<rparr>"

definition due_lease :: ReplayLease where
  "due_lease = \<lparr>rl_id = 1, rl_request = (demo_lease_request 1)\<lparr>lr_range := \<lparr>rg_partition = PartitionKey 4 0, rg_start = 0, rg_end = 8\<rparr>\<rparr>,
     rl_protected_bytes = 8388608, rl_generation = 1, rl_expires_at = 10, rl_hard_expires_at = 10, rl_lifecycle = LeaseActive\<rparr>"

definition due_group :: group_db where
  "due_group = (empty_group (GroupIdentity_new 9 2 DataGroup) 2)
     \<lparr>gd_log := empty_log
        \<lparr>lg_next_offset := [(PartitionKey 4 0, 9)],
         lg_retention := [(PartitionKey 4 0, PartitionRetentionState_default
           \<lparr>pr_logical_floor := 9, pr_reclaim_cursor := 8, pr_next_byte_position := 8388609, pr_floor_byte_position := 8388609\<rparr>)],
         lg_records := map (\<lambda>i. ((PartitionKey 4 0, of_nat i), leased_record i)) [0..<9],
         lg_owners := map (\<lambda>i. ([of_nat i], \<lparr>po_raft_log = False, po_applied_state = False, po_applied_banks = 1\<rparr>)) [0..<9],
         lg_payload := map (\<lambda>i. ([of_nat i], [])) [0..<9]\<rparr>,
      gd_leases := \<lparr>ls_clock = None, ls_budget = Some \<lparr>lb_active_leases = 1, lb_reserved_bytes = 8388608\<rparr>,
        ls_leases = [(1, due_lease)], ls_requests = []\<rparr>\<rparr>"

text \<open>
  The round that ends the lease hands its range back and reclaims its eight records, which brings the cursor
  back to where it stood: the driver takes that for a lack of progress and gives up with an error, with a
  record still to reclaim.
\<close>

lemma progress_reported_as_none:
  "\<exists>w. maintain_group_retention
      \<lparr>me_clock = \<lambda>_. Inr (demo_time 20), me_write = local_write demo_codec (\<lambda>_. demo_log_id 4),
       me_linearize = \<lambda>_. Inr (), me_show = \<lambda>_. []\<rparr> due_group (PartitionKey 4 0) =
      (w, Inl (Storage ''retention maintenance made no progress'')) \<and>
    length (lg_records (gd_log due_group)) = 9 \<and> length (lg_records (gd_log w)) = 1"
proof -
  let ?p = "PartitionKey 4 0" and ?clock = "\<lparr>sc_lower_bound = 20, sc_upper_bound = 20\<rparr> :: SafeLeaseClock"
  have fields: "pr_reclaim_cursor (retention_of (gd_log due_group) ?p) = 8" "pr_logical_floor (retention_of (gd_log due_group) ?p) = 9"
    "mf_held (mutation_fence_state due_group) = None" "advance_lease_clock due_group (demo_time 20) = Inr ?clock"
    by (simp_all add: due_group_def empty_group_def retention_of_def tget_or_def mutation_fence_state_def MutationFenceState_default_def
        advance_lease_clock_def SafeLeaseClock_new_def demo_time_def)
  have "\<exists>w. apply_maintain_retention due_group ?p 8 MAINTENANCE_RECORDS MAINTENANCE_BYTES (demo_time 20) due_group =
      Inr (w, RetentionStatusResult (retention_status w ?p)) \<and> length (lg_records (gd_log w)) = 1 \<and>
      pr_reclaim_cursor (retention_of (gd_log w) ?p) = 8 \<and> pr_logical_floor (retention_of (gd_log w) ?p) = 9"
    by (simp add: apply_maintain_retention_def fields Let_def MAINTENANCE_RECORDS_def MAINTENANCE_BYTES_def retention_status_def
        due_group_def empty_group_def empty_log_def due_lease_def demo_lease_request_def upt_rec leased_record_def
        expire_due_leases_def lease_is_effectively_active_def expire_lease_def lease_expired_def export_fenced_def
        mutation_fence_state_def MutationFenceState_default_def retention_of_def tget_or_def PartitionRetentionState_default_def
        put_hints_def put_retentions_def tdel_def reclaim_record_def set_applied_in_def bank_bit_def owners_reachable_def saturating_add_def
        advance_lease_clock_def SafeLeaseClock_new_def demo_time_def word_le_nat_alt word_less_nat_alt)
  then obtain w where w: "apply_maintain_retention due_group ?p 8 MAINTENANCE_RECORDS MAINTENANCE_BYTES (demo_time 20) due_group =
      Inr (w, RetentionStatusResult (retention_status w ?p))" "length (lg_records (gd_log w)) = 1"
      "pr_reclaim_cursor (retention_of (gd_log w) ?p) = 8" "pr_logical_floor (retention_of (gd_log w) ?p) = 9" by blast
  have "retention_maintenance_needed due_group ?p 20" by (simp add: retention_maintenance_needed_def Let_def fields)
  with w show ?thesis
    by (simp add: maintain_group_retention_def MAINTENANCE_STEPS_def eval_nat_numeral fields local_write_def retention_status_def
        retention_status_of_def apply_command_def dispatch_def demo_time_def)
      (simp add: due_group_def)
qed

end
