(* ===== verification/Publish_Scheduler.thy ===== *)
theory Publish_Scheduler
  imports Publish_Properties Raft_Log "HOL-Library.Multiset"
begin

text \<open>
  The publish scheduler of a data group leader (\<open>crates/light-stream-server/src/publish_scheduler.rs\<close>): the
  admission counters, the queue, the selection of a batch and the completion of its requests. A waiter is
  the identity of the reply channel of a request; the set of waiters that were dropped, the answer of the
  consensus library to a write and the moments at which the worker is scheduled come from outside. Locks are
  never poisoned here: no code that holds them can panic. The worker is a step relation over these
  operations, between any two of which requests are admitted or given up.

  Two steps are coarser than the code. \<open>try_admit\<close> reserves and sends at once, where the code reserves under
  its mutex and sends after leaving it, and \<open>worker_drain\<close> closes admission, answers the pending requests,
  empties the channel and drops the receiver at once. In the code a handler may run between these, so a
  request reserved before the close and sent after the last \<open>try_recv\<close> would be dropped with its charge, and
  the branch of \<open>try_admit\<close> for a stopped worker could be taken. The server stops accepting requests before
  it closes the scheduler, which excludes that order; the properties below are about runs without it.
\<close>

section \<open>Configuration\<close>

definition USIZE_MAX :: nat where "USIZE_MAX = 2 ^ 64 - 1"

definition usize_saturating_add :: "nat \<Rightarrow> nat \<Rightarrow> nat" where
  "usize_saturating_add a b = min (a + b) USIZE_MAX"

definition usize_saturating_mul :: "nat \<Rightarrow> nat \<Rightarrow> nat" where
  "usize_saturating_mul a b = min (a * b) USIZE_MAX"

definition REQUEST_OVERHEAD_BYTES :: nat where "REQUEST_OVERHEAD_BYTES = 256"

text \<open>\<open>size_of::<Vec<u8>>() + 32\<close> on a 64-bit target.\<close>

definition RECORD_OVERHEAD_BYTES :: nat where "RECORD_OVERHEAD_BYTES = 24 + 32"

record PublishSchedulerConfig =
  cf_queue_requests :: nat
  cf_queue_records :: nat
  cf_queue_resident_bytes :: nat
  cf_batch_requests :: nat
  cf_batch_records :: nat
  cf_batch_payload_bytes :: nat
  cf_max_coalesce_delay :: nat

definition PublishSchedulerConfig_default :: PublishSchedulerConfig where
  "PublishSchedulerConfig_default =
     \<lparr>cf_queue_requests = 512, cf_queue_records = 8192, cf_queue_resident_bytes = 32 * 1024 * 1024,
      cf_batch_requests = 64, cf_batch_records = 512, cf_batch_payload_bytes = 8 * 1024 * 1024,
      cf_max_coalesce_delay = 200000\<rparr>"

definition PublishSchedulerConfig_try_new ::
  "nat \<Rightarrow> nat \<Rightarrow> nat \<Rightarrow> nat \<Rightarrow> nat \<Rightarrow> nat \<Rightarrow> nat \<Rightarrow> string + PublishSchedulerConfig" where
  "PublishSchedulerConfig_try_new queue_requests queue_records queue_resident_bytes batch_requests batch_records
       batch_payload_bytes max_coalesce_delay =
     (if queue_requests = 0 \<or> queue_records = 0 \<or> queue_resident_bytes = 0 \<or> batch_requests = 0 \<or> batch_records = 0 \<or>
         batch_payload_bytes = 0
      then Inl ''publish queue and batch limits must be greater than zero''
      else if max_coalesce_delay = 0 then Inl ''publish coalesce delay must be greater than zero''
      else if batch_requests > MAX_REQUESTS_PER_REPLICATED_PUBLISH \<or> batch_records > MAX_RECORDS_PER_REPLICATED_PUBLISH \<or>
         batch_payload_bytes > MAX_REPLICATED_PUBLISH_BYTES
      then Inl ''publish batch limits exceed the replicated command limits''
      else if batch_records < MAX_RECORDS_PER_PUBLISH \<or> batch_payload_bytes < MAX_PUBLISH_BYTES
      then Inl ''publish batch limits must fit one maximum-size request''
      else
        (let maximum_request_resident_bytes =
               usize_saturating_add (usize_saturating_add MAX_PUBLISH_BYTES
                 (usize_saturating_mul MAX_RECORDS_PER_PUBLISH RECORD_OVERHEAD_BYTES)) REQUEST_OVERHEAD_BYTES
         in if queue_requests < batch_requests \<or> queue_records < batch_records \<or>
               queue_resident_bytes < maximum_request_resident_bytes
            then Inl ''publish queue limits must contain one complete physical batch''
            else Inr \<lparr>cf_queue_requests = queue_requests, cf_queue_records = queue_records,
                   cf_queue_resident_bytes = queue_resident_bytes, cf_batch_requests = batch_requests,
                   cf_batch_records = batch_records, cf_batch_payload_bytes = batch_payload_bytes,
                   cf_max_coalesce_delay = max_coalesce_delay\<rparr>))"

section \<open>Admission\<close>

record PublishCharge =
  ch_records :: nat
  ch_resident_bytes :: nat

fun try_sum :: "nat \<Rightarrow> bytes list \<Rightarrow> nat option" where
  "try_sum acc [] = Some acc"
| "try_sum acc (r # rs) = (case usize_checked_add acc (length r) of None \<Rightarrow> None | Some acc \<Rightarrow> try_sum acc rs)"

definition usize_checked_mul :: "nat \<Rightarrow> nat \<Rightarrow> nat option" where
  "usize_checked_mul a b = (if a * b < 2 ^ 64 then Some (a * b) else None)"

definition PublishCharge_for_batch :: "PublishBatch \<Rightarrow> PublishCharge result" where
  "PublishCharge_for_batch batch =
     bind_result (ok_or (InvalidPayload ''publish resident byte count overflow'') (try_sum 0 (pb_records batch))) (\<lambda>payload_bytes.
     bind_result (ok_or (InvalidPayload ''publish record overhead overflow'')
       (usize_checked_mul (length (pb_records batch)) RECORD_OVERHEAD_BYTES)) (\<lambda>record_overhead.
     bind_result (ok_or (InvalidPayload ''publish resident byte count overflow'')
       (case usize_checked_add payload_bytes record_overhead of
          None \<Rightarrow> None | Some acc \<Rightarrow> usize_checked_add acc REQUEST_OVERHEAD_BYTES)) (\<lambda>resident_bytes.
     Inr \<lparr>ch_records = length (pb_records batch), ch_resident_bytes = resident_bytes\<rparr>)))"

record AdmissionUsage =
  au_accepting :: bool
  au_requests :: nat
  au_records :: nat
  au_resident_bytes :: nat
  au_rejected_total :: u64

record Admission =
  am_usage :: AdmissionUsage
  am_config :: PublishSchedulerConfig

record PublishQueueSnapshot =
  qs_accepting :: bool
  qs_requests :: nat
  qs_records :: nat
  qs_resident_bytes :: nat
  qs_request_limit :: nat
  qs_record_limit :: nat
  qs_resident_byte_limit :: nat
  qs_rejected_total :: u64

definition Admission_new :: "PublishSchedulerConfig \<Rightarrow> Admission" where
  "Admission_new config =
     \<lparr>am_usage = \<lparr>au_accepting = True, au_requests = 0, au_records = 0, au_resident_bytes = 0, au_rejected_total = 0\<rparr>,
      am_config = config\<rparr>"

definition admission_reject :: "Admission \<Rightarrow> Admission" where
  "admission_reject a =
     a\<lparr>am_usage := (am_usage a)\<lparr>au_rejected_total := saturating_add (au_rejected_total (am_usage a)) 1\<rparr>\<rparr>"

text \<open>The first of the three resources that is used up.\<close>

fun first_exceeded :: "(string \<times> nat \<times> nat) list \<Rightarrow> (string \<times> nat) option" where
  "first_exceeded [] = None"
| "first_exceeded ((resource, used, limit) # rest) = (if used > limit then Some (resource, limit) else first_exceeded rest)"

definition admission_reserve :: "Admission \<Rightarrow> PublishCharge \<Rightarrow> Admission \<times> unit result" where
  "admission_reserve a charge =
     (let usage = am_usage a; config = am_config a
      in if \<not> au_accepting usage then (a, Inl ClusterForming)
         else
           (let requests = usize_saturating_add (au_requests usage) 1;
                records = usize_saturating_add (au_records usage) (ch_records charge);
                resident_bytes = usize_saturating_add (au_resident_bytes usage) (ch_resident_bytes charge)
            in case first_exceeded
                 [(''publish queue requests'', requests, cf_queue_requests config),
                  (''publish queue records'', records, cf_queue_records config),
                  (''publish queue resident bytes'', resident_bytes, cf_queue_resident_bytes config)] of
                 Some (resource, limit) \<Rightarrow> (admission_reject a, Inl (PublishOverloaded resource (of_nat limit)))
               | None \<Rightarrow>
                   (a\<lparr>am_usage := usage\<lparr>au_requests := requests, au_records := records, au_resident_bytes := resident_bytes\<rparr>\<rparr>,
                    Inr ())))"

definition admission_release :: "PublishCharge \<Rightarrow> Admission \<Rightarrow> Admission" where
  "admission_release charge a =
     (let usage = am_usage a
      in a\<lparr>am_usage := usage\<lparr>au_requests := au_requests usage - 1, au_records := au_records usage - ch_records charge,
             au_resident_bytes := au_resident_bytes usage - ch_resident_bytes charge\<rparr>\<rparr>)"

definition admission_snapshot :: "Admission \<Rightarrow> PublishQueueSnapshot" where
  "admission_snapshot a =
     (let usage = am_usage a; config = am_config a
      in \<lparr>qs_accepting = au_accepting usage, qs_requests = au_requests usage, qs_records = au_records usage,
          qs_resident_bytes = au_resident_bytes usage, qs_request_limit = cf_queue_requests config,
          qs_record_limit = cf_queue_records config, qs_resident_byte_limit = cf_queue_resident_bytes config,
          qs_rejected_total = au_rejected_total usage\<rparr>)"

definition admission_close :: "Admission \<Rightarrow> Admission" where
  "admission_close a = a\<lparr>am_usage := (am_usage a)\<lparr>au_accepting := False\<rparr>\<rparr>"

section \<open>The queue\<close>

type_synonym waiter = nat
type_synonym reply = "waiter \<times> PublishReceipt result"

record QueuedPublish =
  qp_admitted_at :: nat
  qp_charge :: PublishCharge
  qp_batch :: PublishBatch
  qp_reply :: waiter

fun usage_loop :: "PublishSchedulerConfig \<Rightarrow> nat \<Rightarrow> nat \<Rightarrow> nat \<Rightarrow> QueuedPublish list \<Rightarrow> bool" where
  "usage_loop config requests records payload_bytes [] = False"
| "usage_loop config requests records payload_bytes (queued # rest) =
     (let next_records = usize_saturating_add records (length (pb_records (qp_batch queued)));
          next_payload_bytes = usize_saturating_add payload_bytes (payload_bytes_of (qp_batch queued))
      in if requests = cf_batch_requests config \<or> next_records > cf_batch_records config \<or>
            next_payload_bytes > cf_batch_payload_bytes config
         then requests > 0
         else if requests + 1 = cf_batch_requests config \<or> next_records = cf_batch_records config \<or>
            next_payload_bytes = cf_batch_payload_bytes config
         then True
         else usage_loop config (requests + 1) next_records next_payload_bytes rest)"

definition batch_usage :: "QueuedPublish list \<Rightarrow> PublishSchedulerConfig \<Rightarrow> bool" where
  "batch_usage pending config = usage_loop config 0 0 0 pending"

fun take_loop ::
  "PublishSchedulerConfig \<Rightarrow> QueuedPublish list \<Rightarrow> nat \<Rightarrow> nat \<Rightarrow> QueuedPublish list \<Rightarrow> QueuedPublish list \<times> QueuedPublish list" where
  "take_loop config selected records payload_bytes [] = (selected, [])"
| "take_loop config selected records payload_bytes (queued # rest) =
     (if length selected < cf_batch_requests config
      then
        (let next_records = usize_saturating_add records (length (pb_records (qp_batch queued)));
             next_payload_bytes = usize_saturating_add payload_bytes (payload_bytes_of (qp_batch queued))
         in if selected \<noteq> [] \<and> (next_records > cf_batch_records config \<or> next_payload_bytes > cf_batch_payload_bytes config)
            then (selected, queued # rest)
            else take_loop config (selected @ [queued]) next_records next_payload_bytes rest)
      else (selected, queued # rest))"

definition take_batch :: "QueuedPublish list \<Rightarrow> PublishSchedulerConfig \<Rightarrow> QueuedPublish list \<times> QueuedPublish list" where
  "take_batch pending config = take_loop config [] 0 0 pending"

definition release_all :: "QueuedPublish list \<Rightarrow> Admission \<Rightarrow> Admission" where
  "release_all qs a = fold (\<lambda>q. admission_release (qp_charge q)) qs a"

text \<open>\<open>discard_cancelled\<close> and the \<open>retain\<close> of \<open>submit_batch\<close> drop the requests nobody waits for.\<close>

definition discard_cancelled :: "waiter set \<Rightarrow> QueuedPublish list \<Rightarrow> Admission \<Rightarrow> QueuedPublish list \<times> Admission" where
  "discard_cancelled closed pending a =
     (filter (\<lambda>q. qp_reply q \<notin> closed) pending, release_all (filter (\<lambda>q. qp_reply q \<in> closed) pending) a)"

section \<open>Completion\<close>

definition complete_all :: "QueuedPublish list \<Rightarrow> DomainError \<Rightarrow> Admission \<Rightarrow> reply list \<times> Admission" where
  "complete_all completions error a = (map (\<lambda>q. (qp_reply q, Inl error)) completions, release_all completions a)"

definition complete_response ::
  "(ApplyResult \<Rightarrow> string) \<Rightarrow> QueuedPublish list \<Rightarrow> ApplyResult \<Rightarrow> Admission \<Rightarrow> reply list \<times> Admission" where
  "complete_response shown completions result a =
     (case result of
        PublishedMany outcomes \<Rightarrow>
          if length outcomes \<noteq> length completions \<or>
             (\<exists>(o1, q) \<in> set (zip outcomes completions). io_request o1 \<noteq> pb_request (qp_batch q))
          then complete_all completions (Storage ''publish batch returned mismatched outcomes'') a
          else (map (\<lambda>(q, o1). (qp_reply q, io_result o1)) (zip completions outcomes), release_all completions a)
      | other \<Rightarrow> complete_all completions (Storage (''unexpected publish apply result '' @ shown other)) a)"

definition ambiguous_commit :: "QueuedPublish \<Rightarrow> DomainError" where
  "ambiguous_commit q =
     QuorumUnavailable CG_Data AmbiguousCommit (Some (AmbiguousPublish (pb_request (qp_batch q))))"

definition reply_ambiguous :: "QueuedPublish list \<Rightarrow> reply list" where
  "reply_ambiguous completions = map (\<lambda>q. (qp_reply q, Inl (ambiguous_commit q))) completions"

text \<open>The errors of a client write of the consensus library.\<close>

datatype raft_write_error = ForwardToLeader "u64 option" | ChangeMembershipError string | FatalError string

definition map_write_error :: "(u64 \<Rightarrow> LeaderHint option) \<Rightarrow> raft_write_error \<Rightarrow> DomainError" where
  "map_write_error hints error =
     (case error of
        ForwardToLeader leader \<Rightarrow> NotLeader CG_Data (case leader of None \<Rightarrow> None | Some l \<Rightarrow> hints l)
      | ChangeMembershipError reason \<Rightarrow> Storage reason
      | FatalError reason \<Rightarrow> Storage reason)"

section \<open>The worker\<close>

datatype worker_phase = Collecting | Submitting | AwaitingWrite | AwaitingLateWrite | WorkerStopped

text \<open>
  \<open>wk_channel\<close> is the bounded channel between \<open>try_admit\<close> and the worker, \<open>wk_pending\<close> its queue and
  \<open>wk_inflight\<close> the requests \<open>submit_batch\<close> holds. \<open>wk_replies\<close> and \<open>wk_writes\<close> record what was sent to
  waiters and proposed to the group; \<open>wk_next\<close> numbers the reply channels.
\<close>

record worker =
  wk_admission :: Admission
  wk_channel :: "QueuedPublish list"
  wk_pending :: "QueuedPublish list"
  wk_inflight :: "QueuedPublish list"
  wk_phase :: worker_phase
  wk_closed :: "waiter set"
  wk_next :: waiter
  wk_replies :: "reply list"
  wk_writes :: "PublishBatch list list"

definition PublishScheduler_spawn :: "PublishSchedulerConfig \<Rightarrow> worker" where
  "PublishScheduler_spawn config =
     \<lparr>wk_admission = Admission_new config, wk_channel = [], wk_pending = [], wk_inflight = [], wk_phase = Collecting,
      wk_closed = {}, wk_next = 0, wk_replies = [], wk_writes = []\<rparr>"

definition try_admit :: "nat \<Rightarrow> PublishBatch \<Rightarrow> worker \<Rightarrow> worker \<times> waiter result" where
  "try_admit now batch wk =
     (case PublishCharge_for_batch batch of
        Inl e \<Rightarrow> (wk, Inl e)
      | Inr charge \<Rightarrow>
          (case admission_reserve (wk_admission wk) charge of
             (a, Inl e) \<Rightarrow> (wk\<lparr>wk_admission := a\<rparr>, Inl e)
           | (a, Inr _) \<Rightarrow>
               (let capacity = cf_queue_requests (am_config a);
                    queued = \<lparr>qp_admitted_at = now, qp_charge = charge, qp_batch = batch, qp_reply = wk_next wk\<rparr>
                in if wk_phase wk = WorkerStopped \<or> length (wk_channel wk) \<ge> capacity
                   then (wk\<lparr>wk_admission := admission_reject (admission_release charge a)\<rparr>,
                         Inl (PublishOverloaded ''publish queue requests'' (of_nat capacity)))
                   else (wk\<lparr>wk_admission := a, wk_channel := wk_channel wk @ [queued], wk_next := wk_next wk + 1\<rparr>,
                         Inr (wk_next wk)))))"

text \<open>One turn of the loop of \<open>run_worker\<close> after the queue was looked at, at the time \<open>now\<close>.\<close>

definition worker_turn :: "nat \<Rightarrow> worker \<Rightarrow> worker" where
  "worker_turn now wk =
     (let config = am_config (wk_admission wk);
          (pending, a) = discard_cancelled (wk_closed wk) (wk_pending wk) (wk_admission wk);
          wk = wk\<lparr>wk_pending := pending, wk_admission := a\<rparr>
      in case pending of
           [] \<Rightarrow> wk
         | oldest # _ \<Rightarrow>
             if \<not> batch_usage pending config \<and> now < qp_admitted_at oldest + cf_max_coalesce_delay config then wk
             else
               (let (selected, rest) = take_batch pending config
                in if selected = [] then wk\<lparr>wk_pending := rest\<rparr>
                   else wk\<lparr>wk_pending := rest, wk_inflight := selected, wk_phase := Submitting\<rparr>))"

text \<open>\<open>submit_batch\<close> up to the write: one \<open>retain\<close> (again after the verification delay), then the command.\<close>

definition submit_retain :: "worker \<Rightarrow> worker" where
  "submit_retain wk =
     (let (selected, a) = discard_cancelled (wk_closed wk) (wk_inflight wk) (wk_admission wk)
      in wk\<lparr>wk_inflight := selected, wk_admission := a, wk_phase := (if selected = [] then Collecting else Submitting)\<rparr>)"

definition submit_write :: "worker \<Rightarrow> worker" where
  "submit_write wk =
     (case ReplicatedPublishBatch_new (map qp_batch (wk_inflight wk)) of
        Inr batch \<Rightarrow> wk\<lparr>wk_phase := AwaitingWrite, wk_writes := wk_writes wk @ [batch]\<rparr>
      | Inl error \<Rightarrow>
          (let (replies, a) = complete_all (wk_inflight wk) error (wk_admission wk)
           in wk\<lparr>wk_inflight := [], wk_admission := a, wk_replies := wk_replies wk @ replies, wk_phase := Collecting\<rparr>))"

datatype write_outcome = Responded ApplyResult | WriteFailed raft_write_error | WriteTimedOut | WriteInterrupted

definition submit_finish ::
  "(ApplyResult \<Rightarrow> string) \<Rightarrow> (u64 \<Rightarrow> LeaderHint option) \<Rightarrow> write_outcome \<Rightarrow> worker \<Rightarrow> worker" where
  "submit_finish shown hints outcome wk =
     (let finish = (\<lambda>(replies, a).
            wk\<lparr>wk_inflight := [], wk_admission := a, wk_replies := wk_replies wk @ replies, wk_phase := Collecting\<rparr>)
      in case outcome of
           Responded result \<Rightarrow> finish (complete_response shown (wk_inflight wk) result (wk_admission wk))
         | WriteFailed error \<Rightarrow> finish (complete_all (wk_inflight wk) (map_write_error hints error) (wk_admission wk))
         | WriteTimedOut \<Rightarrow>
             wk\<lparr>wk_replies := wk_replies wk @ reply_ambiguous (wk_inflight wk), wk_phase := AwaitingLateWrite\<rparr>
         | WriteInterrupted \<Rightarrow>
             finish (reply_ambiguous (wk_inflight wk), release_all (wk_inflight wk) (wk_admission wk)))"

text \<open>After a timeout the charges are kept until the write ends or the scheduler shuts down.\<close>

definition submit_late :: "worker \<Rightarrow> worker" where
  "submit_late wk =
     wk\<lparr>wk_inflight := [], wk_admission := release_all (wk_inflight wk) (wk_admission wk), wk_phase := Collecting\<rparr>"

text \<open>The end of \<open>run_worker\<close>.\<close>

definition worker_drain :: "worker \<Rightarrow> worker" where
  "worker_drain wk =
     (let left = wk_pending wk @ wk_channel wk
      in wk\<lparr>wk_admission := release_all left (admission_close (wk_admission wk)),
            wk_replies := wk_replies wk @ map (\<lambda>q. (qp_reply q, Inl ClusterForming)) left,
            wk_pending := [], wk_channel := [], wk_phase := WorkerStopped\<rparr>)"

datatype worker_event =
    Admit nat PublishBatch
  | GiveUp waiter
  | Receive
  | Turn nat
  | Retain
  | Write
  | Finish write_outcome
  | LateWrite
  | Close
  | Drain

inductive worker_step ::
  "(ApplyResult \<Rightarrow> string) \<Rightarrow> (u64 \<Rightarrow> LeaderHint option) \<Rightarrow> worker \<Rightarrow> worker_event \<Rightarrow> worker \<Rightarrow> bool" for shown hints where
  admit_step: "batch_valid batch \<Longrightarrow> worker_step shown hints wk (Admit now batch) (fst (try_admit now batch wk))"
| give_up_step: "worker_step shown hints wk (GiveUp w) (wk\<lparr>wk_closed := insert w (wk_closed wk)\<rparr>)"
| receive_step: "wk_phase wk = Collecting \<Longrightarrow> wk_channel wk = q # qs \<Longrightarrow>
    worker_step shown hints wk Receive (wk\<lparr>wk_channel := qs, wk_pending := wk_pending wk @ [q]\<rparr>)"
| turn_step: "wk_phase wk = Collecting \<Longrightarrow> worker_step shown hints wk (Turn now) (worker_turn now wk)"
| retain_step: "wk_phase wk = Submitting \<Longrightarrow> worker_step shown hints wk Retain (submit_retain wk)"
| write_step: "wk_phase wk = Submitting \<Longrightarrow> worker_step shown hints wk Write (submit_write wk)"
| finish_step: "wk_phase wk = AwaitingWrite \<Longrightarrow> worker_step shown hints wk (Finish outcome) (submit_finish shown hints outcome wk)"
| late_step: "wk_phase wk = AwaitingLateWrite \<Longrightarrow> worker_step shown hints wk LateWrite (submit_late wk)"
| close_step: "worker_step shown hints wk Close (wk\<lparr>wk_admission := admission_close (wk_admission wk)\<rparr>)"
| drain_step: "wk_phase wk = Collecting \<Longrightarrow> worker_step shown hints wk Drain (worker_drain wk)"

inductive_simps worker_step_simps:
  "worker_step shown hints wk (Admit now batch) wk'" "worker_step shown hints wk Receive wk'"
  "worker_step shown hints wk (Turn now) wk'" "worker_step shown hints wk Write wk'"
  "worker_step shown hints wk (Finish outcome) wk'"

section \<open>What a valid request costs\<close>

abbreviation record_count :: "QueuedPublish \<Rightarrow> nat" where
  "record_count q \<equiv> length (pb_records (qp_batch q))"

abbreviation request_bytes :: "QueuedPublish \<Rightarrow> nat" where
  "request_bytes q \<equiv> payload_bytes_of (qp_batch q)"

lemma validate_loop_sum:
  "validate_loop acc rs = Inr n \<Longrightarrow> n = acc + sum_list (map length rs) \<and> n < max (acc + 1) (2 ^ 64)"
  by (induction rs arbitrary: acc) (auto simp: bind_result_Inr usize_checked_add_def split: if_splits, fastforce+)

lemma batch_valid_bounds:
  assumes "batch_valid b"
  shows "pb_records b \<noteq> []" "length (pb_records b) \<le> MAX_RECORDS_PER_PUBLISH" "payload_bytes_of b \<le> MAX_PUBLISH_BYTES"
  using assms validate_loop_sum [of 0 "pb_records b"]
  by (auto simp: batch_valid_def validate_records_def bind_result_Inr payload_bytes_of_def split: if_splits)

lemma try_sum_Some: "acc + sum_list (map length rs) < 2 ^ 64 \<Longrightarrow> try_sum acc rs = Some (acc + sum_list (map length rs))"
  by (induction rs arbitrary: acc) (simp_all add: usize_checked_add_def add.assoc)

lemma charge_valid:
  assumes "batch_valid b"
  shows "\<exists>charge. PublishCharge_for_batch b = Inr charge \<and> ch_records charge = length (pb_records b) \<and>
    ch_resident_bytes charge \<le> MAX_PUBLISH_BYTES + MAX_RECORDS_PER_PUBLISH * RECORD_OVERHEAD_BYTES + REQUEST_OVERHEAD_BYTES"
proof -
  note b = batch_valid_bounds [OF assms]
  have "try_sum 0 (pb_records b) = Some (payload_bytes_of b)"
    using b(3) try_sum_Some [of 0 "pb_records b"] by (simp add: payload_bytes_of_def MAX_PUBLISH_BYTES_def)
  then show ?thesis
    using b(2,3)
    by (simp add: PublishCharge_for_batch_def usize_checked_mul_def usize_checked_add_def RECORD_OVERHEAD_BYTES_def
        REQUEST_OVERHEAD_BYTES_def MAX_PUBLISH_BYTES_def MAX_RECORDS_PER_PUBLISH_def)
qed

lemma replicated_loop_sum:
  "records + sum_list (map (\<lambda>b. length (pb_records b)) bs) < 2 ^ 64 \<Longrightarrow> payload + sum_list (map payload_bytes_of bs) < 2 ^ 64 \<Longrightarrow>
    replicated_loop records payload bs =
      Inr (records + sum_list (map (\<lambda>b. length (pb_records b)) bs), payload + sum_list (map payload_bytes_of bs))"
  by (induction bs arbitrary: records payload) (simp_all add: usize_checked_add_def add.assoc)

section \<open>Selection\<close>

definition fits_command :: "QueuedPublish list \<Rightarrow> bool" where
  "fits_command qs \<longleftrightarrow> length qs \<le> MAX_REQUESTS_PER_REPLICATED_PUBLISH \<and>
     sum_list (map record_count qs) \<le> MAX_RECORDS_PER_REPLICATED_PUBLISH \<and>
     sum_list (map request_bytes qs) \<le> MAX_REPLICATED_PUBLISH_BYTES"

lemma fits_accepted:
  assumes "fits_command qs" "qs \<noteq> []"
  shows "ReplicatedPublishBatch_new (map qp_batch qs) = Inr (map qp_batch qs)"
  using assms replicated_loop_sum [of 0 "map qp_batch qs" 0]
  by (simp add: fits_command_def ReplicatedPublishBatch_new_def MAX_RECORDS_PER_REPLICATED_PUBLISH_def
      MAX_REPLICATED_PUBLISH_BYTES_def comp_def)

lemma sum_list_filter_le: "sum_list (map f (filter P xs)) \<le> sum_list (map f xs)" for f :: "'a \<Rightarrow> nat"
  by (induction xs) auto

lemma fits_filter: "fits_command qs \<Longrightarrow> fits_command (filter P qs)"
  unfolding fits_command_def using sum_list_filter_le [of record_count P qs] sum_list_filter_le [of request_bytes P qs]
  by (auto intro: order_trans [OF length_filter_le])

text \<open>What \<open>try_new\<close> accepts.\<close>

definition config_ok :: "PublishSchedulerConfig \<Rightarrow> bool" where
  "config_ok c \<longleftrightarrow> 0 < cf_batch_requests c \<and> cf_batch_requests c \<le> MAX_REQUESTS_PER_REPLICATED_PUBLISH \<and>
     MAX_RECORDS_PER_PUBLISH \<le> cf_batch_records c \<and> cf_batch_records c \<le> MAX_RECORDS_PER_REPLICATED_PUBLISH \<and>
     MAX_PUBLISH_BYTES \<le> cf_batch_payload_bytes c \<and> cf_batch_payload_bytes c \<le> MAX_REPLICATED_PUBLISH_BYTES \<and>
     cf_batch_requests c \<le> cf_queue_requests c \<and> cf_batch_records c \<le> cf_queue_records c \<and>
     MAX_PUBLISH_BYTES + MAX_RECORDS_PER_PUBLISH * RECORD_OVERHEAD_BYTES + REQUEST_OVERHEAD_BYTES \<le> cf_queue_resident_bytes c"

lemma try_new_config: "PublishSchedulerConfig_try_new qr qc qb br bc bb delay = Inr c \<Longrightarrow> config_ok c"
  by (auto simp: PublishSchedulerConfig_try_new_def Let_def config_ok_def usize_saturating_add_def usize_saturating_mul_def
      USIZE_MAX_def MAX_PUBLISH_BYTES_def MAX_RECORDS_PER_PUBLISH_def RECORD_OVERHEAD_BYTES_def REQUEST_OVERHEAD_BYTES_def
      split: if_splits)

lemma default_config: "config_ok PublishSchedulerConfig_default"
  by (simp add: config_ok_def PublishSchedulerConfig_default_def MAX_PUBLISH_BYTES_def MAX_RECORDS_PER_PUBLISH_def
      RECORD_OVERHEAD_BYTES_def REQUEST_OVERHEAD_BYTES_def MAX_REQUESTS_PER_REPLICATED_PUBLISH_def
      MAX_RECORDS_PER_REPLICATED_PUBLISH_def MAX_REPLICATED_PUBLISH_BYTES_def)

lemma take_loop_fits:
  assumes "take_loop c sel (sum_list (map record_count sel)) (sum_list (map request_bytes sel)) qs = (sel', rest)"
    and "config_ok c" "fits_command sel" "\<forall>q \<in> set qs. batch_valid (qp_batch q)"
  shows "sel' @ rest = sel @ qs \<and> fits_command sel' \<and> (sel \<noteq> [] \<or> qs \<noteq> [] \<longrightarrow> sel' \<noteq> [])"
  using assms
proof (induction qs arbitrary: sel)
  case (Cons q qs)
  note b = batch_valid_bounds [of "qp_batch q"]
  let ?r = "sum_list (map record_count sel) + record_count q" and ?p = "sum_list (map request_bytes sel) + request_bytes q"
  show ?case
  proof (cases "length sel < cf_batch_requests c \<and> (sel = [] \<or> ?r \<le> cf_batch_records c \<and> ?p \<le> cf_batch_payload_bytes c)")
    case True
    have lim: "?r \<le> cf_batch_records c" "?p \<le> cf_batch_payload_bytes c"
      using True b(2,3) Cons.prems(2,4) by (auto simp: config_ok_def)
    then have sat: "usize_saturating_add (sum_list (map record_count sel)) (record_count q) = ?r"
      "usize_saturating_add (sum_list (map request_bytes sel)) (request_bytes q) = ?p"
      using Cons.prems(2) by (simp_all add: usize_saturating_add_def config_ok_def USIZE_MAX_def MAX_RECORDS_PER_REPLICATED_PUBLISH_def
          MAX_REPLICATED_PUBLISH_BYTES_def)
    have fit: "fits_command (sel @ [q])"
      using lim True Cons.prems(2) by (simp add: fits_command_def config_ok_def)
    have "take_loop c (sel @ [q]) (sum_list (map record_count (sel @ [q]))) (sum_list (map request_bytes (sel @ [q]))) qs = (sel', rest)"
      using Cons.prems(1) True lim by (simp add: sat Let_def)
    from Cons.IH [OF this Cons.prems(2) fit] Cons.prems(4) show ?thesis by auto
  next
    case False
    have big: "usize_saturating_add a d > n \<longleftrightarrow> a + d > n" if "n < USIZE_MAX" for a d n
      using that by (auto simp: usize_saturating_add_def)
    have "cf_batch_records c < USIZE_MAX" "cf_batch_payload_bytes c < USIZE_MAX"
      using Cons.prems(2) by (simp_all add: config_ok_def USIZE_MAX_def MAX_RECORDS_PER_REPLICATED_PUBLISH_def MAX_REPLICATED_PUBLISH_BYTES_def)
    then have "sel' = sel \<and> rest = q # qs" "sel \<noteq> []"
      using Cons.prems(1,2) False by (auto simp: Let_def big config_ok_def split: if_splits)
    with Cons.prems(3) show ?thesis by simp
  qed
qed auto

lemma take_batch_fits:
  assumes "take_batch pending c = (selected, rest)" "config_ok c" "\<forall>q \<in> set pending. batch_valid (qp_batch q)"
  shows "selected @ rest = pending" "fits_command selected" "pending \<noteq> [] \<Longrightarrow> selected \<noteq> []"
  using take_loop_fits [of c "[]" pending selected rest] assms by (simp_all add: take_batch_def fits_command_def)

section \<open>Accounting\<close>

definition counts :: "Admission \<Rightarrow> QueuedPublish list \<Rightarrow> bool" where
  "counts a qs \<longleftrightarrow> au_requests (am_usage a) = length qs \<and>
     au_records (am_usage a) = sum_list (map (ch_records \<circ> qp_charge) qs) \<and>
     au_resident_bytes (am_usage a) = sum_list (map (ch_resident_bytes \<circ> qp_charge) qs)"

definition within_limits :: "Admission \<Rightarrow> bool" where
  "within_limits a \<longleftrightarrow> au_requests (am_usage a) \<le> cf_queue_requests (am_config a) \<and>
     au_records (am_usage a) \<le> cf_queue_records (am_config a) \<and>
     au_resident_bytes (am_usage a) \<le> cf_queue_resident_bytes (am_config a)"

definition limits_open :: "PublishSchedulerConfig \<Rightarrow> bool" where
  "limits_open c \<longleftrightarrow> cf_queue_requests c < USIZE_MAX \<and> cf_queue_records c < USIZE_MAX \<and> cf_queue_resident_bytes c < USIZE_MAX"

lemma counts_mset: "mset qs = mset qs' \<Longrightarrow> counts a qs = counts a qs'"
  unfolding counts_def by (metis mset_map size_mset sum_mset_sum_list)

lemma release_counts:
  "counts a (q # qs) \<Longrightarrow> counts (admission_release (qp_charge q) a) qs"
  by (simp add: counts_def admission_release_def Let_def)

lemma release_frame [simp]:
  "am_config (admission_release ch a) = am_config a"
  "au_accepting (am_usage (admission_release ch a)) = au_accepting (am_usage a)"
  by (simp_all add: admission_release_def Let_def)

lemma release_limits: "within_limits a \<Longrightarrow> within_limits (admission_release ch a)"
  by (auto simp: within_limits_def admission_release_def Let_def)

lemma release_all_counts: "counts a (qs @ rest) \<Longrightarrow> counts (release_all qs a) rest"
  unfolding release_all_def by (induction qs arbitrary: a) (auto dest: release_counts)

lemma release_all_frame [simp]:
  "am_config (release_all qs a) = am_config a" "au_accepting (am_usage (release_all qs a)) = au_accepting (am_usage a)"
  "within_limits a \<Longrightarrow> within_limits (release_all qs a)"
  unfolding release_all_def by (induction qs arbitrary: a) (simp_all add: release_limits)

lemma release_all_counts_mset: "counts a ps \<Longrightarrow> mset ps = mset (qs @ rest) \<Longrightarrow> counts (release_all qs a) rest"
  by (rule release_all_counts) (simp add: counts_mset [of "qs @ rest" ps])

lemma reject_frame [simp]:
  "am_config (admission_reject a) = am_config a" "counts (admission_reject a) qs = counts a qs"
  "within_limits (admission_reject a) = within_limits a"
  by (simp_all add: admission_reject_def counts_def within_limits_def)

lemma close_frame [simp]:
  "am_config (admission_close a) = am_config a" "counts (admission_close a) qs = counts a qs"
  "within_limits (admission_close a) = within_limits a" "\<not> au_accepting (am_usage (admission_close a))"
  by (simp_all add: admission_close_def counts_def within_limits_def)

lemma reserve_counts:
  assumes "admission_reserve a charge = (a', Inr u)" "counts a qs" "limits_open (am_config a)" "qp_charge q = charge"
  shows "counts a' (qs @ [q])" "within_limits a'" "am_config a' = am_config a"
proof -
  have small: "\<not> usize_saturating_add x y > n \<Longrightarrow> n < USIZE_MAX \<Longrightarrow> usize_saturating_add x y = x + y \<and> x + y \<le> n" for x y n
    by (auto simp: usize_saturating_add_def)
  let ?u = "am_usage a" and ?c = "am_config a"
  have lim: "\<not> usize_saturating_add (au_requests ?u) 1 > cf_queue_requests ?c"
    "\<not> usize_saturating_add (au_records ?u) (ch_records charge) > cf_queue_records ?c"
    "\<not> usize_saturating_add (au_resident_bytes ?u) (ch_resident_bytes charge) > cf_queue_resident_bytes ?c"
    and a': "a' = a\<lparr>am_usage := ?u\<lparr>au_requests := usize_saturating_add (au_requests ?u) 1,
      au_records := usize_saturating_add (au_records ?u) (ch_records charge),
      au_resident_bytes := usize_saturating_add (au_resident_bytes ?u) (ch_resident_bytes charge)\<rparr>\<rparr>"
    using assms(1) by (auto simp: admission_reserve_def Let_def split: if_splits option.splits)
  note s = small [OF lim(1)] small [OF lim(2)] small [OF lim(3)]
  show "counts a' (qs @ [q])" "within_limits a'" "am_config a' = am_config a"
    using assms(2-4) s by (simp_all add: a' counts_def within_limits_def limits_open_def)
qed

lemma reserve_refused:
  assumes "admission_reserve a charge = (a', Inl e)"
  shows "counts a' qs = counts a qs" "within_limits a' = within_limits a" "am_config a' = am_config a"
  using assms by (auto simp: admission_reserve_def Let_def split: if_splits option.splits)

section \<open>The invariant of the scheduler\<close>

definition outstanding :: "worker \<Rightarrow> QueuedPublish list" where
  "outstanding wk = wk_inflight wk @ wk_pending wk @ wk_channel wk"

text \<open>The requests nobody has answered yet.\<close>

definition unanswered :: "worker \<Rightarrow> QueuedPublish list" where
  "unanswered wk = (if wk_phase wk = AwaitingLateWrite then [] else wk_inflight wk) @ wk_pending wk @ wk_channel wk"

definition answered :: "worker \<Rightarrow> waiter list" where
  "answered wk = map fst (wk_replies wk)"

definition tracked :: "waiter list \<Rightarrow> QueuedPublish list \<Rightarrow> waiter set \<Rightarrow> waiter \<Rightarrow> bool" where
  "tracked ans un closed n \<longleftrightarrow> distinct (ans @ map qp_reply un) \<and> set ans \<union> qp_reply ` set un \<subseteq> {..<n} \<and>
     {..<n} \<subseteq> set ans \<union> qp_reply ` set un \<union> closed"

lemma tracked_perm:
  assumes "tracked ans un closed n" "mset un = mset un'"
  shows "tracked ans un' closed n"
proof -
  have s: "set un' = set un" using assms(2) by (metis set_mset_mset)
  moreover have "distinct (map qp_reply un) = distinct (map qp_reply un')"
    using assms(2) by (metis mset_eq_imp_distinct_iff mset_map)
  ultimately show ?thesis using assms(1) by (simp add: tracked_def)
qed

lemma tracked_drop:
  assumes "tracked ans (xs @ ys) closed n"
  shows "tracked ans (filter (\<lambda>q. qp_reply q \<notin> closed) xs @ ys) closed n"
proof -
  have "distinct (map qp_reply (filter (\<lambda>q. qp_reply q \<notin> closed) xs))"
    using assms by (simp add: tracked_def distinct_map_filter)
  with assms show ?thesis by (auto simp: tracked_def)
qed

lemma tracked_answer: "tracked ans (xs @ ys) closed n \<Longrightarrow> tracked (ans @ map qp_reply xs) ys closed n"
  by (auto simp: tracked_def)

lemma tracked_new: "tracked ans un closed n \<Longrightarrow> qp_reply q = n \<Longrightarrow> tracked ans (un @ [q]) closed (Suc n)"
  by (auto simp: tracked_def lessThan_Suc)

lemma tracked_close: "tracked ans un closed n \<Longrightarrow> tracked ans un (insert w closed) n"
  by (auto simp: tracked_def)

definition scheduler_ok :: "PublishSchedulerConfig \<Rightarrow> worker \<Rightarrow> bool" where
  "scheduler_ok c wk \<longleftrightarrow>
     am_config (wk_admission wk) = c \<and> counts (wk_admission wk) (outstanding wk) \<and> within_limits (wk_admission wk) \<and>
     (\<forall>q \<in> set (outstanding wk). batch_valid (qp_batch q)) \<and> fits_command (wk_inflight wk) \<and>
     (wk_inflight wk = [] \<longleftrightarrow> wk_phase wk = Collecting \<or> wk_phase wk = WorkerStopped) \<and>
     (wk_phase wk = WorkerStopped \<longrightarrow> outstanding wk = [] \<and> \<not> au_accepting (am_usage (wk_admission wk))) \<and>
     tracked (answered wk) (unanswered wk) (wk_closed wk) (wk_next wk) \<and>
     (\<forall>b \<in> set (wk_writes wk). ReplicatedPublishBatch_new b = Inr b) \<and>
     (wk_phase wk = AwaitingWrite \<longrightarrow> wk_writes wk \<noteq> [] \<and> last (wk_writes wk) = map qp_batch (wk_inflight wk))"

lemma scheduler_okD:
  assumes "scheduler_ok c wk"
  shows "am_config (wk_admission wk) = c" "counts (wk_admission wk) (wk_inflight wk @ wk_pending wk @ wk_channel wk)"
    "within_limits (wk_admission wk)"
    "\<forall>q \<in> set (wk_inflight wk) \<union> set (wk_pending wk) \<union> set (wk_channel wk). batch_valid (qp_batch q)"
    "fits_command (wk_inflight wk)" "wk_inflight wk = [] \<longleftrightarrow> wk_phase wk = Collecting \<or> wk_phase wk = WorkerStopped"
    "tracked (answered wk) (unanswered wk) (wk_closed wk) (wk_next wk)"
    "\<forall>b \<in> set (wk_writes wk). ReplicatedPublishBatch_new b = Inr b"
  using assms by (auto simp: scheduler_ok_def outstanding_def)

section \<open>Every step keeps it\<close>

lemma spawn_ok: "scheduler_ok c (PublishScheduler_spawn c)"
  by (simp add: scheduler_ok_def PublishScheduler_spawn_def Admission_new_def counts_def within_limits_def outstanding_def
      unanswered_def answered_def tracked_def fits_command_def)

lemma try_admit_ok:
  assumes ok: "scheduler_ok c wk" and open_: "limits_open c" and valid: "batch_valid batch"
  shows "scheduler_ok c (fst (try_admit now batch wk))"
proof -
  note D = scheduler_okD [OF ok]
  obtain charge where ch: "PublishCharge_for_batch batch = Inr charge" using charge_valid [OF valid] by blast
  obtain a r where res: "admission_reserve (wk_admission wk) charge = (a, r)" by fastforce
  let ?q = "\<lparr>qp_admitted_at = now, qp_charge = charge, qp_batch = batch, qp_reply = wk_next wk\<rparr>"
  show ?thesis
  proof (cases r)
    case (Inl e)
    have acc: "au_accepting (am_usage a) = au_accepting (am_usage (wk_admission wk))"
      using res by (auto simp: admission_reserve_def Let_def admission_reject_def split: if_splits option.splits)
    show ?thesis
      using ok reserve_refused [OF res [unfolded Inl]] res Inl ch acc
      by (auto simp: try_admit_def scheduler_ok_def outstanding_def unanswered_def answered_def)
  next
    case (Inr u)
    have o: "limits_open (am_config (wk_admission wk))" using D(1) open_ by simp
    note R = reserve_counts [OF res [unfolded Inr] D(2) o, of ?q]
    have run: "wk_phase wk \<noteq> WorkerStopped"
      using ok res Inr by (auto simp: scheduler_ok_def admission_reserve_def)
    show ?thesis
    proof (cases "length (wk_channel wk) \<ge> cf_queue_requests (am_config a)")
      case True
      have "counts a (?q # outstanding wk)" using R(1) counts_mset [of "?q # outstanding wk" "outstanding wk @ [?q]"] by (simp add: outstanding_def)
      from release_counts [OF this] have "counts (admission_release charge a) (outstanding wk)" by simp
      with ok R(2,3) True res Inr ch run show ?thesis
        by (auto simp: try_admit_def scheduler_ok_def outstanding_def unanswered_def answered_def release_limits)
    next
      case False
      with ok R res Inr ch run valid tracked_new [OF D(7), of ?q] show ?thesis
        by (auto simp: try_admit_def scheduler_ok_def outstanding_def unanswered_def answered_def)
    qed
  qed
qed

lemma discard_ok:
  assumes ok: "scheduler_ok c wk" and d: "discard_cancelled (wk_closed wk) (wk_pending wk) (wk_admission wk) = (pending, a)"
    and col: "wk_phase wk = Collecting"
  shows "scheduler_ok c (wk\<lparr>wk_pending := pending, wk_admission := a\<rparr>)"
proof -
  note D = scheduler_okD [OF ok]
  have p: "pending = filter (\<lambda>q. qp_reply q \<notin> wk_closed wk) (wk_pending wk)"
    "a = release_all (filter (\<lambda>q. qp_reply q \<in> wk_closed wk) (wk_pending wk)) (wk_admission wk)"
    using d by (auto simp: discard_cancelled_def)
  have inf: "wk_inflight wk = []" using D(6) col by simp
  have "mset (wk_pending wk @ wk_channel wk) =
      mset (filter (\<lambda>q. qp_reply q \<in> wk_closed wk) (wk_pending wk) @ pending @ wk_channel wk)"
    by (simp add: p(1))
  from release_all_counts_mset [OF _ this] have cnt: "counts a (pending @ wk_channel wk)" using D(2) inf p(2) by simp
  have "tracked (answered wk) (pending @ wk_channel wk) (wk_closed wk) (wk_next wk)"
    using inf col tracked_drop [of "answered wk" "wk_pending wk"] D(7) by (simp add: unanswered_def p(1))
  with ok cnt inf col show ?thesis
    by (auto simp: scheduler_ok_def outstanding_def unanswered_def answered_def p)
qed

lemma worker_turn_ok:
  assumes ok: "scheduler_ok c wk" and col: "wk_phase wk = Collecting" and cfg: "config_ok c"
  shows "scheduler_ok c (worker_turn now wk)"
proof -
  obtain pending a where d: "discard_cancelled (wk_closed wk) (wk_pending wk) (wk_admission wk) = (pending, a)" by fastforce
  let ?wk = "wk\<lparr>wk_pending := pending, wk_admission := a\<rparr>"
  note ok' = discard_ok [OF ok d col]
  note D = scheduler_okD [OF ok']
  obtain selected rest where t: "take_batch pending c = (selected, rest)" by fastforce
  have v: "\<forall>q \<in> set pending. batch_valid (qp_batch q)" using D(4) by auto
  note T = take_batch_fits [OF t cfg v]
  have "scheduler_ok c (?wk\<lparr>wk_pending := rest, wk_inflight := selected, wk_phase := Submitting\<rparr>)" if "pending \<noteq> []"
    using ok' T(2) T(3) [OF that] col T(1) D(6)
    by (auto simp: scheduler_ok_def outstanding_def unanswered_def answered_def)
  with ok' d t T(3) scheduler_okD(1) [OF ok] show ?thesis
    by (auto simp: worker_turn_def Let_def split: list.splits if_splits)
qed

lemma submit_retain_ok:
  assumes ok: "scheduler_ok c wk" and sub: "wk_phase wk = Submitting"
  shows "scheduler_ok c (submit_retain wk)"
proof -
  note D = scheduler_okD [OF ok]
  let ?keep = "filter (\<lambda>q. qp_reply q \<notin> wk_closed wk) (wk_inflight wk)"
  let ?a = "release_all (filter (\<lambda>q. qp_reply q \<in> wk_closed wk) (wk_inflight wk)) (wk_admission wk)"
  have "mset (wk_inflight wk @ wk_pending wk @ wk_channel wk) =
      mset (filter (\<lambda>q. qp_reply q \<in> wk_closed wk) (wk_inflight wk) @ ?keep @ wk_pending wk @ wk_channel wk)" by simp
  from release_all_counts_mset [OF D(2) this] have cnt: "counts ?a (?keep @ wk_pending wk @ wk_channel wk)" .
  have trk: "tracked (answered wk) (?keep @ wk_pending wk @ wk_channel wk) (wk_closed wk) (wk_next wk)"
    using sub tracked_drop [of "answered wk" "wk_inflight wk"] D(7) by (simp add: unanswered_def)
  have run: "submit_retain wk = wk\<lparr>wk_inflight := ?keep, wk_admission := ?a,
      wk_phase := (if ?keep = [] then Collecting else Submitting)\<rparr>"
    by (simp add: submit_retain_def discard_cancelled_def)
  show ?thesis
    unfolding run using ok cnt trk fits_filter [OF D(5)]
    by (auto simp: scheduler_ok_def outstanding_def unanswered_def answered_def)
qed

text \<open>Ending a submission with replies to all its waiters.\<close>

lemma end_submission:
  assumes ok: "scheduler_ok c wk" and "wk_phase wk = Submitting \<or> wk_phase wk = AwaitingWrite"
    and "map fst replies = map qp_reply (wk_inflight wk)"
  shows "scheduler_ok c (wk\<lparr>wk_inflight := [], wk_admission := release_all (wk_inflight wk) (wk_admission wk),
    wk_replies := wk_replies wk @ replies, wk_phase := Collecting\<rparr>)"
proof -
  note D = scheduler_okD [OF ok]
  have "counts (release_all (wk_inflight wk) (wk_admission wk)) (wk_pending wk @ wk_channel wk)"
    by (rule release_all_counts [OF D(2)])
  moreover have "tracked (answered wk @ map fst replies) (wk_pending wk @ wk_channel wk) (wk_closed wk) (wk_next wk)"
    using tracked_answer [of "answered wk" "wk_inflight wk"] D(7) assms(2,3) by (auto simp: unanswered_def)
  ultimately show ?thesis
    using ok by (auto simp: scheduler_ok_def outstanding_def unanswered_def answered_def fits_command_def)
qed

lemma submit_write_ok:
  assumes ok: "scheduler_ok c wk" and sub: "wk_phase wk = Submitting"
  shows "scheduler_ok c (submit_write wk)"
proof -
  note D = scheduler_okD [OF ok]
  have acc: "ReplicatedPublishBatch_new (map qp_batch (wk_inflight wk)) = Inr (map qp_batch (wk_inflight wk))"
    using D(5,6) sub by (intro fits_accepted) auto
  with ok sub show ?thesis
    by (auto simp: submit_write_def scheduler_ok_def outstanding_def unanswered_def answered_def)
qed

lemma complete_response_shape:
  "\<exists>replies. complete_response shown qs result a = (replies, release_all qs a) \<and> map fst replies = map qp_reply qs"
proof -
  have "map fst (map (\<lambda>(q, o1). (qp_reply q, io_result o1)) (zip qs outcomes)) = map qp_reply qs"
    if "length outcomes = length qs" for outcomes
    using that by (induction outcomes qs rule: list_induct2) simp_all
  then show ?thesis by (auto simp: complete_response_def complete_all_def comp_def split: ApplyResult.splits)
qed

lemma submit_finish_ok:
  assumes ok: "scheduler_ok c wk" and aw: "wk_phase wk = AwaitingWrite"
  shows "scheduler_ok c (submit_finish shown hints outcome wk)"
proof (cases outcome)
  case (Responded result)
  obtain replies where "complete_response shown (wk_inflight wk) result (wk_admission wk) =
      (replies, release_all (wk_inflight wk) (wk_admission wk))" "map fst replies = map qp_reply (wk_inflight wk)"
    using complete_response_shape by blast
  with end_submission [OF ok] aw Responded show ?thesis by (simp add: submit_finish_def)
next
  case (WriteFailed e)
  with end_submission [OF ok] aw show ?thesis by (simp add: submit_finish_def complete_all_def comp_def)
next
  case WriteTimedOut
  note D = scheduler_okD [OF ok]
  have "tracked (answered wk @ map qp_reply (wk_inflight wk)) (wk_pending wk @ wk_channel wk) (wk_closed wk) (wk_next wk)"
    using tracked_answer [of "answered wk" "wk_inflight wk"] D(7) aw by (simp add: unanswered_def)
  with ok WriteTimedOut aw show ?thesis
    by (auto simp: submit_finish_def scheduler_ok_def outstanding_def unanswered_def answered_def reply_ambiguous_def comp_def)
next
  case WriteInterrupted
  with end_submission [OF ok] aw show ?thesis by (simp add: submit_finish_def reply_ambiguous_def comp_def)
qed

lemma submit_late_ok:
  assumes ok: "scheduler_ok c wk" and aw: "wk_phase wk = AwaitingLateWrite"
  shows "scheduler_ok c (submit_late wk)"
  using ok aw release_all_counts [OF scheduler_okD(2) [OF ok]]
  by (auto simp: submit_late_def scheduler_ok_def outstanding_def unanswered_def answered_def fits_command_def)

lemma worker_drain_ok:
  assumes ok: "scheduler_ok c wk" and col: "wk_phase wk = Collecting"
  shows "scheduler_ok c (worker_drain wk)"
proof -
  note D = scheduler_okD [OF ok]
  have inf: "wk_inflight wk = []" using D(6) col by simp
  let ?a = "release_all (wk_pending wk @ wk_channel wk) (admission_close (wk_admission wk))"
  have "counts ?a []" by (rule release_all_counts) (use D(2) inf in simp)
  moreover have "tracked (answered wk @ map qp_reply (wk_pending wk @ wk_channel wk)) [] (wk_closed wk) (wk_next wk)"
    using tracked_answer [of "answered wk" "wk_pending wk @ wk_channel wk" "[]"] D(7) col inf by (simp add: unanswered_def)
  ultimately show ?thesis
    using ok inf by (simp add: worker_drain_def scheduler_ok_def outstanding_def unanswered_def answered_def comp_def)
qed

lemma worker_step_ok:
  assumes "worker_step shown hints wk e wk'" "scheduler_ok c wk" "config_ok c" "limits_open c"
  shows "scheduler_ok c wk'"
  using assms(1)
proof cases
  case give_up_step
  with assms(2) show ?thesis
    by (auto simp: scheduler_ok_def outstanding_def unanswered_def answered_def tracked_close split: if_splits)
next
  case (receive_step q qs)
  with assms(2) show ?thesis by (auto simp: scheduler_ok_def outstanding_def unanswered_def answered_def)
next
  case close_step
  with assms(2) show ?thesis
    by (auto simp: scheduler_ok_def outstanding_def unanswered_def answered_def)
qed (use assms(2-4) in \<open>simp_all add: try_admit_ok worker_turn_ok submit_retain_ok submit_write_ok submit_finish_ok submit_late_ok
    worker_drain_ok\<close>)

interpretation sched: keeps_invariant "worker_step shown hints" "\<lambda>wk. scheduler_ok c wk \<and> config_ok c \<and> limits_open c"
  for shown hints c
  by unfold_locales (auto intro: worker_step_ok)

section \<open>Properties\<close>

text \<open>
  C39. The scheduler never leaks or over-commits its queue: in every state its configuration and any
  interleaving of admissions, cancellations, batches, timeouts and shutdown lead to, the admission counters
  are exactly the requests, records and resident bytes of the requests that are still held, they are within
  the configured limits, and they are zero when nothing is held. An admission and the final drain are one
  step each.
\<close>

theorem scheduler_counts_exact:
  assumes "PublishSchedulerConfig_try_new qr qc qb br bc bb delay = Inr c" "limits_open c"
    and "runs (worker_step shown hints) (PublishScheduler_spawn c) es wk"
  shows "au_requests (am_usage (wk_admission wk)) = length (outstanding wk) \<and>
    au_records (am_usage (wk_admission wk)) = sum_list (map (ch_records \<circ> qp_charge) (outstanding wk)) \<and>
    au_resident_bytes (am_usage (wk_admission wk)) = sum_list (map (ch_resident_bytes \<circ> qp_charge) (outstanding wk)) \<and>
    au_requests (am_usage (wk_admission wk)) \<le> qr \<and> au_records (am_usage (wk_admission wk)) \<le> qc \<and>
    au_resident_bytes (am_usage (wk_admission wk)) \<le> qb \<and>
    (wk_phase wk = WorkerStopped \<longrightarrow> outstanding wk = [])"
proof -
  have c: "cf_queue_requests c = qr" "cf_queue_records c = qc" "cf_queue_resident_bytes c = qb"
    using assms(1) by (auto simp: PublishSchedulerConfig_try_new_def Let_def split: if_splits)
  have "scheduler_ok c wk"
    using sched.runs_ok [OF assms(3)] spawn_ok try_new_config [OF assms(1)] assms(2) by blast
  with c show ?thesis by (auto simp: scheduler_ok_def counts_def within_limits_def)
qed

text \<open>A scheduler with the default limits: two requests are admitted, selected and written together.\<close>

definition demo_admissions :: "worker_event list" where
  "demo_admissions = [Admit 0 (demo_request 1 [[1, 2], [3]]), Admit 0 (demo_request 2 [[4]]), Receive, Receive, Turn 200000, Write]"

lemma demo_default_config: "PublishSchedulerConfig_try_new 512 8192 33554432 64 512 8388608 200000 = Inr PublishSchedulerConfig_default"
  by (simp add: PublishSchedulerConfig_try_new_def PublishSchedulerConfig_default_def Let_def usize_saturating_add_def
      usize_saturating_mul_def USIZE_MAX_def MAX_PUBLISH_BYTES_def MAX_RECORDS_PER_PUBLISH_def RECORD_OVERHEAD_BYTES_def
      REQUEST_OVERHEAD_BYTES_def MAX_REQUESTS_PER_REPLICATED_PUBLISH_def MAX_RECORDS_PER_REPLICATED_PUBLISH_def
      MAX_REPLICATED_PUBLISH_BYTES_def)

definition demo_queued :: "waiter \<Rightarrow> PublishBatch \<Rightarrow> nat \<Rightarrow> QueuedPublish" where
  "demo_queued w b resident = \<lparr>qp_admitted_at = 0, qp_charge = \<lparr>ch_records = length (pb_records b), ch_resident_bytes = resident\<rparr>,
     qp_batch = b, qp_reply = w\<rparr>"

definition demo_first :: QueuedPublish where "demo_first = demo_queued 0 (demo_request 1 [[1, 2], [3]]) 371"
definition demo_second :: QueuedPublish where "demo_second = demo_queued 1 (demo_request 2 [[4]]) 313"

definition demo_worker ::
  "QueuedPublish list \<Rightarrow> QueuedPublish list \<Rightarrow> QueuedPublish list \<Rightarrow> worker_phase \<Rightarrow> PublishBatch list list \<Rightarrow> worker" where
  "demo_worker channel pending inflight phase writes =
     \<lparr>wk_admission = \<lparr>am_usage = \<lparr>au_accepting = True, au_requests = length (channel @ pending @ inflight),
         au_records = sum_list (map (ch_records \<circ> qp_charge) (channel @ pending @ inflight)),
         au_resident_bytes = sum_list (map (ch_resident_bytes \<circ> qp_charge) (channel @ pending @ inflight)), au_rejected_total = 0\<rparr>,
         am_config = PublishSchedulerConfig_default\<rparr>,
      wk_channel = channel, wk_pending = pending, wk_inflight = inflight, wk_phase = phase, wk_closed = {},
      wk_next = length (channel @ pending @ inflight), wk_replies = [], wk_writes = writes\<rparr>"

lemmas demo_worker_defs = demo_worker_def demo_first_def demo_second_def demo_queued_def demo_request_def
  PublishSchedulerConfig_default_def usize_saturating_add_def USIZE_MAX_def

lemma demo_valid_requests: "batch_valid (demo_request 1 [[1, 2], [3]])" "batch_valid (demo_request 2 [[4]])"
  by (simp_all add: batch_valid_def validate_records_def demo_request_def MAX_RECORDS_PER_PUBLISH_def MAX_RECORD_BYTES_def
      MAX_PUBLISH_BYTES_def usize_checked_add_def)

lemma demo_admits_requests:
  "fst (try_admit 0 (demo_request 1 [[1, 2], [3]]) (demo_worker [] [] [] Collecting [])) = demo_worker [demo_first] [] [] Collecting []"
  "fst (try_admit 0 (demo_request 2 [[4]]) (demo_worker [demo_first] [] [] Collecting [])) =
    demo_worker [demo_first, demo_second] [] [] Collecting []"
  by (simp_all add: try_admit_def PublishCharge_for_batch_def usize_checked_add_def usize_checked_mul_def RECORD_OVERHEAD_BYTES_def
      REQUEST_OVERHEAD_BYTES_def admission_reserve_def Let_def demo_worker_defs)

lemma demo_selects:
  "worker_turn 200000 (demo_worker [] [demo_first, demo_second] [] Collecting []) =
    demo_worker [] [] [demo_first, demo_second] Submitting []"
  by (simp add: worker_turn_def discard_cancelled_def release_all_def batch_usage_def take_batch_def payload_bytes_of_def Let_def demo_worker_defs)

lemma demo_writes:
  "submit_write (demo_worker [] [] [demo_first, demo_second] Submitting []) =
    demo_worker [] [] [demo_first, demo_second] AwaitingWrite [demo_requests]"
proof -
  have "ReplicatedPublishBatch_new (map qp_batch [demo_first, demo_second]) = Inr (map qp_batch [demo_first, demo_second])"
    by (rule fits_accepted)
      (simp_all add: fits_command_def demo_worker_defs payload_bytes_of_def MAX_REQUESTS_PER_REPLICATED_PUBLISH_def
        MAX_RECORDS_PER_REPLICATED_PUBLISH_def MAX_REPLICATED_PUBLISH_BYTES_def)
  then show ?thesis
    by (simp add: submit_write_def demo_worker_def demo_first_def demo_second_def demo_queued_def demo_requests_def)
qed

lemma demo_scheduler_run:
  "runs (worker_step shown hints) (PublishScheduler_spawn PublishSchedulerConfig_default) demo_admissions
    (demo_worker [] [] [demo_first, demo_second] AwaitingWrite [demo_requests])"
proof -
  let ?step = "worker_step shown hints"
  have s1: "?step (demo_worker [] [] [] Collecting []) (Admit 0 (demo_request 1 [[1, 2], [3]])) (demo_worker [demo_first] [] [] Collecting [])"
    "?step (demo_worker [demo_first] [] [] Collecting []) (Admit 0 (demo_request 2 [[4]]))
      (demo_worker [demo_first, demo_second] [] [] Collecting [])"
    by (simp_all only: worker_step_simps demo_admits_requests demo_valid_requests)
  have s2: "?step (demo_worker [demo_first, demo_second] [] [] Collecting []) Receive (demo_worker [demo_second] [demo_first] [] Collecting [])"
    "?step (demo_worker [demo_second] [demo_first] [] Collecting []) Receive (demo_worker [] [demo_first, demo_second] [] Collecting [])"
    by (simp_all add: worker_step_simps demo_worker_def)
  have s3: "?step (demo_worker [] [demo_first, demo_second] [] Collecting []) (Turn 200000) (demo_worker [] [] [demo_first, demo_second] Submitting [])"
    "?step (demo_worker [] [] [demo_first, demo_second] Submitting []) Write
      (demo_worker [] [] [demo_first, demo_second] AwaitingWrite [demo_requests])"
    by (simp_all add: worker_step_simps demo_selects demo_writes) (simp_all add: demo_worker_def)
  have s0: "PublishScheduler_spawn PublishSchedulerConfig_default = demo_worker [] [] [] Collecting []"
    by (simp add: PublishScheduler_spawn_def Admission_new_def demo_worker_def)
  show ?thesis
    unfolding demo_admissions_def s0
    by (rule runs_Cons, rule s1(1), rule runs_Cons, rule s1(2), rule runs_Cons, rule s2(1), rule runs_Cons, rule s2(2),
        rule runs_Cons, rule s3(1), rule runs_Cons, rule s3(2), rule runs_Nil)
qed

theorem scheduler_counts_exact_witness:
  "\<exists>wk. runs (worker_step (\<lambda>_. []) (\<lambda>_. None)) (PublishScheduler_spawn PublishSchedulerConfig_default) demo_admissions wk \<and>
    au_requests (am_usage (wk_admission wk)) = 2 \<and> au_records (am_usage (wk_admission wk)) = 3 \<and>
    au_resident_bytes (am_usage (wk_admission wk)) = 684"
proof -
  let ?wk = "demo_worker [] [] [demo_first, demo_second] AwaitingWrite [demo_requests]"
  have run: "runs (worker_step (\<lambda>_. []) (\<lambda>_. None)) (PublishScheduler_spawn PublishSchedulerConfig_default) demo_admissions ?wk"
    by (rule demo_scheduler_run)
  have "limits_open PublishSchedulerConfig_default" by (simp add: limits_open_def PublishSchedulerConfig_default_def USIZE_MAX_def)
  from scheduler_counts_exact [OF demo_default_config this run]
  have "au_requests (am_usage (wk_admission ?wk)) = 2 \<and> au_records (am_usage (wk_admission ?wk)) = 3 \<and>
      au_resident_bytes (am_usage (wk_admission ?wk)) = 684"
    by (simp add: outstanding_def) (simp add: demo_worker_defs)
  with run show ?thesis by blast
qed

text \<open>
  C40. Nobody is forgotten and nobody is answered twice: in every state the scheduler reaches, every command
  it proposed is within the limits of a replicated batch, no waiter has two replies, a waiter that was
  admitted and did not give up has its reply or is still held, and once the worker has stopped every such
  waiter has its reply. An admission and the final drain are one step each, as when no request is still being
  admitted while the scheduler shuts down.
\<close>

theorem scheduler_answers_once:
  assumes "PublishSchedulerConfig_try_new qr qc qb br bc bb delay = Inr c" "limits_open c"
    and "runs (worker_step shown hints) (PublishScheduler_spawn c) es wk"
  shows "(\<forall>b \<in> set (wk_writes wk). ReplicatedPublishBatch_new b = Inr b) \<and> distinct (map fst (wk_replies wk)) \<and>
    (\<forall>w < wk_next wk. w \<notin> wk_closed wk \<longrightarrow> w \<in> set (map fst (wk_replies wk)) \<or> w \<in> set (map qp_reply (outstanding wk))) \<and>
    (wk_phase wk = WorkerStopped \<longrightarrow> (\<forall>w < wk_next wk. w \<notin> wk_closed wk \<longrightarrow> w \<in> set (map fst (wk_replies wk))))"
proof -
  have ok: "scheduler_ok c wk"
    using sched.runs_ok [OF assms(3)] spawn_ok try_new_config [OF assms(1)] assms(2) by blast
  have trk: "tracked (answered wk) (unanswered wk) (wk_closed wk) (wk_next wk)" by (rule scheduler_okD(7) [OF ok])
  have held: "qp_reply ` set (unanswered wk) \<subseteq> set (map qp_reply (outstanding wk))"
    by (auto simp: unanswered_def outstanding_def)
  have known: "w \<in> set (map fst (wk_replies wk)) \<or> w \<in> set (map qp_reply (outstanding wk))"
    if "w < wk_next wk" "w \<notin> wk_closed wk" for w
  proof -
    have "w \<in> set (answered wk) \<union> qp_reply ` set (unanswered wk) \<union> wk_closed wk"
      using trk that(1) unfolding tracked_def by blast
    with that(2) held show ?thesis unfolding answered_def by blast
  qed
  moreover have "distinct (map fst (wk_replies wk))" using trk by (simp add: tracked_def answered_def)
  moreover have "outstanding wk = []" if "wk_phase wk = WorkerStopped" using ok that by (simp add: scheduler_ok_def)
  ultimately show ?thesis using scheduler_okD(8) [OF ok] by fastforce
qed

theorem scheduler_answers_once_witness:
  "\<exists>wk. runs (worker_step (\<lambda>_. []) (\<lambda>_. None)) (PublishScheduler_spawn PublishSchedulerConfig_default) demo_admissions wk \<and>
    wk_writes wk = [demo_requests] \<and> ReplicatedPublishBatch_new demo_requests = Inr demo_requests"
proof -
  let ?wk = "demo_worker [] [] [demo_first, demo_second] AwaitingWrite [demo_requests]"
  have run: "runs (worker_step (\<lambda>_. []) (\<lambda>_. None)) (PublishScheduler_spawn PublishSchedulerConfig_default) demo_admissions ?wk"
    by (rule demo_scheduler_run)
  have "limits_open PublishSchedulerConfig_default" by (simp add: limits_open_def PublishSchedulerConfig_default_def USIZE_MAX_def)
  from scheduler_answers_once [OF demo_default_config this run]
  have "ReplicatedPublishBatch_new demo_requests = Inr demo_requests" by (simp add: demo_worker_def)
  moreover have "wk_writes ?wk = [demo_requests]" by (simp add: demo_worker_def)
  ultimately show ?thesis using run by blast
qed

text \<open>
  C31. What a waiter is told is true: when the command the worker proposed is applied to a sound group and
  its requests are new, the worker never takes the outcomes for mismatched, every waiter gets the outcome of
  its own request, and a receipt it gets names offsets that hold the records of its request.
\<close>

theorem waiter_told_truth:
  assumes "scheduler_ok c wk" "wk_phase wk = AwaitingWrite"
    and "apply_publish_many cd db l (last (wk_writes wk)) db = Inr (w, PublishedMany outcomes)" "publish_ok db"
    and "distinct (map (\<lambda>q. receipt_key cd (pb_partition (qp_batch q)) (pb_request (qp_batch q))) (wk_inflight wk))"
    and "\<forall>q \<in> set (wk_inflight wk).
      tget (ps_receipts (gd_producers db)) (receipt_key cd (pb_partition (qp_batch q)) (pb_request (qp_batch q))) = None"
    and "i < length (wk_inflight wk)"
  shows "wk_replies (submit_finish shown hints (Responded (PublishedMany outcomes)) wk) ! (length (wk_replies wk) + i) =
      (qp_reply (wk_inflight wk ! i), io_result (outcomes ! i)) \<and>
    (\<forall>receipt. io_result (outcomes ! i) = Inr receipt \<longrightarrow>
      rc_request receipt = pb_request (qp_batch (wk_inflight wk ! i)) \<and>
      holds_records l (slot_of (map qp_batch (wk_inflight wk)) i) (qp_batch (wk_inflight wk ! i)) receipt (gd_log w))"
proof -
  let ?qs = "wk_inflight wk"
  have last: "last (wk_writes wk) = map qp_batch ?qs" using assms(1,2) by (simp add: scheduler_ok_def)
  have "length (pb_records b) < 2 ^ 64" if "b \<in> set (map qp_batch ?qs)" for b
  proof -
    have "batch_valid b" using that scheduler_okD(4) [OF assms(1)] by auto
    from batch_valid_bounds(2) [OF this] show ?thesis by (simp add: MAX_RECORDS_PER_PUBLISH_def)
  qed
  then have small: "\<forall>b \<in> set (map qp_batch ?qs). length (pb_records b) < 2 ^ 64" by blast
  note run = assms(3) [unfolded last]
  have req: "map io_request outcomes = map pb_request (map qp_batch ?qs)" using publish_many_keeps [OF run assms(4) small] by blast
  then have len: "length outcomes = length ?qs" by (metis length_map)
  have match: "io_request o1 = pb_request (qp_batch q)" if "(o1, q) \<in> set (zip outcomes ?qs)" for o1 q
  proof -
    from that obtain k where k: "k < length outcomes" "k < length ?qs" "o1 = outcomes ! k" "q = ?qs ! k"
      by (auto simp: set_zip)
    from arg_cong [OF req, of "\<lambda>xs. xs ! k"] k show ?thesis by simp
  qed
  have "wk_replies (submit_finish shown hints (Responded (PublishedMany outcomes)) wk) =
      wk_replies wk @ map (\<lambda>(q, o1). (qp_reply q, io_result o1)) (zip ?qs outcomes)"
    using match len by (auto simp: submit_finish_def complete_response_def)
  then have "wk_replies (submit_finish shown hints (Responded (PublishedMany outcomes)) wk) ! (length (wk_replies wk) + i) =
      (qp_reply (?qs ! i), io_result (outcomes ! i))"
    using len assms(7) by (simp add: nth_append)
  moreover have "rc_request receipt = pb_request (qp_batch (?qs ! i)) \<and>
      holds_records l (slot_of (map qp_batch ?qs) i) (qp_batch (?qs ! i)) receipt (gd_log w)"
    if "io_result (outcomes ! i) = Inr receipt" for receipt
    using publish_many_acknowledged [OF run assms(4) small _ _ _ that] assms(5-7) by (simp add: comp_def)
  ultimately show ?thesis by blast
qed

theorem waiter_told_truth_witness:
  "\<exists>w outcomes. apply_publish_many demo_codec demo_data demo_entry demo_requests demo_data = Inr (w, PublishedMany outcomes) \<and>
    wk_replies (submit_finish (\<lambda>_. []) (\<lambda>_. None) (Responded (PublishedMany outcomes))
      (demo_worker [] [] [demo_first, demo_second] AwaitingWrite [demo_requests])) ! 1 = (1, io_result (outcomes ! 1))"
proof -
  let ?wk = "demo_worker [] [] [demo_first, demo_second] AwaitingWrite [demo_requests]"
  have "limits_open PublishSchedulerConfig_default" by (simp add: limits_open_def PublishSchedulerConfig_default_def USIZE_MAX_def)
  then have ok: "scheduler_ok PublishSchedulerConfig_default ?wk"
    using sched.runs_ok [OF demo_scheduler_run [of "\<lambda>_. []" "\<lambda>_. None"]] spawn_ok default_config by blast
  obtain w outcomes where run: "apply_publish_many demo_codec demo_data demo_entry demo_requests demo_data = Inr (w, PublishedMany outcomes)"
    using demo_published by blast
  have fields: "wk_phase ?wk = AwaitingWrite" "wk_writes ?wk = [demo_requests]" "wk_inflight ?wk = [demo_first, demo_second]"
    "wk_replies ?wk = []" by (simp_all add: demo_worker_def)
  have fresh: "ps_receipts (gd_producers demo_data) = []" by (simp add: demo_data_def empty_group_def)
  have "wk_replies (submit_finish (\<lambda>_. []) (\<lambda>_. None) (Responded (PublishedMany outcomes)) ?wk) ! (length (wk_replies ?wk) + 1) =
      (qp_reply (wk_inflight ?wk ! 1), io_result (outcomes ! 1))"
  proof (rule waiter_told_truth [OF ok fields(1), THEN conjunct1])
    show "apply_publish_many demo_codec demo_data demo_entry (last (wk_writes ?wk)) demo_data = Inr (w, PublishedMany outcomes)"
      unfolding fields using run by simp
    show "publish_ok demo_data" by (rule demo_data_ok)
  qed (unfold fields fresh, simp_all add: demo_first_def demo_second_def demo_queued_def demo_request_def)
  then have "wk_replies (submit_finish (\<lambda>_. []) (\<lambda>_. None) (Responded (PublishedMany outcomes)) ?wk) ! 1 =
      (1, io_result (outcomes ! 1))"
    unfolding fields by (simp add: demo_second_def demo_queued_def)
  with run show ?thesis by blast
qed

end
