(* ===== verification/Artifact_Codec.thy ===== *)
theory Artifact_Codec
  imports Keys
begin

text \<open>
  The data model and the byte codec of the export artifacts: \<open>model.rs\<close>, \<open>error.rs\<close> and \<open>codec.rs\<close> of
  \<open>crates/light-stream-export\<close>, and the \<open>DecodeBudget\<close> of \<open>decode.rs\<close>. An \<open>Encoder\<close> is the bytes written
  so far, with the limit as an argument; an operation that exceeds it is \<open>None\<close> (\<open>EncodeLimit\<close>). A \<open>Decoder\<close>
  is the bytes that remain, one component of the state every verification step threads, next to the
  budget, the input file and the number of times the caller's \<open>cancelled\<close> function was asked. SHA-256 and
  the UUID text parser are code outside the repository: they are fields of \<open>verify_env\<close>, as is the answer of
  \<open>cancelled\<close> to each of its calls.

  The second half is the calculus the round trips are proved with: \<open>parses p env bs x b b'\<close> says that the step
  \<open>p\<close> reads the bytes \<open>bs\<close> off any input that begins with them, answers \<open>x\<close> and takes the budget from \<open>b\<close>
  to \<open>b'\<close>. The rules for its introduction follow the structure of the decoders.
\<close>

section \<open>Constants\<close>

definition MAGIC_V1 :: bytes where "MAGIC_V1 = ascii ''LSEXPT01''"
definition TRAILER_MAGIC_V1 :: bytes where "TRAILER_MAGIC_V1 = ascii ''LSEXEND1''"
definition FORMAT_VERSION_V1 :: u32 where "FORMAT_VERSION_V1 = 1"
definition REQUIRED_FEATURES_V1 :: u64 where "REQUIRED_FEATURES_V1 = 0"
definition SECTION_KIND_CONTROL_V1 :: u16 where "SECTION_KIND_CONTROL_V1 = 1"
definition SECTION_KIND_DATA_GROUP_V1 :: u16 where "SECTION_KIND_DATA_GROUP_V1 = 2"
definition CONTROL_SECTION_VERSION_V1 :: u16 where "CONTROL_SECTION_VERSION_V1 = 2"
definition DATA_SECTION_VERSION_V1 :: u16 where "DATA_SECTION_VERSION_V1 = 1"
definition STREAM_LIFECYCLE_ACTIVE_V1 :: u8 where "STREAM_LIFECYCLE_ACTIVE_V1 = 1"
definition BOOKMARK_LIFECYCLE_ACTIVE_V1 :: u8 where "BOOKMARK_LIFECYCLE_ACTIVE_V1 = 1"
definition BOOKMARK_LIFECYCLE_DELETED_V1 :: u8 where "BOOKMARK_LIFECYCLE_DELETED_V1 = 2"
definition OPTION_NONE_V1 :: u8 where "OPTION_NONE_V1 = 0"
definition OPTION_SOME_V1 :: u8 where "OPTION_SOME_V1 = 1"
definition TRAILER_BYTES_V1 :: u64 where "TRAILER_BYTES_V1 = 56"
definition EXCLUSIONS_V1 :: u64 where "EXCLUSIONS_V1 = push_bit 8 1 - 1"
definition MAX_NAME_BYTES :: nat where "MAX_NAME_BYTES = 255"

section \<open>The document, its sections and the manifest\<close>

text \<open>\<open>ExportIdV1\<close> is an array of 16 bytes, held as the number it spells; the exclusions are their bits.\<close>

type_synonym ExportIdV1 = "128 word"
type_synonym ExportExclusionsV1 = u64

record ExportLimits =
  xlim_artifact_bytes :: u64
  xlim_manifest_bytes :: u64
  xlim_section_bytes :: u64
  xlim_streams :: u64
  xlim_partitions :: u64
  xlim_records :: u64
  xlim_bookmarks :: u64
  xlim_payload_bytes :: u64

definition ExportLimits_default :: ExportLimits where
  "ExportLimits_default =
     \<lparr>xlim_artifact_bytes = 100 * 1024 * 1024 * 1024, xlim_manifest_bytes = 16 * 1024 * 1024,
      xlim_section_bytes = 1024 * 1024 * 1024, xlim_streams = 1024, xlim_partitions = 131072,
      xlim_records = 100000000, xlim_bookmarks = 10000000, xlim_payload_bytes = 100 * 1024 * 1024 * 1024\<rparr>"

record ActiveStreamV1 =
  xstr_descriptor :: StreamDescriptor
  xstr_bookmark_publication_ceiling :: BookmarkPublicationSequence
  xstr_bookmarks :: "CommittedStreamBookmark list"

record ControlSectionV1 =
  xctl_source_cluster :: ClusterId
  xctl_export_id :: ExportIdV1
  xctl_cut :: GroupCut
  xctl_catalog_revision :: u64
  xctl_assignment_cursor :: u64
  xctl_max_streams :: u32
  xctl_max_partitions_per_stream :: u32
  xctl_configured_data_groups :: "GroupId list"
  xctl_streams :: "ActiveStreamV1 list"

record ExportDocumentV1 =
  xdoc_source_cluster :: ClusterId
  xdoc_export_id :: ExportIdV1
  xdoc_selected_streams :: "StreamId list"
  xdoc_cut :: QuiescentCut
  xdoc_control :: ControlSectionV1
  xdoc_required_features :: u64
  xdoc_exclusions :: ExportExclusionsV1

record PartitionV1 =
  xpar_source_cluster :: ClusterId
  xpar_stream :: StreamId
  xpar_partition :: PartitionId
  xpar_retention_floor :: RecordOffset
  xpar_tail :: RecordOffset
  xpar_bookmark_publication_ceiling :: BookmarkPublicationSequence
  xpar_records :: "CommittedRecord list"
  xpar_bookmarks :: "CommittedBookmark list"

record DataGroupV1 =
  xgrp_source_cluster :: ClusterId
  xgrp_export_id :: ExportIdV1
  xgrp_group :: GroupId
  xgrp_cut :: GroupCut
  xgrp_partitions :: "PartitionV1 list"

datatype SectionKindV1 = SectionControl | SectionDataGroup

definition section_kind_number :: "SectionKindV1 \<Rightarrow> u16" where
  "section_kind_number k =
     (case k of SectionControl \<Rightarrow> SECTION_KIND_CONTROL_V1 | SectionDataGroup \<Rightarrow> SECTION_KIND_DATA_GROUP_V1)"

definition section_kind_version :: "SectionKindV1 \<Rightarrow> u16" where
  "section_kind_version k =
     (case k of SectionControl \<Rightarrow> CONTROL_SECTION_VERSION_V1 | SectionDataGroup \<Rightarrow> DATA_SECTION_VERSION_V1)"

record SectionDescriptorV1 =
  xsec_ordinal :: u64
  xsec_kind :: SectionKindV1
  xsec_version :: u16
  xsec_group :: "GroupId option"
  xsec_file_offset :: u64
  xsec_item_count :: u64
  xsec_payload_length :: u64
  xsec_payload_sha256 :: bytes

record ExportTotalsV1 =
  xtot_configured_data_groups :: u64
  xtot_streams :: u64
  xtot_partitions :: u64
  xtot_records :: u64
  xtot_payload_bytes :: u64
  xtot_partition_bookmarks :: u64
  xtot_stream_bookmarks :: u64

definition ExportTotalsV1_default :: ExportTotalsV1 where
  "ExportTotalsV1_default =
     \<lparr>xtot_configured_data_groups = 0, xtot_streams = 0, xtot_partitions = 0, xtot_records = 0,
      xtot_payload_bytes = 0, xtot_partition_bookmarks = 0, xtot_stream_bookmarks = 0\<rparr>"

record ExportManifestV1 =
  xman_format_version :: u32
  xman_required_features :: u64
  xman_source_cluster :: ClusterId
  xman_export_id :: ExportIdV1
  xman_selected_streams :: "StreamId list"
  xman_cut :: QuiescentCut
  xman_sections :: "SectionDescriptorV1 list"
  xman_totals :: ExportTotalsV1
  xman_exclusions :: ExportExclusionsV1

record ArtifactDigestCoverage =
  adc_start :: u64
  adc_end :: u64

record ExportInspection =
  xins_artifact :: ArtifactIdentity
  xins_manifest :: ExportManifestV1
  xins_sections :: "SectionDescriptorV1 list"
  xins_artifact_digest_coverage :: ArtifactDigestCoverage

datatype VerifiedSectionV1 = VerifiedControl ControlSectionV1 | VerifiedDataGroup DataGroupV1

section \<open>Errors\<close>

datatype 's ExportWriteError =
    WriteSource 's
  | WriteLimit string
  | WriteNonCanonical string
  | WriteInconsistent string
  | WritePanic

datatype VerifyError =
    VerifyCancelled
  | VerifyIo string
  | VerifyTruncated
  | VerifyTrailingBytes
  | VerifyInvalid string
  | VerifyUnsupported string
  | VerifyLimit string
  | VerifyNonCanonical string
  | VerifyInconsistent string
  | VerifyDigest string

datatype 'e VisitError = VisitVerify VerifyError | VisitVisitor 'e

section \<open>The encoder\<close>

type_synonym encoding = "bytes \<Rightarrow> bytes option"

definition enc_raw :: "u64 \<Rightarrow> bytes \<Rightarrow> encoding" where
  "enc_raw limit value acc =
     (if length acc + length value < 2 ^ 64 \<and> length acc + length value \<le> unat limit
      then Some (acc @ value) else None)"

definition enc_u8 :: "u64 \<Rightarrow> u8 \<Rightarrow> encoding" where "enc_u8 limit value = enc_raw limit [value]"
definition enc_u16 :: "u64 \<Rightarrow> u16 \<Rightarrow> encoding" where "enc_u16 limit value = enc_raw limit (to_be_bytes value)"
definition enc_u32 :: "u64 \<Rightarrow> u32 \<Rightarrow> encoding" where "enc_u32 limit value = enc_raw limit (to_be_bytes value)"
definition enc_u64 :: "u64 \<Rightarrow> u64 \<Rightarrow> encoding" where "enc_u64 limit value = enc_raw limit (to_be_bytes value)"

text \<open>\<open>cluster\<close>, \<open>stream\<close>, \<open>bookmark\<close> and \<open>export\<close> of the encoder all write the 16 bytes of the identity.\<close>

definition enc_uuid :: "u64 \<Rightarrow> uuid \<Rightarrow> encoding" where "enc_uuid limit value = enc_raw limit (to_be_bytes value)"

text \<open>\<open>?\<close> between two encoder calls.\<close>

fun enc_seq :: "encoding list \<Rightarrow> encoding" where
  "enc_seq [] acc = Some acc"
| "enc_seq (e # es) acc = (case e acc of None \<Rightarrow> None | Some acc' \<Rightarrow> enc_seq es acc')"

definition enc_string :: "u64 \<Rightarrow> utf8 \<Rightarrow> encoding" where
  "enc_string limit value acc =
     (if length value < 2 ^ 32
      then enc_seq [enc_u32 limit (of_nat (length value)), enc_raw limit value] acc else None)"

text \<open>The length of a list, \<open>encoder.u64(len_u64(..)?)?\<close>, and of a payload, \<open>Encoder::bytes\<close>.\<close>

definition enc_len :: "u64 \<Rightarrow> nat \<Rightarrow> encoding" where
  "enc_len limit n acc = (if n < 2 ^ 64 then enc_u64 limit (of_nat n) acc else None)"

definition enc_bytes :: "u64 \<Rightarrow> bytes \<Rightarrow> encoding" where
  "enc_bytes limit value = enc_seq [enc_len limit (length value), enc_raw limit value]"

section \<open>The decode budget\<close>

record DecodeBudget =
  bud_max_streams :: u64
  bud_max_partitions :: u64
  bud_max_records :: u64
  bud_max_bookmarks :: u64
  bud_max_payload_bytes :: u64
  bud_streams :: u64
  bud_partitions :: u64
  bud_records :: u64
  bud_bookmarks :: u64
  bud_payload_bytes :: u64

definition DecodeBudget_new :: "ExportLimits \<Rightarrow> DecodeBudget" where
  "DecodeBudget_new limits =
     \<lparr>bud_max_streams = xlim_streams limits, bud_max_partitions = xlim_partitions limits,
      bud_max_records = xlim_records limits, bud_max_bookmarks = xlim_bookmarks limits,
      bud_max_payload_bytes = xlim_payload_bytes limits, bud_streams = 0, bud_partitions = 0,
      bud_records = 0, bud_bookmarks = 0, bud_payload_bytes = 0\<rparr>"

definition reserve :: "u64 \<Rightarrow> u64 \<Rightarrow> u64 \<Rightarrow> string \<Rightarrow> VerifyError + u64" where
  "reserve used count limit name =
     (case checked_add used count of
        None \<Rightarrow> Inl (VerifyLimit name)
      | Some nxt \<Rightarrow> if nxt > limit then Inl (VerifyLimit name) else Inr nxt)"

definition reserve_streams :: "u64 \<Rightarrow> DecodeBudget \<Rightarrow> VerifyError + DecodeBudget" where
  "reserve_streams count b =
     bind_result (reserve (bud_streams b) count (bud_max_streams b) ''streams'')
       (\<lambda>n. Inr (b\<lparr>bud_streams := n\<rparr>))"

definition reserve_partitions :: "u64 \<Rightarrow> DecodeBudget \<Rightarrow> VerifyError + DecodeBudget" where
  "reserve_partitions count b =
     bind_result (reserve (bud_partitions b) count (bud_max_partitions b) ''partitions'')
       (\<lambda>n. Inr (b\<lparr>bud_partitions := n\<rparr>))"

definition reserve_records :: "u64 \<Rightarrow> DecodeBudget \<Rightarrow> VerifyError + DecodeBudget" where
  "reserve_records count b =
     bind_result (reserve (bud_records b) count (bud_max_records b) ''records'')
       (\<lambda>n. Inr (b\<lparr>bud_records := n\<rparr>))"

definition reserve_bookmarks :: "u64 \<Rightarrow> DecodeBudget \<Rightarrow> VerifyError + DecodeBudget" where
  "reserve_bookmarks count b =
     bind_result (reserve (bud_bookmarks b) count (bud_max_bookmarks b) ''bookmarks'')
       (\<lambda>n. Inr (b\<lparr>bud_bookmarks := n\<rparr>))"

definition reserve_payload_bytes :: "u64 \<Rightarrow> DecodeBudget \<Rightarrow> VerifyError + DecodeBudget" where
  "reserve_payload_bytes count b =
     bind_result (reserve (bud_payload_bytes b) count (bud_max_payload_bytes b) ''payload bytes'')
       (\<lambda>n. Inr (b\<lparr>bud_payload_bytes := n\<rparr>))"

definition model_count :: "nat \<Rightarrow> string \<Rightarrow> VerifyError + u64" where
  "model_count n name = (if n < 2 ^ 64 then Inr (of_nat n) else Inl (VerifyLimit name))"

fun reserve_each :: "('a \<Rightarrow> DecodeBudget \<Rightarrow> VerifyError + DecodeBudget) \<Rightarrow> 'a list \<Rightarrow> DecodeBudget \<Rightarrow> VerifyError + DecodeBudget"
where
  "reserve_each f [] b = Inr b"
| "reserve_each f (x # xs) b = bind_result (f x b) (reserve_each f xs)"

definition reserve_manifest_model :: "StreamId list \<Rightarrow> DecodeBudget \<Rightarrow> VerifyError + DecodeBudget" where
  "reserve_manifest_model selected b =
     bind_result (model_count (length selected) ''streams'') (\<lambda>n. reserve_streams n b)"

definition reserve_stream_bookmark_model :: "CommittedStreamBookmark \<Rightarrow> DecodeBudget \<Rightarrow> VerifyError + DecodeBudget" where
  "reserve_stream_bookmark_model bm b =
     bind_result (model_count (length (sv_positions (sb_vector bm))) ''partitions'') (\<lambda>n. reserve_partitions n b)"

definition reserve_stream_model :: "ActiveStreamV1 \<Rightarrow> DecodeBudget \<Rightarrow> VerifyError + DecodeBudget" where
  "reserve_stream_model stream b =
     bind_result (model_count (length (sd_placements (xstr_descriptor stream))) ''partitions'') (\<lambda>n.
     bind_result (reserve_partitions n b) (\<lambda>b1.
     bind_result (model_count (length (xstr_bookmarks stream)) ''bookmarks'') (\<lambda>m.
     bind_result (reserve_bookmarks m b1) (\<lambda>b2.
     reserve_each reserve_stream_bookmark_model (xstr_bookmarks stream) b2))))"

definition reserve_control_model :: "ControlSectionV1 \<Rightarrow> DecodeBudget \<Rightarrow> VerifyError + DecodeBudget" where
  "reserve_control_model control b =
     bind_result (model_count (length (xctl_streams control)) ''streams'') (\<lambda>n.
     bind_result (reserve_streams n b) (\<lambda>b1. reserve_each reserve_stream_model (xctl_streams control) b1))"

definition reserve_record_model :: "CommittedRecord \<Rightarrow> DecodeBudget \<Rightarrow> VerifyError + DecodeBudget" where
  "reserve_record_model r b =
     bind_result (model_count (length (cr_payload r)) ''payload bytes'') (\<lambda>n. reserve_payload_bytes n b)"

definition reserve_partition_model :: "PartitionV1 \<Rightarrow> DecodeBudget \<Rightarrow> VerifyError + DecodeBudget" where
  "reserve_partition_model p b =
     bind_result (model_count (length (xpar_records p)) ''records'') (\<lambda>n.
     bind_result (reserve_records n b) (\<lambda>b1.
     bind_result (reserve_each reserve_record_model (xpar_records p) b1) (\<lambda>b2.
     bind_result (model_count (length (xpar_bookmarks p)) ''bookmarks'') (\<lambda>m.
     reserve_bookmarks m b2))))"

definition reserve_data_group_model :: "DataGroupV1 \<Rightarrow> DecodeBudget \<Rightarrow> VerifyError + DecodeBudget" where
  "reserve_data_group_model data b =
     bind_result (model_count (length (xgrp_partitions data)) ''partitions'') (\<lambda>n.
     bind_result (reserve_partitions n b) (\<lambda>b1. reserve_each reserve_partition_model (xgrp_partitions data) b1))"

section \<open>Verification steps\<close>

text \<open>
  The input of a verification: a file and a position in it. \<open>rd_limit = Some e\<close> is the \<open>HashingReader\<close>
  around it, which reads no further than \<open>e\<close>, collects what it reads for the digest and seeks nowhere.
\<close>

record reader =
  rd_file :: bytes
  rd_position :: nat
  rd_limit :: "nat option"
  rd_hashed :: bytes

record verify_env =
  ve_sha256 :: "bytes \<Rightarrow> bytes"
  ve_parse_uuid :: "string \<Rightarrow> uuid option"
  ve_cancelled :: "nat \<Rightarrow> bool"

record verify_state =
  vs_rest :: bytes
  vs_budget :: DecodeBudget
  vs_polls :: nat
  vs_reader :: reader

type_synonym ('e, 'a) verifying = "verify_env \<Rightarrow> verify_state \<Rightarrow> 'e + 'a \<times> verify_state"

definition vret :: "'a \<Rightarrow> ('e, 'a) verifying" where "vret x env s = Inr (x, s)"
definition vfail :: "'e \<Rightarrow> ('e, 'a) verifying" where "vfail e env s = Inl e"

definition vbind :: "('e, 'a) verifying \<Rightarrow> ('a \<Rightarrow> ('e, 'b) verifying) \<Rightarrow> ('e, 'b) verifying" where
  "vbind p f env s = (case p env s of Inl e \<Rightarrow> Inl e | Inr (x, s') \<Rightarrow> f x env s')"

definition vresult :: "'e + 'a \<Rightarrow> ('e, 'a) verifying" where
  "vresult r env s = (case r of Inl e \<Rightarrow> Inl e | Inr x \<Rightarrow> Inr (x, s))"

text \<open>Two frequent shapes: a step whose value is unused, and \<open>if c { return Err(e); }\<close>.\<close>

definition vthen :: "('e, unit) verifying \<Rightarrow> ('e, 'b) verifying \<Rightarrow> ('e, 'b) verifying" where
  "vthen p q = vbind p (\<lambda>_. q)"

definition vguard :: "bool \<Rightarrow> 'e \<Rightarrow> ('e, unit) verifying" where
  "vguard bad e = (if bad then vfail e else vret ())"

definition check_cancelled :: "(VerifyError, unit) verifying" where
  "check_cancelled env s =
     (if ve_cancelled env (vs_polls s) then Inl VerifyCancelled
      else Inr ((), s\<lparr>vs_polls := Suc (vs_polls s)\<rparr>))"

definition vbudget :: "(DecodeBudget \<Rightarrow> VerifyError + DecodeBudget) \<Rightarrow> (VerifyError, unit) verifying" where
  "vbudget f env s =
     (case f (vs_budget s) of Inl e \<Rightarrow> Inl e | Inr b \<Rightarrow> Inr ((), s\<lparr>vs_budget := b\<rparr>))"

primrec vtimes :: "nat \<Rightarrow> (VerifyError, 'a) verifying \<Rightarrow> (VerifyError, 'a list) verifying" where
  "vtimes 0 p = vret []"
| "vtimes (Suc n) p =
     vthen check_cancelled (vbind p (\<lambda>x. vbind (vtimes n p) (\<lambda>xs. vret (x # xs))))"

section \<open>The decoder\<close>

definition Decoder_new :: "bytes \<Rightarrow> (VerifyError, unit) verifying" where
  "Decoder_new bs env s = Inr ((), s\<lparr>vs_rest := bs\<rparr>)"

definition dec_finish :: "string \<Rightarrow> (VerifyError, unit) verifying" where
  "dec_finish field env s = (if vs_rest s = [] then Inr ((), s) else Inl (VerifyInvalid field))"

definition dec_take :: "nat \<Rightarrow> (VerifyError, bytes) verifying" where
  "dec_take n env s =
     (if n \<le> length (vs_rest s)
      then Inr (take n (vs_rest s), s\<lparr>vs_rest := drop n (vs_rest s)\<rparr>) else Inl VerifyTruncated)"

definition dec_u8 :: "(VerifyError, u8) verifying" where "dec_u8 = vbind (dec_take 1) (\<lambda>b. vret (hd b))"
definition dec_u16 :: "(VerifyError, u16) verifying" where "dec_u16 = vbind (dec_take 2) (\<lambda>b. vret (from_be_bytes b))"
definition dec_u32 :: "(VerifyError, u32) verifying" where "dec_u32 = vbind (dec_take 4) (\<lambda>b. vret (from_be_bytes b))"
definition dec_u64 :: "(VerifyError, u64) verifying" where "dec_u64 = vbind (dec_take 8) (\<lambda>b. vret (from_be_bytes b))"

definition uuid_text :: "bytes \<Rightarrow> string" where
  "uuid_text v =
     lower_hex (take 4 v) @ ''-'' @ lower_hex (take 2 (drop 4 v)) @ ''-'' @ lower_hex (take 2 (drop 6 v)) @ ''-'' @
     lower_hex (take 2 (drop 8 v)) @ ''-'' @ lower_hex (drop 10 v)"

definition parse_uuid :: "bytes \<Rightarrow> string \<Rightarrow> (VerifyError, uuid) verifying" where
  "parse_uuid v field env s =
     (case ve_parse_uuid env (uuid_text v) of None \<Rightarrow> Inl (VerifyInvalid field) | Some u \<Rightarrow> Inr (u, s))"

definition dec_cluster :: "(VerifyError, ClusterId) verifying" where
  "dec_cluster = vbind (dec_take 16) (\<lambda>b. parse_uuid b ''source cluster'')"
definition dec_stream :: "(VerifyError, StreamId) verifying" where
  "dec_stream = vbind (dec_take 16) (\<lambda>b. parse_uuid b ''stream ID'')"
definition dec_bookmark :: "(VerifyError, BookmarkId) verifying" where
  "dec_bookmark = vbind (dec_take 16) (\<lambda>b. parse_uuid b ''bookmark ID'')"
definition dec_export :: "(VerifyError, ExportIdV1) verifying" where
  "dec_export = vbind (dec_take 16) (\<lambda>b. vret (from_be_bytes b))"

definition dec_nonzero :: "string \<Rightarrow> (VerifyError, u64) verifying" where
  "dec_nonzero field =
     vbind dec_u64 (\<lambda>v. case nonzero_new field v of Inl _ \<Rightarrow> vfail (VerifyInvalid field) | Inr g \<Rightarrow> vret g)"

definition dec_group :: "(VerifyError, GroupId) verifying" where "dec_group = dec_nonzero ''group ID''"
definition dec_node :: "(VerifyError, NodeId) verifying" where "dec_node = dec_nonzero ''node ID''"

text \<open>\<open>String::from_utf8\<close>: the well-formed byte sequences of the Unicode standard.\<close>

definition continuation :: "u8 \<Rightarrow> bool" where "continuation b \<longleftrightarrow> 128 \<le> b \<and> b \<le> 191"

fun valid_utf8 :: "bytes \<Rightarrow> bool" where
  "valid_utf8 [] = True"
| "valid_utf8 (a # bs) =
     (if a \<le> 127 then valid_utf8 bs
      else if 194 \<le> a \<and> a \<le> 223
      then (case bs of b # cs \<Rightarrow> continuation b \<and> valid_utf8 cs | [] \<Rightarrow> False)
      else if 224 \<le> a \<and> a \<le> 239
      then (case bs of b # c # cs \<Rightarrow>
              continuation b \<and> continuation c \<and> (a = 224 \<longrightarrow> 160 \<le> b) \<and> (a = 237 \<longrightarrow> b \<le> 159) \<and> valid_utf8 cs
            | _ \<Rightarrow> False)
      else if 240 \<le> a \<and> a \<le> 244
      then (case bs of b # c # d # cs \<Rightarrow>
              continuation b \<and> continuation c \<and> continuation d \<and> (a = 240 \<longrightarrow> 144 \<le> b) \<and> (a = 244 \<longrightarrow> b \<le> 143) \<and>
              valid_utf8 cs
            | _ \<Rightarrow> False)
      else False)"

definition dec_string :: "string \<Rightarrow> (VerifyError, utf8) verifying" where
  "dec_string field =
     vbind dec_u32 (\<lambda>n.
     vthen (vguard (unat n > MAX_NAME_BYTES) (VerifyLimit field))
     (vbind (dec_take (unat n)) (\<lambda>b.
     vthen (vguard (\<not> valid_utf8 b) (VerifyInvalid ''UTF-8 string'')) (vret b))))"

definition dec_stream_name :: "(VerifyError, StreamName) verifying" where
  "dec_stream_name =
     vbind (dec_string ''stream name bytes'') (\<lambda>b.
       case StreamName_parse b of Inl _ \<Rightarrow> vfail (VerifyInvalid ''stream name'') | Inr name \<Rightarrow> vret name)"

definition dec_bookmark_name :: "(VerifyError, BookmarkName) verifying" where
  "dec_bookmark_name =
     vbind (dec_string ''bookmark name bytes'') (\<lambda>b.
       case BookmarkName_parse b of Inl _ \<Rightarrow> vfail (VerifyInvalid ''bookmark name'') | Inr name \<Rightarrow> vret name)"

text \<open>
  \<open>count\<close>: a length prefix may not exceed its limit, and the items it promises must fit in the bytes left.
\<close>

definition dec_count :: "u64 \<Rightarrow> string \<Rightarrow> u64 \<Rightarrow> (VerifyError, u64) verifying" where
  "dec_count limit name minimum_item_bytes =
     vbind dec_u64 (\<lambda>value env s.
       if value > limit then Inl (VerifyLimit name)
       else if unat value * unat minimum_item_bytes \<ge> 2 ^ 64 then Inl (VerifyLimit name)
       else if unat value * unat minimum_item_bytes > length (vs_rest s) then Inl VerifyTruncated
       else Inr (value, s))"

section \<open>The parse calculus\<close>

named_theorems parse_intros \<open>how a verification step reads the bytes an encoder wrote\<close>

definition parses ::
  "('e, 'a) verifying \<Rightarrow> verify_env \<Rightarrow> bytes \<Rightarrow> 'a \<Rightarrow> DecodeBudget \<Rightarrow> DecodeBudget \<Rightarrow> bool" where
  "parses p env bs x b b' \<longleftrightarrow>
     (\<forall>r n rd. \<exists>n'. p env \<lparr>vs_rest = bs @ r, vs_budget = b, vs_polls = n, vs_reader = rd\<rparr> =
       Inr (x, \<lparr>vs_rest = r, vs_budget = b', vs_polls = n', vs_reader = rd\<rparr>))"

text \<open>What is assumed of the two libraries, and a caller that never cancels.\<close>

definition libraries_ok :: "verify_env \<Rightarrow> bool" where
  "libraries_ok env \<longleftrightarrow> (\<forall>u. ve_parse_uuid env (uuid_text (to_be_bytes u)) = Some u) \<and> (\<forall>m. length (ve_sha256 env m) = 32)"

definition never_cancelled :: "verify_env \<Rightarrow> verify_env" where
  "never_cancelled env = env\<lparr>ve_cancelled := \<lambda>_. False\<rparr>"

lemma never_cancelled_simps [simp]:
  "ve_sha256 (never_cancelled env) = ve_sha256 env" "ve_parse_uuid (never_cancelled env) = ve_parse_uuid env"
  "\<not> ve_cancelled (never_cancelled env) n" "never_cancelled (never_cancelled env) = never_cancelled env"
  "libraries_ok (never_cancelled env) = libraries_ok env"
  by (simp_all add: never_cancelled_def libraries_ok_def)

lemma parsesI:
  "(\<And>r n rd. \<exists>n'. p env \<lparr>vs_rest = bs @ r, vs_budget = b, vs_polls = n, vs_reader = rd\<rparr> =
      Inr (x, \<lparr>vs_rest = r, vs_budget = b', vs_polls = n', vs_reader = rd\<rparr>)) \<Longrightarrow> parses p env bs x b b'"
  by (simp add: parses_def)

lemma parsesE:
  assumes "parses p env bs x b b'"
  obtains n' where "p env \<lparr>vs_rest = bs @ r, vs_budget = b, vs_polls = n, vs_reader = rd\<rparr> =
      Inr (x, \<lparr>vs_rest = r, vs_budget = b', vs_polls = n', vs_reader = rd\<rparr>)"
  using assms unfolding parses_def by blast

lemma parses_ret: "parses (vret x) env [] x b b"
  by (rule parsesI) (simp add: vret_def)

lemma parses_ret_eq [parse_intros]: "x = y \<Longrightarrow> parses (vret x) env [] y b b"
  by (simp add: parses_ret)

lemma parses_bind [parse_intros]:
  assumes "parses p env bs x b b'" "parses (f x) env cs y b' b''"
  shows "parses (vbind p f) env (bs @ cs) y b b''"
proof (rule parsesI)
  fix r n rd
  obtain n1 where 1: "p env \<lparr>vs_rest = bs @ cs @ r, vs_budget = b, vs_polls = n, vs_reader = rd\<rparr> =
      Inr (x, \<lparr>vs_rest = cs @ r, vs_budget = b', vs_polls = n1, vs_reader = rd\<rparr>)"
    using parsesE [OF assms(1), of "cs @ r" n rd] by blast
  obtain n2 where "f x env \<lparr>vs_rest = cs @ r, vs_budget = b', vs_polls = n1, vs_reader = rd\<rparr> =
      Inr (y, \<lparr>vs_rest = r, vs_budget = b'', vs_polls = n2, vs_reader = rd\<rparr>)"
    using parsesE [OF assms(2), of r n1 rd] by blast
  with 1 show "\<exists>n'. vbind p f env \<lparr>vs_rest = (bs @ cs) @ r, vs_budget = b, vs_polls = n, vs_reader = rd\<rparr> =
      Inr (y, \<lparr>vs_rest = r, vs_budget = b'', vs_polls = n', vs_reader = rd\<rparr>)"
    by (auto simp: vbind_def)
qed

lemma parses_last: "parses p env bs x b b' \<Longrightarrow> f x = vret y \<Longrightarrow> parses (vbind p f) env bs y b b'"
  using parses_bind [of p env bs x b b' f "[]" y b'] by (simp add: parses_ret)

lemma parses_then [parse_intros]:
  "parses p env [] () b b' \<Longrightarrow> parses q env cs y b' b'' \<Longrightarrow> parses (vthen p q) env cs y b b''"
  using parses_bind [of p env "[]" "()" b b' "\<lambda>_. q" cs y b''] by (simp add: vthen_def)

lemma parses_guard [parse_intros]: "\<not> bad \<Longrightarrow> parses (vguard bad e) env [] () b b"
  by (simp add: vguard_def parses_ret)

lemma parses_check [parse_intros]: "parses check_cancelled (never_cancelled env) [] () b b"
  by (rule parsesI) (simp add: check_cancelled_def)

lemma parses_budget [parse_intros]: "f b = Inr b' \<Longrightarrow> parses (vbudget f) env [] () b b'"
  by (rule parsesI) (simp add: vbudget_def)

lemma parses_take: "length bs = n \<Longrightarrow> parses (dec_take n) env bs bs b b"
  by (rule parsesI) (auto simp: dec_take_def)

lemma u16_bytes [simp]:
  "length (to_be_bytes (w :: u16)) = 2" "from_be_bytes (to_be_bytes (w :: u16)) = w"
  using unat_lt_bytes [of w] by (simp_all add: to_be_bytes_def from_be_bytes_def nat_of_be_nat)

lemma parses_words [parse_intros]:
  "parses dec_u8 env [w] w b b" "parses dec_u16 env (to_be_bytes w2) w2 b b"
  "parses dec_u32 env (to_be_bytes w4) w4 b b" "parses dec_u64 env (to_be_bytes w8) w8 b b"
  "parses dec_export env (to_be_bytes w16) w16 b b"
  unfolding dec_u8_def dec_u16_def dec_u32_def dec_u64_def dec_export_def
  by (rule parses_last [OF parses_take]; simp add: length_to_be_bytes from_to_be_bytes)+

lemma parses_uuid:
  "libraries_ok env \<Longrightarrow> parses (parse_uuid (to_be_bytes u) field) env [] u b b"
  by (rule parsesI) (simp add: parse_uuid_def libraries_ok_def)

lemma parses_ids [parse_intros]:
  assumes "libraries_ok env"
  shows "parses dec_cluster env (to_be_bytes u) u b b" "parses dec_stream env (to_be_bytes u) u b b"
    "parses dec_bookmark env (to_be_bytes u) u b b"
proof -
  have "parses (vbind (dec_take 16) (\<lambda>b. parse_uuid b field)) env (to_be_bytes u @ []) u b b" for field
    by (rule parses_bind, rule parses_take, simp add: length_to_be_bytes, rule parses_uuid [OF assms])
  then show "parses dec_cluster env (to_be_bytes u) u b b" "parses dec_stream env (to_be_bytes u) u b b"
    "parses dec_bookmark env (to_be_bytes u) u b b"
    by (simp_all add: dec_cluster_def dec_stream_def dec_bookmark_def)
qed

lemma parses_nonzero [parse_intros]:
  "g \<noteq> 0 \<Longrightarrow> parses dec_group env (to_be_bytes g) g b b" "g \<noteq> 0 \<Longrightarrow> parses dec_node env (to_be_bytes g) g b b"
  unfolding dec_group_def dec_node_def dec_nonzero_def
  by (rule parses_last, rule parses_words, simp add: nonzero_new_def)+

definition name_ok :: "utf8 \<Rightarrow> bool" where
  "name_ok name \<longleftrightarrow> valid_utf8 name \<and> name \<noteq> [] \<and> length name \<le> 255 \<and> \<not> has_control name"

definition string_bytes :: "utf8 \<Rightarrow> bytes" where
  "string_bytes name = to_be_bytes (of_nat (length name) :: u32) @ name"

lemma parses_string:
  assumes "name_ok name"
  shows "parses (dec_string field) env (string_bytes name) name b b"
proof -
  have n: "unat (of_nat (length name) :: u32) = length name"
    using assms by (simp add: name_ok_def unat_of_nat)
  have "parses (vthen (vguard (\<not> valid_utf8 name) (VerifyInvalid ''UTF-8 string'')) (vret name)) env [] name b b"
    using assms by (intro parses_then [OF parses_guard parses_ret]) (simp add: name_ok_def)
  then have "parses (vbind (dec_take (length name)) (\<lambda>b.
      vthen (vguard (\<not> valid_utf8 b) (VerifyInvalid ''UTF-8 string'')) (vret b))) env (name @ []) name b b"
    by (intro parses_bind [OF parses_take]) simp_all
  then show ?thesis
    unfolding dec_string_def string_bytes_def
    using assms
    by (intro parses_bind [OF parses_words(3)] parses_then [OF parses_guard]) (simp_all add: n name_ok_def MAX_NAME_BYTES_def)
qed

lemma parses_names [parse_intros]:
  assumes "name_ok name"
  shows "parses dec_stream_name env (string_bytes name) name b b" "parses dec_bookmark_name env (string_bytes name) name b b"
proof -
  have "StreamName_parse name = Inr name" "BookmarkName_parse name = Inr name"
    using assms by (simp_all add: name_ok_def StreamName_parse_def BookmarkName_parse_def bounded_text_parse_def)
  then show "parses dec_stream_name env (string_bytes name) name b b" "parses dec_bookmark_name env (string_bytes name) name b b"
    unfolding dec_stream_name_def dec_bookmark_name_def
    by (auto intro!: parses_last [OF parses_string [OF assms]])
qed

lemma parses_count:
  assumes "v \<le> limit" "unat v * unat item \<le> length cs" "length cs < 2 ^ 64" "parses (f v) env cs y b b'"
  shows "parses (vbind (dec_count limit name item) f) env (to_be_bytes v @ cs) y b b'"
proof (rule parsesI)
  fix r n rd
  obtain n1 where 1: "dec_u64 env \<lparr>vs_rest = to_be_bytes v @ cs @ r, vs_budget = b, vs_polls = n, vs_reader = rd\<rparr> =
      Inr (v, \<lparr>vs_rest = cs @ r, vs_budget = b, vs_polls = n1, vs_reader = rd\<rparr>)"
    using parsesE [OF parses_words(4) [of env v b], of "cs @ r" n rd] by blast
  obtain n2 where "f v env \<lparr>vs_rest = cs @ r, vs_budget = b, vs_polls = n1, vs_reader = rd\<rparr> =
      Inr (y, \<lparr>vs_rest = r, vs_budget = b', vs_polls = n2, vs_reader = rd\<rparr>)"
    using parsesE [OF assms(4), of r n1 rd] by blast
  with 1 assms(1-3) show "\<exists>n'. vbind (dec_count limit name item) f env
      \<lparr>vs_rest = (to_be_bytes v @ cs) @ r, vs_budget = b, vs_polls = n, vs_reader = rd\<rparr> =
      Inr (y, \<lparr>vs_rest = r, vs_budget = b', vs_polls = n', vs_reader = rd\<rparr>)"
    by (auto simp: vbind_def dec_count_def)
qed

lemma reserve_each_free [simp]: "reserve_each (\<lambda>_. Inr) xs b = Inr b"
  by (induction xs) simp_all

end
