(* ===== verification/Artifact_Validate.thy ===== *)
theory Artifact_Validate
  imports Artifact_Codec
begin

text \<open>
  The semantic checks an export passes when it is written and again when it is verified: \<open>validate.rs\<close> of
  \<open>crates/light-stream-export\<close>. The writer and the verifier run the same functions, on a context taken from
  the document and from the decoded manifest and control section. Ordered maps are tables, ordered sets are
  sets, and the mutable \<open>DataValidation\<close> is returned updated.
\<close>

datatype ModelError = ModelLimit string | ModelNonCanonical string | ModelInconsistent string

type_synonym partition_ref = "StreamId \<times> PartitionId"

record CatalogValidation =
  cav_partitions :: "(partition_ref, GroupId) table"

record DataValidation =
  dav_seen :: "partition_ref set"
  dav_tails :: "(partition_ref, RecordOffset) table"
  dav_totals :: ExportTotalsV1

definition DataValidation_default :: DataValidation where
  "DataValidation_default = \<lparr>dav_seen = {}, dav_tails = [], dav_totals = ExportTotalsV1_default\<rparr>"

record ValidationContext =
  vc_source_cluster :: ClusterId
  vc_export_id :: ExportIdV1
  vc_selected_streams :: "StreamId list"
  vc_cut :: QuiescentCut
  vc_control :: ControlSectionV1
  vc_required_features :: u64
  vc_exclusions :: ExportExclusionsV1

definition ValidationContext_from_document :: "ExportDocumentV1 \<Rightarrow> ValidationContext" where
  "ValidationContext_from_document d =
     \<lparr>vc_source_cluster = xdoc_source_cluster d, vc_export_id = xdoc_export_id d,
      vc_selected_streams = xdoc_selected_streams d, vc_cut = xdoc_cut d, vc_control = xdoc_control d,
      vc_required_features = xdoc_required_features d, vc_exclusions = xdoc_exclusions d\<rparr>"

definition ValidationContext_from_manifest :: "ExportManifestV1 \<Rightarrow> ControlSectionV1 \<Rightarrow> ValidationContext" where
  "ValidationContext_from_manifest m control =
     \<lparr>vc_source_cluster = xman_source_cluster m, vc_export_id = xman_export_id m,
      vc_selected_streams = xman_selected_streams m, vc_cut = xman_cut m, vc_control = control,
      vc_required_features = xman_required_features m, vc_exclusions = xman_exclusions m\<rparr>"

section \<open>Shared checks\<close>

definition reject_if :: "bool \<Rightarrow> 'e \<Rightarrow> 'e + unit" where
  "reject_if bad e = (if bad then Inl e else Inr ())"

lemma reject_if_Inr [simp]: "reject_if bad e = Inr u \<longleftrightarrow> \<not> bad"
  by (simp add: reject_if_def)

definition out_of_order :: "'a::linorder list \<Rightarrow> bool" where
  "out_of_order xs \<longleftrightarrow> list_ex (\<lambda>(a, b). a \<ge> b) (zip xs (tl xs))"

definition require_strict :: "'a::linorder list \<Rightarrow> string \<Rightarrow> ModelError + unit" where
  "require_strict xs field = reject_if (out_of_order xs) (ModelNonCanonical field)"

definition check_u64 :: "u64 \<Rightarrow> u64 \<Rightarrow> string \<Rightarrow> ModelError + unit" where
  "check_u64 v limit name = reject_if (v > limit) (ModelLimit name)"

definition count_u64 :: "nat \<Rightarrow> string \<Rightarrow> ModelError + u64" where
  "count_u64 n name = (if n < 2 ^ 64 then Inr (of_nat n) else Inl (ModelLimit name))"

definition check_count :: "nat \<Rightarrow> u64 \<Rightarrow> string \<Rightarrow> ModelError + unit" where
  "check_count n limit name = bind_result (count_u64 n name) (\<lambda>v. check_u64 v limit name)"

definition add_u64 :: "u64 \<Rightarrow> u64 \<Rightarrow> string \<Rightarrow> ModelError + u64" where
  "add_u64 a b name = ok_or (ModelLimit name) (checked_add a b)"

fun try_each :: "('a \<Rightarrow> 's \<Rightarrow> 'e + 's) \<Rightarrow> 'a list \<Rightarrow> 's \<Rightarrow> 'e + 's" where
  "try_each f [] s = Inr s"
| "try_each f (x # xs) s = bind_result (f x s) (try_each f xs)"

section \<open>Bookmarks\<close>

text \<open>
  The bookmark loops keep the identities seen so far, the publication number the next bookmark must have
  and the names of the live bookmarks.
\<close>

record bookmark_scan =
  bsc_identities :: "BookmarkId set"
  bsc_expected_publication :: u64
  bsc_active_names :: "BookmarkName set"

definition scan_bookmark ::
  "string \<Rightarrow> string \<Rightarrow> string \<Rightarrow> BookmarkId \<Rightarrow> u64 \<Rightarrow> BookmarkLifecycle \<Rightarrow> BookmarkName \<Rightarrow> bookmark_scan \<Rightarrow> ModelError + bookmark_scan"
where
  "scan_bookmark ids order names bid publication lifecycle name s =
     bind_result (reject_if (bid \<in> bsc_identities s) (ModelNonCanonical ids)) (\<lambda>_.
     bind_result (reject_if (publication \<noteq> bsc_expected_publication s) (ModelNonCanonical order)) (\<lambda>_.
     bind_result (add_u64 (bsc_expected_publication s) 1 ''bookmarks'') (\<lambda>expected.
     bind_result (reject_if (lifecycle = BookmarkAvailable \<and> name \<in> bsc_active_names s) (ModelNonCanonical names)) (\<lambda>_.
     Inr \<lparr>bsc_identities = insert bid (bsc_identities s), bsc_expected_publication = expected,
          bsc_active_names = (if lifecycle = BookmarkAvailable then insert name (bsc_active_names s) else bsc_active_names s)\<rparr>))))"

definition validate_stream_bookmark ::
  "ValidationContext \<Rightarrow> StreamId \<Rightarrow> PartitionPlacement list \<Rightarrow> CommittedStreamBookmark \<Rightarrow> bookmark_scan \<Rightarrow> ModelError + bookmark_scan"
where
  "validate_stream_bookmark ctx stream placements bm s =
     (let vector = sb_vector bm; positions = sv_positions vector
      in bind_result (scan_bookmark ''stream bookmark IDs'' ''stream bookmarks'' ''stream bookmark names''
             (sb_id bm) (sb_publication bm) (sb_lifecycle bm) (sb_name bm) s) (\<lambda>s'.
         bind_result (reject_if (sv_cluster vector \<noteq> vc_source_cluster ctx \<or> sv_stream vector \<noteq> stream)
             (ModelInconsistent ''stream bookmark identity'')) (\<lambda>_.
         bind_result (reject_if (out_of_order (map (pk_partition \<circ> cc_partition) positions))
             (ModelNonCanonical ''stream bookmark positions'')) (\<lambda>_.
         bind_result (reject_if (length positions \<noteq> length placements \<or>
               list_ex (\<lambda>(position, placement). pk_partition (cc_partition position) \<noteq> pp_partition placement)
                 (zip positions placements))
             (ModelInconsistent ''stream bookmark partitions'')) (\<lambda>_.
         bind_result (reject_if (list_ex (\<lambda>position. cc_cluster position \<noteq> vc_source_cluster ctx \<or>
               pk_stream (cc_partition position) \<noteq> stream) positions)
             (ModelInconsistent ''stream bookmark position'')) (\<lambda>_.
         Inr s'))))))"

definition validate_stream_bookmarks ::
  "ValidationContext \<Rightarrow> StreamId \<Rightarrow> PartitionPlacement list \<Rightarrow> u64 \<Rightarrow> CommittedStreamBookmark list \<Rightarrow> BookmarkId set
   \<Rightarrow> ModelError + BookmarkId set" where
  "validate_stream_bookmarks ctx stream placements ceiling bookmarks identities =
     bind_result (try_each (validate_stream_bookmark ctx stream placements) bookmarks
         \<lparr>bsc_identities = identities, bsc_expected_publication = 1, bsc_active_names = {}\<rparr>) (\<lambda>s.
     bind_result (reject_if (ceiling \<noteq> saturating_sub (bsc_expected_publication s) 1)
         (ModelInconsistent ''stream bookmark publication ceiling'')) (\<lambda>_.
     Inr (bsc_identities s)))"

definition validate_partition_bookmark ::
  "ValidationContext \<Rightarrow> StreamId \<Rightarrow> PartitionId \<Rightarrow> RecordOffset \<Rightarrow> CommittedBookmark \<Rightarrow> bookmark_scan \<Rightarrow> ModelError + bookmark_scan"
where
  "validate_partition_bookmark ctx stream part tail bm s =
     (let cursor = cb_cursor bm
      in bind_result (scan_bookmark ''partition bookmark IDs'' ''partition bookmarks'' ''partition bookmark names''
             (cb_id bm) (cb_publication bm) (cb_lifecycle bm) (cb_name bm) s) (\<lambda>s'.
         bind_result (reject_if (cc_cluster cursor \<noteq> vc_source_cluster ctx \<or> pk_stream (cc_partition cursor) \<noteq> stream \<or>
               pk_partition (cc_partition cursor) \<noteq> part)
             (ModelInconsistent ''partition bookmark identity'')) (\<lambda>_.
         bind_result (reject_if (cc_next_offset cursor > tail) (ModelInconsistent ''partition bookmark target'')) (\<lambda>_.
         Inr s'))))"

definition validate_partition_bookmarks ::
  "ValidationContext \<Rightarrow> StreamId \<Rightarrow> PartitionId \<Rightarrow> RecordOffset \<Rightarrow> u64 \<Rightarrow> CommittedBookmark list \<Rightarrow> BookmarkId set
   \<Rightarrow> ModelError + BookmarkId set" where
  "validate_partition_bookmarks ctx stream part tail ceiling bookmarks identities =
     bind_result (try_each (validate_partition_bookmark ctx stream part tail) bookmarks
         \<lparr>bsc_identities = identities, bsc_expected_publication = 1, bsc_active_names = {}\<rparr>) (\<lambda>s.
     bind_result (reject_if (ceiling \<noteq> saturating_sub (bsc_expected_publication s) 1)
         (ModelInconsistent ''partition bookmark publication ceiling'')) (\<lambda>_.
     Inr (bsc_identities s)))"

section \<open>The control section\<close>

record control_scan =
  csc_partitions :: "(partition_ref, GroupId) table"
  csc_bookmark_count :: u64
  csc_stream_names :: "StreamName set"
  csc_bookmark_ids :: "BookmarkId set"

definition validate_placement ::
  "GroupId set \<Rightarrow> StreamId \<Rightarrow> PartitionPlacement \<Rightarrow> (partition_ref, GroupId) table \<Rightarrow> ModelError + (partition_ref, GroupId) table"
where
  "validate_placement configured stream placement partitions =
     bind_result (reject_if (pp_group placement \<notin> configured) (ModelInconsistent ''placement data group'')) (\<lambda>_.
     bind_result (reject_if (tget partitions (stream, pp_partition placement) \<noteq> None) (ModelNonCanonical ''placements'')) (\<lambda>_.
     Inr (tput partitions (stream, pp_partition placement) (pp_group placement))))"

definition validate_stream :: "ValidationContext \<Rightarrow> ActiveStreamV1 \<Rightarrow> control_scan \<Rightarrow> ModelError + control_scan" where
  "validate_stream ctx stream s =
     (let d = xstr_descriptor stream; control = vc_control ctx; configured = set (xctl_configured_data_groups control)
      in bind_result (count_u64 (length (sd_placements d)) ''partitions'') (\<lambda>partition_count.
         bind_result (reject_if (ucast (xctl_max_partitions_per_stream control) < partition_count)
             (ModelInconsistent ''catalog max partitions per stream'')) (\<lambda>_.
         bind_result (reject_if (sd_cluster d \<noteq> vc_source_cluster ctx) (ModelInconsistent ''stream source cluster'')) (\<lambda>_.
         bind_result (reject_if (sd_lifecycle d \<noteq> Active) (ModelInconsistent ''stream lifecycle'')) (\<lambda>_.
         bind_result (reject_if (sd_name d \<in> csc_stream_names s) (ModelNonCanonical ''stream names'')) (\<lambda>_.
         bind_result (reject_if (sd_placements d = []) (ModelInconsistent ''stream placements'')) (\<lambda>_.
         bind_result (require_strict (map pp_partition (sd_placements d)) ''placements'') (\<lambda>_.
         bind_result (try_each (validate_placement configured (sd_stream d)) (sd_placements d) (csc_partitions s)) (\<lambda>partitions.
         bind_result (require_strict (sd_ready_groups d) ''ready groups'') (\<lambda>_.
         bind_result (reject_if (list_ex (\<lambda>g. g \<notin> configured) (sd_ready_groups d)) (ModelInconsistent ''ready data group'')) (\<lambda>_.
         bind_result (reject_if (set (map pp_group (sd_placements d)) \<noteq> set (sd_ready_groups d))
             (ModelInconsistent ''active stream ready groups'')) (\<lambda>_.
         bind_result (validate_stream_bookmarks ctx (sd_stream d) (sd_placements d) (xstr_bookmark_publication_ceiling stream)
             (xstr_bookmarks stream) (csc_bookmark_ids s)) (\<lambda>ids.
         bind_result (count_u64 (length (xstr_bookmarks stream)) ''bookmarks'') (\<lambda>bookmarks.
         bind_result (add_u64 (csc_bookmark_count s) bookmarks ''bookmarks'') (\<lambda>total_bookmarks.
         Inr \<lparr>csc_partitions = partitions, csc_bookmark_count = total_bookmarks,
              csc_stream_names = insert (sd_name d) (csc_stream_names s), csc_bookmark_ids = ids\<rparr>)))))))))))))))"

definition validate_control :: "ValidationContext \<Rightarrow> ExportLimits \<Rightarrow> ModelError + CatalogValidation" where
  "validate_control ctx limits =
     (let control = vc_control ctx; selected = vc_selected_streams ctx;
          cut_groups = map fst (qc_data (vc_cut ctx));
          control_streams = map (sd_stream \<circ> xstr_descriptor) (xctl_streams control)
      in bind_result (reject_if (vc_required_features ctx \<noteq> REQUIRED_FEATURES_V1) (ModelInconsistent ''required feature bits'')) (\<lambda>_.
         bind_result (reject_if (vc_exclusions ctx \<noteq> EXCLUSIONS_V1) (ModelInconsistent ''fixed exclusions'')) (\<lambda>_.
         bind_result (reject_if (xctl_source_cluster control \<noteq> vc_source_cluster ctx) (ModelInconsistent ''control source cluster'')) (\<lambda>_.
         bind_result (reject_if (xctl_export_id control \<noteq> vc_export_id ctx) (ModelInconsistent ''control export ID'')) (\<lambda>_.
         bind_result (reject_if (xctl_cut control \<noteq> qc_control (vc_cut ctx)) (ModelInconsistent ''control cut'')) (\<lambda>_.
         bind_result (reject_if (selected = []) (ModelInconsistent ''selected streams'')) (\<lambda>_.
         bind_result (count_u64 (length selected) ''streams'') (\<lambda>selected_count.
         bind_result (reject_if (xctl_max_streams control = 0 \<or> ucast (xctl_max_streams control) < selected_count)
             (ModelInconsistent ''catalog max streams'')) (\<lambda>_.
         bind_result (reject_if (xctl_max_partitions_per_stream control = 0)
             (ModelInconsistent ''catalog max partitions per stream'')) (\<lambda>_.
         bind_result (require_strict selected ''selected streams'') (\<lambda>_.
         bind_result (check_count (length selected) (xlim_streams limits) ''streams'') (\<lambda>_.
         bind_result (reject_if (xctl_configured_data_groups control \<noteq> cut_groups) (ModelInconsistent ''configured data groups'')) (\<lambda>_.
         bind_result (reject_if (cut_groups = [] \<or> length cut_groups > MAX_DATA_GROUPS)
             (ModelInconsistent ''configured data groups'')) (\<lambda>_.
         bind_result (require_strict (xctl_configured_data_groups control) ''configured data groups'') (\<lambda>_.
         bind_result (require_strict control_streams ''streams'') (\<lambda>_.
         bind_result (reject_if (control_streams \<noteq> selected) (ModelInconsistent ''selected streams'')) (\<lambda>_.
         bind_result (reject_if (xctl_catalog_revision control = 0 \<or>
               xctl_catalog_revision control < fold max (map (sd_revision \<circ> xstr_descriptor) (xctl_streams control)) 0)
             (ModelInconsistent ''catalog revision'')) (\<lambda>_.
         bind_result (try_each (validate_stream ctx) (xctl_streams control)
             \<lparr>csc_partitions = [], csc_bookmark_count = 0, csc_stream_names = {}, csc_bookmark_ids = {}\<rparr>) (\<lambda>s.
         bind_result (check_u64 (csc_bookmark_count s) (xlim_bookmarks limits) ''bookmarks'') (\<lambda>_.
         bind_result (check_count (length (csc_partitions s)) (xlim_partitions limits) ''partitions'') (\<lambda>_.
         Inr \<lparr>cav_partitions = csc_partitions s\<rparr>)))))))))))))))))))))"

section \<open>Data sections\<close>

definition validate_record :: "CommittedRecord \<Rightarrow> u64 \<times> u64 \<Rightarrow> ModelError + u64 \<times> u64" where
  "validate_record r s =
     (case s of (expected_offset, payload_bytes) \<Rightarrow>
       bind_result (reject_if (cr_offset r \<noteq> expected_offset) (ModelNonCanonical ''records'')) (\<lambda>_.
       bind_result (add_u64 expected_offset 1 ''records'') (\<lambda>expected_offset'.
       bind_result (count_u64 (length (cr_payload r)) ''payload bytes'') (\<lambda>payload.
       bind_result (add_u64 payload_bytes payload ''payload bytes'') (\<lambda>payload_bytes'.
       Inr (expected_offset', payload_bytes'))))))"

definition validate_partition ::
  "ValidationContext \<Rightarrow> GroupId \<Rightarrow> CatalogValidation \<Rightarrow> PartitionV1 \<Rightarrow> BookmarkId set \<times> DataValidation
   \<Rightarrow> ModelError + BookmarkId set \<times> DataValidation" where
  "validate_partition ctx grp catalog p s =
     (case s of (bookmark_ids, state) \<Rightarrow>
       let key = (xpar_stream p, xpar_partition p); totals = dav_totals state
       in bind_result (reject_if (xpar_source_cluster p \<noteq> vc_source_cluster ctx) (ModelInconsistent ''partition source cluster'')) (\<lambda>_.
          bind_result (reject_if (tget (cav_partitions catalog) key \<noteq> Some grp) (ModelInconsistent ''partition placement'')) (\<lambda>_.
          bind_result (reject_if (key \<in> dav_seen state) (ModelNonCanonical ''partitions'')) (\<lambda>_.
          bind_result (reject_if (xpar_retention_floor p > xpar_tail p) (ModelInconsistent ''partition floor and tail'')) (\<lambda>_.
          bind_result (ok_or (ModelInconsistent ''partition floor and tail'') (checked_sub (xpar_tail p) (xpar_retention_floor p))) (\<lambda>expected_records.
          bind_result (count_u64 (length (xpar_records p)) ''records'') (\<lambda>record_count.
          bind_result (reject_if (record_count \<noteq> expected_records) (ModelInconsistent ''partition record range'')) (\<lambda>_.
          bind_result (try_each validate_record (xpar_records p) (xpar_retention_floor p, xtot_payload_bytes totals)) (\<lambda>(_, payload_bytes).
          bind_result (validate_partition_bookmarks ctx (xpar_stream p) (xpar_partition p) (xpar_tail p)
              (xpar_bookmark_publication_ceiling p) (xpar_bookmarks p) bookmark_ids) (\<lambda>ids.
          bind_result (add_u64 (xtot_partitions totals) 1 ''partitions'') (\<lambda>partitions.
          bind_result (add_u64 (xtot_records totals) expected_records ''records'') (\<lambda>records.
          bind_result (count_u64 (length (xpar_bookmarks p)) ''bookmarks'') (\<lambda>bookmark_count.
          bind_result (add_u64 (xtot_partition_bookmarks totals) bookmark_count ''bookmarks'') (\<lambda>partition_bookmarks.
          Inr (ids, \<lparr>dav_seen = insert key (dav_seen state), dav_tails = tput (dav_tails state) key (xpar_tail p),
            dav_totals = totals\<lparr>xtot_payload_bytes := payload_bytes, xtot_partitions := partitions, xtot_records := records,
              xtot_partition_bookmarks := partition_bookmarks\<rparr>\<rparr>)))))))))))))))"

definition validate_data_group ::
  "ValidationContext \<Rightarrow> GroupId \<Rightarrow> GroupCut \<Rightarrow> DataGroupV1 \<Rightarrow> CatalogValidation \<Rightarrow> DataValidation \<Rightarrow> ExportLimits
   \<Rightarrow> ModelError + DataValidation" where
  "validate_data_group ctx expected_group expected_cut data catalog state limits =
     bind_result (reject_if (xgrp_source_cluster data \<noteq> vc_source_cluster ctx) (ModelInconsistent ''data source cluster'')) (\<lambda>_.
     bind_result (reject_if (xgrp_export_id data \<noteq> vc_export_id ctx) (ModelInconsistent ''data export ID'')) (\<lambda>_.
     bind_result (reject_if (xgrp_group data \<noteq> expected_group \<or> xgrp_cut data \<noteq> expected_cut \<or>
         gc_group (xgrp_cut data) \<noteq> xgrp_group data) (ModelInconsistent ''data group cut'')) (\<lambda>_.
     bind_result (require_strict (map (\<lambda>p. (xpar_stream p, xpar_partition p)) (xgrp_partitions data)) ''partitions'') (\<lambda>_.
     bind_result (try_each (validate_partition ctx (xgrp_group data) catalog) (xgrp_partitions data) ({}, state)) (\<lambda>(_, state').
     bind_result (check_u64 (xtot_partitions (dav_totals state')) (xlim_partitions limits) ''partitions'') (\<lambda>_.
     bind_result (check_u64 (xtot_records (dav_totals state')) (xlim_records limits) ''records'') (\<lambda>_.
     bind_result (check_u64 (xtot_payload_bytes (dav_totals state')) (xlim_payload_bytes limits) ''payload bytes'') (\<lambda>_.
     bind_result (add_u64 (xtot_partition_bookmarks (dav_totals state')) (xtot_stream_bookmarks (dav_totals state')) ''bookmarks'') (\<lambda>bookmarks.
     bind_result (check_u64 bookmarks (xlim_bookmarks limits) ''bookmarks'') (\<lambda>_.
     Inr state'))))))))))"

section \<open>Across the sections\<close>

definition validate_position :: "DataValidation \<Rightarrow> StreamId \<Rightarrow> CommittedCursor \<Rightarrow> unit \<Rightarrow> ModelError + unit" where
  "validate_position state stream position s =
     (case tget (dav_tails state) (stream, pk_partition (cc_partition position)) of
        None \<Rightarrow> Inl (ModelInconsistent ''stream bookmark partition'')
      | Some tail \<Rightarrow> reject_if (cc_next_offset position > tail) (ModelInconsistent ''stream bookmark target''))"

definition validate_targets :: "DataValidation \<Rightarrow> ActiveStreamV1 \<Rightarrow> unit \<Rightarrow> ModelError + unit" where
  "validate_targets state stream =
     try_each (\<lambda>bm. try_each (validate_position state (sd_stream (xstr_descriptor stream))) (sv_positions (sb_vector bm)))
       (xstr_bookmarks stream)"

definition count_stream_bookmarks :: "ActiveStreamV1 \<Rightarrow> u64 \<Rightarrow> ModelError + u64" where
  "count_stream_bookmarks stream n =
     bind_result (count_u64 (length (xstr_bookmarks stream)) ''bookmarks'') (\<lambda>m. add_u64 n m ''bookmarks'')"

definition finish_validation ::
  "ValidationContext \<Rightarrow> CatalogValidation \<Rightarrow> DataValidation \<Rightarrow> ExportLimits \<Rightarrow> ModelError + DataValidation" where
  "finish_validation ctx catalog state limits =
     (let streams = xctl_streams (vc_control ctx)
      in bind_result (reject_if (card (dav_seen state) \<noteq> length (cav_partitions catalog) \<or>
               list_ex (\<lambda>(key, _). key \<notin> dav_seen state) (cav_partitions catalog))
             (ModelInconsistent ''descriptor partitions'')) (\<lambda>_.
         bind_result (try_each (validate_targets state) streams ()) (\<lambda>_.
         bind_result (count_u64 (length (qc_data (vc_cut ctx))) ''data groups'') (\<lambda>data_groups.
         bind_result (count_u64 (length streams) ''streams'') (\<lambda>stream_count.
         bind_result (try_each count_stream_bookmarks streams 0) (\<lambda>stream_bookmarks.
         let totals = (dav_totals state)\<lparr>xtot_configured_data_groups := data_groups, xtot_streams := stream_count,
               xtot_stream_bookmarks := stream_bookmarks\<rparr>
         in bind_result (check_u64 stream_count (xlim_streams limits) ''streams'') (\<lambda>_.
            bind_result (add_u64 (xtot_partition_bookmarks totals) stream_bookmarks ''bookmarks'') (\<lambda>bookmarks.
            bind_result (check_u64 bookmarks (xlim_bookmarks limits) ''bookmarks'') (\<lambda>_.
            Inr (state\<lparr>dav_totals := totals\<rparr>))))))))))"

end
