(* ===== verification/Artifact_Encode.thy ===== *)
theory Artifact_Encode
  imports Artifact_Validate
begin

text \<open>
  The artifact writer: \<open>encode.rs\<close> of \<open>crates/light-stream-export\<close>. The output is a byte string that grows,
  with the bytes that entered the digest next to it; the source of the data groups is a function of the
  caller over a state of its own. A failed call leaves what was written before it. Writing to memory does
  not fail, so the I/O errors of the writer are absent. \<open>WritePanic\<close> is the \<open>unreachable!\<close> of
  \<open>map_decode_budget\<close>; \<open>budget_errors_are_limits\<close> shows that it is unreachable indeed.

  The second half gives the byte string of every model value and shows that an encoder that succeeds
  appends exactly that string and stays within its limit.
\<close>

section \<open>Encoding the model\<close>

definition enc_each :: "('a \<Rightarrow> encoding) \<Rightarrow> 'a list \<Rightarrow> encoding" where
  "enc_each f xs = enc_seq (map f xs)"

definition lifecycle_tag :: "BookmarkLifecycle \<Rightarrow> u8" where
  "lifecycle_tag l =
     (case l of BookmarkAvailable \<Rightarrow> BOOKMARK_LIFECYCLE_ACTIVE_V1 | BookmarkDeleted \<Rightarrow> BOOKMARK_LIFECYCLE_DELETED_V1)"

definition encode_cut :: "u64 \<Rightarrow> GroupCut \<Rightarrow> encoding" where
  "encode_cut limit c =
     enc_seq [enc_u64 limit (gc_group c), enc_u64 limit (gc_term c), enc_u64 limit (gc_leader c), enc_u64 limit (gc_applied_index c)]"

definition encode_position :: "u64 \<Rightarrow> CommittedCursor \<Rightarrow> encoding" where
  "encode_position limit c =
     enc_seq [enc_u32 limit (pk_partition (cc_partition c)), enc_u64 limit (cc_next_offset c)]"

definition encode_stream_bookmark :: "u64 \<Rightarrow> CommittedStreamBookmark \<Rightarrow> encoding" where
  "encode_stream_bookmark limit b =
     enc_seq [enc_uuid limit (sv_cluster (sb_vector b)), enc_uuid limit (sv_stream (sb_vector b)), enc_uuid limit (sb_id b),
       enc_string limit (sb_name b), enc_u64 limit (sb_publication b), enc_u8 limit (lifecycle_tag (sb_lifecycle b)),
       enc_len limit (length (sv_positions (sb_vector b))), enc_each (encode_position limit) (sv_positions (sb_vector b))]"

definition encode_placement :: "u64 \<Rightarrow> PartitionPlacement \<Rightarrow> encoding" where
  "encode_placement limit p = enc_seq [enc_u32 limit (pp_partition p), enc_u64 limit (pp_group p)]"

definition encode_stream :: "u64 \<Rightarrow> ActiveStreamV1 \<Rightarrow> encoding" where
  "encode_stream limit s =
     (let d = xstr_descriptor s
      in enc_seq [enc_uuid limit (sd_cluster d), enc_uuid limit (sd_stream d), enc_string limit (sd_name d),
           enc_u8 limit STREAM_LIFECYCLE_ACTIVE_V1, enc_u64 limit (sd_revision d),
           enc_len limit (length (sd_placements d)), enc_each (encode_placement limit) (sd_placements d),
           enc_len limit (length (sd_ready_groups d)), enc_each (enc_u64 limit) (sd_ready_groups d),
           enc_u64 limit (xstr_bookmark_publication_ceiling s),
           enc_len limit (length (xstr_bookmarks s)), enc_each (encode_stream_bookmark limit) (xstr_bookmarks s)])"

definition encode_control :: "ExportDocumentV1 \<Rightarrow> u64 \<Rightarrow> bytes option" where
  "encode_control doc limit =
     (let c = xdoc_control doc
      in enc_seq [enc_uuid limit (xctl_source_cluster c), enc_uuid limit (xctl_export_id c), encode_cut limit (xctl_cut c),
           enc_u64 limit (xctl_catalog_revision c), enc_u64 limit (xctl_assignment_cursor c), enc_u32 limit (xctl_max_streams c),
           enc_u32 limit (xctl_max_partitions_per_stream c),
           enc_len limit (length (xctl_configured_data_groups c)), enc_each (enc_u64 limit) (xctl_configured_data_groups c),
           enc_len limit (length (xctl_streams c)), enc_each (encode_stream limit) (xctl_streams c)] [])"

definition encode_partition_bookmark :: "u64 \<Rightarrow> CommittedBookmark \<Rightarrow> encoding" where
  "encode_partition_bookmark limit b =
     (let c = cb_cursor b
      in enc_seq [enc_uuid limit (cc_cluster c), enc_uuid limit (pk_stream (cc_partition c)),
           enc_u32 limit (pk_partition (cc_partition c)), enc_uuid limit (cb_id b), enc_string limit (cb_name b),
           enc_u64 limit (cc_next_offset c), enc_u64 limit (cb_publication b), enc_u8 limit (lifecycle_tag (cb_lifecycle b))])"

definition encode_record :: "u64 \<Rightarrow> CommittedRecord \<Rightarrow> encoding" where
  "encode_record limit r = enc_seq [enc_u64 limit (cr_offset r), enc_bytes limit (cr_payload r)]"

definition encode_partition :: "u64 \<Rightarrow> PartitionV1 \<Rightarrow> encoding" where
  "encode_partition limit p =
     enc_seq [enc_uuid limit (xpar_source_cluster p), enc_uuid limit (xpar_stream p), enc_u32 limit (xpar_partition p),
       enc_u64 limit (xpar_retention_floor p), enc_u64 limit (xpar_tail p), enc_u64 limit (xpar_bookmark_publication_ceiling p),
       enc_len limit (length (xpar_records p)), enc_each (encode_record limit) (xpar_records p),
       enc_len limit (length (xpar_bookmarks p)), enc_each (encode_partition_bookmark limit) (xpar_bookmarks p)]"

definition encode_data_group :: "DataGroupV1 \<Rightarrow> u64 \<Rightarrow> bytes option" where
  "encode_data_group data limit =
     enc_seq [enc_uuid limit (xgrp_source_cluster data), enc_uuid limit (xgrp_export_id data), enc_u64 limit (xgrp_group data),
       encode_cut limit (xgrp_cut data), enc_len limit (length (xgrp_partitions data)),
       enc_each (encode_partition limit) (xgrp_partitions data)] []"

definition encode_group_option :: "u64 \<Rightarrow> GroupId option \<Rightarrow> encoding" where
  "encode_group_option limit g =
     (case g of None \<Rightarrow> enc_u8 limit OPTION_NONE_V1 | Some v \<Rightarrow> enc_seq [enc_u8 limit OPTION_SOME_V1, enc_u64 limit v])"

definition encode_section :: "u64 \<Rightarrow> SectionDescriptorV1 \<Rightarrow> encoding" where
  "encode_section limit s =
     enc_seq [enc_u64 limit (xsec_ordinal s), enc_u16 limit (section_kind_number (xsec_kind s)), enc_u16 limit (xsec_version s),
       encode_group_option limit (xsec_group s), enc_u64 limit (xsec_file_offset s), enc_u64 limit (xsec_item_count s),
       enc_u64 limit (xsec_payload_length s), enc_raw limit (xsec_payload_sha256 s)]"

definition encode_totals :: "u64 \<Rightarrow> ExportTotalsV1 \<Rightarrow> encoding" where
  "encode_totals limit t =
     enc_seq [enc_u64 limit (xtot_configured_data_groups t), enc_u64 limit (xtot_streams t), enc_u64 limit (xtot_partitions t),
       enc_u64 limit (xtot_records t), enc_u64 limit (xtot_payload_bytes t), enc_u64 limit (xtot_partition_bookmarks t),
       enc_u64 limit (xtot_stream_bookmarks t)]"

definition encode_manifest :: "ExportManifestV1 \<Rightarrow> u64 \<Rightarrow> bytes option" where
  "encode_manifest m limit =
     enc_seq [enc_u32 limit (xman_format_version m), enc_u64 limit (xman_required_features m),
       enc_uuid limit (xman_source_cluster m), enc_uuid limit (xman_export_id m),
       enc_len limit (length (xman_selected_streams m)), enc_each (enc_uuid limit) (xman_selected_streams m),
       encode_cut limit (qc_control (xman_cut m)),
       enc_len limit (length (qc_data (xman_cut m))), enc_each (encode_cut limit) (map snd (qc_data (xman_cut m))),
       enc_len limit (length (xman_sections m)), enc_each (encode_section limit) (xman_sections m),
       encode_totals limit (xman_totals m), enc_u64 limit (xman_exclusions m)] []"

section \<open>The output\<close>

record 's writing =
  wr_file :: bytes
  wr_digest :: bytes
  wr_offset :: u64
  wr_max :: u64
  wr_source :: 's

type_synonym ('s, 'e, 'a) writer = "'s writing \<Rightarrow> ('e ExportWriteError + 'a) \<times> 's writing"

definition wret :: "'a \<Rightarrow> ('s, 'e, 'a) writer" where "wret x w = (Inr x, w)"

definition wbind :: "('s, 'e, 'a) writer \<Rightarrow> ('a \<Rightarrow> ('s, 'e, 'b) writer) \<Rightarrow> ('s, 'e, 'b) writer" where
  "wbind m f w = (case m w of (Inl e, w') \<Rightarrow> (Inl e, w') | (Inr x, w') \<Rightarrow> f x w')"

definition wthen :: "('s, 'e, unit) writer \<Rightarrow> ('s, 'e, 'b) writer \<Rightarrow> ('s, 'e, 'b) writer" where
  "wthen m n = wbind m (\<lambda>_. n)"

definition wresult :: "'e ExportWriteError + 'a \<Rightarrow> ('s, 'e, 'a) writer" where "wresult r w = (r, w)"

definition write_map_model :: "ModelError + 'a \<Rightarrow> 'e ExportWriteError + 'a" where
  "write_map_model r =
     (case r of
        Inl (ModelLimit l) \<Rightarrow> Inl (WriteLimit l)
      | Inl (ModelNonCanonical f) \<Rightarrow> Inl (WriteNonCanonical f)
      | Inl (ModelInconsistent f) \<Rightarrow> Inl (WriteInconsistent f)
      | Inr x \<Rightarrow> Inr x)"

definition map_decode_budget :: "VerifyError + 'a \<Rightarrow> 'e ExportWriteError + 'a" where
  "map_decode_budget r =
     (case r of Inl (VerifyLimit l) \<Rightarrow> Inl (WriteLimit l) | Inl _ \<Rightarrow> Inl WritePanic | Inr x \<Rightarrow> Inr x)"

definition out_write :: "bytes \<Rightarrow> ('s, 'e, unit) writer" where
  "out_write bs w =
     (if length bs \<ge> 2 ^ 64 then (Inl (WriteLimit ''artifact bytes''), w)
      else case checked_add (wr_offset w) (of_nat (length bs)) of
             None \<Rightarrow> (Inl (WriteLimit ''artifact bytes''), w)
           | Some nxt \<Rightarrow>
               if nxt > wr_max w then (Inl (WriteLimit ''artifact bytes''), w)
               else (Inr (), w\<lparr>wr_file := wr_file w @ bs, wr_offset := nxt\<rparr>))"

definition out_hashed :: "bytes \<Rightarrow> ('s, 'e, unit) writer" where
  "out_hashed bs = wthen (out_write bs) (\<lambda>w. (Inr (), w\<lparr>wr_digest := wr_digest w @ bs\<rparr>))"

definition out_plain :: "bytes \<Rightarrow> ('s, 'e, unit) writer" where "out_plain = out_write"

definition out_offset :: "('s, 'e, u64) writer" where "out_offset w = (Inr (wr_offset w), w)"

definition out_section ::
  "(bytes \<Rightarrow> bytes) \<Rightarrow> u64 \<Rightarrow> SectionKindV1 \<Rightarrow> GroupId option \<Rightarrow> u64 \<Rightarrow> bytes \<Rightarrow> ('s, 'e, SectionDescriptorV1) writer" where
  "out_section sha256 ordinal kind grp item_count payload =
     wbind out_offset (\<lambda>file_offset.
     wbind (wresult (if length payload < 2 ^ 64 then Inr (of_nat (length payload)) else Inl (WriteLimit ''section bytes''))) (\<lambda>payload_length.
     wthen (out_hashed (to_be_bytes (section_kind_number kind)))
     (wthen (out_hashed (to_be_bytes (section_kind_version kind)))
     (wthen (out_hashed (to_be_bytes item_count))
     (wthen (out_hashed (to_be_bytes payload_length))
     (wthen (out_hashed (sha256 payload))
     (wthen (out_hashed payload)
     (wret \<lparr>xsec_ordinal = ordinal, xsec_kind = kind, xsec_version = section_kind_version kind, xsec_group = grp,
            xsec_file_offset = file_offset, xsec_item_count = item_count, xsec_payload_length = payload_length,
            xsec_payload_sha256 = sha256 payload\<rparr>))))))))"

section \<open>\<open>write_v1\<close>\<close>

type_synonym ('s, 'e) data_group_source = "GroupId \<Rightarrow> GroupCut \<Rightarrow> 's \<Rightarrow> ('e + DataGroupV1 option) \<times> 's"

definition ask_source :: "('s, 'e) data_group_source \<Rightarrow> GroupId \<Rightarrow> GroupCut \<Rightarrow> ('s, 'e, DataGroupV1) writer" where
  "ask_source source g c w =
     (case source g c (wr_source w) of
        (Inl e, s) \<Rightarrow> (Inl (WriteSource e), w\<lparr>wr_source := s\<rparr>)
      | (Inr None, s) \<Rightarrow> (Inl (WriteInconsistent ''missing data group''), w\<lparr>wr_source := s\<rparr>)
      | (Inr (Some data), s) \<Rightarrow> (Inr data, w\<lparr>wr_source := s\<rparr>))"

definition write_count :: "nat \<Rightarrow> string \<Rightarrow> 'e ExportWriteError + u64" where
  "write_count n name = (if n < 2 ^ 64 then Inr (of_nat n) else Inl (WriteLimit name))"

definition write_group ::
  "(bytes \<Rightarrow> bytes) \<Rightarrow> ('s, 'e) data_group_source \<Rightarrow> ExportLimits \<Rightarrow> ValidationContext \<Rightarrow> CatalogValidation
   \<Rightarrow> nat \<Rightarrow> GroupId \<times> GroupCut \<Rightarrow> DataValidation \<times> DecodeBudget \<Rightarrow> ('s, 'e, SectionDescriptorV1 \<times> DataValidation \<times> DecodeBudget) writer"
where
  "write_group sha256 source limits ctx catalog index gc st =
     (case gc of (g, c) \<Rightarrow> case st of (validation, budget) \<Rightarrow>
       wbind (ask_source source g c) (\<lambda>data.
       wbind (wresult (write_map_model (validate_data_group ctx g c data catalog validation limits))) (\<lambda>validation'.
       wbind (wresult (map_decode_budget (reserve_data_group_model data budget))) (\<lambda>budget'.
       wbind (wresult (ok_or (WriteLimit ''section bytes'') (encode_data_group data (xlim_section_bytes limits)))) (\<lambda>payload.
       wbind (wresult (write_count (length (xgrp_partitions data)) ''partitions'')) (\<lambda>item_count.
       wbind (wresult (bind_result (write_count index ''section count'') (\<lambda>i. ok_or (WriteLimit ''section count'') (checked_add i 1)))) (\<lambda>ordinal.
       wbind (out_section sha256 ordinal SectionDataGroup (Some g) item_count payload) (\<lambda>descriptor.
       wret (descriptor, validation', budget')))))))))"

fun write_groups ::
  "(bytes \<Rightarrow> bytes) \<Rightarrow> ('s, 'e) data_group_source \<Rightarrow> ExportLimits \<Rightarrow> ValidationContext \<Rightarrow> CatalogValidation
   \<Rightarrow> nat \<Rightarrow> (GroupId \<times> GroupCut) list \<Rightarrow> DataValidation \<times> DecodeBudget \<Rightarrow> ('s, 'e, SectionDescriptorV1 list \<times> DataValidation) writer"
where
  "write_groups sha256 source limits ctx catalog index [] st = wret ([], fst st)"
| "write_groups sha256 source limits ctx catalog index (gc # gcs) st =
     wbind (write_group sha256 source limits ctx catalog index gc st) (\<lambda>(descriptor, st').
     wbind (write_groups sha256 source limits ctx catalog (Suc index) gcs st') (\<lambda>(descriptors, validation).
     wret (descriptor # descriptors, validation)))"

definition document_manifest :: "ExportDocumentV1 \<Rightarrow> SectionDescriptorV1 list \<Rightarrow> ExportTotalsV1 \<Rightarrow> ExportManifestV1" where
  "document_manifest doc sections totals =
     \<lparr>xman_format_version = FORMAT_VERSION_V1, xman_required_features = xdoc_required_features doc,
      xman_source_cluster = xdoc_source_cluster doc, xman_export_id = xdoc_export_id doc,
      xman_selected_streams = xdoc_selected_streams doc, xman_cut = xdoc_cut doc, xman_sections = sections,
      xman_totals = totals, xman_exclusions = xdoc_exclusions doc\<rparr>"

definition write_sections ::
  "(bytes \<Rightarrow> bytes) \<Rightarrow> ('s, 'e) data_group_source \<Rightarrow> ExportLimits \<Rightarrow> ExportDocumentV1 \<Rightarrow> CatalogValidation
   \<Rightarrow> ('s, 'e, SectionDescriptorV1 list \<times> DataValidation) writer" where
  "write_sections sha256 source limits doc catalog =
     wbind (wresult (map_decode_budget (reserve_manifest_model (xdoc_selected_streams doc) (DecodeBudget_new limits)))) (\<lambda>budget.
     wthen (out_hashed MAGIC_V1)
     (wthen (out_hashed (to_be_bytes FORMAT_VERSION_V1))
     (wthen (out_hashed (to_be_bytes (xdoc_required_features doc)))
     (wbind (wresult (map_decode_budget (reserve_control_model (xdoc_control doc) budget))) (\<lambda>budget'.
     wbind (wresult (ok_or (WriteLimit ''section bytes'') (encode_control doc (xlim_section_bytes limits)))) (\<lambda>payload.
     wbind (wresult (write_count (length (xctl_streams (xdoc_control doc))) ''streams'')) (\<lambda>control_count.
     wbind (out_section sha256 0 SectionControl None control_count payload) (\<lambda>control.
     wbind (write_groups sha256 source limits (ValidationContext_from_document doc) catalog 0 (qc_data (xdoc_cut doc))
         (DataValidation_default, budget')) (\<lambda>(groups, validation).
     wret (control # groups, validation))))))))))"

definition write_trailer ::
  "(bytes \<Rightarrow> bytes) \<Rightarrow> ExportLimits \<Rightarrow> u64 \<Rightarrow> ('s, 'e, ArtifactIdentity) writer" where
  "write_trailer sha256 limits manifest_offset =
     wbind out_offset (\<lambda>manifest_end.
     wbind (wresult (ok_or (WriteLimit ''artifact bytes'') (checked_add manifest_end TRAILER_BYTES_V1))) (\<lambda>artifact_length.
     wthen (wresult (reject_if (artifact_length > xlim_artifact_bytes limits) (WriteLimit ''artifact bytes'')))
     (wbind (\<lambda>w. (Inr (sha256 (wr_digest w)), w)) (\<lambda>digest.
     wthen (out_plain (to_be_bytes manifest_offset))
     (wthen (out_plain (to_be_bytes artifact_length))
     (wthen (out_plain digest)
     (wthen (out_plain TRAILER_MAGIC_V1)
     (wresult (case ArtifactIdentity_new artifact_length digest of
        Inl _ \<Rightarrow> Inl (WriteInconsistent ''artifact identity'') | Inr i \<Rightarrow> Inr i)))))))))"

definition write_artifact ::
  "(bytes \<Rightarrow> bytes) \<Rightarrow> ('s, 'e) data_group_source \<Rightarrow> ExportLimits \<Rightarrow> ExportDocumentV1 \<Rightarrow> CatalogValidation
   \<Rightarrow> ('s, 'e, ArtifactIdentity) writer" where
  "write_artifact sha256 source limits doc catalog =
     wbind (write_sections sha256 source limits doc catalog) (\<lambda>(sections, validation).
     wbind (wresult (write_map_model (finish_validation (ValidationContext_from_document doc) catalog validation limits))) (\<lambda>final.
     wbind (wresult (ok_or (WriteLimit ''manifest bytes'')
         (encode_manifest (document_manifest doc sections (dav_totals final)) (xlim_manifest_bytes limits)))) (\<lambda>manifest_bytes.
     wbind out_offset (\<lambda>manifest_offset.
     wbind (wresult (write_count (length manifest_bytes) ''manifest bytes'')) (\<lambda>manifest_length.
     wthen (out_hashed (to_be_bytes manifest_length))
     (wthen (out_hashed manifest_bytes)
     (write_trailer sha256 limits manifest_offset)))))))"

text \<open>The whole call: the result, the state of the source and the file it leaves.\<close>

definition write_v1 ::
  "(bytes \<Rightarrow> bytes) \<Rightarrow> ('s, 'e) data_group_source \<Rightarrow> ExportLimits \<Rightarrow> ExportDocumentV1 \<Rightarrow> 's \<Rightarrow> bytes
   \<Rightarrow> ('e ExportWriteError + ArtifactIdentity) \<times> 's \<times> bytes" where
  "write_v1 sha256 source limits doc s file =
     (case validate_control (ValidationContext_from_document doc) limits of
        Inl e \<Rightarrow> (write_map_model (Inl e), s, file)
      | Inr catalog \<Rightarrow>
          if file \<noteq> [] then (Inl (WriteInconsistent ''output must be empty''), s, file)
          else case write_artifact sha256 source limits doc catalog
                 \<lparr>wr_file = file, wr_digest = [], wr_offset = 0, wr_max = xlim_artifact_bytes limits, wr_source = s\<rparr> of
               (r, w) \<Rightarrow> (r, wr_source w, wr_file w))"

section \<open>The byte string of a value\<close>

definition len_bytes :: "nat \<Rightarrow> bytes" where "len_bytes n = to_be_bytes (of_nat n :: u64)"

definition cut_bytes :: "GroupCut \<Rightarrow> bytes" where
  "cut_bytes c =
     to_be_bytes (gc_group c) @ to_be_bytes (gc_term c) @ to_be_bytes (gc_leader c) @ to_be_bytes (gc_applied_index c) @ []"

definition position_bytes :: "CommittedCursor \<Rightarrow> bytes" where
  "position_bytes c = to_be_bytes (pk_partition (cc_partition c)) @ to_be_bytes (cc_next_offset c) @ []"

definition stream_bookmark_bytes :: "CommittedStreamBookmark \<Rightarrow> bytes" where
  "stream_bookmark_bytes b =
     to_be_bytes (sv_cluster (sb_vector b)) @ to_be_bytes (sv_stream (sb_vector b)) @ to_be_bytes (sb_id b) @
     string_bytes (sb_name b) @ to_be_bytes (sb_publication b) @ [lifecycle_tag (sb_lifecycle b)] @
     len_bytes (length (sv_positions (sb_vector b))) @ concat (map position_bytes (sv_positions (sb_vector b))) @ []"

definition placement_bytes :: "PartitionPlacement \<Rightarrow> bytes" where
  "placement_bytes p = to_be_bytes (pp_partition p) @ to_be_bytes (pp_group p) @ []"

definition stream_bytes :: "ActiveStreamV1 \<Rightarrow> bytes" where
  "stream_bytes s =
     to_be_bytes (sd_cluster (xstr_descriptor s)) @ to_be_bytes (sd_stream (xstr_descriptor s)) @
     string_bytes (sd_name (xstr_descriptor s)) @ [STREAM_LIFECYCLE_ACTIVE_V1] @ to_be_bytes (sd_revision (xstr_descriptor s)) @
     len_bytes (length (sd_placements (xstr_descriptor s))) @ concat (map placement_bytes (sd_placements (xstr_descriptor s))) @
     len_bytes (length (sd_ready_groups (xstr_descriptor s))) @ concat (map to_be_bytes (sd_ready_groups (xstr_descriptor s))) @
     to_be_bytes (xstr_bookmark_publication_ceiling s) @
     len_bytes (length (xstr_bookmarks s)) @ concat (map stream_bookmark_bytes (xstr_bookmarks s)) @ []"

definition control_bytes :: "ControlSectionV1 \<Rightarrow> bytes" where
  "control_bytes c =
     to_be_bytes (xctl_source_cluster c) @ to_be_bytes (xctl_export_id c) @ cut_bytes (xctl_cut c) @
     to_be_bytes (xctl_catalog_revision c) @ to_be_bytes (xctl_assignment_cursor c) @ to_be_bytes (xctl_max_streams c) @
     to_be_bytes (xctl_max_partitions_per_stream c) @
     len_bytes (length (xctl_configured_data_groups c)) @ concat (map to_be_bytes (xctl_configured_data_groups c)) @
     len_bytes (length (xctl_streams c)) @ concat (map stream_bytes (xctl_streams c)) @ []"

definition partition_bookmark_bytes :: "CommittedBookmark \<Rightarrow> bytes" where
  "partition_bookmark_bytes b =
     to_be_bytes (cc_cluster (cb_cursor b)) @ to_be_bytes (pk_stream (cc_partition (cb_cursor b))) @
     to_be_bytes (pk_partition (cc_partition (cb_cursor b))) @ to_be_bytes (cb_id b) @ string_bytes (cb_name b) @
     to_be_bytes (cc_next_offset (cb_cursor b)) @ to_be_bytes (cb_publication b) @ [lifecycle_tag (cb_lifecycle b)] @ []"

definition record_bytes :: "CommittedRecord \<Rightarrow> bytes" where
  "record_bytes r = to_be_bytes (cr_offset r) @ len_bytes (length (cr_payload r)) @ cr_payload r @ []"

definition section_partition_bytes :: "PartitionV1 \<Rightarrow> bytes" where
  "section_partition_bytes p =
     to_be_bytes (xpar_source_cluster p) @ to_be_bytes (xpar_stream p) @ to_be_bytes (xpar_partition p) @
     to_be_bytes (xpar_retention_floor p) @ to_be_bytes (xpar_tail p) @ to_be_bytes (xpar_bookmark_publication_ceiling p) @
     len_bytes (length (xpar_records p)) @ concat (map record_bytes (xpar_records p)) @
     len_bytes (length (xpar_bookmarks p)) @ concat (map partition_bookmark_bytes (xpar_bookmarks p)) @ []"

definition data_group_bytes :: "DataGroupV1 \<Rightarrow> bytes" where
  "data_group_bytes d =
     to_be_bytes (xgrp_source_cluster d) @ to_be_bytes (xgrp_export_id d) @ to_be_bytes (xgrp_group d) @ cut_bytes (xgrp_cut d) @
     len_bytes (length (xgrp_partitions d)) @ concat (map section_partition_bytes (xgrp_partitions d)) @ []"

definition group_option_bytes :: "GroupId option \<Rightarrow> bytes" where
  "group_option_bytes g = (case g of None \<Rightarrow> [OPTION_NONE_V1] | Some v \<Rightarrow> [OPTION_SOME_V1] @ to_be_bytes v @ [])"

definition section_bytes :: "SectionDescriptorV1 \<Rightarrow> bytes" where
  "section_bytes s =
     to_be_bytes (xsec_ordinal s) @ to_be_bytes (section_kind_number (xsec_kind s)) @ to_be_bytes (xsec_version s) @
     group_option_bytes (xsec_group s) @ to_be_bytes (xsec_file_offset s) @ to_be_bytes (xsec_item_count s) @
     to_be_bytes (xsec_payload_length s) @ xsec_payload_sha256 s @ []"

definition totals_bytes :: "ExportTotalsV1 \<Rightarrow> bytes" where
  "totals_bytes t =
     to_be_bytes (xtot_configured_data_groups t) @ to_be_bytes (xtot_streams t) @ to_be_bytes (xtot_partitions t) @
     to_be_bytes (xtot_records t) @ to_be_bytes (xtot_payload_bytes t) @ to_be_bytes (xtot_partition_bookmarks t) @
     to_be_bytes (xtot_stream_bookmarks t) @ []"

definition manifest_bytes :: "ExportManifestV1 \<Rightarrow> bytes" where
  "manifest_bytes m =
     to_be_bytes (xman_format_version m) @ to_be_bytes (xman_required_features m) @ to_be_bytes (xman_source_cluster m) @
     to_be_bytes (xman_export_id m) @ len_bytes (length (xman_selected_streams m)) @
     concat (map to_be_bytes (xman_selected_streams m)) @ cut_bytes (qc_control (xman_cut m)) @
     len_bytes (length (qc_data (xman_cut m))) @ concat (map cut_bytes (map snd (qc_data (xman_cut m)))) @
     len_bytes (length (xman_sections m)) @ concat (map section_bytes (xman_sections m)) @
     totals_bytes (xman_totals m) @ to_be_bytes (xman_exclusions m) @ []"

section \<open>What a successful encoder wrote\<close>

named_theorems encode_intros \<open>the bytes an encoder appends\<close>

definition encodes :: "u64 \<Rightarrow> encoding \<Rightarrow> bytes \<Rightarrow> bool" where
  "encodes limit e bs \<longleftrightarrow>
     (\<forall>acc out. e acc = Some out \<longrightarrow> out = acc @ bs \<and> (length acc \<le> unat limit \<longrightarrow> length out \<le> unat limit))"

lemma encodesD: "encodes limit e bs \<Longrightarrow> e [] = Some out \<Longrightarrow> out = bs \<and> length out \<le> unat limit"
  by (auto simp: encodes_def)

lemma encodes_raw [encode_intros]:
  "encodes limit (enc_raw limit bs) bs"
  "encodes limit (enc_u8 limit v1) [v1]" "encodes limit (enc_u16 limit v2) (to_be_bytes v2)"
  "encodes limit (enc_u32 limit v4) (to_be_bytes v4)" "encodes limit (enc_u64 limit v8) (to_be_bytes v8)"
  "encodes limit (enc_uuid limit v16) (to_be_bytes v16)"
  "encodes limit (enc_len limit n) (len_bytes n)"
  by (auto simp: encodes_def enc_raw_def enc_u8_def enc_u16_def enc_u32_def enc_u64_def enc_uuid_def enc_len_def len_bytes_def
      split: if_splits)

lemma encodes_Nil [encode_intros]: "encodes limit (enc_seq []) []"
  by (auto simp: encodes_def)

lemma encodes_Cons [encode_intros]:
  "encodes limit e bs \<Longrightarrow> encodes limit (enc_seq es) cs \<Longrightarrow> encodes limit (enc_seq (e # es)) (bs @ cs)"
  by (fastforce simp: encodes_def split: option.splits)

lemma encodes_each [encode_intros]:
  "(\<And>x. encodes limit (f x) (g x)) \<Longrightarrow> encodes limit (enc_each f xs) (concat (map g xs))"
  unfolding enc_each_def by (induction xs) (auto intro: encode_intros)

lemma encodes_string [encode_intros]: "encodes limit (enc_string limit s) (string_bytes s)"
proof -
  have "encodes limit (enc_seq [enc_u32 limit (of_nat (length s)), enc_raw limit s]) (to_be_bytes (of_nat (length s) :: u32) @ s @ [])"
    by (intro encode_intros)
  then show ?thesis by (auto simp: encodes_def enc_string_def string_bytes_def simp del: enc_seq.simps split: if_splits)
qed

lemma encodes_bytes: "encodes limit (enc_bytes limit v) (len_bytes (length v) @ v @ [])"
  unfolding enc_bytes_def by (intro encode_intros)

lemma encodes_cut [encode_intros]: "encodes limit (encode_cut limit c) (cut_bytes c)"
  unfolding encode_cut_def cut_bytes_def by (intro encode_intros)

lemma encodes_position [encode_intros]: "encodes limit (encode_position limit c) (position_bytes c)"
  unfolding encode_position_def position_bytes_def by (intro encode_intros)

lemma encodes_stream_bookmark [encode_intros]: "encodes limit (encode_stream_bookmark limit b) (stream_bookmark_bytes b)"
  unfolding encode_stream_bookmark_def stream_bookmark_bytes_def by (intro encode_intros)

lemma encodes_placement [encode_intros]: "encodes limit (encode_placement limit p) (placement_bytes p)"
  unfolding encode_placement_def placement_bytes_def by (intro encode_intros)

lemma encodes_stream [encode_intros]: "encodes limit (encode_stream limit s) (stream_bytes s)"
  unfolding encode_stream_def stream_bytes_def Let_def by (intro encode_intros)

lemma encodes_partition_bookmark [encode_intros]: "encodes limit (encode_partition_bookmark limit b) (partition_bookmark_bytes b)"
  unfolding encode_partition_bookmark_def partition_bookmark_bytes_def Let_def by (intro encode_intros)

lemma encodes_record [encode_intros]: "encodes limit (encode_record limit r) (record_bytes r)"
  using encodes_Cons [OF encodes_raw(5) encodes_Cons [OF encodes_bytes encodes_Nil], of limit "cr_offset r" "cr_payload r"]
  by (simp add: encode_record_def record_bytes_def del: enc_seq.simps)

lemma encodes_partition [encode_intros]: "encodes limit (encode_partition limit p) (section_partition_bytes p)"
  unfolding encode_partition_def section_partition_bytes_def by (intro encode_intros)

lemma encodes_group_option [encode_intros]: "encodes limit (encode_group_option limit g) (group_option_bytes g)"
  unfolding encode_group_option_def group_option_bytes_def by (cases g) (simp_all only: option.case, (intro encode_intros)+)

lemma encodes_section [encode_intros]: "encodes limit (encode_section limit s) (section_bytes s)"
  unfolding encode_section_def section_bytes_def by (intro encode_intros)

lemma encodes_totals [encode_intros]: "encodes limit (encode_totals limit t) (totals_bytes t)"
  unfolding encode_totals_def totals_bytes_def by (intro encode_intros)

lemma encode_control_bytes:
  "encode_control doc limit = Some out \<Longrightarrow> out = control_bytes (xdoc_control doc) \<and> length out \<le> unat limit"
  unfolding encode_control_def control_bytes_def Let_def
  by (erule encodesD [rotated]) (intro encode_intros)

lemma encode_data_group_bytes:
  "encode_data_group data limit = Some out \<Longrightarrow> out = data_group_bytes data \<and> length out \<le> unat limit"
  unfolding encode_data_group_def data_group_bytes_def
  by (erule encodesD [rotated]) (intro encode_intros)

lemma encode_manifest_bytes:
  "encode_manifest m limit = Some out \<Longrightarrow> out = manifest_bytes m \<and> length out \<le> unat limit"
  unfolding encode_manifest_def manifest_bytes_def
  by (erule encodesD [rotated]) (intro encode_intros)

text \<open>The budget only ever refuses with a limit, so that the panic of \<open>map_decode_budget\<close> cannot happen.\<close>

definition limit_only :: "VerifyError + 'a \<Rightarrow> bool" where
  "limit_only r \<longleftrightarrow> (\<forall>e. r = Inl e \<longrightarrow> (\<exists>l. e = VerifyLimit l))"

lemma limit_only_bind: "limit_only m \<Longrightarrow> (\<And>x. limit_only (f x)) \<Longrightarrow> limit_only (bind_result m f)"
  by (cases m) (auto simp: limit_only_def)

lemma limit_only_reserve:
  "limit_only (reserve_streams n b)" "limit_only (reserve_partitions n b)" "limit_only (reserve_records n b)"
  "limit_only (reserve_bookmarks n b)" "limit_only (reserve_payload_bytes n b)" "limit_only (model_count k name)"
  by (auto simp: limit_only_def reserve_streams_def reserve_partitions_def reserve_records_def reserve_bookmarks_def
      reserve_payload_bytes_def reserve_def model_count_def bind_result_Inl split: option.splits if_splits)

lemma limit_only_each: "(\<And>x b. limit_only (f x b)) \<Longrightarrow> limit_only (reserve_each f xs b)"
  by (induction xs arbitrary: b) (auto intro: limit_only_bind simp: limit_only_def [of "Inr _"])

lemma budget_errors_are_limits:
  "limit_only (reserve_manifest_model ss b)" "limit_only (reserve_control_model c b)" "limit_only (reserve_data_group_model d b)"
  unfolding reserve_manifest_model_def reserve_control_model_def reserve_data_group_model_def
  by (intro limit_only_bind limit_only_reserve limit_only_each;
      (unfold reserve_stream_model_def reserve_partition_model_def reserve_stream_bookmark_model_def reserve_record_model_def)?;
      (intro limit_only_bind limit_only_reserve limit_only_each)?;
      (unfold reserve_stream_bookmark_model_def reserve_record_model_def)?; (intro limit_only_bind limit_only_reserve limit_only_each)?)+

end
