(* ===== verification/Artifact_Decode.thy ===== *)
theory Artifact_Decode
  imports Artifact_Encode
begin

text \<open>
  The artifact verifier: \<open>decode.rs\<close> of \<open>crates/light-stream-export\<close>. \<open>verify_cancellable\<close> reads the trailer and
  the manifest, then walks the file from the front through a hashing reader and checks every section
  against its descriptor, its digest and the semantic rules of the writer; \<open>visit_sections_cancellable\<close> walks a
  verified artifact again and hands each section to the visitor of the caller, a function over a state of
  its own. The model keeps every poll of \<open>cancelled\<close>, the chunks of the input reads among them. Files are
  byte strings, so that the only I/O failures left are the end of the input, which the code reports as
  \<open>Truncated\<close>, and a seek the hashing reader refuses.
\<close>

definition PROLOGUE_BYTES :: u64 where "PROLOGUE_BYTES = 20"
definition SECTION_HEADER_BYTES :: u64 where "SECTION_HEADER_BYTES = 52"
definition CANCELLABLE_IO_CHUNK_BYTES :: nat where "CANCELLABLE_IO_CHUNK_BYTES = 64 * 1024"

section \<open>Reading the input\<close>

definition seek_end :: "(VerifyError, u64) verifying" where
  "seek_end env s =
     (let n = length (rd_file (vs_reader s))
      in if n < 2 ^ 64 then Inr (of_nat n, s\<lparr>vs_reader := (vs_reader s)\<lparr>rd_position := n\<rparr>\<rparr>)
         else Inl (VerifyIo ''file offset overflow''))"

definition seek_start :: "u64 \<Rightarrow> (VerifyError, unit) verifying" where
  "seek_start target env s =
     (case rd_limit (vs_reader s) of
        None \<Rightarrow> Inr ((), s\<lparr>vs_reader := (vs_reader s)\<lparr>rd_position := unat target\<rparr>\<rparr>)
      | Some _ \<Rightarrow>
          if unat target = rd_position (vs_reader s) then Inr ((), s)
          else Inl (VerifyIo ''hashed input may only seek to its current position''))"

definition reader_end :: "reader \<Rightarrow> nat" where
  "reader_end r =
     (case rd_limit r of None \<Rightarrow> length (rd_file r) | Some e \<Rightarrow> min e (length (rd_file r)))"

definition read_exact :: "nat \<Rightarrow> (VerifyError, bytes) verifying" where
  "read_exact n env s =
     (let r = vs_reader s; bs = take n (drop (rd_position r) (rd_file r))
      in if rd_position r + n \<le> reader_end r
         then Inr (bs, s\<lparr>vs_reader := r\<lparr>rd_position := rd_position r + n,
                rd_hashed := (case rd_limit r of None \<Rightarrow> rd_hashed r | Some _ \<Rightarrow> rd_hashed r @ bs)\<rparr>\<rparr>)
         else Inl VerifyTruncated)"

function read_exact_cancellable :: "nat \<Rightarrow> (VerifyError, bytes) verifying" where
  "read_exact_cancellable n =
     (if n = 0 then vthen check_cancelled (vret [])
      else vthen check_cancelled
        (vbind (read_exact (min n CANCELLABLE_IO_CHUNK_BYTES)) (\<lambda>chunk.
         vbind (read_exact_cancellable (n - CANCELLABLE_IO_CHUNK_BYTES)) (\<lambda>rest. vret (chunk @ rest)))))"
  by pat_completeness auto

termination
  by (relation "measure id") (simp_all add: CANCELLABLE_IO_CHUNK_BYTES_def)

declare read_exact_cancellable.simps [simp del]

function compare_bytes :: "bytes \<Rightarrow> (VerifyError, unit) verifying" where
  "compare_bytes expected =
     (if expected = [] then vret ()
      else vthen check_cancelled
        (vbind (read_exact_cancellable (min (length expected) CANCELLABLE_IO_CHUNK_BYTES)) (\<lambda>chunk.
         vthen (vguard (chunk \<noteq> take CANCELLABLE_IO_CHUNK_BYTES expected) (VerifyDigest ''artifact''))
           (compare_bytes (drop CANCELLABLE_IO_CHUNK_BYTES expected)))))"
  by pat_completeness auto

termination
  by (relation "measure length") (simp_all add: CANCELLABLE_IO_CHUNK_BYTES_def)

declare compare_bytes.simps [simp del]

text \<open>The copy of a payload polls once per chunk.\<close>

function poll_chunks :: "nat \<Rightarrow> (VerifyError, unit) verifying" where
  "poll_chunks n =
     (if n = 0 then vret () else vthen check_cancelled (poll_chunks (n - CANCELLABLE_IO_CHUNK_BYTES)))"
  by pat_completeness auto

termination
  by (relation "measure id") (simp_all add: CANCELLABLE_IO_CHUNK_BYTES_def)

declare poll_chunks.simps [simp del]

text \<open>\<open>HashingReader::new\<close> around the reader of the caller, which stands at the front, and \<open>finalize\<close>.\<close>

definition hashing_new :: "u64 \<Rightarrow> (VerifyError, unit) verifying" where
  "hashing_new e env s = Inr ((), s\<lparr>vs_reader := (vs_reader s)\<lparr>rd_limit := Some (unat e), rd_hashed := []\<rparr>\<rparr>)"

definition hashing_finalize :: "(VerifyError, bytes) verifying" where
  "hashing_finalize env s =
     Inr (ve_sha256 env (rd_hashed (vs_reader s)), s\<lparr>vs_reader := (vs_reader s)\<lparr>rd_limit := None\<rparr>\<rparr>)"

section \<open>Decoding the model\<close>

text \<open>A decoder of its own for a byte string: \<open>Decoder::new\<close>, the fields, \<open>finish\<close>.\<close>

definition decode_all :: "(VerifyError, 'a) verifying \<Rightarrow> bytes \<Rightarrow> string \<Rightarrow> (VerifyError, 'a) verifying" where
  "decode_all p bs name =
     vthen (Decoder_new bs) (vbind p (\<lambda>x. vthen (dec_finish name) (vret x)))"

definition decode_cut :: "(VerifyError, GroupCut) verifying" where
  "decode_cut =
     vbind dec_group (\<lambda>g. vbind dec_u64 (\<lambda>term. vbind dec_node (\<lambda>leader. vbind dec_u64 (\<lambda>index.
     vret \<lparr>gc_group = g, gc_term = term, gc_leader = leader, gc_applied_index = index\<rparr>))))"

definition decode_lifecycle :: "u8 \<Rightarrow> (VerifyError, BookmarkLifecycle) verifying" where
  "decode_lifecycle tag =
     (if tag = BOOKMARK_LIFECYCLE_ACTIVE_V1 then vret BookmarkAvailable
      else if tag = BOOKMARK_LIFECYCLE_DELETED_V1 then vret BookmarkDeleted
      else vfail (VerifyInvalid ''bookmark lifecycle''))"

definition decode_position :: "ClusterId \<Rightarrow> StreamId \<Rightarrow> (VerifyError, CommittedCursor) verifying" where
  "decode_position cluster stream =
     vbind dec_u32 (\<lambda>p. vbind dec_u64 (\<lambda>next_offset.
     vret \<lparr>cc_cluster = cluster, cc_partition = PartitionKey stream p, cc_next_offset = next_offset\<rparr>))"

definition decode_stream_bookmark :: "ExportLimits \<Rightarrow> (VerifyError, CommittedStreamBookmark) verifying" where
  "decode_stream_bookmark limits =
     vthen check_cancelled
     (vbind dec_cluster (\<lambda>cluster.
      vbind dec_stream (\<lambda>stream.
      vbind dec_bookmark (\<lambda>bid.
      vbind dec_bookmark_name (\<lambda>name.
      vbind dec_u64 (\<lambda>publication.
      vbind (vbind dec_u8 decode_lifecycle) (\<lambda>lifecycle.
      vbind (dec_count (xlim_partitions limits) ''stream bookmark positions'' 12) (\<lambda>position_count.
      vthen (vbudget (reserve_partitions position_count))
      (vbind (vtimes (unat position_count) (decode_position cluster stream)) (\<lambda>positions.
      vthen (vguard (out_of_order (map (pk_partition \<circ> cc_partition) positions)) (VerifyNonCanonical ''stream bookmark positions''))
      (case StreamCursorVector_new stream positions of
         Inl _ \<Rightarrow> vfail (VerifyInvalid ''stream bookmark positions'')
       | Inr vector \<Rightarrow>
           let b = CommittedStreamBookmark_published bid name vector publication
           in vret (if lifecycle = BookmarkDeleted then stream_bookmark_mark_deleted b else b))))))))))))"

definition decode_placement :: "(VerifyError, PartitionPlacement) verifying" where
  "decode_placement = vbind dec_u32 (\<lambda>p. vbind dec_group (\<lambda>g. vret \<lparr>pp_partition = p, pp_group = g\<rparr>))"

definition decode_stream :: "ExportLimits \<Rightarrow> (VerifyError, ActiveStreamV1) verifying" where
  "decode_stream limits =
     vthen check_cancelled
     (vbind dec_cluster (\<lambda>cluster.
      vbind dec_stream (\<lambda>stream.
      vbind dec_stream_name (\<lambda>name.
      vbind dec_u8 (\<lambda>tag.
      vthen (vguard (tag \<noteq> STREAM_LIFECYCLE_ACTIVE_V1) (VerifyInvalid ''stream lifecycle''))
      (vbind dec_u64 (\<lambda>revision.
      vbind (dec_count (xlim_partitions limits) ''partitions'' 12) (\<lambda>placement_count.
      vthen (vbudget (reserve_partitions placement_count))
      (vbind (vtimes (unat placement_count) decode_placement) (\<lambda>placements.
      vbind (dec_count (of_nat MAX_DATA_GROUPS) ''ready data groups'' 8) (\<lambda>ready_count.
      vbind (vtimes (unat ready_count) dec_group) (\<lambda>ready_groups.
      vbind dec_u64 (\<lambda>ceiling.
      vbind (dec_count (xlim_bookmarks limits) ''bookmarks'' 81) (\<lambda>bookmark_count.
      vthen (vbudget (reserve_bookmarks bookmark_count))
      (vbind (vtimes (unat bookmark_count) (decode_stream_bookmark limits)) (\<lambda>bookmarks.
      vret \<lparr>xstr_descriptor = \<lparr>sd_cluster = cluster, sd_stream = stream, sd_name = name, sd_lifecycle = Active,
                sd_placements = placements, sd_ready_groups = ready_groups, sd_revision = revision\<rparr>,
            xstr_bookmark_publication_ceiling = ceiling, xstr_bookmarks = bookmarks\<rparr>))))))))))))))))"

definition decode_control_fields :: "ExportLimits \<Rightarrow> (VerifyError, ControlSectionV1) verifying" where
  "decode_control_fields limits =
     vbind dec_cluster (\<lambda>source_cluster.
     vbind dec_export (\<lambda>export_id.
     vbind decode_cut (\<lambda>cut1.
     vbind dec_u64 (\<lambda>catalog_revision.
     vbind dec_u64 (\<lambda>assignment_cursor.
     vbind dec_u32 (\<lambda>max_streams.
     vbind dec_u32 (\<lambda>max_partitions.
     vbind (dec_count (of_nat MAX_DATA_GROUPS) ''data groups'' 8) (\<lambda>group_count.
     vbind (vtimes (unat group_count) dec_group) (\<lambda>configured.
     vbind (dec_count (xlim_streams limits) ''streams'' 77) (\<lambda>stream_count.
     vthen (vbudget (reserve_streams stream_count))
     (vbind (vtimes (unat stream_count) (decode_stream limits)) (\<lambda>streams.
     vret \<lparr>xctl_source_cluster = source_cluster, xctl_export_id = export_id, xctl_cut = cut1,
             xctl_catalog_revision = catalog_revision, xctl_assignment_cursor = assignment_cursor,
             xctl_max_streams = max_streams, xctl_max_partitions_per_stream = max_partitions,
             xctl_configured_data_groups = configured, xctl_streams = streams\<rparr>))))))))))))"

definition decode_control :: "bytes \<Rightarrow> ExportLimits \<Rightarrow> (VerifyError, ControlSectionV1) verifying" where
  "decode_control payload limits =
     vthen check_cancelled (decode_all (decode_control_fields limits) payload ''control payload'')"

definition decode_partition_bookmark :: "(VerifyError, CommittedBookmark) verifying" where
  "decode_partition_bookmark =
     vbind dec_cluster (\<lambda>cluster.
     vbind dec_stream (\<lambda>stream.
     vbind dec_u32 (\<lambda>p.
     vbind dec_bookmark (\<lambda>bid.
     vbind dec_bookmark_name (\<lambda>name.
     vbind dec_u64 (\<lambda>next_offset.
     vbind dec_u64 (\<lambda>publication.
     vbind (vbind dec_u8 decode_lifecycle) (\<lambda>lifecycle.
     let b = CommittedBookmark_published bid name
           \<lparr>cc_cluster = cluster, cc_partition = PartitionKey stream p, cc_next_offset = next_offset\<rparr> publication
     in vret (if lifecycle = BookmarkDeleted then bookmark_mark_deleted b else b)))))))))"

definition payload_present :: "nat \<Rightarrow> (VerifyError, unit) verifying" where
  "payload_present n env s = (if n > length (vs_rest s) then Inl VerifyTruncated else Inr ((), s))"

definition decode_record :: "ExportLimits \<Rightarrow> (VerifyError, CommittedRecord) verifying" where
  "decode_record limits =
     vbind dec_u64 (\<lambda>offset.
     vbind dec_u64 (\<lambda>payload_length.
     vthen (vguard (payload_length > xlim_payload_bytes limits) (VerifyLimit ''payload bytes''))
     (vthen (payload_present (unat payload_length))
     (vthen (vbudget (reserve_payload_bytes payload_length))
     (vbind (dec_take (unat payload_length)) (\<lambda>payload.
      vthen (poll_chunks (length payload))
      (vret \<lparr>cr_offset = offset, cr_payload = payload\<rparr>)))))))"

definition decode_partition :: "ExportLimits \<Rightarrow> (VerifyError, PartitionV1) verifying" where
  "decode_partition limits =
     vthen check_cancelled
     (vbind dec_cluster (\<lambda>source_cluster.
      vbind dec_stream (\<lambda>stream.
      vbind dec_u32 (\<lambda>p.
      vbind dec_u64 (\<lambda>retention_floor.
      vbind dec_u64 (\<lambda>tail.
      vbind dec_u64 (\<lambda>ceiling.
      vbind (dec_count (xlim_records limits) ''records'' 16) (\<lambda>record_count.
      vthen (vbudget (reserve_records record_count))
      (vbind (vtimes (unat record_count) (decode_record limits)) (\<lambda>records.
      vbind (dec_count (xlim_bookmarks limits) ''bookmarks'' 73) (\<lambda>bookmark_count.
      vthen (vbudget (reserve_bookmarks bookmark_count))
      (vbind (vtimes (unat bookmark_count) decode_partition_bookmark) (\<lambda>bookmarks.
      vret \<lparr>xpar_source_cluster = source_cluster, xpar_stream = stream, xpar_partition = p, xpar_retention_floor = retention_floor,
            xpar_tail = tail, xpar_bookmark_publication_ceiling = ceiling, xpar_records = records, xpar_bookmarks = bookmarks\<rparr>)))))))))))))"

definition decode_data_group_fields :: "ExportLimits \<Rightarrow> (VerifyError, DataGroupV1) verifying" where
  "decode_data_group_fields limits =
     vbind dec_cluster (\<lambda>source_cluster.
     vbind dec_export (\<lambda>export_id.
     vbind dec_group (\<lambda>g.
     vbind decode_cut (\<lambda>cut1.
     vbind (dec_count (xlim_partitions limits) ''partitions'' 76) (\<lambda>partition_count.
     vthen (vbudget (reserve_partitions partition_count))
     (vbind (vtimes (unat partition_count) (decode_partition limits)) (\<lambda>partitions.
     vret \<lparr>xgrp_source_cluster = source_cluster, xgrp_export_id = export_id, xgrp_group = g, xgrp_cut = cut1,
             xgrp_partitions = partitions\<rparr>)))))))"

definition decode_data_group :: "bytes \<Rightarrow> ExportLimits \<Rightarrow> (VerifyError, DataGroupV1) verifying" where
  "decode_data_group payload limits =
     vthen check_cancelled (decode_all (decode_data_group_fields limits) payload ''data payload'')"

definition decode_section_kind :: "u16 \<Rightarrow> (VerifyError, SectionKindV1) verifying" where
  "decode_section_kind n =
     (if n = SECTION_KIND_CONTROL_V1 then vret SectionControl
      else if n = SECTION_KIND_DATA_GROUP_V1 then vret SectionDataGroup
      else vfail (VerifyUnsupported ''section kind''))"

definition decode_group_option :: "u8 \<Rightarrow> (VerifyError, GroupId option) verifying" where
  "decode_group_option tag =
     (if tag = OPTION_NONE_V1 then vret None
      else if tag = OPTION_SOME_V1 then vbind dec_group (\<lambda>g. vret (Some g))
      else vfail (VerifyInvalid ''section group option''))"

definition decode_section :: "(VerifyError, SectionDescriptorV1) verifying" where
  "decode_section =
     vbind dec_u64 (\<lambda>ordinal.
     vbind (vbind dec_u16 decode_section_kind) (\<lambda>kind.
     vbind dec_u16 (\<lambda>version.
     vbind (vbind dec_u8 decode_group_option) (\<lambda>grp.
     vbind dec_u64 (\<lambda>file_offset.
     vbind dec_u64 (\<lambda>item_count.
     vbind dec_u64 (\<lambda>payload_length.
     vbind (dec_take 32) (\<lambda>payload_sha256.
     vret \<lparr>xsec_ordinal = ordinal, xsec_kind = kind, xsec_version = version, xsec_group = grp, xsec_file_offset = file_offset,
           xsec_item_count = item_count, xsec_payload_length = payload_length, xsec_payload_sha256 = payload_sha256\<rparr>))))))))"

definition decode_totals :: "(VerifyError, ExportTotalsV1) verifying" where
  "decode_totals =
     vbind dec_u64 (\<lambda>configured. vbind dec_u64 (\<lambda>streams. vbind dec_u64 (\<lambda>partitions. vbind dec_u64 (\<lambda>records.
     vbind dec_u64 (\<lambda>payload_bytes. vbind dec_u64 (\<lambda>partition_bookmarks. vbind dec_u64 (\<lambda>stream_bookmarks.
     vret \<lparr>xtot_configured_data_groups = configured, xtot_streams = streams, xtot_partitions = partitions, xtot_records = records,
           xtot_payload_bytes = payload_bytes, xtot_partition_bookmarks = partition_bookmarks,
           xtot_stream_bookmarks = stream_bookmarks\<rparr>)))))))"

definition decode_quiescent_cut :: "GroupCut \<Rightarrow> GroupCut list \<Rightarrow> (VerifyError, QuiescentCut) verifying" where
  "decode_quiescent_cut control cuts =
     vthen (vguard (out_of_order (map gc_group cuts)) (VerifyNonCanonical ''data cuts''))
       (case QuiescentCut_try_new control cuts of Inl _ \<Rightarrow> vfail (VerifyNonCanonical ''data cuts'') | Inr c \<Rightarrow> vret c)"

definition decode_manifest_fields :: "ExportLimits \<Rightarrow> (VerifyError, ExportManifestV1) verifying" where
  "decode_manifest_fields limits =
     vbind dec_u32 (\<lambda>format_version.
     vbind dec_u64 (\<lambda>required_features.
     vbind dec_cluster (\<lambda>source_cluster.
     vbind dec_export (\<lambda>export_id.
     vbind (dec_count (xlim_streams limits) ''streams'' 16) (\<lambda>selected_count.
     vthen (vbudget (reserve_streams selected_count))
     (vbind (vtimes (unat selected_count) dec_stream) (\<lambda>selected.
     vbind decode_cut (\<lambda>control_cut.
     vbind (dec_count (of_nat MAX_DATA_GROUPS) ''data groups'' 32) (\<lambda>data_count.
     vbind (vtimes (unat data_count) decode_cut) (\<lambda>data_cuts.
     vbind (decode_quiescent_cut control_cut data_cuts) (\<lambda>cut1.
     vbind (dec_count (of_nat MAX_DATA_GROUPS + 1) ''section count'' 69) (\<lambda>section_count.
     vbind (vtimes (unat section_count) decode_section) (\<lambda>sections.
     vbind decode_totals (\<lambda>totals.
     vbind dec_u64 (\<lambda>exclusions.
     vret \<lparr>xman_format_version = format_version, xman_required_features = required_features, xman_source_cluster = source_cluster,
             xman_export_id = export_id, xman_selected_streams = selected, xman_cut = cut1, xman_sections = sections,
             xman_totals = totals, xman_exclusions = exclusions\<rparr>)))))))))))))))"

definition decode_manifest :: "bytes \<Rightarrow> ExportLimits \<Rightarrow> (VerifyError, ExportManifestV1) verifying" where
  "decode_manifest bs limits =
     vthen check_cancelled (decode_all (decode_manifest_fields limits) bs ''manifest'')"

unbundle bit_operations_syntax

definition validate_manifest :: "ExportManifestV1 \<Rightarrow> ExportLimits \<Rightarrow> VerifyError + unit" where
  "validate_manifest m limits =
     (let t = xman_totals m
      in bind_result (reject_if (xman_format_version m \<noteq> FORMAT_VERSION_V1) (VerifyUnsupported ''format version'')) (\<lambda>_.
         bind_result (reject_if (xman_required_features m AND NOT REQUIRED_FEATURES_V1 \<noteq> 0)
             (VerifyUnsupported ''required feature bits'')) (\<lambda>_.
         bind_result (reject_if (xman_exclusions m \<noteq> EXCLUSIONS_V1) (VerifyInconsistent ''fixed exclusions'')) (\<lambda>_.
         bind_result (reject_if (out_of_order (xman_selected_streams m)) (VerifyNonCanonical ''selected streams'')) (\<lambda>_.
         bind_result (reject_if (xtot_streams t > xlim_streams limits) (VerifyLimit ''streams'')) (\<lambda>_.
         bind_result (reject_if (xtot_partitions t > xlim_partitions limits) (VerifyLimit ''partitions'')) (\<lambda>_.
         bind_result (reject_if (xtot_records t > xlim_records limits) (VerifyLimit ''records'')) (\<lambda>_.
         bind_result (reject_if (xtot_payload_bytes t > xlim_payload_bytes limits) (VerifyLimit ''payload bytes'')) (\<lambda>_.
         bind_result (ok_or (VerifyLimit ''bookmarks'') (checked_add (xtot_partition_bookmarks t) (xtot_stream_bookmarks t))) (\<lambda>bookmarks.
         bind_result (reject_if (bookmarks > xlim_bookmarks limits) (VerifyLimit ''bookmarks'')) (\<lambda>_.
         bind_result (model_count (length (qc_data (xman_cut m))) ''data groups'') (\<lambda>groups.
         reject_if (xtot_configured_data_groups t \<noteq> groups) (VerifyInconsistent ''configured data groups'')))))))))))))"

section \<open>Sections\<close>

record ExpectedSection =
  exs_ordinal :: u64
  exs_kind :: SectionKindV1
  exs_group :: "GroupId option"

definition verify_map_model :: "ModelError + 'a \<Rightarrow> VerifyError + 'a" where
  "verify_map_model r =
     (case r of
        Inl (ModelLimit l) \<Rightarrow> Inl (VerifyLimit l)
      | Inl (ModelNonCanonical f) \<Rightarrow> Inl (VerifyNonCanonical f)
      | Inl (ModelInconsistent f) \<Rightarrow> Inl (VerifyInconsistent f)
      | Inr x \<Rightarrow> Inr x)"

definition section_scope :: "SectionKindV1 \<Rightarrow> string" where
  "section_scope k = (case k of SectionControl \<Rightarrow> ''control section'' | SectionDataGroup \<Rightarrow> ''data section'')"

definition check_digest :: "bytes \<Rightarrow> bytes \<Rightarrow> string \<Rightarrow> (VerifyError, unit) verifying" where
  "check_digest payload digest scope env s =
     (if ve_sha256 env payload \<noteq> digest then Inl (VerifyDigest scope) else Inr ((), s))"

definition decode_header_fields :: "(VerifyError, u16 \<times> u16 \<times> u64 \<times> u64 \<times> bytes) verifying" where
  "decode_header_fields =
     vbind dec_u16 (\<lambda>kind. vbind dec_u16 (\<lambda>version. vbind dec_u64 (\<lambda>item_count. vbind dec_u64 (\<lambda>payload_length.
     vbind (dec_take 32) (\<lambda>payload_digest. vret (kind, version, item_count, payload_length, payload_digest))))))"

definition read_section ::
  "SectionDescriptorV1 \<Rightarrow> ExpectedSection \<Rightarrow> u64 \<Rightarrow> u64 \<Rightarrow> ExportLimits \<Rightarrow> (VerifyError, bytes \<times> u64) verifying" where
  "read_section d expected offset manifest_offset limits =
     vthen check_cancelled
     (vthen (vguard (xsec_ordinal d \<noteq> exs_ordinal expected \<or> xsec_file_offset d \<noteq> offset) (VerifyNonCanonical ''section descriptors''))
     (vthen (vguard (xsec_kind d \<noteq> exs_kind expected \<or> xsec_group d \<noteq> exs_group expected \<or>
         xsec_version d \<noteq> section_kind_version (exs_kind expected)) (VerifyInconsistent ''section order''))
     (vthen (seek_start offset)
     (vbind (read_exact_cancellable (unat SECTION_HEADER_BYTES)) (\<lambda>header.
      vbind (decode_all decode_header_fields header ''section header'') (\<lambda>(kind, version, item_count, payload_length, payload_digest).
      vthen (vguard (kind \<noteq> section_kind_number (xsec_kind d) \<or> version \<noteq> xsec_version d \<or> item_count \<noteq> xsec_item_count d \<or>
          payload_length \<noteq> xsec_payload_length d \<or> payload_digest \<noteq> xsec_payload_sha256 d) (VerifyInconsistent ''section descriptor''))
      (vthen (vguard (payload_length > xlim_section_bytes limits) (VerifyLimit ''section bytes''))
      (vbind (vresult (ok_or (VerifyLimit ''section bytes'') (checked_add offset SECTION_HEADER_BYTES))) (\<lambda>payload_start.
       vbind (vresult (ok_or (VerifyLimit ''section bytes'') (checked_add payload_start payload_length))) (\<lambda>payload_end.
       vthen (vguard (payload_end > manifest_offset) VerifyTruncated)
       (vbind (read_exact_cancellable (unat payload_length)) (\<lambda>payload.
        vthen check_cancelled
        (vthen (check_digest payload payload_digest (section_scope (exs_kind expected)))
        (vret (payload, payload_end)))))))))))))))"

definition verify_step :: "(VerifyError, 'a) verifying \<Rightarrow> ('e VisitError, 'a) verifying" where
  "verify_step p env s = (case p env s of Inl e \<Rightarrow> Inl (VisitVerify e) | Inr r \<Rightarrow> Inr r)"

definition visit_step :: "'e + 'v \<Rightarrow> ('e VisitError, 'v) verifying" where
  "visit_step r env s = (case r of Inl e \<Rightarrow> Inl (VisitVisitor e) | Inr v \<Rightarrow> Inr (v, s))"

type_synonym ('e, 'v) section_visitor = "VerifiedSectionV1 \<Rightarrow> 'v \<Rightarrow> 'e + 'v"

definition walk_data ::
  "ExportManifestV1 \<Rightarrow> u64 \<Rightarrow> ExportLimits \<Rightarrow> ValidationContext \<Rightarrow> CatalogValidation \<Rightarrow> nat \<Rightarrow> GroupId \<Rightarrow> GroupCut
   \<Rightarrow> u64 \<Rightarrow> DataValidation \<Rightarrow> (VerifyError, DataGroupV1 \<times> u64 \<times> DataValidation) verifying" where
  "walk_data m manifest_offset limits ctx catalog index g c offset validation =
     vthen check_cancelled
     (vbind (vresult (if Suc index < 2 ^ 64 then Inr (Suc index) else Inl (VerifyLimit ''section count''))) (\<lambda>section_index.
      vbind (vresult (if section_index < length (xman_sections m) then Inr (xman_sections m ! section_index)
        else Inl (VerifyInconsistent ''section count''))) (\<lambda>d.
      vbind (read_section d \<lparr>exs_ordinal = of_nat section_index, exs_kind = SectionDataGroup, exs_group = Some g\<rparr>
        offset manifest_offset limits) (\<lambda>(payload, next_offset).
      vbind (decode_data_group payload limits) (\<lambda>data.
      vbind (vresult (model_count (length (xgrp_partitions data)) ''partitions'')) (\<lambda>n.
      vthen (vguard (n \<noteq> xsec_item_count d) (VerifyInconsistent ''data item count''))
      (vbind (vresult (verify_map_model (validate_data_group ctx g c data catalog validation limits))) (\<lambda>validation'.
      vret (data, next_offset, validation')))))))))"

definition walk_group ::
  "('e, 'v) section_visitor \<Rightarrow> ExportManifestV1 \<Rightarrow> u64 \<Rightarrow> ExportLimits \<Rightarrow> ValidationContext \<Rightarrow> CatalogValidation
   \<Rightarrow> nat \<Rightarrow> GroupId \<times> GroupCut \<Rightarrow> u64 \<times> DataValidation \<times> 'v \<Rightarrow> ('e VisitError, u64 \<times> DataValidation \<times> 'v) verifying" where
  "walk_group visitor m manifest_offset limits ctx catalog index gc st =
     (case gc of (g, c) \<Rightarrow> case st of (offset, validation, v) \<Rightarrow>
       vbind (verify_step (walk_data m manifest_offset limits ctx catalog index g c offset validation)) (\<lambda>(data, next_offset, validation').
       vbind (visit_step (visitor (VerifiedDataGroup data) v)) (\<lambda>v'.
       vret (next_offset, validation', v'))))"

fun walk_groups ::
  "('e, 'v) section_visitor \<Rightarrow> ExportManifestV1 \<Rightarrow> u64 \<Rightarrow> ExportLimits \<Rightarrow> ValidationContext \<Rightarrow> CatalogValidation
   \<Rightarrow> nat \<Rightarrow> (GroupId \<times> GroupCut) list \<Rightarrow> u64 \<times> DataValidation \<times> 'v \<Rightarrow> ('e VisitError, u64 \<times> DataValidation \<times> 'v) verifying" where
  "walk_groups visitor m manifest_offset limits ctx catalog index [] st = vret st"
| "walk_groups visitor m manifest_offset limits ctx catalog index (gc # gcs) st =
     vbind (walk_group visitor m manifest_offset limits ctx catalog index gc st)
       (walk_groups visitor m manifest_offset limits ctx catalog (Suc index) gcs)"

definition walk_control ::
  "ExportManifestV1 \<Rightarrow> u64 \<Rightarrow> ExportLimits \<Rightarrow> (VerifyError, ControlSectionV1 \<times> u64 \<times> CatalogValidation) verifying" where
  "walk_control m manifest_offset limits =
     vthen check_cancelled
     (vthen (vguard (length (xman_sections m) \<noteq> length (qc_data (xman_cut m)) + 1) (VerifyInconsistent ''section count''))
     (vbind (read_section (xman_sections m ! 0) \<lparr>exs_ordinal = 0, exs_kind = SectionControl, exs_group = None\<rparr>
        PROLOGUE_BYTES manifest_offset limits) (\<lambda>(payload, next_offset).
      vbind (decode_control payload limits) (\<lambda>control.
      vbind (vresult (model_count (length (xctl_streams control)) ''streams'')) (\<lambda>n.
      vthen (vguard (n \<noteq> xsec_item_count (xman_sections m ! 0)) (VerifyInconsistent ''control item count''))
      (vbind (vresult (verify_map_model (validate_control (ValidationContext_from_manifest m control) limits))) (\<lambda>catalog.
      vret (control, next_offset, catalog))))))))"

definition walk_finish ::
  "ExportManifestV1 \<Rightarrow> u64 \<Rightarrow> ExportLimits \<Rightarrow> ValidationContext \<Rightarrow> CatalogValidation \<Rightarrow> u64 \<Rightarrow> DataValidation \<Rightarrow> (VerifyError, unit) verifying"
where
  "walk_finish m manifest_offset limits ctx catalog offset validation =
     vthen (vguard (offset \<noteq> manifest_offset) (VerifyInvalid ''section extent''))
     (vbind (vresult (verify_map_model (finish_validation ctx catalog validation limits))) (\<lambda>final.
      vguard (dav_totals final \<noteq> xman_totals m) (VerifyInconsistent ''manifest totals'')))"

definition walk_sections ::
  "('e, 'v) section_visitor \<Rightarrow> ExportManifestV1 \<Rightarrow> u64 \<Rightarrow> ExportLimits \<Rightarrow> 'v \<Rightarrow> ('e VisitError, 'v) verifying" where
  "walk_sections visitor m manifest_offset limits v =
     vbind (verify_step (walk_control m manifest_offset limits)) (\<lambda>(control, offset, catalog).
     vbind (visit_step (visitor (VerifiedControl control) v)) (\<lambda>v1.
     vbind (walk_groups visitor m manifest_offset limits (ValidationContext_from_manifest m control) catalog 0
         (qc_data (xman_cut m)) (offset, DataValidation_default, v1)) (\<lambda>(end_offset, validation, v2).
     vbind (verify_step (walk_finish m manifest_offset limits (ValidationContext_from_manifest m control) catalog end_offset validation)) (\<lambda>_.
     vret v2))))"

section \<open>The verifier\<close>

record VerifiedExport =
  xver_file :: bytes
  xver_inspection :: ExportInspection
  xver_limits :: ExportLimits
  xver_manifest_offset :: u64

definition decode_trailer_fields :: "(VerifyError, u64 \<times> u64 \<times> bytes) verifying" where
  "decode_trailer_fields =
     vbind dec_u64 (\<lambda>manifest_offset.
     vbind dec_u64 (\<lambda>declared_length.
     vbind (dec_take 32) (\<lambda>expected_digest.
     vbind (dec_take 8) (\<lambda>magic.
     vthen (vguard (magic \<noteq> TRAILER_MAGIC_V1) (VerifyInvalid ''trailer magic''))
     (vret (manifest_offset, declared_length, expected_digest))))))"

definition read_trailer :: "u64 \<Rightarrow> (VerifyError, u64 \<times> u64 \<times> bytes) verifying" where
  "read_trailer trailer_start =
     vthen (seek_start trailer_start)
     (vbind (read_exact_cancellable (unat TRAILER_BYTES_V1)) (\<lambda>trailer.
      decode_all decode_trailer_fields trailer ''trailer''))"

definition read_manifest :: "ExportLimits \<Rightarrow> u64 \<Rightarrow> u64 \<Rightarrow> (VerifyError, bytes \<times> bytes) verifying" where
  "read_manifest limits manifest_offset manifest_end =
     vthen (seek_start manifest_offset)
     (vbind (read_exact_cancellable 8) (\<lambda>manifest_length_bytes.
      let manifest_length = from_be_bytes manifest_length_bytes :: u64
      in vthen (vguard (manifest_length > xlim_manifest_bytes limits) (VerifyLimit ''manifest bytes''))
         (vbind (vresult (ok_or (VerifyLimit ''manifest bytes'')
            (case checked_add manifest_offset 8 of None \<Rightarrow> None | Some v \<Rightarrow> checked_add v manifest_length))) (\<lambda>expected_end.
          vthen (vguard (expected_end \<noteq> manifest_end)
            (if expected_end < manifest_end then VerifyInvalid ''manifest length'' else VerifyTruncated))
          (vbind (read_exact_cancellable (unat manifest_length)) (\<lambda>manifest_bytes.
          vret (manifest_length_bytes, manifest_bytes)))))))"

definition decode_prologue_fields :: "(VerifyError, u64) verifying" where
  "decode_prologue_fields =
     vbind (dec_take 8) (\<lambda>magic.
     vthen (vguard (magic \<noteq> MAGIC_V1) (VerifyInvalid ''prologue magic''))
     (vbind dec_u32 (\<lambda>version.
      vthen (vguard (version \<noteq> FORMAT_VERSION_V1) (VerifyUnsupported ''format version''))
      (vbind dec_u64 (\<lambda>features.
       vthen (vguard (features AND NOT REQUIRED_FEATURES_V1 \<noteq> 0) (VerifyUnsupported ''required feature bits''))
       (vret features))))))"

definition read_prologue :: "(VerifyError, u64) verifying" where
  "read_prologue =
     vbind (read_exact_cancellable (unat PROLOGUE_BYTES)) (\<lambda>prologue.
     decode_all decode_prologue_fields prologue ''prologue'')"

text \<open>The visitor of the verifier does nothing and cannot fail, so the walk fails with a \<open>VerifyError\<close> only.\<close>

definition idle_visitor :: "(VerifyError, unit) section_visitor" where
  "idle_visitor section1 v = Inr v"

definition walk_verified :: "ExportManifestV1 \<Rightarrow> u64 \<Rightarrow> ExportLimits \<Rightarrow> (VerifyError, unit) verifying" where
  "walk_verified m manifest_offset limits env s =
     (case walk_sections idle_visitor m manifest_offset limits () env s of
        Inl (VisitVerify e) \<Rightarrow> Inl e | Inl (VisitVisitor e) \<Rightarrow> Inl e | Inr r \<Rightarrow> Inr r)"

definition verify_hashed :: "ExportLimits \<Rightarrow> ExportManifestV1 \<Rightarrow> u64 \<Rightarrow> bytes \<Rightarrow> bytes \<Rightarrow> (VerifyError, unit) verifying" where
  "verify_hashed limits m manifest_offset manifest_length_bytes encoded_manifest =
     vbind read_prologue (\<lambda>features.
     vthen (vguard (xman_required_features m \<noteq> features) (VerifyInconsistent ''required feature bits''))
     (vthen (walk_verified m manifest_offset limits)
     (vbind (read_exact_cancellable 8) (\<lambda>length_again.
      vthen (vguard (length_again \<noteq> manifest_length_bytes) (VerifyDigest ''artifact''))
      (compare_bytes encoded_manifest)))))"

definition verify_content ::
  "ExportLimits \<Rightarrow> u64 \<Rightarrow> u64 \<Rightarrow> bytes \<Rightarrow> (VerifyError, ExportManifestV1) verifying" where
  "verify_content limits manifest_offset manifest_end expected_digest =
     vbind (read_manifest limits manifest_offset manifest_end) (\<lambda>(manifest_length_bytes, encoded_manifest).
     vbind (decode_manifest encoded_manifest limits) (\<lambda>m.
     vthen (vresult (validate_manifest m limits))
     (vthen (seek_start 0)
     (vthen (hashing_new manifest_end)
     (vthen (verify_hashed limits m manifest_offset manifest_length_bytes encoded_manifest)
     (vbind hashing_finalize (\<lambda>actual_digest.
      vthen (vguard (actual_digest \<noteq> expected_digest) (VerifyDigest ''artifact''))
      (vret m))))))))"

definition verify_file :: "ExportLimits \<Rightarrow> (VerifyError, ExportInspection \<times> u64) verifying" where
  "verify_file limits =
     vthen check_cancelled
     (vbind seek_end (\<lambda>actual_length.
      vthen (vguard (actual_length > xlim_artifact_bytes limits) (VerifyLimit ''artifact bytes''))
      (vthen (vguard (actual_length < PROLOGUE_BYTES + SECTION_HEADER_BYTES + 8 + TRAILER_BYTES_V1) VerifyTruncated)
      (vbind (vresult (ok_or VerifyTruncated (checked_sub actual_length TRAILER_BYTES_V1))) (\<lambda>manifest_end.
       vbind (read_trailer manifest_end) (\<lambda>(manifest_offset, declared_length, expected_digest).
       vthen (vguard (declared_length < actual_length) VerifyTrailingBytes)
       (vthen (vguard (declared_length > actual_length) VerifyTruncated)
       (vthen (vguard (manifest_offset < PROLOGUE_BYTES \<or> manifest_offset \<ge> manifest_end) (VerifyInvalid ''manifest offset''))
       (vbind (verify_content limits manifest_offset manifest_end expected_digest) (\<lambda>m.
        vbind (vresult (case ArtifactIdentity_new actual_length expected_digest of
            Inl _ \<Rightarrow> Inl (VerifyInvalid ''artifact identity'') | Inr i \<Rightarrow> Inr i)) (\<lambda>artifact.
        vret (\<lparr>xins_artifact = artifact, xins_manifest = m, xins_sections = xman_sections m,
              xins_artifact_digest_coverage = \<lparr>adc_start = 0, adc_end = manifest_end\<rparr>\<rparr>, manifest_offset))))))))))))"

definition verify_start :: "ExportLimits \<Rightarrow> bytes \<Rightarrow> verify_state" where
  "verify_start limits file =
     \<lparr>vs_rest = [], vs_budget = DecodeBudget_new limits, vs_polls = 0,
      vs_reader = \<lparr>rd_file = file, rd_position = 0, rd_limit = None, rd_hashed = []\<rparr>\<rparr>"

definition verify_cancellable :: "verify_env \<Rightarrow> ExportLimits \<Rightarrow> bytes \<Rightarrow> VerifyError + VerifiedExport" where
  "verify_cancellable env limits file =
     (case verify_file limits env (verify_start limits file) of
        Inl e \<Rightarrow> Inl e
      | Inr ((inspection, manifest_offset), _) \<Rightarrow>
          Inr \<lparr>xver_file = file, xver_inspection = inspection, xver_limits = limits, xver_manifest_offset = manifest_offset\<rparr>)"

definition verify :: "verify_env \<Rightarrow> ExportLimits \<Rightarrow> bytes \<Rightarrow> VerifyError + VerifiedExport" where
  "verify env = verify_cancellable (never_cancelled env)"

definition visit_sections_cancellable ::
  "verify_env \<Rightarrow> ('e, 'v) section_visitor \<Rightarrow> VerifiedExport \<Rightarrow> 'v \<Rightarrow> 'e VisitError + 'v" where
  "visit_sections_cancellable env visitor x v =
     (case walk_sections visitor (xins_manifest (xver_inspection x)) (xver_manifest_offset x) (xver_limits x) v env
         (verify_start (xver_limits x) (xver_file x)) of
        Inl e \<Rightarrow> Inl e | Inr (v', _) \<Rightarrow> Inr v')"

definition visit_sections ::
  "verify_env \<Rightarrow> ('e, 'v) section_visitor \<Rightarrow> VerifiedExport \<Rightarrow> 'v \<Rightarrow> 'e VisitError + 'v" where
  "visit_sections env = visit_sections_cancellable (never_cancelled env)"

end
