(* ===== verification/Artifact_Parse.thy ===== *)
theory Artifact_Parse
  imports Artifact_Decode
begin

text \<open>
  Each decoder reads back what the encoder of its value wrote: the parse lemmas of the cuts, bookmarks,
  streams, partitions, records, sections and of the manifest, over the calculus of the codec. The conditions
  are those the Rust types guarantee (identities that are not zero, parsed names, a cut built by its
  constructor) and those the validation of the writer has checked. The budget a decoder takes is the one the
  writer reserved for the value.
\<close>

section \<open>What the types guarantee\<close>

definition cut_typed :: "GroupCut \<Rightarrow> bool" where
  "cut_typed c \<longleftrightarrow> gc_group c \<noteq> 0 \<and> gc_leader c \<noteq> 0"

definition quiescent_typed :: "QuiescentCut \<Rightarrow> bool" where
  "quiescent_typed q \<longleftrightarrow> cut_typed (qc_control q) \<and> tsorted (qc_data q) \<and>
     (\<forall>(g, c) \<in> set (qc_data q). g = gc_group c \<and> cut_typed c)"

definition stream_typed :: "ActiveStreamV1 \<Rightarrow> bool" where
  "stream_typed s \<longleftrightarrow> name_ok (sd_name (xstr_descriptor s)) \<and> (\<forall>b \<in> set (xstr_bookmarks s). name_ok (sb_name b))"

definition document_typed :: "ExportDocumentV1 \<Rightarrow> bool" where
  "document_typed d \<longleftrightarrow> quiescent_typed (xdoc_cut d) \<and> (\<forall>s \<in> set (xctl_streams (xdoc_control d)). stream_typed s)"

definition group_typed :: "DataGroupV1 \<Rightarrow> bool" where
  "group_typed d \<longleftrightarrow> (\<forall>p \<in> set (xgrp_partitions d). \<forall>b \<in> set (xpar_bookmarks p). name_ok (cb_name b))"

section \<open>Budgets\<close>

definition budget_for :: "ExportLimits \<Rightarrow> DecodeBudget \<Rightarrow> bool" where
  "budget_for limits b \<longleftrightarrow> bud_max_streams b = xlim_streams limits \<and> bud_max_partitions b = xlim_partitions limits \<and>
     bud_max_records b = xlim_records limits \<and> bud_max_bookmarks b = xlim_bookmarks limits \<and>
     bud_max_payload_bytes b = xlim_payload_bytes limits"

lemma budget_for_new: "budget_for limits (DecodeBudget_new limits)"
  by (simp add: budget_for_def DecodeBudget_new_def)

lemma reserve_Inr: "reserve used n limit name = Inr m \<Longrightarrow> n \<le> limit"
proof -
  assume "reserve used n limit name = Inr m"
  then have "unat m = unat used + unat n" "m \<le> limit"
    by (auto simp: reserve_def word_arith split: option.splits if_splits)
  then show ?thesis by (simp add: word_le_nat_alt)
qed

lemma reserves_Inr:
  assumes "budget_for limits b"
  shows "reserve_streams n b = Inr b' \<Longrightarrow> n \<le> xlim_streams limits \<and> budget_for limits b'"
    "reserve_partitions n b = Inr b' \<Longrightarrow> n \<le> xlim_partitions limits \<and> budget_for limits b'"
    "reserve_records n b = Inr b' \<Longrightarrow> n \<le> xlim_records limits \<and> budget_for limits b'"
    "reserve_bookmarks n b = Inr b' \<Longrightarrow> n \<le> xlim_bookmarks limits \<and> budget_for limits b'"
    "reserve_payload_bytes n b = Inr b' \<Longrightarrow> n \<le> xlim_payload_bytes limits \<and> budget_for limits b'"
  using assms
  by (auto simp: budget_for_def reserve_streams_def reserve_partitions_def reserve_records_def reserve_bookmarks_def
      reserve_payload_bytes_def bind_result_Inr dest: reserve_Inr)

lemma model_count_Inr: "model_count n name = Inr m \<longleftrightarrow> n < 2 ^ 64 \<and> m = of_nat n"
  by (auto simp: model_count_def)

lemma unat_of_small: "n < 2 ^ 64 \<Longrightarrow> unat (of_nat n :: u64) = n"
  by (simp add: unat_of_nat)

section \<open>Counted lists\<close>

lemma concat_at_least:
  "(\<And>x. x \<in> set xs \<Longrightarrow> k \<le> length (g x)) \<Longrightarrow> length xs * k \<le> length (concat (map g xs))"
  by (induction xs) (auto simp: add_mono)

lemma concat_item: "x \<in> set xs \<Longrightarrow> length (g x) \<le> length (concat (map g xs))"
  by (induction xs) auto

lemma parses_times_with:
  assumes "\<forall>x \<in> set xs. \<forall>b b'. q b \<longrightarrow> f x b = Inr b' \<longrightarrow> parses p (never_cancelled env) (g x) x b b' \<and> q b'"
    and "reserve_each f xs b = Inr b'" "q b"
  shows "parses (vtimes (length xs) p) (never_cancelled env) (concat (map g xs)) xs b b' \<and> q b'"
  using assms
proof (induction xs arbitrary: b)
  case Nil
  then show ?case by (simp add: parses_ret)
next
  case (Cons x xs)
  from Cons.prems(2) obtain b1 where b1: "f x b = Inr b1" "reserve_each f xs b1 = Inr b'"
    by (auto simp: bind_result_Inr)
  have x: "parses p (never_cancelled env) (g x) x b b1" "q b1"
    using Cons.prems(1,3) b1(1) by (meson list.set_intros(1))+
  have xs: "parses (vtimes (length xs) p) (never_cancelled env) (concat (map g xs)) xs b1 b'" "q b'"
    using Cons.IH [OF _ b1(2) x(2)] Cons.prems(1) by (meson list.set_intros(2))+
  have "parses (vtimes (Suc (length xs)) p) (never_cancelled env) (g x @ concat (map g xs)) (x # xs) b b'"
    unfolding vtimes.simps
    by (rule parses_then, rule parses_check, rule parses_bind, rule x(1), rule parses_last, rule xs(1), rule refl)
  with xs(2) show ?case by simp
qed

text \<open>A length prefix, its share of the budget, the items, and what follows them.\<close>

lemma parses_list:
  assumes "length xs < 2 ^ 64" "of_nat (length xs) \<le> limit" "\<forall>x \<in> set xs. unat item \<le> length (g x)"
    and "length (concat (map g xs) @ cs) < 2 ^ 64" "f0 (of_nat (length xs)) b = Inr b1"
    and "parses (vtimes (length xs) p) env (concat (map g xs)) xs b1 b2" "parses (k xs) env cs y b2 b'"
  shows "parses (vbind (dec_count limit name item) (\<lambda>n. vthen (vbudget (f0 n)) (vbind (vtimes (unat n) p) k)))
    env (len_bytes (length xs) @ concat (map g xs) @ cs) y b b'"
  unfolding len_bytes_def
proof (rule parses_count)
  have n: "unat (of_nat (length xs) :: u64) = length xs" by (rule unat_of_small [OF assms(1)])
  show "(of_nat (length xs) :: u64) \<le> limit" by (rule assms(2))
  have "length xs * unat item \<le> length (concat (map g xs))" using concat_at_least [of xs "unat item" g] assms(3) by blast
  then show "unat (of_nat (length xs) :: u64) * unat item \<le> length (concat (map g xs) @ cs)" by (simp add: n)
  show "length (concat (map g xs) @ cs) < 2 ^ 64" by (rule assms(4))
  show "parses (vthen (vbudget (f0 (of_nat (length xs)))) (vbind (vtimes (unat (of_nat (length xs) :: u64)) p) k)) env
      (concat (map g xs) @ cs) y b b'"
    unfolding n by (rule parses_then, rule parses_budget, rule assms(5), rule parses_bind, rule assms(6), rule assms(7))
qed

lemma parses_list_free:
  assumes "length xs < 2 ^ 64" "of_nat (length xs) \<le> limit" "\<forall>x \<in> set xs. unat item \<le> length (g x)"
    and "length (concat (map g xs) @ cs) < 2 ^ 64"
    and "parses (vtimes (length xs) p) env (concat (map g xs)) xs b b2" "parses (k xs) env cs y b2 b'"
  shows "parses (vbind (dec_count limit name item) (\<lambda>n. vbind (vtimes (unat n) p) k))
    env (len_bytes (length xs) @ concat (map g xs) @ cs) y b b'"
proof -
  have "parses (vthen (vbudget Inr) q) env bs z b b' = parses q env bs z b b'" for q bs and z :: 'b
    by (simp add: parses_def vthen_def vbind_def vbudget_def)
  with parses_list [OF assms(1-4), of "\<lambda>_. Inr" b b p env b2 k y b' name] assms(5,6) show ?thesis
    by (simp add: parses_def vthen_def vbind_def vbudget_def cong: sum.case_cong)
qed

lemma parses_times_free:
  "(\<forall>x \<in> set xs. \<forall>b. parses p (never_cancelled env) (g x) x b b) \<Longrightarrow>
    parses (vtimes (length xs) p) (never_cancelled env) (concat (map g xs)) xs b b"
  using parses_times_with [of xs "\<lambda>_. True" "\<lambda>_. Inr" p env g b b] by simp

section \<open>Cuts and lifecycles\<close>

lemma parses_cut:
  assumes "cut_typed c"
  shows "parses decode_cut env (cut_bytes c) c b b"
  unfolding decode_cut_def cut_bytes_def
  by (rule parse_intros | use assms in \<open>simp add: cut_typed_def\<close>)+

lemma parses_lifecycle:
  "parses (vbind dec_u8 decode_lifecycle) env [lifecycle_tag l] l b b"
  by (rule parses_last [OF parses_words(1)])
    (cases l; simp add: decode_lifecycle_def lifecycle_tag_def BOOKMARK_LIFECYCLE_ACTIVE_V1_def BOOKMARK_LIFECYCLE_DELETED_V1_def)

lemma length_cut_bytes [simp]: "length (cut_bytes c) = 32"
  by (simp add: cut_bytes_def)

lemma length_len_bytes [simp]: "length (len_bytes n) = 8"
  by (simp add: len_bytes_def)

lemma length_string_bytes [simp]: "length (string_bytes s) = 4 + length s"
  by (simp add: string_bytes_def)

section \<open>Bookmarks\<close>

lemma ordered_iff: "\<not> out_of_order xs \<longleftrightarrow> sorted_wrt (<) xs" for xs :: "'a::linorder list"
proof (induction xs)
  case Nil
  then show ?case by (simp add: out_of_order_def)
next
  case (Cons x xs)
  show ?case
  proof (cases xs)
    case Nil
    then show ?thesis by (simp add: out_of_order_def)
  next
    case (Cons y ys)
    then have "out_of_order (x # xs) \<longleftrightarrow> y \<le> x \<or> out_of_order xs" by (simp add: out_of_order_def)
    with Cons.IH Cons show ?thesis by (auto simp: not_le intro: less_trans)
  qed
qed

definition vector_typed :: "StreamCursorVector \<Rightarrow> bool" where
  "vector_typed v \<longleftrightarrow> sv_positions v \<noteq> [] \<and> \<not> out_of_order (map (pk_partition \<circ> cc_partition) (sv_positions v)) \<and>
     (\<forall>c \<in> set (sv_positions v). cc_cluster c = sv_cluster v \<and> pk_stream (cc_partition c) = sv_stream v)"

lemma vector_check_ok:
  "distinct (map (pk_partition \<circ> cc_partition) cs) \<Longrightarrow> set (map (pk_partition \<circ> cc_partition) cs) \<inter> set seen = {} \<Longrightarrow>
    \<forall>c \<in> set cs. cc_cluster c = cluster \<and> pk_stream (cc_partition c) = stream \<Longrightarrow>
    vector_check cluster stream seen cs = Inr ()"
  by (induction cs arbitrary: seen) auto

lemma vector_rebuilt:
  assumes "vector_typed v"
  shows "StreamCursorVector_new (sv_stream v) (sv_positions v) = Inr v"
proof -
  obtain c cs where c: "sv_positions v = c # cs" using assms by (cases "sv_positions v") (auto simp: vector_typed_def)
  have "sorted_wrt (<) (map (pk_partition \<circ> cc_partition) (sv_positions v))"
    using assms by (simp add: vector_typed_def ordered_iff)
  then have d: "distinct (map (pk_partition \<circ> cc_partition) (sv_positions v))" by (simp only: strict_sorted_iff)
  have same: "\<forall>c \<in> set (sv_positions v). cc_cluster c = sv_cluster v \<and> pk_stream (cc_partition c) = sv_stream v"
    using assms by (simp add: vector_typed_def)
  then have "cc_cluster c = sv_cluster v" using c by simp
  with vector_check_ok [OF d, of "[]" "sv_cluster v" "sv_stream v"] same c show ?thesis
    by (simp add: StreamCursorVector_new_def)
qed

lemma parses_position:
  "parses (decode_position (cc_cluster c) (pk_stream (cc_partition c))) env (position_bytes c) c b b"
  unfolding decode_position_def position_bytes_def
  by (rule parse_intros | simp)+

lemma length_position_bytes [simp]: "length (position_bytes c) = 12"
  by (simp add: position_bytes_def)

lemma parses_stream_bookmark:
  assumes lib: "libraries_ok env" and typed: "name_ok (sb_name bm)" "vector_typed (sb_vector bm)"
    and b: "budget_for limits b" "reserve_stream_bookmark_model bm b = Inr b'"
    and len: "length (stream_bookmark_bytes bm) < 2 ^ 64"
  shows "parses (decode_stream_bookmark limits) (never_cancelled env) (stream_bookmark_bytes bm) bm b b' \<and> budget_for limits b'"
proof -
  let ?v = "sb_vector bm"
  from b(2) have n: "length (sv_positions ?v) < 2 ^ 64" "reserve_partitions (of_nat (length (sv_positions ?v))) b = Inr b'"
    by (auto simp: reserve_stream_bookmark_model_def bind_result_Inr model_count_Inr)
  from reserves_Inr(2) [OF b(1) n(2)] have m: "of_nat (length (sv_positions ?v)) \<le> xlim_partitions limits" "budget_for limits b'"
    by auto
  have times: "parses (vtimes (length (sv_positions ?v)) (decode_position (sv_cluster ?v) (sv_stream ?v))) (never_cancelled env)
      (concat (map position_bytes (sv_positions ?v))) (sv_positions ?v) b' b'"
  proof (rule parses_times_free, intro ballI allI)
    fix c b assume "c \<in> set (sv_positions ?v)"
    then have "cc_cluster c = sv_cluster ?v" "pk_stream (cc_partition c) = sv_stream ?v"
      using typed(2) by (auto simp: vector_typed_def)
    with parses_position [of c] show "parses (decode_position (sv_cluster ?v) (sv_stream ?v)) (never_cancelled env) (position_bytes c) c b b"
      by metis
  qed
  have lib': "libraries_ok (never_cancelled env)" using lib by simp
  have small: "length (concat (map position_bytes (sv_positions ?v)) @ []) < 2 ^ 64"
    using len by (simp add: stream_bookmark_bytes_def)
  have fin: "parses (vthen (vguard (out_of_order (map (pk_partition \<circ> cc_partition) (sv_positions ?v)))
        (VerifyNonCanonical ''stream bookmark positions''))
      (case StreamCursorVector_new (sv_stream ?v) (sv_positions ?v) of
         Inl _ \<Rightarrow> vfail (VerifyInvalid ''stream bookmark positions'')
       | Inr vector \<Rightarrow>
           let b = CommittedStreamBookmark_published (sb_id bm) (sb_name bm) vector (sb_publication bm)
           in vret (if sb_lifecycle bm = BookmarkDeleted then stream_bookmark_mark_deleted b else b)))
      (never_cancelled env) [] bm b' b'"
    unfolding vector_rebuilt [OF typed(2)] sum.case Let_def
    by (rule parse_intros | use typed(2) in \<open>cases "sb_lifecycle bm";
        simp add: vector_typed_def CommittedStreamBookmark_published_def stream_bookmark_mark_deleted_def\<close>)+
  have "parses (decode_stream_bookmark limits) (never_cancelled env) (stream_bookmark_bytes bm) bm b b'"
    unfolding decode_stream_bookmark_def stream_bookmark_bytes_def
    by (rule parses_then, rule parses_check, rule parses_bind, rule parses_ids [OF lib'], rule parses_bind, rule parses_ids [OF lib'],
        rule parses_bind, rule parses_ids [OF lib'], rule parses_bind, rule parses_names [OF typed(1)], rule parses_bind,
        rule parses_words, rule parses_bind, rule parses_lifecycle, rule parses_list, rule n(1), rule m(1), simp, rule small,
        rule n(2), rule times, rule fin)
  with m(2) show ?thesis by blast
qed

lemma parses_partition_bookmark:
  assumes "libraries_ok env" "name_ok (cb_name bm)"
  shows "parses decode_partition_bookmark (never_cancelled env) (partition_bookmark_bytes bm) bm b b"
proof -
  have lib': "libraries_ok (never_cancelled env)" using assms(1) by simp
  show ?thesis
    unfolding decode_partition_bookmark_def partition_bookmark_bytes_def Let_def
    by (rule parses_bind, rule parses_ids [OF lib'], rule parses_bind, rule parses_ids [OF lib'], rule parses_bind, rule parses_words,
        rule parses_bind, rule parses_ids [OF lib'], rule parses_bind, rule parses_names [OF assms(2)], rule parses_bind,
        rule parses_words, rule parses_bind, rule parses_words, rule parses_bind, rule parses_lifecycle, rule parses_ret_eq)
      (cases "cb_lifecycle bm"; simp add: CommittedBookmark_published_def bookmark_mark_deleted_def)
qed

section \<open>Streams and the control section\<close>

lemma parses_placement:
  "pp_group p \<noteq> 0 \<Longrightarrow> parses decode_placement env (placement_bytes p) p b b"
  unfolding decode_placement_def placement_bytes_def by (rule parse_intros | simp)+

lemma length_placement_bytes [simp]: "length (placement_bytes p) = 12"
  by (simp add: placement_bytes_def)

lemma stream_bookmark_bytes_long:
  "name_ok (sb_name bm) \<Longrightarrow> vector_typed (sb_vector bm) \<Longrightarrow> 81 \<le> length (stream_bookmark_bytes bm)"
proof -
  assume "name_ok (sb_name bm)" "vector_typed (sb_vector bm)"
  then have "1 \<le> length (sb_name bm)" "1 \<le> length (sv_positions (sb_vector bm))"
    by (auto simp: name_ok_def vector_typed_def Suc_le_eq)
  moreover have "length (sv_positions (sb_vector bm)) * 12 \<le> length (concat (map position_bytes (sv_positions (sb_vector bm))))"
    by (rule concat_at_least) simp
  ultimately show ?thesis by (simp add: stream_bookmark_bytes_def)
qed

text \<open>What the validation of the writer has established of a stream, and the decoder relies on.\<close>

definition stream_sound :: "ActiveStreamV1 \<Rightarrow> bool" where
  "stream_sound s \<longleftrightarrow> sd_lifecycle (xstr_descriptor s) = Active \<and> name_ok (sd_name (xstr_descriptor s)) \<and>
     (\<forall>p \<in> set (sd_placements (xstr_descriptor s)). pp_group p \<noteq> 0) \<and>
     (\<forall>g \<in> set (sd_ready_groups (xstr_descriptor s)). g \<noteq> 0) \<and> length (sd_ready_groups (xstr_descriptor s)) \<le> MAX_DATA_GROUPS \<and>
     (\<forall>b \<in> set (xstr_bookmarks s). name_ok (sb_name b) \<and> vector_typed (sb_vector b))"

lemma parses_groups:
  "(\<forall>g \<in> set gs. g \<noteq> 0) \<Longrightarrow>
    parses (vtimes (length gs) dec_group) (never_cancelled env) (concat (map to_be_bytes gs)) gs b b"
  by (rule parses_times_free) (simp add: parses_nonzero)

lemma groups_counted: "length gs \<le> MAX_DATA_GROUPS \<Longrightarrow> length gs < 2 ^ 64 \<and> (of_nat (length gs) :: u64) \<le> of_nat MAX_DATA_GROUPS"
  by (auto simp: MAX_DATA_GROUPS_def word_le_nat_alt unat_of_nat)

lemma stream_bytes_long: "stream_sound s \<Longrightarrow> 77 \<le> length (stream_bytes s)"
  by (auto simp: stream_sound_def name_ok_def stream_bytes_def)

lemma parses_stream:
  assumes lib: "libraries_ok env" and snd: "stream_sound s"
    and b: "budget_for limits b" "reserve_stream_model s b = Inr b'"
    and len: "length (stream_bytes s) < 2 ^ 64"
  shows "parses (decode_stream limits) (never_cancelled env) (stream_bytes s) s b b' \<and> budget_for limits b'"
proof -
  let ?d = "xstr_descriptor s"
  from b(2) obtain b1 b2 where
      n: "length (sd_placements ?d) < 2 ^ 64" "reserve_partitions (of_nat (length (sd_placements ?d))) b = Inr b1"
      "length (xstr_bookmarks s) < 2 ^ 64" "reserve_bookmarks (of_nat (length (xstr_bookmarks s))) b1 = Inr b2"
      "reserve_each reserve_stream_bookmark_model (xstr_bookmarks s) b2 = Inr b'"
    by (auto simp: reserve_stream_model_def bind_result_Inr model_count_Inr)
  from reserves_Inr(2) [OF b(1) n(2)] have p: "of_nat (length (sd_placements ?d)) \<le> xlim_partitions limits" "budget_for limits b1"
    by auto
  from reserves_Inr(4) [OF p(2) n(4)] have k: "of_nat (length (xstr_bookmarks s)) \<le> xlim_bookmarks limits" "budget_for limits b2"
    by auto
  have lib': "libraries_ok (never_cancelled env)" using lib by simp
  have name: "name_ok (sd_name ?d)" using snd by (simp add: stream_sound_def)
  have g: "\<forall>g \<in> set (sd_ready_groups ?d). g \<noteq> 0" using snd by (simp add: stream_sound_def)
  have r: "length (sd_ready_groups ?d) < 2 ^ 64" "(of_nat (length (sd_ready_groups ?d)) :: u64) \<le> of_nat MAX_DATA_GROUPS"
    using groups_counted [of "sd_ready_groups ?d"] snd by (auto simp: stream_sound_def)
  have places: "parses (vtimes (length (sd_placements ?d)) decode_placement) (never_cancelled env)
      (concat (map placement_bytes (sd_placements ?d))) (sd_placements ?d) b1 b1"
    by (rule parses_times_free) (use snd in \<open>simp add: stream_sound_def parses_placement\<close>)
  have bms: "parses (vtimes (length (xstr_bookmarks s)) (decode_stream_bookmark limits)) (never_cancelled env)
      (concat (map stream_bookmark_bytes (xstr_bookmarks s))) (xstr_bookmarks s) b2 b' \<and> budget_for limits b'"
  proof (rule parses_times_with [where q = "budget_for limits", OF _ n(5) k(2)], intro ballI allI impI)
    fix bm c c' assume bm: "bm \<in> set (xstr_bookmarks s)" "budget_for limits c" "reserve_stream_bookmark_model bm c = Inr c'"
    have "length (stream_bookmark_bytes bm) < 2 ^ 64"
      using concat_item [OF bm(1), of stream_bookmark_bytes] len by (simp add: stream_bytes_def)
    with parses_stream_bookmark [OF lib _ _ bm(2,3)] bm(1) snd
    show "parses (decode_stream_bookmark limits) (never_cancelled env) (stream_bookmark_bytes bm) bm c c' \<and> budget_for limits c'"
      by (simp add: stream_sound_def)
  qed
  have long: "\<forall>bm \<in> set (xstr_bookmarks s). unat (81 :: u64) \<le> length (stream_bookmark_bytes bm)"
    using stream_bookmark_bytes_long snd by (auto simp: stream_sound_def)
  have small: "length (concat (map placement_bytes (sd_placements ?d)) @ len_bytes (length (sd_ready_groups ?d)) @
        concat (map to_be_bytes (sd_ready_groups ?d)) @ to_be_bytes (xstr_bookmark_publication_ceiling s) @
        len_bytes (length (xstr_bookmarks s)) @ concat (map stream_bookmark_bytes (xstr_bookmarks s)) @ []) < 2 ^ 64"
      "length (concat (map to_be_bytes (sd_ready_groups ?d)) @ to_be_bytes (xstr_bookmark_publication_ceiling s) @
        len_bytes (length (xstr_bookmarks s)) @ concat (map stream_bookmark_bytes (xstr_bookmarks s)) @ []) < 2 ^ 64"
      "length (concat (map stream_bookmark_bytes (xstr_bookmarks s)) @ []) < 2 ^ 64"
    using len by (simp_all add: stream_bytes_def)
  have "parses (decode_stream limits) (never_cancelled env) (stream_bytes s) s b b'"
    unfolding decode_stream_def stream_bytes_def
    by (rule parses_then, rule parses_check, rule parses_bind, rule parses_ids [OF lib'], rule parses_bind, rule parses_ids [OF lib'],
        rule parses_bind, rule parses_names [OF name], rule parses_bind, rule parses_words, rule parses_then, rule parses_guard, simp,
        rule parses_bind, rule parses_words, rule parses_list, rule n(1), rule p(1), simp, rule small(1), rule n(2), rule places,
        rule parses_list_free, rule r(1), rule r(2), simp, rule small(2), rule parses_groups [OF g], rule parses_bind, rule parses_words,
        rule parses_list, rule n(3), rule k(1), rule long, rule small(3), rule n(4), rule conjunct1 [OF bms], rule parses_ret_eq)
      (use snd in \<open>simp add: stream_sound_def\<close>)
  with bms show ?thesis by blast
qed

definition control_sound :: "ControlSectionV1 \<Rightarrow> bool" where
  "control_sound c \<longleftrightarrow> cut_typed (xctl_cut c) \<and> (\<forall>g \<in> set (xctl_configured_data_groups c). g \<noteq> 0) \<and>
     length (xctl_configured_data_groups c) \<le> MAX_DATA_GROUPS \<and> (\<forall>s \<in> set (xctl_streams c). stream_sound s)"

text \<open>A whole payload is decoded from the start of a decoder of its own to its end.\<close>

definition decodes :: "(VerifyError, 'a) verifying \<Rightarrow> verify_env \<Rightarrow> 'a \<Rightarrow> DecodeBudget \<Rightarrow> DecodeBudget \<Rightarrow> bool" where
  "decodes p env x b b' \<longleftrightarrow>
     (\<forall>r n rd. \<exists>n'. p env \<lparr>vs_rest = r, vs_budget = b, vs_polls = n, vs_reader = rd\<rparr> =
       Inr (x, \<lparr>vs_rest = [], vs_budget = b', vs_polls = n', vs_reader = rd\<rparr>))"

lemma decodes_all:
  assumes "parses p env bs x b b'"
  shows "decodes (decode_all p bs field) env x b b'"
  unfolding decodes_def
proof (intro allI)
  fix r n rd
  obtain n' where "p env \<lparr>vs_rest = bs @ [], vs_budget = b, vs_polls = n, vs_reader = rd\<rparr> =
      Inr (x, \<lparr>vs_rest = [], vs_budget = b', vs_polls = n', vs_reader = rd\<rparr>)"
    using parsesE [OF assms, of "[]" n rd] by blast
  then show "\<exists>n'. decode_all p bs field env \<lparr>vs_rest = r, vs_budget = b, vs_polls = n, vs_reader = rd\<rparr> =
      Inr (x, \<lparr>vs_rest = [], vs_budget = b', vs_polls = n', vs_reader = rd\<rparr>)"
    by (auto simp: decode_all_def vthen_def vbind_def Decoder_new_def dec_finish_def vret_def)
qed

lemma decodes_payload:
  assumes "parses p (never_cancelled env) bs x b b'"
  shows "decodes (vthen check_cancelled (decode_all p bs field)) (never_cancelled env) x b b'"
  using decodes_all [OF assms, of field]
  by (simp add: decodes_def vthen_def vbind_def check_cancelled_def)

lemma decodes_control:
  assumes lib: "libraries_ok env" and snd: "control_sound c"
    and b: "budget_for limits b" "reserve_control_model c b = Inr b'"
    and len: "length (control_bytes c) < 2 ^ 64"
  shows "decodes (decode_control (control_bytes c) limits) (never_cancelled env) c b b' \<and> budget_for limits b'"
proof -
  from b(2) obtain b1 where
      n: "length (xctl_streams c) < 2 ^ 64" "reserve_streams (of_nat (length (xctl_streams c))) b = Inr b1"
      "reserve_each reserve_stream_model (xctl_streams c) b1 = Inr b'"
    by (auto simp: reserve_control_model_def bind_result_Inr model_count_Inr)
  from reserves_Inr(1) [OF b(1) n(2)] have k: "of_nat (length (xctl_streams c)) \<le> xlim_streams limits" "budget_for limits b1"
    by auto
  have lib': "libraries_ok (never_cancelled env)" using lib by simp
  have typed: "cut_typed (xctl_cut c)" "\<forall>g \<in> set (xctl_configured_data_groups c). g \<noteq> 0" using snd by (simp_all add: control_sound_def)
  have g: "length (xctl_configured_data_groups c) < 2 ^ 64" "(of_nat (length (xctl_configured_data_groups c)) :: u64) \<le> of_nat MAX_DATA_GROUPS"
    using groups_counted [of "xctl_configured_data_groups c"] snd by (auto simp: control_sound_def)
  have streams: "parses (vtimes (length (xctl_streams c)) (decode_stream limits)) (never_cancelled env)
      (concat (map stream_bytes (xctl_streams c))) (xctl_streams c) b1 b' \<and> budget_for limits b'"
  proof (rule parses_times_with [where q = "budget_for limits", OF _ n(3) k(2)], intro ballI allI impI)
    fix s d d' assume s: "s \<in> set (xctl_streams c)" "budget_for limits d" "reserve_stream_model s d = Inr d'"
    have "length (stream_bytes s) < 2 ^ 64"
      using concat_item [OF s(1), of stream_bytes] len by (simp add: control_bytes_def)
    with parses_stream [OF lib _ s(2,3)] s(1) snd
    show "parses (decode_stream limits) (never_cancelled env) (stream_bytes s) s d d' \<and> budget_for limits d'"
      by (simp add: control_sound_def)
  qed
  have long: "\<forall>s \<in> set (xctl_streams c). unat (77 :: u64) \<le> length (stream_bytes s)"
    using stream_bytes_long snd by (auto simp: control_sound_def)
  have small: "length (concat (map to_be_bytes (xctl_configured_data_groups c)) @ len_bytes (length (xctl_streams c)) @
        concat (map stream_bytes (xctl_streams c)) @ []) < 2 ^ 64"
      "length (concat (map stream_bytes (xctl_streams c)) @ []) < 2 ^ 64"
    using len by (simp_all add: control_bytes_def)
  have "parses (decode_control_fields limits) (never_cancelled env) (control_bytes c) c b b'"
    unfolding decode_control_fields_def control_bytes_def
    by (rule parses_bind, rule parses_ids [OF lib'], rule parses_bind, rule parses_words, rule parses_bind, rule parses_cut [OF typed(1)],
        rule parses_bind, rule parses_words, rule parses_bind, rule parses_words, rule parses_bind, rule parses_words,
        rule parses_bind, rule parses_words, rule parses_list_free, rule g(1), rule g(2), simp, rule small(1),
        rule parses_groups [OF typed(2)], rule parses_list, rule n(1), rule k(1), rule long, rule small(2), rule n(2),
        rule conjunct1 [OF streams], rule parses_ret_eq) simp
  then show ?thesis
    unfolding decode_control_def using streams by (blast intro: decodes_payload)
qed

section \<open>Records, partitions and data sections\<close>

lemma parses_present:
  "n \<le> length cs \<Longrightarrow> parses q env cs y b b' \<Longrightarrow> parses (vthen (payload_present n) q) env cs y b b'"
  by (auto simp: parses_def payload_present_def vthen_def vbind_def)

lemma parses_poll: "parses (poll_chunks n) (never_cancelled env) [] () b b"
proof (induction n rule: poll_chunks.induct)
  case (1 n)
  show ?case
  proof (cases "n = 0")
    case True
    then show ?thesis by (subst poll_chunks.simps) (simp add: parses_ret)
  next
    case False
    then show ?thesis
      by (subst poll_chunks.simps) (simp add: parses_then [OF parses_check 1])
  qed
qed

lemma parses_record:
  assumes b: "budget_for limits b" "reserve_record_model r b = Inr b'"
  shows "parses (decode_record limits) (never_cancelled env) (record_bytes r) r b b' \<and> budget_for limits b'"
proof -
  from b(2) have n: "length (cr_payload r) < 2 ^ 64" "reserve_payload_bytes (of_nat (length (cr_payload r))) b = Inr b'"
    by (auto simp: reserve_record_model_def bind_result_Inr model_count_Inr)
  from reserves_Inr(5) [OF b(1) n(2)]
  have m: "\<not> of_nat (length (cr_payload r)) > xlim_payload_bytes limits" "budget_for limits b'" by auto
  have u: "unat (of_nat (length (cr_payload r)) :: u64) = length (cr_payload r)" by (rule unat_of_small [OF n(1)])
  have "parses (decode_record limits) (never_cancelled env) (record_bytes r) r b b'"
    unfolding decode_record_def record_bytes_def len_bytes_def
    by (rule parses_bind, rule parses_words, rule parses_bind, rule parses_words, rule parses_then, rule parses_guard, rule m(1),
        rule parses_present, simp add: u, rule parses_then, rule parses_budget, rule n(2), rule parses_bind, rule parses_take,
        simp add: u, rule parses_then, rule parses_poll, rule parses_ret_eq) simp
  with m(2) show ?thesis by blast
qed

lemma record_bytes_long: "16 \<le> length (record_bytes r)"
  by (simp add: record_bytes_def)

lemma partition_bookmark_bytes_long: "name_ok (cb_name b) \<Longrightarrow> 73 \<le> length (partition_bookmark_bytes b)"
  by (simp add: partition_bookmark_bytes_def)

lemma section_partition_bytes_long: "76 \<le> length (section_partition_bytes p)"
  by (simp add: section_partition_bytes_def)

lemma parses_partition:
  assumes lib: "libraries_ok env" and typed: "\<forall>b \<in> set (xpar_bookmarks p). name_ok (cb_name b)"
    and b: "budget_for limits b" "reserve_partition_model p b = Inr b'"
    and len: "length (section_partition_bytes p) < 2 ^ 64"
  shows "parses (decode_partition limits) (never_cancelled env) (section_partition_bytes p) p b b' \<and> budget_for limits b'"
proof -
  from b(2) obtain b1 b2 where
      n: "length (xpar_records p) < 2 ^ 64" "reserve_records (of_nat (length (xpar_records p))) b = Inr b1"
      "reserve_each reserve_record_model (xpar_records p) b1 = Inr b2"
      "length (xpar_bookmarks p) < 2 ^ 64" "reserve_bookmarks (of_nat (length (xpar_bookmarks p))) b2 = Inr b'"
    by (auto simp: reserve_partition_model_def bind_result_Inr model_count_Inr)
  from reserves_Inr(3) [OF b(1) n(2)] have r: "of_nat (length (xpar_records p)) \<le> xlim_records limits" "budget_for limits b1" by auto
  have records: "parses (vtimes (length (xpar_records p)) (decode_record limits)) (never_cancelled env)
      (concat (map record_bytes (xpar_records p))) (xpar_records p) b1 b2 \<and> budget_for limits b2"
    by (rule parses_times_with [where q = "budget_for limits", OF _ n(3) r(2)]) (auto dest: parses_record)
  from reserves_Inr(4) [OF conjunct2 [OF records] n(5)]
  have k: "of_nat (length (xpar_bookmarks p)) \<le> xlim_bookmarks limits" "budget_for limits b'" by auto
  have lib': "libraries_ok (never_cancelled env)" using lib by simp
  have bms: "parses (vtimes (length (xpar_bookmarks p)) decode_partition_bookmark) (never_cancelled env)
      (concat (map partition_bookmark_bytes (xpar_bookmarks p))) (xpar_bookmarks p) b' b'"
    by (rule parses_times_free) (use typed parses_partition_bookmark [OF lib] in blast)
  have long: "\<forall>r \<in> set (xpar_records p). unat (16 :: u64) \<le> length (record_bytes r)"
      "\<forall>b \<in> set (xpar_bookmarks p). unat (73 :: u64) \<le> length (partition_bookmark_bytes b)"
    using record_bytes_long partition_bookmark_bytes_long typed by auto
  have small: "length (concat (map record_bytes (xpar_records p)) @ len_bytes (length (xpar_bookmarks p)) @
        concat (map partition_bookmark_bytes (xpar_bookmarks p)) @ []) < 2 ^ 64"
      "length (concat (map partition_bookmark_bytes (xpar_bookmarks p)) @ []) < 2 ^ 64"
    using len by (simp_all add: section_partition_bytes_def)
  have "parses (decode_partition limits) (never_cancelled env) (section_partition_bytes p) p b b'"
    unfolding decode_partition_def section_partition_bytes_def
    by (rule parses_then, rule parses_check, rule parses_bind, rule parses_ids [OF lib'], rule parses_bind, rule parses_ids [OF lib'],
        rule parses_bind, rule parses_words, rule parses_bind, rule parses_words, rule parses_bind, rule parses_words,
        rule parses_bind, rule parses_words, rule parses_list, rule n(1), rule r(1), rule long(1), rule small(1), rule n(2),
        rule conjunct1 [OF records], rule parses_list, rule n(4), rule k(1), rule long(2), rule small(2), rule n(5), rule bms,
        rule parses_ret_eq) simp
  with k(2) show ?thesis by blast
qed

lemma decodes_data_group:
  assumes lib: "libraries_ok env" and typed: "group_typed d" "xgrp_group d \<noteq> 0" "cut_typed (xgrp_cut d)"
    and b: "budget_for limits b" "reserve_data_group_model d b = Inr b'"
    and len: "length (data_group_bytes d) < 2 ^ 64"
  shows "decodes (decode_data_group (data_group_bytes d) limits) (never_cancelled env) d b b' \<and> budget_for limits b'"
proof -
  from b(2) obtain b1 where
      n: "length (xgrp_partitions d) < 2 ^ 64" "reserve_partitions (of_nat (length (xgrp_partitions d))) b = Inr b1"
      "reserve_each reserve_partition_model (xgrp_partitions d) b1 = Inr b'"
    by (auto simp: reserve_data_group_model_def bind_result_Inr model_count_Inr)
  from reserves_Inr(2) [OF b(1) n(2)] have k: "of_nat (length (xgrp_partitions d)) \<le> xlim_partitions limits" "budget_for limits b1"
    by auto
  have lib': "libraries_ok (never_cancelled env)" using lib by simp
  have parts: "parses (vtimes (length (xgrp_partitions d)) (decode_partition limits)) (never_cancelled env)
      (concat (map section_partition_bytes (xgrp_partitions d))) (xgrp_partitions d) b1 b' \<and> budget_for limits b'"
  proof (rule parses_times_with [where q = "budget_for limits", OF _ n(3) k(2)], intro ballI allI impI)
    fix p c c' assume p: "p \<in> set (xgrp_partitions d)" "budget_for limits c" "reserve_partition_model p c = Inr c'"
    have "length (section_partition_bytes p) < 2 ^ 64"
      using concat_item [OF p(1), of section_partition_bytes] len by (simp add: data_group_bytes_def)
    with parses_partition [OF lib _ p(2,3)] p(1) typed(1)
    show "parses (decode_partition limits) (never_cancelled env) (section_partition_bytes p) p c c' \<and> budget_for limits c'"
      by (simp add: group_typed_def)
  qed
  have long: "\<forall>p \<in> set (xgrp_partitions d). unat (76 :: u64) \<le> length (section_partition_bytes p)"
    using section_partition_bytes_long by auto
  have small: "length (concat (map section_partition_bytes (xgrp_partitions d)) @ []) < 2 ^ 64"
    using len by (simp add: data_group_bytes_def)
  have "parses (decode_data_group_fields limits) (never_cancelled env) (data_group_bytes d) d b b'"
    unfolding decode_data_group_fields_def data_group_bytes_def
    by (rule parses_bind, rule parses_ids [OF lib'], rule parses_bind, rule parses_words, rule parses_bind,
        rule parses_nonzero [OF typed(2)], rule parses_bind, rule parses_cut [OF typed(3)], rule parses_list, rule n(1), rule k(1),
        rule long, rule small, rule n(2), rule conjunct1 [OF parts], rule parses_ret_eq) simp
  then show ?thesis
    unfolding decode_data_group_def using parts by (blast intro: decodes_payload)
qed

section \<open>The manifest\<close>

definition section_typed :: "SectionDescriptorV1 \<Rightarrow> bool" where
  "section_typed s \<longleftrightarrow> xsec_group s \<noteq> Some 0 \<and> length (xsec_payload_sha256 s) = 32"

lemma parses_section_kind:
  "parses (vbind dec_u16 decode_section_kind) env (to_be_bytes (section_kind_number k)) k b b"
  by (rule parses_last [OF parses_words(2)])
    (cases k; simp add: decode_section_kind_def section_kind_number_def SECTION_KIND_CONTROL_V1_def SECTION_KIND_DATA_GROUP_V1_def)

lemma parses_group_option:
  assumes "g \<noteq> Some 0"
  shows "parses (vbind dec_u8 decode_group_option) env (group_option_bytes g) g b b"
proof (cases g)
  case None
  then show ?thesis
    unfolding group_option_bytes_def option.case
    by (simp add: parses_last [OF parses_words(1)] decode_group_option_def)
next
  case (Some v)
  with assms have "v \<noteq> 0" by simp
  with Some show ?thesis
    unfolding group_option_bytes_def decode_group_option_def
    by (auto simp: OPTION_NONE_V1_def OPTION_SOME_V1_def simp del: append_Cons append_Nil append_Nil2
        intro!: parses_bind [OF parses_words(1)] parses_bind [OF parses_nonzero(1)] parses_ret)
qed

lemma parses_section:
  assumes "section_typed s"
  shows "parses decode_section env (section_bytes s) s b b"
proof -
  have t: "xsec_group s \<noteq> Some 0" "length (xsec_payload_sha256 s) = 32" using assms by (simp_all add: section_typed_def)
  show ?thesis
    unfolding decode_section_def section_bytes_def
    by (rule parses_bind, rule parses_words, rule parses_bind, rule parses_section_kind, rule parses_bind, rule parses_words,
        rule parses_bind, rule parses_group_option [OF t(1)], rule parses_bind, rule parses_words, rule parses_bind, rule parses_words,
        rule parses_bind, rule parses_words, rule parses_bind, rule parses_take [OF t(2)], rule parses_ret_eq) simp
qed

lemma section_bytes_long: "section_typed s \<Longrightarrow> 69 \<le> length (section_bytes s)"
  by (cases "xsec_group s") (simp_all add: section_typed_def section_bytes_def group_option_bytes_def)

lemma parses_totals: "parses decode_totals env (totals_bytes t) t b b"
  unfolding decode_totals_def totals_bytes_def by (rule parse_intros | simp)+

lemma parses_quiescent_cut:
  assumes "quiescent_typed q"
  shows "parses (decode_quiescent_cut (qc_control q) (map snd (qc_data q))) env [] q b b"
proof -
  have keys: "map gc_group (map snd (qc_data q)) = map fst (qc_data q)"
    using assms by (auto simp: quiescent_typed_def)
  have sorted: "tsorted (qc_data q)" using assms by (simp add: quiescent_typed_def)
  then have "sorted_wrt (<) (map fst (qc_data q))" by (simp add: tsorted_def)
  then have ord: "\<not> out_of_order (map gc_group (map snd (qc_data q)))" unfolding keys ordered_iff .
  have pairs: "map (\<lambda>c. (gc_group c, c)) (map snd (qc_data q)) = qc_data q"
    using assms by (induction "qc_data q") (auto simp: quiescent_typed_def intro!: map_idI)
  have "QuiescentCut_try_new (qc_control q) (map snd (qc_data q)) = Inr q"
    unfolding QuiescentCut_try_new_def pairs using collect_table_sorted [OF sorted] by simp
  then show ?thesis
    unfolding decode_quiescent_cut_def by (simp only: sum.case) (rule parses_then [OF parses_guard [OF ord] parses_ret])
qed

definition manifest_typed :: "ExportManifestV1 \<Rightarrow> bool" where
  "manifest_typed m \<longleftrightarrow> quiescent_typed (xman_cut m) \<and> length (qc_data (xman_cut m)) \<le> MAX_DATA_GROUPS \<and>
     length (xman_sections m) \<le> MAX_DATA_GROUPS + 1 \<and> (\<forall>s \<in> set (xman_sections m). section_typed s)"

lemma decodes_manifest:
  assumes lib: "libraries_ok env" and typed: "manifest_typed m"
    and b: "budget_for limits b" "reserve_manifest_model (xman_selected_streams m) b = Inr b'"
    and len: "length (manifest_bytes m) < 2 ^ 64"
  shows "decodes (decode_manifest (manifest_bytes m) limits) (never_cancelled env) m b b' \<and> budget_for limits b'"
proof -
  let ?cuts = "map snd (qc_data (xman_cut m))"
  from b(2) have n: "length (xman_selected_streams m) < 2 ^ 64" "reserve_streams (of_nat (length (xman_selected_streams m))) b = Inr b'"
    by (auto simp: reserve_manifest_model_def bind_result_Inr model_count_Inr)
  from reserves_Inr(1) [OF b(1) n(2)]
  have k: "of_nat (length (xman_selected_streams m)) \<le> xlim_streams limits" "budget_for limits b'" by auto
  have lib': "libraries_ok (never_cancelled env)" using lib by simp
  have q: "quiescent_typed (xman_cut m)" using typed by (simp add: manifest_typed_def)
  then have control: "cut_typed (qc_control (xman_cut m))" and cuts: "\<forall>c \<in> set ?cuts. cut_typed c"
    by (auto simp: quiescent_typed_def)
  have g: "length ?cuts < 2 ^ 64" "(of_nat (length ?cuts) :: u64) \<le> of_nat MAX_DATA_GROUPS"
    using groups_counted [of ?cuts] typed by (auto simp: manifest_typed_def)
  have sec: "length (xman_sections m) < 2 ^ 64" "(of_nat (length (xman_sections m)) :: u64) \<le> of_nat MAX_DATA_GROUPS + 1"
    using typed by (auto simp: manifest_typed_def MAX_DATA_GROUPS_def word_le_nat_alt unat_of_nat)
  have streams: "parses (vtimes (length (xman_selected_streams m)) dec_stream) (never_cancelled env)
      (concat (map to_be_bytes (xman_selected_streams m))) (xman_selected_streams m) b' b'"
    by (rule parses_times_free) (simp add: parses_ids [OF lib'])
  have data: "parses (vtimes (length ?cuts) decode_cut) (never_cancelled env) (concat (map cut_bytes ?cuts)) ?cuts b' b'"
    by (rule parses_times_free) (use cuts parses_cut in blast)
  have sections: "parses (vtimes (length (xman_sections m)) decode_section) (never_cancelled env)
      (concat (map section_bytes (xman_sections m))) (xman_sections m) b' b'"
    by (rule parses_times_free) (use typed parses_section in \<open>auto simp: manifest_typed_def\<close>)
  have long: "\<forall>s \<in> set (xman_sections m). unat (69 :: u64) \<le> length (section_bytes s)"
    using section_bytes_long typed by (auto simp: manifest_typed_def)
  have lens: "length (qc_data (xman_cut m)) = length ?cuts" by simp
  have small: "length (concat (map to_be_bytes (xman_selected_streams m)) @ cut_bytes (qc_control (xman_cut m)) @
        len_bytes (length ?cuts) @ concat (map cut_bytes ?cuts) @ len_bytes (length (xman_sections m)) @
        concat (map section_bytes (xman_sections m)) @ totals_bytes (xman_totals m) @ to_be_bytes (xman_exclusions m) @ []) < 2 ^ 64"
      "length (concat (map cut_bytes ?cuts) @ len_bytes (length (xman_sections m)) @
        concat (map section_bytes (xman_sections m)) @ totals_bytes (xman_totals m) @ to_be_bytes (xman_exclusions m) @ []) < 2 ^ 64"
      "length (concat (map section_bytes (xman_sections m)) @ totals_bytes (xman_totals m) @ to_be_bytes (xman_exclusions m) @ []) < 2 ^ 64"
    using len by (simp_all add: manifest_bytes_def)
  have "parses (vbind (decode_quiescent_cut (qc_control (xman_cut m)) ?cuts) f) (never_cancelled env) cs y b' b'"
    if "parses (f (xman_cut m)) (never_cancelled env) cs y b' b'" for f cs and y :: ExportManifestV1
    using parses_bind [of _ _ "[]" "xman_cut m" b' b' f, OF parses_quiescent_cut [OF q] that] by simp
  note cut_rule = this
  have "parses (decode_manifest_fields limits) (never_cancelled env) (manifest_bytes m) m b b'"
    unfolding decode_manifest_fields_def manifest_bytes_def lens
    by (rule parses_bind, rule parses_words, rule parses_bind, rule parses_words, rule parses_bind, rule parses_ids [OF lib'],
        rule parses_bind, rule parses_words, rule parses_list, rule n(1), rule k(1), simp, rule small(1), rule n(2), rule streams,
        rule parses_bind, rule parses_cut [OF control], rule parses_list_free, rule g(1), rule g(2), simp, rule small(2), rule data,
        rule cut_rule, rule parses_list_free, rule sec(1), rule sec(2), rule long, rule small(3), rule sections, rule parses_bind,
        rule parses_totals, rule parses_bind, rule parses_words, rule parses_ret_eq) simp
  then show ?thesis
    unfolding decode_manifest_def using k(2) by (blast intro: decodes_payload)
qed

end
