(* ===== verification/Artifact_Image.thy ===== *)
theory Artifact_Image
  imports Artifact_Parse
begin

text \<open>
  What a successful \<open>write_v1\<close> leaves behind: the exact image of the file, the data groups the source handed
  over, and what the validation of the writer establishes of them, so that the decoders of the verifier
  apply. The image is a prologue, one section per group with its header, the manifest with its length, and
  the trailer.
\<close>

section \<open>The image\<close>

definition section_header :: "(bytes \<Rightarrow> bytes) \<Rightarrow> SectionKindV1 \<Rightarrow> u64 \<Rightarrow> bytes \<Rightarrow> bytes" where
  "section_header sha256 kind item_count payload =
     to_be_bytes (section_kind_number kind) @ to_be_bytes (section_kind_version kind) @ to_be_bytes item_count @
     len_bytes (length payload) @ sha256 payload @ []"

definition section_image :: "(bytes \<Rightarrow> bytes) \<Rightarrow> SectionKindV1 \<Rightarrow> u64 \<Rightarrow> bytes \<Rightarrow> bytes" where
  "section_image sha256 kind item_count payload = section_header sha256 kind item_count payload @ payload"

definition descriptor_of ::
  "(bytes \<Rightarrow> bytes) \<Rightarrow> u64 \<Rightarrow> SectionKindV1 \<Rightarrow> GroupId option \<Rightarrow> nat \<Rightarrow> u64 \<Rightarrow> bytes \<Rightarrow> SectionDescriptorV1" where
  "descriptor_of sha256 ordinal kind grp offset item_count payload =
     \<lparr>xsec_ordinal = ordinal, xsec_kind = kind, xsec_version = section_kind_version kind, xsec_group = grp,
      xsec_file_offset = of_nat offset, xsec_item_count = item_count, xsec_payload_length = of_nat (length payload),
      xsec_payload_sha256 = sha256 payload\<rparr>"

definition group_image :: "(bytes \<Rightarrow> bytes) \<Rightarrow> DataGroupV1 \<Rightarrow> bytes" where
  "group_image sha256 d =
     section_image sha256 SectionDataGroup (of_nat (length (xgrp_partitions d))) (data_group_bytes d)"

definition control_image :: "(bytes \<Rightarrow> bytes) \<Rightarrow> ControlSectionV1 \<Rightarrow> bytes" where
  "control_image sha256 c =
     section_image sha256 SectionControl (of_nat (length (xctl_streams c))) (control_bytes c)"

definition prologue_bytes :: "u64 \<Rightarrow> bytes" where
  "prologue_bytes features = MAGIC_V1 @ to_be_bytes FORMAT_VERSION_V1 @ to_be_bytes features @ []"

definition trailer_bytes :: "u64 \<Rightarrow> u64 \<Rightarrow> bytes \<Rightarrow> bytes" where
  "trailer_bytes manifest_offset artifact_length digest =
     to_be_bytes manifest_offset @ to_be_bytes artifact_length @ digest @ TRAILER_MAGIC_V1 @ []"

text \<open>The data sections from one group on: their descriptors, the validation state and the budget in between.\<close>

fun groups_image ::
  "(bytes \<Rightarrow> bytes) \<Rightarrow> ExportLimits \<Rightarrow> ValidationContext \<Rightarrow> CatalogValidation \<Rightarrow> nat \<Rightarrow> nat \<Rightarrow> (GroupId \<times> GroupCut) list
   \<Rightarrow> DataGroupV1 list \<Rightarrow> SectionDescriptorV1 list \<Rightarrow> DataValidation \<Rightarrow> DecodeBudget \<Rightarrow> DataValidation \<Rightarrow> DecodeBudget \<Rightarrow> bool" where
  "groups_image sha256 limits ctx catalog index offset [] datas ds v b v' b' \<longleftrightarrow> datas = [] \<and> ds = [] \<and> v' = v \<and> b' = b"
| "groups_image sha256 limits ctx catalog index offset ((g, c) # gcs) datas ds v b v' b' \<longleftrightarrow>
     (\<exists>d datas' ds' v1 b1. datas = d # datas' \<and>
        ds = descriptor_of sha256 (of_nat (Suc index)) SectionDataGroup (Some g) offset (of_nat (length (xgrp_partitions d)))
          (data_group_bytes d) # ds' \<and>
        validate_data_group ctx g c d catalog v limits = Inr v1 \<and> reserve_data_group_model d b = Inr b1 \<and>
        length (data_group_bytes d) \<le> unat (xlim_section_bytes limits) \<and> length (xgrp_partitions d) < 2 ^ 64 \<and> Suc index < 2 ^ 64 \<and>
        groups_image sha256 limits ctx catalog (Suc index) (offset + length (group_image sha256 d)) gcs datas' ds' v1 b1 v' b')"

text \<open>The answers of the source, in the order of the groups.\<close>

fun answers :: "('s, 'e) data_group_source \<Rightarrow> (GroupId \<times> GroupCut) list \<Rightarrow> 's \<Rightarrow> DataGroupV1 list \<Rightarrow> 's \<Rightarrow> bool" where
  "answers source [] s datas s' \<longleftrightarrow> datas = [] \<and> s' = s"
| "answers source ((g, c) # gcs) s datas s' \<longleftrightarrow>
     (\<exists>d datas' s1. datas = d # datas' \<and> source g c s = (Inr (Some d), s1) \<and> answers source gcs s1 datas' s')"

definition source_typed :: "('s, 'e) data_group_source \<Rightarrow> bool" where
  "source_typed source \<longleftrightarrow> (\<forall>g c s d s'. source g c s = (Inr (Some d), s') \<longrightarrow> group_typed d)"

section \<open>The writer, read backwards\<close>

lemma wbind_Inr: "wbind m f w = (Inr y, w') \<longleftrightarrow> (\<exists>x w1. m w = (Inr x, w1) \<and> f x w1 = (Inr y, w'))"
  by (auto simp: wbind_def split: prod.splits sum.splits)

lemma wthen_Inr: "wthen m n w = (Inr y, w') \<longleftrightarrow> (\<exists>w1. m w = (Inr (), w1) \<and> n w1 = (Inr y, w'))"
  by (simp add: wthen_def wbind_Inr)

lemma wresult_Inr: "wresult r w = (Inr x, w') \<longleftrightarrow> r = Inr x \<and> w' = w"
  by (auto simp: wresult_def)

lemma wret_Inr: "wret x w = (Inr y, w') \<longleftrightarrow> y = x \<and> w' = w"
  by (auto simp: wret_def)

lemma out_offset_Inr: "out_offset w = (Inr x, w') \<longleftrightarrow> x = wr_offset w \<and> w' = w"
  by (auto simp: out_offset_def)

lemmas writer_Inr = wbind_Inr wthen_Inr wresult_Inr wret_Inr out_offset_Inr

lemma write_maps [simp]:
  "write_map_model r = Inr x \<longleftrightarrow> r = Inr x" "map_decode_budget q = Inr y \<longleftrightarrow> q = Inr y"
  "write_count n name = Inr m \<longleftrightarrow> n < 2 ^ 64 \<and> m = of_nat n"
  by (auto simp: write_map_model_def map_decode_budget_def write_count_def split: sum.splits ModelError.splits VerifyError.splits)

lemma relabel_Inr: "(case r of Inl _ \<Rightarrow> Inl e | Inr i \<Rightarrow> Inr i) = Inr y \<longleftrightarrow> r = Inr y"
  by (cases r) auto

text \<open>A writer whose offset is its length and whose digest has seen everything.\<close>

definition in_step :: "'s writing \<Rightarrow> bool" where
  "in_step w \<longleftrightarrow> unat (wr_offset w) = length (wr_file w) \<and> wr_digest w = wr_file w"

definition extended :: "'s writing \<Rightarrow> bytes \<Rightarrow> 's writing \<Rightarrow> bool" where
  "extended w bs w' \<longleftrightarrow> wr_file w' = wr_file w @ bs \<and> in_step w' \<and> wr_max w' = wr_max w \<and> wr_source w' = wr_source w"

lemma out_write_Inr:
  assumes "out_write bs w = (Inr () :: 'e ExportWriteError + unit, w')" "unat (wr_offset w) = length (wr_file w)"
  shows "wr_file w' = wr_file w @ bs \<and> unat (wr_offset w') = length (wr_file w') \<and> wr_max w' = wr_max w \<and>
    wr_source w' = wr_source w \<and> wr_digest w' = wr_digest w \<and> wr_offset w' \<le> wr_max w \<and> length bs < 2 ^ 64"
proof -
  from assms(1) obtain n where n: "length bs < 2 ^ 64" "checked_add (wr_offset w) (of_nat (length bs)) = Some n" "n \<le> wr_max w"
      "w' = w\<lparr>wr_file := wr_file w @ bs, wr_offset := n\<rparr>"
    by (auto simp: out_write_def split: if_splits option.splits)
  have "unat n = unat (wr_offset w) + length bs" using n(1,2) by (simp add: word_arith unat_of_small)
  with n assms(2) show ?thesis by simp
qed

lemma out_hashed_Inr:
  assumes "out_hashed bs w = (Inr () :: 'e ExportWriteError + unit, w')" "in_step w"
  shows "extended w bs w'"
proof -
  from assms(1) obtain w1 where w1: "out_write bs w = (Inr () :: 'e ExportWriteError + unit, w1)" "w' = w1\<lparr>wr_digest := wr_digest w1 @ bs\<rparr>"
    by (auto simp: out_hashed_def wthen_Inr)
  from out_write_Inr [OF w1(1)] assms(2) have "wr_file w1 = wr_file w @ bs" "unat (wr_offset w1) = length (wr_file w1)"
      "wr_max w1 = wr_max w" "wr_source w1 = wr_source w" "wr_digest w1 = wr_digest w"
    by (simp_all add: in_step_def)
  then show ?thesis using w1(2) assms(2) by (simp add: extended_def in_step_def)
qed

lemma extended_trans: "extended w bs w1 \<Longrightarrow> extended w1 cs w2 \<Longrightarrow> extended w (bs @ cs) w2"
  by (simp add: extended_def)

lemma extended_step: "extended w bs w' \<Longrightarrow> in_step w'"
  by (simp add: extended_def)

lemma of_nat_unat_offset: "of_nat (unat x) = x" for x :: u64
  by simp

lemma out_section_Inr:
  assumes "out_section sha256 ordinal kind grp n payload w = (Inr d :: 'e ExportWriteError + SectionDescriptorV1, w')" "in_step w"
  shows "d = descriptor_of sha256 ordinal kind grp (length (wr_file w)) n payload \<and>
    extended w (section_image sha256 kind n payload) w'"
proof -
  have off: "wr_offset w = of_nat (length (wr_file w))"
    using assms(2) of_nat_unat_offset [of "wr_offset w"] by (simp add: in_step_def)
  from assms(1) obtain w1 w2 w3 w4 w5 where
      h: "out_hashed (to_be_bytes (section_kind_number kind)) w = (Inr () :: 'e ExportWriteError + unit, w1)"
        "out_hashed (to_be_bytes (section_kind_version kind)) w1 = (Inr () :: 'e ExportWriteError + unit, w2)"
        "out_hashed (to_be_bytes n) w2 = (Inr () :: 'e ExportWriteError + unit, w3)"
        "out_hashed (to_be_bytes (of_nat (length payload) :: u64)) w3 = (Inr () :: 'e ExportWriteError + unit, w4)"
        "out_hashed (sha256 payload) w4 = (Inr () :: 'e ExportWriteError + unit, w5)" "out_hashed payload w5 = (Inr () :: 'e ExportWriteError + unit, w')"
      and d: "d = \<lparr>xsec_ordinal = ordinal, xsec_kind = kind, xsec_version = section_kind_version kind, xsec_group = grp,
            xsec_file_offset = wr_offset w, xsec_item_count = n, xsec_payload_length = of_nat (length payload),
            xsec_payload_sha256 = sha256 payload\<rparr>"
    unfolding out_section_def by (auto simp: writer_Inr split: if_splits)
  note e1 = out_hashed_Inr [OF h(1) assms(2)]
  note e2 = out_hashed_Inr [OF h(2) extended_step [OF e1]]
  note e3 = out_hashed_Inr [OF h(3) extended_step [OF e2]]
  note e4 = out_hashed_Inr [OF h(4) extended_step [OF e3]]
  note e5 = out_hashed_Inr [OF h(5) extended_step [OF e4]]
  note e6 = out_hashed_Inr [OF h(6) extended_step [OF e5]]
  from extended_trans [OF e1 extended_trans [OF e2 extended_trans [OF e3 extended_trans [OF e4 extended_trans [OF e5 e6]]]]]
  have "extended w (section_image sha256 kind n payload) w'"
    by (simp add: section_image_def section_header_def len_bytes_def)
  with d off show ?thesis by (simp add: descriptor_of_def)
qed

lemma ask_source_Inr:
  "ask_source source g c w = (Inr d, w') \<longleftrightarrow> (\<exists>s. source g c (wr_source w) = (Inr (Some d), s) \<and> w' = w\<lparr>wr_source := s\<rparr>)"
  by (auto simp: ask_source_def split: prod.splits sum.splits option.splits)

text \<open>Like \<open>extended\<close>, where the source may have moved on.\<close>

definition grown :: "'s writing \<Rightarrow> bytes \<Rightarrow> 's writing \<Rightarrow> bool" where
  "grown w bs w' \<longleftrightarrow> wr_file w' = wr_file w @ bs \<and> in_step w' \<and> wr_max w' = wr_max w"

lemma write_groups_Inr:
  assumes "write_groups sha256 source limits ctx catalog index gcs (v, b) w =
      (Inr (ds, v') :: 'e ExportWriteError + SectionDescriptorV1 list \<times> DataValidation, w')" "in_step w"
  shows "\<exists>datas b'. groups_image sha256 limits ctx catalog index (length (wr_file w)) gcs datas ds v b v' b' \<and>
    answers source gcs (wr_source w) datas (wr_source w') \<and> grown w (concat (map (group_image sha256) datas)) w'"
  using assms
proof (induction gcs arbitrary: index v b w ds)
  case Nil
  then show ?case by (auto simp: wret_Inr grown_def)
next
  case (Cons gc gcs)
  obtain g c where gc: "gc = (g, c)" by (cases gc)
  from Cons.prems(1) obtain d0 v1 b1 w1 ds1 where
      head: "write_group sha256 source limits ctx catalog index (g, c) (v, b) w =
          (Inr (d0, v1, b1) :: 'e ExportWriteError + _, w1)"
      and rest: "write_groups sha256 source limits ctx catalog (Suc index) gcs (v1, b1) w1 = (Inr (ds1, v'), w')" "ds = d0 # ds1"
    unfolding gc by (auto simp: writer_Inr split: prod.splits)
  from head obtain d s payload where
      ask: "source g c (wr_source w) = (Inr (Some d), s)"
      and val: "validate_data_group ctx g c d catalog v limits = Inr v1" "reserve_data_group_model d b = Inr b1"
      and enc: "encode_data_group d (xlim_section_bytes limits) = Some payload" "length (xgrp_partitions d) < 2 ^ 64"
      and idx: "index < 2 ^ 64" "unat (of_nat index :: u64) + 1 < 2 ^ 64"
      and sec: "out_section sha256 (of_nat index + 1) SectionDataGroup (Some g) (of_nat (length (xgrp_partitions d))) payload
          (w\<lparr>wr_source := s\<rparr>) = (Inr d0 :: 'e ExportWriteError + _, w1)"
    unfolding write_group_def
    by (auto simp: writer_Inr ask_source_Inr bind_result_Inr checked_add_def split: if_splits)
  have payload: "payload = data_group_bytes d" "length (data_group_bytes d) \<le> unat (xlim_section_bytes limits)"
    using encode_data_group_bytes [OF enc(1)] by auto
  have step: "in_step (w\<lparr>wr_source := s\<rparr>)" using Cons.prems(2) by (simp add: in_step_def)
  from out_section_Inr [OF sec step] payload(1)
  have d0: "d0 = descriptor_of sha256 (of_nat (Suc index)) SectionDataGroup (Some g) (length (wr_file w))
        (of_nat (length (xgrp_partitions d))) (data_group_bytes d)"
      and e: "extended (w\<lparr>wr_source := s\<rparr>) (group_image sha256 d) w1"
    by (simp_all add: group_image_def add.commute)
  have "Suc index < 2 ^ 64" using idx unat_of_small [OF idx(1)] by simp
  moreover have "length (wr_file w1) = length (wr_file w) + length (group_image sha256 d)" "wr_source w1 = s"
    using e by (simp_all add: extended_def)
  moreover obtain datas b' where "groups_image sha256 limits ctx catalog (Suc index) (length (wr_file w1)) gcs datas ds1 v1 b1 v' b'"
      "answers source gcs (wr_source w1) datas (wr_source w')" "grown w1 (concat (map (group_image sha256) datas)) w'"
    using Cons.IH [OF rest(1) extended_step [OF e]] by blast
  moreover have "grown w (concat (map (group_image sha256) (d # datas))) w'"
    using \<open>grown w1 _ w'\<close> e by (simp add: grown_def extended_def)
  ultimately show ?case
    unfolding gc using val enc(2) payload(2) d0 rest(2) ask
    by (intro exI [of _ "d # datas"] exI [of _ b']) simp
qed

section \<open>The whole file\<close>

lemma out_plain_Inr:
  assumes "out_plain bs w = (Inr () :: 'e ExportWriteError + unit, w')" "unat (wr_offset w) = length (wr_file w)"
  shows "wr_file w' = wr_file w @ bs \<and> unat (wr_offset w') = length (wr_file w') \<and> wr_max w' = wr_max w \<and> wr_source w' = wr_source w \<and>
    wr_offset w' \<le> wr_max w"
  using out_write_Inr [OF assms(1) [unfolded out_plain_def] assms(2)] by simp

lemma length_magic [simp]: "length MAGIC_V1 = 8" "length TRAILER_MAGIC_V1 = 8"
  by (simp_all add: MAGIC_V1_def TRAILER_MAGIC_V1_def)

lemma write_trailer_Inr:
  assumes "write_trailer sha256 limits manifest_offset w = (Inr identity :: 'e ExportWriteError + ArtifactIdentity, w')" "in_step w"
    and "length (sha256 (wr_file w)) = 32"
  shows "wr_file w' = wr_file w @ trailer_bytes manifest_offset (of_nat (length (wr_file w) + 56)) (sha256 (wr_file w)) \<and>
    identity = \<lparr>ai_length = of_nat (length (wr_file w) + 56), ai_sha256 = sha256 (wr_file w)\<rparr> \<and>
    length (wr_file w') \<le> unat (xlim_artifact_bytes limits) \<and> length (wr_file w') = length (wr_file w) + 56 \<and>
    wr_source w' = wr_source w"
proof -
  have d: "wr_digest w = wr_file w" and o: "unat (wr_offset w) = length (wr_file w)" using assms(2) by (simp_all add: in_step_def)
  from assms(1) obtain n w1 w2 w3 where
      n: "checked_add (wr_offset w) TRAILER_BYTES_V1 = Some n" "n \<le> xlim_artifact_bytes limits"
      and p: "out_plain (to_be_bytes manifest_offset) w = (Inr () :: 'e ExportWriteError + unit, w1)"
        "out_plain (to_be_bytes n) w1 = (Inr () :: 'e ExportWriteError + unit, w2)"
        "out_plain (sha256 (wr_file w)) w2 = (Inr () :: 'e ExportWriteError + unit, w3)"
        "out_plain TRAILER_MAGIC_V1 w3 = (Inr () :: 'e ExportWriteError + unit, w')"
      and i: "ArtifactIdentity_new n (sha256 (wr_file w)) = Inr identity"
    unfolding write_trailer_def by (auto simp: writer_Inr d relabel_Inr)
  have un: "unat n = length (wr_file w) + 56" using n(1) o by (simp add: word_arith TRAILER_BYTES_V1_def)
  then have n': "n = of_nat (length (wr_file w) + 56)" using of_nat_unat_offset [of n] by simp
  note q1 = out_plain_Inr [OF p(1) o]
  note q2 = out_plain_Inr [OF p(2) conjunct1 [OF conjunct2 [OF q1]]]
  note q3 = out_plain_Inr [OF p(3) conjunct1 [OF conjunct2 [OF q2]]]
  note q4 = out_plain_Inr [OF p(4) conjunct1 [OF conjunct2 [OF q3]]]
  have whole: "wr_file w' = wr_file w @ trailer_bytes manifest_offset n (sha256 (wr_file w))"
    using q1 q2 q3 q4 by (simp add: trailer_bytes_def)
  moreover have "length (wr_file w') = length (wr_file w) + 56" using whole assms(3) by (simp add: trailer_bytes_def)
  moreover have "identity = \<lparr>ai_length = n, ai_sha256 = sha256 (wr_file w)\<rparr>"
    using i by (auto simp: ArtifactIdentity_new_def split: if_splits)
  moreover have "wr_source w' = wr_source w" using q1 q2 q3 q4 by simp
  ultimately show ?thesis using n(2) un unfolding n' by (simp add: word_le_nat_alt)
qed

text \<open>Everything \<open>write_v1\<close> did, when it returned an identity.\<close>

definition artifact_written ::
  "(bytes \<Rightarrow> bytes) \<Rightarrow> ('s, 'e) data_group_source \<Rightarrow> ExportLimits \<Rightarrow> ExportDocumentV1 \<Rightarrow> 's \<Rightarrow> 's \<Rightarrow> bytes \<Rightarrow> ArtifactIdentity
   \<Rightarrow> DataGroupV1 list \<Rightarrow> ExportManifestV1 \<Rightarrow> bool" where
  "artifact_written sha256 source limits doc s s' file identity datas m \<longleftrightarrow>
     (\<exists>catalog b1 b2 b3 ds v final.
       let ctx = ValidationContext_from_document doc; control = xdoc_control doc;
           head = prologue_bytes (xdoc_required_features doc) @ control_image sha256 control;
           body = head @ concat (map (group_image sha256) datas);
           content = body @ len_bytes (length (manifest_bytes m)) @ manifest_bytes m
       in validate_control ctx limits = Inr catalog \<and>
          reserve_manifest_model (xdoc_selected_streams doc) (DecodeBudget_new limits) = Inr b1 \<and>
          reserve_control_model control b1 = Inr b2 \<and> length (control_bytes control) \<le> unat (xlim_section_bytes limits) \<and>
          groups_image sha256 limits ctx catalog 0 (length head) (qc_data (xdoc_cut doc)) datas ds DataValidation_default b2 v b3 \<and>
          answers source (qc_data (xdoc_cut doc)) s datas s' \<and>
          finish_validation ctx catalog v limits = Inr final \<and>
          m = document_manifest doc (descriptor_of sha256 0 SectionControl None 20 (of_nat (length (xctl_streams control)))
            (control_bytes control) # ds) (dav_totals final) \<and>
          length (manifest_bytes m) \<le> unat (xlim_manifest_bytes limits) \<and>
          file = content @ trailer_bytes (of_nat (length body)) (of_nat (length content + 56)) (sha256 content) \<and>
          length file \<le> unat (xlim_artifact_bytes limits) \<and> length file = length content + 56 \<and>
          identity = \<lparr>ai_length = of_nat (length content + 56), ai_sha256 = sha256 content\<rparr>)"

lemma length_prologue [simp]: "length (prologue_bytes f) = 20"
  by (simp add: prologue_bytes_def)

lemma write_sections_Inr:
  assumes "write_sections sha256 source limits doc catalog w = (Inr (sections, v) :: 'e ExportWriteError + _, w')"
    and "in_step w" "wr_file w = []"
  shows "\<exists>b1 b2 b3 ds datas. let control = xdoc_control doc; head = prologue_bytes (xdoc_required_features doc) @ control_image sha256 control
    in reserve_manifest_model (xdoc_selected_streams doc) (DecodeBudget_new limits) = Inr b1 \<and>
       reserve_control_model control b1 = Inr b2 \<and> length (control_bytes control) \<le> unat (xlim_section_bytes limits) \<and>
       groups_image sha256 limits (ValidationContext_from_document doc) catalog 0 (length head) (qc_data (xdoc_cut doc)) datas ds
         DataValidation_default b2 v b3 \<and>
       answers source (qc_data (xdoc_cut doc)) (wr_source w) datas (wr_source w') \<and>
       sections = descriptor_of sha256 0 SectionControl None 20 (of_nat (length (xctl_streams control))) (control_bytes control) # ds \<and>
       in_step w' \<and> wr_file w' = head @ concat (map (group_image sha256) datas)"
proof -
  let ?c = "xdoc_control doc"
  from assms(1) obtain b1 b2 w1 w2 w3 payload d w4 ds where
      b: "reserve_manifest_model (xdoc_selected_streams doc) (DecodeBudget_new limits) = Inr b1" "reserve_control_model ?c b1 = Inr b2"
      and h: "out_hashed MAGIC_V1 w = (Inr () :: 'e ExportWriteError + unit, w1)"
        "out_hashed (to_be_bytes FORMAT_VERSION_V1) w1 = (Inr () :: 'e ExportWriteError + unit, w2)"
        "out_hashed (to_be_bytes (xdoc_required_features doc)) w2 = (Inr () :: 'e ExportWriteError + unit, w3)"
      and p: "encode_control doc (xlim_section_bytes limits) = Some payload"
      and sec: "out_section sha256 0 SectionControl None (of_nat (length (xctl_streams ?c))) payload w3 = (Inr d :: 'e ExportWriteError + _, w4)"
      and grp: "write_groups sha256 source limits (ValidationContext_from_document doc) catalog 0 (qc_data (xdoc_cut doc))
          (DataValidation_default, b2) w4 = (Inr (ds, v) :: 'e ExportWriteError + _, w')" "sections = d # ds"
    unfolding write_sections_def by (auto simp: writer_Inr split: prod.splits)
  note e1 = out_hashed_Inr [OF h(1) assms(2)]
  note e2 = out_hashed_Inr [OF h(2) extended_step [OF e1]]
  note e3 = out_hashed_Inr [OF h(3) extended_step [OF e2]]
  from extended_trans [OF e1 extended_trans [OF e2 e3]] assms(3)
  have w3: "wr_file w3 = prologue_bytes (xdoc_required_features doc)" "wr_source w3 = wr_source w"
    by (simp_all add: extended_def prologue_bytes_def)
  have payload: "payload = control_bytes ?c" "length (control_bytes ?c) \<le> unat (xlim_section_bytes limits)"
    using encode_control_bytes [OF p] by auto
  from out_section_Inr [OF sec extended_step [OF e3]]
  have d: "d = descriptor_of sha256 0 SectionControl None 20 (of_nat (length (xctl_streams ?c))) (control_bytes ?c)"
      and e4: "extended w3 (control_image sha256 ?c) w4"
    by (simp_all add: w3 payload control_image_def)
  from write_groups_Inr [OF grp(1) extended_step [OF e4]] obtain datas b3 where
      g: "groups_image sha256 limits (ValidationContext_from_document doc) catalog 0 (length (wr_file w4)) (qc_data (xdoc_cut doc)) datas ds
        DataValidation_default b2 v b3" "answers source (qc_data (xdoc_cut doc)) (wr_source w4) datas (wr_source w')"
        "grown w4 (concat (map (group_image sha256) datas)) w'"
    by blast
  have "wr_file w4 = prologue_bytes (xdoc_required_features doc) @ control_image sha256 ?c" "wr_source w4 = wr_source w"
    using e4 w3 by (simp_all add: extended_def)
  with b payload(2) g grp(2) d show ?thesis unfolding Let_def grown_def by (metis append_assoc)
qed

lemma write_v1_Inr:
  fixes source :: "('s, 'e) data_group_source"
  assumes "write_v1 sha256 source limits doc s file0 = (Inr identity, s', file)" "\<forall>m. length (sha256 m) = 32"
  shows "\<exists>datas m. artifact_written sha256 source limits doc s s' file identity datas m"
proof -
  let ?ctx = "ValidationContext_from_document doc"
  let ?w = "\<lparr>wr_file = [], wr_digest = [], wr_offset = 0, wr_max = xlim_artifact_bytes limits, wr_source = s\<rparr>"
  from assms(1) obtain catalog w' where
      c: "validate_control ?ctx limits = Inr catalog"
      and run: "write_artifact sha256 source limits doc catalog ?w = (Inr identity, w')" and out: "s' = wr_source w'" "file = wr_file w'"
    unfolding write_v1_def
    by (auto simp: write_map_model_def split: sum.splits if_splits prod.splits ModelError.splits)
  from run obtain sections v w1 final mb w2 w3 where
      sec: "write_sections sha256 source limits doc catalog ?w = (Inr (sections, v) :: 'e ExportWriteError + _, w1)"
      and fin: "finish_validation ?ctx catalog v limits = Inr final"
      and mb: "encode_manifest (document_manifest doc sections (dav_totals final)) (xlim_manifest_bytes limits) = Some mb"
      and h: "out_hashed (to_be_bytes (of_nat (length mb) :: u64)) w1 = (Inr () :: 'e ExportWriteError + unit, w2)"
        "out_hashed mb w2 = (Inr () :: 'e ExportWriteError + unit, w3)"
      and tr: "write_trailer sha256 limits (wr_offset w1) w3 = (Inr identity :: 'e ExportWriteError + _, w')"
    unfolding write_artifact_def by (auto simp: writer_Inr split: prod.splits)
  let ?m = "document_manifest doc sections (dav_totals final)"
  have start: "in_step ?w" by (simp add: in_step_def)
  from write_sections_Inr [OF sec start] obtain b1 b2 b3 ds datas where
      b: "reserve_manifest_model (xdoc_selected_streams doc) (DecodeBudget_new limits) = Inr b1" "reserve_control_model (xdoc_control doc) b1 = Inr b2"
        "length (control_bytes (xdoc_control doc)) \<le> unat (xlim_section_bytes limits)"
      and g: "groups_image sha256 limits ?ctx catalog 0
          (length (prologue_bytes (xdoc_required_features doc) @ control_image sha256 (xdoc_control doc))) (qc_data (xdoc_cut doc)) datas ds
          DataValidation_default b2 v b3" "answers source (qc_data (xdoc_cut doc)) s datas (wr_source w1)"
      and ss: "sections = descriptor_of sha256 0 SectionControl None 20 (of_nat (length (xctl_streams (xdoc_control doc))))
          (control_bytes (xdoc_control doc)) # ds"
      and w1: "in_step w1" "wr_file w1 = (prologue_bytes (xdoc_required_features doc) @ control_image sha256 (xdoc_control doc)) @
          concat (map (group_image sha256) datas)"
    unfolding Let_def by auto
  have mb': "mb = manifest_bytes ?m" "length (manifest_bytes ?m) \<le> unat (xlim_manifest_bytes limits)"
    using encode_manifest_bytes [OF mb] by auto
  note e1 = out_hashed_Inr [OF h(1) w1(1)]
  note e2 = out_hashed_Inr [OF h(2) extended_step [OF e1]]
  have w3: "wr_file w3 = wr_file w1 @ len_bytes (length (manifest_bytes ?m)) @ manifest_bytes ?m" "wr_source w3 = wr_source w1"
    using extended_trans [OF e1 e2] by (simp_all add: extended_def mb' len_bytes_def)
  have off: "wr_offset w1 = of_nat (length (wr_file w1))"
    using w1(1) of_nat_unat_offset [of "wr_offset w1"] by (simp add: in_step_def)
  note t = write_trailer_Inr [OF tr extended_step [OF e2] spec [OF assms(2)]]
  let ?content = "((prologue_bytes (xdoc_required_features doc) @ control_image sha256 (xdoc_control doc)) @
      concat (map (group_image sha256) datas)) @ len_bytes (length (manifest_bytes ?m)) @ manifest_bytes ?m"
  have content: "wr_file w3 = ?content" using w3(1) w1(2) by simp
  have src: "answers source (qc_data (xdoc_cut doc)) s datas s'" using g(2) t w3(2) out(1) by simp
  have tf: "file = ?content @ trailer_bytes (of_nat (length (wr_file w1))) (of_nat (length ?content + 56)) (sha256 ?content)"
      "identity = \<lparr>ai_length = of_nat (length ?content + 56), ai_sha256 = sha256 ?content\<rparr>"
      "length file \<le> unat (xlim_artifact_bytes limits)" "length file = length ?content + 56"
    using t unfolding content off out(2) by blast+
  have "artifact_written sha256 source limits doc s s' file identity datas ?m"
    unfolding artifact_written_def Let_def
    by (intro exI conjI, rule c, rule b(1), rule b(2), rule b(3), rule g(1), rule src, rule fin, simp add: ss, rule mb'(2),
        rule tf(1) [unfolded w1(2)], rule tf(3), rule tf(4), rule tf(2))
  then show ?thesis by blast
qed

section \<open>What the validation of the writer establishes\<close>

lemma try_each_item: "try_each f xs s = Inr s' \<Longrightarrow> x \<in> set xs \<Longrightarrow> \<exists>a b. f x a = Inr b"
  by (induction xs arbitrary: s) (auto simp: bind_result_Inr)

lemma validated_vector:
  assumes "validate_stream_bookmark ctx stream placements bm a = Inr a'" "placements \<noteq> []"
  shows "vector_typed (sb_vector bm)"
proof -
  let ?v = "sb_vector bm"
  from assms(1) have f: "sv_cluster ?v = vc_source_cluster ctx" "sv_stream ?v = stream"
      "\<not> out_of_order (map (pk_partition \<circ> cc_partition) (sv_positions ?v))" "length (sv_positions ?v) = length placements"
      "\<not> list_ex (\<lambda>c. cc_cluster c \<noteq> vc_source_cluster ctx \<or> pk_stream (cc_partition c) \<noteq> stream) (sv_positions ?v)"
    unfolding validate_stream_bookmark_def Let_def by (simp_all add: bind_result_Inr)
  have "sv_positions ?v \<noteq> []" using f(4) assms(2) by auto
  with f show ?thesis by (auto simp: vector_typed_def list_ex_iff)
qed

lemma validated_stream:
  assumes "validate_stream ctx s a = Inr a'" "stream_typed s" "\<forall>g \<in> set (xctl_configured_data_groups (vc_control ctx)). g \<noteq> 0"
    and "length (xctl_configured_data_groups (vc_control ctx)) \<le> MAX_DATA_GROUPS"
  shows "stream_sound s"
proof -
  let ?d = "xstr_descriptor s" and ?conf = "set (xctl_configured_data_groups (vc_control ctx))"
  from assms(1) obtain ps ids where
      f: "sd_lifecycle ?d = Active" "sd_placements ?d \<noteq> []"
        "try_each (validate_placement ?conf (sd_stream ?d)) (sd_placements ?d) (csc_partitions a) = Inr ps"
        "\<not> out_of_order (sd_ready_groups ?d)" "\<not> list_ex (\<lambda>g. g \<notin> ?conf) (sd_ready_groups ?d)"
        "validate_stream_bookmarks ctx (sd_stream ?d) (sd_placements ?d) (xstr_bookmark_publication_ceiling s) (xstr_bookmarks s)
          (csc_bookmark_ids a) = Inr ids"
    unfolding validate_stream_def Let_def require_strict_def by (auto simp: bind_result_Inr)
  have "pp_group p \<in> ?conf" if "p \<in> set (sd_placements ?d)" for p
    using try_each_item [OF f(3) that] by (auto simp: validate_placement_def bind_result_Inr)
  then have places: "\<forall>p \<in> set (sd_placements ?d). pp_group p \<noteq> 0" using assms(3) by blast
  have ready: "set (sd_ready_groups ?d) \<subseteq> ?conf" using f(5) by (auto simp: list_ex_iff)
  have "distinct (sd_ready_groups ?d)" using f(4) by (simp add: ordered_iff strict_sorted_iff)
  then have "length (sd_ready_groups ?d) = card (set (sd_ready_groups ?d))" by (simp add: distinct_card)
  also have "\<dots> \<le> card ?conf" by (rule card_mono [OF _ ready]) simp
  also have "\<dots> \<le> MAX_DATA_GROUPS" using assms(4) card_length le_trans by blast
  finally have count: "length (sd_ready_groups ?d) \<le> MAX_DATA_GROUPS" .
  from f(6) obtain st where st: "try_each (validate_stream_bookmark ctx (sd_stream ?d) (sd_placements ?d)) (xstr_bookmarks s)
      \<lparr>bsc_identities = csc_bookmark_ids a, bsc_expected_publication = 1, bsc_active_names = {}\<rparr> = Inr st"
    by (auto simp: validate_stream_bookmarks_def bind_result_Inr)
  have "vector_typed (sb_vector b)" if "b \<in> set (xstr_bookmarks s)" for b
    using try_each_item [OF st that] validated_vector [OF _ f(2)] by blast
  with f(1) places ready count assms(2,3) show ?thesis by (auto simp: stream_sound_def stream_typed_def)
qed

lemma validated_control:
  assumes "validate_control ctx limits = Inr catalog" "quiescent_typed (vc_cut ctx)"
    and "\<forall>s \<in> set (xctl_streams (vc_control ctx)). stream_typed s"
  shows "control_sound (vc_control ctx) \<and> length (qc_data (vc_cut ctx)) \<le> MAX_DATA_GROUPS \<and> vc_required_features ctx = 0 \<and>
    vc_exclusions ctx = EXCLUSIONS_V1 \<and> \<not> out_of_order (vc_selected_streams ctx)"
proof -
  let ?c = "vc_control ctx" and ?groups = "map fst (qc_data (vc_cut ctx))"
  from assms(1) obtain st where
      f: "vc_required_features ctx = REQUIRED_FEATURES_V1" "vc_exclusions ctx = EXCLUSIONS_V1" "xctl_cut ?c = qc_control (vc_cut ctx)"
        "\<not> out_of_order (vc_selected_streams ctx)" "xctl_configured_data_groups ?c = ?groups" "length ?groups \<le> MAX_DATA_GROUPS"
        "try_each (validate_stream ctx) (xctl_streams ?c)
          \<lparr>csc_partitions = [], csc_bookmark_count = 0, csc_stream_names = {}, csc_bookmark_ids = {}\<rparr> = Inr st"
    unfolding validate_control_def Let_def require_strict_def by (auto simp: bind_result_Inr not_less)
  have nz: "\<forall>g \<in> set (xctl_configured_data_groups ?c). g \<noteq> 0"
    using assms(2) unfolding f(5) by (auto simp: quiescent_typed_def cut_typed_def)
  have "stream_sound s" if "s \<in> set (xctl_streams ?c)" for s
    using try_each_item [OF f(7) that] validated_stream [OF _ _ nz] assms(3) that f(5,6) by auto
  moreover have "cut_typed (xctl_cut ?c)" unfolding f(3) using assms(2) by (simp add: quiescent_typed_def)
  ultimately show ?thesis using nz f by (auto simp: control_sound_def REQUIRED_FEATURES_V1_def)
qed

lemma validated_group:
  "validate_data_group ctx g c d catalog v limits = Inr v' \<Longrightarrow> xgrp_group d = g \<and> xgrp_cut d = c"
  unfolding validate_data_group_def by (simp add: bind_result_Inr)

end
