(* ===== verification/Artifact_Read.thy ===== *)
theory Artifact_Read
  imports Artifact_Image
begin

text \<open>
  The verifier on the image of a written artifact. \<open>reads p env fl lim pos x pos' b b'\<close> says that the step \<open>p\<close>,
  started at position \<open>pos\<close> of the file \<open>fl\<close>, answers \<open>x\<close>, stops at \<open>pos'\<close>, takes the budget from \<open>b\<close> to
  \<open>b'\<close> and, behind the hashing reader (\<open>lim\<close> its end), adds the bytes in between to the digest. The rules follow
  the structure of the steps; at the end of the chain stands \<open>verify_image\<close>.
\<close>

section \<open>The calculus of reads\<close>

definition stands :: "verify_state \<Rightarrow> bytes \<Rightarrow> nat option \<Rightarrow> nat \<Rightarrow> bytes \<Rightarrow> DecodeBudget \<Rightarrow> bool" where
  "stands s fl lim pos h b \<longleftrightarrow>
     vs_reader s = \<lparr>rd_file = fl, rd_position = pos, rd_limit = lim, rd_hashed = h\<rparr> \<and> vs_budget s = b"

definition stretch :: "bytes \<Rightarrow> nat option \<Rightarrow> nat \<Rightarrow> nat \<Rightarrow> bytes" where
  "stretch fl lim pos pos' = (case lim of None \<Rightarrow> [] | Some _ \<Rightarrow> take (pos' - pos) (drop pos fl))"

definition reads ::
  "('e, 'a) verifying \<Rightarrow> verify_env \<Rightarrow> bytes \<Rightarrow> nat option \<Rightarrow> nat \<Rightarrow> 'a \<Rightarrow> nat \<Rightarrow> DecodeBudget \<Rightarrow> DecodeBudget \<Rightarrow> bool" where
  "reads p env fl lim pos x pos' b b' \<longleftrightarrow> (lim \<noteq> None \<longrightarrow> pos \<le> pos') \<and>
     (\<forall>s h. stands s fl lim pos h b \<longrightarrow> (\<exists>s'. p env s = Inr (x, s') \<and> stands s' fl lim pos' (h @ stretch fl lim pos pos') b'))"

definition room :: "bytes \<Rightarrow> nat option \<Rightarrow> nat \<Rightarrow> bool" where
  "room fl lim n \<longleftrightarrow> n \<le> length fl \<and> (case lim of None \<Rightarrow> True | Some e \<Rightarrow> n \<le> e)"

lemma room_mono: "room fl lim n \<Longrightarrow> m \<le> n \<Longrightarrow> room fl lim m"
  by (auto simp: room_def split: option.splits)

lemma stretch_same [simp]: "stretch fl lim pos pos = []"
  by (simp add: stretch_def split: option.split)

lemma stretch_join:
  "(lim \<noteq> None \<longrightarrow> p \<le> q \<and> q \<le> r) \<Longrightarrow> stretch fl lim p q @ stretch fl lim q r = stretch fl lim p r"
proof (cases lim)
  case (Some e)
  assume "lim \<noteq> None \<longrightarrow> p \<le> q \<and> q \<le> r"
  then have "p \<le> q" "q \<le> r" using Some by auto
  then have "take (r - p) (drop p fl) = take (q - p) (drop p fl) @ take (r - q) (drop (q - p) (drop p fl))"
    by (simp only: take_add [symmetric]) simp
  then show ?thesis using Some \<open>p \<le> q\<close> by (simp add: stretch_def)
qed (simp add: stretch_def)

lemma reads_bind:
  assumes "reads p env fl lim pos x pos1 b b1" "reads (f x) env fl lim pos1 y pos2 b1 b2"
  shows "reads (vbind p f) env fl lim pos y pos2 b b2"
  unfolding reads_def
proof (intro conjI allI impI)
  show "lim \<noteq> None \<Longrightarrow> pos \<le> pos2" using assms by (auto simp: reads_def)
  fix s h assume "stands s fl lim pos h b"
  then obtain s1 where s1: "p env s = Inr (x, s1)" "stands s1 fl lim pos1 (h @ stretch fl lim pos pos1) b1"
    using assms(1) unfolding reads_def by blast
  then obtain s2 where "f x env s1 = Inr (y, s2)"
      "stands s2 fl lim pos2 ((h @ stretch fl lim pos pos1) @ stretch fl lim pos1 pos2) b2"
    using assms(2) unfolding reads_def by blast
  with s1(1) stretch_join [of lim pos pos1 pos2 fl] assms
  show "\<exists>s'. vbind p f env s = Inr (y, s') \<and> stands s' fl lim pos2 (h @ stretch fl lim pos pos2) b2"
    by (auto simp: vbind_def reads_def)
qed

lemma reads_then:
  "reads p env fl lim pos () pos1 b b1 \<Longrightarrow> reads q env fl lim pos1 y pos2 b1 b2 \<Longrightarrow> reads (vthen p q) env fl lim pos y pos2 b b2"
  unfolding vthen_def by (rule reads_bind)

lemma reads_ret: "x = y \<Longrightarrow> reads (vret x) env fl lim pos y pos b b"
  by (simp add: reads_def vret_def)

lemma reads_guard: "\<not> bad \<Longrightarrow> reads (vguard bad e) env fl lim pos () pos b b"
  by (simp add: vguard_def reads_ret)

lemma reads_result: "r = Inr x \<Longrightarrow> reads (vresult r) env fl lim pos x pos b b"
  by (simp add: reads_def vresult_def)

lemma reads_check: "reads check_cancelled (never_cancelled env) fl lim pos () pos b b"
  by (simp add: reads_def check_cancelled_def stands_def)

lemma reads_decodes: "decodes p env x b b' \<Longrightarrow> reads p env fl lim pos x pos b b'"
  unfolding reads_def
proof (intro conjI allI impI)
  fix s h assume d: "decodes p env x b b'" and s: "stands s fl lim pos h b"
  obtain n' where "p env \<lparr>vs_rest = vs_rest s, vs_budget = b, vs_polls = vs_polls s, vs_reader = vs_reader s\<rparr> =
      Inr (x, \<lparr>vs_rest = [], vs_budget = b', vs_polls = n', vs_reader = vs_reader s\<rparr>)"
    using d unfolding decodes_def by blast
  moreover have "\<lparr>vs_rest = vs_rest s, vs_budget = b, vs_polls = vs_polls s, vs_reader = vs_reader s\<rparr> = s"
    using s by (simp add: stands_def)
  ultimately show "\<exists>s'. p env s = Inr (x, s') \<and> stands s' fl lim pos (h @ stretch fl lim pos pos) b'"
    using s by (simp add: stands_def)
qed simp

lemma reads_verify_step: "reads p env fl lim pos x pos' b b' \<Longrightarrow> reads (verify_step p) env fl lim pos x pos' b b'"
  by (fastforce simp: reads_def verify_step_def)

lemma reads_visit_step: "r = Inr v \<Longrightarrow> reads (visit_step r) env fl lim pos v pos b b"
  by (simp add: reads_def visit_step_def)

lemma reads_seek: "lim = None \<or> unat t = pos \<Longrightarrow> reads (seek_start t) env fl lim pos () (unat t) b b"
  by (auto simp: reads_def seek_start_def stands_def stretch_def split: option.splits)

lemma reads_exact: "room fl lim (pos + n) \<Longrightarrow> reads (read_exact n) env fl lim pos (take n (drop pos fl)) (pos + n) b b"
  by (auto simp: reads_def read_exact_def stands_def stretch_def room_def reader_end_def Let_def split: option.splits)

lemma reads_cancellable:
  "room fl lim (pos + n) \<Longrightarrow>
    reads (read_exact_cancellable n) (never_cancelled env) fl lim pos (take n (drop pos fl)) (pos + n) b b"
proof (induction n arbitrary: pos rule: read_exact_cancellable.induct)
  case (1 n)
  show ?case
  proof (cases "n = 0")
    case True
    then show ?thesis
      by (subst read_exact_cancellable.simps) (simp add: reads_then [OF reads_check reads_ret])
  next
    case False
    let ?k = "min n CANCELLABLE_IO_CHUNK_BYTES"
    have n: "n - CANCELLABLE_IO_CHUNK_BYTES = n - ?k" "?k \<le> n" by auto
    have "room fl lim (pos + ?k)" by (rule room_mono [OF 1(2)]) simp
    note first = reads_exact [OF this]
    have "room fl lim (pos + ?k + (n - CANCELLABLE_IO_CHUNK_BYTES))" using 1(2) n by simp
    note rest = 1(1) [OF False this]
    have pos: "pos + ?k + (n - CANCELLABLE_IO_CHUNK_BYTES) = pos + n" using n by simp
    have "take n (drop pos fl) = take ?k (drop pos fl) @ take (n - ?k) (drop ?k (drop pos fl))"
      using take_add [of ?k "n - ?k" "drop pos fl"] n(2) by simp
    then have split: "take ?k (drop pos fl) @ take (n - CANCELLABLE_IO_CHUNK_BYTES) (drop (pos + ?k) fl) = take n (drop pos fl)"
      unfolding n(1) by (simp add: add.commute)
    show ?thesis
      using False
      by (subst read_exact_cancellable.simps)
        (auto intro!: reads_then [OF reads_check] reads_bind [OF first] reads_bind [OF rest [unfolded pos]] reads_ret simp: split)
  qed
qed

lemma reads_compare:
  assumes "take (length bs) (drop pos fl) = bs" "room fl lim (pos + length bs)"
  shows "reads (compare_bytes bs) (never_cancelled env) fl lim pos () (pos + length bs) b b"
  using assms
proof (induction bs arbitrary: pos rule: compare_bytes.induct)
  case (1 bs)
  show ?case
  proof (cases "bs = []")
    case True
    then show ?thesis by (subst compare_bytes.simps) (simp add: reads_ret)
  next
    case False
    let ?k = "min (length bs) CANCELLABLE_IO_CHUNK_BYTES"
    let ?rest = "drop CANCELLABLE_IO_CHUNK_BYTES bs"
    have "room fl lim (pos + ?k)" by (rule room_mono [OF 1(3)]) simp
    note first = reads_cancellable [OF this]
    have chunk: "take ?k (drop pos fl) = take CANCELLABLE_IO_CHUNK_BYTES bs"
      using arg_cong [OF 1(2), of "take CANCELLABLE_IO_CHUNK_BYTES"] by (simp add: min.commute)
    have len: "length ?rest = length bs - ?k" by simp
    have pos: "pos + ?k + length ?rest = pos + length bs" by simp
    have "drop ?k bs = ?rest" by (simp add: min_def)
    then have "take (length ?rest) (drop (pos + ?k) fl) = ?rest"
      using arg_cong [OF 1(2), of "drop ?k"] unfolding len by (simp add: drop_take add.commute)
    from 1(1) [OF False this] 1(3)
    have rest: "reads (compare_bytes ?rest) (never_cancelled env) fl lim (pos + ?k) () (pos + length bs) b b"
      unfolding pos by blast
    show ?thesis
      using False rest
      by (subst compare_bytes.simps)
        (auto intro!: reads_then [OF reads_check] reads_bind [OF first] reads_then [OF reads_guard] simp: chunk)
  qed
qed

lemma reads_digest: "ve_sha256 env payload = d \<Longrightarrow> reads (check_digest payload d scope) env fl lim pos () pos b b"
  by (simp add: reads_def check_digest_def)

section \<open>Sections\<close>

lemma length_section_header: "length (sha256 payload) = 32 \<Longrightarrow> length (section_header sha256 kind n payload) = 52"
  by (simp add: section_header_def)

lemma parses_header:
  assumes "length (sha256 payload) = 32"
  shows "parses decode_header_fields env (section_header sha256 kind n payload)
    (section_kind_number kind, section_kind_version kind, n, of_nat (length payload), sha256 payload) b b"
  unfolding decode_header_fields_def section_header_def len_bytes_def
  by (rule parses_bind, rule parses_words, rule parses_bind, rule parses_words, rule parses_bind, rule parses_words,
      rule parses_bind, rule parses_words, rule parses_bind, rule parses_take [OF assms], rule parses_ret)

lemma reads_section:
  assumes sha: "\<forall>m. length (ve_sha256 env m) = 32"
    and fl: "fl = pre @ section_image (ve_sha256 env) kind n payload @ post" "length fl < 2 ^ 64"
    and limit: "length payload \<le> unat (xlim_section_bytes limits)" "length pre + 52 + length payload \<le> unat moff"
    and lim: "room fl lim (unat moff)" "lim = None \<or> pos = length pre"
    and d: "d = descriptor_of (ve_sha256 env) ordinal kind grp (length pre) n payload"
  shows "reads (read_section d \<lparr>exs_ordinal = ordinal, exs_kind = kind, exs_group = grp\<rparr> (of_nat (length pre)) moff limits)
    (never_cancelled env) fl lim pos (payload, of_nat (length pre + 52 + length payload)) (length pre + 52 + length payload) b b"
proof -
  let ?sha = "ve_sha256 env" and ?env = "never_cancelled env"
  let ?head = "section_header ?sha kind n payload"
  have head: "length ?head = 52" using sha by (simp add: length_section_header)
  have total: "length fl = length pre + 52 + length payload + length post"
    unfolding fl(1) by (simp add: section_image_def head)
  then have small: "length pre < 2 ^ 64" "length payload < 2 ^ 64" "length pre + 52 + length payload < 2 ^ 64"
    using fl(2) by linarith+
  have u: "unat (of_nat (length pre) :: u64) = length pre" "unat (of_nat (length payload) :: u64) = length payload"
    using small unat_of_small by blast+
  have h1: "take (unat SECTION_HEADER_BYTES) (drop (length pre) fl) = ?head"
    unfolding fl(1) by (simp add: section_image_def SECTION_HEADER_BYTES_def head)
  have h2: "take (length payload) (drop (length pre + 52) fl) = payload"
    unfolding fl(1) by (simp add: section_image_def head)
  have r: "room fl lim (length pre + unat SECTION_HEADER_BYTES)" "room fl lim (length pre + 52 + length payload)"
    using limit(2) by (auto intro: room_mono [OF lim(1)] simp: SECTION_HEADER_BYTES_def)
  have s: "checked_add (of_nat (length pre)) SECTION_HEADER_BYTES = Some (of_nat (length pre + 52) :: u64)"
      "checked_add (of_nat (length pre + 52)) (of_nat (length payload)) = Some (of_nat (length pre + 52 + length payload) :: u64)"
    using small unat_of_small [of "length pre + 52"] unat_of_small [OF small(3)]
    by (simp_all only: checked_add_Some u) (simp_all add: SECTION_HEADER_BYTES_def)
  have over: "\<not> (of_nat (length payload) :: u64) > xlim_section_bytes limits" "\<not> (of_nat (length pre + 52 + length payload) :: u64) > moff"
    using limit small unat_of_small [OF small(3)] by (simp_all add: word_less_nat_alt u)
  have seek: "reads (seek_start (of_nat (length pre))) ?env fl lim pos () (length pre) b b"
    using reads_seek [of lim "of_nat (length pre)" pos ?env fl b] lim(2) u(1) by auto
  note first = reads_cancellable [OF r(1), of env b, unfolded h1]
  have pos1: "length pre + unat SECTION_HEADER_BYTES = length pre + 52" by (simp add: SECTION_HEADER_BYTES_def)
  have second: "reads (read_exact_cancellable (unat (of_nat (length payload) :: u64))) ?env fl lim (length pre + 52) payload
      (length pre + 52 + length payload) b b"
    using reads_cancellable [OF r(2), of env b] unfolding h2 u .
  have dec: "reads (decode_all decode_header_fields ?head ''section header'') ?env fl lim (length pre + 52)
      (section_kind_number kind, section_kind_version kind, n, of_nat (length payload), ?sha payload) (length pre + 52) b b"
    by (rule reads_decodes, rule decodes_all, rule parses_header) (use sha in simp)
  show ?thesis
    unfolding read_section_def
    by (rule reads_then, rule reads_check, rule reads_then, rule reads_guard, simp add: d descriptor_of_def,
        rule reads_then, rule reads_guard, simp add: d descriptor_of_def, rule reads_then, rule seek,
        rule reads_bind, rule first [unfolded pos1], rule reads_bind, rule dec, simp only: prod.case,
        rule reads_then, rule reads_guard, simp add: d descriptor_of_def, rule reads_then, rule reads_guard, rule over(1),
        rule reads_bind, rule reads_result, simp only: s(1) ok_or_simps, rule reads_bind, rule reads_result, simp only: s(2) ok_or_simps,
        rule reads_then, rule reads_guard, rule over(2), rule reads_bind, rule second, rule reads_then, rule reads_check,
        rule reads_then, rule reads_digest, simp, rule reads_ret, rule refl)
qed

text \<open>A section is read whole, decoded, counted and validated as the writer did it.\<close>

lemma length_group_image: "\<forall>m. length (sha256 m) = 32 \<Longrightarrow> length (group_image sha256 d) = 52 + length (data_group_bytes d)"
  by (simp add: group_image_def section_image_def length_section_header)

lemma length_control_image: "\<forall>m. length (sha256 m) = 32 \<Longrightarrow> length (control_image sha256 c) = 52 + length (control_bytes c)"
  by (simp add: control_image_def section_image_def length_section_header)

lemma verify_map_Inr [simp]: "verify_map_model r = Inr x \<longleftrightarrow> r = Inr x"
  by (auto simp: verify_map_model_def split: sum.splits ModelError.splits)

lemma drop_first: "drop n xs = y # ys \<Longrightarrow> n < length xs \<and> xs ! n = y \<and> drop (Suc n) xs = ys"
  by (metis Cons_nth_drop_Suc drop_all list.distinct(1) list.inject not_le)

lemma reads_groups:
  assumes lib: "libraries_ok env" and fl: "fl = pre @ concat (map (group_image (ve_sha256 env)) datas) @ post" "length fl < 2 ^ 64"
    and img: "groups_image (ve_sha256 env) limits ctx catalog index (length pre) gcs datas ds v b v' b'"
    and secs: "drop (Suc index) (xman_sections m) = ds"
    and typed: "\<forall>d \<in> set datas. group_typed d" "\<forall>(g, c) \<in> set gcs. g \<noteq> 0 \<and> cut_typed c" "budget_for limits b"
    and moff: "length pre + length (concat (map (group_image (ve_sha256 env)) datas)) \<le> unat moff" "room fl lim (unat moff)"
    and vis: "try_each visitor (map VerifiedDataGroup datas) z = Inr z'"
  shows "reads (walk_groups visitor m moff limits ctx catalog index gcs (of_nat (length pre), v, z)) (never_cancelled env) fl lim (length pre)
    (of_nat (length pre + length (concat (map (group_image (ve_sha256 env)) datas))), v', z')
    (length pre + length (concat (map (group_image (ve_sha256 env)) datas))) b b'"
  using fl img secs typed moff vis
proof (induction gcs arbitrary: pre index datas ds v b z)
  case Nil
  then show ?case by (auto simp: reads_ret)
next
  case (Cons gc gcs)
  let ?sha = "ve_sha256 env"
  obtain g c where gc: "gc = (g, c)" by (cases gc)
  from Cons.prems(3) obtain d datas' ds' v1 b1 where
      h: "datas = d # datas'" "ds = descriptor_of ?sha (of_nat (Suc index)) SectionDataGroup (Some g) (length pre)
          (of_nat (length (xgrp_partitions d))) (data_group_bytes d) # ds'"
        "validate_data_group ctx g c d catalog v limits = Inr v1" "reserve_data_group_model d b = Inr b1"
        "length (data_group_bytes d) \<le> unat (xlim_section_bytes limits)" "length (xgrp_partitions d) < 2 ^ 64" "Suc index < 2 ^ 64"
        "groups_image ?sha limits ctx catalog (Suc index) (length pre + length (group_image ?sha d)) gcs datas' ds' v1 b1 v' b'"
    unfolding gc by auto
  have sha: "\<forall>m. length (?sha m) = 32" using lib by (simp add: libraries_ok_def)
  have len: "length (group_image ?sha d) = 52 + length (data_group_bytes d)" by (rule length_group_image [OF sha])
  have nth: "Suc index < length (xman_sections m)" "xman_sections m ! Suc index =
      descriptor_of ?sha (of_nat (Suc index)) SectionDataGroup (Some g) (length pre) (of_nat (length (xgrp_partitions d))) (data_group_bytes d)"
    and next_secs: "drop (Suc (Suc index)) (xman_sections m) = ds'"
    using drop_first [of "Suc index" "xman_sections m"] Cons.prems(4) h(2) by blast+
  have vd: "xgrp_group d = g" "xgrp_cut d = c" using validated_group [OF h(3)] by auto
  have gt: "group_typed d" "xgrp_group d \<noteq> 0" "cut_typed (xgrp_cut d)" using Cons.prems(5,6) h(1) vd by (auto simp: gc)
  obtain z1 where z: "visitor (VerifiedDataGroup d) z = Inr z1" "try_each visitor (map VerifiedDataGroup datas') z1 = Inr z'"
    using Cons.prems(10) h(1) by (auto simp: bind_result_Inr)
  let ?post = "concat (map (group_image ?sha) datas') @ post"
  have fl1: "fl = pre @ section_image ?sha SectionDataGroup (of_nat (length (xgrp_partitions d))) (data_group_bytes d) @ ?post"
    using Cons.prems(1) h(1) by (simp add: group_image_def [of _ d])
  have end1: "length pre + 52 + length (data_group_bytes d) \<le> unat moff" using Cons.prems(8) h(1) len by simp
  have fit: "length (data_group_bytes d) < 2 ^ 64"
    using h(5) unat_lt_width [of "xlim_section_bytes limits"] by simp
  have dec: "reads (decode_data_group (data_group_bytes d) limits) (never_cancelled env) fl lim q d q b b1" "budget_for limits b1" for q
    using decodes_data_group [OF lib gt Cons.prems(7) h(4) fit] by (auto intro: reads_decodes)
  note sec = reads_section [OF sha fl1 Cons.prems(2) h(5) end1 Cons.prems(9) disjI2 [OF refl] nth(2)]
  let ?off = "length pre + 52 + length (data_group_bytes d)"
  have data: "reads (walk_data m moff limits ctx catalog index g c (of_nat (length pre)) v) (never_cancelled env) fl lim (length pre)
      (d, of_nat ?off, v1) ?off b b1"
    unfolding walk_data_def
    by (rule reads_then, rule reads_check, rule reads_bind, rule reads_result [of _ "Suc index"], simp add: h(7) del: power_numeral,
        rule reads_bind, rule reads_result [of _ "xman_sections m ! Suc index"], simp add: nth(1), rule reads_bind, rule sec, simp only: prod.case, rule reads_bind, rule dec(1), rule reads_bind,
        rule reads_result [of _ "of_nat (length (xgrp_partitions d))"], simp add: model_count_Inr h(6) del: power_numeral, rule reads_then, rule reads_guard, simp add: nth(2) descriptor_of_def,
        rule reads_bind, rule reads_result [of _ v1], simp add: h(3), rule reads_ret, rule refl)
  have group1: "reads (walk_group visitor m moff limits ctx catalog index (g, c) (of_nat (length pre), v, z)) (never_cancelled env) fl lim
      (length pre) (of_nat ?off, v1, z1) ?off b b1"
    unfolding walk_group_def prod.case
    by (rule reads_bind, rule reads_verify_step, rule data, simp only: prod.case, rule reads_bind, rule reads_visit_step, rule z(1),
        rule reads_ret, rule refl)
  have fl2: "fl = (pre @ group_image ?sha d) @ ?post" using Cons.prems(1) h(1) by simp
  have "reads (walk_groups visitor m moff limits ctx catalog (Suc index) gcs (of_nat (length (pre @ group_image ?sha d)), v1, z1))
      (never_cancelled env) fl lim (length (pre @ group_image ?sha d))
      (of_nat (length (pre @ group_image ?sha d) + length (concat (map (group_image ?sha) datas'))), v', z')
      (length (pre @ group_image ?sha d) + length (concat (map (group_image ?sha) datas'))) b1 b'"
    by (rule Cons.IH [OF _ Cons.prems(2) _ next_secs _ _ dec(2) _ Cons.prems(9) z(2)])
      (use fl2 h(1,8) Cons.prems(5,6,8) in auto)
  moreover have "length (pre @ group_image ?sha d) = ?off" using len by simp
  ultimately have rest: "reads (walk_groups visitor m moff limits ctx catalog (Suc index) gcs (of_nat ?off, v1, z1))
      (never_cancelled env) fl lim ?off
      (of_nat (?off + length (concat (map (group_image ?sha) datas'))), v', z')
      (?off + length (concat (map (group_image ?sha) datas'))) b1 b'"
    by (simp only:)
  have sum: "length pre + length (concat (map (group_image ?sha) datas)) = ?off + length (concat (map (group_image ?sha) datas'))"
    using h(1) len by simp
  show ?case
    unfolding gc walk_groups.simps sum by (rule reads_bind, rule group1, rule rest)
qed

section \<open>The walk\<close>

lemma groups_image_lengths:
  "groups_image sha256 limits ctx catalog index off gcs datas ds v b v' b' \<Longrightarrow> length datas = length gcs \<and> length ds = length gcs"
  by (induction sha256 limits ctx catalog index off gcs datas ds v b v' b' rule: groups_image.induct) auto

lemma context_of_document [simp]:
  "ValidationContext_from_manifest (document_manifest doc sections totals) (xdoc_control doc) = ValidationContext_from_document doc"
  by (simp add: ValidationContext_from_manifest_def ValidationContext_from_document_def document_manifest_def)

lemma context_fields [simp]:
  "vc_control (ValidationContext_from_document doc) = xdoc_control doc" "vc_cut (ValidationContext_from_document doc) = xdoc_cut doc"
  "vc_required_features (ValidationContext_from_document doc) = xdoc_required_features doc"
  "vc_exclusions (ValidationContext_from_document doc) = xdoc_exclusions doc"
  "vc_selected_streams (ValidationContext_from_document doc) = xdoc_selected_streams doc"
  by (simp_all add: ValidationContext_from_document_def)

lemma manifest_fields [simp]:
  "xman_sections (document_manifest doc sections totals) = sections" "xman_totals (document_manifest doc sections totals) = totals"
  "xman_cut (document_manifest doc sections totals) = xdoc_cut doc" "xman_format_version (document_manifest doc sections totals) = 1"
  "xman_selected_streams (document_manifest doc sections totals) = xdoc_selected_streams doc"
  "xman_required_features (document_manifest doc sections totals) = xdoc_required_features doc"
  "xman_exclusions (document_manifest doc sections totals) = xdoc_exclusions doc"
  by (simp_all add: document_manifest_def FORMAT_VERSION_V1_def)

lemma reads_walk:
  assumes lib: "libraries_ok env" and doc: "document_typed doc"
    and ctl: "validate_control (ValidationContext_from_document doc) limits = Inr catalog"
      "reserve_control_model (xdoc_control doc) b = Inr b2" "length (control_bytes (xdoc_control doc)) \<le> unat (xlim_section_bytes limits)"
    and img: "groups_image (ve_sha256 env) limits (ValidationContext_from_document doc) catalog 0 (length head) (qc_data (xdoc_cut doc)) datas ds
        DataValidation_default b2 v b3"
    and head: "head = prologue_bytes (xdoc_required_features doc) @ control_image (ve_sha256 env) (xdoc_control doc)"
    and fin: "finish_validation (ValidationContext_from_document doc) catalog v limits = Inr final"
    and m: "m = document_manifest doc (descriptor_of (ve_sha256 env) 0 SectionControl None 20
        (of_nat (length (xctl_streams (xdoc_control doc)))) (control_bytes (xdoc_control doc)) # ds) (dav_totals final)"
    and fl: "fl = head @ concat (map (group_image (ve_sha256 env)) datas) @ post" "length fl < 2 ^ 64"
    and moff: "unat moff = length head + length (concat (map (group_image (ve_sha256 env)) datas))" "room fl lim (unat moff)"
    and bud: "budget_for limits b" and typed: "\<forall>d \<in> set datas. group_typed d"
    and pos: "lim = None \<or> pos = 20"
    and vis: "try_each visitor (VerifiedControl (xdoc_control doc) # map VerifiedDataGroup datas) z = Inr z'"
  shows "reads (walk_sections visitor m moff limits z) (never_cancelled env) fl lim pos z' (unat moff) b b3"
proof -
  let ?c = "xdoc_control doc" and ?ctx = "ValidationContext_from_document doc" and ?sha = "ve_sha256 env"
  let ?off = "20 + 52 + length (control_bytes ?c)"
  have sha: "\<forall>m. length (?sha m) = 32" using lib by (simp add: libraries_ok_def)
  have hl: "length head = ?off" unfolding head by (simp add: length_control_image [OF sha])
  have sound: "control_sound ?c" using validated_control [OF ctl(1)] doc by (simp add: document_typed_def)
  have n: "length (xctl_streams ?c) < 2 ^ 64"
    using ctl(2) by (auto simp: reserve_control_model_def bind_result_Inr model_count_Inr)
  have fl0: "fl = prologue_bytes (xdoc_required_features doc) @ section_image ?sha SectionControl (of_nat (length (xctl_streams ?c)))
      (control_bytes ?c) @ (concat (map (group_image ?sha) datas) @ post)"
    unfolding fl(1) head by (simp add: control_image_def)
  have d0: "xman_sections m ! 0 = descriptor_of ?sha 0 SectionControl None (length (prologue_bytes (xdoc_required_features doc)))
      (of_nat (length (xctl_streams ?c))) (control_bytes ?c)"
    unfolding m by simp
  have len: "length (control_bytes ?c) < 2 ^ 64" using ctl(3) unat_lt_width [of "xlim_section_bytes limits"] by simp
  have dec: "reads (decode_control (control_bytes ?c) limits) (never_cancelled env) fl lim q ?c q b b2" "budget_for limits b2" for q
    using decodes_control [OF lib sound bud ctl(2) len] by (auto intro: reads_decodes)
  have sec: "reads (read_section (xman_sections m ! 0) \<lparr>exs_ordinal = 0, exs_kind = SectionControl, exs_group = None\<rparr> PROLOGUE_BYTES moff limits)
      (never_cancelled env) fl lim pos (control_bytes ?c, of_nat ?off) ?off b b"
    using reads_section [OF sha fl0 fl(2) ctl(3) _ moff(2) _ d0, of pos b] moff(1) hl pos by (simp add: PROLOGUE_BYTES_def)
  have count: "length (xman_sections m) = length (qc_data (xman_cut m)) + 1" using groups_image_lengths [OF img] unfolding m by simp
  have control: "reads (walk_control m moff limits) (never_cancelled env) fl lim pos (?c, of_nat ?off, catalog) ?off b b2"
    unfolding walk_control_def
    by (rule reads_then, rule reads_check, rule reads_then, rule reads_guard, simp add: count, rule reads_bind, rule sec, simp only: prod.case,
        rule reads_bind, rule dec(1), rule reads_bind, rule reads_result [of _ "of_nat (length (xctl_streams ?c))"],
        simp add: model_count_Inr n del: power_numeral, rule reads_then, rule reads_guard, simp add: d0 descriptor_of_def,
        rule reads_bind, rule reads_result [of _ catalog], simp add: m ctl(1), rule reads_ret, rule refl)
  obtain z1 where z: "visitor (VerifiedControl ?c) z = Inr z1" "try_each visitor (map VerifiedDataGroup datas) z1 = Inr z'"
    using vis by (auto simp: bind_result_Inr)
  have nonzero: "\<forall>(g, c) \<in> set (qc_data (xdoc_cut doc)). g \<noteq> 0 \<and> cut_typed c"
    using doc by (auto simp: document_typed_def quiescent_typed_def cut_typed_def)
  have secs: "drop (Suc 0) (xman_sections m) = ds" unfolding m by simp
  have le: "length head + length (concat (map (group_image ?sha) datas)) \<le> unat moff" using moff(1) by simp
  note groups = reads_groups [OF lib fl img secs typed nonzero dec(2) le moff(2) z(2)]
  note groups1 = groups [unfolded moff(1) [symmetric] of_nat_unat_offset]
  have finish: "reads (walk_finish m moff limits ?ctx catalog moff v) (never_cancelled env) fl lim q () q b3 b3" for q
    unfolding walk_finish_def
    by (rule reads_then, rule reads_guard, simp, rule reads_bind, rule reads_result [of _ final], simp add: fin, rule reads_guard, simp add: m)
  have ctx: "ValidationContext_from_manifest m ?c = ?ctx" unfolding m by simp
  have cut: "qc_data (xman_cut m) = qc_data (xdoc_cut doc)" unfolding m by simp
  show ?thesis
    unfolding walk_sections_def
    by (rule reads_bind, rule reads_verify_step, rule control, simp only: prod.case ctx cut, rule reads_bind, rule reads_visit_step, rule z(1),
        rule reads_bind, rule groups1 [unfolded hl], simp only: prod.case,
        rule reads_bind, rule reads_verify_step, rule finish, rule reads_ret, rule refl)
qed

section \<open>The manifest and the trailer\<close>

definition within_totals :: "ExportLimits \<Rightarrow> DataValidation \<Rightarrow> bool" where
  "within_totals limits v \<longleftrightarrow> xtot_partitions (dav_totals v) \<le> xlim_partitions limits \<and> xtot_records (dav_totals v) \<le> xlim_records limits \<and>
     xtot_payload_bytes (dav_totals v) \<le> xlim_payload_bytes limits"

lemma groups_image_totals:
  "groups_image sha256 limits ctx catalog index off gcs datas ds v b v' b' \<Longrightarrow> within_totals limits v \<Longrightarrow> within_totals limits v'"
proof (induction sha256 limits ctx catalog index off gcs datas ds v b v' b' rule: groups_image.induct)
  case (2 sha256 limits ctx catalog index off g c gcs datas ds v b v' b')
  from "2.prems"(1) obtain d datas' ds' v1 b1 where
      v1: "validate_data_group ctx g c d catalog v limits = Inr v1"
      and rest: "groups_image sha256 limits ctx catalog (Suc index) (off + length (group_image sha256 d)) gcs datas' ds' v1 b1 v' b'"
    by auto
  from v1 have "within_totals limits v1"
    unfolding validate_data_group_def within_totals_def check_u64_def
    by (auto simp: bind_result_Inr not_less split: prod.splits)
  with rest "2.IH" show ?case by blast
qed simp

lemma finished_totals:
  assumes "finish_validation (ValidationContext_from_document doc) catalog v limits = Inr final" "within_totals limits v"
  shows "within_totals limits final \<and> xtot_streams (dav_totals final) \<le> xlim_streams limits \<and>
    (\<exists>k. checked_add (xtot_partition_bookmarks (dav_totals final)) (xtot_stream_bookmarks (dav_totals final)) = Some k \<and> k \<le> xlim_bookmarks limits) \<and>
    length (qc_data (xdoc_cut doc)) < 2 ^ 64 \<and> xtot_configured_data_groups (dav_totals final) = of_nat (length (qc_data (xdoc_cut doc)))"
  using assms unfolding finish_validation_def Let_def within_totals_def check_u64_def add_u64_def count_u64_def
  by (auto simp: bind_result_Inr not_less split: if_splits)

lemma validated_manifest:
  assumes "finish_validation (ValidationContext_from_document doc) catalog v limits = Inr final" "within_totals limits v"
    and "xdoc_required_features doc = 0" "xdoc_exclusions doc = EXCLUSIONS_V1" "\<not> out_of_order (xdoc_selected_streams doc)"
  shows "validate_manifest (document_manifest doc sections (dav_totals final)) limits = Inr ()"
proof -
  from finished_totals [OF assms(1,2)] obtain k where
      f: "within_totals limits final" "xtot_streams (dav_totals final) \<le> xlim_streams limits"
        "checked_add (xtot_partition_bookmarks (dav_totals final)) (xtot_stream_bookmarks (dav_totals final)) = Some k" "k \<le> xlim_bookmarks limits"
        "length (qc_data (xdoc_cut doc)) < 2 ^ 64" "xtot_configured_data_groups (dav_totals final) = of_nat (length (qc_data (xdoc_cut doc)))"
    by blast
  then have "\<not> xlim_partitions limits < xtot_partitions (dav_totals final)" "\<not> xlim_records limits < xtot_records (dav_totals final)"
      "\<not> xlim_payload_bytes limits < xtot_payload_bytes (dav_totals final)" "\<not> xlim_streams limits < xtot_streams (dav_totals final)"
      "\<not> xlim_bookmarks limits < k"
    by (auto simp: within_totals_def)
  with f(3,5,6) assms(3-5) show ?thesis
    unfolding validate_manifest_def Let_def
    by (simp add: reject_if_def FORMAT_VERSION_V1_def model_count_def)
qed

lemma parses_trailer:
  assumes "length digest = 32"
  shows "parses decode_trailer_fields env (trailer_bytes moff n digest) (moff, n, digest) b b"
  unfolding decode_trailer_fields_def trailer_bytes_def
  by (rule parses_bind, rule parses_words, rule parses_bind, rule parses_words, rule parses_bind, rule parses_take [OF assms],
      rule parses_bind, rule parses_take, simp, rule parses_then, rule parses_guard, simp, rule parses_ret)

lemma parses_prologue: "parses decode_prologue_fields env (prologue_bytes 0) 0 b b"
  unfolding decode_prologue_fields_def prologue_bytes_def
  by (rule parses_bind, rule parses_take, simp, rule parses_then, rule parses_guard, simp, rule parses_bind, rule parses_words,
      rule parses_then, rule parses_guard, simp, rule parses_bind, rule parses_words, rule parses_then, rule parses_guard, simp, rule parses_ret)

lemma reads_prologue:
  assumes "fl = prologue_bytes 0 @ post" "room fl lim 20"
  shows "reads read_prologue (never_cancelled env) fl lim 0 0 20 b b"
proof -
  have t: "take (unat PROLOGUE_BYTES) (drop 0 fl) = prologue_bytes 0" unfolding assms(1) by (simp add: PROLOGUE_BYTES_def)
  have "room fl lim (0 + unat PROLOGUE_BYTES)" using assms(2) by (simp add: PROLOGUE_BYTES_def)
  from reads_cancellable [OF this, of env b, unfolded t]
  have first: "reads (read_exact_cancellable (unat PROLOGUE_BYTES)) (never_cancelled env) fl lim 0 (prologue_bytes 0) 20 b b"
    by (simp add: PROLOGUE_BYTES_def)
  show ?thesis
    unfolding read_prologue_def by (rule reads_bind, rule first, rule reads_decodes, rule decodes_all, rule parses_prologue)
qed

lemma reads_trailer:
  assumes fl: "fl = content @ trailer_bytes moff n digest" "length digest = 32" "length fl < 2 ^ 64"
  shows "reads (read_trailer (of_nat (length content))) (never_cancelled env) fl None pos (moff, n, digest) (length fl) b b"
proof -
  have len: "length fl = length content + 56" unfolding fl(1) using fl(2) by (simp add: trailer_bytes_def)
  have u: "unat (of_nat (length content) :: u64) = length content" using len fl(3) by (intro unat_of_small) simp
  have t: "take (unat TRAILER_BYTES_V1) (drop (length content) fl) = trailer_bytes moff n digest"
    unfolding fl(1) using fl(2) by (simp add: TRAILER_BYTES_V1_def trailer_bytes_def)
  have "room fl None (length content + unat TRAILER_BYTES_V1)" by (simp add: room_def len TRAILER_BYTES_V1_def)
  from reads_cancellable [OF this, of env b, unfolded t]
  have first: "reads (read_exact_cancellable (unat TRAILER_BYTES_V1)) (never_cancelled env) fl None (length content)
      (trailer_bytes moff n digest) (length fl) b b"
    by (simp add: len TRAILER_BYTES_V1_def)
  have seek: "reads (seek_start (of_nat (length content))) (never_cancelled env) fl None pos () (length content) b b"
    using reads_seek [of None "of_nat (length content)" pos "never_cancelled env" fl b] by (simp add: u)
  show ?thesis
    unfolding read_trailer_def
    by (rule reads_then, rule seek, rule reads_bind, rule first, rule reads_decodes, rule decodes_all, rule parses_trailer, rule fl(2))
qed

lemma reads_manifest:
  assumes fl: "fl = body @ len_bytes (length mb) @ mb @ post" "length fl < 2 ^ 64"
    and limit: "length mb \<le> unat (xlim_manifest_bytes limits)" and off: "unat moff = length body" "unat mend = length body + 8 + length mb"
  shows "reads (read_manifest limits moff mend) (never_cancelled env) fl None pos (len_bytes (length mb), mb) (unat mend) b b"
proof -
  have small: "length mb < 2 ^ 64" using fl by simp
  have u: "unat (of_nat (length mb) :: u64) = length mb" by (rule unat_of_small [OF small])
  have t1: "take 8 (drop (length body) fl) = len_bytes (length mb)" unfolding fl(1) by simp
  have t2: "take (length mb) (drop (length body + 8) fl) = mb" unfolding fl(1) by simp
  have r: "room fl None (length body + 8)" "room fl None (length body + 8 + length mb)" unfolding fl(1) by (simp_all add: room_def)
  note first = reads_cancellable [OF r(1), of env b, unfolded t1]
  have second: "reads (read_exact_cancellable (unat (of_nat (length mb) :: u64))) (never_cancelled env) fl None (length body + 8) mb (unat mend) b b"
    using reads_cancellable [OF r(2), of env b] unfolding t2 u off(2) .
  have seek: "reads (seek_start moff) (never_cancelled env) fl None pos () (length body) b b"
    using reads_seek [of None moff pos "never_cancelled env" fl b] by (simp add: off(1))
  have val: "(from_be_bytes (len_bytes (length mb)) :: u64) = of_nat (length mb)" by (simp add: len_bytes_def)
  have le: "\<not> (of_nat (length mb) :: u64) > xlim_manifest_bytes limits" using limit by (simp add: word_less_nat_alt u)
  have mid: "\<exists>q. checked_add moff 8 = Some q \<and> checked_add q (of_nat (length mb)) = Some mend"
  proof -
    have "unat (of_nat (length body + 8) :: u64) = length body + 8" using fl by (intro unat_of_small) simp
    then have "checked_add moff 8 = Some (of_nat (length body + 8))" "checked_add (of_nat (length body + 8)) (of_nat (length mb)) = Some mend"
      by (simp_all only: checked_add_Some off u) simp
    then show ?thesis by blast
  qed
  then obtain q where q: "checked_add moff 8 = Some q" "checked_add q (of_nat (length mb)) = Some mend" by blast
  show ?thesis
    unfolding read_manifest_def Let_def
    by (rule reads_then, rule seek, rule reads_bind, rule first, unfold val, rule reads_then, rule reads_guard, rule le,
        rule reads_bind, rule reads_result [of _ mend], simp add: q, rule reads_then, rule reads_guard, simp, rule reads_bind, rule second,
        rule reads_ret, rule refl)
qed

end
