(* ===== verification/Artifact_Sample.thy ===== *)
theory Artifact_Sample
  imports Artifact_Image
begin

text \<open>
  A sample export for the witnesses: one stream with one partition in one data group, two records and a
  bookmark on each level. The digest is a function that answers 32 bytes and the UUID parser drops the
  dashes and reads the hexadecimal digits; both satisfy \<open>libraries_ok\<close>.
\<close>

section \<open>The libraries\<close>

definition sample_digest :: "bytes \<Rightarrow> bytes" where
  "sample_digest m = take 32 (m @ replicate 32 0)"

definition hex_value :: "char \<Rightarrow> nat" where
  "hex_value c = (if of_char c < (58 :: nat) then of_char c - 48 else of_char c - 87)"

fun read_hex :: "string \<Rightarrow> bytes" where
  "read_hex (a # b # cs) = of_nat (hex_value a * 16 + hex_value b) # read_hex cs"
| "read_hex _ = []"

definition sample_parse_uuid :: "string \<Rightarrow> uuid option" where
  "sample_parse_uuid t = Some (from_be_bytes (read_hex (filter (\<lambda>c. c \<noteq> CHR ''-'') t)))"

definition sample_env :: verify_env where
  "sample_env = \<lparr>ve_sha256 = sample_digest, ve_parse_uuid = sample_parse_uuid, ve_cancelled = \<lambda>_. False\<rparr>"

lemma hex_value_digit: "n < 16 \<Longrightarrow> hex_value (hex_digit n) = n"
  by (simp add: hex_value_def of_char_hex_digit)

lemma hex_digit_no_dash: "n < 16 \<Longrightarrow> hex_digit n \<noteq> CHR ''-''"
  using of_char_hex_digit [of n] by (auto split: if_splits)

lemma nibbles_small: "unat (b :: u8) div 16 < 16" "unat b mod 16 < 16"
  using unat_lt_width [of b] by simp_all

lemma filter_lower_hex: "filter (\<lambda>c. c \<noteq> CHR ''-'') (lower_hex v) = lower_hex v"
  by (induction v) (simp_all add: lower_hex_def hex_digit_no_dash nibbles_small)

lemma read_hex_lower_hex: "read_hex (lower_hex v) = v"
proof (induction v)
  case Nil
  then show ?case by (simp add: lower_hex_def)
next
  case (Cons b v)
  have "lower_hex (b # v) = hex_digit (unat b div 16) # hex_digit (unat b mod 16) # lower_hex v" by (simp add: lower_hex_def)
  moreover have "unat b div 16 * 16 + unat b mod 16 = unat b" by (rule div_mult_mod_eq)
  ultimately show ?case using Cons.IH by (simp only: read_hex.simps hex_value_digit nibbles_small) simp
qed

lemma lower_hex_append: "lower_hex (a @ b) = lower_hex a @ lower_hex b"
  by (simp add: lower_hex_def)

lemma sample_libraries: "libraries_ok sample_env"
proof -
  have "filter (\<lambda>c. c \<noteq> CHR ''-'') (uuid_text v) = lower_hex v" for v
  proof -
    have "v = take 4 v @ take 2 (drop 4 v) @ take 2 (drop 6 v) @ take 2 (drop 8 v) @ drop 10 v"
      using append_take_drop_id [of 4 v] append_take_drop_id [of 2 "drop 4 v"] append_take_drop_id [of 2 "drop 6 v"]
        append_take_drop_id [of 2 "drop 8 v"] by simp
    then have "lower_hex v = lower_hex (take 4 v @ take 2 (drop 4 v) @ take 2 (drop 6 v) @ take 2 (drop 8 v) @ drop 10 v)" by simp
    then show ?thesis by (simp only: uuid_text_def filter_append filter_lower_hex lower_hex_append) simp
  qed
  then show ?thesis
    by (simp add: libraries_ok_def sample_env_def sample_parse_uuid_def sample_digest_def read_hex_lower_hex min_def)
qed

section \<open>The document\<close>

definition sample_cut :: "u64 \<Rightarrow> GroupCut" where
  "sample_cut g = \<lparr>gc_group = g, gc_term = 3, gc_leader = 1, gc_applied_index = 40\<rparr>"

definition sample_descriptor :: StreamDescriptor where
  "sample_descriptor =
     \<lparr>sd_cluster = 9, sd_stream = 5, sd_name = [111, 114, 100, 101, 114, 115], sd_lifecycle = Active,
      sd_placements = [\<lparr>pp_partition = 0, pp_group = 2\<rparr>], sd_ready_groups = [2], sd_revision = 4\<rparr>"

definition sample_stream_bookmark :: CommittedStreamBookmark where
  "sample_stream_bookmark =
     \<lparr>sb_id = 21, sb_name = [97], sb_vector = \<lparr>sv_cluster = 9, sv_stream = 5,
        sv_positions = [\<lparr>cc_cluster = 9, cc_partition = PartitionKey 5 0, cc_next_offset = 8\<rparr>]\<rparr>,
      sb_publication = 1, sb_lifecycle = BookmarkAvailable\<rparr>"

definition sample_control :: ControlSectionV1 where
  "sample_control =
     \<lparr>xctl_source_cluster = 9, xctl_export_id = 77, xctl_cut = sample_cut 1, xctl_catalog_revision = 6,
      xctl_assignment_cursor = 1, xctl_max_streams = 16, xctl_max_partitions_per_stream = 4,
      xctl_configured_data_groups = [2],
      xctl_streams = [\<lparr>xstr_descriptor = sample_descriptor, xstr_bookmark_publication_ceiling = 1,
        xstr_bookmarks = [sample_stream_bookmark]\<rparr>]\<rparr>"

definition sample_document :: ExportDocumentV1 where
  "sample_document =
     \<lparr>xdoc_source_cluster = 9, xdoc_export_id = 77, xdoc_selected_streams = [5],
      xdoc_cut = \<lparr>qc_control = sample_cut 1, qc_data = [(2, sample_cut 2)]\<rparr>, xdoc_control = sample_control,
      xdoc_required_features = 0, xdoc_exclusions = EXCLUSIONS_V1\<rparr>"

definition sample_group :: DataGroupV1 where
  "sample_group =
     \<lparr>xgrp_source_cluster = 9, xgrp_export_id = 77, xgrp_group = 2, xgrp_cut = sample_cut 2,
      xgrp_partitions = [\<lparr>xpar_source_cluster = 9, xpar_stream = 5, xpar_partition = 0, xpar_retention_floor = 7,
        xpar_tail = 9, xpar_bookmark_publication_ceiling = 1,
        xpar_records = [\<lparr>cr_offset = 7, cr_payload = [1, 2, 3]\<rparr>, \<lparr>cr_offset = 8, cr_payload = []\<rparr>],
        xpar_bookmarks = [\<lparr>cb_id = 22, cb_name = [98], cb_cursor = \<lparr>cc_cluster = 9,
          cc_partition = PartitionKey 5 0, cc_next_offset = 8\<rparr>, cb_publication = 1, cb_lifecycle = BookmarkAvailable\<rparr>]\<rparr>]\<rparr>"

definition sample_source :: "(nat, string) data_group_source" where
  "sample_source g c n = (Inr (if g = 2 then Some sample_group else None), Suc n)"

lemmas sample_defs = sample_cut_def sample_descriptor_def sample_stream_bookmark_def sample_control_def sample_document_def
  sample_group_def

lemma sample_typed: "document_typed sample_document" "source_typed sample_source"
  by (simp_all add: document_typed_def quiescent_typed_def cut_typed_def tsorted_def stream_typed_def name_ok_def
      source_typed_def sample_source_def group_typed_def sample_defs)

section \<open>The writer completes it\<close>

lemmas validate_defs = reject_if_def require_strict_def out_of_order_def check_u64_def count_u64_def check_count_def add_u64_def
  checked_add_def checked_sub_def scan_bookmark_def saturating_sub_def

lemma sample_control_valid:
  "validate_control (ValidationContext_from_document sample_document) ExportLimits_default = Inr \<lparr>cav_partitions = [((5, 0), 2)]\<rparr>"
  by (simp add: validate_control_def validate_stream_def validate_placement_def validate_stream_bookmarks_def
      validate_stream_bookmark_def validate_defs ValidationContext_from_document_def ExportLimits_default_def
      REQUIRED_FEATURES_V1_def MAX_DATA_GROUPS_def sample_defs)

lemma sample_group_valid:
  "validate_data_group (ValidationContext_from_document sample_document) 2 (sample_cut 2) sample_group \<lparr>cav_partitions = [((5, 0), 2)]\<rparr>
     DataValidation_default ExportLimits_default =
   Inr \<lparr>dav_seen = {(5, 0)}, dav_tails = [((5, 0), 9)],
     dav_totals = ExportTotalsV1_default\<lparr>xtot_payload_bytes := 3, xtot_partitions := 1, xtot_records := 2, xtot_partition_bookmarks := 1\<rparr>\<rparr>"
  by (simp add: validate_data_group_def validate_partition_def validate_record_def validate_partition_bookmarks_def
      validate_partition_bookmark_def validate_defs ValidationContext_from_document_def ExportLimits_default_def
      ExportTotalsV1_default_def DataValidation_default_def sample_defs Let_def)

lemma sample_finished:
  "finish_validation (ValidationContext_from_document sample_document) \<lparr>cav_partitions = [((5, 0), 2)]\<rparr>
     \<lparr>dav_seen = {(5, 0)}, dav_tails = [((5, 0), 9)],
       dav_totals = ExportTotalsV1_default\<lparr>xtot_payload_bytes := 3, xtot_partitions := 1, xtot_records := 2, xtot_partition_bookmarks := 1\<rparr>\<rparr>
     ExportLimits_default =
   Inr \<lparr>dav_seen = {(5, 0)}, dav_tails = [((5, 0), 9)],
     dav_totals = \<lparr>xtot_configured_data_groups = 1, xtot_streams = 1, xtot_partitions = 1, xtot_records = 2,
       xtot_payload_bytes = 3, xtot_partition_bookmarks = 1, xtot_stream_bookmarks = 1\<rparr>\<rparr>"
  by (simp add: finish_validation_def validate_targets_def validate_position_def count_stream_bookmarks_def validate_defs
      ValidationContext_from_document_def ExportLimits_default_def ExportTotalsV1_default_def sample_defs Let_def)

lemmas encoder_defs = enc_raw_def enc_u8_def enc_u16_def enc_u32_def enc_u64_def enc_uuid_def enc_len_def enc_string_def
  enc_bytes_def enc_each_def encode_cut_def encode_position_def

lemmas reserve_defs = reserve_def checked_add_def model_count_def reserve_streams_def reserve_partitions_def reserve_records_def
  reserve_bookmarks_def reserve_payload_bytes_def DecodeBudget_new_def ExportLimits_default_def

lemma sample_reserved:
  "\<exists>b1 b2 b3. reserve_manifest_model (xdoc_selected_streams sample_document) (DecodeBudget_new ExportLimits_default) = Inr b1 \<and>
     reserve_control_model sample_control b1 = Inr b2 \<and> reserve_data_group_model sample_group b2 = Inr b3"
  by (simp add: reserve_manifest_model_def reserve_control_model_def reserve_stream_model_def reserve_stream_bookmark_model_def
      reserve_data_group_model_def reserve_partition_model_def reserve_record_model_def reserve_defs sample_defs)

lemma sample_control_encoded:
  "\<exists>payload. encode_control sample_document (xlim_section_bytes ExportLimits_default) = Some payload \<and> length payload = 297"
  by (simp add: encode_control_def encode_stream_def encode_placement_def encode_stream_bookmark_def encoder_defs
      ExportLimits_default_def sample_defs)

lemma sample_group_encoded:
  "\<exists>payload. encode_data_group sample_group (xlim_section_bytes ExportLimits_default) = Some payload \<and> length payload = 265"
  by (simp add: encode_data_group_def encode_partition_def encode_record_def encode_partition_bookmark_def encoder_defs
      ExportLimits_default_def sample_defs)

lemma sample_manifest_encoded:
  assumes "length h1 = 32" "length h2 = 32"
  shows "\<exists>mb. encode_manifest (document_manifest sample_document
      [\<lparr>xsec_ordinal = 0, xsec_kind = SectionControl, xsec_version = v1, xsec_group = None, xsec_file_offset = o1, xsec_item_count = i1,
         xsec_payload_length = p1, xsec_payload_sha256 = h1\<rparr>,
       \<lparr>xsec_ordinal = 1, xsec_kind = SectionDataGroup, xsec_version = v2, xsec_group = Some 2, xsec_file_offset = o2, xsec_item_count = i2,
         xsec_payload_length = p2, xsec_payload_sha256 = h2\<rparr>] totals)
      (xlim_manifest_bytes ExportLimits_default) = Some mb \<and> length mb = 358"
  using assms by (simp add: encode_manifest_def document_manifest_def encode_section_def encode_group_option_def encode_totals_def encoder_defs
      ExportLimits_default_def sample_defs)

lemma out_write_fits:
  "length bs < 2 ^ 64 \<Longrightarrow> unat (wr_offset w) + length bs \<le> unat (wr_max w) \<Longrightarrow>
    out_write bs w = (Inr (), w\<lparr>wr_file := wr_file w @ bs, wr_offset := wr_offset w + of_nat (length bs)\<rparr>)"
  using unat_lt_width [of "wr_max w"]
  by (simp add: out_write_def checked_add_def word_less_nat_alt unat_word_ariths unat_of_nat)

lemma out_section_fits:
  assumes "length payload + 52 + unat (wr_offset w) \<le> unat (wr_max w)" "length (sha256 payload) = 32"
  shows "\<exists>fl dg. out_section sha256 ordinal kind grp item_count payload w =
    (Inr \<lparr>xsec_ordinal = ordinal, xsec_kind = kind, xsec_version = section_kind_version kind, xsec_group = grp,
       xsec_file_offset = wr_offset w, xsec_item_count = item_count, xsec_payload_length = of_nat (length payload),
       xsec_payload_sha256 = sha256 payload\<rparr>,
     w\<lparr>wr_file := fl, wr_digest := dg, wr_offset := wr_offset w + of_nat (52 + length payload)\<rparr>)"
  using assms unat_lt_width [of "wr_max w"]
  by (cases w) (auto simp: out_section_def out_offset_def out_hashed_def wbind_def wthen_def wresult_def wret_def out_write_fits
      unat_word_ariths unat_of_nat add.assoc add.left_commute)

definition sample_totals :: DataValidation where
  "sample_totals =
     \<lparr>dav_seen = {(5, 0)}, dav_tails = [((5, 0), 9)],
      dav_totals = ExportTotalsV1_default\<lparr>xtot_payload_bytes := 3, xtot_partitions := 1, xtot_records := 2, xtot_partition_bookmarks := 1\<rparr>\<rparr>"

definition sample_control_descriptor :: "bytes \<Rightarrow> SectionDescriptorV1" where
  "sample_control_descriptor digest =
     \<lparr>xsec_ordinal = 0, xsec_kind = SectionControl, xsec_version = section_kind_version SectionControl, xsec_group = None,
      xsec_file_offset = 20, xsec_item_count = 1, xsec_payload_length = 297, xsec_payload_sha256 = digest\<rparr>"

definition sample_group_descriptor :: "bytes \<Rightarrow> SectionDescriptorV1" where
  "sample_group_descriptor digest =
     \<lparr>xsec_ordinal = 1, xsec_kind = SectionDataGroup, xsec_version = section_kind_version SectionDataGroup, xsec_group = Some 2,
      xsec_file_offset = 369, xsec_item_count = 1, xsec_payload_length = 265, xsec_payload_sha256 = digest\<rparr>"

lemma length_sample_digest [simp]: "length (sample_digest m) = 32"
  by (simp add: sample_digest_def min_def)

lemmas writer_defs = wbind_def wthen_def wresult_def wret_def map_decode_budget_def write_count_def out_hashed_def out_offset_def

lemma sample_sections_written:
  "\<exists>fl dg h1 h2. write_sections sample_digest sample_source ExportLimits_default sample_document \<lparr>cav_partitions = [((5, 0), 2)]\<rparr>
      \<lparr>wr_file = [], wr_digest = [], wr_offset = 0, wr_max = xlim_artifact_bytes ExportLimits_default, wr_source = 0\<rparr> =
    (Inr ([sample_control_descriptor h1, sample_group_descriptor h2], sample_totals),
     \<lparr>wr_file = fl, wr_digest = dg, wr_offset = 686, wr_max = xlim_artifact_bytes ExportLimits_default, wr_source = 1\<rparr>) \<and>
    length h1 = 32 \<and> length h2 = 32"
proof -
  obtain b1 b2 b3 where b: "reserve_manifest_model (xdoc_selected_streams sample_document) (DecodeBudget_new ExportLimits_default) = Inr b1"
    "reserve_control_model sample_control b1 = Inr b2" "reserve_data_group_model sample_group b2 = Inr b3"
    using sample_reserved by blast
  obtain p1 where p1: "encode_control sample_document (xlim_section_bytes ExportLimits_default) = Some p1" "length p1 = 297"
    using sample_control_encoded by blast
  obtain p2 where p2: "encode_data_group sample_group (xlim_section_bytes ExportLimits_default) = Some p2" "length p2 = 265"
    using sample_group_encoded by blast
  have counts: "length (xctl_streams sample_control) = 1" "length (xgrp_partitions sample_group) = 1"
    "xdoc_control sample_document = sample_control" "qc_data (xdoc_cut sample_document) = [(2, sample_cut 2)]"
    by (simp_all add: sample_defs)
  have room: "unat (xlim_artifact_bytes ExportLimits_default) = 107374182400" by (simp add: ExportLimits_default_def)
  let ?w = "\<lambda>fl dg off s. \<lparr>wr_file = fl, wr_digest = dg, wr_offset = off, wr_max = xlim_artifact_bytes ExportLimits_default, wr_source = s\<rparr>"
  have control: "\<exists>fl' dg'. out_section sample_digest 0 SectionControl None 1 p1 (?w fl dg 20 (0::nat)) =
      (Inr (sample_control_descriptor (sample_digest p1)) :: string ExportWriteError + _, ?w fl' dg' 369 0)" for fl dg
    using out_section_fits [of p1 "?w fl dg 20 (0::nat)" sample_digest 0 SectionControl None 1] room p1(2)
    by (simp add: sample_control_descriptor_def)
  have grp: "\<exists>fl' dg'. out_section sample_digest 1 SectionDataGroup (Some 2) 1 p2 (?w fl dg 369 (1::nat)) =
      (Inr (sample_group_descriptor (sample_digest p2)) :: string ExportWriteError + _, ?w fl' dg' 686 1)" for fl dg
    using out_section_fits [of p2 "?w fl dg 369 (1::nat)" sample_digest 1 SectionDataGroup "Some 2" 1] room p2(2)
    by (simp add: sample_group_descriptor_def)
  have pro: "wthen (out_hashed MAGIC_V1) (wthen (out_hashed (to_be_bytes FORMAT_VERSION_V1))
      (wthen (out_hashed (to_be_bytes (xdoc_required_features sample_document))) k)) (?w [] [] 0 (0::nat)) =
    k (?w (prologue_bytes 0) (prologue_bytes 0) 20 0)" for k
    using room by (simp add: writer_defs out_write_fits prologue_bytes_def MAGIC_V1_def sample_document_def)
  obtain fl1 dg1 where c: "out_section sample_digest 0 SectionControl None 1 p1 (?w (prologue_bytes 0) (prologue_bytes 0) 20 (0::nat)) =
      (Inr (sample_control_descriptor (sample_digest p1)) :: string ExportWriteError + _, ?w fl1 dg1 369 0)" using control by blast
  obtain fl2 dg2 where g: "out_section sample_digest 1 SectionDataGroup (Some 2) 1 p2 (?w fl1 dg1 369 (1::nat)) =
      (Inr (sample_group_descriptor (sample_digest p2)) :: string ExportWriteError + _, ?w fl2 dg2 686 1)" using grp by blast
  have "write_sections sample_digest sample_source ExportLimits_default sample_document \<lparr>cav_partitions = [((5, 0), 2)]\<rparr> (?w [] [] 0 0) =
    (Inr ([sample_control_descriptor (sample_digest p1), sample_group_descriptor (sample_digest p2)], sample_totals), ?w fl2 dg2 686 1)"
    using b p1 p2 c g
    by (simp add: write_sections_def wbind_def wresult_def map_decode_budget_def pro counts write_count_def write_group_def ask_source_def
      sample_source_def sample_group_valid [folded sample_totals_def] write_map_model_def wret_def checked_add_def)
  then show ?thesis by (metis length_sample_digest)
qed

lemma sample_written: "\<exists>identity fl. write_v1 sample_digest sample_source ExportLimits_default sample_document 0 [] = (Inr identity, 1, fl)"
proof -
  obtain fl dg h1 h2 where ws: "write_sections sample_digest sample_source ExportLimits_default sample_document \<lparr>cav_partitions = [((5, 0), 2)]\<rparr>
      \<lparr>wr_file = [], wr_digest = [], wr_offset = 0, wr_max = xlim_artifact_bytes ExportLimits_default, wr_source = 0\<rparr> =
    (Inr ([sample_control_descriptor h1, sample_group_descriptor h2], sample_totals),
     \<lparr>wr_file = fl, wr_digest = dg, wr_offset = 686, wr_max = xlim_artifact_bytes ExportLimits_default, wr_source = 1\<rparr>)"
    "length h1 = 32" "length h2 = 32" using sample_sections_written by blast
  obtain mb where mb: "encode_manifest (document_manifest sample_document [sample_control_descriptor h1, sample_group_descriptor h2]
      \<lparr>xtot_configured_data_groups = 1, xtot_streams = 1, xtot_partitions = 1, xtot_records = 2,
       xtot_payload_bytes = 3, xtot_partition_bookmarks = 1, xtot_stream_bookmarks = 1\<rparr>) (xlim_manifest_bytes ExportLimits_default) = Some mb"
    "length mb = 358"
    using sample_manifest_encoded [OF ws(2,3)] unfolding sample_control_descriptor_def sample_group_descriptor_def by blast
  have room: "unat (xlim_artifact_bytes ExportLimits_default) = 107374182400" "\<not> xlim_artifact_bytes ExportLimits_default < 1108"
    by (simp_all add: ExportLimits_default_def)
  show ?thesis
    using ws(1) mb room
    by (simp add: write_v1_def sample_control_valid write_artifact_def writer_defs write_map_model_def
        sample_finished [folded sample_totals_def] write_trailer_def out_plain_def out_write_fits checked_add_def TRAILER_BYTES_V1_def
        reject_if_def ArtifactIdentity_new_def TRAILER_MAGIC_V1_def)
qed

end
