(* ===== verification/Artifact_Properties.thy ===== *)
theory Artifact_Properties
  imports Artifact_Read Artifact_Sample
begin

text \<open>
  What the export artifacts promise: the verifier accepts every artifact the writer completed, under the
  same limits and with the same identity, and hands back the very sections that were written.
\<close>

section \<open>The verifier accepts what the writer wrote\<close>

lemma answers_typed: "answers source gcs s datas s' \<Longrightarrow> source_typed source \<Longrightarrow> d \<in> set datas \<Longrightarrow> group_typed d"
  by (induction source gcs s datas s' rule: answers.induct) (auto simp: source_typed_def, blast)

lemma groups_image_sections:
  "groups_image sha256 limits ctx catalog index off gcs datas ds v b v' b' \<Longrightarrow> \<forall>m. length (sha256 m) = 32 \<Longrightarrow>
    \<forall>(g, c) \<in> set gcs. g \<noteq> 0 \<Longrightarrow> \<forall>d \<in> set ds. section_typed d"
  by (induction sha256 limits ctx catalog index off gcs datas ds v b v' b' rule: groups_image.induct)
    (auto simp: section_typed_def descriptor_of_def)

lemma reads_idle:
  assumes "reads (walk_sections idle_visitor m moff limits ()) env fl lim pos () pos' b b'"
  shows "reads (walk_verified m moff limits) env fl lim pos () pos' b b'"
  using assms by (fastforce simp: reads_def walk_verified_def)

lemma idle_all: "try_each idle_visitor xs () = Inr ()"
  by (induction xs) (simp_all add: idle_visitor_def)

text \<open>From the hashing reader on: the digest covers what was read.\<close>

lemma hashed_content:
  assumes "reads q env fl (Some (unat e)) 0 () (unat e) b b'" "stands s fl None 0 h b" "unat e \<le> length fl"
  shows "\<exists>s'. vthen (hashing_new e) (vthen q (vbind hashing_finalize (\<lambda>d. vthen (vguard (d \<noteq> expected) err) (vret x)))) env s =
    (if ve_sha256 env (take (unat e) fl) = expected then Inr (x, s') else Inl err)"
proof -
  have "stands (s\<lparr>vs_reader := (vs_reader s)\<lparr>rd_limit := Some (unat e), rd_hashed := []\<rparr>\<rparr>) fl (Some (unat e)) 0 [] b"
    using assms(2) by (simp add: stands_def)
  then obtain s1 where s1: "q env (s\<lparr>vs_reader := (vs_reader s)\<lparr>rd_limit := Some (unat e), rd_hashed := []\<rparr>\<rparr>) = Inr ((), s1)"
      "stands s1 fl (Some (unat e)) (unat e) ([] @ stretch fl (Some (unat e)) 0 (unat e)) b'"
    using assms(1) unfolding reads_def by blast
  then have "rd_hashed (vs_reader s1) = take (unat e) fl" by (simp add: stands_def stretch_def)
  with s1(1) show ?thesis
    by (auto simp: vthen_def vbind_def hashing_new_def hashing_finalize_def vguard_def vret_def vfail_def)
qed

lemma readsD:
  "reads p env fl lim pos x pos' b b' \<Longrightarrow> stands s fl lim pos h b \<Longrightarrow>
    \<exists>s' h'. p env s = Inr (x, s') \<and> stands s' fl lim pos' h' b'"
  unfolding reads_def by blast

lemma verify_content_image:
  assumes lib: "libraries_ok env" and st: "stands s fl None pos h (DecodeBudget_new limits)"
    and man: "reads (read_manifest limits moff mend) (never_cancelled env) fl None pos (lb, mb) pos1 (DecodeBudget_new limits) (DecodeBudget_new limits)"
      "decodes (decode_manifest mb limits) (never_cancelled env) m (DecodeBudget_new limits) b1" "validate_manifest m limits = Inr ()"
    and body: "reads (verify_hashed limits m moff lb mb) (never_cancelled env) fl (Some (unat mend)) 0 () (unat mend) b1 b3"
    and sha: "ve_sha256 env (take (unat mend) fl) = digest" "unat mend \<le> length fl"
  shows "\<exists>s'. verify_content limits moff mend digest (never_cancelled env) s = Inr (m, s')"
proof -
  obtain s1 h1 where 1: "read_manifest limits moff mend (never_cancelled env) s = Inr ((lb, mb), s1)"
      "stands s1 fl None pos1 h1 (DecodeBudget_new limits)"
    using readsD [OF man(1) st] by blast
  obtain s2 h2 where 2: "decode_manifest mb limits (never_cancelled env) s1 = Inr (m, s2)" "stands s2 fl None pos1 h2 b1"
    using readsD [OF reads_decodes [OF man(2)] 1(2)] by blast
  obtain s3 h3 where 3: "seek_start 0 (never_cancelled env) s2 = Inr ((), s3)" "stands s3 fl None 0 h3 b1"
    using readsD [OF reads_seek [of None 0 pos1 "never_cancelled env" fl b1] 2(2)] by auto
  obtain s' where "vthen (hashing_new mend) (vthen (verify_hashed limits m moff lb mb) (vbind hashing_finalize (\<lambda>d.
      vthen (vguard (d \<noteq> digest) (VerifyDigest ''artifact'')) (vret m)))) (never_cancelled env) s3 = Inr (m, s')"
    using hashed_content [OF body 3(2) sha(2), of digest "VerifyDigest ''artifact''" m] sha(1) by auto
  with 1(1) 2(1) 3(1) man(3) show ?thesis
    unfolding verify_content_def by (simp add: vbind_def [of "read_manifest _ _ _"] vbind_def [of "decode_manifest _ _"]
        vthen_def [of "vresult _"] vthen_def [of "seek_start _"] vbind_def [of "vresult _"] vbind_def [of "seek_start _"] vresult_def)
qed

text \<open>A step that ends a verification: only its answer matters.\<close>

definition yields :: "('e, 'a) verifying \<Rightarrow> verify_env \<Rightarrow> bytes \<Rightarrow> nat \<Rightarrow> DecodeBudget \<Rightarrow> 'a \<Rightarrow> bool" where
  "yields p env fl pos b x \<longleftrightarrow> (\<forall>s h. stands s fl None pos h b \<longrightarrow> (\<exists>s'. p env s = Inr (x, s')))"

lemma yields_bind:
  "reads p env fl None pos x pos1 b b1 \<Longrightarrow> yields (f x) env fl pos1 b1 y \<Longrightarrow> yields (vbind p f) env fl pos b y"
  unfolding yields_def by (fastforce simp: vbind_def dest: readsD)

lemma yields_then:
  "reads p env fl None pos () pos1 b b1 \<Longrightarrow> yields q env fl pos1 b1 y \<Longrightarrow> yields (vthen p q) env fl pos b y"
  unfolding vthen_def by (rule yields_bind)

lemma yields_last:
  "yields p env fl pos b x \<Longrightarrow> (\<And>s. f x env s = Inr (y, s)) \<Longrightarrow> yields (vbind p f) env fl pos b y"
  unfolding yields_def by (fastforce simp: vbind_def)

text \<open>The record of a verified artifact.\<close>

definition verified_of :: "ExportLimits \<Rightarrow> bytes \<Rightarrow> ArtifactIdentity \<Rightarrow> ExportManifestV1 \<Rightarrow> nat \<Rightarrow> nat \<Rightarrow> VerifiedExport" where
  "verified_of limits fl identity m moff mend =
     \<lparr>xver_file = fl,
      xver_inspection = \<lparr>xins_artifact = identity, xins_manifest = m, xins_sections = xman_sections m,
        xins_artifact_digest_coverage = \<lparr>adc_start = 0, adc_end = of_nat mend\<rparr>\<rparr>,
      xver_limits = limits, xver_manifest_offset = of_nat moff\<rparr>"

lemma verify_image:
  assumes lib: "libraries_ok env" and len: "length fl = mend + 56" "length fl \<le> unat (xlim_artifact_bytes limits)" "80 \<le> mend"
    and tr: "fl = content @ trailer_bytes (of_nat moff) (of_nat (length fl)) digest" "length content = mend" "length digest = 32"
    and off: "20 \<le> moff" "moff < mend"
    and vc: "\<And>pos. yields (verify_content limits (of_nat moff) (of_nat mend) digest) (never_cancelled env) fl pos (DecodeBudget_new limits) m"
  shows "verify env limits fl = Inr (verified_of limits fl \<lparr>ai_length = of_nat (length fl), ai_sha256 = digest\<rparr> m moff mend)"
proof -
  let ?env = "never_cancelled env" and ?n = "of_nat (length fl) :: u64"
  have small: "length fl < 2 ^ 64" using len(2) unat_lt_width [of "xlim_artifact_bytes limits"] by simp
  have u: "unat ?n = length fl" "unat (of_nat mend :: u64) = mend" "unat (of_nat moff :: u64) = moff"
    by (rule unat_of_small, use small len(1) off in linarith)+
  have sizes: "unat (PROLOGUE_BYTES + SECTION_HEADER_BYTES + 8 + TRAILER_BYTES_V1) = 136" "unat TRAILER_BYTES_V1 = 56" "unat PROLOGUE_BYTES = 20"
    by (simp_all add: PROLOGUE_BYTES_def SECTION_HEADER_BYTES_def TRAILER_BYTES_V1_def)
  have over: "\<not> ?n > xlim_artifact_bytes limits" unfolding word_less_nat_alt u using len(2) by linarith
  have under: "\<not> ?n < PROLOGUE_BYTES + SECTION_HEADER_BYTES + 8 + TRAILER_BYTES_V1"
    unfolding word_less_nat_alt u sizes using len(1,3) by linarith
  have cut: "checked_sub ?n TRAILER_BYTES_V1 = Some (of_nat mend)"
    unfolding checked_sub_Some word_le_nat_alt u sizes using len(1) by linarith
  have offs: "\<not> ((of_nat moff :: u64) < PROLOGUE_BYTES \<or> (of_nat moff :: u64) \<ge> of_nat mend)"
    unfolding word_less_nat_alt word_le_nat_alt u sizes using off by linarith
  have "?n \<noteq> 0" using u(1) len(1) by (metis add_is_0 unat_0 zero_neq_numeral)
  then have idn: "ArtifactIdentity_new ?n digest = Inr \<lparr>ai_length = ?n, ai_sha256 = digest\<rparr>" by (simp add: ArtifactIdentity_new_def)
  have seek: "reads seek_end ?env fl None pos ?n (length fl) b b" for pos b
    using small by (simp add: reads_def seek_end_def stands_def Let_def stretch_def)
  note trailer = reads_trailer [OF tr(1,3) small, of env, unfolded tr(2)]
  have "yields (verify_file limits) ?env fl 0 (DecodeBudget_new limits)
      (\<lparr>xins_artifact = \<lparr>ai_length = ?n, ai_sha256 = digest\<rparr>, xins_manifest = m, xins_sections = xman_sections m,
        xins_artifact_digest_coverage = \<lparr>adc_start = 0, adc_end = of_nat mend\<rparr>\<rparr>, of_nat moff)"
    unfolding verify_file_def
    by (rule yields_then, rule reads_check, rule yields_bind, rule seek, rule yields_then, rule reads_guard, rule over,
        rule yields_then, rule reads_guard, rule under, rule yields_bind, rule reads_result [of _ "of_nat mend"], simp only: cut ok_or_simps,
        rule yields_bind, rule trailer, simp only: prod.case, rule yields_then, rule reads_guard, simp, rule yields_then, rule reads_guard, simp,
        rule yields_then, rule reads_guard, rule offs, rule yields_last, rule vc) (simp add: vbind_def vresult_def vret_def idn)
  moreover have "stands (verify_start limits fl) fl None 0 [] (DecodeBudget_new limits)" by (simp add: stands_def verify_start_def)
  ultimately show ?thesis
    unfolding yields_def verify_def verify_cancellable_def verified_of_def by (auto split: sum.splits)
qed

lemma reads_hashed:
  assumes lib: "libraries_ok env" and feat: "xman_required_features m = 0"
    and fl: "fl = prologue_bytes 0 @ post1" "fl = body @ len_bytes (length mb) @ mb @ post" "length fl < 2 ^ 64"
    and walk: "reads (walk_sections idle_visitor m moff limits ()) (never_cancelled env) fl (Some e) 20 () (length body) b b'"
    and e: "e = length body + 8 + length mb"
  shows "reads (verify_hashed limits m moff (len_bytes (length mb)) mb) (never_cancelled env) fl (Some e) 0 () e b b'"
proof -
  have r: "room fl (Some e) 20" "room fl (Some e) (length body + 8)" "room fl (Some e) (length body + 8 + length mb)"
    using fl(2) e walk by (auto simp: room_def reads_def)
  have t1: "take 8 (drop (length body) fl) = len_bytes (length mb)" unfolding fl(2) by simp
  have t2: "take (length mb) (drop (length body + 8) fl) = mb" unfolding fl(2) by simp
  note again = reads_cancellable [OF r(2), of env b', unfolded t1]
  note rest = reads_compare [OF t2 r(3), of env b', folded e]
  show ?thesis
    unfolding verify_hashed_def
    by (rule reads_bind, rule reads_prologue [OF fl(1) r(1)], rule reads_then, rule reads_guard, simp add: feat, rule reads_then,
        rule reads_idle, rule walk, rule reads_bind, rule again, rule reads_then, rule reads_guard, simp, rule rest)
qed

text \<open>What a caller collects who keeps every section the walk hands out.\<close>

definition collect_section :: "(unit, VerifiedSectionV1 list) section_visitor" where
  "collect_section section1 acc = Inr (acc @ [section1])"

lemma collect_all: "try_each collect_section xs acc = Inr (acc @ xs)"
  by (induction xs arbitrary: acc) (simp_all add: collect_section_def)

definition budget_le :: "DecodeBudget \<Rightarrow> DecodeBudget \<Rightarrow> bool" where
  "budget_le a b \<longleftrightarrow> bud_max_streams a = bud_max_streams b \<and> bud_max_partitions a = bud_max_partitions b \<and>
     bud_max_records a = bud_max_records b \<and> bud_max_bookmarks a = bud_max_bookmarks b \<and>
     bud_max_payload_bytes a = bud_max_payload_bytes b \<and> bud_streams a \<le> bud_streams b \<and> bud_partitions a \<le> bud_partitions b \<and>
     bud_records a \<le> bud_records b \<and> bud_bookmarks a \<le> bud_bookmarks b \<and> bud_payload_bytes a \<le> bud_payload_bytes b"

text \<open>A budget that has been used less admits whatever the other one admits.\<close>

definition eased :: "(DecodeBudget \<Rightarrow> VerifyError + DecodeBudget) \<Rightarrow> bool" where
  "eased f \<longleftrightarrow> (\<forall>a b b'. budget_le a b \<longrightarrow> f b = Inr b' \<longrightarrow> (\<exists>a'. f a = Inr a' \<and> budget_le a' b'))"

lemma reserve_eased:
  assumes "reserve used n limit name = Inr m" "used' \<le> used"
  shows "\<exists>m'. reserve used' n limit name = Inr m' \<and> m' \<le> m"
proof -
  from assms(1) have m: "unat m = unat used + unat n" "m \<le> limit"
    by (auto simp: reserve_def word_arith split: option.splits if_splits)
  have lt: "unat used' + unat n < 2 ^ 64"
    using m(1) assms(2) unat_lt_width [of m] by (simp add: word_le_nat_alt)
  then obtain k where k: "checked_add used' n = Some k" by (simp add: checked_add_def)
  then have "unat k = unat used' + unat n" by (simp add: word_arith)
  then have "k \<le> m" using m(1) assms(2) by (simp add: word_le_nat_alt)
  with k m(2) show ?thesis by (auto simp: reserve_def)
qed

lemma reserves_eased:
  "eased (reserve_streams n)" "eased (reserve_partitions n)" "eased (reserve_records n)" "eased (reserve_bookmarks n)" "eased (reserve_payload_bytes n)"
  unfolding eased_def reserve_streams_def reserve_partitions_def reserve_records_def reserve_bookmarks_def reserve_payload_bytes_def
  by (auto simp: bind_result_Inr budget_le_def dest: reserve_eased)+

lemma eased_bind:
  "(\<And>x. r = Inr x \<Longrightarrow> eased (g x)) \<Longrightarrow> eased (\<lambda>b. bind_result r (\<lambda>x. g x b))"
  by (cases r) (simp_all add: eased_def)

lemma eased_seq: "eased f \<Longrightarrow> eased g \<Longrightarrow> eased (\<lambda>b. bind_result (f b) g)"
  unfolding eased_def by (fastforce simp: bind_result_Inr)

lemma eased_each: "(\<And>x. eased (f x)) \<Longrightarrow> eased (reserve_each f xs)"
proof (induction xs)
  case Nil
  then show ?case by (simp add: eased_def)
next
  case (Cons x xs)
  have "reserve_each f (x # xs) = (\<lambda>b. bind_result (f x b) (reserve_each f xs))" by (rule ext) simp
  with eased_seq [OF Cons.prems Cons.IH [OF Cons.prems]] show ?case by simp
qed

lemma models_eased:
  "eased (reserve_control_model c)" "eased (reserve_data_group_model d)"
proof -
  have bm: "eased (reserve_stream_bookmark_model bm)" for bm
    unfolding reserve_stream_bookmark_model_def [abs_def] by (intro eased_bind reserves_eased)
  have st: "eased (reserve_stream_model s)" for s
    unfolding reserve_stream_model_def [abs_def]
    by (intro eased_bind eased_seq reserves_eased eased_each bm)
  have rc: "eased (reserve_record_model r)" for r
    unfolding reserve_record_model_def [abs_def] by (intro eased_bind reserves_eased)
  have pt: "eased (reserve_partition_model p)" for p
    unfolding reserve_partition_model_def [abs_def]
    by (intro eased_bind eased_seq reserves_eased eased_each rc)
  show "eased (reserve_control_model c)"
    unfolding reserve_control_model_def [abs_def] by (intro eased_bind eased_seq reserves_eased eased_each st)
  show "eased (reserve_data_group_model d)"
    unfolding reserve_data_group_model_def [abs_def] by (intro eased_bind eased_seq reserves_eased eased_each pt)
qed

lemma groups_image_eased:
  "groups_image sha256 limits ctx catalog index off gcs datas ds v b v' b' \<Longrightarrow> budget_le a b \<Longrightarrow>
    \<exists>a'. groups_image sha256 limits ctx catalog index off gcs datas ds v a v' a'"
proof (induction gcs arbitrary: index off datas ds v b a)
  case (Cons gc gcs)
  obtain g c where gc: "gc = (g, c)" by (cases gc)
  from Cons.prems(1) obtain d datas' ds' v1 b1 where
      h: "datas = d # datas'" "ds = descriptor_of sha256 (of_nat (Suc index)) SectionDataGroup (Some g) off
          (of_nat (length (xgrp_partitions d))) (data_group_bytes d) # ds'"
        "validate_data_group ctx g c d catalog v limits = Inr v1" "reserve_data_group_model d b = Inr b1"
        "length (data_group_bytes d) \<le> unat (xlim_section_bytes limits)" "length (xgrp_partitions d) < 2 ^ 64" "Suc index < 2 ^ 64"
        "groups_image sha256 limits ctx catalog (Suc index) (off + length (group_image sha256 d)) gcs datas' ds' v1 b1 v' b'"
    unfolding gc by auto
  obtain a1 where a1: "reserve_data_group_model d a = Inr a1" "budget_le a1 b1"
    using models_eased(2) [of d] Cons.prems(2) h(4) unfolding eased_def by blast
  from Cons.IH [OF h(8) a1(2)] h a1(1) show ?case unfolding gc by auto
qed auto

lemma manifest_budget_grows:
  assumes "reserve_manifest_model ss b = Inr b'"
  shows "budget_le b b'"
proof -
  from assms obtain n where "reserve (bud_streams b) (of_nat (length ss)) (bud_max_streams b) ''streams'' = Inr n" "b' = b\<lparr>bud_streams := n\<rparr>"
    by (auto simp: reserve_manifest_model_def reserve_streams_def bind_result_Inr model_count_Inr)
  then show ?thesis
    by (auto simp: budget_le_def reserve_def word_arith word_le_nat_alt split: option.splits if_splits)
qed

lemma written_manifest_typed:
  assumes "groups_image sha256 limits ctx catalog 0 off (qc_data (xdoc_cut doc)) datas ds v b v' b'" "\<forall>m. length (sha256 m) = 32"
    and "quiescent_typed (xdoc_cut doc)" "length (qc_data (xdoc_cut doc)) \<le> MAX_DATA_GROUPS"
  shows "manifest_typed (document_manifest doc (descriptor_of sha256 0 SectionControl None k n payload # ds) totals)"
proof -
  have "\<forall>(g, c) \<in> set (qc_data (xdoc_cut doc)). g \<noteq> 0" using assms(3) by (auto simp: quiescent_typed_def cut_typed_def)
  then have "\<forall>d \<in> set ds. section_typed d" by (rule groups_image_sections [OF assms(1,2)])
  then show ?thesis
    using assms(2-4) groups_image_lengths [OF assms(1)] by (auto simp: manifest_typed_def section_typed_def descriptor_of_def)
qed

lemma written_verifies:
  assumes lib: "libraries_ok env" and doc: "document_typed doc" and src: "source_typed source"
    and "artifact_written (ve_sha256 env) source limits doc s s' fl identity datas m"
  shows "\<exists>moff mend. verify env limits fl = Inr (verified_of limits fl identity m moff mend) \<and>
    visit_sections env collect_section (verified_of limits fl identity m moff mend) [] =
      Inr (VerifiedControl (xdoc_control doc) # map VerifiedDataGroup datas)"
proof -
  let ?sha = "ve_sha256 env" and ?c = "xdoc_control doc" and ?ctx = "ValidationContext_from_document doc"
  define head where "head = prologue_bytes (xdoc_required_features doc) @ control_image ?sha ?c"
  define body where "body = head @ concat (map (group_image ?sha) datas)"
  define mb where "mb = manifest_bytes m"
  define content where "content = body @ len_bytes (length mb) @ mb"
  from assms(4) [unfolded artifact_written_def Let_def, folded head_def, folded body_def, folded mb_def, folded content_def]
  obtain catalog b1 b2 b3 ds v final where
      w: "validate_control ?ctx limits = Inr catalog" "reserve_manifest_model (xdoc_selected_streams doc) (DecodeBudget_new limits) = Inr b1"
        "reserve_control_model ?c b1 = Inr b2" "length (control_bytes ?c) \<le> unat (xlim_section_bytes limits)"
        "groups_image ?sha limits ?ctx catalog 0 (length head) (qc_data (xdoc_cut doc)) datas ds DataValidation_default b2 v b3"
        "answers source (qc_data (xdoc_cut doc)) s datas s'" "finish_validation ?ctx catalog v limits = Inr final"
        "m = document_manifest doc (descriptor_of ?sha 0 SectionControl None 20 (of_nat (length (xctl_streams ?c))) (control_bytes ?c) # ds)
          (dav_totals final)" "length mb \<le> unat (xlim_manifest_bytes limits)"
        "fl = content @ trailer_bytes (of_nat (length body)) (of_nat (length content + 56)) (?sha content)"
        "length fl \<le> unat (xlim_artifact_bytes limits)" "length fl = length content + 56"
        "identity = \<lparr>ai_length = of_nat (length content + 56), ai_sha256 = ?sha content\<rparr>"
    by blast
  have sha: "\<forall>m. length (?sha m) = 32" using lib by (simp add: libraries_ok_def)
  have cut: "quiescent_typed (xdoc_cut doc)" using doc by (simp add: document_typed_def)
  have valid: "control_sound ?c" "length (qc_data (xdoc_cut doc)) \<le> MAX_DATA_GROUPS" "xdoc_required_features doc = 0"
      "xdoc_exclusions doc = EXCLUSIONS_V1" "\<not> out_of_order (xdoc_selected_streams doc)"
    using validated_control [OF w(1)] doc by (simp_all add: document_typed_def)
  have typed: "\<forall>d \<in> set datas. group_typed d" using answers_typed [OF w(6) src] by blast
  have small: "length fl < 2 ^ 64" using w(11) unat_lt_width [of "xlim_artifact_bytes limits"] by simp
  let ?post = "trailer_bytes (of_nat (length body)) (of_nat (length content + 56)) (?sha content)"
  have flen: "length fl = length content + 56" "length content = length body + 8 + length mb"
    using w(12) by (simp_all add: content_def)
  have fl1: "fl = body @ len_bytes (length mb) @ mb @ ?post" using w(10) by (simp add: content_def)
  have fl2: "fl = head @ concat (map (group_image ?sha) datas) @ (len_bytes (length mb) @ mb @ ?post)" using fl1 by (simp add: body_def)
  have fl3: "fl = prologue_bytes 0 @ (control_image ?sha ?c @ concat (map (group_image ?sha) datas) @ len_bytes (length mb) @ mb @ ?post)"
    using fl2 valid(3) by (simp add: head_def)
  have u: "unat (of_nat (length body) :: u64) = length body" "unat (of_nat (length content) :: u64) = length content"
    by (rule unat_of_small, use small flen in linarith)+
  have moff: "unat (of_nat (length body) :: u64) = length head + length (concat (map (group_image ?sha) datas))"
    unfolding u by (simp add: body_def)
  have hl: "72 \<le> length head" by (simp add: head_def length_control_image [OF sha])
  have mt: "manifest_typed m" unfolding w(8) by (rule written_manifest_typed [OF w(5) sha cut valid(2)])
  have mlen: "length (manifest_bytes m) < 2 ^ 64" using small flen by (simp add: mb_def)
  have rm: "reserve_manifest_model (xman_selected_streams m) (DecodeBudget_new limits) = Inr b1" unfolding w(8) using w(2) by simp
  have man: "decodes (decode_manifest mb limits) (never_cancelled env) m (DecodeBudget_new limits) b1" "budget_for limits b1"
    using decodes_manifest [OF lib mt budget_for_new rm mlen] unfolding mb_def by auto
  have room1: "room fl (Some (length content)) (unat (of_nat (length body) :: u64))" "room fl None (unat (of_nat (length body) :: u64))"
    unfolding u using flen by (simp_all add: room_def)
  have vm: "validate_manifest m limits = Inr ()"
    unfolding w(8) using validated_manifest [OF w(7) groups_image_totals [OF w(5)] valid(3-5)]
    by (simp add: within_totals_def DataValidation_default_def ExportTotalsV1_default_def)
  have walk: "reads (walk_sections idle_visitor m (of_nat (length body)) limits ()) (never_cancelled env) fl (Some (length content)) 20 ()
      (length body) b1 b3"
    using reads_walk [OF lib doc w(1,3,4,5) head_def w(7,8) fl2 small moff room1(1) man(2) typed disjI2 [OF refl] idle_all] unfolding u .
  have feat: "xman_required_features m = 0" unfolding w(8) using valid(3) by simp
  have hashed: "reads (verify_hashed limits m (of_nat (length body)) (len_bytes (length mb)) mb) (never_cancelled env) fl
      (Some (unat (of_nat (length content) :: u64))) 0 () (unat (of_nat (length content) :: u64)) b1 b3"
    unfolding u(2) by (rule reads_hashed [OF lib feat fl3 fl1 small walk flen(2)])
  have whole: "take (unat (of_nat (length content) :: u64)) fl = content" unfolding u w(10) by simp
  have vc: "yields (verify_content limits (of_nat (length body)) (of_nat (length content)) (?sha content)) (never_cancelled env) fl pos
      (DecodeBudget_new limits) m" for pos
    unfolding yields_def
  proof (intro allI impI)
    fix t h assume t: "stands t fl None pos h (DecodeBudget_new limits)"
    have rd: "reads (read_manifest limits (of_nat (length body)) (of_nat (length content))) (never_cancelled env) fl None pos (len_bytes (length mb), mb)
        (unat (of_nat (length content) :: u64)) (DecodeBudget_new limits) (DecodeBudget_new limits)"
      by (rule reads_manifest [OF fl1 small w(9) u(1)]) (rule trans [OF u(2) flen(2)])
    show "\<exists>s'. verify_content limits (of_nat (length body)) (of_nat (length content)) (?sha content) (never_cancelled env) t = Inr (m, s')"
      by (rule verify_content_image [OF lib t rd man(1) vm hashed]) (simp only: whole, use flen(1) u(2) in linarith)
  qed
  have ident: "identity = \<lparr>ai_length = of_nat (length fl), ai_sha256 = ?sha content\<rparr>" using w(13) flen by simp
  have trail: "fl = content @ trailer_bytes (of_nat (length body)) (of_nat (length fl)) (?sha content)" using w(10) flen(1) by simp
  have "verify env limits fl = Inr (verified_of limits fl identity m (length body) (length content))"
    unfolding ident
    by (rule verify_image [OF lib flen(1) w(11) _ trail refl _ _ _ vc]) (use hl flen(2) sha in \<open>auto simp: body_def\<close>)
  moreover have "visit_sections env collect_section (verified_of limits fl identity m (length body) (length content)) [] =
      Inr (VerifiedControl ?c # map VerifiedDataGroup datas)"
  proof -
    have le: "budget_le (DecodeBudget_new limits) b1" by (rule manifest_budget_grows [OF w(2)])
    obtain a2 where a2: "reserve_control_model ?c (DecodeBudget_new limits) = Inr a2" "budget_le a2 b2"
      using models_eased(1) [of ?c] le w(3) unfolding eased_def by blast
    obtain a3 where a3: "groups_image ?sha limits ?ctx catalog 0 (length head) (qc_data (xdoc_cut doc)) datas ds DataValidation_default a2 v a3"
      using groups_image_eased [OF w(5) a2(2)] by blast
    have "reads (walk_sections collect_section m (of_nat (length body)) limits []) (never_cancelled env) fl None 0
        ([] @ VerifiedControl ?c # map VerifiedDataGroup datas) (unat (of_nat (length body) :: u64)) (DecodeBudget_new limits) a3"
      by (rule reads_walk [OF lib doc w(1) a2(1) w(4) a3 head_def w(7,8) fl2 small moff room1(2) budget_for_new typed disjI1 [OF refl] collect_all])
    moreover have "stands (verify_start limits fl) fl None 0 [] (DecodeBudget_new limits)" by (simp add: stands_def verify_start_def)
    ultimately obtain t where "walk_sections collect_section m (of_nat (length body)) limits [] (never_cancelled env) (verify_start limits fl) =
        Inr (VerifiedControl ?c # map VerifiedDataGroup datas, t)"
      by (auto dest: readsD)
    then show ?thesis by (simp add: visit_sections_def visit_sections_cancellable_def verified_of_def)
  qed
  ultimately show ?thesis by blast
qed

section \<open>Properties\<close>

text \<open>
  C25. The round trip of an export: when \<open>write_v1\<close> completes an artifact, \<open>verify\<close> accepts it under the same limits,
  finds the identity \<open>write_v1\<close> returned and the manifest of the document, and a caller who visits the
  sections is handed exactly the control section of the document and the data groups of the source, in
  order and bit for bit.
\<close>

theorem export_round_trip:
  assumes "libraries_ok env" "document_typed doc" "source_typed source"
    and "write_v1 (ve_sha256 env) source limits doc s out = (Inr identity, s', fl)"
  shows "\<exists>x datas. verify env limits fl = Inr x \<and> xins_artifact (xver_inspection x) = identity \<and>
    xman_selected_streams (xins_manifest (xver_inspection x)) = xdoc_selected_streams doc \<and>
    xman_cut (xins_manifest (xver_inspection x)) = xdoc_cut doc \<and>
    answers source (qc_data (xdoc_cut doc)) s datas s' \<and>
    visit_sections env collect_section x [] = Inr (VerifiedControl (xdoc_control doc) # map VerifiedDataGroup datas)"
proof -
  let ?sha = "ve_sha256 env"
  have sha: "\<forall>m. length (?sha m) = 32" using assms(1) by (simp add: libraries_ok_def)
  obtain datas m where w: "artifact_written ?sha source limits doc s s' fl identity datas m"
    using write_v1_Inr [OF assms(4) sha] by blast
  have "answers source (qc_data (xdoc_cut doc)) s datas s'" "xman_selected_streams m = xdoc_selected_streams doc" "xman_cut m = xdoc_cut doc"
    using w by (auto simp: artifact_written_def Let_def)
  with written_verifies [OF assms(1-3) w] show ?thesis by (fastforce simp: verified_of_def)
qed

theorem export_round_trip_witness:
  "\<exists>fl x identity. write_v1 sample_digest sample_source ExportLimits_default sample_document 0 [] = (Inr identity, 1, fl) \<and>
     verify sample_env ExportLimits_default fl = Inr x \<and> xins_artifact (xver_inspection x) = identity \<and>
     visit_sections sample_env collect_section x [] = Inr [VerifiedControl sample_control, VerifiedDataGroup sample_group]"
proof -
  obtain identity fl where w: "write_v1 sample_digest sample_source ExportLimits_default sample_document 0 [] = (Inr identity, 1, fl)"
    using sample_written by blast
  have "ve_sha256 sample_env = sample_digest" by (simp add: sample_env_def)
  with export_round_trip [OF sample_libraries sample_typed, of ExportLimits_default 0 "[]" identity 1 fl] w
  obtain x datas where x: "verify sample_env ExportLimits_default fl = Inr x" "xins_artifact (xver_inspection x) = identity"
    "answers sample_source (qc_data (xdoc_cut sample_document)) 0 datas 1"
    "visit_sections sample_env collect_section x [] = Inr (VerifiedControl (xdoc_control sample_document) # map VerifiedDataGroup datas)"
    by auto
  have "datas = [sample_group]" using x(3) by (cases datas) (auto simp: sample_document_def sample_source_def split: list.splits)
  then show ?thesis using w x by (auto simp: sample_document_def)
qed

end
