(* ===== verification/Artifact_Cancel.thy ===== *)
theory Artifact_Cancel
  imports Artifact_Decode
begin

text \<open>
  Cancellation of a verification. Every step either answers \<open>Cancelled\<close> or does exactly what it does for a
  caller who never cancels: the calculus \<open>cancel_safe\<close> with one lemma per step of the verifier, and the
  property for the two entry points.
\<close>

named_theorems cancel_intros \<open>steps that cancelling can only cancel\<close>

definition cancel_safe :: "'e \<Rightarrow> ('e, 'a) verifying \<Rightarrow> bool" where
  "cancel_safe e p \<longleftrightarrow> (\<forall>env s. p env s = Inl e \<or> p env s = p (never_cancelled env) s)"

lemma cancel_free: "(\<And>env s. p env s = p (never_cancelled env) s) \<Longrightarrow> cancel_safe e p"
  by (simp add: cancel_safe_def)

lemma cancel_safe_bind [cancel_intros]:
  assumes "cancel_safe e p" "\<And>x. cancel_safe e (f x)"
  shows "cancel_safe e (vbind p f)"
  unfolding cancel_safe_def
proof (intro allI)
  fix env s
  from assms(1) consider "p env s = Inl e" | "p env s = p (never_cancelled env) s" unfolding cancel_safe_def by blast
  then show "vbind p f env s = Inl e \<or> vbind p f env s = vbind p f (never_cancelled env) s"
  proof cases
    case 1
    then show ?thesis by (simp add: vbind_def)
  next
    case 2
    then show ?thesis
      using assms(2) unfolding cancel_safe_def
      by (cases "p (never_cancelled env) s") (auto simp: vbind_def)
  qed
qed

lemma cancel_safe_then [cancel_intros]: "cancel_safe e p \<Longrightarrow> cancel_safe e q \<Longrightarrow> cancel_safe e (vthen p q)"
  unfolding vthen_def by (rule cancel_safe_bind)

lemma cancel_safe_steps [cancel_intros]:
  "cancel_safe e (vret x)" "cancel_safe e (vfail e')" "cancel_safe e (vguard bad e')" "cancel_safe e (vresult r)"
  "cancel_safe VerifyCancelled check_cancelled" "cancel_safe c (vbudget f)" "cancel_safe c (Decoder_new bs)" "cancel_safe c (dec_finish field)"
  "cancel_safe c (dec_take n)" "cancel_safe c (parse_uuid bs field)" "cancel_safe c seek_end" "cancel_safe c (seek_start t)"
  "cancel_safe c (read_exact n)" "cancel_safe c (payload_present n)" "cancel_safe c (check_digest bs d scope)" "cancel_safe c (hashing_new t)"
  "cancel_safe c hashing_finalize" "cancel_safe ve (visit_step vr)"
  by (auto simp: cancel_safe_def vret_def vfail_def vguard_def vresult_def check_cancelled_def vbudget_def Decoder_new_def dec_finish_def
      dec_take_def parse_uuid_def seek_end_def seek_start_def read_exact_def payload_present_def check_digest_def hashing_new_def
      hashing_finalize_def visit_step_def)

lemma cancel_safe_cases [cancel_intros]:
  "cancel_safe e p \<Longrightarrow> cancel_safe e q \<Longrightarrow> cancel_safe e (if c then p else q)"
  "(\<And>a b. cancel_safe e (f a b)) \<Longrightarrow> cancel_safe e (case pr of (a, b) \<Rightarrow> f a b)"
  "(\<And>a. cancel_safe e (g a)) \<Longrightarrow> (\<And>b. cancel_safe e (h b)) \<Longrightarrow> cancel_safe e (case r of Inl a \<Rightarrow> g a | Inr b \<Rightarrow> h b)"
  by (auto split: prod.splits sum.splits)

lemma cancel_safe_decoders [cancel_intros]:
  "cancel_safe e dec_u8" "cancel_safe e dec_u16" "cancel_safe e dec_u32" "cancel_safe e dec_u64" "cancel_safe e dec_cluster"
  "cancel_safe e dec_stream" "cancel_safe e dec_bookmark" "cancel_safe e dec_export" "cancel_safe e dec_group" "cancel_safe e dec_node"
  unfolding dec_u8_def dec_u16_def dec_u32_def dec_u64_def dec_cluster_def dec_stream_def dec_bookmark_def dec_export_def dec_group_def
    dec_node_def dec_nonzero_def
  by (intro cancel_intros)+

lemma cancel_safe_count [cancel_intros]: "cancel_safe e (dec_count limit name item)"
  unfolding dec_count_def by (intro cancel_intros cancel_free refl)

lemma cancel_safe_names [cancel_intros]: "cancel_safe e dec_stream_name" "cancel_safe e dec_bookmark_name"
  unfolding dec_stream_name_def dec_bookmark_name_def dec_string_def by (intro cancel_intros)+

lemma cancel_safe_times [cancel_intros]: "cancel_safe VerifyCancelled p \<Longrightarrow> cancel_safe VerifyCancelled (vtimes n p)"
proof (induction n)
  case 0
  then show ?case by (simp add: cancel_safe_steps)
next
  case (Suc n)
  then show ?case unfolding vtimes.simps by (intro cancel_intros) simp_all
qed

lemma cancel_safe_read [cancel_intros]: "cancel_safe VerifyCancelled (read_exact_cancellable n)"
  by (induction n rule: read_exact_cancellable.induct, subst read_exact_cancellable.simps) (auto intro!: cancel_intros)

lemma cancel_safe_compare [cancel_intros]: "cancel_safe VerifyCancelled (compare_bytes bs)"
  by (induction bs rule: compare_bytes.induct, subst compare_bytes.simps) (auto intro!: cancel_intros)

lemma cancel_safe_poll [cancel_intros]: "cancel_safe VerifyCancelled (poll_chunks n)"
  by (induction n rule: poll_chunks.induct, subst poll_chunks.simps) (auto intro!: cancel_intros)

lemma cancel_safe_all [cancel_intros]: "cancel_safe e p \<Longrightarrow> cancel_safe e (decode_all p bs name)"
  unfolding decode_all_def by (intro cancel_intros)

lemma cancel_safe_model [cancel_intros]:
  "cancel_safe e decode_cut" "cancel_safe e (decode_lifecycle tag)" "cancel_safe e (decode_position cl st)" "cancel_safe e decode_placement"
  "cancel_safe e (decode_section_kind k)" "cancel_safe e (decode_group_option t)" "cancel_safe e decode_totals"
  "cancel_safe e (decode_quiescent_cut c cs)" "cancel_safe e decode_header_fields" "cancel_safe e decode_trailer_fields"
  "cancel_safe e decode_prologue_fields"
  unfolding decode_cut_def decode_lifecycle_def decode_position_def decode_placement_def decode_section_kind_def decode_group_option_def
    decode_totals_def decode_quiescent_cut_def decode_header_fields_def decode_trailer_fields_def decode_prologue_fields_def
  by (intro cancel_intros)+

lemma cancel_safe_bookmarks [cancel_intros]:
  "cancel_safe VerifyCancelled (decode_stream_bookmark limits)" "cancel_safe e decode_partition_bookmark"
  unfolding decode_stream_bookmark_def decode_partition_bookmark_def Let_def by (intro cancel_intros)+

lemma cancel_safe_section [cancel_intros]: "cancel_safe e decode_section"
  unfolding decode_section_def by (intro cancel_intros)

lemma cancel_safe_record [cancel_intros]: "cancel_safe VerifyCancelled (decode_record limits)"
  unfolding decode_record_def by (intro cancel_intros)

lemma cancel_safe_parts [cancel_intros]:
  "cancel_safe VerifyCancelled (decode_stream limits)" "cancel_safe VerifyCancelled (decode_partition limits)"
  unfolding decode_stream_def decode_partition_def by (intro cancel_intros)+

lemma cancel_safe_payloads [cancel_intros]:
  "cancel_safe VerifyCancelled (decode_control bs limits)" "cancel_safe VerifyCancelled (decode_data_group bs limits)"
  "cancel_safe VerifyCancelled (decode_manifest bs limits)"
  unfolding decode_control_def decode_data_group_def decode_manifest_def decode_control_fields_def decode_data_group_fields_def
    decode_manifest_fields_def
  by (intro cancel_intros)+

lemma cancel_safe_read_section [cancel_intros]: "cancel_safe VerifyCancelled (read_section d x off moff limits)"
  unfolding read_section_def by (intro cancel_intros)

lemma cancel_safe_verify_step [cancel_intros]:
  "cancel_safe VerifyCancelled p \<Longrightarrow> cancel_safe (VisitVerify VerifyCancelled) (verify_step p)"
  unfolding cancel_safe_def verify_step_def by (metis sum.simps(5))

lemma cancel_safe_walk_parts [cancel_intros]:
  "cancel_safe VerifyCancelled (walk_data m moff limits ctx catalog index g c off v)"
  "cancel_safe VerifyCancelled (walk_control m moff limits)" "cancel_safe VerifyCancelled (walk_finish m moff limits ctx catalog off v)"
  unfolding walk_data_def walk_control_def walk_finish_def by (intro cancel_intros)+

lemma cancel_safe_walk_groups [cancel_intros]:
  "cancel_safe (VisitVerify VerifyCancelled) (walk_groups visitor m moff limits ctx catalog index gcs st)"
proof (induction gcs arbitrary: index st)
  case Nil
  then show ?case by (simp add: cancel_safe_steps)
next
  case (Cons gc gcs)
  then show ?case unfolding walk_groups.simps walk_group_def by (intro cancel_intros)
qed

lemma cancel_safe_walk [cancel_intros]: "cancel_safe (VisitVerify VerifyCancelled) (walk_sections visitor m moff limits z)"
  unfolding walk_sections_def by (intro cancel_intros)

lemma cancel_safe_run:
  assumes "cancel_safe e p"
  shows "p env s = Inl e \<or> p env s = p (never_cancelled env) s"
  using assms unfolding cancel_safe_def by blast

lemma cancel_safe_walk_verified [cancel_intros]: "cancel_safe VerifyCancelled (walk_verified m moff limits)"
  unfolding cancel_safe_def
proof (intro allI)
  fix env s
  show "walk_verified m moff limits env s = Inl VerifyCancelled \<or>
      walk_verified m moff limits env s = walk_verified m moff limits (never_cancelled env) s"
    using cancel_safe_run [OF cancel_safe_walk [of idle_visitor m moff limits "()"], of env s] by (auto simp: walk_verified_def)
qed

lemma cancel_safe_verify [cancel_intros]: "cancel_safe VerifyCancelled (verify_file limits)"
  unfolding verify_file_def read_trailer_def verify_content_def read_manifest_def Let_def verify_hashed_def read_prologue_def
  by (intro cancel_intros)

text \<open>
  C26. Cancelling only cancels: whatever the caller's \<open>cancelled\<close> answers and whenever, a verification ends with
  \<open>Cancelled\<close> or with the very result of a verification nobody cancels, and a visit of the sections ends with
  \<open>Cancelled\<close> or with the result of the uncancelled visit. No artifact is accepted, refused or read differently
  because of it.
\<close>

theorem cancelling_only_cancels:
  "(verify_cancellable env limits fl = Inl VerifyCancelled \<or> verify_cancellable env limits fl = verify env limits fl) \<and>
   (visit_sections_cancellable env visitor x v = Inl (VisitVerify VerifyCancelled) \<or>
    visit_sections_cancellable env visitor x v = visit_sections env visitor x v)"
proof -
  have "verify_cancellable env limits fl = Inl VerifyCancelled \<or> verify_cancellable env limits fl = verify env limits fl"
    using cancel_safe_run [OF cancel_safe_verify [of limits], of env "verify_start limits fl"]
    by (auto simp: verify_def verify_cancellable_def)
  moreover have "visit_sections_cancellable env visitor x v = Inl (VisitVerify VerifyCancelled) \<or>
      visit_sections_cancellable env visitor x v = visit_sections env visitor x v"
    using cancel_safe_run [OF cancel_safe_walk, of visitor "xins_manifest (xver_inspection x)" "xver_manifest_offset x" "xver_limits x" v env
        "verify_start (xver_limits x) (xver_file x)"]
    by (auto simp: visit_sections_def visit_sections_cancellable_def)
  ultimately show ?thesis by blast
qed

end
