(* ===== verification/Spec2Isabelle.thy ===== *)
theory Spec2Isabelle
  imports Topology Security Export_Protocol Publish_Properties Checkpoints Replica_Properties
    Group_Properties Maintenance Publish_Scheduler Artifact_Properties Artifact_Cancel
begin

text \<open>
  Light Stream stores streams of records. A stream has partitions; every partition lives in a data group, a
  consensus group whose members apply the same log of commands to a RocksDB database. One control group
  keeps the catalog of streams, the topology of the cluster, the security policy and the state of an
  export. Clients publish records, read them by offset, keep bookmarks and checkpoints, and take replay
  leases that hold back retention. An operator exports streams into a portable artifact. This development
  models the crates \<open>light-stream-core\<close> and \<open>light-stream-storage\<close>, that is, the data types, their checked
  constructors, the replicated state machine with its log, its payload store and its readers, the crate
  \<open>light-stream-export\<close>, that is, the format of the artifacts with its writer and its verifier, and of
  \<open>light-stream-server\<close> the publish scheduler and the driver of retention maintenance.

  \<^bold>\<open>Conventions.\<close> A struct is a record with a short field prefix, an enum a datatype with the names of the
  source. \<open>u8\<close> to \<open>u128\<close> are words of their width, so that \<open>+\<close> wraps and the checked, saturating and
  comparing operations of Rust are written out (\<open>Prelude\<close>); lengths and \<open>usize\<close> are naturals with the bound
  \<open>2 ^ 64\<close> in the checked operations. A key family of a column family of RocksDB is an ordered association
  list, the type \<open>table\<close>, read by \<open>tget\<close> and written by \<open>tput\<close> and \<open>tdel\<close>; that the byte keys of the code
  keep the families apart and in this order is proved in \<open>Keys\<close>. A handler takes the database it reads,
  \<open>db\<close>, and the state of the write batch, \<open>w\<close>, as the code does: reads see the database before the entry,
  writes go to the batch. It returns the batch and an \<open>ApplyResult\<close>; a broken database is an error of type
  \<open>io\<close>, a refused command is the result \<open>Rejected\<close>. SHA-256 and the JSON encodings of requests are fields of
  the parameter \<open>codec\<close>; where a lemma needs them to be injective on given messages, it says so.

  \<^bold>\<open>The theories and the code.\<close>
  \<^item> \<open>Prelude\<close>: words, results, tables, and the locales \<open>keeps_invariant\<close>, \<open>keeps_rank\<close> and
    \<open>keeps_history\<close> of step relations and their runs, interpreted below for the policy, the export, the
    group, the replica and the scheduler.
  \<^item> \<open>Domain\<close>: \<open>identity.rs\<close>, \<open>error.rs\<close>, \<open>cursor.rs\<close>, \<open>publish.rs\<close>, \<open>bookmark.rs\<close>, \<open>checkpoint.rs\<close>,
    \<open>replay.rs\<close>, \<open>catalog.rs\<close> and \<open>bootstrap.rs\<close> of the core crate. \<open>Topology\<close>: \<open>recovery.rs\<close>, with
    voter replacement. \<open>Security\<close>: \<open>security.rs\<close>, with policy mutations and authorization.
    \<open>Export_Protocol\<close>: \<open>operations.rs\<close>, the mutation fence and the state machine of an active export.
  \<^item> \<open>Keys\<close>: the key functions and fingerprints of \<open>storage/lib.rs\<close>. \<open>Retention_Rules\<close>: \<open>retention.rs\<close>.
    \<open>Group_State\<close>: the stored values and the record \<open>group_db\<close> of one group, which has a sub-record per
    part of the state.
  \<^item> The handlers of \<open>storage/lib.rs\<close>: \<open>Bookmarks\<close>, \<open>Mutation_Receipts\<close>, \<open>Checkpoints\<close>, \<open>Leases\<close> (floors,
    leases, reclamation), \<open>Publish_Apply\<close> (\<open>apply_publish\<close>, \<open>apply_publish_many\<close> and its transaction with
    read caches), \<open>Catalog\<close>, \<open>Administration\<close>, \<open>Export_Apply\<close>, and \<open>Apply_Command\<close> with \<open>apply_command\<close>,
    the classes of commands under a fence, and \<open>apply_entry\<close>.
  \<^item> \<open>Raft_Log\<close>: the log of a replica, whose entries keep their records apart (\<open>thin_entry\<close>, \<open>append_entries\<close>,
    \<open>try_get_log_entries\<close>, \<open>truncate_after\<close>, \<open>purge\<close>), and the ownership of payloads. \<open>Readers\<close>: fetching and
    the other readers of committed state.
  \<^item> \<open>Maintenance\<close>: \<open>maintain_group_retention\<close> of \<open>server/runtime.rs\<close>. \<open>Publish_Scheduler\<close>:
    \<open>server/publish_scheduler.rs\<close>, whose worker is the step relation \<open>worker_step\<close>.
  \<^item> The crate \<open>light-stream-export\<close>: \<open>Artifact_Codec\<close> (\<open>model.rs\<close>, \<open>error.rs\<close>, \<open>codec.rs\<close>, the decode budget),
    \<open>Artifact_Validate\<close> (\<open>validate.rs\<close>), \<open>Artifact_Encode\<close> (\<open>encode.rs\<close>, \<open>write_v1\<close>) and \<open>Artifact_Decode\<close>
    (\<open>decode.rs\<close>, \<open>verify_cancellable\<close> and \<open>visit_sections_cancellable\<close>). A file is a byte string; a verification
    threads the bytes left to decode, the budget, the reader and the number of polls of \<open>cancelled\<close>.
    SHA-256, the UUID parser and the answers of \<open>cancelled\<close> are fields of the parameter \<open>verify_env\<close>.

  \<^bold>\<open>What is shown.\<close>
  \<^item> Single components: replacement and abort of voters, authorization and policy mutations, the export
    protocol from begin to receipt, keys and fingerprints, checkpoints as compare-and-set, leases and their
    byte accounting, bookmarks and their pages, idempotent retries.
  \<^item> Publishing: \<open>Log_Invariant\<close> states the invariant of the record index (no gap between floor and tail,
    byte positions that add up), \<open>Publish_Log\<close> and \<open>Publish_Effects\<close> that publishing keeps it,
    \<open>Publish_Batch\<close> that the transaction with its caches refines the requests applied one by one.
  \<^item> Retention: \<open>Lease_Expiry\<close>, \<open>Lease_Safety\<close> and \<open>Lease_Handlers\<close> show that no handler reclaims what a
    live lease covers and that nothing below a floor is leaked, \<open>Lease_Origins\<close> and \<open>Lease_History\<close> what a
    lease keeps for its whole life.
  \<^item> The whole group: \<open>Catalog_Invariant\<close>, \<open>Administration_Effects\<close>, \<open>Export_Effects\<close> and \<open>Group_Effects\<close>
    give the effect of every command, \<open>Group_Invariant\<close> collects the invariants into \<open>group_ok\<close>,
    \<open>Group_Run\<close> shows that every command has one of ten kinds of effect and lifts invariant, history and the
    frozen export state to runs; \<open>Group_Properties\<close> states them.
  \<^item> The whole replica: \<open>Payload_Ownership\<close> and \<open>Replica_Store\<close> show that a payload is stored exactly as
    long as the log or the record index refers to it, \<open>Replica_Run\<close> that the log refines a list of entries
    under every interleaving of appends, truncations, purges and applications, \<open>Replica_Properties\<close> that
    what was acknowledged or leased is read back.
  \<^item> The server side: while no lease falls due, a maintenance round moves the cursor by at least eight
    offsets or to the floor, so the driver ends on a backlog of up to 504 offsets; the counters of the
    scheduler are exact, its commands fit, and no waiter that waits is forgotten or answered twice. An
    admission and the final drain of the scheduler are one step each, which leaves out a request that is
    still being admitted while the scheduler shuts down.
  \<^item> Export artifacts: \<open>Artifact_Parse\<close> shows that every decoder reads back what its encoder wrote,
    \<open>Artifact_Image\<close> which bytes a completed \<open>write_v1\<close> left, \<open>Artifact_Read\<close> that the verifier walks over
    them; \<open>Artifact_Properties\<close> joins them to the round trip and \<open>Artifact_Cancel\<close> compares a verification
    with one that is cancelled. \<open>Artifact_Sample\<close> holds the export the witness writes and verifies.

  \<^bold>\<open>Bounds.\<close> No definition runs on fuel but \<open>maintain_rounds\<close>, whose bound of 64 rounds is the bound of
  the code. Loops are structural or have a termination measure. \<open>command_fits\<close> states what the group
  theorems ask of a command: batches shorter than \<open>2 ^ 64\<close> records (the code accepts 128), publication
  counters that are not exhausted, and lease identities that do not collide. The scheduler theorems ask for
  queue limits below \<open>usize::MAX\<close>, where its saturating counters would stick.

  \<^bold>\<open>Not modelled.\<close> Opening and migrating a database, the write lane and group commit of RocksDB, snapshots
  and the installation of a second state bank, the database side of logical export and restore (the
  iterators that fill the artifact and the bank a restore builds), the consensus library, the rest of the server (request routing, orchestration of administration and
  exports over the network, connections, TLS, configuration, background loops), the client, the command line
  and the conversion of protobuf messages. They are input and output, code of the consensus and RPC
  libraries, or timing; the commands they propose are the commands modelled here.
\<close>

end
